(* ===== verification/Prelude.thy ===== *)
theory Prelude
  imports Main "HOL-Library.Word"
begin

text \<open>
  Shared ground of the development: the widths of Rust's machine integers, Rust's
  \<open>Result\<close> with the \<open>?\<close> operator as \<open>r_bind\<close>, and the generic facts about
  lists, options and results that the component theories rely on.  Facts that the
  component proofs use as a group are collected in the named theorem lists
  \<open>result_simps\<close>, \<open>str_simps\<close> and \<open>json_simps\<close>.
\<close>

unbundle bit_operations_syntax

named_theorems result_simps "inversion and evaluation of results"
named_theorems str_simps "evaluation of the string operations"
named_theorems json_simps "evaluation of JSON object construction and lookup"

section \<open>Machine integers\<close>

type_synonym u8 = "8 word"
type_synonym u16 = "16 word"
type_synonym u32 = "32 word"
type_synonym u64 = "64 word"
type_synonym i32 = "32 word"
type_synonym i64 = "64 word"

section \<open>Results\<close>

text \<open>Rust's \<open>Result<T, E>\<close>.\<close>

datatype ('a, 'e) result = Ok 'a | Err 'e

text \<open>\<open>r_bind m f\<close> is \<open>let x = m?; f x\<close>: the error returns early.\<close>

fun r_bind :: "('a, 'e) result \<Rightarrow> ('a \<Rightarrow> ('b, 'e) result) \<Rightarrow> ('b, 'e) result" where
  "r_bind (Ok x) f = f x"
| "r_bind (Err e) f = Err e"

fun r_map :: "('a \<Rightarrow> 'b) \<Rightarrow> ('a, 'e) result \<Rightarrow> ('b, 'e) result" where
  "r_map f (Ok x) = Ok (f x)"
| "r_map f (Err e) = Err e"

fun r_map_err :: "('e \<Rightarrow> 'f) \<Rightarrow> ('a, 'e) result \<Rightarrow> ('a, 'f) result" where
  "r_map_err f (Ok x) = Ok x"
| "r_map_err f (Err e) = Err (f e)"

text \<open>\<open>Option::ok_or_else\<close>, \<open>Result::ok\<close>, \<open>Option::unwrap_or\<close>.\<close>

fun ok_or :: "'e \<Rightarrow> 'a option \<Rightarrow> ('a, 'e) result" where
  "ok_or e None = Err e"
| "ok_or e (Some x) = Ok x"

fun r_ok :: "('a, 'e) result \<Rightarrow> 'a option" where
  "r_ok (Ok x) = Some x"
| "r_ok (Err e) = None"

fun unwrap_or :: "'a \<Rightarrow> 'a option \<Rightarrow> 'a" where
  "unwrap_or d None = d"
| "unwrap_or d (Some x) = x"

fun is_ok :: "('a, 'e) result \<Rightarrow> bool" where
  "is_ok (Ok _) = True"
| "is_ok (Err _) = False"

text \<open>\<open>iter().map(f).collect::<Result<Vec<_>>>()\<close>: stops at the first error.\<close>

fun r_mapM :: "('a \<Rightarrow> ('b, 'e) result) \<Rightarrow> 'a list \<Rightarrow> ('b list, 'e) result" where
  "r_mapM f [] = Ok []"
| "r_mapM f (x # xs) = r_bind (f x) (\<lambda>y. r_bind (r_mapM f xs) (\<lambda>ys. Ok (y # ys)))"

text \<open>A \<open>for\<close> loop with an accumulator whose body may return early.\<close>

fun r_fold :: "('a \<Rightarrow> 's \<Rightarrow> ('s, 'e) result) \<Rightarrow> 'a list \<Rightarrow> 's \<Rightarrow> ('s, 'e) result" where
  "r_fold f [] s = Ok s"
| "r_fold f (x # xs) s = r_bind (f x s) (r_fold f xs)"

lemma r_bind_eq_Ok [simp, result_simps]:
  "r_bind m f = Ok y \<longleftrightarrow> (\<exists>x. m = Ok x \<and> f x = Ok y)"
  by (cases m) auto

lemma r_bind_eq_Err [result_simps]:
  "r_bind m f = Err e \<longleftrightarrow> m = Err e \<or> (\<exists>x. m = Ok x \<and> f x = Err e)"
  by (cases m) auto

lemma r_bind_assoc: "r_bind (r_bind m f) g = r_bind m (\<lambda>x. r_bind (f x) g)"
  by (cases m) auto

lemma r_map_eq_Ok [simp, result_simps]: "r_map f m = Ok y \<longleftrightarrow> (\<exists>x. m = Ok x \<and> y = f x)"
  by (cases m) auto

lemma r_map_err_eq_Ok [simp, result_simps]: "r_map_err f m = Ok y \<longleftrightarrow> m = Ok y"
  by (cases m) auto

lemma ok_or_eq_Ok [simp, result_simps]: "ok_or e m = Ok y \<longleftrightarrow> m = Some y"
  by (cases m) auto

lemma r_ok_eq_Some [simp, result_simps]: "r_ok m = Some y \<longleftrightarrow> m = Ok y"
  by (cases m) auto

lemma r_ok_eq_None [result_simps]: "r_ok m = None \<longleftrightarrow> (\<exists>e. m = Err e)"
  by (cases m) auto

lemma is_ok_iff [result_simps]: "is_ok m \<longleftrightarrow> (\<exists>x. m = Ok x)"
  by (cases m) auto

lemma r_mapM_Ok: "(\<And>x. x \<in> set xs \<Longrightarrow> f x = Ok (g x)) \<Longrightarrow> r_mapM f xs = Ok (map g xs)"
  by (induction xs) auto

lemma r_mapM_eq_Ok: "r_mapM f xs = Ok ys \<longleftrightarrow> list_all2 (\<lambda>x y. f x = Ok y) xs ys"
proof (induction xs arbitrary: ys)
  case Nil
  then show ?case by auto
next
  case (Cons x xs)
  then show ?case by (cases ys) auto
qed

lemma r_fold_append: "r_fold f (xs @ ys) s = r_bind (r_fold f xs s) (r_fold f ys)"
proof (induction xs arbitrary: s)
  case Nil
  then show ?case by simp
next
  case (Cons x xs)
  then have "r_fold f (xs @ ys) = (\<lambda>s. r_bind (r_fold f xs s) (r_fold f ys))" by blast
  then show ?case by (simp add: r_bind_assoc)
qed

text \<open>An invariant of the loop body is an invariant of the loop.\<close>

lemma r_fold_invariant:
  assumes "r_fold f xs s = Ok t" and "P s"
    and "\<And>x a b. x \<in> set xs \<Longrightarrow> P a \<Longrightarrow> f x a = Ok b \<Longrightarrow> P b"
  shows "P t"
  using assms
proof (induction xs arbitrary: s)
  case Nil
  then show ?case by simp
next
  case (Cons x xs)
  from Cons.prems(1) obtain a where a: "f x s = Ok a" "r_fold f xs a = Ok t" by auto
  have "P a" using Cons.prems(2,3) a(1) by force
  with a(2) Cons.prems(3) show ?case by (intro Cons.IH) auto
qed

section \<open>Lists\<close>

lemma find_append: "List.find P (xs @ ys) = (case List.find P xs of None \<Rightarrow> List.find P ys | Some x \<Rightarrow> Some x)"
  by (induction xs) auto

lemma find_None_filter: "List.find P xs = None \<longleftrightarrow> filter P xs = []"
  by (auto simp: find_None_iff filter_empty_conv)

lemma distinct_map_filter_prop: "distinct (map f xs) \<Longrightarrow> distinct (map f (filter P xs))"
  by (induction xs) auto

lemma take_length_append [simp]: "take (length xs) (xs @ ys) = xs"
  by simp

lemma dropWhile_hd_stop: "xs \<noteq> [] \<Longrightarrow> \<not> P (hd xs) \<Longrightarrow> dropWhile P xs = xs"
  by (cases xs) auto

end
