(* ===== verification/Rust_Str.thy ===== *)
theory Rust_Str
  imports Prelude
begin

text \<open>
  The part of Rust's string library the program uses.  A Rust \<open>String\<close> is its UTF-8
  bytes: \<open>string\<close> is a list of 8-bit \<open>char\<close>s, \<open>length\<close> is \<open>str::len\<close>.  Operations that
  Rust defines on \<open>char\<close>s (\<open>trim\<close>, \<open>split_whitespace\<close>, \<open>chars().take(n)\<close>) decode the
  bytes they look at.  The theory also holds the decimal and radix conversions
  (\<open>Display\<close>, \<open>FromStr\<close>, \<open>from_str_radix\<close>) and \<open>{:?}\<close> for strings.
\<close>

section \<open>Characters\<close>

definition byte :: "char \<Rightarrow> nat" where
  "byte c = of_char c"

definition is_ascii_digit :: "char \<Rightarrow> bool" where
  "is_ascii_digit c \<longleftrightarrow> 48 \<le> byte c \<and> byte c \<le> 57"

definition is_ascii_upper :: "char \<Rightarrow> bool" where
  "is_ascii_upper c \<longleftrightarrow> 65 \<le> byte c \<and> byte c \<le> 90"

definition is_ascii_lower :: "char \<Rightarrow> bool" where
  "is_ascii_lower c \<longleftrightarrow> 97 \<le> byte c \<and> byte c \<le> 122"

definition is_ascii_alphanumeric :: "char \<Rightarrow> bool" where
  "is_ascii_alphanumeric c \<longleftrightarrow> is_ascii_digit c \<or> is_ascii_upper c \<or> is_ascii_lower c"

definition lower_char :: "char \<Rightarrow> char" where
  "lower_char c = (if is_ascii_upper c then char_of (byte c + 32) else c)"

definition upper_char :: "char \<Rightarrow> char" where
  "upper_char c = (if is_ascii_lower c then char_of (byte c - 32) else c)"

definition to_ascii_lowercase :: "string \<Rightarrow> string" where
  "to_ascii_lowercase s = map lower_char s"

definition to_ascii_uppercase :: "string \<Rightarrow> string" where
  "to_ascii_uppercase s = map upper_char s"

definition eq_ignore_ascii_case :: "string \<Rightarrow> string \<Rightarrow> bool" where
  "eq_ignore_ascii_case a b \<longleftrightarrow> to_ascii_lowercase a = to_ascii_lowercase b"

section \<open>Prefixes, suffixes and splitting\<close>

fun starts_with :: "string \<Rightarrow> string \<Rightarrow> bool" where
  "starts_with s [] = True"
| "starts_with [] (p # ps) = False"
| "starts_with (c # s) (p # ps) = (c = p \<and> starts_with s ps)"

definition ends_with :: "string \<Rightarrow> string \<Rightarrow> bool" where
  "ends_with s p = starts_with (rev s) (rev p)"

definition strip_prefix :: "string \<Rightarrow> string \<Rightarrow> string option" where
  "strip_prefix s p = (if starts_with s p then Some (drop (length p) s) else None)"

definition strip_suffix :: "string \<Rightarrow> string \<Rightarrow> string option" where
  "strip_suffix s p = (if ends_with s p then Some (take (length s - length p) s) else None)"

fun str_contains :: "string \<Rightarrow> string \<Rightarrow> bool" where
  "str_contains [] p = (p = [])"
| "str_contains (c # s) p = (starts_with (c # s) p \<or> str_contains s p)"

text \<open>\<open>split_once(c)\<close>: the parts before and after the first \<open>c\<close>.\<close>

fun split_once :: "string \<Rightarrow> char \<Rightarrow> (string \<times> string) option" where
  "split_once [] d = None"
| "split_once (c # s) d =
     (if c = d then Some ([], s)
      else case split_once s d of None \<Rightarrow> None | Some (a, b) \<Rightarrow> Some (c # a, b))"

text \<open>\<open>split(c)\<close>: always at least one part.\<close>

fun str_split :: "string \<Rightarrow> char \<Rightarrow> string list" where
  "str_split [] d = [[]]"
| "str_split (c # s) d =
     (if c = d then [] # str_split s d
      else case str_split s d of [] \<Rightarrow> [[c]] | p # ps \<Rightarrow> (c # p) # ps)"

fun str_join :: "string \<Rightarrow> string list \<Rightarrow> string" where
  "str_join sep [] = []"
| "str_join sep [x] = x"
| "str_join sep (x # y # ys) = x @ sep @ str_join sep (y # ys)"

text \<open>\<open>lines()\<close>: split at newlines, drop one trailing empty part and a \<open>\r\<close> before
  each newline.\<close>

definition strip_cr :: "string \<Rightarrow> string" where
  "strip_cr l = (if l \<noteq> [] \<and> byte (last l) = 13 then butlast l else l)"

fun lines_aux :: "string list \<Rightarrow> string list" where
  "lines_aux [] = []"
| "lines_aux [l] = (if l = [] then [] else [l])"
| "lines_aux (l # m # ls) = strip_cr l # lines_aux (m # ls)"

definition str_lines :: "string \<Rightarrow> string list" where
  "str_lines s = lines_aux (str_split s (CHR 0x0A))"

section \<open>White space\<close>

text \<open>
  \<open>ws_len s\<close> is the number of bytes of the white-space character at the start of \<open>s\<close>,
  \<open>0\<close> if there is none: the Unicode property \<open>White_Space\<close>, decoded from UTF-8.
\<close>

definition ws_len :: "string \<Rightarrow> nat" where
  "ws_len s = (case map byte (take 3 s) of
      [] \<Rightarrow> 0
    | a # r \<Rightarrow>
       if 9 \<le> a \<and> a \<le> 13 \<or> a = 32 then 1
       else (case r of
          [] \<Rightarrow> 0
        | b # r' \<Rightarrow>
           if a = 0xC2 \<and> (b = 0x85 \<or> b = 0xA0) then 2
           else (case r' of
              [] \<Rightarrow> 0
            | c # _ \<Rightarrow>
               if a = 0xE1 \<and> b = 0x9A \<and> c = 0x80
                \<or> a = 0xE2 \<and> b = 0x80 \<and> (0x80 \<le> c \<and> c \<le> 0x8A \<or> c = 0xA8 \<or> c = 0xA9 \<or> c = 0xAF)
                \<or> a = 0xE2 \<and> b = 0x81 \<and> c = 0x9F
                \<or> a = 0xE3 \<and> b = 0x80 \<and> c = 0x80
               then 3 else 0)))"

fun trim_start_fuel :: "nat \<Rightarrow> string \<Rightarrow> string" where
  "trim_start_fuel 0 s = s"
| "trim_start_fuel (Suc n) s = (if ws_len s = 0 then s else trim_start_fuel n (drop (ws_len s) s))"

definition trim_start :: "string \<Rightarrow> string" where
  "trim_start s = trim_start_fuel (length s) s"

text \<open>The white-space character that ends \<open>s\<close>: 1, 2 or 3 bytes, or none.\<close>

definition ws_end_len :: "string \<Rightarrow> nat" where
  "ws_end_len s =
     (let n = length s
      in if 1 \<le> n \<and> ws_len (drop (n - 1) s) = 1 then 1
         else if 2 \<le> n \<and> ws_len (drop (n - 2) s) = 2 then 2
         else if 3 \<le> n \<and> ws_len (drop (n - 3) s) = 3 then 3 else 0)"

fun trim_end_fuel :: "nat \<Rightarrow> string \<Rightarrow> string" where
  "trim_end_fuel 0 s = s"
| "trim_end_fuel (Suc n) s =
     (if ws_end_len s = 0 then s else trim_end_fuel n (take (length s - ws_end_len s) s))"

definition trim_end :: "string \<Rightarrow> string" where
  "trim_end s = trim_end_fuel (length s) s"

definition str_trim :: "string \<Rightarrow> string" where
  "str_trim s = trim_end (trim_start s)"

text \<open>\<open>split_whitespace()\<close>: the maximal runs without white space.\<close>

fun split_ws_fuel :: "nat \<Rightarrow> string \<Rightarrow> string \<Rightarrow> string list" where
  "split_ws_fuel 0 cur s = (if cur = [] then [] else [cur])"
| "split_ws_fuel (Suc n) cur [] = (if cur = [] then [] else [cur])"
| "split_ws_fuel (Suc n) cur (c # s) =
     (if ws_len (c # s) = 0 then split_ws_fuel n (cur @ [c]) s
      else (if cur = [] then [] else [cur]) @ split_ws_fuel n [] (drop (ws_len (c # s)) (c # s)))"

definition split_whitespace :: "string \<Rightarrow> string list" where
  "split_whitespace s = split_ws_fuel (Suc (length s)) [] s"

text \<open>\<open>chars().take(n)\<close>: a byte that is not a continuation byte starts a character.\<close>

fun chars_take :: "nat \<Rightarrow> string \<Rightarrow> string" where
  "chars_take n [] = []"
| "chars_take n (c # s) =
     (if byte c div 64 = 2 then c # chars_take n s
      else if n = 0 then [] else c # chars_take (n - 1) s)"

section \<open>Numbers\<close>

definition digit_char :: "nat \<Rightarrow> char" where
  "digit_char n = char_of (if n < 10 then 48 + n else 87 + n)"

text \<open>\<open>char::to_digit(radix)\<close>.\<close>

definition to_digit :: "nat \<Rightarrow> char \<Rightarrow> nat option" where
  "to_digit radix c =
     (let v = (if is_ascii_digit c then byte c - 48
               else if is_ascii_lower c then byte c - 87
               else if is_ascii_upper c then byte c - 55
               else 36)
      in if v < radix then Some v else None)"

text \<open>\<open>Display\<close> of an unsigned integer, in a radix, and of a signed one.\<close>

fun show_radix :: "nat \<Rightarrow> nat \<Rightarrow> string" where
  "show_radix r n =
     (if n < r \<or> r < 2 then [digit_char n] else show_radix r (n div r) @ [digit_char (n mod r)])"

declare show_radix.simps [simp del]

definition show_nat :: "nat \<Rightarrow> string" where
  "show_nat n = show_radix 10 n"

definition show_int :: "int \<Rightarrow> string" where
  "show_int i = (if i < 0 then CHR ''-'' # show_nat (nat (- i)) else show_nat (nat i))"

text \<open>\<open>{:0wx}\<close>-style padding with zeros to a width.\<close>

definition pad_zero :: "nat \<Rightarrow> string \<Rightarrow> string" where
  "pad_zero w s = replicate (w - length s) (CHR ''0'') @ s"

fun digits_val :: "nat \<Rightarrow> nat \<Rightarrow> string \<Rightarrow> nat option" where
  "digits_val r acc [] = Some acc"
| "digits_val r acc (c # s) =
     (case to_digit r c of None \<Rightarrow> None | Some d \<Rightarrow> digits_val r (acc * r + d) s)"

definition nat_of_radix :: "nat \<Rightarrow> string \<Rightarrow> nat option" where
  "nat_of_radix r s = (if s = [] then None else digits_val r 0 s)"

text \<open>
  \<open>uN::from_str_radix\<close> and \<open>iN::from_str_radix\<close>: an optional \<open>+\<close> (for signed types also
  \<open>-\<close>), at least one digit, no overflow.  \<open>parse::<T>()\<close> is radix 10.
\<close>

definition parse_unsigned :: "nat \<Rightarrow> nat \<Rightarrow> string \<Rightarrow> nat option" where
  "parse_unsigned w r s =
     (let body = (case s of c # t \<Rightarrow> if c = CHR ''+'' \<and> t \<noteq> [] then t else s | [] \<Rightarrow> [])
      in case nat_of_radix r body of
           None \<Rightarrow> None
         | Some n \<Rightarrow> if n < 2 ^ w then Some n else None)"

definition parse_signed :: "nat \<Rightarrow> nat \<Rightarrow> string \<Rightarrow> int option" where
  "parse_signed w r s =
     (let (neg, body) = (case s of
            c # t \<Rightarrow> if c = CHR ''+'' \<and> t \<noteq> [] then (False, t)
                     else if c = CHR ''-'' \<and> t \<noteq> [] then (True, t) else (False, s)
          | [] \<Rightarrow> (False, []))
      in case nat_of_radix r body of
           None \<Rightarrow> None
         | Some n \<Rightarrow>
             let i = (if neg then - int n else int n)
             in if - (2 ^ (w - 1)) \<le> i \<and> i < 2 ^ (w - 1) then Some i else None)"

definition parse_u8 :: "string \<Rightarrow> u8 option" where
  "parse_u8 s = map_option of_nat (parse_unsigned 8 10 s)"

definition parse_u16 :: "string \<Rightarrow> u16 option" where
  "parse_u16 s = map_option of_nat (parse_unsigned 16 10 s)"

definition parse_u32 :: "string \<Rightarrow> u32 option" where
  "parse_u32 s = map_option of_nat (parse_unsigned 32 10 s)"

definition parse_u64 :: "string \<Rightarrow> u64 option" where
  "parse_u64 s = map_option of_nat (parse_unsigned 64 10 s)"

definition parse_i32 :: "string \<Rightarrow> i32 option" where
  "parse_i32 s = map_option of_int (parse_signed 32 10 s)"

definition parse_i64 :: "string \<Rightarrow> i64 option" where
  "parse_i64 s = map_option of_int (parse_signed 64 10 s)"

section \<open>Debug formatting and UTF-8\<close>

text \<open>\<open>{:?}\<close> of a string: quotes, with quotes, backslashes and control bytes escaped.\<close>

definition debug_char :: "char \<Rightarrow> string" where
  "debug_char c =
     (if c = CHR 0x22 then [CHR 0x5C, CHR 0x22]
      else if c = CHR 0x5C then [CHR 0x5C, CHR 0x5C]
      else if c = CHR 0x0A then [CHR 0x5C, CHR ''n'']
      else if c = CHR 0x0D then [CHR 0x5C, CHR ''r'']
      else if c = CHR 0x09 then [CHR 0x5C, CHR ''t'']
      else if c = CHR 0x00 then [CHR 0x5C, CHR ''0'']
      else if byte c < 32 \<or> byte c = 127
           then [CHR 0x5C, CHR ''u'', CHR 0x7B] @ show_radix 16 (byte c) @ [CHR 0x7D]
      else [c])"

definition debug_str :: "string \<Rightarrow> string" where
  "debug_str s = [CHR 0x22] @ concat (map debug_char s) @ [CHR 0x22]"

text \<open>\<open>char::from_u32\<close> followed by \<open>String::push\<close>; a surrogate or too large code point
  is replaced by \<open>U+FFFD\<close> by the callers.\<close>

definition is_scalar :: "nat \<Rightarrow> bool" where
  "is_scalar n \<longleftrightarrow> n < 0xD800 \<or> 0xE000 \<le> n \<and> n < 0x110000"

definition utf8_encode :: "nat \<Rightarrow> string" where
  "utf8_encode n =
     map char_of
      (if n < 0x80 then [n]
       else if n < 0x800 then [0xC0 + n div 64, 0x80 + n mod 64]
       else if n < 0x10000 then [0xE0 + n div 4096, 0x80 + n div 64 mod 64, 0x80 + n mod 64]
       else [0xF0 + n div 262144, 0x80 + n div 4096 mod 64, 0x80 + n div 64 mod 64,
             0x80 + n mod 64])"

text \<open>
  \<open>std::str::from_utf8\<close>: \<open>utf8_len\<close> is the length of the well-formed character at the
  start of the bytes (no overlong forms, no surrogates), \<open>0\<close> if there is none.
\<close>

definition utf8_cont :: "nat \<Rightarrow> bool" where
  "utf8_cont b \<longleftrightarrow> 0x80 \<le> b \<and> b \<le> 0xBF"

definition utf8_len :: "string \<Rightarrow> nat" where
  "utf8_len s = (case map byte (take 4 s) of
      [] \<Rightarrow> 0
    | a # r \<Rightarrow>
       if a < 0x80 then 1
       else (case r of
          [] \<Rightarrow> 0
        | b # r' \<Rightarrow>
           if 0xC2 \<le> a \<and> a \<le> 0xDF then (if utf8_cont b then 2 else 0)
           else (case r' of
              [] \<Rightarrow> 0
            | c # r'' \<Rightarrow>
               if 0xE0 \<le> a \<and> a \<le> 0xEF
               then (if (if a = 0xE0 then 0xA0 \<le> b \<and> b \<le> 0xBF
                         else if a = 0xED then 0x80 \<le> b \<and> b \<le> 0x9F
                         else utf8_cont b) \<and> utf8_cont c then 3 else 0)
               else (case r'' of
                  [] \<Rightarrow> 0
                | d # _ \<Rightarrow>
                   if 0xF0 \<le> a \<and> a \<le> 0xF4
                    \<and> (if a = 0xF0 then 0x90 \<le> b \<and> b \<le> 0xBF
                       else if a = 0xF4 then 0x80 \<le> b \<and> b \<le> 0x8F else utf8_cont b)
                    \<and> utf8_cont c \<and> utf8_cont d then 4 else 0))))"

fun utf8_valid_fuel :: "nat \<Rightarrow> string \<Rightarrow> bool" where
  "utf8_valid_fuel 0 s = (s = [])"
| "utf8_valid_fuel (Suc n) s =
     (s = [] \<or> utf8_len s \<noteq> 0 \<and> utf8_valid_fuel n (drop (utf8_len s) s))"

definition utf8_valid :: "string \<Rightarrow> bool" where
  "utf8_valid s = utf8_valid_fuel (length s) s"


section \<open>Laws\<close>

lemma byte_less_256 [simp]: "byte c < 256"
  by (simp add: byte_def)

lemma byte_inject [simp]: "byte c = byte d \<longleftrightarrow> c = d"
  by (simp add: byte_def)

lemma byte_char_of: "n < 256 \<Longrightarrow> byte (char_of n) = n"
  by (simp add: byte_def)

lemma char_of_byte [simp]: "char_of (byte c) = c"
  by (simp add: byte_def)

lemma starts_with_iff: "starts_with s p \<longleftrightarrow> (\<exists>t. s = p @ t)"
  by (induction s p rule: starts_with.induct) auto

lemma starts_with_append [simp]: "starts_with (p @ t) p"
  by (auto simp: starts_with_iff)

lemma starts_with_take: "starts_with s p \<longleftrightarrow> take (length p) s = p"
  by (auto simp: starts_with_iff) (metis append_take_drop_id)

lemma strip_prefix_append [simp]: "strip_prefix (p @ t) p = Some t"
  by (simp add: strip_prefix_def)

lemma strip_prefix_eq_Some: "strip_prefix s p = Some t \<longleftrightarrow> s = p @ t"
  by (auto simp: strip_prefix_def starts_with_iff split: if_splits)

lemma split_once_None: "split_once s d = None \<longleftrightarrow> d \<notin> set s"
  by (induction s) (auto split: option.splits)

lemma split_once_append: "d \<notin> set a \<Longrightarrow> split_once (a @ d # b) d = Some (a, b)"
  by (induction a) auto

lemma split_once_Some:
  "split_once s d = Some (a, b) \<longleftrightarrow> s = a @ d # b \<and> d \<notin> set a"
proof
  assume "split_once s d = Some (a, b)"
  then show "s = a @ d # b \<and> d \<notin> set a"
    by (induction s arbitrary: a) (auto split: if_splits option.splits)
qed (auto simp: split_once_append)

lemma str_split_nonempty [simp]: "str_split s d \<noteq> []"
  by (induction s) (auto split: list.splits)

lemma str_split_single: "d \<notin> set a \<Longrightarrow> str_split a d = [a]"
  by (induction a) auto

lemma str_split_append: "d \<notin> set a \<Longrightarrow> str_split (a @ d # s) d = a # str_split s d"
  by (induction a) auto

lemma str_split_parts: "p \<in> set (str_split s d) \<Longrightarrow> d \<notin> set p"
  by (induction s arbitrary: p) (auto split: if_splits list.splits)

lemma str_split_join: "str_join [d] (str_split s d) = s"
proof (induction s)
  case Nil
  then show ?case by simp
next
  case (Cons c s)
  obtain p ps where ps: "str_split s d = p # ps" by (cases "str_split s d") auto
  with Cons show ?case by (cases ps) auto
qed

text \<open>Trimming: a string that neither starts nor ends with white space is unchanged.\<close>

lemma trim_start_noop: "ws_len s = 0 \<Longrightarrow> trim_start s = s"
  unfolding trim_start_def by (cases "length s") auto

lemma trim_end_noop: "ws_end_len s = 0 \<Longrightarrow> trim_end s = s"
  unfolding trim_end_def by (cases "length s") auto

definition graphic :: "char \<Rightarrow> bool" where
  "graphic c \<longleftrightarrow> 33 \<le> byte c \<and> byte c < 128"

lemma ws_len_graphic: "graphic c \<Longrightarrow> ws_len (c # s) = 0"
  by (auto simp: ws_len_def graphic_def split: list.splits)

lemma ws_end_graphic:
  assumes "\<forall>c \<in> set s. graphic c"
  shows "ws_end_len s = 0"
proof -
  have drop: "ws_len (drop k s) = 0" if "k < length s" for k
  proof -
    from that obtain c t where "drop k s = c # t"
      by (metis Cons_nth_drop_Suc)
    moreover from this have "c \<in> set s" by (metis in_set_dropD list.set_intros(1))
    ultimately show ?thesis using assms ws_len_graphic by simp
  qed
  show ?thesis
    using drop [of "length s - 1"] drop [of "length s - 2"] drop [of "length s - 3"]
    by (auto simp: ws_end_len_def Let_def)
qed

lemma str_trim_graphic [simp]:
  assumes "\<forall>c \<in> set s. graphic c"
  shows "str_trim s = s"
proof -
  have "ws_len s = 0"
    using assms by (cases s) (simp_all add: ws_len_graphic, simp add: ws_len_def)
  then show ?thesis
    by (simp add: str_trim_def trim_start_noop trim_end_noop ws_end_graphic assms)
qed

lemma ws_end_last:
  assumes "graphic d"
  shows "ws_end_len (m @ [d]) = 0"
proof -
  have "ws_len [d] = 0" using assms by (rule ws_len_graphic)
  moreover have "ws_len [a, d] \<noteq> 2" "ws_len [a, b, d] \<noteq> 3" for a b
    using assms by (auto simp: ws_len_def graphic_def split: if_splits)
  moreover have "drop (length m) (m @ [d]) = [d]" by simp
  moreover have "\<exists>a. drop (length m - 1) (m @ [d]) = [a, d]" if "m \<noteq> []"
    using that by (cases m rule: rev_cases) auto
  moreover have "\<exists>a b. drop (length m - 2) (m @ [d]) = [a, b, d]" if l: "2 \<le> length m"
  proof -
    obtain x b where 1: "m = x @ [b]" using l by (cases m rule: rev_cases) auto
    obtain y a where "x = y @ [a]" using l 1 by (cases x rule: rev_cases) auto
    then show ?thesis using 1 by simp
  qed
  ultimately show ?thesis
    by (cases "m = []"; cases "2 \<le> length m") (fastforce simp: ws_end_len_def Let_def numeral_2_eq_2 numeral_3_eq_3)+
qed

lemma str_trim_ends:
  assumes "graphic c" "graphic d"
  shows "str_trim (c # m @ [d]) = c # m @ [d]"
proof -
  have "ws_len (c # m @ [d]) = 0" using assms(1) by (rule ws_len_graphic)
  then show ?thesis
    using ws_end_last [OF assms(2), of "c # m"] by (simp add: str_trim_def trim_start_noop trim_end_noop)
qed
subsection \<open>Printing and parsing numbers\<close>

lemma to_digit_digit_char: "n < r \<Longrightarrow> r \<le> 36 \<Longrightarrow> to_digit r (digit_char n) = Some n"
  by (auto simp: to_digit_def digit_char_def byte_char_of is_ascii_digit_def
      is_ascii_lower_def is_ascii_upper_def Let_def)

lemma digits_val_append:
  "digits_val r acc (s @ t) = Option.bind (digits_val r acc s) (\<lambda>a. digits_val r a t)"
  by (induction s arbitrary: acc) (auto split: option.splits)

lemma show_radix_nonempty [simp]: "show_radix r n \<noteq> []"
  by (subst show_radix.simps) simp

lemma digits_val_show_radix:
  "2 \<le> r \<Longrightarrow> r \<le> 36 \<Longrightarrow> digits_val r 0 (show_radix r n) = Some n"
proof (induction r n rule: show_radix.induct)
  case (1 r n)
  show ?case
  proof (cases "n < r")
    case True
    with 1 show ?thesis by (simp add: show_radix.simps [of r n] to_digit_digit_char)
  next
    case False
    with 1 have "digits_val r 0 (show_radix r (n div r)) = Some (n div r)" by simp
    with False 1 show ?thesis
      by (simp add: show_radix.simps [of r n] digits_val_append to_digit_digit_char)
  qed
qed

lemma nat_of_radix_show: "2 \<le> r \<Longrightarrow> r \<le> 36 \<Longrightarrow> nat_of_radix r (show_radix r n) = Some n"
  by (simp add: nat_of_radix_def digits_val_show_radix)

lemma show_nat_rec:
  "show_nat n = (if n < 10 then [digit_char n] else show_nat (n div 10) @ [digit_char (n mod 10)])"
  unfolding show_nat_def by (subst show_radix.simps) simp

lemma show_nat_digits: "\<forall>c \<in> set (show_nat n). is_ascii_digit c"
proof (induction n rule: less_induct)
  case (less n)
  have d: "k < 10 \<Longrightarrow> is_ascii_digit (digit_char k)" for k
    by (simp add: is_ascii_digit_def digit_char_def byte_char_of)
  show ?case
    using less [of "n div 10"] by (cases "n < 10") (auto simp: show_nat_rec [of n] d)
qed

lemma show_nat_nonempty [simp]: "show_nat n \<noteq> []"
  by (simp add: show_nat_def)

lemma is_ascii_digit_graphic: "is_ascii_digit c \<Longrightarrow> graphic c"
  by (simp add: is_ascii_digit_def graphic_def)

lemma show_nat_graphic: "c \<in> set (show_nat n) \<Longrightarrow> graphic c"
  using show_nat_digits is_ascii_digit_graphic by blast

lemma show_nat_hd: obtains c t where "show_nat n = c # t" "is_ascii_digit c"
  using show_nat_digits [of n] by (cases "show_nat n") auto

lemma not_digit: "\<not> is_ascii_digit (CHR ''+'')" "\<not> is_ascii_digit (CHR ''-'')"
  "\<not> is_ascii_digit (CHR ''.'')" "\<not> is_ascii_digit (CHR '':'')" "\<not> is_ascii_digit (CHR ''/'')"
  by (simp_all add: is_ascii_digit_def byte_def)

lemma notin_show_nat: "\<not> is_ascii_digit c \<Longrightarrow> c \<notin> set (show_nat n)"
  using show_nat_digits by blast

lemma parse_unsigned_show:
  assumes "n < 2 ^ w"
  shows "parse_unsigned w 10 (show_nat n) = Some n"
proof -
  obtain c t where ct: "show_nat n = c # t" "is_ascii_digit c" by (rule show_nat_hd)
  then have "c \<noteq> CHR ''+''" using not_digit by auto
  then show ?thesis
    using assms ct(1) nat_of_radix_show [of 10 n]
    by (simp add: parse_unsigned_def show_nat_def)
qed

lemma parse_signed_show:
  assumes "- (2 ^ (w - 1)) \<le> i" "i < 2 ^ (w - 1)"
  shows "parse_signed w 10 (show_int i) = Some i"
proof -
  have digits: "\<exists>c t. show_nat n = c # t \<and> c \<noteq> CHR ''+'' \<and> c \<noteq> CHR ''-''" for n
    using show_nat_hd not_digit by metis
  have val: "nat_of_radix 10 (show_nat n) = Some n" for n
    by (simp add: show_nat_def nat_of_radix_show)
  show ?thesis
  proof (cases "i < 0")
    case True
    then show ?thesis
      using assms val [of "nat (- i)"] by (simp add: parse_signed_def show_int_def)
  next
    case False
    obtain c t where "show_nat (nat i) = c # t" "c \<noteq> CHR ''+''" "c \<noteq> CHR ''-''"
      using digits by blast
    with False assms val [of "nat i"] show ?thesis
      by (simp add: parse_signed_def show_int_def)
  qed
qed

lemma parse_u8_show [simp]: "parse_u8 (show_nat (unat (x :: u8))) = Some x"
  using unsigned_less [of x, where ?'a = nat] by (simp add: parse_u8_def parse_unsigned_show)

lemma parse_u16_show [simp]: "parse_u16 (show_nat (unat (x :: u16))) = Some x"
  using unsigned_less [of x, where ?'a = nat] by (simp add: parse_u16_def parse_unsigned_show)

lemma parse_u32_show [simp]: "parse_u32 (show_nat (unat (x :: u32))) = Some x"
  using unsigned_less [of x, where ?'a = nat] by (simp add: parse_u32_def parse_unsigned_show)

lemma parse_i64_show [simp]: "parse_i64 (show_int (sint (x :: i64))) = Some x"
  using sint_greater_eq [of x] sint_less [of x] by (simp add: parse_i64_def parse_signed_show)

section \<open>Splitting at white space\<close>

lemma ws_len_blank: "byte c = 32 \<or> byte c = 10 \<Longrightarrow> ws_len (c # s) = 1"
  by (auto simp: ws_len_def)

lemma split_ws_fuel_token:
  "\<forall>c \<in> set t. graphic c \<Longrightarrow> split_ws_fuel (length t + n) cur (t @ s) = split_ws_fuel n (cur @ t) s"
  by (induction t arbitrary: cur) (simp_all add: ws_len_graphic)

lemma split_ws_fuel_blank:
  "byte c = 32 \<or> byte c = 10 \<Longrightarrow>
     split_ws_fuel (Suc n) cur (c # s) = (if cur = [] then [] else [cur]) @ split_ws_fuel n [] s"
  by (simp add: ws_len_blank)

lemma split_ws_fuel_Nil [simp]: "split_ws_fuel n cur [] = (if cur = [] then [] else [cur])"
  by (cases n) simp_all

lemma split_ws_tokens:
  assumes "\<forall>t \<in> set toks. t \<noteq> [] \<and> (\<forall>c \<in> set t. graphic c)" "w = [] \<or> w = [CHR 0x0A]"
  shows "split_ws_fuel (length (concat (map (\<lambda>t. CHR '' '' # t) toks) @ w) + n) cur
      (concat (map (\<lambda>t. CHR '' '' # t) toks) @ w) = (if cur = [] then [] else [cur]) @ toks"
  using assms(1)
proof (induction toks arbitrary: cur)
  case Nil
  then show ?case using assms(2) split_ws_fuel_blank [of "CHR 0x0A" n cur "[]"] by (auto simp: byte_def)
next
  case (Cons t toks)
  let ?r = "concat (map (\<lambda>t. CHR '' '' # t) toks) @ w"
  have b: "byte (CHR '' '') = 32 \<or> byte (CHR '' '') = 10" by (simp add: byte_def)
  have g: "\<forall>c \<in> set t. graphic c" "t \<noteq> []" using Cons.prems by auto
  have "split_ws_fuel (Suc (length t + (length ?r + n))) cur (CHR '' '' # t @ ?r) =
      (if cur = [] then [] else [cur]) @ split_ws_fuel (length ?r + n) t ?r"
    unfolding split_ws_fuel_blank [OF b] split_ws_fuel_token [OF g(1)] by simp
  also have "split_ws_fuel (length ?r + n) t ?r = [t] @ toks"
    using Cons.IH [of t] Cons.prems g(2) by simp
  finally show ?case by (simp add: add.assoc)
qed

lemma split_whitespace_tokens:
  assumes "\<forall>t \<in> set toks. t \<noteq> [] \<and> (\<forall>c \<in> set t. graphic c)" "w = [] \<or> w = [CHR 0x0A]"
  shows "split_whitespace (concat (map (\<lambda>t. CHR '' '' # t) toks) @ w) = toks"
  using split_ws_tokens [OF assms, of 1 "[]"] unfolding split_whitespace_def by simp

end
