(* ===== verification/Errors.thy ===== *)
theory Errors
  imports Rust_Str
begin

text \<open>
  \<open>src/error.rs\<close> and \<open>src/fault.rs\<close>: the error type every fallible operation returns, its
  exit codes and messages, and the deterministic fault-injection points.  The value of the
  environment variable \<open>MYRUN_FAULT\<close> is an argument of the operations that read it.
\<close>

section \<open>The error type\<close>

datatype error =
    Usage string
  | Config string
  | NotFound string
  | AlreadyExists string
  | InvalidState string
  | Syscall (call: string) (sys_errno: int) (ctx: string)
  | Io string
  | Parse string
  | Container string
  | Fault string
  | Unsupported string

type_synonym 'a res = "('a, error) result"

definition USAGE :: int where "USAGE = 64"
definition CONFIG :: int where "CONFIG = 65"
definition NOT_FOUND :: int where "NOT_FOUND = 66"
definition STATE :: int where "STATE = 67"
definition SYSCALL :: int where "SYSCALL = 70"
definition UNSUPPORTED :: int where "UNSUPPORTED = 71"
definition FAULT :: int where "FAULT = 72"
definition GENERIC :: int where "GENERIC = 1"

lemmas exit_code_defs = USAGE_def CONFIG_def NOT_FOUND_def STATE_def SYSCALL_def
  UNSUPPORTED_def FAULT_def GENERIC_def

fun exit_code :: "error \<Rightarrow> int" where
  "exit_code (Usage _) = USAGE"
| "exit_code (Config _) = CONFIG"
| "exit_code (Parse _) = CONFIG"
| "exit_code (NotFound _) = NOT_FOUND"
| "exit_code (AlreadyExists _) = STATE"
| "exit_code (InvalidState _) = STATE"
| "exit_code (Syscall _ _ _) = SYSCALL"
| "exit_code (Unsupported _) = UNSUPPORTED"
| "exit_code (Fault _) = FAULT"
| "exit_code (Io _) = GENERIC"
| "exit_code (Container _) = GENERIC"

fun errno_of :: "error \<Rightarrow> int option" where
  "errno_of (Syscall _ n _) = Some n"
| "errno_of _ = None"

definition is_errno :: "error \<Rightarrow> int \<Rightarrow> bool" where
  "is_errno e n \<longleftrightarrow> errno_of e = Some n"

definition errno_table :: "(int \<times> string) list" where
  "errno_table =
    [(1, ''EPERM''), (2, ''ENOENT''), (3, ''ESRCH''), (4, ''EINTR''), (5, ''EIO''),
     (9, ''EBADF''), (11, ''EAGAIN''), (12, ''ENOMEM''), (13, ''EACCES''), (14, ''EFAULT''),
     (16, ''EBUSY''), (17, ''EEXIST''), (18, ''EXDEV''), (19, ''ENODEV''), (20, ''ENOTDIR''),
     (21, ''EISDIR''), (22, ''EINVAL''), (23, ''ENFILE''), (24, ''EMFILE''), (25, ''ENOTTY''),
     (28, ''ENOSPC''), (32, ''EPIPE''), (36, ''ENAMETOOLONG''), (38, ''ENOSYS''),
     (39, ''ENOTEMPTY''), (61, ''ENODATA''), (62, ''ETIME''), (95, ''EOPNOTSUPP''),
     (98, ''EADDRINUSE''), (110, ''ETIMEDOUT''), (111, ''ECONNREFUSED'')]"

definition errno_name :: "int \<Rightarrow> string" where
  "errno_name e = unwrap_or ''E?'' (map_of errno_table e)"

fun display_error :: "error \<Rightarrow> string" where
  "display_error (Usage m) = m"
| "display_error (Config m) = ''invalid configuration: '' @ m"
| "display_error (NotFound m) = ''not found: '' @ m"
| "display_error (AlreadyExists m) = ''already exists: '' @ m"
| "display_error (InvalidState m) = ''invalid state: '' @ m"
| "display_error (Syscall c n x) =
     (if x = [] then c @ ''(2) failed: '' @ errno_name n @ '' ('' @ show_int n @ '')''
      else c @ ''(2) failed: '' @ errno_name n @ '' ('' @ show_int n @ ''): '' @ x)"
| "display_error (Io m) = ''io error: '' @ m"
| "display_error (Parse m) = ''parse error: '' @ m"
| "display_error (Container m) = ''container error: '' @ m"
| "display_error (Fault m) = ''injected fault: '' @ m"
| "display_error (Unsupported m) = ''unsupported: '' @ m"

section \<open>Fault injection\<close>

definition POINTS :: "string list" where
  "POINTS =
    [''before_state_create'', ''after_state_create'', ''after_cgroup_create'',
     ''after_cgroup_limits'', ''before_clone'', ''after_clone'', ''after_bridge_create'',
     ''after_veth_create'', ''after_veth_master'', ''after_ip_alloc'', ''after_netns_move'',
     ''after_nat_rules'', ''before_go_signal'', ''after_go_signal'', ''before_pivot_root'',
     ''after_pivot_root'', ''before_exec'', ''after_start'', ''before_teardown'']"

text \<open>\<open>armed v\<close>: the points named by \<open>MYRUN_FAULT\<close>, unset being \<open>None\<close>.\<close>

definition armed :: "string option \<Rightarrow> string list" where
  "armed env = (case env of
      Some v \<Rightarrow> filter (\<lambda>s. s \<noteq> []) (map str_trim (str_split v (CHR '','')))
    | None \<Rightarrow> [])"

definition fault_check :: "string option \<Rightarrow> string \<Rightarrow> unit res" where
  "fault_check env point =
     (let a = armed env
      in if a = [] then Ok ()
         else if point \<in> set a then Err (Fault point)
         else Ok ())"

definition is_armed :: "string option \<Rightarrow> string \<Rightarrow> bool" where
  "is_armed env point \<longleftrightarrow> point \<in> set (armed env)"

definition validate_env :: "string option \<Rightarrow> unit res" where
  "validate_env env = r_fold (\<lambda>p _.
      if p \<notin> set POINTS
      then Err (Config (''MYRUN_FAULT names unknown injection point '' @ debug_str p @
                 ''; known points: '' @ str_join '', '' POINTS))
      else Ok ()) (armed env) ()"

section \<open>Properties\<close>

lemma exit_code_range: "exit_code e = 1 \<or> 64 \<le> exit_code e \<and> exit_code e \<le> 72"
  by (cases e) (simp_all add: exit_code_defs)

lemma fault_check_iff:
  "fault_check env p = (if is_armed env p then Err (Fault p) else Ok ())"
  by (auto simp: fault_check_def is_armed_def Let_def)

lemma r_fold_unit_Ok:
  "(\<exists>x. r_fold (\<lambda>p _. if P p then Err (f p) else Ok ()) xs () = Ok x) \<longleftrightarrow> (\<forall>p \<in> set xs. \<not> P p)"
  by (induction xs) auto

lemma validate_env_iff: "is_ok (validate_env env) \<longleftrightarrow> set (armed env) \<subseteq> set POINTS"
  unfolding validate_env_def is_ok_iff by (subst r_fold_unit_Ok [of "\<lambda>p. p \<notin> set POINTS"]) auto

text \<open>
  After \<open>validate_env\<close> accepts the environment, a check at an injection point succeeds
  or returns the injected fault of exactly that point, and every armed name is a point the
  program has: no misspelled name is silently ignored.
\<close>

theorem validated_faults_are_known:
  assumes "validate_env env = Ok ()" and "is_armed env p"
  shows "p \<in> set POINTS \<and> fault_check env p = Err (Fault p) \<and> exit_code (Fault p) = 72"
proof -
  from assms(1) have "set (armed env) \<subseteq> set POINTS"
    using validate_env_iff [of env] by simp
  with assms(2) show ?thesis by (auto simp: fault_check_iff is_armed_def exit_code_defs)
qed

theorem validated_faults_are_known_witness:
  "fault_check (Some ''after_veth_create, before_clone'') ''before_clone'' = Err (Fault ''before_clone'')"
proof -
  let ?env = "Some ''after_veth_create, before_clone''"
  have "validate_env ?env = Ok ()" by code_simp
  moreover have "is_armed ?env ''before_clone''" by code_simp
  ultimately show ?thesis using validated_faults_are_known by blast
qed

end
