(* ===== verification/F64.thy ===== *)
theory F64
  imports Rust_Str
begin

text \<open>
  The part of Rust's \<open>f64\<close> that the program uses: IEEE-754 binary64 values, correctly
  rounded conversion from a ratio of integers (round to nearest, ties to even),
  multiplication and division, comparison, the saturating casts \<open>as u64\<close> and \<open>as i64\<close>,
  \<open>str::parse::<f64>\<close>, \<open>Display\<close> (the shortest decimal that reads back) and \<open>{:.n}\<close>.
  \<open>Fin s m e\<close> is \<open>(-1)^s * m * 2^e\<close>.
\<close>

datatype f64 = NaN | Inf bool | Fin bool nat int

fun is_finite :: "f64 \<Rightarrow> bool" where
  "is_finite (Fin s m e) = True"
| "is_finite f = False"

fun bitlen :: "nat \<Rightarrow> nat" where
  "bitlen n = (if n = 0 then 0 else Suc (bitlen (n div 2)))"

declare bitlen.simps [simp del]

text \<open>\<open>p * 2 ^ e\<close> as a ratio of naturals, over \<open>q\<close>.\<close>

definition scale_num :: "nat \<Rightarrow> int \<Rightarrow> nat" where
  "scale_num p e = (if e \<ge> 0 then p * 2 ^ nat e else p)"

definition scale_den :: "nat \<Rightarrow> int \<Rightarrow> nat" where
  "scale_den q e = (if e \<ge> 0 then q else q * 2 ^ nat (- e))"

definition flog2 :: "nat \<Rightarrow> nat \<Rightarrow> int" where
  "flog2 p q =
     (let b = int (bitlen p) - int (bitlen q)
      in if scale_num q b \<le> scale_num p (- b) then b else b - 1)"

definition round_even :: "nat \<Rightarrow> nat \<Rightarrow> nat" where
  "round_even p q =
     (let d = p div q; r = p mod q
      in if 2 * r > q \<or> 2 * r = q \<and> odd d then d + 1 else d)"

text \<open>The binary64 value nearest to \<open>(-1)^neg * p / q\<close>.\<close>

definition ratio_to_f64 :: "bool \<Rightarrow> nat \<Rightarrow> nat \<Rightarrow> f64" where
  "ratio_to_f64 neg p q =
     (if p = 0 then Fin neg 0 (- 1074)
      else
        (let e = max (- 1074) (flog2 p q - 52);
             m = round_even (scale_num p (- e)) (scale_den q (- e));
             (m', e') = (if m = 2 ^ 53 then (2 ^ 52, e + 1) else (m, e))
         in if e' > 971 then Inf neg else Fin neg m' e'))"

definition f64_of_nat :: "nat \<Rightarrow> f64" where
  "f64_of_nat n = ratio_to_f64 False n 1"

definition f64_of_int :: "int \<Rightarrow> f64" where
  "f64_of_int i = ratio_to_f64 (i < 0) (nat \<bar>i\<bar>) 1"

section \<open>Arithmetic and comparison\<close>

fun f64_mul :: "f64 \<Rightarrow> f64 \<Rightarrow> f64" where
  "f64_mul (Fin s m e) (Fin t n f) =
     ratio_to_f64 (s \<noteq> t) (scale_num (m * n) (e + f)) (scale_den 1 (e + f))"
| "f64_mul (Inf s) (Fin t n f) = (if n = 0 then NaN else Inf (s \<noteq> t))"
| "f64_mul (Fin s m e) (Inf t) = (if m = 0 then NaN else Inf (s \<noteq> t))"
| "f64_mul (Inf s) (Inf t) = Inf (s \<noteq> t)"
| "f64_mul NaN _ = NaN"
| "f64_mul _ NaN = NaN"

fun f64_div :: "f64 \<Rightarrow> f64 \<Rightarrow> f64" where
  "f64_div (Fin s m e) (Fin t n f) =
     (if n = 0 then (if m = 0 then NaN else Inf (s \<noteq> t))
      else ratio_to_f64 (s \<noteq> t) (scale_num m (e - f)) (scale_den n (e - f)))"
| "f64_div (Inf s) (Fin t n f) = Inf (s \<noteq> t)"
| "f64_div (Fin s m e) (Inf t) = Fin (s \<noteq> t) 0 (- 1074)"
| "f64_div (Inf s) (Inf t) = NaN"
| "f64_div NaN _ = NaN"
| "f64_div _ NaN = NaN"

text \<open>A finite value scaled by \<open>2 ^ 1074\<close> is an integer, so that comparison is exact.\<close>

definition f64_scaled :: "bool \<Rightarrow> nat \<Rightarrow> int \<Rightarrow> int" where
  "f64_scaled s m e = (if s then - 1 else 1) * int (m * 2 ^ nat (e + 1074))"

fun f64_lt :: "f64 \<Rightarrow> f64 \<Rightarrow> bool" where
  "f64_lt (Fin s m e) (Fin t n f) = (f64_scaled s m e < f64_scaled t n f)"
| "f64_lt (Inf s) (Fin t n f) = s"
| "f64_lt (Fin s m e) (Inf t) = (\<not> t)"
| "f64_lt (Inf s) (Inf t) = (s \<and> \<not> t)"
| "f64_lt NaN _ = False"
| "f64_lt _ NaN = False"

definition f64_le :: "f64 \<Rightarrow> f64 \<Rightarrow> bool" where
  "f64_le a b \<longleftrightarrow> a \<noteq> NaN \<and> b \<noteq> NaN \<and> \<not> f64_lt b a"

text \<open>\<open>f64::round\<close>: to the nearest integer, halves away from zero.\<close>

fun f64_round :: "f64 \<Rightarrow> f64" where
  "f64_round (Fin s m e) =
     ratio_to_f64 s ((2 * scale_num m e + scale_den 1 e) div (2 * scale_den 1 e)) 1"
| "f64_round f = f"

text \<open>Truncation toward zero, and the casts.\<close>

definition f64_trunc :: "nat \<Rightarrow> int \<Rightarrow> nat" where
  "f64_trunc m e = scale_num m e div scale_den 1 e"

fun f64_as_u64 :: "f64 \<Rightarrow> u64" where
  "f64_as_u64 NaN = 0"
| "f64_as_u64 (Inf s) = (if s then 0 else - 1)"
| "f64_as_u64 (Fin s m e) =
     (if s then 0 else if f64_trunc m e \<ge> 2 ^ 64 then - 1 else of_nat (f64_trunc m e))"

fun f64_as_i64 :: "f64 \<Rightarrow> i64" where
  "f64_as_i64 NaN = 0"
| "f64_as_i64 (Inf s) = (if s then push_bit 63 1 else NOT (push_bit 63 1))"
| "f64_as_i64 (Fin s m e) =
     (if s then (if f64_trunc m e \<ge> 2 ^ 63 then push_bit 63 1 else - of_nat (f64_trunc m e))
      else (if f64_trunc m e \<ge> 2 ^ 63 then NOT (push_bit 63 1) else of_nat (f64_trunc m e)))"

section \<open>Parsing\<close>

definition span_digits :: "string \<Rightarrow> string \<times> string" where
  "span_digits s = (takeWhile is_ascii_digit s, dropWhile is_ascii_digit s)"

definition parse_exp :: "string \<Rightarrow> int option" where
  "parse_exp s =
     (case s of
        [] \<Rightarrow> Some 0
      | c # t \<Rightarrow>
          if c = CHR ''e'' \<or> c = CHR ''E'' then
            (let (neg, d) = (case t of
                  x # u \<Rightarrow> if x = CHR ''-'' then (True, u) else if x = CHR ''+'' then (False, u) else (False, t)
                | [] \<Rightarrow> (False, t))
             in if d \<noteq> [] \<and> list_all is_ascii_digit d
                then map_option (\<lambda>n. if neg then - int n else int n) (digits_val 10 0 d)
                else None)
          else None)"

text \<open>\<open>digits * 10 ^ x\<close>.\<close>

definition decimal_to_f64 :: "bool \<Rightarrow> nat \<Rightarrow> int \<Rightarrow> f64" where
  "decimal_to_f64 neg n x =
     (if x \<ge> 0 then ratio_to_f64 neg (n * 10 ^ nat x) 1 else ratio_to_f64 neg n (10 ^ nat (- x)))"

definition parse_f64 :: "string \<Rightarrow> f64 option" where
  "parse_f64 s =
     (let (neg, body) = (case s of
            c # t \<Rightarrow> if c = CHR ''-'' then (True, t) else if c = CHR ''+'' then (False, t) else (False, s)
          | [] \<Rightarrow> (False, s));
          low = to_ascii_lowercase body
      in if low = ''inf'' \<or> low = ''infinity'' then Some (Inf neg)
         else if low = ''nan'' then Some NaN
         else
           (let (ip, r) = span_digits body;
                (fp, r') = (case r of
                    c # t \<Rightarrow> if c = CHR ''.'' then span_digits t else ([], r)
                  | [] \<Rightarrow> ([], r))
            in if ip = [] \<and> fp = [] then None
               else (case parse_exp r' of
                   None \<Rightarrow> None
                 | Some x \<Rightarrow> map_option (\<lambda>n. decimal_to_f64 neg n (x - int (length fp)))
                     (digits_val 10 0 (ip @ fp)))))"

section \<open>Display\<close>

definition flog10 :: "nat \<Rightarrow> nat \<Rightarrow> int" where
  "flog10 p q =
     (let b = int (length (show_nat p)) - int (length (show_nat q))
      in if (if b \<ge> 0 then q * 10 ^ nat b \<le> p else q \<le> p * 10 ^ nat (- b)) then b else b - 1)"

text \<open>The candidates of \<open>n\<close> digits next to \<open>p / q\<close>: the decimals \<open>c * 10 ^ t\<close>.\<close>

definition shortest_at :: "nat \<Rightarrow> nat \<Rightarrow> nat \<Rightarrow> (nat \<times> int) option" where
  "shortest_at p q n =
     (let t = flog10 p q - int n + 1;
          (num, den) = (if t \<ge> 0 then (p, q * 10 ^ nat t) else (p * 10 ^ nat (- t), q));
          c = num div den; r = num mod den;
          v = ratio_to_f64 False p q;
          lo = decimal_to_f64 False c t = v;
          hi = decimal_to_f64 False (c + 1) t = v
      in if lo \<and> hi then Some (if 2 * r < den \<or> 2 * r = den \<and> even c then c else c + 1, t)
         else if lo then Some (c, t) else if hi then Some (c + 1, t) else None)"

fun shortest_from :: "nat \<Rightarrow> nat \<Rightarrow> nat \<Rightarrow> nat \<Rightarrow> nat \<times> int" where
  "shortest_from p q n 0 =
     (let t = flog10 p q - int n + 1
      in ((if t \<ge> 0 then round_even p (q * 10 ^ nat t) else round_even (p * 10 ^ nat (- t)) q), t))"
| "shortest_from p q n (Suc k) =
     (case shortest_at p q n of Some d \<Rightarrow> d | None \<Rightarrow> shortest_from p q (Suc n) k)"

definition strip_zeros :: "string \<Rightarrow> string" where
  "strip_zeros s = rev (dropWhile (\<lambda>c. c = CHR ''0'') (rev s))"

definition show_decimal :: "nat \<Rightarrow> int \<Rightarrow> string" where
  "show_decimal c t =
     (if t \<ge> 0 then show_nat (c * 10 ^ nat t)
      else
        (let k = nat (- t);
             frac = strip_zeros (pad_zero k (show_nat (c mod 10 ^ k)))
         in show_nat (c div 10 ^ k) @ (if frac = [] then [] else CHR ''.'' # frac)))"

fun show_f64 :: "f64 \<Rightarrow> string" where
  "show_f64 NaN = ''NaN''"
| "show_f64 (Inf s) = (if s then ''-inf'' else ''inf'')"
| "show_f64 (Fin s m e) =
     (if s then ''-'' else []) @
     (if m = 0 then ''0''
      else (case shortest_from (scale_num m e) (scale_den 1 e) 1 16 of (c, t) \<Rightarrow> show_decimal c t))"

text \<open>\<open>{:.n}\<close>: exactly \<open>n\<close> decimals of the exact value, ties to even.\<close>

fun show_f64_fixed :: "nat \<Rightarrow> f64 \<Rightarrow> string" where
  "show_f64_fixed n NaN = ''NaN''"
| "show_f64_fixed n (Inf s) = (if s then ''-inf'' else ''inf'')"
| "show_f64_fixed n (Fin s m e) =
     (let r = round_even (scale_num m e * 10 ^ n) (scale_den 1 e)
      in (if s then ''-'' else []) @ show_nat (r div 10 ^ n) @
         (if n = 0 then [] else CHR ''.'' # pad_zero n (show_nat (r mod 10 ^ n))))"

section \<open>Small integers are exact\<close>

lemma bitlen_bounds: "n > 0 \<Longrightarrow> 2 ^ (bitlen n - 1) \<le> n \<and> n < 2 ^ bitlen n \<and> 0 < bitlen n"
proof (induction n rule: bitlen.induct)
  case (1 n)
  show ?case
  proof (cases "n div 2 = 0")
    case True
    with 1(2) have "n = 1" by auto
    then show ?thesis by (simp add: bitlen.simps)
  next
    case False
    then have IH: "2 ^ (bitlen (n div 2) - 1) \<le> n div 2" "n div 2 < 2 ^ bitlen (n div 2)"
        "0 < bitlen (n div 2)"
      using 1 by auto
    have b: "bitlen n = Suc (bitlen (n div 2))" using 1(2) by (subst bitlen.simps) simp
    define w :: nat where "w = 2 ^ (bitlen (n div 2) - 1)"
    have w: "(2::nat) ^ bitlen (n div 2) = 2 * w"
      using IH(3) unfolding w_def by (cases "bitlen (n div 2)") auto
    have "w \<le> n div 2" "n div 2 < 2 * w" using IH w by (simp_all add: w_def)
    then have "2 * w \<le> n" "n < 4 * w" by presburger+
    then show ?thesis by (simp add: b w)
  qed
qed

lemma bitlen_le: "n < 2 ^ k \<Longrightarrow> bitlen n \<le> k"
proof -
  assume n: "n < 2 ^ k"
  show ?thesis
  proof (cases "n = 0")
    case True then show ?thesis by (simp add: bitlen.simps)
  next
    case False
    then have "2 ^ (bitlen n - 1) < (2::nat) ^ k" using bitlen_bounds [of n] n by linarith
    then have "bitlen n - 1 < k" by (rule power_less_imp_less_exp [rotated]) simp
    then show ?thesis by linarith
  qed
qed

lemma flog2_one: "n > 0 \<Longrightarrow> flog2 n 1 = int (bitlen n) - 1"
proof -
  assume n: "n > 0"
  have "bitlen 1 = 1" by (simp add: bitlen.simps)
  moreover have "scale_num 1 (int (bitlen n) - 1) \<le> scale_num n (- (int (bitlen n) - 1))"
    using bitlen_bounds [OF n] n by (auto simp: scale_num_def nat_diff_distrib)
  ultimately show ?thesis by (simp add: flog2_def Let_def)
qed

lemma round_even_exact: "0 < q \<Longrightarrow> round_even (d * q) q = d"
  by (simp add: round_even_def Let_def)

text \<open>An integer below \<open>2 ^ 53\<close> times a power of two is represented exactly.\<close>

lemma ratio_small:
  assumes "0 < n" "n < 2 ^ 53"
  shows "ratio_to_f64 neg n 1 =
    Fin neg (n * 2 ^ (53 - bitlen n)) (int (bitlen n) - 53)"
proof -
  let ?b = "bitlen n"
  have b: "?b \<le> 53" "0 < ?b" "2 ^ (?b - 1) \<le> n" "n < 2 ^ ?b"
    using bitlen_bounds [OF assms(1)] bitlen_le [OF assms(2)] by auto
  have e: "max (- 1074) (flog2 n 1 - 52) = int ?b - 53"
    using b unfolding flog2_one [OF assms(1)] by linarith
  have "round_even (scale_num n (- (int ?b - 53))) (scale_den 1 (- (int ?b - 53))) = n * 2 ^ (53 - ?b)"
    using b round_even_exact [of 1 "n * 2 ^ (53 - ?b)"] by (simp add: scale_num_def scale_den_def nat_diff_distrib)
  moreover have "n * 2 ^ (53 - ?b) < 2 ^ ?b * 2 ^ (53 - ?b)"
    using b(4) by (rule mult_strict_right_mono) simp
  then have "n * 2 ^ (53 - ?b) < 2 ^ 53"
    using b(1) by (simp only: power_add [symmetric] le_add_diff_inverse)
  ultimately show ?thesis
    using assms(1) b(1) unfolding ratio_to_f64_def e Let_def by simp
qed

lemma bitlen_unique: "2 ^ k \<le> n \<Longrightarrow> n < 2 ^ Suc k \<Longrightarrow> bitlen n = Suc k"
proof -
  assume a: "2 ^ k \<le> n" "n < 2 ^ Suc k"
  then have "n > 0" by (metis less_le_trans zero_less_numeral zero_less_power)
  then have b: "2 ^ (bitlen n - 1) \<le> n" "n < 2 ^ bitlen n" "0 < bitlen n" using bitlen_bounds by auto
  have "(2::nat) ^ k < 2 ^ bitlen n" using a b by linarith
  then have "k < bitlen n" by (rule power_less_imp_less_exp [rotated]) simp
  moreover have "bitlen n \<le> Suc k" using a(2) by (rule bitlen_le)
  ultimately show ?thesis by linarith
qed

lemma normal_mantissa:
  assumes "0 < n" "n < 2 ^ 53"
  shows "2 ^ 52 \<le> n * 2 ^ (53 - bitlen n)" "n * 2 ^ (53 - bitlen n) < 2 ^ 53"
proof -
  let ?b = "bitlen n"
  have b: "?b \<le> 53" "0 < ?b" "2 ^ (?b - 1) \<le> n" "n < 2 ^ ?b"
    using bitlen_bounds [OF assms(1)] bitlen_le [OF assms(2)] by auto
  have "2 ^ (?b - 1) * 2 ^ (53 - ?b) \<le> n * 2 ^ (53 - ?b)" using b(3) by simp
  moreover have "(2::nat) ^ (?b - 1) * 2 ^ (53 - ?b) = 2 ^ 52"
    using b by (simp only: power_add [symmetric]) (rule arg_cong [of _ _ "(^) 2"], linarith)
  ultimately show "2 ^ 52 \<le> n * 2 ^ (53 - ?b)" by (simp only:)
  have "n * 2 ^ (53 - ?b) < 2 ^ ?b * 2 ^ (53 - ?b)"
    using b(4) by (rule mult_strict_right_mono) simp
  then show "n * 2 ^ (53 - ?b) < 2 ^ 53"
    using b(1) by (simp only: power_add [symmetric] le_add_diff_inverse)
qed

lemma f64_of_pow2: "k \<le> 52 \<Longrightarrow> f64_of_nat (2 ^ k) = Fin False (2 ^ 52) (int k - 52)"
proof -
  assume k: "k \<le> 52"
  have b: "bitlen (2 ^ k) = Suc k" by (rule bitlen_unique) simp_all
  have l: "(2::nat) ^ k < 2 ^ 53" using k by (intro power_strict_increasing) simp_all
  have "(2::nat) ^ k * 2 ^ (53 - Suc k) = 2 ^ 52" using k by (simp only: power_add [symmetric]) simp
  then show ?thesis using ratio_small [OF _ l] b by (simp add: f64_of_nat_def)
qed

text \<open>Multiplying a normal 53-bit mantissa by a power of two only moves the exponent.\<close>

lemma ratio_shift:
  assumes m: "2 ^ 52 \<le> m" "m < 2 ^ 53" and x: "- 1074 \<le> x" "x \<le> 971" "x \<le> 52"
  shows "ratio_to_f64 s (m * 2 ^ 52) (2 ^ nat (52 - x)) = Fin s m x"
proof -
  let ?p = "m * 2 ^ 52" and ?q = "2 ^ nat (52 - x) :: nat"
  have p0: "0 < ?p" using m by (simp add: less_le_trans [of 0 "2 ^ 52"])
  have bp: "bitlen ?p = 105"
  proof -
    have "(2::nat) ^ 104 \<le> ?p" "?p < 2 ^ Suc 104" using m by simp_all
    then have "bitlen ?p = Suc 104" by (rule bitlen_unique)
    then show ?thesis by simp
  qed
  have bq: "bitlen ?q = Suc (nat (52 - x))" by (rule bitlen_unique) simp_all
  have bb: "int (bitlen ?p) - int (bitlen ?q) = x + 52" using x unfolding bp bq by simp
  have "scale_num ?q (x + 52) \<le> scale_num ?p (- (x + 52))"
  proof (cases "x + 52 \<ge> 0")
    case True
    then have "?q * 2 ^ nat (x + 52) = 2 ^ 104"
      using x by (simp only: power_add [symmetric]) (rule arg_cong [of _ _ "(^) 2"], linarith)
    then have "scale_num ?q (x + 52) = 2 ^ 104" using True by (simp only: scale_num_def if_True)
    moreover have "scale_num ?p (- (x + 52)) = ?p" using True by (auto simp: scale_num_def)
    moreover have "2 ^ 104 \<le> ?p" using m by simp
    ultimately show ?thesis by simp
  next
    case False
    then have "?q = 2 ^ 104 * 2 ^ nat (- (x + 52))"
      by (simp only: power_add [symmetric]) (rule arg_cong [of _ _ "(^) 2"], linarith)
    moreover have "2 ^ 104 * 2 ^ nat (- (x + 52)) \<le> ?p * 2 ^ nat (- (x + 52))" using m by simp
    ultimately show ?thesis using False by (simp only: scale_num_def) simp
  qed
  then have fl: "flog2 ?p ?q = x + 52" unfolding flog2_def bb Let_def by simp
  then have e: "max (- 1074) (flog2 ?p ?q - 52) = x" using x by simp
  have "round_even (scale_num ?p (- x)) (scale_den ?q (- x)) = m"
  proof (cases "x \<le> 0")
    case True
    then have "?q = 2 ^ 52 * 2 ^ nat (- x)"
      by (simp only: power_add [symmetric]) (rule arg_cong [of _ _ "(^) 2"], linarith)
    then have "scale_num ?p (- x) = m * ?q" "scale_den ?q (- x) = ?q"
      using True by (simp_all only: scale_num_def scale_den_def) simp_all
    then show ?thesis by (simp add: round_even_exact)
  next
    case False
    then have "?q * 2 ^ nat x = 2 ^ 52"
      using x by (simp only: power_add [symmetric]) (rule arg_cong [of _ _ "(^) 2"], linarith)
    then have "scale_num ?p (- x) = m * 2 ^ 52" "scale_den ?q (- x) = 2 ^ 52"
      using False by (simp_all only: scale_num_def scale_den_def) simp_all
    then show ?thesis using round_even_exact [of "2 ^ 52" m] by simp
  qed
  then show ?thesis
    using p0 m x unfolding ratio_to_f64_def e Let_def by simp
qed

lemma f64_mul_pow2:
  assumes "0 < n" "n < 2 ^ 53" "k \<le> 52"
  shows "f64_mul (f64_of_nat n) (f64_of_nat (2 ^ k)) =
    Fin False (n * 2 ^ (53 - bitlen n)) (int (bitlen n) + int k - 53)"
proof -
  have b: "bitlen n \<le> 53" "0 < bitlen n" using bitlen_le [OF assms(2)] bitlen_bounds [OF assms(1)] by auto
  have f: "f64_of_nat n = Fin False (n * 2 ^ (53 - bitlen n)) (int (bitlen n) - 53)"
    using ratio_small [OF assms(1,2)] by (simp add: f64_of_nat_def)
  let ?m = "n * 2 ^ (53 - bitlen n)" and ?x = "int (bitlen n) + int k - 53"
  have neg: "int (bitlen n) - 53 + (int k - 52) \<le> 0" using b assms(3) by linarith
  have "nat (- (int (bitlen n) - 53 + (int k - 52))) = nat (52 - ?x)" by simp
  moreover have "scale_num (?m * 2 ^ 52) (int (bitlen n) - 53 + (int k - 52)) = ?m * 2 ^ 52"
    using neg by (auto simp: scale_num_def)
  moreover have "scale_den 1 (int (bitlen n) - 53 + (int k - 52)) = 2 ^ nat (- (int (bitlen n) - 53 + (int k - 52)))"
    using neg by (auto simp: scale_den_def)
  moreover have "ratio_to_f64 False (?m * 2 ^ 52) (2 ^ nat (52 - ?x)) = Fin False ?m ?x"
    using b assms(3) by (intro ratio_shift normal_mantissa assms) linarith+
  ultimately show ?thesis unfolding f f64_of_pow2 [OF assms(3)] by simp
qed

lemma trunc_shift:
  assumes "b \<le> 53"
  shows "f64_trunc (n * 2 ^ (53 - b)) (int b + int k - 53) = n * 2 ^ k"
proof (cases "int b + int k - 53 \<ge> 0")
  case True
  then have "(2::nat) ^ (53 - b) * 2 ^ nat (int b + int k - 53) = 2 ^ k"
    using assms by (simp only: power_add [symmetric]) (rule arg_cong [of _ _ "(^) 2"], linarith)
  then show ?thesis using True by (simp add: f64_trunc_def scale_num_def scale_den_def mult.assoc)
next
  case False
  let ?d = "2 ^ nat (- (int b + int k - 53)) :: nat"
  have "(2::nat) ^ (53 - b) = 2 ^ k * ?d"
    using assms False by (simp only: power_add [symmetric]) (rule arg_cong [of _ _ "(^) 2"], linarith)
  then show ?thesis using False by (simp add: f64_trunc_def scale_num_def scale_den_def mult.assoc [symmetric])
qed

text \<open>An integer below \<open>2 ^ 53\<close> scaled by a power of two casts back exactly.\<close>

lemma f64_as_u64_mul_pow2:
  assumes "n < 2 ^ 53" "k \<le> 52" "n * 2 ^ k < 2 ^ 64"
  shows "f64_as_u64 (f64_mul (f64_of_nat n) (f64_of_nat (2 ^ k))) = of_nat (n * 2 ^ k)"
proof (cases "n = 0")
  case True
  then show ?thesis
    unfolding f64_of_pow2 [OF assms(2)]
    by (simp add: f64_of_nat_def ratio_to_f64_def f64_trunc_def scale_num_def)
next
  case False
  have "bitlen n \<le> 53" using assms(1) by (rule bitlen_le)
  then have t: "f64_trunc (n * 2 ^ (53 - bitlen n)) (int (bitlen n) + int k - 53) = n * 2 ^ k"
    by (rule trunc_shift)
  from False have "0 < n" by simp
  then show ?thesis
    unfolding f64_mul_pow2 [OF \<open>0 < n\<close> assms(1,2)] f64_as_u64.simps t
    using assms(3) by (simp only: if_False not_le [symmetric] simp_thms)
qed

text \<open>A product of two integers that stays below \<open>2 ^ 53\<close> is exact, and so is the cast back.\<close>

lemma ratio_cancel:
  assumes "0 < m" "m < 2 ^ 53"
  shows "ratio_to_f64 s (m * 2 ^ j) (2 ^ j) = ratio_to_f64 s m 1"
proof -
  let ?b = "bitlen m"
  have b: "?b \<le> 53" "0 < ?b" "2 ^ (?b - 1) \<le> m" "m < 2 ^ ?b"
    using bitlen_bounds [OF assms(1)] bitlen_le [OF assms(2)] by auto
  have bp: "bitlen (m * 2 ^ j) = Suc (?b - 1 + j)"
  proof (rule bitlen_unique)
    show "2 ^ (?b - 1 + j) \<le> m * 2 ^ j" using b(3) by (simp add: power_add)
    have "m * 2 ^ j < 2 ^ ?b * 2 ^ j" using b(4) by simp
    also have "\<dots> = 2 ^ Suc (?b - 1 + j)" using b(2) by (simp only: power_add [symmetric]) (simp del: power_Suc)
    finally show "m * 2 ^ j < 2 ^ Suc (?b - 1 + j)" .
  qed
  have bq: "bitlen (2 ^ j) = Suc j" by (rule bitlen_unique) simp_all
  have bb: "int (bitlen (m * 2 ^ j)) - int (bitlen (2 ^ j)) = int ?b - 1" using b(2) unfolding bp bq by simp
  have "scale_num (2 ^ j) (int ?b - 1) \<le> scale_num (m * 2 ^ j) (- (int ?b - 1))"
    using b by (auto simp: scale_num_def nat_diff_distrib mult.commute)
  then have fl: "flog2 (m * 2 ^ j) (2 ^ j) = int ?b - 1" unfolding flog2_def bb Let_def by simp
  have e: "max (- 1074) (int ?b - 1 - 52) = int ?b - 53" using b by linarith
  have ne: "- (int ?b - 53) = int (53 - ?b)" using b(1) by linarith
  have "round_even (scale_num (m * 2 ^ j) (- (int ?b - 53))) (scale_den (2 ^ j) (- (int ?b - 53))) = m * 2 ^ (53 - ?b)"
    using round_even_exact [of "2 ^ j" "m * 2 ^ (53 - ?b)"] unfolding ne by (simp add: scale_num_def scale_den_def mult.assoc mult.commute mult.left_commute)
  moreover have "m * 2 ^ (53 - ?b) \<noteq> 2 ^ 53" using normal_mantissa(2) [OF assms] by linarith
  ultimately show ?thesis
    using assms(1) b(1) unfolding ratio_small [OF assms] ratio_to_f64_def [of s "m * 2 ^ j"] fl e Let_def by simp
qed

lemma f64_mul_exact:
  assumes "0 < n" "0 < k" "n * k < 2 ^ 53"
  shows "f64_mul (f64_of_nat n) (f64_of_nat k) = f64_of_nat (n * k)"
proof -
  have l: "n < 2 ^ 53" "k < 2 ^ 53" using assms by (metis le_less_trans mult_le_mono1 mult_le_mono2 nat_mult_1 nat_mult_1_right Suc_leI One_nat_def)+
  let ?i = "53 - bitlen n" and ?j = "53 - bitlen k"
  have b: "bitlen n \<le> 53" "bitlen k \<le> 53" using l bitlen_le by blast+
  then have e: "int (bitlen n) - 53 + (int (bitlen k) - 53) = - int (?i + ?j)" by linarith
  have "scale_num (n * 2 ^ ?i * (k * 2 ^ ?j)) (- int (?i + ?j)) = n * k * 2 ^ (?i + ?j)"
    "scale_den 1 (- int (?i + ?j)) = 2 ^ (?i + ?j)"
    by (simp_all only: scale_num_def scale_den_def power_add minus_minus nat_int split: if_split) (auto simp: power_add)
  then show ?thesis
    using ratio_small [OF assms(1) l(1)] ratio_small [OF assms(2) l(2)] ratio_cancel [of "n * k" False "?i + ?j"] assms
    by (simp add: f64_of_nat_def e del: of_nat_add)
qed

lemma f64_as_u64_exact: "n < 2 ^ 53 \<Longrightarrow> f64_as_u64 (f64_of_nat n) = of_nat n"
  using f64_as_u64_mul_pow2 [of n 0] f64_mul_exact [of n 1]
  by (cases "n = 0") (auto simp: f64_of_nat_def ratio_to_f64_def f64_trunc_def scale_num_def)

lemma f64_positive: "0 < n \<Longrightarrow> n < 2 ^ 53 \<Longrightarrow> \<not> f64_le (f64_of_nat n) (f64_of_nat 0)"
  using ratio_small [of n False] by (simp add: f64_le_def f64_of_nat_def ratio_to_f64_def [of False 0] f64_scaled_def)

section \<open>Parsing a plain integer\<close>

lemma parse_f64_show_nat: "parse_f64 (show_nat n) = Some (f64_of_nat n)"
proof -
  have digs: "list_all is_ascii_digit (show_nat n)" using show_nat_digits by (simp add: list_all_iff)
  obtain c t where s: "show_nat n = c # t" and c: "is_ascii_digit c" by (rule show_nat_hd)
  have nc: "c \<noteq> CHR ''-''" "c \<noteq> CHR ''+''" using c not_digit by auto
  have up: "\<not> is_ascii_upper c" using c by (simp add: is_ascii_digit_def is_ascii_upper_def)
  have low: "to_ascii_lowercase (show_nat n) = c # to_ascii_lowercase t"
    by (simp add: s to_ascii_lowercase_def lower_char_def up)
  have ni: "c \<noteq> CHR ''i''" "c \<noteq> CHR ''n''" using c by (auto simp: is_ascii_digit_def byte_def)
  have sp: "span_digits (show_nat n) = (show_nat n, [])"
    using digs by (simp add: span_digits_def list_all_iff takeWhile_eq_all_conv dropWhile_eq_Nil_conv)
  have v: "digits_val 10 0 (show_nat n) = Some n"
    unfolding show_nat_def by (rule digits_val_show_radix) simp_all
  show ?thesis
    using sp v low ni nc unfolding parse_f64_def s
    by (simp add: parse_exp_def decimal_to_f64_def f64_of_nat_def)
qed

end
