(* ===== verification/Util.thy ===== *)
theory Util
  imports Errors F64
begin

text \<open>
  \<open>src/util/mod.rs\<close> without its file operations, and the helpers of \<open>src/runtime/mod.rs\<close>:
  human sizes, times and durations, the FNV-1a hash, ids and their validation, the runtime
  root and the names of a container's interfaces.  Environment variables, the entropy read
  from \<open>/dev/urandom\<close>, the clock and the process id are arguments.
\<close>

section \<open>Time\<close>

text \<open>Rust's \<open>/\<close> truncates toward zero; \<open>div_euclid\<close> is HOL's \<open>div\<close> for a positive divisor.\<close>

definition tdiv :: "int \<Rightarrow> int \<Rightarrow> int" where
  "tdiv a b = (if a \<ge> 0 then a div b else - ((- a) div b))"

definition civil_from_epoch :: "int \<Rightarrow> int \<times> int \<times> int \<times> int \<times> int \<times> int" where
  "civil_from_epoch secs =
     (let days = secs div 86400;
          rem = secs mod 86400;
          z = days + 719468;
          era = tdiv (if z \<ge> 0 then z else z - 146096) 146097;
          doe = z - era * 146097;
          yoe = tdiv (doe - tdiv doe 1460 + tdiv doe 36524 - tdiv doe 146096) 365;
          y = yoe + era * 400;
          doy = doe - (365 * yoe + tdiv yoe 4 - tdiv yoe 100);
          mp = tdiv (5 * doy + 2) 153;
          d = doy - tdiv (153 * mp + 2) 5 + 1;
          m = (if mp < 10 then mp + 3 else mp - 9);
          y' = (if m \<le> 2 then y + 1 else y)
      in (y', m, d, tdiv rem 3600, tdiv (rem mod 3600) 60, rem mod 60))"

definition show_pad :: "nat \<Rightarrow> int \<Rightarrow> string" where
  "show_pad w i = pad_zero w (show_int i)"

definition format_time :: "u64 \<Rightarrow> string" where
  "format_time ms =
     (if ms = 0 then ''-''
      else (case civil_from_epoch (uint (ms div 1000)) of (y, mo, d, h, mi, s) \<Rightarrow>
        show_pad 4 y @ ''-'' @ show_pad 2 mo @ ''-'' @ show_pad 2 d @ ''T'' @
        show_pad 2 h @ '':'' @ show_pad 2 mi @ '':'' @ show_pad 2 s @ ''Z''))"

definition format_duration_ms :: "u64 \<Rightarrow> string" where
  "format_duration_ms ms =
     (let s = unat ms div 1000
      in if s < 60 then show_nat s @ ''s''
         else if s < 3600 then show_nat (s div 60) @ ''m'' @ show_nat (s mod 60) @ ''s''
         else if s < 86400 then show_nat (s div 3600) @ ''h'' @ show_nat (s mod 3600 div 60) @ ''m''
         else show_nat (s div 86400) @ ''d'' @ show_nat (s mod 86400 div 3600) @ ''h'')"

section \<open>Sizes\<close>

definition size_suffixes :: "(string \<times> nat) list" where
  "size_suffixes =
     [(''kib'', 1024), (''mib'', 1024 * 1024), (''gib'', 1024 * 1024 * 1024),
      (''kb'', 1024), (''mb'', 1024 * 1024), (''gb'', 1024 * 1024 * 1024),
      (''k'', 1024), (''m'', 1024 * 1024), (''g'', 1024 * 1024 * 1024), (''b'', 1)]"

text \<open>The chain of \<open>strip_suffix\<close>: the first suffix that matches.\<close>

fun split_size :: "string \<Rightarrow> (string \<times> nat) list \<Rightarrow> string \<times> nat" where
  "split_size t [] = (t, 1)"
| "split_size t ((suf, mult) # rest) =
     (case strip_suffix t suf of Some p \<Rightarrow> (p, mult) | None \<Rightarrow> split_size t rest)"

definition parse_size :: "string \<Rightarrow> u64 option res" where
  "parse_size s =
     (let t = to_ascii_lowercase (str_trim s)
      in if t = [] then Err (Config ''empty size value'')
         else if t = ''-1'' \<or> t = ''max'' \<or> t = ''unlimited'' then Ok None
         else (case split_size t size_suffixes of (num_part, mult) \<Rightarrow>
           r_bind (ok_or (Config (''cannot parse size '' @ debug_str s)) (parse_f64 (str_trim num_part))) (\<lambda>n.
             if f64_lt n (f64_of_nat 0) then Err (Config (''negative size '' @ debug_str s))
             else Ok (Some (f64_as_u64 (f64_mul n (f64_of_nat mult)))))))"

definition format_bytes :: "u64 \<Rightarrow> string" where
  "format_bytes b =
     (let K = f64_of_nat 1024; f = f64_of_nat (unat b)
      in if f64_lt f K then show_nat (unat b) @ ''B''
         else if f64_lt f (f64_mul K K) then show_f64_fixed 1 (f64_div f K) @ ''KiB''
         else if f64_lt f (f64_mul (f64_mul K K) K)
           then show_f64_fixed 1 (f64_div f (f64_mul K K)) @ ''MiB''
         else show_f64_fixed 2 (f64_div f (f64_mul (f64_mul K K) K)) @ ''GiB'')"

section \<open>Hash and ids\<close>

definition fnv1a :: "u8 list \<Rightarrow> u64" where
  "fnv1a bs = foldl (\<lambda>h b. (h XOR ucast b) * 0x100000001b3) 0xcbf29ce484222325 bs"

definition str_bytes :: "string \<Rightarrow> u8 list" where
  "str_bytes s = map (\<lambda>c. of_nat (byte c)) s"

definition u64_le_bytes :: "u64 \<Rightarrow> u8 list" where
  "u64_le_bytes w = map (\<lambda>i. ucast (drop_bit (8 * i) w)) [0..<8]"

definition u64_be_bytes :: "u64 \<Rightarrow> u8 list" where
  "u64_be_bytes w = rev (u64_le_bytes w)"

definition hex :: "u8 list \<Rightarrow> string" where
  "hex bs = concat (map (\<lambda>b. [digit_char (unat (drop_bit 4 b)), digit_char (unat (b AND 0xf))]) bs)"

text \<open>
  \<open>entropy\<close> is what \<open>read_exact\<close> left in the zeroed 16-byte buffer: \<open>None\<close> when the device
  cannot be opened.
\<close>

definition generate_id :: "u8 list option \<Rightarrow> u64 \<Rightarrow> u32 \<Rightarrow> string" where
  "generate_id entropy nanos pid =
     (let bytes = (case entropy of Some bs \<Rightarrow> take 16 (bs @ replicate 16 0) | None \<Rightarrow> replicate 16 0)
      in if list_all (\<lambda>b. b = 0) bytes then
           (let mx = fnv1a (u64_le_bytes nanos) XOR fnv1a (u64_le_bytes (ucast pid))
            in hex (u64_le_bytes mx @ u64_le_bytes (fnv1a (u64_be_bytes mx))))
         else hex bytes)"

definition id_char :: "char \<Rightarrow> bool" where
  "id_char c \<longleftrightarrow> is_ascii_alphanumeric c \<or> c = CHR ''-'' \<or> c = CHR ''_'' \<or> c = CHR ''.''"

definition validate_id :: "string \<Rightarrow> unit res" where
  "validate_id i =
     (if i = [] \<or> length i > 64
      then Err (Config ''container id must be between 1 and 64 characters'')
      else if \<not> list_all id_char i
      then Err (Config (''container id '' @ debug_str i @ '' may only contain [A-Za-z0-9._-]''))
      else if starts_with i ''.''
      then Err (Config (''container id may not start with '' @ [CHR 0x27, CHR ''.'', CHR 0x27]))
      else Ok ())"

definition short_id :: "string \<Rightarrow> string" where
  "short_id i = chars_take 12 i"

section \<open>Paths and interface names\<close>

text \<open>\<open>Path::join\<close>: an absolute second part replaces the first.\<close>

definition path_join :: "string \<Rightarrow> string \<Rightarrow> string" where
  "path_join a b =
     (if starts_with b ''/'' then b
      else if a = [] then b
      else if ends_with a ''/'' then a @ b
      else a @ ''/'' @ b)"

record root_env =
  myrun_root :: "string option"
  xdg_runtime_dir :: "string option"
  euid :: nat
  run_is_dir :: bool

definition runtime_root :: "root_env \<Rightarrow> string" where
  "runtime_root env =
     (case myrun_root env of
        Some p \<Rightarrow> if p \<noteq> [] then p else
          (if euid env = 0 \<and> run_is_dir env then ''/run/myrun''
           else case xdg_runtime_dir env of
               Some x \<Rightarrow> if x \<noteq> [] then path_join x ''myrun'' else ''/tmp/myrun-'' @ show_nat (euid env)
             | None \<Rightarrow> ''/tmp/myrun-'' @ show_nat (euid env))
      | None \<Rightarrow>
          (if euid env = 0 \<and> run_is_dir env then ''/run/myrun''
           else case xdg_runtime_dir env of
               Some x \<Rightarrow> if x \<noteq> [] then path_join x ''myrun'' else ''/tmp/myrun-'' @ show_nat (euid env)
             | None \<Rightarrow> ''/tmp/myrun-'' @ show_nat (euid env)))"

definition containers_dir :: "root_env \<Rightarrow> string" where
  "containers_dir env = path_join (runtime_root env) ''containers''"

definition veth_names :: "string \<Rightarrow> string \<times> string" where
  "veth_names i =
     (let h = fnv1a (str_bytes i);
          suffix = pad_zero 8 (show_radix 16 (unat (ucast (h AND 0xffffffff) :: u32)))
      in (''mrv'' @ suffix, ''mrp'' @ suffix))"

section \<open>Sizes of plain integers\<close>

lemma ends_with_append: "ends_with (a @ b) b"
  by (simp add: ends_with_def starts_with_iff)

lemma ends_with_iff: "ends_with s p \<longleftrightarrow> (\<exists>t. s = t @ p)"
  by (auto simp: ends_with_def starts_with_iff) (metis rev_append rev_rev_ident)+

lemma strip_suffix_append [simp]: "strip_suffix (a @ b) b = Some a"
  by (simp add: strip_suffix_def ends_with_append)

lemma strip_suffix_None: "\<not> ends_with s p \<Longrightarrow> strip_suffix s p = None"
  by (simp add: strip_suffix_def)

lemma last_show_nat_digit: "is_ascii_digit (last (show_nat n))"
  using show_nat_digits [of n] by simp

lemma ends_with_last: "p \<noteq> [] \<Longrightarrow> ends_with s p \<Longrightarrow> s \<noteq> [] \<and> last s = last p"
  by (auto simp: ends_with_iff)

lemma show_nat_lower: "to_ascii_lowercase (show_nat n @ t) = show_nat n @ to_ascii_lowercase t"
proof -
  have "lower_char c = c" if "c \<in> set (show_nat n)" for c
    using that show_nat_digits [of n] by (auto simp: lower_char_def is_ascii_digit_def is_ascii_upper_def)
  then show ?thesis by (simp add: to_ascii_lowercase_def map_idI)
qed

text \<open>The two-letter and three-letter suffixes end in a non-digit before their last letter.\<close>

lemma no_long_suffix:
  assumes "p \<in> {''kib'', ''mib'', ''gib'', ''kb'', ''mb'', ''gb''}" "length c \<le> 1"
  shows "\<not> ends_with (show_nat n @ c) p"
proof
  assume "ends_with (show_nat n @ c) p"
  then obtain t where t: "show_nat n @ c = t @ p" by (auto simp: ends_with_iff)
  have "butlast p \<noteq> []" "\<not> is_ascii_digit (last (butlast p))" "\<not> is_ascii_digit (last p)" "p \<noteq> []"
    using assms(1) by (auto simp: is_ascii_digit_def byte_def)
  note p = this
  show False
  proof (cases c)
    case Nil
    then have "last (show_nat n) = last p" using t p by simp
    then show False using last_show_nat_digit [of n] p by simp
  next
    case (Cons x xs)
    then have "c = [x]" using assms(2) by simp
    then have "show_nat n = t @ butlast p" using t p by (metis butlast_append butlast_snoc)
    then have "last (show_nat n) = last (butlast p)" using p by simp
    then show False using last_show_nat_digit [of n] p by simp
  qed
qed

lemma no_short_suffix:
  assumes "\<not> is_ascii_digit y"
  shows "x \<noteq> y \<Longrightarrow> \<not> ends_with (show_nat n @ [x]) [y]" "\<not> ends_with (show_nat n) [y]"
proof -
  show "x \<noteq> y \<Longrightarrow> \<not> ends_with (show_nat n @ [x]) [y]" using ends_with_last [of "[y]" "show_nat n @ [x]"] by auto
  show "\<not> ends_with (show_nat n) [y]"
    using assms last_show_nat_digit [of n] ends_with_last [of "[y]" "show_nat n"] by auto
qed

definition size_units :: "(string \<times> nat) list" where
  "size_units = [([], 0), (''b'', 0), (''k'', 10), (''m'', 20), (''g'', 30)]"

lemma split_size_unit:
  assumes "(u, k) \<in> set size_units"
  shows "split_size (show_nat n @ u) size_suffixes = (show_nat n, 2 ^ k)"
proof -
  have nd: "\<not> is_ascii_digit (CHR ''k'')" "\<not> is_ascii_digit (CHR ''m'')"
    "\<not> is_ascii_digit (CHR ''g'')" "\<not> is_ascii_digit (CHR ''b'')"
    by (simp_all add: is_ascii_digit_def byte_def)
  have "length u \<le> 1" using assms by (auto simp: size_units_def)
  note long = strip_suffix_None [OF no_long_suffix [OF _ this]]
  note short = strip_suffix_None [OF no_short_suffix(1) [OF nd(1)]]
    strip_suffix_None [OF no_short_suffix(1) [OF nd(2)]]
    strip_suffix_None [OF no_short_suffix(1) [OF nd(3)]]
    strip_suffix_None [OF no_short_suffix(1) [OF nd(4)]]
  have bare: "strip_suffix (show_nat n) [y] = None" if "\<not> is_ascii_digit y" for y
    by (rule strip_suffix_None [OF no_short_suffix(2) [OF that]])
  show ?thesis
    using assms by (auto simp: size_units_def size_suffixes_def long short bare nd)
qed

lemma str_trim_show_nat [simp]: "str_trim (show_nat n) = show_nat n"
  using show_nat_graphic by (intro str_trim_graphic) blast

text \<open>
  A whole number of bytes, kibibytes, mebibytes or gibibytes below \<open>2 ^ 53\<close> whose size
  fits 64 bits is parsed exactly: the passage through floating point loses nothing.
\<close>

theorem parse_size_exact:
  assumes "(u, k) \<in> set size_units" "n < 2 ^ 53" "n * 2 ^ k < 2 ^ 64"
  shows "parse_size (show_nat n @ u) = Ok (Some (of_nat (n * 2 ^ k)))"
proof -
  have k: "k \<le> 52" using assms(1) by (auto simp: size_units_def)
  have gu: "\<forall>c \<in> set u. graphic c" using assms(1) by (auto simp: size_units_def graphic_def byte_def)
  have lu: "to_ascii_lowercase u = u"
    using assms(1) by (auto simp: size_units_def to_ascii_lowercase_def lower_char_def is_ascii_upper_def byte_def)
  have t: "to_ascii_lowercase (str_trim (show_nat n @ u)) = show_nat n @ u"
    using gu lu by (subst str_trim_graphic) (auto simp: show_nat_lower dest: show_nat_graphic)
  obtain c r where s: "show_nat n = c # r" and c: "is_ascii_digit c" by (rule show_nat_hd)
  have ne: "show_nat n @ u \<noteq> ''-1''" "show_nat n @ u \<noteq> ''max''" "show_nat n @ u \<noteq> ''unlimited''"
    unfolding s using c by (auto simp: is_ascii_digit_def byte_def)
  have nn: "\<not> f64_lt (f64_of_nat n) (f64_of_nat 0)"
  proof (cases "n = 0")
    case True
    then show ?thesis by (simp add: f64_of_nat_def ratio_to_f64_def [of _ 0] f64_scaled_def)
  next
    case False
    then have "0 < n" by simp
    show ?thesis
      unfolding f64_of_nat_def ratio_small [OF \<open>0 < n\<close> assms(2)]
      by (simp add: ratio_to_f64_def [of _ 0] f64_scaled_def not_less)
  qed
  show ?thesis
    unfolding parse_size_def t Let_def split_size_unit [OF assms(1)]
    using ne nn by (simp add: parse_f64_show_nat f64_as_u64_mul_pow2 [OF assms(2) k assms(3)] del: of_nat_mult)
qed

theorem parse_size_exact_witness: "parse_size (show_nat 256 @ ''m'') = Ok (Some 268435456)"
  using parse_size_exact [of "''m''" 20 256] by (simp add: size_units_def)

section \<open>Ids and names\<close>

lemma digit_char_id: "n < 16 \<Longrightarrow> is_ascii_alphanumeric (digit_char n)"
  by (auto simp: digit_char_def is_ascii_alphanumeric_def is_ascii_digit_def is_ascii_lower_def byte_char_of)

lemma nibbles: "unat (drop_bit 4 (b :: u8)) < 16" "unat (b AND 0xf) < 16"
proof -
  have "unat (b div 16) = unat b div 16" by (simp add: unat_div)
  then show "unat (drop_bit 4 b) < 16"
    using unsigned_less [of b, where ?'a = nat] by (simp add: drop_bit_eq_div less_mult_imp_div_less)
  have "b AND 0xf \<le> 0xf" by (rule word_and_le1)
  then show "unat (b AND 0xf) < 16" by (simp add: word_le_nat_alt)
qed

lemma hex_chars: "\<forall>c \<in> set (hex bs). is_ascii_alphanumeric c"
  by (auto simp: hex_def intro!: digit_char_id nibbles)

lemma length_hex: "length (hex bs) = 2 * length bs"
  by (induction bs) (simp_all add: hex_def)

lemma not_alnum_dot: "\<not> is_ascii_alphanumeric (CHR ''.'')"
  by (simp add: is_ascii_alphanumeric_def is_ascii_digit_def is_ascii_upper_def is_ascii_lower_def byte_def)

lemma validate_id_alnum:
  assumes "\<forall>c \<in> set i. is_ascii_alphanumeric c" "i \<noteq> []" "length i \<le> 64"
  shows "validate_id i = Ok ()"
proof -
  have "\<not> starts_with i ''.''" using assms(1,2) not_alnum_dot by (cases i) auto
  then show ?thesis using assms by (auto simp: validate_id_def id_char_def list_all_iff)
qed

text \<open>
  Whatever the entropy device returned, a generated id has 32 hexadecimal characters
  and passes the validation that user-supplied ids go through.
\<close>

theorem generate_id_valid:
  "length (generate_id entropy nanos pid) = 32 \<and> validate_id (generate_id entropy nanos pid) = Ok ()"
proof -
  have *: "length (hex bs) = 32 \<and> validate_id (hex bs) = Ok ()" if "length bs = 16" for bs
  proof -
    have l: "length (hex bs) = 32" using that by (simp add: length_hex)
    then have "hex bs \<noteq> []" by auto
    then show ?thesis using l validate_id_alnum [OF hex_chars] by simp
  qed
  have "length (u64_le_bytes mx @ u64_le_bytes w) = 16" for mx w by (simp add: u64_le_bytes_def)
  note * [OF this]
  moreover have "length (case entropy of Some bs \<Rightarrow> take 16 (bs @ replicate 16 0) | None \<Rightarrow> replicate 16 (0 :: u8)) = 16"
    by (cases entropy) auto
  note * [OF this]
  ultimately show ?thesis unfolding generate_id_def Let_def by (simp split: if_split)
qed

text \<open>A valid id names one entry of its parent directory: no separator, not \<open>.\<close> or \<open>..\<close>.\<close>

lemma validate_id_component:
  assumes "validate_id i = Ok ()"
  shows "i \<noteq> []" "length i \<le> 64" "CHR ''/'' \<notin> set i" "hd i \<noteq> CHR ''.''" "\<forall>c \<in> set i. graphic c"
proof -
  have v: "i \<noteq> []" "length i \<le> 64" "list_all id_char i" "\<not> starts_with i ''.''"
    using assms by (auto simp: validate_id_def split: if_splits)
  have sl: "\<not> id_char (CHR ''/'')"
    by (simp add: id_char_def is_ascii_alphanumeric_def is_ascii_digit_def is_ascii_upper_def is_ascii_lower_def byte_def)
  show "i \<noteq> []" "length i \<le> 64" using v by auto
  show "CHR ''/'' \<notin> set i" using v(3) sl by (auto simp: list_all_iff)
  show "hd i \<noteq> CHR ''.''" using v(1,4) by (cases i) auto
  have "id_char c \<Longrightarrow> graphic c" for c
    by (auto simp: id_char_def is_ascii_alphanumeric_def is_ascii_digit_def is_ascii_upper_def
        is_ascii_lower_def graphic_def byte_def)
  then show "\<forall>c \<in> set i. graphic c" using v(3) by (auto simp: list_all_iff)
qed

lemma length_show_radix: "2 \<le> r \<Longrightarrow> n < r ^ Suc k \<Longrightarrow> length (show_radix r n) \<le> Suc k"
proof (induction k arbitrary: n)
  case 0
  then show ?case by (subst show_radix.simps) simp
next
  case (Suc k)
  then have "n div r < r ^ Suc k" by (simp add: less_mult_imp_div_less mult.commute)
  then have "length (show_radix r (n div r)) \<le> Suc k" using Suc by blast
  then show ?case by (subst show_radix.simps) simp
qed

text \<open>
  The two interface names of a container always fit the kernel's limit of 15 characters
  and are different from each other.
\<close>

theorem veth_names_fit:
  "length (fst (veth_names i)) = 11 \<and> length (snd (veth_names i)) = 11 \<and>
   fst (veth_names i) \<noteq> snd (veth_names i)"
proof -
  define w :: u32 where "w = ucast (fnv1a (str_bytes i) AND 0xffffffff)"
  have "unat w < 16 ^ Suc 7" using unsigned_less [of w, where ?'a = nat] by simp
  then have "length (show_radix 16 (unat w)) \<le> 8" using length_show_radix [of 16 "unat w" 7] by simp
  then have "length (pad_zero 8 (show_radix 16 (unat w))) = 8" by (simp add: pad_zero_def)
  then show ?thesis by (simp add: veth_names_def w_def [symmetric] Let_def)
qed

end
