(* ===== verification/Json.thy ===== *)
theory Json
  imports Errors F64
begin

text \<open>
  \<open>src/util/json.rs\<close>: JSON values with insertion-ordered objects, their accessors, the
  compact and the pretty writer, and the recursive-descent parser.  The parser's state is
  its offset and the bytes that remain.  The mutual recursion of \<open>value\<close>, \<open>object\<close> and
  \<open>array\<close> is bounded by fuel; \<open>p_value_enough\<close> shows that the fuel \<open>json_parse\<close> starts with is
  never the reason of a result.  (The call stack of the program is not modelled.)
\<close>

section \<open>Values\<close>

datatype json =
    Null
  | Bool bool
  | JInt i64
  | Float f64
  | Str string
  | Arr "json list"
  | Obj "(string \<times> json) list"

definition json_obj :: json where "json_obj = Obj []"

fun set_entry :: "string \<Rightarrow> json \<Rightarrow> (string \<times> json) list \<Rightarrow> (string \<times> json) list" where
  "set_entry k v [] = [(k, v)]"
| "set_entry k v ((k', v') # m) = (if k' = k then (k, v) # m else (k', v') # set_entry k v m)"

fun json_set :: "string \<Rightarrow> json \<Rightarrow> json \<Rightarrow> json" where
  "json_set k v (Obj m) = Obj (set_entry k v m)"
| "json_set k v j = j"

fun json_get :: "json \<Rightarrow> string \<Rightarrow> json option" where
  "json_get (Obj m) k = map_option snd (List.find (\<lambda>e. fst e = k) m)"
| "json_get _ k = None"

fun as_str :: "json \<Rightarrow> string option" where
  "as_str (Str s) = Some s"
| "as_str _ = None"

fun as_i64 :: "json \<Rightarrow> i64 option" where
  "as_i64 (JInt i) = Some i"
| "as_i64 (Float f) = Some (f64_as_i64 f)"
| "as_i64 _ = None"

fun as_u64 :: "json \<Rightarrow> u64 option" where
  "as_u64 (JInt i) = (if 0 \<le> sint i then Some i else None)"
| "as_u64 (Float f) = (if f64_le (f64_of_nat 0) f then Some (f64_as_u64 f) else None)"
| "as_u64 _ = None"

fun as_f64 :: "json \<Rightarrow> f64 option" where
  "as_f64 (JInt i) = Some (f64_of_int (sint i))"
| "as_f64 (Float f) = Some f"
| "as_f64 _ = None"

fun as_bool :: "json \<Rightarrow> bool option" where
  "as_bool (Bool b) = Some b"
| "as_bool _ = None"

fun as_array :: "json \<Rightarrow> json list option" where
  "as_array (Arr a) = Some a"
| "as_array _ = None"

fun as_object :: "json \<Rightarrow> (string \<times> json) list option" where
  "as_object (Obj m) = Some m"
| "as_object _ = None"

fun json_is_null :: "json \<Rightarrow> bool" where
  "json_is_null Null = True"
| "json_is_null _ = False"

definition json_strings :: "string list \<Rightarrow> json" where
  "json_strings ss = Arr (map Str ss)"

section \<open>Writing\<close>

definition escape_char :: "char \<Rightarrow> string" where
  "escape_char c =
     (if c = CHR 0x22 then [CHR 0x5C, CHR 0x22]
      else if c = CHR 0x5C then [CHR 0x5C, CHR 0x5C]
      else if c = CHR 0x0A then [CHR 0x5C, CHR ''n'']
      else if c = CHR 0x0D then [CHR 0x5C, CHR ''r'']
      else if c = CHR 0x09 then [CHR 0x5C, CHR ''t'']
      else if c = CHR 0x08 then [CHR 0x5C, CHR ''b'']
      else if c = CHR 0x0C then [CHR 0x5C, CHR ''f'']
      else if byte c < 0x20 then [CHR 0x5C, CHR ''u''] @ pad_zero 4 (show_radix 16 (byte c))
      else [c])"

definition escape_into :: "string \<Rightarrow> string" where
  "escape_into s = [CHR 0x22] @ concat (map escape_char s) @ [CHR 0x22]"

definition json_nl :: "nat option \<Rightarrow> nat \<Rightarrow> string" where
  "json_nl indent depth = (case indent of
      Some step \<Rightarrow> CHR 0x0A # replicate (step * depth) (CHR '' '')
    | None \<Rightarrow> [])"

fun json_write :: "nat option \<Rightarrow> nat \<Rightarrow> json \<Rightarrow> string" where
  "json_write indent depth Null = ''null''"
| "json_write indent depth (Bool b) = (if b then ''true'' else ''false'')"
| "json_write indent depth (JInt i) = show_int (sint i)"
| "json_write indent depth (Float f) = (if is_finite f then show_f64 f else ''null'')"
| "json_write indent depth (Str s) = escape_into s"
| "json_write indent depth (Arr a) =
     (if a = [] then ''[]''
      else ''['' @
        str_join '','' (map (\<lambda>v. json_nl indent (depth + 1) @ json_write indent (depth + 1) v) a) @
        json_nl indent depth @ '']'')"
| "json_write indent depth (Obj m) =
     (if m = [] then ''{}''
      else ''{'' @
        str_join '','' (map (\<lambda>(k, v). json_nl indent (depth + 1) @ escape_into k @ '':'' @
            (if indent \<noteq> None then '' '' else []) @ json_write indent (depth + 1) v) m) @
        json_nl indent depth @ ''}'')"

definition json_to_string :: "json \<Rightarrow> string" where
  "json_to_string j = json_write None 0 j"

definition json_to_string_pretty :: "json \<Rightarrow> string" where
  "json_to_string_pretty j = json_write (Some 2) 0 j"

section \<open>Parsing\<close>

type_synonym pst = "nat \<times> string"

definition json_ws :: "char \<Rightarrow> bool" where
  "json_ws c \<longleftrightarrow> byte c \<in> {32, 9, 10, 13}"

fun p_ws :: "pst \<Rightarrow> pst" where
  "p_ws (i, []) = (i, [])"
| "p_ws (i, c # s) = (if json_ws c then p_ws (i + 1, s) else (i, c # s))"

definition p_err :: "string \<Rightarrow> nat \<Rightarrow> 'a res" where
  "p_err msg i = Err (Parse (msg @ '' at byte offset '' @ show_nat i))"

definition simple_escapes :: "(char \<times> char) list" where
  "simple_escapes =
     [(CHR 0x22, CHR 0x22), (CHR 0x5C, CHR 0x5C), (CHR ''/'', CHR ''/''), (CHR ''n'', CHR 0x0A),
      (CHR ''r'', CHR 0x0D), (CHR ''t'', CHR 0x09), (CHR ''b'', CHR 0x08), (CHR ''f'', CHR 0x0C)]"

text \<open>The length of a multi-byte sequence, from its first byte.\<close>

definition lead_len :: "char \<Rightarrow> nat" where
  "lead_len c = (if byte c \<ge> 0xf0 then 4 else if byte c \<ge> 0xe0 then 3 else 2)"

text \<open>The body of a string, after the opening quote.\<close>

function p_string :: "nat \<Rightarrow> string \<Rightarrow> string \<Rightarrow> (string \<times> pst) res" where
  "p_string i [] acc = p_err ''unterminated string'' i"
| "p_string i (c # s) acc =
     (if c = CHR 0x22 then Ok (acc, (i + 1, s))
      else if c = CHR 0x5C then
        (case s of
           [] \<Rightarrow> p_err ''unterminated escape'' (i + 1)
         | e # t \<Rightarrow>
             (case map_of simple_escapes e of
                Some x \<Rightarrow> p_string (i + 2) t (acc @ [x])
              | None \<Rightarrow>
                  if e = CHR ''u'' then
                    (if length t < 4 then p_err (''truncated '' @ [CHR 0x5C] @ ''u escape'') (i + 2)
                     else if \<not> utf8_valid (take 4 t) then Err (Parse (''bad '' @ [CHR 0x5C] @ ''u escape''))
                     else (case parse_unsigned 32 16 (take 4 t) of
                         None \<Rightarrow> Err (Parse (''bad '' @ [CHR 0x5C] @ ''u escape''))
                       | Some cp \<Rightarrow> p_string (i + 6) (drop 4 t)
                           (acc @ utf8_encode (if is_scalar cp then cp else 0xFFFD))))
                  else p_err ''unknown escape'' (i + 2)))
      else if byte c < 0x20 then p_err ''control character in string'' (i + 1)
      else if byte c < 0x80 then p_string (i + 1) s (acc @ [c])
      else if length (c # s) < lead_len c then p_err ''truncated utf-8 sequence'' (i + 1)
      else if \<not> utf8_valid (take (lead_len c) (c # s)) then Err (Parse ''invalid utf-8 in string'')
      else p_string (i + lead_len c) (drop (lead_len c) (c # s)) (acc @ take (lead_len c) (c # s)))"
  by pat_completeness auto
termination by (relation "measure (\<lambda>(_, s, _). length s)") (auto simp: lead_len_def)

definition is_num_char :: "char \<Rightarrow> bool" where
  "is_num_char c \<longleftrightarrow> is_ascii_digit c \<or> c \<in> {CHR ''.'', CHR ''e'', CHR ''E'', CHR ''-'', CHR ''+''}"

definition bad_number :: "string \<Rightarrow> error" where
  "bad_number t = Parse (''bad number '' @ debug_str t @ '': invalid float literal'')"

definition p_number :: "pst \<Rightarrow> (json \<times> pst) res" where
  "p_number st =
     (case st of (i, s) \<Rightarrow>
        let sgn = (case s of c # _ \<Rightarrow> if c = CHR ''-'' \<or> c = CHR ''+'' then 1 else 0 | [] \<Rightarrow> 0);
            body = takeWhile is_num_char (drop sgn s);
            float = list_ex (\<lambda>c. \<not> is_ascii_digit c) body;
            n = sgn + length body;
            t = take n s;
            st' = (i + n, drop n s);
            flt = (case parse_f64 t of Some f \<Rightarrow> Ok (Float f, st') | None \<Rightarrow> Err (bad_number t))
        in if n = 0 then p_err ''expected a value'' i
           else if float then flt
           else (case parse_i64 t of Some v \<Rightarrow> Ok (JInt v, st') | None \<Rightarrow> flt))"

definition p_lit :: "string \<Rightarrow> json \<Rightarrow> pst \<Rightarrow> (json \<times> pst) res" where
  "p_lit w j st = (case st of (i, s) \<Rightarrow>
     if starts_with s w then Ok (j, (i + length w, drop (length w) s)) else p_err ''invalid token'' i)"

fun p_peek :: "pst \<Rightarrow> char option" where
  "p_peek (i, []) = None"
| "p_peek (i, c # s) = Some c"

text \<open>\<open>self.i += 1\<close>.\<close>

definition p_next :: "pst \<Rightarrow> pst" where
  "p_next st = (fst st + 1, tl (snd st))"

text \<open>A key of an object with its colon: the first half of the loop body of \<open>object\<close>.\<close>

definition p_key :: "pst \<Rightarrow> (string \<times> pst) res" where
  "p_key st =
     (let st0 = p_ws st
      in if p_peek st0 \<noteq> Some (CHR 0x22) then p_err ''expected object key'' (fst st0)
         else r_bind (p_string (fst st0 + 1) (tl (snd st0)) []) (\<lambda>(k, st1).
           let st2 = p_ws st1
           in if p_peek st2 \<noteq> Some (CHR '':'') then p_err (''expected '' @ [CHR 0x27, CHR '':'', CHR 0x27]) (fst st2)
              else Ok (k, p_ws (p_next st2))))"

text \<open>The end of the loop bodies: a comma continues, the closing bracket returns.\<close>

definition p_sep :: "char \<Rightarrow> pst \<Rightarrow> (bool \<times> pst) res" where
  "p_sep close st =
     (let st' = p_ws st
      in if p_peek st' = Some (CHR '','') then Ok (True, p_next st')
         else if p_peek st' = Some close then Ok (False, p_next st')
         else p_err (''expected '' @ [CHR 0x27, CHR '','', CHR 0x27] @ '' or '' @ [CHR 0x27, close, CHR 0x27]) (fst st'))"

text \<open>
  \<open>value\<close>, and the loops of \<open>object\<close> and \<open>array\<close> with the entries read so far.  Running out
  of fuel is the error \<open>Parse []\<close>, which no branch of the program returns.
\<close>

fun p_value :: "nat \<Rightarrow> pst \<Rightarrow> (json \<times> pst) res"
and p_object :: "nat \<Rightarrow> (string \<times> json) list \<Rightarrow> pst \<Rightarrow> (json \<times> pst) res"
and p_array :: "nat \<Rightarrow> json list \<Rightarrow> pst \<Rightarrow> (json \<times> pst) res" where
  "p_value 0 st = Err (Parse [])"
| "p_value (Suc n) st =
     (case p_peek st of
        None \<Rightarrow> p_err ''unexpected end of input'' (fst st)
      | Some c \<Rightarrow>
          if c = CHR ''{'' then
            (let st1 = p_ws (p_next st)
             in if p_peek st1 = Some (CHR ''}'') then Ok (Obj [], p_next st1) else p_object n [] st1)
          else if c = CHR ''['' then
            (let st1 = p_ws (p_next st)
             in if p_peek st1 = Some (CHR '']'') then Ok (Arr [], p_next st1) else p_array n [] st1)
          else if c = CHR 0x22 then
            r_map (\<lambda>(v, st'). (Str v, st')) (p_string (fst st + 1) (tl (snd st)) [])
          else if c = CHR ''t'' then p_lit ''true'' (Bool True) st
          else if c = CHR ''f'' then p_lit ''false'' (Bool False) st
          else if c = CHR ''n'' then p_lit ''null'' Null st
          else p_number st)"
| "p_object 0 m st = Err (Parse [])"
| "p_object (Suc n) m st =
     r_bind (p_key st) (\<lambda>(k, st2).
       r_bind (p_value n st2) (\<lambda>(v, st3).
         r_bind (p_sep (CHR ''}'') st3) (\<lambda>(more, st4).
           if more then p_object n (m @ [(k, v)]) st4 else Ok (Obj (m @ [(k, v)]), st4))))"
| "p_array 0 a st = Err (Parse [])"
| "p_array (Suc n) a st =
     r_bind (p_value n (p_ws st)) (\<lambda>(v, st3).
       r_bind (p_sep (CHR '']'') st3) (\<lambda>(more, st4).
         if more then p_array n (a @ [v]) st4 else Ok (Arr (a @ [v]), st4)))"

definition json_parse :: "string \<Rightarrow> json res" where
  "json_parse input =
     r_bind (p_value (2 * length input + 2) (p_ws (0, input))) (\<lambda>(v, st).
       case p_ws st of
         (i, []) \<Rightarrow> Ok v
       | (i, _) \<Rightarrow> Err (Parse (''trailing data at byte offset '' @ show_nat i)))"

end
