(* ===== verification/Json_Laws.thy ===== *)
theory Json_Laws
  imports Json
begin

text \<open>
  Laws of \<open>src/util/json.rs\<close>: an object returns what was stored, the parser always consumes
  input and so never depends on its fuel, and it reads back every value the writers print.
\<close>

section \<open>Objects as maps\<close>

lemma find_set_entry:
  "List.find (\<lambda>e. fst e = k) (set_entry k' v m) =
     (if k = k' then Some (k', v) else List.find (\<lambda>e. fst e = k) m)"
  by (induction m) auto

lemma json_get_set [json_simps]:
  "json_get (json_set k v (Obj m)) k' = (if k' = k then Some v else json_get (Obj m) k')"
  by (simp add: find_set_entry)

lemma json_set_Obj: "json_set k v (Obj m) = Obj (set_entry k v m)"
  by simp

lemma keys_set_entry: "map fst (set_entry k v m) = (if k \<in> fst ` set m then map fst m else map fst m @ [k])"
  by (induction m) force+

lemma distinct_set_entry: "distinct (map fst m) \<Longrightarrow> distinct (map fst (set_entry k v m))"
  by (auto simp: keys_set_entry)

lemma set_entry_fresh: "k \<notin> fst ` set m \<Longrightarrow> set_entry k v m = m @ [(k, v)]"
  by (induction m) auto

section \<open>Progress and fuel\<close>

lemma p_ws_length: "length (snd (p_ws st)) \<le> length (snd st)"
  by (induction st rule: p_ws.induct) auto

lemma p_ws_le: "p_ws st = (i, s) \<Longrightarrow> length s \<le> length (snd st)"
  using p_ws_length [of st] by simp

lemma p_string_shrinks: "p_string i s acc = Ok (v, j, t) \<Longrightarrow> length t < length s"
proof (induction "length s" arbitrary: i s acc rule: less_induct)
  case less
  have IH: "p_string i' s' acc' = Ok (v, j, t) \<Longrightarrow> length s' < length s \<Longrightarrow> length t < length s" for i' s' acc'
    using less(1) by fastforce
  show ?case
  proof (cases s)
    case Nil
    then show ?thesis using less(2) by (simp add: p_err_def)
  next
    case (Cons c r)
    have l: "lead_len c \<noteq> 0" by (simp add: lead_len_def)
    show ?thesis
      using less(2) l unfolding Cons p_string.simps
      by (auto simp: p_err_def Cons simp del: p_string.simps
          split: if_splits list.splits option.splits dest!: IH)
  qed
qed

lemma p_number_shrinks: "p_number (i, s) = Ok (v, j, t) \<Longrightarrow> length t < length s"
proof -
  assume a: "p_number (i, s) = Ok (v, j, t)"
  define sg :: nat where "sg = (case s of c # _ \<Rightarrow> if c = CHR ''-'' \<or> c = CHR ''+'' then 1 else 0 | [] \<Rightarrow> 0)"
  define n where "n = sg + length (takeWhile is_num_char (drop sg s))"
  from a have n: "n \<noteq> 0" and t: "t = drop n s"
    unfolding p_number_def prod.case Let_def sg_def [symmetric] n_def [symmetric]
    by (auto simp: p_err_def split: if_splits option.splits)
  have "s \<noteq> []" using n by (auto simp: n_def sg_def)
  then show ?thesis using n t by simp
qed

lemma p_lit_shrinks: "p_lit w j (i, s) = Ok (v, k, t) \<Longrightarrow> w \<noteq> [] \<Longrightarrow> length t < length s"
  by (auto simp: p_lit_def p_err_def starts_with_iff split: if_splits)

lemma p_peek_Some: "p_peek st = Some c \<longleftrightarrow> (\<exists>i s. st = (i, c # s))"
  by (cases st rule: p_peek.cases) auto

lemma p_next_shrinks: "p_peek st = Some c \<Longrightarrow> length (snd (p_next st)) < length (snd st)"
  by (auto simp: p_peek_Some p_next_def)

lemma p_key_shrinks: "p_key st = Ok (k, st') \<Longrightarrow> length (snd st') < length (snd st)"
proof -
  assume a: "p_key st = Ok (k, st')"
  then obtain i s st1 where 1: "p_ws st = (i, CHR 0x22 # s)" "p_string (i + 1) s [] = Ok (k, st1)"
    and c: "p_peek (p_ws st1) = Some (CHR '':'')" and st': "st' = p_ws (p_next (p_ws st1))"
    by (auto simp: p_key_def p_err_def Let_def p_peek_Some split: if_splits)
  have "length (snd st1) < length s" using 1(2) p_string_shrinks by (cases st1) auto
  then show ?thesis
    using p_next_shrinks [OF c] p_ws_length [of "p_next (p_ws st1)"] p_ws_length [of st1]
      p_ws_le [OF 1(1)] st' by simp
qed

lemma p_sep_shrinks: "p_sep cl st = Ok (b, st') \<Longrightarrow> length (snd st') < length (snd st)"
  using p_ws_length [of st]
  by (auto simp: p_sep_def p_err_def Let_def split: if_splits dest: p_next_shrinks)

lemma p_shrinks:
  "p_value n st = Ok (v, st') \<Longrightarrow> length (snd st') < length (snd st)"
  "p_object n m st = Ok (v, st') \<Longrightarrow> length (snd st') < length (snd st)"
  "p_array n a st = Ok (v, st') \<Longrightarrow> length (snd st') < length (snd st)"
proof (induction n arbitrary: st v st' m a)
  case (Suc n)
  {
    case 1
    then obtain i c s where st: "st = (i, c # s)" by (cases st rule: p_peek.cases) (auto simp: p_err_def)
    let ?w = "p_ws (i + 1, s)"
    have w: "length (snd ?w) \<le> length s" using p_ws_length [of "(i + 1, s)"] by simp
    obtain j t where st': "st' = (j, t)" by (cases st')
    have "length t \<le> length s \<or> length t < length (c # s)"
      using 1 w Suc(2) [of "[]" ?w v st'] Suc(3) [of "[]" ?w v st'] unfolding st st'
      by (auto simp: p_next_def Let_def split: if_splits dest: p_next_shrinks
          dest!: p_string_shrinks p_lit_shrinks p_number_shrinks)
    then show ?case by (auto simp: st st')
  next
    case 2
    then obtain k st2 x st3 b st4 where
      1: "p_key st = Ok (k, st2)" "p_value n st2 = Ok (x, st3)" "p_sep (CHR ''}'') st3 = Ok (b, st4)"
      and d: "b \<and> p_object n (m @ [(k, x)]) st4 = Ok (v, st') \<or> st' = st4"
      by (auto split: if_splits)
    from p_key_shrinks [OF 1(1)] Suc(1) [OF 1(2)] p_sep_shrinks [OF 1(3)] d Suc(2) [of "m @ [(k, x)]" st4 v st']
    show ?case by auto
  next
    case 3
    then obtain x st3 b st4 where
      1: "p_value n (p_ws st) = Ok (x, st3)" "p_sep (CHR '']'') st3 = Ok (b, st4)"
      and d: "b \<and> p_array n (a @ [x]) st4 = Ok (v, st') \<or> st' = st4"
      by (auto split: if_splits)
    from Suc(1) [OF 1(1)] p_ws_length [of st] p_sep_shrinks [OF 1(2)] d Suc(3) [of "a @ [x]" st4 v st']
    show ?case by auto
  }
qed simp_all

lemma r_bind_cong:
  "m = m' \<Longrightarrow> (\<And>x. m' = Ok x \<Longrightarrow> f x = g x) \<Longrightarrow> r_bind m f = r_bind m' g"
  by (cases m') auto

lemma p_enough_Suc:
  "2 * length (snd st) + 1 \<le> n \<Longrightarrow> p_value (Suc n) st = p_value n st"
  "2 * length (snd st) + 2 \<le> n \<Longrightarrow> p_object (Suc n) m st = p_object n m st"
  "2 * length (snd st) + 2 \<le> n \<Longrightarrow> p_array (Suc n) a st = p_array n a st"
proof (induction n arbitrary: st m a)
  case (Suc n)
  {
    case 1
    show ?case
    proof (cases "p_peek st")
      case None
      then show ?thesis by simp
    next
      case (Some c)
      have "2 * length (snd (p_ws (p_next st))) + 2 \<le> n"
        using p_next_shrinks [OF Some] p_ws_length [of "p_next st"] 1 by linarith
      note Suc(2) [OF this, of "[]"] Suc(3) [OF this, of "[]"]
      then show ?thesis unfolding p_value.simps Some Let_def by presburger
    qed
  next
    case 2
    show ?case
      unfolding p_object.simps(2) [of "Suc n" m st] p_object.simps(2) [of n m st]
    proof (rule r_bind_cong [OF refl], clarify, rule r_bind_cong)
      fix k i s assume k: "p_key st = Ok (k, i, s)"
      have l: "length s < length (snd st)" using p_key_shrinks [OF k] by simp
      then show e: "p_value (Suc n) (i, s) = p_value n (i, s)" using 2 by (intro Suc(1)) simp
      fix y assume "p_value n (i, s) = Ok y"
      then obtain v st3 where y: "y = (v, st3)" "length (snd st3) < length (snd st)"
        using l p_shrinks(1) [of n "(i, s)"] by (cases y) force
      show "(case y of (v, st3) \<Rightarrow> r_bind (p_sep (CHR ''}'') st3) (\<lambda>(more, st4).
             if more then p_object (Suc n) (m @ [(k, v)]) st4 else Ok (Obj (m @ [(k, v)]), st4))) =
           (case y of (v, st3) \<Rightarrow> r_bind (p_sep (CHR ''}'') st3) (\<lambda>(more, st4).
             if more then p_object n (m @ [(k, v)]) st4 else Ok (Obj (m @ [(k, v)]), st4)))"
        unfolding y(1) prod.case
        by (rule r_bind_cong [OF refl]) (use y(2) 2 in \<open>auto simp del: p_object.simps dest!: p_sep_shrinks intro!: Suc(2)\<close>)
    qed
  next
    case 3
    show ?case
      unfolding p_array.simps(2) [of "Suc n" a st] p_array.simps(2) [of n a st]
    proof (rule r_bind_cong)
      show e: "p_value (Suc n) (p_ws st) = p_value n (p_ws st)"
        using p_ws_length [of st] 3 by (intro Suc(1)) simp
      fix y assume "p_value n (p_ws st) = Ok y"
      then obtain v st3 where y: "y = (v, st3)" "length (snd st3) < length (snd st)"
        using p_ws_length [of st] p_shrinks(1) [of n "p_ws st"] by (cases y) force
      show "(case y of (v, st3) \<Rightarrow> r_bind (p_sep (CHR '']'') st3) (\<lambda>(more, st4).
             if more then p_array (Suc n) (a @ [v]) st4 else Ok (Arr (a @ [v]), st4))) =
           (case y of (v, st3) \<Rightarrow> r_bind (p_sep (CHR '']'') st3) (\<lambda>(more, st4).
             if more then p_array n (a @ [v]) st4 else Ok (Arr (a @ [v]), st4)))"
        unfolding y(1) prod.case
        by (rule r_bind_cong [OF refl]) (use y(2) 3 in \<open>auto simp del: p_array.simps dest!: p_sep_shrinks intro!: Suc(3)\<close>)
    qed
  }
qed simp_all

text \<open>Enough fuel: from \<open>2 * length + 1\<close> on, the result no longer depends on it.\<close>

lemma p_value_enough:
  assumes "2 * length (snd st) + 1 \<le> n" "n \<le> n'"
  shows "p_value n' st = p_value n st"
  using assms(2,1)
proof (induction n' rule: dec_induct)
  case (step k)
  then show ?case using p_enough_Suc(1) [of st k] by simp
qed simp

section \<open>Strings round trip\<close>

lemma prefix4_cases:
  obtains "s = []" | a where "s = [a]" | a b where "s = [a, b]" | a b c where "s = [a, b, c]"
    | a b c d t where "s = a # b # c # d # t"
  by (metis list.exhaust)

lemma utf8_len_le: "utf8_len s \<le> length s"
  by (cases s rule: prefix4_cases) (auto simp: utf8_len_def)

lemma utf8_valid_fuel_enough: "length s \<le> n \<Longrightarrow> utf8_valid_fuel n s = utf8_valid s"
proof (induction n arbitrary: s rule: less_induct)
  case (less n)
  show ?case
  proof (cases s)
    case Nil
    then show ?thesis by (cases n) (simp_all add: utf8_valid_def)
  next
    case (Cons c r)
    then obtain k where n: "n = Suc k" using less(2) by (cases n) auto
    define d where "d = drop (utf8_len s) s"
    have "utf8_len s \<noteq> 0 \<Longrightarrow> utf8_valid_fuel k d = utf8_valid d"
      using less n Cons by (intro less(1)) (auto simp: d_def)
    moreover have "utf8_len s \<noteq> 0 \<Longrightarrow> utf8_valid_fuel (length r) d = utf8_valid d"
      using less n Cons by (intro less(1)) (auto simp: d_def)
    ultimately have "utf8_len s \<noteq> 0 \<Longrightarrow> utf8_valid_fuel k d = utf8_valid_fuel (length r) d" by simp
    then show ?thesis using Cons unfolding utf8_valid_def n by (auto simp: d_def)
  qed
qed

lemma utf8_valid_Nil [simp]: "utf8_valid []"
  by (simp add: utf8_valid_def)

lemma utf8_valid_Cons:
  "utf8_valid (c # s) \<longleftrightarrow> utf8_len (c # s) \<noteq> 0 \<and> utf8_valid (drop (utf8_len (c # s)) (c # s))"
proof -
  have "utf8_len (c # s) \<noteq> 0 \<Longrightarrow>
      utf8_valid_fuel (length s) (drop (utf8_len (c # s)) (c # s)) = utf8_valid (drop (utf8_len (c # s)) (c # s))"
    by (rule utf8_valid_fuel_enough) simp
  then show ?thesis by (auto simp: utf8_valid_def [of "c # s"])
qed

lemma utf8_len_ascii: "byte c < 0x80 \<Longrightarrow> utf8_len (c # s) = 1"
  by (simp add: utf8_len_def)

lemma utf8_len_multi:
  assumes "\<not> byte c < 0x80" "utf8_len (c # s) \<noteq> 0"
  shows "utf8_len (c # s) = lead_len c"
    and "\<forall>x \<in> set (take (lead_len c) (c # s)). 0x80 \<le> byte x"
    and "utf8_len (take (lead_len c) (c # s)) = lead_len c"
proof -
  have l: "utf8_len (c # s) = lead_len c \<and> (\<forall>x \<in> set (take (lead_len c) (c # s)). 0x80 \<le> byte x)
      \<and> utf8_len (take (lead_len c) (c # s)) = lead_len c"
  proof (cases "byte c < 0xe0")
    case True
    then obtain b t where "s = b # t" "utf8_cont (byte b)" "0xC2 \<le> byte c"
      using assms by (cases s) (auto simp: utf8_len_def split: list.splits if_splits)
    then show ?thesis using True assms by (simp add: utf8_len_def lead_len_def utf8_cont_def)
  next
    case False
    show ?thesis
    proof (cases "byte c < 0xf0")
      case True
      then obtain b d t where "s = b # d # t"
        using assms False by (cases "c # s" rule: prefix4_cases) (auto simp: utf8_len_def)
      then show ?thesis
        using True False assms
        by (simp add: utf8_len_def lead_len_def utf8_cont_def split: if_splits)
    next
      case False
      then obtain b d e t where "s = b # d # e # t"
        using assms by (cases "c # s" rule: prefix4_cases) (auto simp: utf8_len_def)
      then show ?thesis
        using False assms
        by (simp add: utf8_len_def lead_len_def utf8_cont_def split: if_splits)
    qed
  qed
  then show "utf8_len (c # s) = lead_len c" "\<forall>x \<in> set (take (lead_len c) (c # s)). 0x80 \<le> byte x"
    "utf8_len (take (lead_len c) (c # s)) = lead_len c" by blast+
qed

lemma escape_char_id: "0x80 \<le> byte c \<Longrightarrow> escape_char c = [c]"
proof -
  assume a: "0x80 \<le> byte c"
  then have "c \<notin> {CHR 0x22, CHR 0x5C, CHR 0x0A, CHR 0x0D, CHR 0x09, CHR 0x08, CHR 0x0C}"
    by (auto simp: byte_def)
  then show ?thesis using a by (simp add: escape_char_def)
qed

lemma utf8_valid_ascii: "\<forall>c \<in> set s. byte c < 0x80 \<Longrightarrow> utf8_valid s"
  by (induction s) (simp_all add: utf8_valid_Cons utf8_len_ascii)

lemma byte_digit_char: "n < 16 \<Longrightarrow> byte (digit_char n) = (if n < 10 then 48 + n else 87 + n)"
  by (simp add: digit_char_def byte_char_of)

lemma show_radix_ascii: "c \<in> set (show_radix 16 n) \<Longrightarrow> byte c < 0x80"
proof (induction n rule: less_induct)
  case (less n)
  have "set (show_radix 16 n) \<subseteq> insert (digit_char (n mod 16)) (set (show_radix 16 (n div 16)))"
    by (subst show_radix.simps) auto
  then have "c = digit_char (n mod 16) \<or> c \<in> set (show_radix 16 (n div 16))" using less(2) by blast
  moreover have "k < 16 \<Longrightarrow> byte (digit_char k) < 0x80" for k by (simp add: byte_digit_char)
  then have "byte (digit_char (n mod 16)) < 0x80" by simp
  moreover have "n < 16 \<Longrightarrow> byte c < 0x80"
    using less(2) by (subst (asm) show_radix.simps) (simp add: byte_digit_char)
  moreover have "\<not> n < 16 \<Longrightarrow> n div 16 < n" by simp
  ultimately show ?case using less(1) by blast
qed

lemma digits_val_zeros: "2 \<le> r \<Longrightarrow> digits_val r 0 (replicate k (CHR ''0'') @ s) = digits_val r 0 s"
  by (induction k) (simp_all add: to_digit_def is_ascii_digit_def byte_def Let_def)

lemma hex4:
  assumes "n < 32"
  shows "length (pad_zero 4 (show_radix 16 n)) = 4" "utf8_valid (pad_zero 4 (show_radix 16 n))"
    "parse_unsigned 32 16 (pad_zero 4 (show_radix 16 n)) = Some n" "utf8_encode n = [char_of n]"
    "is_scalar n"
proof -
  have l: "length (show_radix 16 n) \<le> 2"
    using assms by (subst show_radix.simps, subst show_radix.simps) (simp add: less_mult_imp_div_less)
  then show "length (pad_zero 4 (show_radix 16 n)) = 4" by (simp add: pad_zero_def)
  show "utf8_valid (pad_zero 4 (show_radix 16 n))"
    by (rule utf8_valid_ascii) (auto simp: pad_zero_def byte_def dest: show_radix_ascii [unfolded byte_def])
  obtain k where k: "4 - length (show_radix 16 n) = Suc k" using l by (cases "4 - length (show_radix 16 n)") auto
  then have h: "pad_zero 4 (show_radix 16 n) = CHR ''0'' # replicate k (CHR ''0'') @ show_radix 16 n"
    by (simp add: pad_zero_def)
  have "digits_val 16 0 (pad_zero 4 (show_radix 16 n)) = Some n"
    by (simp add: pad_zero_def digits_val_zeros digits_val_show_radix)
  then show "parse_unsigned 32 16 (pad_zero 4 (show_radix 16 n)) = Some n"
    using assms unfolding h by (simp add: parse_unsigned_def nat_of_radix_def Let_def)
  show "utf8_encode n = [char_of n]" "is_scalar n" using assms by (simp_all add: utf8_encode_def is_scalar_def)
qed

lemma p_string_quote: "p_string i (CHR 0x22 # s) acc = Ok (acc, (i + 1, s))"
  by (subst p_string.simps(2)) simp

lemma p_string_simple:
  "map_of simple_escapes e = Some x \<Longrightarrow> p_string i (CHR 0x5C # e # t) acc = p_string (i + 2) t (acc @ [x])"
  by (subst p_string.simps(2)) (simp del: p_string.simps)

lemma p_string_u:
  assumes "length h = 4" "utf8_valid h" "parse_unsigned 32 16 h = Some n" "is_scalar n"
  shows "p_string i (CHR 0x5C # CHR ''u'' # h @ t) acc = p_string (i + 6) t (acc @ utf8_encode n)"
proof -
  have "map_of simple_escapes (CHR ''u'') = None" by (simp add: simple_escapes_def)
  then show ?thesis using assms by (subst p_string.simps(2)) (simp del: p_string.simps)
qed

lemma p_string_plain:
  assumes "c \<noteq> CHR 0x22" "c \<noteq> CHR 0x5C" "\<not> byte c < 0x20" "byte c < 0x80"
  shows "p_string i (c # s) acc = p_string (i + 1) s (acc @ [c])"
  using assms by (subst p_string.simps(2)) (simp del: p_string.simps)

lemma p_string_chunk:
  assumes "\<not> byte c < 0x80" "length (c # ch) = lead_len c" "utf8_valid (c # ch)"
  shows "p_string i ((c # ch) @ t) acc = p_string (i + lead_len c) t (acc @ (c # ch))"
proof -
  have "c \<noteq> CHR 0x22" "c \<noteq> CHR 0x5C" "\<not> byte c < 0x20" using assms(1) by (auto simp: byte_def)
  moreover have "take (lead_len c) ((c # ch) @ t) = c # ch" "drop (lead_len c) ((c # ch) @ t) = t"
    "\<not> length ((c # ch) @ t) < lead_len c" using assms(2) by (metis append_eq_conv_conj, metis append_eq_conv_conj, simp)
  ultimately show ?thesis
    using assms(1,3) unfolding append_Cons by (subst p_string.simps(2)) (simp only: if_False simp_thms)
qed

lemma p_string_ascii:
  assumes "byte c < 0x80"
  shows "p_string i (escape_char c @ t) acc = p_string (i + length (escape_char c)) t (acc @ [c])"
proof -
  consider (simple) e where "escape_char c = [CHR 0x5C, e]" "map_of simple_escapes e = Some c"
    | (ctl) "escape_char c = CHR 0x5C # CHR ''u'' # pad_zero 4 (show_radix 16 (byte c))" "byte c < 0x20"
    | (plain) "escape_char c = [c]" "c \<noteq> CHR 0x22" "c \<noteq> CHR 0x5C" "\<not> byte c < 0x20"
    by (fastforce simp: escape_char_def simple_escapes_def split: if_splits)
  then show ?thesis
  proof cases
    case simple
    then show ?thesis by (simp add: p_string_simple del: p_string.simps)
  next
    case ctl
    note h = hex4 [OF ctl(2)]
    show ?thesis
      using h(1) p_string_u [OF h(1-3,5)] h(4) by (simp add: ctl(1) del: p_string.simps)
  next
    case plain
    then show ?thesis using assms by (simp add: p_string_plain del: p_string.simps)
  qed
qed

lemma escape_multi: "\<forall>x \<in> set s. 0x80 \<le> byte x \<Longrightarrow> concat (map escape_char s) = s"
  by (induction s) (simp_all add: escape_char_id)

lemma p_string_escape:
  "utf8_valid s \<Longrightarrow> p_string i (concat (map escape_char s) @ CHR 0x22 # rest) acc =
     Ok (acc @ s, (i + length (concat (map escape_char s)) + 1, rest))"
proof (induction "length s" arbitrary: s i acc rule: less_induct)
  case less
  show ?case
  proof (cases s)
    case Nil
    then show ?thesis by (simp add: p_string_quote del: p_string.simps)
  next
    case (Cons c r)
    show ?thesis
    proof (cases "byte c < 0x80")
      case True
      have "utf8_valid r" using less(2) by (simp add: Cons utf8_valid_Cons utf8_len_ascii True)
      then show ?thesis
        using less(1) [of r] p_string_ascii [OF True] by (simp add: Cons add.assoc del: p_string.simps)
    next
      case False
      define k where "k = lead_len c"
      have u: "utf8_len (c # r) \<noteq> 0" "utf8_valid (drop (utf8_len (c # r)) (c # r))"
        using less(2) by (simp_all add: Cons utf8_valid_Cons)
      note m = utf8_len_multi [OF False u(1), folded k_def]
      have k0: "0 < k" by (simp add: k_def lead_len_def)
      define ch where "ch = tl (take k (c # r))"
      define d where "d = drop k (c # r)"
      have tk: "take k (c # r) = c # ch" using k0 by (simp add: ch_def take_Cons')
      have len: "length (c # ch) = k"
        using utf8_len_le [of "c # r"] m(1) unfolding tk [symmetric] by simp
      have v: "utf8_valid (c # ch)" using m(3) len unfolding tk by (subst utf8_valid_Cons) simp
      have s: "s = (c # ch) @ d" unfolding Cons d_def tk [symmetric] by simp
      have e: "concat (map escape_char (c # ch)) = c # ch" using m(2) unfolding tk by (rule escape_multi)
      have "length d < length s" using len k0 unfolding s length_append by linarith
      moreover have "utf8_valid d" using u(2) m(1) by (simp add: d_def)
      ultimately have IH: "p_string i' (concat (map escape_char d) @ CHR 0x22 # rest) acc' =
          Ok (acc' @ d, (i' + length (concat (map escape_char d)) + 1, rest))" for i' acc'
        by (rule less(1))
      show ?thesis
        unfolding s map_append concat_append e append_assoc
          p_string_chunk [OF False len [unfolded k_def] v] IH
        using len by (simp add: k_def del: p_string.simps)
    qed
  qed
qed

section \<open>Values round trip\<close>

text \<open>Values without floating-point numbers, whose strings are well-formed UTF-8.\<close>

fun plain_json :: "json \<Rightarrow> bool" where
  "plain_json (Float f) = False"
| "plain_json (Str s) = utf8_valid s"
| "plain_json (Arr a) = list_all plain_json a"
| "plain_json (Obj m) = list_all (\<lambda>(k, v). utf8_valid k \<and> plain_json v) m"
| "plain_json j = True"

definition num_stop :: "string \<Rightarrow> bool" where
  "num_stop s \<longleftrightarrow> s = [] \<or> \<not> is_num_char (hd s)"

definition ws_stop :: "string \<Rightarrow> bool" where
  "ws_stop s \<longleftrightarrow> s = [] \<or> \<not> json_ws (hd s)"

lemma p_ws_stop [simp]: "ws_stop s \<Longrightarrow> p_ws (i, s) = (i, s)"
  by (cases s) (auto simp: ws_stop_def)

lemma p_ws_skip: "\<forall>c \<in> set w. json_ws c \<Longrightarrow> p_ws (i, w @ s) = p_ws (i + length w, s)"
  by (induction w arbitrary: i) auto

lemma p_ws_idem: "p_ws (p_ws st) = p_ws st"
  by (induction st rule: p_ws.induct) auto

lemma json_nl_ws: "\<forall>c \<in> set (json_nl ind d). json_ws c"
  by (auto simp: json_nl_def json_ws_def byte_def split: option.splits)

lemma p_ws_nl: "ws_stop s \<Longrightarrow> p_ws (i, json_nl ind d @ s) = (i + length (json_nl ind d), s)"
  by (simp add: p_ws_skip json_nl_ws)

lemma num_stop_nl: "num_stop s \<Longrightarrow> num_stop (json_nl ind d @ s)"
  by (auto simp: num_stop_def json_nl_def is_num_char_def is_ascii_digit_def byte_def split: option.splits)

lemma num_stop_punct:
  "num_stop (CHR '','' # s)" "num_stop (CHR '']'' # s)" "num_stop (CHR ''}'' # s)" "num_stop []"
  by (simp_all add: num_stop_def is_num_char_def is_ascii_digit_def byte_def)

lemma ws_stop_punct:
  "ws_stop (CHR '','' # s)" "ws_stop (CHR '']'' # s)" "ws_stop (CHR ''}'' # s)" "ws_stop (CHR 0x22 # s)"
  "ws_stop (CHR '':'' # s)" "ws_stop []"
  by (simp_all add: ws_stop_def json_ws_def byte_def)

lemma not_ws_punct [simp]:
  "\<not> json_ws (CHR '','')" "\<not> json_ws (CHR '']'')" "\<not> json_ws (CHR ''}'')" "\<not> json_ws (CHR 0x22)"
  "\<not> json_ws (CHR '':'')"
  by (simp_all add: json_ws_def byte_def)

lemma not_digit_start: "\<not> is_ascii_digit (CHR ''{'')" "\<not> is_ascii_digit (CHR ''['')"
  "\<not> is_ascii_digit (CHR 0x22)" "\<not> is_ascii_digit (CHR ''t'')" "\<not> is_ascii_digit (CHR ''f'')"
  "\<not> is_ascii_digit (CHR ''n'')"
  by (simp_all add: is_ascii_digit_def byte_def)

lemma digit_num_char: "is_ascii_digit c \<Longrightarrow> is_num_char c"
  by (simp add: is_num_char_def)

lemma p_number_show_int:
  assumes "num_stop rest"
  shows "p_number (i, show_int (sint v) @ rest) = Ok (JInt v, (i + length (show_int (sint v)), rest))"
proof -
  have tw: "takeWhile is_num_char (show_nat n @ rest) = show_nat n" for n
  proof -
    have "takeWhile is_num_char rest = []" using assms by (cases rest) (auto simp: num_stop_def)
    moreover have "\<forall>c \<in> set (show_nat n). is_num_char c" using show_nat_digits digit_num_char by blast
    ultimately show ?thesis by (simp add: takeWhile_append2)
  qed
  have fl: "\<not> list_ex (\<lambda>c. \<not> is_ascii_digit c) (show_nat n)" for n
    using show_nat_digits [of n] by (simp add: list_ex_iff)
  have pi: "parse_i64 (show_int (sint v)) = Some v" by simp
  show ?thesis
  proof (cases "sint v < 0")
    case True
    then have e: "show_int (sint v) = CHR ''-'' # show_nat (nat (- sint v))" by (simp add: show_int_def)
    show ?thesis using pi unfolding p_number_def e by (simp add: tw fl Let_def)
  next
    case False
    then have e: "show_int (sint v) = show_nat (nat (sint v))" by (simp add: show_int_def)
    obtain c t where s: "show_nat (nat (sint v)) = c # t" and c: "is_ascii_digit c" by (rule show_nat_hd)
    have "c \<noteq> CHR ''-''" "c \<noteq> CHR ''+''" using c not_digit by auto
    then have g: "(case show_nat (nat (sint v)) @ rest of c # _ \<Rightarrow> if c = CHR ''-'' \<or> c = CHR ''+'' then 1 else 0 | [] \<Rightarrow> 0) = (0 :: nat)"
      by (simp add: s)
    show ?thesis using pi unfolding p_number_def e prod.case g Let_def by (simp add: tw fl)
  qed
qed

definition first_ok :: "char \<Rightarrow> bool" where
  "first_ok c \<longleftrightarrow> \<not> json_ws c \<and> c \<noteq> CHR '']'' \<and> c \<noteq> CHR ''}''"

lemma json_write_first:
  assumes "plain_json j"
  obtains c t where "json_write ind d j = c # t" "first_ok c"
proof -
  have sh: "\<exists>c t. show_int i = c # t \<and> first_ok c" for i
  proof -
    obtain c t where s: "show_nat (nat i) = c # t" and c: "is_ascii_digit c" by (rule show_nat_hd)
    have f: "first_ok c" using c by (auto simp: first_ok_def json_ws_def is_ascii_digit_def byte_def)
    show ?thesis
    proof (cases "i < 0")
      case True
      then show ?thesis by (simp add: show_int_def first_ok_def json_ws_def byte_def)
    next
      case False
      then show ?thesis using s f by (simp add: show_int_def)
    qed
  qed
  have "\<exists>c t. json_write ind d j = c # t \<and> first_ok c"
    using assms sh by (cases j) (auto simp: escape_into_def first_ok_def json_ws_def byte_def)
  then show ?thesis using that by blast
qed

lemma ws_stop_write: "plain_json j \<Longrightarrow> ws_stop (json_write ind d j @ s)"
  by (rule json_write_first [of j ind d]) (auto simp: ws_stop_def first_ok_def)

text \<open>\<open>reads j\<close>: with enough fuel the parser reads back what the writer printed for \<open>j\<close>.\<close>

definition reads :: "json \<Rightarrow> bool" where
  "reads j \<longleftrightarrow> (\<forall>ind d i rest. num_stop rest \<longrightarrow>
     (\<exists>N. \<forall>n \<ge> N. p_value n (i, json_write ind d j @ rest) =
        Ok (j, (i + length (json_write ind d j), rest))))"

lemma readsD:
  assumes "reads j" "num_stop rest"
  shows "\<exists>N. \<forall>n \<ge> N. p_value n (i, json_write ind d j @ rest) =
    Ok (j, (i + length (json_write ind d j), rest))"
  using assms unfolding reads_def by blast

lemma p_sep_comma: "p_sep cl (i, CHR '','' # s) = Ok (True, (i + 1, s))"
  by (simp add: p_sep_def p_next_def json_ws_def byte_def)

lemma p_sep_close:
  assumes "cl \<noteq> CHR '',''" "\<not> json_ws cl"
  shows "p_sep cl (i, json_nl ind d @ cl # s) = Ok (False, (i + length (json_nl ind d) + 1, s))"
proof -
  have "p_ws (i, json_nl ind d @ cl # s) = (i + length (json_nl ind d), cl # s)"
    using assms by (intro p_ws_nl) (simp add: ws_stop_def)
  then show ?thesis using assms by (simp add: p_sep_def p_next_def)
qed

lemma p_array_ws: "p_array n a (p_ws st) = p_array n a st"
  by (cases n) (simp_all add: p_ws_idem)

lemma p_array_reads:
  assumes "\<forall>v \<in> set xs. reads v \<and> plain_json v" "xs \<noteq> []"
  shows "\<exists>N. \<forall>n \<ge> N. p_array n acc
      (i, str_join '','' (map (\<lambda>v. json_nl ind e @ json_write ind e v) xs) @ json_nl ind d @ CHR '']'' # rest) =
    Ok (Arr (acc @ xs), (i + length (str_join '','' (map (\<lambda>v. json_nl ind e @ json_write ind e v) xs)) +
      length (json_nl ind d) + 1, rest))"
  using assms
proof (induction xs arbitrary: acc i)
  case (Cons v vs)
  let ?w = "json_write ind e v" and ?nl = "json_nl ind e"
  have v: "reads v" "plain_json v" using Cons.prems by auto
  have cl: "CHR '']'' \<noteq> CHR '',''" "\<not> json_ws (CHR '']'')" by (simp_all add: json_ws_def byte_def)
  show ?case
  proof (cases vs)
    case Nil
    let ?r = "json_nl ind d @ CHR '']'' # rest"
    obtain N where N: "\<And>n. N \<le> n \<Longrightarrow> p_value n (i + length ?nl, ?w @ ?r) = Ok (v, (i + length ?nl + length ?w, ?r))"
      using readsD [OF v(1) num_stop_nl [OF num_stop_punct(2)]] by blast
    have "p_array n acc (i, (?nl @ ?w) @ ?r) = Ok (Arr (acc @ [v]), (i + length (?nl @ ?w) + length (json_nl ind d) + 1, rest))"
      if n: "Suc N \<le> n" for n
    proof -
      obtain k where k: "n = Suc k" "N \<le> k" using n by (cases n) auto
      show ?thesis
        using N [OF k(2)] p_sep_close [OF cl]
        by (simp add: k(1) p_ws_nl [OF ws_stop_write [OF v(2)]] add.assoc)
    qed
    then show ?thesis unfolding Nil by auto
  next
    case (Cons v' vs')
    let ?j = "str_join '','' (map (\<lambda>v. json_nl ind e @ json_write ind e v) vs)"
    let ?r = "CHR '','' # ?j @ json_nl ind d @ CHR '']'' # rest"
    obtain N where N: "\<And>n. N \<le> n \<Longrightarrow> p_value n (i + length ?nl, ?w @ ?r) = Ok (v, (i + length ?nl + length ?w, ?r))"
      using readsD [OF v(1) num_stop_punct(1)] by blast
    obtain M where M: "\<And>n. M \<le> n \<Longrightarrow> p_array n (acc @ [v]) (i + length ?nl + length ?w + 1, ?j @ json_nl ind d @ CHR '']'' # rest) =
        Ok (Arr ((acc @ [v]) @ vs), (i + length ?nl + length ?w + 1 + length ?j + length (json_nl ind d) + 1, rest))"
      using Cons.IH [of "acc @ [v]" "i + length ?nl + length ?w + 1"] Cons.prems Cons by auto
    have jn: "str_join '','' (map (\<lambda>v. json_nl ind e @ json_write ind e v) (v # vs)) = ?nl @ ?w @ '','' @ ?j"
      by (simp add: Cons)
    have "p_array n acc (i, (?nl @ ?w @ '','' @ ?j) @ json_nl ind d @ CHR '']'' # rest) =
        Ok (Arr (acc @ v # vs), (i + length (?nl @ ?w @ '','' @ ?j) + length (json_nl ind d) + 1, rest))"
      if n: "Suc (max N M) \<le> n" for n
    proof -
      obtain k where k: "n = Suc k" "N \<le> k" "M \<le> k" using n by (cases n) auto
      show ?thesis
        using N [OF k(2)] M [OF k(3)]
        by (simp add: k(1) p_ws_nl [OF ws_stop_write [OF v(2)]] p_sep_comma add.assoc del: p_array.simps(1))
    qed
    then show ?thesis unfolding jn by blast
  qed
qed simp

text \<open>What the writer prints before the value of an object's entry.\<close>

definition key_text :: "nat option \<Rightarrow> nat \<Rightarrow> string \<Rightarrow> string" where
  "key_text ind e k = json_nl ind e @ escape_into k @ '':'' @ (if ind \<noteq> None then '' '' else [])"

definition entry_text :: "nat option \<Rightarrow> nat \<Rightarrow> string \<times> json \<Rightarrow> string" where
  "entry_text ind e kv = (case kv of (k, v) \<Rightarrow> key_text ind e k @ json_write ind e v)"

lemma entry_text_unfold:
  "entry_text ind e = (\<lambda>(k, v). json_nl ind e @ escape_into k @ '':'' @
     (if ind \<noteq> None then '' '' else []) @ json_write ind e v)"
  by (simp add: fun_eq_iff entry_text_def key_text_def)

lemma p_key_text:
  assumes "utf8_valid k" "ws_stop s"
  shows "p_key (i, key_text ind e k @ s) = Ok (k, (i + length (key_text ind e k), s))"
proof -
  let ?nl = "json_nl ind e" and ?b = "concat (map escape_char k)"
  let ?sp = "if ind \<noteq> None then '' '' else []"
  have w0: "p_ws (i, key_text ind e k @ s) = (i + length ?nl, CHR 0x22 # ?b @ CHR 0x22 # '':'' @ ?sp @ s)"
    unfolding key_text_def escape_into_def append_assoc
    by (subst p_ws_nl) (simp_all add: ws_stop_punct)
  have w1: "p_string (i + length ?nl + 1) (?b @ CHR 0x22 # '':'' @ ?sp @ s) [] =
      Ok (k, (i + length ?nl + 1 + length ?b + 1, '':'' @ ?sp @ s))"
    using p_string_escape [OF assms(1), of "i + length ?nl + 1" "'':'' @ ?sp @ s" "[]"] by simp
  have w2: "p_ws (j, '':'' @ ?sp @ s) = (j, CHR '':'' # ?sp @ s)" for j
    using p_ws_stop [OF ws_stop_punct(5)] by simp
  have w3: "p_ws (j, ?sp @ s) = (j + length ?sp, s)" for j
    using assms(2) by (subst p_ws_skip) (auto simp: json_ws_def byte_def)
  have "length (key_text ind e k) = length ?nl + 1 + length ?b + 1 + 1 + length ?sp"
    by (simp add: key_text_def escape_into_def)
  then show ?thesis
    unfolding p_key_def w0 Let_def fst_conv snd_conv list.sel p_peek.simps
    using w1 w3 by (simp add: w2 p_next_def del: p_string.simps split: if_splits)
qed

lemma ws_stop_entry: "\<exists>t. entry_text ind e kv = json_nl ind e @ CHR 0x22 # t"
  by (cases kv) (simp add: entry_text_def key_text_def escape_into_def)

lemma p_object_ws: "p_object n m (p_ws st) = p_object n m st"
  by (cases n) (simp_all add: p_key_def p_ws_idem)

lemma p_object_reads:
  assumes "\<forall>(k, v) \<in> set xs. utf8_valid k \<and> reads v \<and> plain_json v" "xs \<noteq> []"
  shows "\<exists>N. \<forall>n \<ge> N. p_object n acc
      (i, str_join '','' (map (entry_text ind e) xs) @ json_nl ind d @ CHR ''}'' # rest) =
    Ok (Obj (acc @ xs), (i + length (str_join '','' (map (entry_text ind e) xs)) +
      length (json_nl ind d) + 1, rest))"
  using assms
proof (induction xs arbitrary: acc i)
  case (Cons x vs)
  obtain k v where x: "x = (k, v)" by (cases x)
  let ?w = "json_write ind e v" and ?k = "key_text ind e k"
  have v: "utf8_valid k" "reads v" "plain_json v" using Cons.prems x by auto
  have cl: "CHR ''}'' \<noteq> CHR '',''" "\<not> json_ws (CHR ''}'')" by (simp_all add: json_ws_def byte_def)
  note key = p_key_text [OF v(1) ws_stop_write [OF v(3)]]
  show ?case
  proof (cases vs)
    case Nil
    let ?r = "json_nl ind d @ CHR ''}'' # rest"
    obtain N where N: "\<And>n. N \<le> n \<Longrightarrow> p_value n (i + length ?k, ?w @ ?r) = Ok (v, (i + length ?k + length ?w, ?r))"
      using readsD [OF v(2) num_stop_nl [OF num_stop_punct(3)]] by blast
    have "p_object n acc (i, (?k @ ?w) @ ?r) = Ok (Obj (acc @ [(k, v)]), (i + length (?k @ ?w) + length (json_nl ind d) + 1, rest))"
      if n: "Suc N \<le> n" for n
    proof -
      obtain j where j: "n = Suc j" "N \<le> j" using n by (cases n) auto
      show ?thesis
        using N [OF j(2)] p_sep_close [OF cl] by (simp add: j(1) key add.assoc)
    qed
    then show ?thesis unfolding Nil x by (auto simp: entry_text_def)
  next
    case (Cons v' vs')
    let ?j = "str_join '','' (map (entry_text ind e) vs)"
    let ?r = "CHR '','' # ?j @ json_nl ind d @ CHR ''}'' # rest"
    obtain N where N: "\<And>n. N \<le> n \<Longrightarrow> p_value n (i + length ?k, ?w @ ?r) = Ok (v, (i + length ?k + length ?w, ?r))"
      using readsD [OF v(2) num_stop_punct(1)] by blast
    obtain M where M: "\<And>n. M \<le> n \<Longrightarrow> p_object n (acc @ [(k, v)]) (i + length ?k + length ?w + 1, ?j @ json_nl ind d @ CHR ''}'' # rest) =
        Ok (Obj ((acc @ [(k, v)]) @ vs), (i + length ?k + length ?w + 1 + length ?j + length (json_nl ind d) + 1, rest))"
      using Cons.IH [of "acc @ [(k, v)]" "i + length ?k + length ?w + 1"] Cons.prems Cons by auto
    have jn: "str_join '','' (map (entry_text ind e) (x # vs)) = ?k @ ?w @ '','' @ ?j"
      by (simp add: Cons x entry_text_def [of _ _ "(k, v)"])
    have "p_object n acc (i, (?k @ ?w @ '','' @ ?j) @ json_nl ind d @ CHR ''}'' # rest) =
        Ok (Obj (acc @ x # vs), (i + length (?k @ ?w @ '','' @ ?j) + length (json_nl ind d) + 1, rest))"
      if n: "Suc (max N M) \<le> n" for n
    proof -
      obtain j where j: "n = Suc j" "N \<le> j" "M \<le> j" using n by (cases n) auto
      show ?thesis
        using N [OF j(2)] M [OF j(3)] by (simp add: j(1) x key p_sep_comma add.assoc)
    qed
    then show ?thesis unfolding jn by blast
  qed
qed simp

lemma reads_scalar:
  assumes "\<And>ind d i n rest. num_stop rest \<Longrightarrow>
    p_value (Suc n) (i, json_write ind d j @ rest) = Ok (j, (i + length (json_write ind d j), rest))"
  shows "reads j"
  unfolding reads_def
proof (intro allI impI exI [of _ 1])
  fix ind d i rest n assume "num_stop rest" "1 \<le> (n :: nat)"
  then show "p_value n (i, json_write ind d j @ rest) = Ok (j, (i + length (json_write ind d j), rest))"
    using assms by (cases n) auto
qed

lemma starts_with_word: "starts_with (w @ s) w" by (simp add: starts_with_iff)

lemma reads_atoms: "reads Null" "reads (Bool b)" "reads (JInt v)" "utf8_valid s \<Longrightarrow> reads (Str s)"
proof -
  show "reads Null" by (rule reads_scalar) (simp add: p_lit_def)
  show "reads (Bool b)" by (rule reads_scalar) (simp add: p_lit_def)
  show "reads (JInt v)"
  proof (rule reads_scalar)
    fix ind d i n rest assume "num_stop rest"
    note num = p_number_show_int [OF this, of i v]
    have "\<exists>c t. show_int (sint v) = c # t \<and> c \<notin> {CHR ''{'', CHR ''['', CHR 0x22, CHR ''t'', CHR ''f'', CHR ''n''}"
    proof (cases "sint v < 0")
      case True
      then show ?thesis by (simp add: show_int_def)
    next
      case False
      obtain c t where s: "show_nat (nat (sint v)) = c # t" and c: "is_ascii_digit c" by (rule show_nat_hd)
      have "c \<notin> {CHR ''{'', CHR ''['', CHR 0x22, CHR ''t'', CHR ''f'', CHR ''n''}"
        using c not_digit_start by blast
      then show ?thesis using False s by (simp add: show_int_def)
    qed
    then obtain c t where c: "show_int (sint v) = c # t"
      "c \<notin> {CHR ''{'', CHR ''['', CHR 0x22, CHR ''t'', CHR ''f'', CHR ''n''}"
      by (elim exE conjE)
    show "p_value (Suc n) (i, json_write ind d (JInt v) @ rest) = Ok (JInt v, (i + length (json_write ind d (JInt v)), rest))"
      using num c(2) unfolding json_write.simps c(1) by simp
  qed
  show "reads (Str s)" if u: "utf8_valid s"
  proof (rule reads_scalar)
    fix ind d i n rest
    show "p_value (Suc n) (i, json_write ind d (Str s) @ rest) = Ok (Str s, (i + length (json_write ind d (Str s)), rest))"
      using p_string_escape [OF u, of "i + 1" rest "[]"]
      by (simp add: escape_into_def del: p_string.simps)
  qed
qed

lemma reads_nonempty:
  assumes "\<And>ind d i rest. \<exists>N. \<forall>n \<ge> N. p_value (Suc n) (i, json_write ind d j @ rest) = Ok (j, (i + length (json_write ind d j), rest))"
  shows "reads j"
  unfolding reads_def
proof (intro allI impI)
  fix ind d i rest
  obtain N where N: "\<And>n. N \<le> n \<Longrightarrow> p_value (Suc n) (i, json_write ind d j @ rest) = Ok (j, (i + length (json_write ind d j), rest))"
    using assms by blast
  have "p_value n (i, json_write ind d j @ rest) = Ok (j, (i + length (json_write ind d j), rest))" if "Suc N \<le> n" for n
    using N [of "n - 1"] that by simp
  then show "\<exists>N. \<forall>n \<ge> N. p_value n (i, json_write ind d j @ rest) = Ok (j, (i + length (json_write ind d j), rest))" by blast
qed

lemma array_not_closed:
  assumes "plain_json x"
  shows "p_peek (p_ws (i, str_join '','' (map (\<lambda>v. json_nl ind e @ json_write ind e v) (x # xs)) @ s)) \<noteq> Some (CHR '']'')"
proof -
  let ?f = "\<lambda>v. json_nl ind e @ json_write ind e v"
  obtain t where "str_join '','' (map ?f (x # xs)) = ?f x @ t" by (cases xs) auto
  moreover obtain c u where "json_write ind e x = c # u" "first_ok c" using assms by (rule json_write_first)
  moreover have "ws_stop ((c # u) @ t')" if "first_ok c" for c u t'
    using that by (simp add: ws_stop_def first_ok_def)
  ultimately show ?thesis by (simp add: p_ws_skip json_nl_ws first_ok_def)
qed

lemma reads_array:
  assumes "\<forall>v \<in> set a. reads v \<and> plain_json v" "a \<noteq> []"
  shows "reads (Arr a)"
proof (rule reads_nonempty)
  fix ind d i rest
  let ?j = "str_join '','' (map (\<lambda>v. json_nl ind (d + 1) @ json_write ind (d + 1) v) a)"
  have w: "json_write ind d (Arr a) = ''['' @ ?j @ json_nl ind d @ '']''" using assms(2) by simp
  obtain N where N: "\<And>n. N \<le> n \<Longrightarrow> p_array n [] (i + 1, ?j @ json_nl ind d @ CHR '']'' # rest) =
      Ok (Arr a, (i + 1 + length ?j + length (json_nl ind d) + 1, rest))"
    using p_array_reads [OF assms, of "[]" "i + 1" ind "d + 1" d rest] by auto
  obtain x xs where a: "a = x # xs" using assms(2) by (cases a) auto
  have "p_peek (p_ws (i + 1, ?j @ json_nl ind d @ CHR '']'' # rest)) \<noteq> Some (CHR '']'')"
    unfolding a by (rule array_not_closed) (use assms(1) a in simp)
  then have "p_value (Suc n) (i, json_write ind d (Arr a) @ rest) =
      p_array n [] (i + 1, ?j @ json_nl ind d @ CHR '']'' # rest)" for n
    unfolding w by (simp add: p_next_def p_array_ws)
  then show "\<exists>N. \<forall>n \<ge> N. p_value (Suc n) (i, json_write ind d (Arr a) @ rest) = Ok (Arr a, (i + length (json_write ind d (Arr a)), rest))"
    using N unfolding w by (intro exI [of _ N]) (simp add: add.assoc)
qed

lemma object_not_closed:
  "p_peek (p_ws (i, str_join '','' (map (entry_text ind e) (x # xs)) @ s)) \<noteq> Some (CHR ''}'')"
proof -
  obtain t where "str_join '','' (map (entry_text ind e) (x # xs)) = entry_text ind e x @ t" by (cases xs) auto
  moreover obtain u where "entry_text ind e x = json_nl ind e @ CHR 0x22 # u" using ws_stop_entry by blast
  ultimately show ?thesis by (simp add: p_ws_skip json_nl_ws)
qed

lemma reads_object:
  assumes "\<forall>(k, v) \<in> set m. utf8_valid k \<and> reads v \<and> plain_json v" "m \<noteq> []"
  shows "reads (Obj m)"
proof (rule reads_nonempty)
  fix ind d i rest
  let ?j = "str_join '','' (map (entry_text ind (d + 1)) m)"
  have w: "json_write ind d (Obj m) = ''{'' @ ?j @ json_nl ind d @ ''}''"
    using assms(2) by (simp add: entry_text_unfold)
  obtain N where N: "\<And>n. N \<le> n \<Longrightarrow> p_object n [] (i + 1, ?j @ json_nl ind d @ CHR ''}'' # rest) =
      Ok (Obj m, (i + 1 + length ?j + length (json_nl ind d) + 1, rest))"
    using p_object_reads [OF assms, of "[]" "i + 1" ind "d + 1" d rest] by auto
  obtain x xs where m: "m = x # xs" using assms(2) by (cases m) auto
  have "p_peek (p_ws (i + 1, ?j @ json_nl ind d @ CHR ''}'' # rest)) \<noteq> Some (CHR ''}'')"
    unfolding m by (rule object_not_closed)
  then have "p_value (Suc n) (i, json_write ind d (Obj m) @ rest) =
      p_object n [] (i + 1, ?j @ json_nl ind d @ CHR ''}'' # rest)" for n
    unfolding w by (simp add: p_next_def p_object_ws)
  then show "\<exists>N. \<forall>n \<ge> N. p_value (Suc n) (i, json_write ind d (Obj m) @ rest) = Ok (Obj m, (i + length (json_write ind d (Obj m)), rest))"
    using N unfolding w by (intro exI [of _ N]) (simp add: add.assoc)
qed

lemma reads_empty: "reads (Arr [])" "reads (Obj [])"
  by (rule reads_scalar; simp add: p_next_def ws_stop_punct)+

lemma plain_reads: "plain_json j \<Longrightarrow> reads j"
proof (induction j)
  case (Arr a)
  then show ?case using reads_array [of a] reads_empty(1) by (cases "a = []") (auto simp: list_all_iff)
next
  case (Obj m)
  then have "\<forall>(k, v) \<in> set m. utf8_valid k \<and> reads v \<and> plain_json v" by (force simp: list_all_iff)
  then show ?case using reads_object [of m] reads_empty(2) by (cases "m = []") auto
qed (simp_all add: reads_atoms)

lemma json_parse_write:
  assumes "plain_json j"
  shows "json_parse (json_write ind d j) = Ok j"
proof -
  let ?w = "json_write ind d j"
  have ws: "p_ws (0, ?w) = (0, ?w)" using ws_stop_write [OF assms, of ind d "[]"] by simp
  obtain N where N: "\<And>n. N \<le> n \<Longrightarrow> p_value n (0, ?w) = Ok (j, (length ?w, []))"
    using readsD [OF plain_reads [OF assms] num_stop_punct(4), of 0 ind d] by auto
  let ?n = "2 * length ?w + 2"
  have "p_value (max N ?n) (0, ?w) = p_value ?n (0, ?w)" by (rule p_value_enough) simp_all
  then have "p_value ?n (0, ?w) = Ok (j, (length ?w, []))" using N [of "max N ?n"] by simp
  then show ?thesis by (simp add: json_parse_def ws)
qed

section \<open>What the writers print is UTF-8\<close>

lemma utf8_len_append: "utf8_len a \<noteq> 0 \<Longrightarrow> utf8_len (a @ b) = utf8_len a"
proof (cases a rule: prefix4_cases)
  case (3 x y)
  assume "utf8_len a \<noteq> 0"
  then have "byte x < 0x80 \<or> 0xC2 \<le> byte x \<and> byte x \<le> 0xDF \<and> utf8_cont (byte y)"
    by (simp add: 3 utf8_len_def split: if_splits)
  then show ?thesis by (cases b) (auto simp: 3 utf8_len_def)
next
  case (4 x y z)
  assume a: "utf8_len a \<noteq> 0"
  then have "byte x < 0xF0" by (simp add: 4 utf8_len_def split: if_splits)
  then show ?thesis using a by (cases b) (simp_all add: 4 utf8_len_def split: if_splits)
qed (simp_all add: utf8_len_def split: if_splits)

lemma utf8_valid_append: "utf8_valid a \<Longrightarrow> utf8_valid b \<Longrightarrow> utf8_valid (a @ b)"
proof (induction "length a" arbitrary: a rule: less_induct)
  case less
  show ?case
  proof (cases a)
    case Nil
    then show ?thesis using less by simp
  next
    case (Cons c r)
    have u: "utf8_len (c # r) \<noteq> 0" "utf8_valid (drop (utf8_len (c # r)) (c # r))"
      using less(2) by (simp_all add: Cons utf8_valid_Cons)
    let ?k = "utf8_len (c # r)"
    have l: "?k \<le> length (c # r)" by (rule utf8_len_le)
    have "utf8_valid (drop ?k (c # r) @ b)" using u l by (intro less(1) [OF _ _ less(3)]) (auto simp: Cons)
    moreover have "drop ?k ((c # r) @ b) = drop ?k (c # r) @ b"
      using l by (simp only: drop_append diff_is_0_eq' drop_0)
    ultimately have "utf8_valid (drop ?k ((c # r) @ b))" by (simp only:)
    moreover have "utf8_len ((c # r) @ b) = ?k" by (rule utf8_len_append [OF u(1)])
    ultimately show ?thesis using u(1) unfolding Cons append_Cons by (simp add: utf8_valid_Cons)
  qed
qed

lemma escape_char_ascii: "byte c < 0x80 \<Longrightarrow> utf8_valid (escape_char c)"
proof (rule utf8_valid_ascii, rule ballI)
  fix x assume c: "byte c < 0x80" and x: "x \<in> set (escape_char c)"
  have "\<forall>y \<in> set (pad_zero 4 (show_radix 16 (byte c))). byte y < 0x80"
    using show_radix_ascii by (auto simp: pad_zero_def byte_def)
  then show "byte x < 0x80"
    using c x by (auto simp: escape_char_def byte_def split: if_splits)
qed

lemma escape_valid: "utf8_valid s \<Longrightarrow> utf8_valid (concat (map escape_char s))"
proof (induction "length s" arbitrary: s rule: less_induct)
  case less
  show ?case
  proof (cases s)
    case Nil
    then show ?thesis by simp
  next
    case (Cons c r)
    show ?thesis
    proof (cases "byte c < 0x80")
      case True
      have "utf8_valid r" using less(2) by (simp add: Cons utf8_valid_Cons utf8_len_ascii True)
      then have "utf8_valid (concat (map escape_char r))" using less(1) Cons by simp
      then show ?thesis using escape_char_ascii [OF True] by (simp add: Cons utf8_valid_append)
    next
      case False
      have u: "utf8_len (c # r) \<noteq> 0" "utf8_valid (drop (utf8_len (c # r)) (c # r))"
        using less(2) by (simp_all add: Cons utf8_valid_Cons)
      note m = utf8_len_multi [OF False u(1)]
      define k where "k = lead_len c"
      have k0: "0 < k" by (simp add: k_def lead_len_def)
      have s: "s = take k (c # r) @ drop k (c # r)" by (simp add: Cons)
      have e: "concat (map escape_char (take k (c # r))) = take k (c # r)"
        using m(2) unfolding k_def by (rule escape_multi)
      have "length (drop k (c # r)) < length s" using k0 by (simp add: Cons)
      moreover have "utf8_valid (drop k (c # r))" using u(2) m(1) by (simp add: k_def)
      ultimately have IH: "utf8_valid (concat (map escape_char (drop k (c # r))))" by (rule less(1))
      have "utf8_valid (take k (c # r))"
      proof -
        obtain ch where ch: "take k (c # r) = c # ch" using k0 by (cases k) auto
        have "length (c # ch) = k" using utf8_len_le [of "c # r"] m(1) unfolding ch [symmetric] k_def by simp
        then show ?thesis using m(3) unfolding ch [symmetric] k_def [symmetric]
          by (metis ch drop_all le_refl utf8_valid_Cons utf8_valid_Nil k0 neq0_conv)
      qed
      then have "utf8_valid (take k (c # r) @ concat (map escape_char (drop k (c # r))))"
        using IH by (rule utf8_valid_append)
      then show ?thesis by (subst s) (simp only: map_append concat_append e)
    qed
  qed
qed

lemma escape_into_valid: "utf8_valid s \<Longrightarrow> utf8_valid (escape_into s)"
proof -
  assume "utf8_valid s"
  then have "utf8_valid (concat (map escape_char s))" by (rule escape_valid)
  moreover have q: "utf8_valid [CHR 0x22]" by (rule utf8_valid_ascii) (simp add: byte_def)
  ultimately show ?thesis unfolding escape_into_def by (intro utf8_valid_append)
qed

lemma json_nl_valid: "utf8_valid (json_nl ind d)"
  by (rule utf8_valid_ascii) (auto simp: json_nl_def byte_def split: option.splits)

lemma show_int_valid: "utf8_valid (show_int i)"
proof (rule utf8_valid_ascii)
  have "\<forall>c \<in> set (show_nat n). byte c < 0x80" for n
    using show_nat_digits [of n] by (auto simp: is_ascii_digit_def)
  then show "\<forall>c \<in> set (show_int i). byte c < 0x80" by (auto simp: show_int_def byte_def)
qed

lemma str_join_valid: "\<forall>x \<in> set xs. utf8_valid x \<Longrightarrow> utf8_valid sep \<Longrightarrow> utf8_valid (str_join sep xs)"
  by (induction sep xs rule: str_join.induct) (auto intro!: utf8_valid_append)

lemma punct_valid: "utf8_valid '',''" "utf8_valid '':''" "utf8_valid '' ''" "utf8_valid ''[''" "utf8_valid '']''"
  "utf8_valid ''{''" "utf8_valid ''}''" "utf8_valid ''null''" "utf8_valid ''true''" "utf8_valid ''false''"
  "utf8_valid ''[]''" "utf8_valid ''{}''"
  by (rule utf8_valid_ascii; simp add: byte_def)+

lemma json_write_valid: "plain_json j \<Longrightarrow> utf8_valid (json_write ind d j)"
proof (induction j arbitrary: d)
  case (Arr a)
  then show ?case
    unfolding json_write.simps
    by (auto intro!: utf8_valid_append str_join_valid simp: punct_valid json_nl_valid list_all_iff simp del: append_Cons append_Nil)
next
  case (Obj m)
  then show ?case
    unfolding json_write.simps
    by (fastforce intro!: utf8_valid_append str_join_valid escape_into_valid
        simp: punct_valid json_nl_valid list_all_iff simp del: append_Cons append_Nil)
qed (auto simp: punct_valid show_int_valid escape_into_valid)

text \<open>
  C9: parsing the text of a JSON value gives the value back, for the compact writer and for
  the pretty one that writes the state files, as long as the value has no floating point
  number and its strings and keys are well-formed UTF-8: objects keep the order of their
  entries, and every such string survives the escapes.
\<close>

theorem json_roundtrip:
  assumes "plain_json j"
  shows "json_parse (json_to_string j) = Ok j \<and> json_parse (json_to_string_pretty j) = Ok j"
  unfolding json_to_string_def json_to_string_pretty_def using json_parse_write [OF assms] by simp

theorem json_roundtrip_witness:
  "json_parse (json_to_string_pretty (Obj [(''a'', Arr [JInt (- 1), Null]), (''b'', Str [CHR 0x22, CHR 0x01])])) =
     Ok (Obj [(''a'', Arr [JInt (- 1), Null]), (''b'', Str [CHR 0x22, CHR 0x01])])"
proof -
  let ?j = "Obj [(''a'', Arr [JInt (- 1), Null]), (''b'', Str [CHR 0x22, CHR 0x01])]"
  have "plain_json ?j" by (simp add: utf8_valid_ascii byte_def)
  then show ?thesis using json_roundtrip by blast
qed

end
