(* ===== verification/Netlink.thy ===== *)
theory Netlink
  imports Errors
begin

text \<open>
  \<open>src/sys/netlink.rs\<close>: assembling and parsing rtnetlink messages, the request/reply loop,
  and IPv4 addresses.  A byte is an \<open>8 word\<close>; \<open>to_ne_bytes\<close> is little-endian, as on both
  supported targets.  The kernel's answers to a request are the argument \<open>kern\<close> of the
  operations that talk to it.
\<close>

section \<open>Bytes and words\<close>

definition bytes_of :: "string \<Rightarrow> u8 list" where
  "bytes_of s = map (\<lambda>c. of_nat (byte c)) s"

definition string_of :: "u8 list \<Rightarrow> string" where
  "string_of bs = map (\<lambda>b. char_of (unat b)) bs"

text \<open>
  \<open>String::from_utf8_lossy\<close>: every maximal broken piece becomes U+FFFD.  \<open>bad_len\<close> is the
  length of the broken piece at the start.
\<close>

definition bad_len :: "string \<Rightarrow> nat" where
  "bad_len s = (case map byte (take 3 s) of
      a # b # r \<Rightarrow>
        if a = 0xE0 \<and> 0xA0 \<le> b \<and> b \<le> 0xBF \<or> a = 0xED \<and> 0x80 \<le> b \<and> b \<le> 0x9F
          \<or> (0xE1 \<le> a \<and> a \<le> 0xEC \<or> a = 0xEE \<or> a = 0xEF) \<and> utf8_cont b then 2
        else if a = 0xF0 \<and> 0x90 \<le> b \<and> b \<le> 0xBF \<or> a = 0xF4 \<and> 0x80 \<le> b \<and> b \<le> 0x8F
          \<or> 0xF1 \<le> a \<and> a \<le> 0xF3 \<and> utf8_cont b
        then (case r of c # _ \<Rightarrow> if utf8_cont c then 3 else 2 | [] \<Rightarrow> 2)
        else 1
    | _ \<Rightarrow> 1)"

fun lossy_fuel :: "nat \<Rightarrow> string \<Rightarrow> string" where
  "lossy_fuel 0 s = []"
| "lossy_fuel (Suc n) s =
     (if s = [] then []
      else if utf8_len s \<noteq> 0 then take (utf8_len s) s @ lossy_fuel n (drop (utf8_len s) s)
      else [CHR 0xEF, CHR 0xBF, CHR 0xBD] @ lossy_fuel n (drop (bad_len s) s))"

definition from_utf8_lossy :: "u8 list \<Rightarrow> string" where
  "from_utf8_lossy b = lossy_fuel (length b) (string_of b)"

definition le16 :: "u16 \<Rightarrow> u8 list" where
  "le16 w = [ucast w, ucast (drop_bit 8 w)]"

definition le32 :: "u32 \<Rightarrow> u8 list" where
  "le32 w = [ucast w, ucast (drop_bit 8 w), ucast (drop_bit 16 w), ucast (drop_bit 24 w)]"

definition from_le16 :: "u8 \<Rightarrow> u8 \<Rightarrow> u16" where
  "from_le16 a b = ucast a OR push_bit 8 (ucast b)"

definition from_le32 :: "u8 \<Rightarrow> u8 \<Rightarrow> u8 \<Rightarrow> u8 \<Rightarrow> u32" where
  "from_le32 a b c d =
     ucast a OR push_bit 8 (ucast b) OR push_bit 16 (ucast c) OR push_bit 24 (ucast d)"

definition from_le64 :: "u8 list \<Rightarrow> u64" where
  "from_le64 bs = foldr (\<lambda>b acc. ucast b OR push_bit 8 acc) bs 0"

type_synonym ipv4 = "u8 \<times> u8 \<times> u8 \<times> u8"

definition from_be_bytes :: "ipv4 \<Rightarrow> u32" where
  "from_be_bytes ip = (case ip of (a, b, c, d) \<Rightarrow>
     push_bit 24 (ucast a) OR push_bit 16 (ucast b) OR push_bit 8 (ucast c) OR ucast d)"

definition to_be_bytes :: "u32 \<Rightarrow> ipv4" where
  "to_be_bytes w =
     (ucast (drop_bit 24 w), ucast (drop_bit 16 w), ucast (drop_bit 8 w), ucast w)"

definition ip_bytes :: "ipv4 \<Rightarrow> u8 list" where
  "ip_bytes ip = (case ip of (a, b, c, d) \<Rightarrow> [a, b, c, d])"

section \<open>Constants and headers\<close>

definition NLM_F_REQUEST :: u16 where "NLM_F_REQUEST = 0x001"
definition NLM_F_MULTI :: u16 where "NLM_F_MULTI = 0x002"
definition NLM_F_ACK :: u16 where "NLM_F_ACK = 0x004"
definition NLM_F_DUMP :: u16 where "NLM_F_DUMP = 0x300"
definition NLM_F_EXCL :: u16 where "NLM_F_EXCL = 0x200"
definition NLM_F_CREATE :: u16 where "NLM_F_CREATE = 0x400"
definition NLMSG_NOOP :: u16 where "NLMSG_NOOP = 1"
definition NLMSG_ERROR :: u16 where "NLMSG_ERROR = 2"
definition NLMSG_DONE :: u16 where "NLMSG_DONE = 3"
definition RTM_NEWLINK :: u16 where "RTM_NEWLINK = 16"
definition RTM_DELLINK :: u16 where "RTM_DELLINK = 17"
definition RTM_GETLINK :: u16 where "RTM_GETLINK = 18"
definition RTM_NEWADDR :: u16 where "RTM_NEWADDR = 20"
definition RTM_NEWROUTE :: u16 where "RTM_NEWROUTE = 24"
definition IFLA_IFNAME :: u16 where "IFLA_IFNAME = 3"
definition IFLA_MTU :: u16 where "IFLA_MTU = 4"
definition IFLA_MASTER :: u16 where "IFLA_MASTER = 10"
definition IFLA_LINKINFO :: u16 where "IFLA_LINKINFO = 18"
definition IFLA_NET_NS_PID :: u16 where "IFLA_NET_NS_PID = 19"
definition IFLA_STATS64 :: u16 where "IFLA_STATS64 = 23"
definition IFLA_INFO_KIND :: u16 where "IFLA_INFO_KIND = 1"
definition IFLA_INFO_DATA :: u16 where "IFLA_INFO_DATA = 2"
definition VETH_INFO_PEER :: u16 where "VETH_INFO_PEER = 1"
definition IFA_ADDRESS :: u16 where "IFA_ADDRESS = 1"
definition IFA_LOCAL :: u16 where "IFA_LOCAL = 2"
definition IFA_BROADCAST :: u16 where "IFA_BROADCAST = 4"
definition RTA_DST :: u16 where "RTA_DST = 1"
definition RTA_OIF :: u16 where "RTA_OIF = 4"
definition RTA_GATEWAY :: u16 where "RTA_GATEWAY = 5"
definition IFF_UP :: u32 where "IFF_UP = 0x1"
definition RT_TABLE_MAIN :: u8 where "RT_TABLE_MAIN = 254"
definition RT_SCOPE_UNIVERSE :: u8 where "RT_SCOPE_UNIVERSE = 0"
definition RT_SCOPE_LINK :: u8 where "RT_SCOPE_LINK = 253"
definition RTPROT_BOOT :: u8 where "RTPROT_BOOT = 3"
definition RTN_UNICAST :: u8 where "RTN_UNICAST = 1"
definition AF_INET :: u8 where "AF_INET = 2"
definition AF_UNSPEC :: u8 where "AF_UNSPEC = 0"

record if_info_msg =
  ifi_family :: u8
  ifi_ty :: u16
  ifi_index :: i32
  ifi_flags :: u32
  ifi_change :: u32

definition if_info_default :: if_info_msg where
  "if_info_default = \<lparr>ifi_family = 0, ifi_ty = 0, ifi_index = 0, ifi_flags = 0, ifi_change = 0\<rparr>"

definition if_info_bytes :: "if_info_msg \<Rightarrow> u8 list" where
  "if_info_bytes m = [ifi_family m, 0] @ le16 (ifi_ty m) @ le32 (ifi_index m) @
     le32 (ifi_flags m) @ le32 (ifi_change m)"

record if_addr_msg =
  ifa_family :: u8
  ifa_prefixlen :: u8
  ifa_flags :: u8
  ifa_scope :: u8
  ifa_index :: u32

definition if_addr_bytes :: "if_addr_msg \<Rightarrow> u8 list" where
  "if_addr_bytes m = [ifa_family m, ifa_prefixlen m, ifa_flags m, ifa_scope m] @ le32 (ifa_index m)"

record rt_msg =
  rt_family :: u8
  rt_dst_len :: u8
  rt_src_len :: u8
  rt_tos :: u8
  rt_table :: u8
  rt_protocol :: u8
  rt_scope :: u8
  rt_ty :: u8
  rt_flags :: u32

definition rt_bytes :: "rt_msg \<Rightarrow> u8 list" where
  "rt_bytes m = [rt_family m, rt_dst_len m, rt_src_len m, rt_tos m, rt_table m, rt_protocol m,
     rt_scope m, rt_ty m] @ le32 (rt_flags m)"

section \<open>Building messages\<close>

definition nl_align :: "nat \<Rightarrow> nat" where
  "nl_align n = (n + 3) div 4 * 4"

text \<open>\<open>while buf.len() % 4 != 0 { buf.push(0) }\<close>.\<close>

definition pad4 :: "u8 list \<Rightarrow> u8 list" where
  "pad4 buf = buf @ replicate (nl_align (length buf) - length buf) 0"

definition mb_new :: "u16 \<Rightarrow> u16 \<Rightarrow> u8 list" where
  "mb_new ty flags = replicate 4 0 @ le16 ty @ le16 flags @ replicate 8 0"

definition mb_payload :: "u8 list \<Rightarrow> u8 list \<Rightarrow> u8 list" where
  "mb_payload v buf = pad4 (buf @ v)"

definition mb_attr :: "u16 \<Rightarrow> u8 list \<Rightarrow> u8 list \<Rightarrow> u8 list" where
  "mb_attr ty data buf = pad4 (buf @ le16 (of_nat (4 + length data)) @ le16 ty @ data)"

definition mb_attr_str :: "u16 \<Rightarrow> string \<Rightarrow> u8 list \<Rightarrow> u8 list" where
  "mb_attr_str ty s buf = mb_attr ty (bytes_of s @ [0]) buf"

definition mb_attr_u32 :: "u16 \<Rightarrow> u32 \<Rightarrow> u8 list \<Rightarrow> u8 list" where
  "mb_attr_u32 ty v buf = mb_attr ty (le32 v) buf"

text \<open>\<open>begin_nested\<close> returns the offset that \<open>end_nested\<close> patches with the length.\<close>

definition mb_begin_nested :: "u16 \<Rightarrow> u8 list \<Rightarrow> u8 list \<times> nat" where
  "mb_begin_nested ty buf = (buf @ le16 0 @ le16 ty, length buf)"

definition mb_end_nested :: "nat \<Rightarrow> u8 list \<Rightarrow> u8 list" where
  "mb_end_nested off buf =
     take off buf @ le16 (of_nat (length buf - off)) @ drop (off + 2) buf"

definition mb_finish :: "u32 \<Rightarrow> u8 list \<Rightarrow> u8 list" where
  "mb_finish seq buf =
     le32 (of_nat (length buf)) @ take 4 (drop 4 buf) @ le32 seq @ drop 12 buf"

text \<open>A sequence of builder calls between \<open>begin_nested\<close> and \<open>end_nested\<close>.\<close>

definition mb_nested :: "u16 \<Rightarrow> (u8 list \<Rightarrow> u8 list) \<Rightarrow> u8 list \<Rightarrow> u8 list" where
  "mb_nested ty body buf = (case mb_begin_nested ty buf of (b, off) \<Rightarrow> mb_end_nested off (body b))"

section \<open>Parsing attributes\<close>

function parse_attrs :: "u8 list \<Rightarrow> (u16 \<times> u8 list) list" where
  "parse_attrs buf =
     (case buf of
        a # b # c # d # rest \<Rightarrow>
          (let len = unat (from_le16 a b);
               ty = from_le16 c d;
               step = nl_align len
           in if len < 4 \<or> length buf < len then []
              else (ty, take (len - 4) rest) #
                (if length buf \<le> step then [] else parse_attrs (drop step buf)))
      | _ \<Rightarrow> [])"
  by pat_completeness auto
termination
  by (relation "measure length") (auto simp: nl_align_def)

declare parse_attrs.simps [simp del]

section \<open>The request loop\<close>

text \<open>
  One datagram of a reply: walk its messages.  The result is the replies collected, and
  whether the request is done; an error message of the kernel ends the request.  \<open>buf\<close> is
  the whole receive buffer, \<open>tot\<close> the number of bytes received into it: the payload of an
  error message that is shorter than four bytes is read from what an earlier datagram left
  there.  Past the buffer itself the code would panic; that takes such a message at the very
  end of a full buffer, and is read as \<open>0\<close> here.
\<close>

definition at :: "u8 list \<Rightarrow> nat \<Rightarrow> u8" where
  "at buf i = (if i < length buf then buf ! i else 0)"

function walk_messages ::
  "u32 \<Rightarrow> bool \<Rightarrow> u8 list \<Rightarrow> nat \<Rightarrow> nat \<Rightarrow> u8 list list \<Rightarrow> bool \<Rightarrow> (u8 list list \<times> bool) res" where
  "walk_messages seq expect_dump buf tot off replies fin =
     (if off + 16 \<le> tot then
        (let len = unat (from_le32 (at buf off) (at buf (off + 1)) (at buf (off + 2)) (at buf (off + 3)));
             ty = from_le16 (at buf (off + 4)) (at buf (off + 5));
             flags = from_le16 (at buf (off + 6)) (at buf (off + 7));
             mseq = from_le32 (at buf (off + 8)) (at buf (off + 9)) (at buf (off + 10)) (at buf (off + 11));
             off' = off + nl_align len
         in if len < 16 \<or> tot < off + len then Ok (replies, fin)
            else if mseq \<noteq> seq then walk_messages seq expect_dump buf tot off' replies fin
            else if ty = NLMSG_ERROR then
              (let err = sint (from_le32 (at buf (off + 16)) (at buf (off + 17)) (at buf (off + 18)) (at buf (off + 19)))
               in if err \<noteq> 0 then Err (Syscall ''netlink'' (- err) ''kernel rejected the request'')
                  else walk_messages seq expect_dump buf tot off' replies True)
            else if ty = NLMSG_DONE then walk_messages seq expect_dump buf tot off' replies True
            else if ty = NLMSG_NOOP then walk_messages seq expect_dump buf tot off' replies fin
            else walk_messages seq expect_dump buf tot off'
                   (replies @ [take (len - 16) (drop (off + 16) buf)])
                   (fin \<or> \<not> expect_dump \<and> flags AND NLM_F_MULTI = 0))
      else Ok (replies, fin))"
  by pat_completeness auto
termination
  by (relation "measure (\<lambda>(_, _, _, tot, off, _, _). tot - off)") (auto simp: nl_align_def)

declare walk_messages.simps [simp del]

definition EINTR :: int where "EINTR = 4"
definition EAGAIN :: int where "EAGAIN = 11"

text \<open>
  The \<open>recv\<close> loop, over the outcomes of the successive \<open>recv(2)\<close> calls: an \<open>errno\<close> or a
  datagram.  The socket has a receive timeout, so when no more outcome comes the call fails
  with \<open>EAGAIN\<close>.  All datagrams are received into the same buffer of 32 KiB; what does not
  fit is cut off.
\<close>

definition recv_into :: "u8 list \<Rightarrow> u8 list \<Rightarrow> u8 list" where
  "recv_into bs buf = take (length buf) bs @ drop (length bs) buf"

fun recv_loop :: "u32 \<Rightarrow> bool \<Rightarrow> u8 list \<Rightarrow> (int + u8 list) list \<Rightarrow> u8 list list \<Rightarrow> u8 list list res" where
  "recv_loop seq dump buf [] replies = Err (Syscall ''recv'' EAGAIN ''netlink reply'')"
| "recv_loop seq dump buf (Inl e # os) replies =
     (if e = EINTR then recv_loop seq dump buf os replies
      else Err (Syscall ''recv'' e ''netlink reply''))"
| "recv_loop seq dump buf (Inr bs # os) replies =
     (let buf' = recv_into bs buf in
      r_bind (walk_messages seq dump buf' (min (length bs) (length buf)) 0 replies False) (\<lambda>(rs, fin).
        if fin then Ok rs else recv_loop seq dump buf' os rs))"

text \<open>The kernel's answer to a message: an error of \<open>send(2)\<close>, or the outcomes of \<open>recv(2)\<close>.\<close>

type_synonym nl_kernel = "u8 list \<Rightarrow> int + (int + u8 list) list"

definition send_recv :: "nl_kernel \<Rightarrow> u32 \<Rightarrow> u8 list \<Rightarrow> bool \<Rightarrow> u8 list list res \<times> u32" where
  "send_recv kern seq msg expect_dump =
     (let seq' = seq + 1;
          bytes = mb_finish seq' msg
      in (case kern bytes of
            Inl e \<Rightarrow> Err (Syscall ''send'' e ''netlink request'')
          | Inr os \<Rightarrow> recv_loop seq' expect_dump (replicate (32 * 1024) 0) os [], seq'))"

definition nl_request :: "nl_kernel \<Rightarrow> u32 \<Rightarrow> u8 list \<Rightarrow> unit res \<times> u32" where
  "nl_request kern seq msg =
     (case send_recv kern seq msg False of (r, seq') \<Rightarrow> (r_map (\<lambda>_. ()) r, seq'))"

section \<open>Link, address and route requests\<close>

definition create_veth_msg :: "string \<Rightarrow> string \<Rightarrow> u8 list" where
  "create_veth_msg name peer =
     mb_nested IFLA_LINKINFO (\<lambda>b.
       mb_nested IFLA_INFO_DATA (\<lambda>b.
         mb_nested VETH_INFO_PEER (\<lambda>b.
           mb_attr_str IFLA_IFNAME peer (mb_payload (if_info_bytes if_info_default) b)) b)
         (mb_attr_str IFLA_INFO_KIND ''veth'' b))
       (mb_attr_str IFLA_IFNAME name
         (mb_payload (if_info_bytes if_info_default)
           (mb_new RTM_NEWLINK (NLM_F_REQUEST OR NLM_F_CREATE OR NLM_F_EXCL OR NLM_F_ACK))))"

definition create_bridge_msg :: "string \<Rightarrow> u8 list" where
  "create_bridge_msg name =
     mb_nested IFLA_LINKINFO (\<lambda>b. mb_attr_str IFLA_INFO_KIND ''bridge'' b)
       (mb_attr_str IFLA_IFNAME name
         (mb_payload (if_info_bytes if_info_default)
           (mb_new RTM_NEWLINK (NLM_F_REQUEST OR NLM_F_CREATE OR NLM_F_EXCL OR NLM_F_ACK))))"

definition delete_link_msg :: "u32 \<Rightarrow> u8 list" where
  "delete_link_msg index =
     mb_payload (if_info_bytes (if_info_default\<lparr>ifi_index := index\<rparr>))
       (mb_new RTM_DELLINK (NLM_F_REQUEST OR NLM_F_ACK))"

definition set_up_msg :: "u32 \<Rightarrow> u8 list" where
  "set_up_msg index =
     mb_payload (if_info_bytes (if_info_default\<lparr>ifi_index := index, ifi_flags := IFF_UP, ifi_change := IFF_UP\<rparr>))
       (mb_new RTM_NEWLINK (NLM_F_REQUEST OR NLM_F_ACK))"

definition set_down_msg :: "u32 \<Rightarrow> u8 list" where
  "set_down_msg index =
     mb_payload (if_info_bytes (if_info_default\<lparr>ifi_index := index, ifi_flags := 0, ifi_change := IFF_UP\<rparr>))
       (mb_new RTM_NEWLINK (NLM_F_REQUEST OR NLM_F_ACK))"

definition set_mtu_msg :: "u32 \<Rightarrow> u32 \<Rightarrow> u8 list" where
  "set_mtu_msg index mtu =
     mb_attr_u32 IFLA_MTU mtu
       (mb_payload (if_info_bytes (if_info_default\<lparr>ifi_index := index\<rparr>))
         (mb_new RTM_NEWLINK (NLM_F_REQUEST OR NLM_F_ACK)))"

definition set_master_msg :: "u32 \<Rightarrow> u32 \<Rightarrow> u8 list" where
  "set_master_msg index master =
     mb_attr_u32 IFLA_MASTER master
       (mb_payload (if_info_bytes (if_info_default\<lparr>ifi_index := index\<rparr>))
         (mb_new RTM_NEWLINK (NLM_F_REQUEST OR NLM_F_ACK)))"

definition move_to_netns_pid_msg :: "u32 \<Rightarrow> i32 \<Rightarrow> string \<Rightarrow> u8 list" where
  "move_to_netns_pid_msg index pid new_name =
     mb_attr_str IFLA_IFNAME new_name
       (mb_attr_u32 IFLA_NET_NS_PID pid
         (mb_payload (if_info_bytes (if_info_default\<lparr>ifi_index := index\<rparr>))
           (mb_new RTM_NEWLINK (NLM_F_REQUEST OR NLM_F_ACK))))"

text \<open>\<open>u32::MAX << (32 - prefix)\<close>, with prefix \<open>0\<close> written out.\<close>

definition prefix_mask :: "u8 \<Rightarrow> u32" where
  "prefix_mask prefix = (if prefix = 0 then 0 else push_bit (32 - unat prefix) (- 1))"

definition add_address_msg :: "u32 \<Rightarrow> ipv4 \<Rightarrow> u8 \<Rightarrow> u8 list" where
  "add_address_msg index addr prefix =
     (let msk = prefix_mask prefix;
          base = from_be_bytes addr AND msk;
          bcast = to_be_bytes (base OR NOT msk)
      in mb_attr IFA_BROADCAST (ip_bytes bcast)
          (mb_attr IFA_ADDRESS (ip_bytes addr)
            (mb_attr IFA_LOCAL (ip_bytes addr)
              (mb_payload (if_addr_bytes \<lparr>ifa_family = AF_INET, ifa_prefixlen = prefix,
                  ifa_flags = 0, ifa_scope = RT_SCOPE_UNIVERSE, ifa_index = index\<rparr>)
                (mb_new RTM_NEWADDR (NLM_F_REQUEST OR NLM_F_CREATE OR NLM_F_EXCL OR NLM_F_ACK))))))"

definition add_default_route_msg :: "ipv4 \<Rightarrow> u32 \<Rightarrow> u8 list" where
  "add_default_route_msg gw oif =
     mb_attr_u32 RTA_OIF oif
       (mb_attr RTA_GATEWAY (ip_bytes gw)
         (mb_payload (rt_bytes \<lparr>rt_family = AF_INET, rt_dst_len = 0, rt_src_len = 0, rt_tos = 0,
              rt_table = RT_TABLE_MAIN, rt_protocol = RTPROT_BOOT, rt_scope = RT_SCOPE_UNIVERSE,
              rt_ty = RTN_UNICAST, rt_flags = 0\<rparr>)
           (mb_new RTM_NEWROUTE (NLM_F_REQUEST OR NLM_F_CREATE OR NLM_F_EXCL OR NLM_F_ACK))))"

definition add_link_route_msg :: "ipv4 \<Rightarrow> u8 \<Rightarrow> u32 \<Rightarrow> u8 list" where
  "add_link_route_msg dst prefix oif =
     mb_attr_u32 RTA_OIF oif
       (mb_attr RTA_DST (ip_bytes dst)
         (mb_payload (rt_bytes \<lparr>rt_family = AF_INET, rt_dst_len = prefix, rt_src_len = 0, rt_tos = 0,
              rt_table = RT_TABLE_MAIN, rt_protocol = RTPROT_BOOT, rt_scope = RT_SCOPE_LINK,
              rt_ty = RTN_UNICAST, rt_flags = 0\<rparr>)
           (mb_new RTM_NEWROUTE (NLM_F_REQUEST OR NLM_F_CREATE OR NLM_F_EXCL OR NLM_F_ACK))))"

definition get_links_msg :: "u8 list" where
  "get_links_msg =
     mb_payload (if_info_bytes (if_info_default\<lparr>ifi_family := AF_UNSPEC\<rparr>))
       (mb_new RTM_GETLINK (NLM_F_REQUEST OR NLM_F_DUMP))"

section \<open>Statistics and link names\<close>

record link_stats =
  ls_name :: string
  rx_packets :: u64
  tx_packets :: u64
  rx_bytes :: u64
  tx_bytes :: u64
  rx_errors :: u64
  tx_errors :: u64
  rx_dropped :: u64
  tx_dropped :: u64

definition stat_at :: "u8 list \<Rightarrow> nat \<Rightarrow> u64" where
  "stat_at d i = (if i * 8 + 8 > length d then 0 else from_le64 (take 8 (drop (i * 8) d)))"

definition link_stats_from_bytes :: "string \<Rightarrow> u8 list \<Rightarrow> link_stats" where
  "link_stats_from_bytes name d = \<lparr>ls_name = name,
     rx_packets = stat_at d 0, tx_packets = stat_at d 1, rx_bytes = stat_at d 2,
     tx_bytes = stat_at d 3, rx_errors = stat_at d 4, tx_errors = stat_at d 5,
     rx_dropped = stat_at d 6, tx_dropped = stat_at d 7\<rparr>"

text \<open>The name attribute carries a trailing NUL.\<close>

definition attr_name :: "u8 list \<Rightarrow> string" where
  "attr_name data = from_utf8_lossy (take (length data - 1) data)"

fun link_stats_of :: "string \<Rightarrow> u8 list list \<Rightarrow> link_stats res" where
  "link_stats_of name [] = Err (NotFound (''interface '' @ debug_str name))"
| "link_stats_of name (r # rs) =
     (if length r < 16 then link_stats_of name rs
      else
        (let attrs = parse_attrs (drop 16 r);
             this_name = (case List.find (\<lambda>(ty, _). ty = IFLA_IFNAME) attrs of
                 Some (_, data) \<Rightarrow> attr_name data | None \<Rightarrow> [])
         in if this_name \<noteq> name then link_stats_of name rs
            else (case List.find (\<lambda>(ty, _). ty = IFLA_STATS64) attrs of
                Some (_, data) \<Rightarrow> Ok (link_stats_from_bytes this_name data)
              | None \<Rightarrow> Ok (link_stats_from_bytes this_name []))))"

definition nl_link_stats :: "nl_kernel \<Rightarrow> u32 \<Rightarrow> string \<Rightarrow> link_stats res \<times> u32" where
  "nl_link_stats kern seq name =
     (case send_recv kern seq get_links_msg True of
        (r, seq') \<Rightarrow> (r_bind r (link_stats_of name), seq'))"

definition link_names :: "u8 list list \<Rightarrow> string list" where
  "link_names replies =
     concat (map (\<lambda>r. if length r < 16 then []
        else map (\<lambda>(_, data). attr_name data)
               (filter (\<lambda>(ty, _). ty = IFLA_IFNAME) (parse_attrs (drop 16 r)))) replies)"

definition list_links :: "nl_kernel \<Rightarrow> u32 \<Rightarrow> string list res \<times> u32" where
  "list_links kern seq =
     (case send_recv kern seq get_links_msg True of (r, seq') \<Rightarrow> (r_map link_names r, seq'))"

section \<open>IPv4 addresses\<close>

definition ipv4_octet :: "string \<Rightarrow> string \<Rightarrow> u8 res" where
  "ipv4_octet s p = ok_or (Config (''invalid IPv4 octet '' @ debug_str p @ '' in '' @ debug_str s)) (parse_u8 p)"

definition parse_ipv4 :: "string \<Rightarrow> ipv4 res" where
  "parse_ipv4 s =
     (case str_split (str_trim s) (CHR ''.'') of
        [a, b, c, d] \<Rightarrow>
          r_bind (ipv4_octet s a) (\<lambda>x. r_bind (ipv4_octet s b) (\<lambda>y.
          r_bind (ipv4_octet s c) (\<lambda>z. r_bind (ipv4_octet s d) (\<lambda>w. Ok (x, y, z, w)))))
      | _ \<Rightarrow> Err (Config (''invalid IPv4 address '' @ debug_str s)))"

definition format_ipv4 :: "ipv4 \<Rightarrow> string" where
  "format_ipv4 ip = (case ip of (a, b, c, d) \<Rightarrow>
     show_nat (unat a) @ ''.'' @ show_nat (unat b) @ ''.'' @ show_nat (unat c) @ ''.'' @ show_nat (unat d))"

definition parse_cidr :: "string \<Rightarrow> (ipv4 \<times> u8) res" where
  "parse_cidr s =
     (case split_once s (CHR ''/'') of
        None \<Rightarrow> Err (Config (''expected CIDR a.b.c.d/len, got '' @ debug_str s))
      | Some (ip, pfx) \<Rightarrow>
          r_bind (ok_or (Config (''invalid prefix length in '' @ debug_str s)) (parse_u8 pfx)) (\<lambda>prefix.
            if prefix > 32
            then Err (Config (''prefix length '' @ show_nat (unat prefix) @ '' > 32''))
            else r_bind (parse_ipv4 ip) (\<lambda>a. Ok (a, prefix))))"

section \<open>Word and byte laws\<close>

lemma from_le16_le16 [simp]: "from_le16 (ucast w) (ucast (drop_bit 8 w)) = w"
  unfolding from_le16_def by (rule bit_word_eqI) (auto simp: bit_simps)

lemma from_le32_le32 [simp]:
  "from_le32 (ucast w) (ucast (drop_bit 8 w)) (ucast (drop_bit 16 w)) (ucast (drop_bit 24 w)) = w"
proof (rule bit_word_eqI)
  fix n assume "n < LENGTH(32)"
  then show "bit (from_le32 (ucast w) (ucast (drop_bit 8 w)) (ucast (drop_bit 16 w)) (ucast (drop_bit 24 w))) n
      = bit w n"
    unfolding from_le32_def
    by (cases "n < 8"; cases "n < 16"; cases "n < 24") (auto simp: bit_simps)
qed

lemma from_to_be_bytes [simp]: "from_be_bytes (to_be_bytes w) = w"
proof (rule bit_word_eqI)
  fix n assume "n < LENGTH(32)"
  then show "bit (from_be_bytes (to_be_bytes w)) n = bit w n"
    unfolding from_be_bytes_def to_be_bytes_def
    by (cases "n < 8"; cases "n < 16"; cases "n < 24") (auto simp: bit_simps)
qed

lemma to_from_be_bytes [simp]: "to_be_bytes (from_be_bytes ip) = ip"
proof (cases ip)
  case (fields a b c d)
  have "ucast (drop_bit 24 (from_be_bytes ip)) = a" "ucast (drop_bit 16 (from_be_bytes ip)) = b"
    "ucast (drop_bit 8 (from_be_bytes ip)) = c" "ucast (from_be_bytes ip) = d"
    unfolding from_be_bytes_def fields by (rule bit_word_eqI; auto simp: bit_simps dest: bit_imp_le_length)+
  then show ?thesis by (simp add: to_be_bytes_def fields)
qed

lemma from_be_bytes_inject: "from_be_bytes a = from_be_bytes b \<longleftrightarrow> a = b"
  by (metis to_from_be_bytes)

lemma length_le [simp]: "length (le16 w) = 2" "length (le32 v) = 4"
  by (simp_all add: le16_def le32_def)

lemma length_bytes_of [simp]: "length (bytes_of s) = length s"
  by (simp add: bytes_of_def)

lemma string_of_bytes_of [simp]: "string_of (bytes_of s) = s"
proof -
  have "char_of (unat (of_nat (byte c) :: u8)) = c" for c
    using byte_less_256 [of c] by (simp add: unat_of_nat)
  then show ?thesis by (simp add: string_of_def bytes_of_def comp_def)
qed

lemma nl_align_props: "n \<le> nl_align n" "nl_align n < n + 4" "4 dvd nl_align n"
  by (auto simp: nl_align_def)

lemma nl_align_dvd: "4 dvd n \<Longrightarrow> nl_align n = n"
  by (auto simp: nl_align_def)

lemma word_widths: "LENGTH(16) = 16" "LENGTH(32) = 32" "LENGTH(64) = 64"
  by simp_all

text \<open>\<open>(n + 3) & !3\<close> on \<open>usize\<close>, while the addition does not overflow.\<close>

lemma nl_align_word:
  fixes x :: u64
  assumes "unat x + 3 < 2 ^ 64"
  shows "unat ((x + 3) AND NOT 3) = nl_align (unat x)"
proof -
  have e: "NOT (3 :: u64) = NOT (mask 2)" by (simp add: mask_eq_exp_minus_1)
  have "unat (x + 3) = unat x + 3"
    using assms by (simp add: unat_word_ariths)
  moreover have "(x + 3) AND NOT (mask 2) = push_bit 2 (drop_bit 2 (x + 3))"
    by (rule bit_word_eqI) (simp add: bit_simps, metis add_2_eq_Suc le_add_diff_inverse linorder_not_less)
  moreover have "unat (push_bit 2 (drop_bit 2 (x + 3))) = unat (x + 3) div 4 * 4"
  proof -
    have "unat (x + 3) div 4 * 4 \<le> unat (x + 3)" by simp
    then have "unat (x + 3) div 4 * 4 < 2 ^ 64"
      using unsigned_less [of "x + 3", where ?'a = nat] by (simp only: word_widths)
    moreover have "unat (push_bit 2 (drop_bit 2 (x + 3))) = (unat (x + 3) div 4 * 4) mod 2 ^ 64"
      by (subst unsigned_push_bit_eq, subst unsigned_drop_bit_eq)
        (use unsigned_less [of "x + 3", where ?'a = nat] in
          \<open>simp add: push_bit_eq_mult drop_bit_eq_div take_bit_eq_mod mult.commute\<close>)
    ultimately show ?thesis by (simp only: mod_less)
  qed
  ultimately show ?thesis unfolding e nl_align_def by (simp only:)
qed

section \<open>Attributes round trip\<close>

text \<open>One encoded attribute, padded.\<close>

definition tlv :: "u16 \<Rightarrow> u8 list \<Rightarrow> u8 list" where
  "tlv ty data = pad4 (le16 (of_nat (4 + length data)) @ le16 ty @ data)"

lemma pad4_append: "4 dvd length buf \<Longrightarrow> pad4 (buf @ v) = buf @ pad4 v"
proof -
  assume "4 dvd length buf"
  then obtain q where "length buf = 4 * q" by (auto simp: dvd_def)
  then have "nl_align (length buf + length v) = length buf + nl_align (length v)"
    unfolding nl_align_def by presburger
  then show ?thesis by (simp add: pad4_def)
qed

lemma length_pad4 [simp]: "length (pad4 v) = nl_align (length v)"
  using nl_align_props [of "length v"] by (simp add: pad4_def)

lemma pad4_dvd: "4 dvd length v \<Longrightarrow> pad4 v = v"
  by (simp add: pad4_def nl_align_dvd)

lemma length_tlv: "length (tlv ty data) = nl_align (4 + length data)"
  unfolding tlv_def by (simp only: length_pad4 length_append length_le add.assoc [symmetric]) simp

lemma mb_attr_tlv: "4 dvd length buf \<Longrightarrow> mb_attr ty data buf = buf @ tlv ty data"
  by (simp add: mb_attr_def tlv_def pad4_append)

lemma dvd_length_tlv [simp]: "4 dvd length (tlv ty data)"
  by (simp add: length_tlv nl_align_props)

lemma parse_attrs_Nil [simp]: "parse_attrs [] = []"
  by (simp add: parse_attrs.simps)

lemma parse_attrs_tlv:
  assumes "4 + length data < 2 ^ 16"
  shows "parse_attrs (tlv ty data @ rest) = (ty, data) # parse_attrs rest"
proof -
  let ?n = "4 + length data"
  define w :: u16 where "w = of_nat ?n"
  have unw: "unat w = ?n" using assms unfolding w_def by (simp only: unat_of_nat word_widths mod_less)
  define pad :: "u8 list" where "pad = replicate (nl_align ?n - ?n) 0"
  have tlv: "tlv ty data = ucast w # ucast (drop_bit 8 w) # ucast ty # ucast (drop_bit 8 ty) # data @ pad"
    by (simp add: tlv_def pad4_def le16_def w_def pad_def eval_nat_numeral)
  have lp: "length pad = nl_align ?n - ?n" by (simp only: pad_def length_replicate)
  obtain k where k: "nl_align ?n = ?n + k" using nl_align_props(1) [of ?n] le_Suc_ex by blast
  have len: "length (tlv ty data @ rest) = nl_align ?n + length rest"
    by (simp add: length_tlv)
  have drop: "drop (nl_align ?n) (tlv ty data @ rest) = rest"
    by (metis append_eq_conv_conj length_tlv)
  have "parse_attrs (tlv ty data @ rest) =
      (ty, data) # (if nl_align ?n + length rest \<le> nl_align ?n then []
        else parse_attrs (drop (nl_align ?n) (tlv ty data @ rest)))"
    using k lp
    by (subst parse_attrs.simps) (simp add: tlv unw len [unfolded tlv, simplified] Let_def)
  then show ?thesis unfolding drop by (cases "rest = []") simp_all
qed

definition small_attrs :: "(u16 \<times> u8 list) list \<Rightarrow> bool" where
  "small_attrs as \<longleftrightarrow> (\<forall>(ty, data) \<in> set as. 4 + length data < 2 ^ 16)"

lemma parse_attrs_tlvs:
  "small_attrs as \<Longrightarrow> parse_attrs (concat (map (\<lambda>(t, d). tlv t d) as)) = as"
  by (induction as) (auto simp: small_attrs_def parse_attrs_tlv)

lemma foldl_mb_attr:
  "4 dvd length buf \<Longrightarrow>
     foldl (\<lambda>b (t, d). mb_attr t d b) buf as = buf @ concat (map (\<lambda>(t, d). tlv t d) as)"
  by (induction as arbitrary: buf) (auto simp: mb_attr_tlv)

text \<open>
  The attributes appended to a message by the builder are exactly the attributes the
  parser reads back, in order, whatever their data, as long as each fits the 16-bit length.
\<close>

theorem attrs_roundtrip:
  assumes "4 dvd length buf" and "\<forall>(ty, data) \<in> set as. 4 + length data < 2 ^ 16"
  shows "parse_attrs (drop (length buf) (foldl (\<lambda>b (t, d). mb_attr t d b) buf as)) = as"
  using assms by (simp add: foldl_mb_attr parse_attrs_tlvs small_attrs_def)

theorem attrs_roundtrip_witness:
  "parse_attrs (drop 16 (foldl (\<lambda>b (t, d). mb_attr t d b) (mb_new 16 5) [(3, [1, 2, 3]), (4, [])])) =
     [(3, [1, 2, 3]), (4, [])]"
  using attrs_roundtrip [of "mb_new 16 5" "[(3, [1, 2, 3]), (4, [])]"]
  by (simp add: mb_new_def)

text \<open>A nested attribute is an attribute whose data are the bytes the body appended.\<close>

lemma mb_nested_tlv:
  assumes "4 dvd length buf" "4 dvd length inner"
    and "body (buf @ le16 0 @ le16 ty) = buf @ le16 0 @ le16 ty @ inner"
  shows "mb_nested ty body buf = buf @ tlv ty inner"
proof -
  have "4 dvd length (le16 (of_nat (4 + length inner)) @ le16 ty @ inner)"
    using assms(2) by (simp only: length_append length_le) presburger
  then have "tlv ty inner = le16 (of_nat (4 + length inner)) @ le16 ty @ inner"
    unfolding tlv_def by (rule pad4_dvd)
  then show ?thesis
    using assms(3) by (simp add: mb_nested_def mb_begin_nested_def mb_end_nested_def)
qed

lemma length_headers [simp]: "length (if_info_bytes m) = 16" "length (mb_new t f) = 16"
  "length (if_addr_bytes a) = 8" "length (rt_bytes r) = 12"
  by (simp_all add: if_info_bytes_def mb_new_def if_addr_bytes_def rt_bytes_def)

lemma mb_payload_dvd: "4 dvd length buf \<Longrightarrow> 4 dvd length v \<Longrightarrow> mb_payload v buf = buf @ v"
  by (simp add: mb_payload_def pad4_append pad4_dvd)

text \<open>
  The request that creates a veth pair has the structure the kernel expects: a link
  header, the interface name, and a link-info attribute that nests the kind \<open>veth\<close> and,
  two levels down, the peer's own link header and name.
\<close>

theorem create_veth_structure:
  assumes "length name < 60000" "length peer < 60000"
  shows "\<exists>info data peerdata.
     parse_attrs (drop 32 (create_veth_msg name peer)) =
       [(IFLA_IFNAME, bytes_of name @ [0]), (IFLA_LINKINFO, info)]
   \<and> parse_attrs info = [(IFLA_INFO_KIND, bytes_of ''veth'' @ [0]), (IFLA_INFO_DATA, data)]
   \<and> parse_attrs data = [(VETH_INFO_PEER, peerdata)]
   \<and> take 16 peerdata = if_info_bytes if_info_default
   \<and> parse_attrs (drop 16 peerdata) = [(IFLA_IFNAME, bytes_of peer @ [0])]"
proof -
  let ?hdr = "mb_new RTM_NEWLINK (NLM_F_REQUEST OR NLM_F_CREATE OR NLM_F_EXCL OR NLM_F_ACK)"
  let ?i0 = "if_info_bytes if_info_default"
  define peerdata where "peerdata = ?i0 @ tlv IFLA_IFNAME (bytes_of peer @ [0])"
  define data where "data = tlv VETH_INFO_PEER peerdata"
  define info where "info = tlv IFLA_INFO_KIND (bytes_of ''veth'' @ [0]) @ tlv IFLA_INFO_DATA data"
  have dvd: "4 dvd length peerdata" "4 dvd length data" "4 dvd length info"
    by (simp_all add: peerdata_def data_def info_def)
  have pe: "mb_nested VETH_INFO_PEER (\<lambda>b. mb_attr_str IFLA_IFNAME peer (mb_payload ?i0 b)) b =
      b @ data" if "4 dvd length b" for b
    unfolding data_def using that dvd(1)
    by (intro mb_nested_tlv) (simp_all add: mb_attr_str_def mb_payload_dvd mb_attr_tlv peerdata_def)
  have id: "mb_nested IFLA_INFO_DATA
      (\<lambda>b. mb_nested VETH_INFO_PEER (\<lambda>b. mb_attr_str IFLA_IFNAME peer (mb_payload ?i0 b)) b) b =
      b @ tlv IFLA_INFO_DATA data" if "4 dvd length b" for b
    using that dvd(2) by (intro mb_nested_tlv) (simp_all add: pe)
  have msg: "create_veth_msg name peer =
      (?hdr @ ?i0) @ tlv IFLA_IFNAME (bytes_of name @ [0]) @ tlv IFLA_LINKINFO info"
    unfolding create_veth_msg_def using dvd(3)
    by (subst mb_nested_tlv [where inner = info and ty = IFLA_LINKINFO])
      (simp_all add: mb_attr_str_def mb_payload_dvd mb_attr_tlv id [unfolded mb_attr_str_def] info_def)
  have drop: "drop 32 (create_veth_msg name peer) =
      tlv IFLA_IFNAME (bytes_of name @ [0]) @ tlv IFLA_LINKINFO info @ []"
    by (simp add: msg)
  have lens: "4 + length peerdata < 2 ^ 16" "4 + length data < 2 ^ 16" "4 + length info < 2 ^ 16"
    using assms nl_align_props(2) [of "5 + length peer"]
      nl_align_props(2) [of "4 + length peerdata"] nl_align_props(2) [of "4 + length data"]
    by (simp_all add: peerdata_def data_def info_def length_tlv nl_align_dvd dvd)
      (simp add: nl_align_def)
  show ?thesis
  proof (intro exI conjI)
    show "parse_attrs (drop 32 (create_veth_msg name peer)) =
        [(IFLA_IFNAME, bytes_of name @ [0]), (IFLA_LINKINFO, info)]"
      unfolding drop using assms(1) lens(3) parse_attrs_tlv [of info IFLA_LINKINFO "[]"]
      by (simp add: parse_attrs_tlv)
    show "parse_attrs info = [(IFLA_INFO_KIND, bytes_of ''veth'' @ [0]), (IFLA_INFO_DATA, data)]"
      unfolding info_def using lens(2) parse_attrs_tlv [of data IFLA_INFO_DATA "[]"]
      by (simp add: parse_attrs_tlv)
    show "parse_attrs data = [(VETH_INFO_PEER, peerdata)]"
      unfolding data_def using lens(1) parse_attrs_tlv [of peerdata VETH_INFO_PEER "[]"] by simp
    show "take 16 peerdata = ?i0" by (simp add: peerdata_def)
    show "parse_attrs (drop 16 peerdata) = [(IFLA_IFNAME, bytes_of peer @ [0])]"
      using assms(2) parse_attrs_tlv [of "bytes_of peer @ [0]" IFLA_IFNAME "[]"] by (simp add: peerdata_def)
  qed
qed

theorem create_veth_structure_witness:
  "\<exists>info. parse_attrs (drop 32 (create_veth_msg ''mrv0'' ''mrp0'')) =
     [(IFLA_IFNAME, bytes_of ''mrv0'' @ [0]), (IFLA_LINKINFO, info)]"
  using create_veth_structure [of "''mrv0''" "''mrp0''"] by auto

section \<open>The reply loop against a structured reading\<close>

text \<open>A message as its sequence number, type, flags and payload, and its bytes on the wire.\<close>

type_synonym nl_msg = "u32 \<times> u16 \<times> u16 \<times> u8 list"

definition msg_bytes :: "nl_msg \<Rightarrow> u8 list" where
  "msg_bytes m = (case m of (sq, ty, fl, data) \<Rightarrow>
     pad4 (le32 (of_nat (16 + length data)) @ le16 ty @ le16 fl @ le32 sq @ le32 0 @ data))"

definition msg_ok :: "nl_msg \<Rightarrow> bool" where
  "msg_ok m = (case m of (sq, ty, fl, data) \<Rightarrow>
     16 + length data < 2 ^ 32 \<and> (ty = NLMSG_ERROR \<longrightarrow> 4 \<le> length data))"

definition msg_err :: "u8 list \<Rightarrow> int" where
  "msg_err data = sint (from_le32 (at data 0) (at data 1) (at data 2) (at data 3))"

text \<open>What a request means by its replies, message by message.\<close>

fun walk_spec :: "u32 \<Rightarrow> bool \<Rightarrow> nl_msg list \<Rightarrow> u8 list list \<Rightarrow> bool \<Rightarrow> (u8 list list \<times> bool) res" where
  "walk_spec sq dump [] rs fin = Ok (rs, fin)"
| "walk_spec sq dump ((msq, ty, fl, data) # ms) rs fin =
     (if msq \<noteq> sq then walk_spec sq dump ms rs fin
      else if ty = NLMSG_ERROR then
        (if msg_err data \<noteq> 0 then Err (Syscall ''netlink'' (- msg_err data) ''kernel rejected the request'')
         else walk_spec sq dump ms rs True)
      else if ty = NLMSG_DONE then walk_spec sq dump ms rs True
      else if ty = NLMSG_NOOP then walk_spec sq dump ms rs fin
      else walk_spec sq dump ms (rs @ [data]) (fin \<or> \<not> dump \<and> fl AND NLM_F_MULTI = 0))"

lemma at_append [simp]: "at (pre @ xs) (length pre + k) = at xs k"
  by (simp add: at_def nth_append)

lemma at_append_0 [simp]: "at (pre @ xs) (length pre) = at xs 0"
  using at_append [of pre xs 0] by simp

lemma at_append_Suc [simp]: "at (pre @ xs) (Suc (length pre)) = at xs 1"
  "at (pre @ xs) (Suc (Suc (length pre))) = at xs 2"
  using at_append [of pre xs 1] at_append [of pre xs 2] by simp_all

lemma at_Cons [simp]: "at (x # xs) 0 = x" "at (x # xs) (Suc n) = at xs n"
  "at (x # xs) (numeral k) = at xs (pred_numeral k)"
  by (simp_all add: at_def numeral_eq_Suc)

lemma at_prefix: "k < length xs \<Longrightarrow> at (xs @ ys) k = at xs k"
  by (simp add: at_def nth_append)

lemma walk_messages_step:
  assumes "msg_ok m" "m = (msq, ty, fl, data)" "buf = pre @ msg_bytes m @ post" "length (pre @ msg_bytes m) \<le> tot"
  shows "walk_messages sq dump buf tot (length pre) rs fin =
    (let off' = length (pre @ msg_bytes m)
     in if msq \<noteq> sq then walk_messages sq dump buf tot off' rs fin
        else if ty = NLMSG_ERROR then
          (if msg_err data \<noteq> 0 then Err (Syscall ''netlink'' (- msg_err data) ''kernel rejected the request'')
           else walk_messages sq dump buf tot off' rs True)
        else if ty = NLMSG_DONE then walk_messages sq dump buf tot off' rs True
        else if ty = NLMSG_NOOP then walk_messages sq dump buf tot off' rs fin
        else walk_messages sq dump buf tot off' (rs @ [data])
          (fin \<or> \<not> dump \<and> fl AND NLM_F_MULTI = 0))"
proof -
  let ?n = "16 + length data"
  define w :: u32 where "w = of_nat ?n"
  have unw: "unat w = ?n"
    using assms(1,2) unfolding w_def msg_ok_def by (simp only: unat_of_nat word_widths mod_less prod.case)
  define body where "body = data @ replicate (nl_align ?n - ?n) 0 @ post"
  define h where "h = le32 w @ le16 ty @ le16 fl @ le32 msq @ le32 0"
  have hl: "length h = 16" by (simp add: h_def)
  have buf: "buf = pre @ h @ body"
    unfolding assms(2,3) msg_bytes_def pad4_def body_def h_def w_def
    by (simp add: eval_nat_numeral)
  have step: "length (pre @ msg_bytes m) = length pre + nl_align ?n"
    unfolding assms(2) msg_bytes_def by (simp add: eval_nat_numeral)
  have hdr: "at buf (length pre) = ucast w" "at buf (length pre + 1) = ucast (drop_bit 8 w)"
    "at buf (length pre + 2) = ucast (drop_bit 16 w)" "at buf (length pre + 3) = ucast (drop_bit 24 w)"
    "at buf (length pre + 4) = ucast ty" "at buf (length pre + 5) = ucast (drop_bit 8 ty)"
    "at buf (length pre + 6) = ucast fl" "at buf (length pre + 7) = ucast (drop_bit 8 fl)"
    "at buf (length pre + 8) = ucast msq" "at buf (length pre + 9) = ucast (drop_bit 8 msq)"
    "at buf (length pre + 10) = ucast (drop_bit 16 msq)" "at buf (length pre + 11) = ucast (drop_bit 24 msq)"
    unfolding buf by (simp_all add: h_def le32_def le16_def)
  have "at buf (length pre + (16 + k)) = at body k" for k
    unfolding buf at_append by (metis at_append hl)
  then have pay: "at buf (length pre + 16) = at body 0" "at buf (length pre + 17) = at body 1"
    "at buf (length pre + 18) = at body 2" "at buf (length pre + 19) = at body 3"
    by (metis add_0_right numeral_plus_numeral numeral_One semiring_norm(2-10) add.commute add_num_simps)+
  have "ty = NLMSG_ERROR \<Longrightarrow> k < 4 \<Longrightarrow> at body k = at data k" for k
    using assms(1,2) unfolding body_def by (intro at_prefix) (simp add: msg_ok_def)
  then have err: "ty = NLMSG_ERROR \<Longrightarrow>
      sint (from_le32 (at body 0) (at body 1) (at body 2) (at body 3)) = msg_err data"
    by (simp add: msg_err_def)
  have sl: "take (?n - 16) (drop (length pre + 16) buf) = data"
    unfolding buf using hl by (simp add: body_def)
  have fits: "length pre + 16 \<le> tot" "\<not> (?n < 16 \<or> tot < length pre + ?n)"
    using assms(4) unfolding step by (simp_all add: nl_align_def)
  show ?thesis
    unfolding step
    by (subst walk_messages.simps)
      (use fits in \<open>simp only: hdr pay from_le32_le32 from_le16_le16 unw sl Let_def if_True if_False
        err simp_thms cong: if_cong\<close>)
qed

lemma walk_messages_spec:
  assumes "\<forall>m \<in> set ms. msg_ok m" "buf = pre @ concat (map msg_bytes ms) @ stale" "tot = length (pre @ concat (map msg_bytes ms))"
  shows "walk_messages sq dump buf tot (length pre) rs fin = walk_spec sq dump ms rs fin"
  using assms
proof (induction ms arbitrary: pre rs fin)
  case Nil
  then show ?case by (simp add: walk_messages.simps)
next
  case (Cons m ms)
  obtain msq ty fl data where m: "m = (msq, ty, fl, data)" by (cases m)
  have buf: "buf = pre @ msg_bytes m @ (concat (map msg_bytes ms) @ stale)" using Cons.prems(2) by simp
  have tot: "length (pre @ msg_bytes m) \<le> tot" using Cons.prems(3) by simp
  have IH: "walk_messages sq dump buf tot (length (pre @ msg_bytes m)) rs' fin' =
      walk_spec sq dump ms rs' fin'" for rs' fin'
    by (rule Cons.IH) (use Cons.prems in simp_all)
  have ok: "msg_ok m" using Cons.prems(1) by simp
  show ?case
    unfolding walk_messages_step [OF ok m buf tot] Let_def IH unfolding m walk_spec.simps ..
qed

text \<open>
  C14: Reading a datagram of well-formed netlink messages gives exactly the message-by-message
  meaning: messages with another sequence number are ignored, an error code of the kernel
  becomes the error of the request, an acknowledgement or \<open>DONE\<close> completes it, and every
  other payload is collected in order, whatever an earlier datagram left in the buffer after it.
\<close>

theorem walk_messages_meaning:
  assumes "\<forall>m \<in> set ms. msg_ok m"
  shows "walk_messages sq dump (concat (map msg_bytes ms) @ stale) (length (concat (map msg_bytes ms))) 0 rs fin =
    walk_spec sq dump ms rs fin"
  using walk_messages_spec [of ms "concat (map msg_bytes ms) @ stale" "[]"] assms by simp

theorem walk_messages_meaning_witness:
  "walk_messages 7 False (concat (map msg_bytes [(6, 16, 0, [1]), (7, 2, 0, le32 (- 17))]) @ [1, 2, 3])
     (length (concat (map msg_bytes [(6, 16, 0, [1]), (7, 2, 0, le32 (- 17))]))) 0 [] False =
   Err (Syscall ''netlink'' 17 ''kernel rejected the request'')"
  by (subst walk_messages_meaning)
    (simp_all add: msg_ok_def NLMSG_ERROR_def msg_err_def le32_def, code_simp)

section \<open>Addresses round trip\<close>

lemma format_ipv4_graphic: "\<forall>c \<in> set (format_ipv4 ip). graphic c"
  by (auto simp: format_ipv4_def graphic_def byte_def split: prod.splits
      dest: show_nat_graphic [unfolded graphic_def byte_def])

lemma dot_notin [simp]: "CHR ''.'' \<notin> set (show_nat n)" "CHR ''/'' \<notin> set (show_nat n)"
  by (simp_all add: notin_show_nat not_digit)

lemma parse_format_ipv4: "parse_ipv4 (format_ipv4 ip) = Ok ip"
proof (cases ip)
  case (fields a b c d)
  have "str_split (format_ipv4 ip) (CHR ''.'') =
      [show_nat (unat a), show_nat (unat b), show_nat (unat c), show_nat (unat d)]"
    by (simp add: format_ipv4_def fields str_split_append str_split_single)
  then show ?thesis
    using format_ipv4_graphic [of ip] by (simp add: parse_ipv4_def ipv4_octet_def fields)
qed

text \<open>
  Writing an address and a prefix length in CIDR form and parsing it gives them back,
  and a prefix length above 32 is refused.
\<close>

theorem parse_cidr_format:
  "parse_cidr (format_ipv4 ip @ ''/'' @ show_nat (unat p)) =
     (if p \<le> 32 then Ok (ip, p)
      else Err (Config (''prefix length '' @ show_nat (unat p) @ '' > 32'')))"
proof -
  have "CHR ''/'' \<notin> set (format_ipv4 ip)"
    by (simp add: format_ipv4_def split: prod.splits)
  then have "split_once (format_ipv4 ip @ ''/'' @ show_nat (unat p)) (CHR ''/'') =
      Some (format_ipv4 ip, show_nat (unat p))"
    by (simp add: split_once_append)
  then show ?thesis by (simp add: parse_cidr_def parse_format_ipv4 not_le)
qed

end
