(* ===== verification/Caps.thy ===== *)
theory Caps
  imports Errors
begin

text \<open>
  \<open>src/sys/caps.rs\<close>: capability names, keep-set arithmetic on 64-bit masks, and the order
  in which the capability sets of a process are narrowed.  The \<open>prctl(2)\<close> and
  \<open>capset(2)\<close> calls are operations of a kernel state of type \<open>'k\<close>, given by the record
  \<open>cap_sys\<close>; the locale \<open>cap_kernel\<close> states what those calls do.
\<close>

section \<open>Names\<close>

definition CAP_TABLE :: "(string \<times> u8) list" where
  "CAP_TABLE = [
    (''CHOWN'', 0), (''DAC_OVERRIDE'', 1), (''DAC_READ_SEARCH'', 2), (''FOWNER'', 3),
    (''FSETID'', 4), (''KILL'', 5), (''SETGID'', 6), (''SETUID'', 7), (''SETPCAP'', 8),
    (''LINUX_IMMUTABLE'', 9), (''NET_BIND_SERVICE'', 10), (''NET_BROADCAST'', 11),
    (''NET_ADMIN'', 12), (''NET_RAW'', 13), (''IPC_LOCK'', 14), (''IPC_OWNER'', 15),
    (''SYS_MODULE'', 16), (''SYS_RAWIO'', 17), (''SYS_CHROOT'', 18), (''SYS_PTRACE'', 19),
    (''SYS_PACCT'', 20), (''SYS_ADMIN'', 21), (''SYS_BOOT'', 22), (''SYS_NICE'', 23),
    (''SYS_RESOURCE'', 24), (''SYS_TIME'', 25), (''SYS_TTY_CONFIG'', 26), (''MKNOD'', 27),
    (''LEASE'', 28), (''AUDIT_WRITE'', 29), (''AUDIT_CONTROL'', 30), (''SETFCAP'', 31),
    (''MAC_OVERRIDE'', 32), (''MAC_ADMIN'', 33), (''SYSLOG'', 34), (''WAKE_ALARM'', 35),
    (''BLOCK_SUSPEND'', 36), (''AUDIT_READ'', 37), (''PERFMON'', 38), (''BPF'', 39),
    (''CHECKPOINT_RESTORE'', 40)]"

definition DEFAULT_KEEP :: "string list" where
  "DEFAULT_KEEP = [''CHOWN'', ''DAC_OVERRIDE'', ''FOWNER'', ''FSETID'', ''KILL'', ''SETGID'',
    ''SETUID'', ''SETPCAP'', ''NET_BIND_SERVICE'', ''SYS_CHROOT'', ''MKNOD'', ''AUDIT_WRITE'']"

definition parse_cap :: "string \<Rightarrow> u8 res" where
  "parse_cap name =
     (let n = to_ascii_uppercase (str_trim name);
          n' = unwrap_or n (strip_prefix n ''CAP_'')
      in ok_or (Config (''unknown capability '' @ debug_str name)) (map_of CAP_TABLE n'))"

definition cap_name :: "u8 \<Rightarrow> string" where
  "cap_name v = (case List.find (\<lambda>(_, n). n = v) CAP_TABLE of
      Some (key, _) \<Rightarrow> ''CAP_'' @ key
    | None \<Rightarrow> ''CAP_'' @ show_nat (unat v))"

text \<open>The text of \<open>/proc/sys/kernel/cap_last_cap\<close>, if it can be read.\<close>

definition last_cap :: "string option \<Rightarrow> u8" where
  "last_cap text = unwrap_or 40 (Option.bind text (\<lambda>s. parse_u8 (str_trim s)))"

section \<open>Masks\<close>

text \<open>\<open>1u64 << cap\<close>; the shift amount is taken modulo the width.\<close>

definition shl1 :: "u8 \<Rightarrow> u64" where
  "shl1 c = push_bit (unat c mod 64) 1"

definition is_all :: "string \<Rightarrow> bool" where
  "is_all c \<longleftrightarrow> eq_ignore_ascii_case c ''all''"

definition all_caps :: u64 where
  "all_caps = foldl (\<lambda>m (_, v). m OR shl1 v) 0 CAP_TABLE"

definition resolve_keep_set :: "string list \<Rightarrow> string list \<Rightarrow> string list \<Rightarrow> u64 res" where
  "resolve_keep_set base add drops =
     r_bind
       (if \<exists>d \<in> set drops. is_all d then Ok 0
        else r_bind (r_fold (\<lambda>c m. r_bind (parse_cap c) (\<lambda>v. Ok (m OR shl1 v))) base 0)
               (r_fold (\<lambda>c m. r_bind (parse_cap c) (\<lambda>v. Ok (m AND NOT (shl1 v)))) drops))
       (r_fold (\<lambda>c m.
          if is_all c then Ok (foldl (\<lambda>m (_, v). m OR shl1 v) m CAP_TABLE)
          else r_bind (parse_cap c) (\<lambda>v. Ok (m OR shl1 v))) add)"

definition describe_mask :: "u64 \<Rightarrow> string list" where
  "describe_mask msk =
     map (\<lambda>(name, _). ''CAP_'' @ name) (filter (\<lambda>(_, b). msk AND shl1 b \<noteq> 0) CAP_TABLE)"

text \<open>The two 32-bit halves of \<open>capset\<close>/\<open>capget\<close>.\<close>

definition cap_lo :: "u64 \<Rightarrow> u32" where
  "cap_lo m = ucast m"

definition cap_hi :: "u64 \<Rightarrow> u32" where
  "cap_hi m = ucast (drop_bit 32 m)"

definition cap_join :: "u32 \<Rightarrow> u32 \<Rightarrow> u64" where
  "cap_join lo hi = push_bit 32 (ucast hi) OR ucast lo"

section \<open>Applying a keep mask\<close>

record 'k cap_sys =
  sys_ambient_clear :: "'k \<Rightarrow> int option \<times> 'k"
  sys_capbset_drop :: "u8 \<Rightarrow> 'k \<Rightarrow> int option \<times> 'k"
  sys_capset :: "(u32 \<times> u32 \<times> u32) \<Rightarrow> (u32 \<times> u32 \<times> u32) \<Rightarrow> 'k \<Rightarrow> int option \<times> 'k"

definition EINVAL :: int where "EINVAL = 22"

text \<open>\<open>set_caps(effective, permitted, inheritable)\<close>.\<close>

definition set_caps :: "'k cap_sys \<Rightarrow> u64 \<Rightarrow> u64 \<Rightarrow> u64 \<Rightarrow> 'k \<Rightarrow> unit res \<times> 'k" where
  "set_caps sys eff perm inh s =
     (case sys_capset sys (cap_lo eff, cap_lo perm, cap_lo inh) (cap_hi eff, cap_hi perm, cap_hi inh) s of
        (None, t) \<Rightarrow> (Ok (), t)
      | (Some e, t) \<Rightarrow> (Err (Syscall ''capset'' e (''keep mask 0x'' @ show_radix 16 (unat perm))), t))"

text \<open>The loop over \<open>0..=last\<close> that drops the bounding set.\<close>

fun drop_bounding :: "'k cap_sys \<Rightarrow> u64 \<Rightarrow> u8 list \<Rightarrow> 'k \<Rightarrow> unit res \<times> 'k" where
  "drop_bounding sys keep [] s = (Ok (), s)"
| "drop_bounding sys keep (c # cs) s =
     (if keep AND shl1 c \<noteq> 0 then drop_bounding sys keep cs s
      else (case sys_capbset_drop sys c s of
          (None, t) \<Rightarrow> drop_bounding sys keep cs t
        | (Some e, t) \<Rightarrow>
            if e = EINVAL then drop_bounding sys keep cs t
            else (Err (Syscall ''prctl'' e (''PR_CAPBSET_DROP '' @ cap_name c)), t)))"

definition caps_apply :: "'k cap_sys \<Rightarrow> u8 \<Rightarrow> u64 \<Rightarrow> 'k \<Rightarrow> unit res \<times> 'k" where
  "caps_apply sys lastc keep s =
     (case sys_ambient_clear sys s of (r, t) \<Rightarrow>
        if r \<noteq> None \<and> r \<noteq> Some EINVAL
        then (Err (Syscall ''prctl'' (the r) ''PR_CAP_AMBIENT_CLEAR_ALL''), t)
        else (case drop_bounding sys keep (map of_nat [0..<Suc (unat lastc)]) t of
                (Ok _, u) \<Rightarrow> set_caps sys keep keep 0 u
              | (Err e, u) \<Rightarrow> (Err e, u)))"

definition assert_dropped :: "u64 \<times> u64 \<times> u64 \<Rightarrow> u64 \<Rightarrow> bool" where
  "assert_dropped sets expected =
     (case sets of (eff, perm, inh) \<Rightarrow>
        \<not> (eff AND NOT expected \<noteq> 0 \<or> perm AND NOT expected \<noteq> 0 \<or> inh \<noteq> 0))"

section \<open>Keep sets\<close>

definition cap_bit :: "string \<Rightarrow> nat \<Rightarrow> bool" where
  "cap_bit c b \<longleftrightarrow> (\<exists>v. parse_cap c = Ok v \<and> unat v mod 64 = b)"

lemma bit_shl1: "b < 64 \<Longrightarrow> bit (shl1 v) b \<longleftrightarrow> unat v mod 64 = b"
  by (auto simp: shl1_def bit_simps)

lemma and_shl1: "unat c < 64 \<Longrightarrow> (m AND shl1 c \<noteq> 0) = bit m (unat c)"
  by (simp add: shl1_def push_bit_eq_mult and_exp_eq_0_iff_not_bit)

lemma fold_or_bits:
  assumes "r_fold (\<lambda>c m. r_bind (parse_cap c) (\<lambda>v. Ok (m OR shl1 v))) cs m0 = Ok m" "b < 64"
  shows "bit m b \<longleftrightarrow> bit m0 b \<or> (\<exists>c \<in> set cs. cap_bit c b)"
  using assms
proof (induction cs arbitrary: m0)
  case Nil
  then show ?case by simp
next
  case (Cons c cs)
  from Cons.prems(1) obtain v where v: "parse_cap c = Ok v"
    "r_fold (\<lambda>c m. r_bind (parse_cap c) (\<lambda>v. Ok (m OR shl1 v))) cs (m0 OR shl1 v) = Ok m"
    by auto
  show ?case
    using Cons.IH [OF v(2) assms(2)] Cons.prems(2) v(1)
    by (auto simp: bit_simps bit_shl1 cap_bit_def)
qed

lemma fold_and_not_bits:
  assumes "r_fold (\<lambda>c m. r_bind (parse_cap c) (\<lambda>v. Ok (m AND NOT (shl1 v)))) cs m0 = Ok m" "b < 64"
  shows "bit m b \<longleftrightarrow> bit m0 b \<and> \<not> (\<exists>c \<in> set cs. cap_bit c b)"
  using assms
proof (induction cs arbitrary: m0)
  case Nil
  then show ?case by simp
next
  case (Cons c cs)
  from Cons.prems(1) obtain v where v: "parse_cap c = Ok v"
    "r_fold (\<lambda>c m. r_bind (parse_cap c) (\<lambda>v. Ok (m AND NOT (shl1 v)))) cs (m0 AND NOT (shl1 v)) = Ok m"
    by auto
  show ?case
    using Cons.IH [OF v(2) assms(2)] Cons.prems(2) v(1)
    by (auto simp: bit_simps bit_shl1 cap_bit_def)
qed

lemma foldl_table_bits:
  "b < 64 \<Longrightarrow> bit (foldl (\<lambda>m (_ :: string, v). m OR shl1 v) m0 t) b \<longleftrightarrow>
     bit m0 b \<or> (\<exists>v \<in> snd ` set t. unat v mod 64 = b)"
  by (induction t arbitrary: m0) (auto simp: bit_simps bit_shl1)

lemma cap_table_values: "snd ` set CAP_TABLE = of_nat ` {0..40}"
proof -
  have "{0..40} = set [0..<41]" by auto
  then have "of_nat ` {0..40} = (set (map of_nat [0..<41]) :: u8 set)" by simp
  also have "\<dots> = set (map snd CAP_TABLE)" by (simp add: CAP_TABLE_def upt_rec)
  finally show ?thesis by simp
qed

lemma all_table_bits:
  assumes "b < 64"
  shows "bit (foldl (\<lambda>m (_, v). m OR shl1 v) m0 CAP_TABLE) b \<longleftrightarrow> bit m0 b \<or> b \<le> 40"
proof -
  have "(\<exists>v \<in> (of_nat ` {0..40} :: u8 set). unat v mod 64 = b) \<longleftrightarrow> b \<le> 40"
    by (auto simp: unat_of_nat intro!: bexI [of _ b])
  then show ?thesis using assms by (simp add: foldl_table_bits cap_table_values)
qed

text \<open>What one \<open>--cap-add\<close> argument grants.\<close>

definition grants :: "string \<Rightarrow> nat \<Rightarrow> bool" where
  "grants c b \<longleftrightarrow> (if is_all c then b \<le> 40 else cap_bit c b)"

lemma fold_add_bits:
  assumes "r_fold (\<lambda>c m. if is_all c then Ok (foldl (\<lambda>m (_, v). m OR shl1 v) m CAP_TABLE)
      else r_bind (parse_cap c) (\<lambda>v. Ok (m OR shl1 v))) cs m0 = Ok m" "b < 64"
  shows "bit m b \<longleftrightarrow> bit m0 b \<or> (\<exists>c \<in> set cs. grants c b)"
  using assms
proof (induction cs arbitrary: m0)
  case Nil
  then show ?case by simp
next
  case (Cons c cs)
  show ?case
  proof (cases "is_all c")
    case True
    with Cons.prems Cons.IH [of "foldl (\<lambda>m (_, v). m OR shl1 v) m0 CAP_TABLE"] show ?thesis
      by (auto simp: all_table_bits grants_def)
  next
    case False
    with Cons.prems(1) obtain v where v: "parse_cap c = Ok v" by auto
    with False Cons.prems Cons.IH [of "m0 OR shl1 v"] show ?thesis
      by (auto simp: bit_simps bit_shl1 cap_bit_def grants_def)
  qed
qed

text \<open>
  C38: The keep mask has a bit exactly if an \<open>--cap-add\<close> argument grants it, or if it is in
  the base set, no \<open>--cap-drop\<close> argument names it and none of them is \<open>all\<close>: an explicit
  add wins over a drop.
\<close>

theorem resolve_keep_set_bits:
  assumes "resolve_keep_set base add drops = Ok m" and "b < 64"
  shows "bit m b \<longleftrightarrow>
     (\<exists>c \<in> set add. grants c b) \<or>
     ((\<exists>c \<in> set base. cap_bit c b) \<and> \<not> (\<exists>d \<in> set drops. is_all d \<or> cap_bit d b))"
proof (cases "\<exists>d \<in> set drops. is_all d")
  case True
  with assms show ?thesis
    using fold_add_bits [of add 0 m b] by (auto simp: resolve_keep_set_def)
next
  case False
  with assms(1) obtain m1 m2 where
    "r_fold (\<lambda>c m. r_bind (parse_cap c) (\<lambda>v. Ok (m OR shl1 v))) base 0 = Ok m1"
    "r_fold (\<lambda>c m. r_bind (parse_cap c) (\<lambda>v. Ok (m AND NOT (shl1 v)))) drops m1 = Ok m2"
    "r_fold (\<lambda>c m. if is_all c then Ok (foldl (\<lambda>m (_, v). m OR shl1 v) m CAP_TABLE)
      else r_bind (parse_cap c) (\<lambda>v. Ok (m OR shl1 v))) add m2 = Ok m"
    unfolding resolve_keep_set_def by auto
  note bits = fold_or_bits [OF this(1) assms(2)] fold_and_not_bits [OF this(2) assms(2)]
    fold_add_bits [OF this(3) assms(2)]
  show ?thesis using False by (auto simp: bits)
qed

theorem resolve_keep_set_bits_witness:
  "\<exists>m. resolve_keep_set [''CHOWN'', ''KILL''] [''NET_RAW''] [''CAP_CHOWN''] = Ok m \<and> bit m 13 \<and> \<not> bit m 0"
proof -
  have m: "resolve_keep_set [''CHOWN'', ''KILL''] [''NET_RAW''] [''CAP_CHOWN''] = Ok 0x2020"
    by code_simp
  have "grants ''NET_RAW'' 13" and "\<not> grants ''NET_RAW'' 0" and "cap_bit ''CAP_CHOWN'' 0"
  proof -
    have p: "parse_cap ''NET_RAW'' = Ok 13" "parse_cap ''CAP_CHOWN'' = Ok 0" "\<not> is_all ''NET_RAW''"
      by code_simp+
    show "grants ''NET_RAW'' 13" "\<not> grants ''NET_RAW'' 0" "cap_bit ''CAP_CHOWN'' 0"
      by (auto simp: grants_def cap_bit_def p)
  qed
  then show ?thesis
    using resolve_keep_set_bits [OF m, of 13] resolve_keep_set_bits [OF m, of 0] m by auto
qed


section \<open>Narrowing the sets of a process\<close>

text \<open>
  The kernel's side: the five sets, and what the three calls do to them.  Clearing the ambient
  set takes no argument that could be wrong: \<open>EINVAL\<close> is the answer of a kernel that has no
  ambient set (before Linux 4.3), for which it counts as empty.  Dropping a capability from
  the bounding set answers \<open>EINVAL\<close> when the kernel does not know the capability.
\<close>

locale cap_kernel =
  fixes sys :: "'k cap_sys"
    and amb bnd eff perm inh :: "'k \<Rightarrow> u64"
  assumes ambient_clear: "sys_ambient_clear sys s = (None, t) \<Longrightarrow> amb t = 0 \<and> bnd t = bnd s"
    and ambient_unknown: "sys_ambient_clear sys s = (Some EINVAL, t) \<Longrightarrow>
      amb s = 0 \<and> amb t = amb s \<and> bnd t = bnd s"
    and bset_drop: "sys_capbset_drop sys c s = (None, t) \<Longrightarrow>
      bnd t = bnd s AND NOT (shl1 c) \<and> amb t = amb s"
    and bset_unknown: "sys_capbset_drop sys c s = (Some EINVAL, t) \<Longrightarrow> unat c < 64 \<Longrightarrow>
      bnd t = bnd s \<and> amb t = amb s \<and> \<not> bit (bnd s) (unat c)"
    and capset: "sys_capset sys (e0, p0, i0) (e1, p1, i1) s = (None, t) \<Longrightarrow>
      eff t = cap_join e0 e1 \<and> perm t = cap_join p0 p1 \<and> inh t = cap_join i0 i1
        \<and> bnd t = bnd s \<and> amb t = amb s"
begin

lemma drop_bounding_sets:
  assumes "drop_bounding sys keep cs s = (Ok x, t)" and "\<forall>c \<in> set cs. unat c < 64"
  shows "amb t = amb s \<and>
    (\<forall>b < 64. bit (bnd t) b \<longleftrightarrow> bit (bnd s) b \<and> (bit keep b \<or> b \<notin> unat ` set cs))"
  using assms
proof (induction cs arbitrary: s)
  case Nil
  then show ?case by simp
next
  case (Cons c cs)
  have c: "unat c < 64" using Cons.prems(2) by simp
  have keep: "(keep AND shl1 c \<noteq> 0) = bit keep (unat c)"
    using c by (rule and_shl1)
  show ?case
  proof (cases "bit keep (unat c)")
    case True
    with Cons keep show ?thesis by auto
  next
    case False
    obtain r u where ru: "sys_capbset_drop sys c s = (r, u)" by (cases "sys_capbset_drop sys c s")
    from Cons.prems(1) False keep ru have step: "r = None \<or> r = Some EINVAL"
      "drop_bounding sys keep cs u = (Ok x, t)"
      by (auto split: option.splits if_splits)
    have u: "amb u = amb s \<and> (\<forall>b < 64. bit (bnd u) b \<longleftrightarrow> bit (bnd s) b \<and> b \<noteq> unat c)"
      using step(1)
    proof
      assume "r = None"
      with ru bset_drop [of c s u] show ?thesis
        using c by (auto simp: bit_simps bit_shl1)
    next
      assume "r = Some EINVAL"
      with ru bset_unknown [of c s u] c show ?thesis by auto
    qed
    with Cons.IH [OF step(2)] Cons.prems(2) False show ?thesis by auto
  qed
qed


lemma join_split: "cap_join (cap_lo m) (cap_hi m) = m"
  unfolding cap_join_def cap_lo_def cap_hi_def
  by (rule bit_word_eqI) (auto simp: bit_simps)

lemma apply_sets:
  assumes "caps_apply sys lastc keep s = (Ok x, t)" and "unat lastc < 64"
  shows "eff t = keep \<and> perm t = keep \<and> inh t = 0 \<and> amb t = 0 \<and>
    (\<forall>b \<le> unat lastc. bit (bnd t) b \<longleftrightarrow> bit (bnd s) b \<and> bit keep b)"
proof -
  obtain r u where ru: "sys_ambient_clear sys s = (r, u)" by (cases "sys_ambient_clear sys s")
  let ?cs = "map of_nat [0..<Suc (unat lastc)] :: u8 list"
  from assms(1) ru obtain v y where
    r: "r = None \<or> r = Some EINVAL" and
    v: "drop_bounding sys keep ?cs u = (Ok y, v)" and
    t: "set_caps sys keep keep 0 v = (Ok x, t)"
    by (auto simp: caps_apply_def split: if_splits prod.splits result.splits)
  have small: "unat (of_nat n :: u8) = n" if "n \<le> unat lastc" for n
    using that assms(2) by (simp add: unat_of_nat)
  have cs: "unat ` set ?cs = {0..unat lastc}"
    using small by (auto simp: image_image atLeastLessThanSuc_atLeastAtMost simp del: upt_Suc)
  have "\<forall>c \<in> set ?cs. unat c < 64"
    using small assms(2) by (auto simp del: upt_Suc)
  with drop_bounding_sets [OF v] have bv: "amb v = amb u"
    "\<forall>b < 64. bit (bnd v) b \<longleftrightarrow> bit (bnd u) b \<and> (bit keep b \<or> b \<notin> unat ` set ?cs)"
    by blast+
  from t have "sys_capset sys (cap_lo keep, cap_lo keep, cap_lo 0)
      (cap_hi keep, cap_hi keep, cap_hi 0) v = (None, t)"
    by (auto simp: set_caps_def split: prod.splits option.splits)
  have "amb u = 0 \<and> bnd u = bnd s"
    using r ru ambient_clear [of s u] ambient_unknown [of s u] by auto
  with capset [OF \<open>sys_capset sys _ _ v = (None, t)\<close>] bv assms(2) show ?thesis
    unfolding cs by (simp add: join_split)
qed

end

text \<open>An executable kernel: known capabilities are \<open>0..40\<close>, the calls check privilege.\<close>

record lin_caps =
  l_amb :: u64
  l_bnd :: u64
  l_eff :: u64
  l_perm :: u64
  l_inh :: u64

definition lin_sys :: "lin_caps cap_sys" where
  "lin_sys = \<lparr>
     sys_ambient_clear = (\<lambda>s. (None, s\<lparr>l_amb := 0\<rparr>)),
     sys_capbset_drop = (\<lambda>c s.
        if \<not> bit (l_eff s) 8 then (Some 1, s)
        else if unat c > 40 then (Some EINVAL, s)
        else (None, s\<lparr>l_bnd := l_bnd s AND NOT (shl1 c)\<rparr>)),
     sys_capset = (\<lambda>(e0, p0, i0) (e1, p1, i1) s.
        if cap_join p0 p1 AND NOT (l_perm s) \<noteq> 0 \<or> cap_join e0 e1 AND NOT (cap_join p0 p1) \<noteq> 0
        then (Some 1, s)
        else (None, s\<lparr>l_eff := cap_join e0 e1, l_perm := cap_join p0 p1, l_inh := cap_join i0 i1\<rparr>))\<rparr>"

definition lin_bounding :: "lin_caps \<Rightarrow> u64" where
  "lin_bounding s = l_bnd s AND mask 41"

interpretation lin: cap_kernel lin_sys l_amb lin_bounding l_eff l_perm l_inh
proof (unfold_locales, goal_cases)
  case (3 c s t)
  then show ?case
    by (auto simp: lin_sys_def lin_bounding_def and.assoc and.commute and.left_commute split: if_splits)
qed (auto simp: lin_sys_def lin_bounding_def bit_simps EINVAL_def split: if_splits)

text \<open>
  C13: when applying a keep mask succeeds, the effective and permitted sets are exactly the
  mask, the inheritable and ambient sets are empty, and no capability the kernel knows
  stays in the bounding set unless the mask keeps it.
\<close>

theorem caps_apply_confines:
  assumes "cap_kernel sys amb bnd eff perm inh"
    and "caps_apply sys lastc keep s = (Ok x, t)" and "unat lastc < 64"
  shows "eff t = keep \<and> perm t = keep \<and> inh t = 0 \<and> amb t = 0 \<and>
    (\<forall>b \<le> unat lastc. bit (bnd t) b \<longleftrightarrow> bit (bnd s) b \<and> bit keep b)"
  using cap_kernel.apply_sets [OF assms] .

theorem caps_apply_confines_witness:
  "\<exists>t. caps_apply lin_sys 40 0x100 \<lparr>l_amb = 1, l_bnd = 0x1ff, l_eff = 0x1ff, l_perm = 0x1ff, l_inh = 3\<rparr>
      = (Ok (), t) \<and> l_inh t = 0 \<and> \<not> bit (lin_bounding t) 5"
proof -
  let ?s = "\<lparr>l_amb = 1, l_bnd = 0x1ff, l_eff = 0x1ff, l_perm = 0x1ff, l_inh = 3\<rparr>"
  have run: "caps_apply lin_sys 40 0x100 ?s =
      (Ok (), \<lparr>l_amb = 0, l_bnd = 0x100, l_eff = 0x100, l_perm = 0x100, l_inh = 0\<rparr>)"
    by code_simp
  have "\<not> bit (0x100 :: u64) 5" by simp
  with run caps_apply_confines [OF lin.cap_kernel_axioms run] show ?thesis by auto
qed

end
