(* ===== verification/Seccomp.thy ===== *)
theory Seccomp
  imports Errors
begin

text \<open>
  \<open>src/sys/seccomp.rs\<close>: the deny lists, the assembly of the classic BPF program, and its
  installation.  \<open>cfg!(target_arch)\<close> is the argument of type \<open>arch\<close>.  The machine that
  runs the program is the kernel's: it enters as the locale \<open>bpf_machine\<close>, whose laws are
  the documented meaning of the four instructions the program is made of, and the locale
  is interpreted on an executable interpreter.
\<close>

section \<open>Modes and tables\<close>

datatype arch = X86_64 | AArch64

datatype seccomp_mode = Unconfined | Default | Strict

definition seccomp_parse :: "string \<Rightarrow> seccomp_mode res" where
  "seccomp_parse s =
     (let t = to_ascii_lowercase (str_trim s)
      in if t = ''unconfined'' \<or> t = ''off'' \<or> t = ''none'' then Ok Unconfined
         else if t = ''default'' \<or> t = ''on'' then Ok Default
         else if t = ''strict'' then Ok Strict
         else Err (Config (''unknown seccomp mode '' @ debug_str t @
                    '' (expected unconfined|default|strict)'')))"

fun seccomp_as_str :: "seccomp_mode \<Rightarrow> string" where
  "seccomp_as_str Unconfined = ''unconfined''"
| "seccomp_as_str Default = ''default''"
| "seccomp_as_str Strict = ''strict''"

definition SYSCALLS :: "(string \<times> int \<times> int) list" where
  "SYSCALLS = [
    (''mount'', 165, 40), (''umount2'', 166, 39), (''pivot_root'', 155, 41),
    (''chroot'', 161, 51), (''swapon'', 167, 224), (''swapoff'', 168, 225),
    (''reboot'', 169, 142), (''sethostname'', 170, 161), (''setdomainname'', 171, 162),
    (''init_module'', 175, 105), (''finit_module'', 313, 273), (''delete_module'', 176, 106),
    (''kexec_load'', 246, 104), (''kexec_file_load'', 320, 294),
    (''open_by_handle_at'', 304, 265), (''name_to_handle_at'', 303, 264),
    (''add_key'', 248, 217), (''request_key'', 249, 218), (''keyctl'', 250, 219),
    (''setns'', 308, 268), (''unshare'', 272, 97), (''bpf'', 321, 280),
    (''perf_event_open'', 298, 241), (''clock_settime'', 227, 112),
    (''clock_adjtime'', 305, 266), (''settimeofday'', 164, 170), (''adjtimex'', 159, 171),
    (''acct'', 163, 89), (''quotactl'', 179, 60), (''ioperm'', 173, -1), (''iopl'', 172, -1),
    (''uselib'', 134, -1), (''nfsservctl'', 180, -1), (''fsopen'', 430, 430),
    (''fsconfig'', 431, 431), (''fsmount'', 432, 432), (''move_mount'', 429, 429),
    (''open_tree'', 428, 428), (''mount_setattr'', 442, 442),
    (''ptrace'', 101, 117), (''process_vm_readv'', 310, 270),
    (''process_vm_writev'', 311, 271), (''syslog'', 103, 116)]"

definition DEFAULT_DENY :: "string list" where
  "DEFAULT_DENY = [
    ''mount'', ''umount2'', ''pivot_root'', ''chroot'', ''swapon'', ''swapoff'', ''reboot'',
    ''sethostname'', ''setdomainname'', ''init_module'', ''finit_module'', ''delete_module'',
    ''kexec_load'', ''kexec_file_load'', ''open_by_handle_at'', ''name_to_handle_at'',
    ''add_key'', ''request_key'', ''keyctl'', ''setns'', ''unshare'', ''bpf'',
    ''perf_event_open'', ''clock_settime'', ''clock_adjtime'', ''settimeofday'', ''adjtimex'',
    ''acct'', ''quotactl'', ''ioperm'', ''iopl'', ''uselib'', ''nfsservctl'', ''fsopen'',
    ''fsconfig'', ''fsmount'', ''move_mount'', ''open_tree'', ''mount_setattr'']"

definition STRICT_EXTRA :: "string list" where
  "STRICT_EXTRA = [''ptrace'', ''process_vm_readv'', ''process_vm_writev'', ''syslog'']"

definition syscall_nr :: "arch \<Rightarrow> string \<Rightarrow> u32 option" where
  "syscall_nr a name =
     (case List.find (\<lambda>(n, _, _). n = name) SYSCALLS of
        None \<Rightarrow> None
      | Some (_, x, y) \<Rightarrow>
          let v = (case a of X86_64 \<Rightarrow> x | AArch64 \<Rightarrow> y)
          in if v < 0 then None else Some (of_int v))"

fun denied_syscalls :: "seccomp_mode \<Rightarrow> string list" where
  "denied_syscalls Unconfined = []"
| "denied_syscalls Default = DEFAULT_DENY"
| "denied_syscalls Strict = DEFAULT_DENY @ STRICT_EXTRA"

section \<open>Classic BPF\<close>

record sock_filter =
  code :: u16
  jt :: u8
  jf :: u8
  k :: u32

definition BPF_LD :: u16 where "BPF_LD = 0x00"
definition BPF_JMP :: u16 where "BPF_JMP = 0x05"
definition BPF_RET :: u16 where "BPF_RET = 0x06"
definition BPF_W :: u16 where "BPF_W = 0x00"
definition BPF_ABS :: u16 where "BPF_ABS = 0x20"
definition BPF_JEQ :: u16 where "BPF_JEQ = 0x10"
definition BPF_JGE :: u16 where "BPF_JGE = 0x30"
definition BPF_K :: u16 where "BPF_K = 0x00"

definition SECCOMP_RET_KILL_PROCESS :: u32 where "SECCOMP_RET_KILL_PROCESS = 0x80000000"
definition SECCOMP_RET_ERRNO :: u32 where "SECCOMP_RET_ERRNO = 0x00050000"
definition SECCOMP_RET_ALLOW :: u32 where "SECCOMP_RET_ALLOW = 0x7fff0000"
definition SECCOMP_RET_DATA :: u32 where "SECCOMP_RET_DATA = 0x0000ffff"
definition EPERM :: u32 where "EPERM = 1"

fun AUDIT_ARCH_NATIVE :: "arch \<Rightarrow> u32" where
  "AUDIT_ARCH_NATIVE X86_64 = 0xc000003e"
| "AUDIT_ARCH_NATIVE AArch64 = 0xc00000b7"

lemmas bpf_defs = BPF_LD_def BPF_JMP_def BPF_RET_def BPF_W_def BPF_ABS_def BPF_JEQ_def
  BPF_JGE_def BPF_K_def

lemmas seccomp_ret_defs = SECCOMP_RET_KILL_PROCESS_def SECCOMP_RET_ERRNO_def
  SECCOMP_RET_ALLOW_def SECCOMP_RET_DATA_def EPERM_def

definition stmt :: "u16 \<Rightarrow> u32 \<Rightarrow> sock_filter" where
  "stmt c v = \<lparr>code = c, jt = 0, jf = 0, k = v\<rparr>"

definition jump :: "u16 \<Rightarrow> u32 \<Rightarrow> u8 \<Rightarrow> u8 \<Rightarrow> sock_filter" where
  "jump c v t f = \<lparr>code = c, jt = t, jf = f, k = v\<rparr>"

definition deny_action :: "seccomp_mode \<Rightarrow> u32" where
  "deny_action mode =
     (if mode = Strict then SECCOMP_RET_KILL_PROCESS
      else SECCOMP_RET_ERRNO OR (EPERM AND SECCOMP_RET_DATA))"

definition denied_nrs :: "arch \<Rightarrow> seccomp_mode \<Rightarrow> u32 list" where
  "denied_nrs a mode = List.map_filter (syscall_nr a) (denied_syscalls mode)"

definition build_filter :: "arch \<Rightarrow> seccomp_mode \<Rightarrow> sock_filter list res" where
  "build_filter a mode =
     (let nrs = denied_nrs a mode;
          n = length nrs;
          has_x32_guard = (a = X86_64);
          first_check = (if has_x32_guard then 4 else 3);
          allow_idx = first_check + n;
          deny_idx = allow_idx + 1;
          kill_idx = allow_idx + 2
      in if kill_idx > 250
         then Err (Unsupported ''seccomp filter too large for 8-bit jump offsets'')
         else Ok (
           [stmt (BPF_LD OR BPF_W OR BPF_ABS) 4,
            jump (BPF_JMP OR BPF_JEQ OR BPF_K) (AUDIT_ARCH_NATIVE a) 0 (of_nat (kill_idx - 2)),
            stmt (BPF_LD OR BPF_W OR BPF_ABS) 0] @
           (if has_x32_guard
            then [jump (BPF_JMP OR BPF_JGE OR BPF_K) 0x40000000 (of_nat (kill_idx - 4)) 0]
            else []) @
           map (\<lambda>(i, nr). jump (BPF_JMP OR BPF_JEQ OR BPF_K) nr
                            (of_nat (deny_idx - (first_check + i) - 1)) 0)
             (List.enumerate 0 nrs) @
           [stmt (BPF_RET OR BPF_K) SECCOMP_RET_ALLOW,
            stmt (BPF_RET OR BPF_K) (deny_action mode),
            stmt (BPF_RET OR BPF_K) SECCOMP_RET_KILL_PROCESS]))"

text \<open>
  \<open>install\<close>: the \<open>seccomp(2)\<close> call is the argument \<open>sys\<close>, which gives the \<open>errno\<close> of a
  failing call.  The result is the number of instructions installed.
\<close>

definition seccomp_install ::
  "arch \<Rightarrow> seccomp_mode \<Rightarrow> (sock_filter list \<Rightarrow> int option) \<Rightarrow> nat res" where
  "seccomp_install a mode sys =
     (if mode = Unconfined then Ok 0
      else r_bind (build_filter a mode) (\<lambda>prog.
        case sys prog of
          Some e \<Rightarrow> Err (Syscall ''seccomp'' e (''mode '' @ seccomp_as_str mode))
        | None \<Rightarrow> Ok (length prog)))"

text \<open>The \<open>Seccomp:\<close> line of the text of \<open>/proc/<pid>/status\<close>.\<close>

fun seccomp_mode_lines :: "string list \<Rightarrow> u32 option" where
  "seccomp_mode_lines [] = None"
| "seccomp_mode_lines (l # ls) =
     (case strip_prefix l ''Seccomp:'' of
        Some rest \<Rightarrow> parse_u32 (str_trim rest)
      | None \<Rightarrow> seccomp_mode_lines ls)"

definition seccomp_mode_of :: "string option \<Rightarrow> u32 option" where
  "seccomp_mode_of text =
     (case text of None \<Rightarrow> None | Some t \<Rightarrow> seccomp_mode_lines (str_lines t))"

section \<open>The machine that runs the filter\<close>

record seccomp_data =
  sd_nr :: u32
  sd_arch :: u32

locale bpf_machine =
  fixes run :: "sock_filter list \<Rightarrow> seccomp_data \<Rightarrow> nat \<Rightarrow> u32 \<Rightarrow> u32 option"
  assumes ld_nr: "pc < length p \<Longrightarrow> code (p ! pc) = BPF_LD OR BPF_W OR BPF_ABS \<Longrightarrow> k (p ! pc) = 0 \<Longrightarrow>
      run p d pc acc = run p d (pc + 1) (sd_nr d)"
    and ld_arch: "pc < length p \<Longrightarrow> code (p ! pc) = BPF_LD OR BPF_W OR BPF_ABS \<Longrightarrow> k (p ! pc) = 4 \<Longrightarrow>
      run p d pc acc = run p d (pc + 1) (sd_arch d)"
    and jeq: "pc < length p \<Longrightarrow> code (p ! pc) = BPF_JMP OR BPF_JEQ OR BPF_K \<Longrightarrow>
      run p d pc acc =
        run p d (pc + 1 + unat (if acc = k (p ! pc) then jt (p ! pc) else jf (p ! pc))) acc"
    and jge: "pc < length p \<Longrightarrow> code (p ! pc) = BPF_JMP OR BPF_JGE OR BPF_K \<Longrightarrow>
      run p d pc acc =
        run p d (pc + 1 + unat (if k (p ! pc) \<le> acc then jt (p ! pc) else jf (p ! pc))) acc"
    and ret: "pc < length p \<Longrightarrow> code (p ! pc) = BPF_RET OR BPF_K \<Longrightarrow> run p d pc acc = Some (k (p ! pc))"
begin

text \<open>
  A run of equality tests that jump to the same target \<open>t\<close> decides membership: it goes to
  \<open>t\<close> if the accumulator is one of the constants, and falls through otherwise.
\<close>

lemma jeq_chain:
  assumes "\<And>i. i < length ns \<Longrightarrow>
      p ! (b + i) = jump (BPF_JMP OR BPF_JEQ OR BPF_K) (ns ! i) (of_nat (t - (b + i) - 1)) 0"
    and "b + length ns \<le> t" "t < length p" "t < 256"
  shows "run p d b acc = (if acc \<in> set ns then run p d t acc else run p d (b + length ns) acc)"
  using assms
proof (induction ns arbitrary: b)
  case Nil
  then show ?case by simp
next
  case (Cons n ns)
  have pb: "p ! b = jump (BPF_JMP OR BPF_JEQ OR BPF_K) n (of_nat (t - b - 1)) 0"
    using Cons.prems(1) [of 0] by simp
  have "unat (of_nat (t - b - 1) :: u8) = t - b - 1"
    using Cons.prems(4) by (simp add: unat_of_nat)
  then have step: "run p d b acc = run p d (if acc = n then t else b + 1) acc"
    using Cons.prems(2,3) by (subst jeq) (simp_all add: pb jump_def)
  have "run p d (Suc b) acc =
      (if acc \<in> set ns then run p d t acc else run p d (Suc b + length ns) acc)"
  proof (rule Cons.IH)
    fix i assume "i < length ns"
    then show "p ! (Suc b + i) =
        jump (BPF_JMP OR BPF_JEQ OR BPF_K) (ns ! i) (of_nat (t - (Suc b + i) - 1)) 0"
      using Cons.prems(1) [of "Suc i"] by simp
  qed (use Cons.prems in simp_all)
  with step show ?case by simp
qed

end

text \<open>The interpreter: forward jumps only, so the remaining program shrinks.\<close>

function bpf_exec :: "sock_filter list \<Rightarrow> seccomp_data \<Rightarrow> nat \<Rightarrow> u32 \<Rightarrow> u32 option" where
  "bpf_exec p d pc acc =
     (if pc < length p then
        (let i = p ! pc
         in if code i = 0x20 then
              (if k i = 0 then bpf_exec p d (pc + 1) (sd_nr d)
               else if k i = 4 then bpf_exec p d (pc + 1) (sd_arch d) else None)
            else if code i = 0x15 then
              bpf_exec p d (pc + 1 + unat (if acc = k i then jt i else jf i)) acc
            else if code i = 0x35 then
              bpf_exec p d (pc + 1 + unat (if k i \<le> acc then jt i else jf i)) acc
            else if code i = 0x06 then Some (k i) else None)
      else None)"
  by pat_completeness auto
termination
  by (relation "measure (\<lambda>(p, d, pc, acc). length p - pc)") auto

declare bpf_exec.simps [simp del]

interpretation bpf_vm: bpf_machine bpf_exec
  by unfold_locales (subst bpf_exec.simps, simp add: bpf_defs Let_def)+


section \<open>What the filter decides\<close>

text \<open>The decision the pseudo-assembly of the source describes.\<close>

definition verdict :: "arch \<Rightarrow> seccomp_mode \<Rightarrow> seccomp_data \<Rightarrow> u32" where
  "verdict a mode d =
     (if sd_arch d \<noteq> AUDIT_ARCH_NATIVE a then SECCOMP_RET_KILL_PROCESS
      else if a = X86_64 \<and> 0x40000000 \<le> sd_nr d then SECCOMP_RET_KILL_PROCESS
      else if sd_nr d \<in> set (denied_nrs a mode) then deny_action mode
      else SECCOMP_RET_ALLOW)"

lemma length_map_filter: "length (List.map_filter f xs) \<le> length xs"
  by (simp add: List.map_filter_def length_filter_le)

lemma length_denied_nrs: "length (denied_nrs a mode) \<le> 43"
proof -
  have "length (denied_syscalls mode) \<le> 43"
    by (cases mode) (simp_all add: DEFAULT_DENY_def STRICT_EXTRA_def)
  then show ?thesis
    unfolding denied_nrs_def using length_map_filter order_trans by blast
qed

definition first_check :: "arch \<Rightarrow> nat" where
  "first_check a = (if a = X86_64 then 4 else 3)"

text \<open>The program, instruction by instruction.\<close>

lemma build_filter_nth:
  fixes a mode
  defines "ns \<equiv> denied_nrs a mode" and "b \<equiv> first_check a"
  shows "\<exists>p. build_filter a mode = Ok p \<and> length p = b + length ns + 3
      \<and> p ! 0 = stmt (BPF_LD OR BPF_W OR BPF_ABS) 4
      \<and> p ! 1 = jump (BPF_JMP OR BPF_JEQ OR BPF_K) (AUDIT_ARCH_NATIVE a) 0 (of_nat (b + length ns))
      \<and> p ! 2 = stmt (BPF_LD OR BPF_W OR BPF_ABS) 0
      \<and> (a = X86_64 \<longrightarrow>
           p ! 3 = jump (BPF_JMP OR BPF_JGE OR BPF_K) 0x40000000 (of_nat (b + length ns - 2)) 0)
      \<and> (\<forall>i < length ns. p ! (b + i) = jump (BPF_JMP OR BPF_JEQ OR BPF_K) (ns ! i)
            (of_nat (b + length ns + 1 - (b + i) - 1)) 0)
      \<and> p ! (b + length ns) = stmt (BPF_RET OR BPF_K) SECCOMP_RET_ALLOW
      \<and> p ! (b + length ns + 1) = stmt (BPF_RET OR BPF_K) (deny_action mode)
      \<and> p ! (b + length ns + 2) = stmt (BPF_RET OR BPF_K) SECCOMP_RET_KILL_PROCESS"
proof -
  have len: "length ns \<le> 43" by (simp add: ns_def length_denied_nrs)
  show ?thesis
    using len unfolding build_filter_def first_check_def ns_def [symmetric] b_def
    by (cases a) (auto simp: Let_def nth_append nth_Cons' nth_enumerate_eq)
qed

lemma unat_u8: "m < 256 \<Longrightarrow> unat (of_nat m :: u8) = m"
  by (simp add: unat_of_nat)

text \<open>The same, for a program that was built.\<close>

lemma filter_layout:
  assumes "build_filter a mode = Ok p"
  shows "length p = first_check a + length (denied_nrs a mode) + 3"
    and "p ! 0 = stmt (BPF_LD OR BPF_W OR BPF_ABS) 4"
    and "p ! 1 = jump (BPF_JMP OR BPF_JEQ OR BPF_K) (AUDIT_ARCH_NATIVE a) 0 (of_nat (first_check a + length (denied_nrs a mode)))"
    and "p ! 2 = stmt (BPF_LD OR BPF_W OR BPF_ABS) 0"
    and "a = X86_64 \<Longrightarrow> p ! 3 = jump (BPF_JMP OR BPF_JGE OR BPF_K) 0x40000000 (of_nat (first_check a + length (denied_nrs a mode) - 2)) 0"
    and "i < length (denied_nrs a mode) \<Longrightarrow> p ! (first_check a + i) = jump (BPF_JMP OR BPF_JEQ OR BPF_K) (denied_nrs a mode ! i)
            (of_nat (first_check a + length (denied_nrs a mode) + 1 - (first_check a + i) - 1)) 0"
    and "p ! (first_check a + length (denied_nrs a mode)) = stmt (BPF_RET OR BPF_K) SECCOMP_RET_ALLOW"
    and "p ! (first_check a + length (denied_nrs a mode) + 1) = stmt (BPF_RET OR BPF_K) (deny_action mode)"
    and "p ! (first_check a + length (denied_nrs a mode) + 2) = stmt (BPF_RET OR BPF_K) SECCOMP_RET_KILL_PROCESS"
  using build_filter_nth [of a mode] assms by auto

lemma first_check_cases: "first_check a = 3 \<or> first_check a = 4"
  by (simp add: first_check_def)

context bpf_machine
begin

text \<open>The three verdicts at the end of the program.\<close>

lemma filter_returns:
  assumes "build_filter a mode = Ok p"
  shows "run p d (first_check a + length (denied_nrs a mode) + 2) x = Some SECCOMP_RET_KILL_PROCESS"
    and "run p d (first_check a + length (denied_nrs a mode) + 1) x = Some (deny_action mode)"
    and "run p d (first_check a + length (denied_nrs a mode)) x = Some SECCOMP_RET_ALLOW"
  by (subst ret; use filter_layout [OF assms] in \<open>simp add: stmt_def\<close>)+

text \<open>From the first comparison with a denied number on.\<close>

lemma filter_checks:
  assumes "build_filter a mode = Ok p"
  shows "run p d (first_check a) (sd_nr d) = Some (if sd_nr d \<in> set (denied_nrs a mode) then deny_action mode else SECCOMP_RET_ALLOW)"
proof -
  let ?ns = "denied_nrs a mode" and ?b = "first_check a"
  have "run p d ?b (sd_nr d) = (if sd_nr d \<in> set ?ns then run p d (?b + length ?ns + 1) (sd_nr d)
      else run p d (?b + length ?ns) (sd_nr d))"
    by (rule jeq_chain) (use filter_layout [OF assms] length_denied_nrs [of a mode] first_check_cases [of a] in auto)
  then show ?thesis using filter_returns [OF assms] by simp
qed

text \<open>From the loaded number on: the numbers of the other calling convention are killed.\<close>

lemma filter_guard:
  assumes "build_filter a mode = Ok p"
  shows "run p d 3 (sd_nr d) =
      (if a = X86_64 \<and> 0x40000000 \<le> sd_nr d then Some SECCOMP_RET_KILL_PROCESS else run p d (first_check a) (sd_nr d))"
proof (cases "a = X86_64")
  case True
  note p3 = filter_layout(5) [OF assms True]
  have b4: "first_check a = 4" using True by (simp add: first_check_def)
  have "unat (jt (p ! 3)) = first_check a + length (denied_nrs a mode) - 2"
    unfolding p3 jump_def sock_filter.select_convs by (rule unat_u8) (use length_denied_nrs [of a mode] b4 in simp)
  moreover have "code (p ! 3) = BPF_JMP OR BPF_JGE OR BPF_K" "k (p ! 3) = 0x40000000" "jf (p ! 3) = 0"
    by (simp_all add: p3 jump_def)
  ultimately show ?thesis
    using True b4 filter_layout(1) [OF assms] filter_returns(1) [OF assms] by (subst jge) (auto simp: add.commute)
next
  case False
  then show ?thesis by (simp add: first_check_def)
qed

text \<open>The architecture is compared first.\<close>

lemma filter_arch:
  assumes "build_filter a mode = Ok p"
  shows "run p d 1 (sd_arch d) = (if sd_arch d = AUDIT_ARCH_NATIVE a then run p d 2 (sd_arch d) else Some SECCOMP_RET_KILL_PROCESS)"
proof -
  note p1 = filter_layout(3) [OF assms]
  have "unat (jf (p ! 1)) = first_check a + length (denied_nrs a mode)"
    unfolding p1 jump_def sock_filter.select_convs
    by (rule unat_u8) (use length_denied_nrs [of a mode] first_check_cases [of a] in auto)
  moreover have "code (p ! 1) = BPF_JMP OR BPF_JEQ OR BPF_K" "k (p ! 1) = AUDIT_ARCH_NATIVE a" "jt (p ! 1) = 0"
    unfolding p1 jump_def by simp_all
  ultimately show ?thesis
    using filter_layout(1) [OF assms] filter_returns(1) [OF assms, of d "sd_arch d"]
    by (subst jeq) (auto simp: add.commute numeral_2_eq_2)
qed

lemma filter_verdict:
  assumes "build_filter a mode = Ok p"
  shows "run p d 0 acc = Some (verdict a mode d)"
proof -
  note layout = filter_layout [OF assms] and b = first_check_cases [of a]
  have "run p d 0 acc = run p d 1 (sd_arch d)"
    using layout(1,2) b by (subst ld_arch) (auto simp: stmt_def)
  also note filter_arch [OF assms]
  also have "run p d 2 x = run p d 3 (sd_nr d)" for x
    using layout(1,4) b by (subst ld_nr) (auto simp: stmt_def)
  finally show ?thesis
    by (simp add: verdict_def filter_guard [OF assms] filter_checks [OF assms])
qed

end

text \<open>
  \<open>docs/security.md\<close> (section 5) names the denied calls too, and its list is not that of the
  source.  \<open>DOC_ONLY\<close> holds the calls it lists that \<open>seccomp.rs\<close> does not deny, with their
  numbers of the two architectures (\<open>vm86\<close>, which it lists as well, has no number on
  either); \<open>DOC_SILENT\<close> those that \<open>seccomp.rs\<close> denies and it does not list.  \<open>ptrace\<close> is
  denied by default in the document, and in the strict mode only in the source.
\<close>

definition DOC_ONLY :: "(string \<times> int \<times> int) list" where
  "DOC_ONLY = [(''kcmp'', 312, 272), (''lookup_dcookie'', 212, 18), (''_sysctl'', 156, -1),
     (''userfaultfd'', 323, 282)]"

definition DOC_SILENT :: "string list" where
  "DOC_SILENT = [''open_by_handle_at'', ''name_to_handle_at'', ''quotactl'', ''uselib'']"

definition disputed :: "arch \<Rightarrow> seccomp_mode \<Rightarrow> u32 \<Rightarrow> bool" where
  "disputed a mode nr =
     (nr \<in> set (map (\<lambda>(_, x, y). of_int (case a of X86_64 \<Rightarrow> x | AArch64 \<Rightarrow> y)) DOC_ONLY)
      \<or> nr \<in> set (List.map_filter (syscall_nr a) DOC_SILENT)
      \<or> mode = Default \<and> syscall_nr a ''ptrace'' = Some nr)"

text \<open>
  C1: for both architectures and both filtering modes the assembled filter exists, and on
  every machine that gives the four BPF instructions their documented meaning it decides
  every system call.  A foreign architecture and the x32 numbers are killed.  Of the other
  calls, those on which the deny list of the source and that of \<open>docs/security.md\<close> differ
  are left out (\<open>disputed\<close>); a call of the mode's deny list fails with \<open>EPERM\<close> in the
  default mode and is refused, by \<open>EPERM\<close> or by killing the process, in the strict mode
  (the document promises \<open>EPERM\<close> there, the source kills); every other call is allowed.
  In particular no 8-bit jump offset is truncated.
\<close>

theorem filter_decides:
  assumes "bpf_machine run" and "mode \<noteq> Unconfined"
  shows "\<exists>p. build_filter a mode = Ok p \<and>
     (\<forall>d acc. \<exists>v. run p d 0 acc = Some v \<and>
        (if sd_arch d \<noteq> AUDIT_ARCH_NATIVE a \<or> a = X86_64 \<and> 0x40000000 \<le> sd_nr d
         then v = SECCOMP_RET_KILL_PROCESS
         else disputed a mode (sd_nr d) \<or>
           (if sd_nr d \<in> set (denied_nrs a mode)
            then v = SECCOMP_RET_ERRNO OR EPERM \<or> mode = Strict \<and> v = SECCOMP_RET_KILL_PROCESS
            else v = SECCOMP_RET_ALLOW)))"
proof -
  obtain p where p: "build_filter a mode = Ok p" using build_filter_nth [of a mode] by blast
  note run = bpf_machine.filter_verdict [OF assms(1) p]
  have "deny_action mode = SECCOMP_RET_ERRNO OR EPERM \<or> mode = Strict \<and> deny_action mode = SECCOMP_RET_KILL_PROCESS"
    by (simp add: deny_action_def seccomp_ret_defs)
  then show ?thesis
    using assms(2) p by (intro exI [of _ p]) (auto simp: run verdict_def)
qed

theorem filter_decides_witness:
  "\<exists>p. build_filter X86_64 Default = Ok p
     \<and> bpf_exec p \<lparr>sd_nr = 165, sd_arch = 0xc000003e\<rparr> 0 0 = Some 0x50001
     \<and> bpf_exec p \<lparr>sd_nr = 0, sd_arch = 0xc000003e\<rparr> 0 0 = Some 0x7fff0000"
proof -
  have c: "\<not> disputed X86_64 Default 165" "\<not> disputed X86_64 Default 0"
    "165 \<in> set (denied_nrs X86_64 Default)" "0 \<notin> set (denied_nrs X86_64 Default)"
    "\<not> (0x40000000 :: u32) \<le> 165" "\<not> (0x40000000 :: u32) \<le> 0"
    by code_simp+
  obtain p where p: "build_filter X86_64 Default = Ok p" and
    r: "\<forall>d acc. \<exists>v. bpf_exec p d 0 acc = Some v \<and>
        (if sd_arch d \<noteq> AUDIT_ARCH_NATIVE X86_64 \<or> X86_64 = X86_64 \<and> 0x40000000 \<le> sd_nr d
         then v = SECCOMP_RET_KILL_PROCESS
         else disputed X86_64 Default (sd_nr d) \<or>
           (if sd_nr d \<in> set (denied_nrs X86_64 Default)
            then v = SECCOMP_RET_ERRNO OR EPERM \<or> Default = Strict \<and> v = SECCOMP_RET_KILL_PROCESS
            else v = SECCOMP_RET_ALLOW))"
    using filter_decides [OF bpf_vm.bpf_machine_axioms, of Default X86_64] by blast
  have "bpf_exec p \<lparr>sd_nr = 165, sd_arch = 0xc000003e\<rparr> 0 0 = Some 0x50001"
    using r [rule_format, of "\<lparr>sd_nr = 165, sd_arch = 0xc000003e\<rparr>" 0] c by (auto simp: seccomp_ret_defs)
  moreover have "bpf_exec p \<lparr>sd_nr = 0, sd_arch = 0xc000003e\<rparr> 0 0 = Some 0x7fff0000"
    using r [rule_format, of "\<lparr>sd_nr = 0, sd_arch = 0xc000003e\<rparr>" 0] c by (auto simp: seccomp_ret_defs)
  ultimately show ?thesis using p by blast
qed

lemma deny_lists_have_entries:
  "DEFAULT_DENY = map fst (take 39 SYSCALLS)" "STRICT_EXTRA = map fst (drop 39 SYSCALLS)"
  by (simp_all add: DEFAULT_DENY_def STRICT_EXTRA_def SYSCALLS_def)

lemma syscall_nr_x86_total: "n \<in> fst ` set SYSCALLS \<Longrightarrow> syscall_nr X86_64 n \<noteq> None"
proof -
  assume "n \<in> fst ` set SYSCALLS"
  then obtain e where e: "List.find (\<lambda>(m, _, _). m = n) SYSCALLS = Some e"
    by (cases "List.find (\<lambda>(m, _, _). m = n) SYSCALLS") (force simp: find_None_iff)+
  then have "e \<in> set SYSCALLS" by (metis find_Some_iff nth_mem)
  moreover have "\<forall>(_, x, _) \<in> set SYSCALLS. 0 \<le> x" by (simp add: SYSCALLS_def)
  ultimately have "0 \<le> fst (snd e)" by fastforce
  with e show ?thesis by (cases e) (simp add: syscall_nr_def Let_def)
qed

lemma denied_syscalls_known: "n \<in> set (denied_syscalls mode) \<Longrightarrow> n \<in> fst ` set SYSCALLS"
  by (cases mode) (auto simp: deny_lists_have_entries dest: in_set_takeD in_set_dropD)

lemma length_map_filter_total: "(\<And>x. x \<in> set xs \<Longrightarrow> f x \<noteq> None) \<Longrightarrow> length (List.map_filter f xs) = length xs"
  by (induction xs) (auto simp: map_filter_simps split: option.splits)

text \<open>
  The strict mode denies every system call the default mode denies, and neither mode
  skips a name of its list for lack of a number on x86-64.
\<close>

theorem strict_extends_default:
  "set (denied_nrs a Default) \<subseteq> set (denied_nrs a Strict) \<and>
   length (denied_nrs X86_64 mode) = length (denied_syscalls mode)"
proof
  show "set (denied_nrs a Default) \<subseteq> set (denied_nrs a Strict)"
    by (auto simp: denied_nrs_def List.map_filter_def)
  show "length (denied_nrs X86_64 mode) = length (denied_syscalls mode)"
    unfolding denied_nrs_def
    by (rule length_map_filter_total) (rule syscall_nr_x86_total, rule denied_syscalls_known)
qed

end
