(* ===== verification/Config_Model.thy ===== *)
theory Config_Model
  imports Util Json_Laws Netlink Caps Seccomp
begin

text \<open>
  \<open>src/config.rs\<close>: the configuration of a container, its JSON form, the parsing of port
  mappings, mounts and users, and the validation every configuration passes before anything
  is created.  What validation asks of the host (canonical paths, existing files, entropy)
  is the record \<open>host\<close>.  Constructors that clash with HOL are renamed: \<open>NetworkMode::None\<close>
  is \<open>NetNone\<close>.
\<close>

section \<open>JSON helpers\<close>

text \<open>A sequence of \<open>o.set(k, v)\<close> on a new object.\<close>

definition json_build :: "(string \<times> json) list \<Rightarrow> json" where
  "json_build kvs = foldl (\<lambda>o' (key, v). json_set key v o') json_obj kvs"

definition opt_str :: "string option \<Rightarrow> json" where
  "opt_str v = (case v of Some s \<Rightarrow> Str s | None \<Rightarrow> Null)"

definition opt_u64 :: "u64 option \<Rightarrow> json" where
  "opt_u64 v = (case v of Some n \<Rightarrow> JInt n | None \<Rightarrow> Null)"

definition get_str :: "json \<Rightarrow> string \<Rightarrow> string option" where
  "get_str j key = Option.bind (json_get j key) as_str"

definition get_u64 :: "json \<Rightarrow> string \<Rightarrow> u64 option" where
  "get_u64 j key = Option.bind (json_get j key) as_u64"

definition get_bool :: "json \<Rightarrow> string \<Rightarrow> bool option" where
  "get_bool j key = Option.bind (json_get j key) as_bool"

definition get_array :: "json \<Rightarrow> string \<Rightarrow> json list option" where
  "get_array j key = Option.bind (json_get j key) as_array"

text \<open>\<open>filter_map(|v| v.as_str())\<close>.\<close>

definition strs_of :: "json list \<Rightarrow> string list" where
  "strs_of a = List.map_filter as_str a"

definition or_else :: "'a option \<Rightarrow> 'a option \<Rightarrow> 'a option" where
  "or_else a b = (case a of Some x \<Rightarrow> Some x | None \<Rightarrow> b)"

section \<open>Network mode, port mappings and mounts\<close>

definition DEFAULT_BRIDGE :: string where "DEFAULT_BRIDGE = ''myrun0''"
definition DEFAULT_SUBNET :: string where "DEFAULT_SUBNET = ''10.87.0.0/24''"
definition DEFAULT_MTU :: u32 where "DEFAULT_MTU = 1500"
definition DEFAULT_PATH :: string where
  "DEFAULT_PATH = ''/usr/local/sbin:/usr/local/bin:/usr/sbin:/usr/bin:/sbin:/bin''"

definition DEFAULT_MASKED_PATHS :: "string list" where
  "DEFAULT_MASKED_PATHS =
     [''/proc/kcore'', ''/proc/keys'', ''/proc/latency_stats'', ''/proc/timer_list'',
      ''/proc/timer_stats'', ''/proc/sched_debug'', ''/proc/scsi'', ''/sys/firmware'',
      ''/sys/devices/virtual/powercap'']"

definition DEFAULT_READONLY_PATHS :: "string list" where
  "DEFAULT_READONLY_PATHS =
     [''/proc/bus'', ''/proc/fs'', ''/proc/irq'', ''/proc/sys'', ''/proc/sysrq-trigger'']"

datatype network_mode = NetNone | Bridge | Host

definition network_mode_parse :: "string \<Rightarrow> network_mode res" where
  "network_mode_parse s =
     (let t = to_ascii_lowercase (str_trim s)
      in if t = ''none'' then Ok NetNone
         else if t = ''bridge'' then Ok Bridge
         else if t = ''host'' then Ok Host
         else Err (Config (''unknown network mode '' @ debug_str t @ '' (expected none|bridge|host)'')))"

fun network_mode_as_str :: "network_mode \<Rightarrow> string" where
  "network_mode_as_str NetNone = ''none''"
| "network_mode_as_str Bridge = ''bridge''"
| "network_mode_as_str Host = ''host''"

record port_mapping =
  host_port :: u16
  container_port :: u16
  protocol :: string

definition port_mapping_parse :: "string \<Rightarrow> port_mapping res" where
  "port_mapping_parse s =
     (let (spec, proto) = (case split_once s (CHR ''/'') of
            Some (a, p) \<Rightarrow> (a, to_ascii_lowercase p)
          | None \<Rightarrow> (s, ''tcp''))
      in if proto \<noteq> ''tcp'' \<and> proto \<noteq> ''udp''
         then Err (Config (''unsupported protocol '' @ debug_str proto @ '' in port mapping '' @ debug_str s))
         else
           (let (h, c) = (case split_once spec (CHR '':'') of Some (a, b) \<Rightarrow> (a, b) | None \<Rightarrow> (spec, spec))
            in r_bind (ok_or (Config (''invalid host port in '' @ debug_str s)) (parse_u16 (str_trim h))) (\<lambda>hp.
               r_bind (ok_or (Config (''invalid container port in '' @ debug_str s)) (parse_u16 (str_trim c))) (\<lambda>cp.
                 if hp = 0 \<or> cp = 0 then Err (Config ''port 0 is not valid in a mapping'')
                 else Ok \<lparr>host_port = hp, container_port = cp, protocol = proto\<rparr>))))"

definition port_mapping_to_json :: "port_mapping \<Rightarrow> json" where
  "port_mapping_to_json p = json_build
     [(''host_port'', JInt (ucast (host_port p))), (''container_port'', JInt (ucast (container_port p))),
      (''protocol'', Str (protocol p))]"

record mount_spec =
  m_source :: string
  m_destination :: string
  m_fstype :: string
  m_readonly :: bool

definition mount_spec_parse :: "string \<Rightarrow> mount_spec res" where
  "mount_spec_parse s =
     (let parts = str_split s (CHR '':'')
      in if length parts < 2 \<or> length parts > 3
         then Err (Config (''invalid mount '' @ debug_str s @ ''; expected source:destination[:ro]''))
         else
           r_bind (if length parts < 3 then Ok False
                   else if parts ! 2 = ''ro'' then Ok True
                   else if parts ! 2 = ''rw'' then Ok False
                   else Err (Config (''invalid mount option '' @ debug_str (parts ! 2) @ '' (expected ro or rw)'')))
             (\<lambda>ro.
               if \<not> starts_with (parts ! 1) ''/''
               then Err (Config (''mount destination '' @ debug_str (parts ! 1) @ '' must be absolute''))
               else Ok \<lparr>m_source = parts ! 0, m_destination = parts ! 1,
                 m_fstype = (if parts ! 0 = ''tmpfs'' then ''tmpfs'' else ''bind''), m_readonly = ro\<rparr>))"

definition mount_spec_to_json :: "mount_spec \<Rightarrow> json" where
  "mount_spec_to_json m = json_build
     [(''source'', Str (m_source m)), (''destination'', Str (m_destination m)),
      (''type'', Str (m_fstype m)), (''readonly'', Bool (m_readonly m))]"

section \<open>Resources\<close>

record resources =
  r_memory :: "u64 option"
  r_memory_swap :: "u64 option"
  r_cpus :: "f64 option"
  r_cpu_weight :: "u64 option"
  r_pids :: "u64 option"

definition resources_default :: resources where
  "resources_default = \<lparr>r_memory = None, r_memory_swap = None, r_cpus = None, r_cpu_weight = None, r_pids = None\<rparr>"

definition CPU_PERIOD_US :: nat where "CPU_PERIOD_US = 100000"

definition cpu_max_value :: "resources \<Rightarrow> string option" where
  "cpu_max_value r = map_option (\<lambda>c.
     let quota = f64_as_u64 (f64_round (f64_mul c (f64_of_nat CPU_PERIOD_US)))
     in show_nat (unat (max quota 1000)) @ '' '' @ show_nat CPU_PERIOD_US) (r_cpus r)"

definition resources_is_empty :: "resources \<Rightarrow> bool" where
  "resources_is_empty r \<longleftrightarrow> r_memory r = None \<and> r_memory_swap r = None \<and> r_cpus r = None \<and>
     r_cpu_weight r = None \<and> r_pids r = None"

definition resources_to_json :: "resources \<Rightarrow> json" where
  "resources_to_json r = json_build
     [(''memory'', opt_u64 (r_memory r)), (''memory_swap'', opt_u64 (r_memory_swap r)),
      (''cpus'', case r_cpus r of Some f \<Rightarrow> Float f | None \<Rightarrow> Null),
      (''cpu_weight'', opt_u64 (r_cpu_weight r)), (''pids'', opt_u64 (r_pids r))]"

definition num_or_size :: "json \<Rightarrow> string \<Rightarrow> u64 option res" where
  "num_or_size j key =
     (case json_get j key of
        None \<Rightarrow> Ok None
      | Some v \<Rightarrow> (case v of Null \<Rightarrow> Ok None | Str s \<Rightarrow> parse_size s | _ \<Rightarrow> Ok (as_u64 v)))"

definition resources_from_json :: "json \<Rightarrow> resources res" where
  "resources_from_json j =
     r_bind (num_or_size j ''memory'') (\<lambda>mem.
     r_bind (num_or_size j ''memory_swap'') (\<lambda>sw.
       Ok \<lparr>r_memory = mem, r_memory_swap = sw,
           r_cpus = Option.bind (json_get j ''cpus'') as_f64,
           r_cpu_weight = get_u64 j ''cpu_weight'',
           r_pids = get_u64 j ''pids''\<rparr>))"

section \<open>Network configuration\<close>

record network_config =
  n_mode :: network_mode
  n_bridge :: string
  n_subnet :: string
  n_ip :: "string option"
  n_gateway :: "string option"
  n_mtu :: u32
  n_publish :: "port_mapping list"
  n_nat :: bool
  n_dns :: "string list"

definition network_default :: network_config where
  "network_default = \<lparr>n_mode = NetNone, n_bridge = DEFAULT_BRIDGE, n_subnet = DEFAULT_SUBNET,
     n_ip = None, n_gateway = None, n_mtu = DEFAULT_MTU, n_publish = [], n_nat = True,
     n_dns = [''1.1.1.1'', ''8.8.8.8'']\<rparr>"

text \<open>The addition wraps, as in a release build; \<open>finalize_and_validate\<close> excludes the case.\<close>

definition gateway_addr :: "network_config \<Rightarrow> ipv4 res" where
  "gateway_addr n =
     (case n_gateway n of
        Some g \<Rightarrow> parse_ipv4 g
      | None \<Rightarrow> r_bind (parse_cidr (n_subnet n)) (\<lambda>(net, prefix).
          Ok (to_be_bytes ((from_be_bytes net AND prefix_mask prefix) + 1))))"

definition network_to_json :: "network_config \<Rightarrow> json" where
  "network_to_json n = json_build
     [(''mode'', Str (network_mode_as_str (n_mode n))), (''bridge'', Str (n_bridge n)),
      (''subnet'', Str (n_subnet n)), (''ip'', opt_str (n_ip n)), (''gateway'', opt_str (n_gateway n)),
      (''mtu'', JInt (ucast (n_mtu n))), (''publish'', Arr (map port_mapping_to_json (n_publish n))),
      (''nat'', Bool (n_nat n)), (''dns'', json_strings (n_dns n))]"

definition publish_entry :: "json \<Rightarrow> port_mapping res" where
  "publish_entry p =
     (case as_str p of
        Some s \<Rightarrow> port_mapping_parse s
      | None \<Rightarrow>
          r_bind (ok_or (Config ''publish entry needs a host port'')
              (Option.bind (or_else (json_get p ''host'') (json_get p ''host_port'')) as_u64)) (\<lambda>h.
          r_bind (ok_or (Config ''publish entry needs a container port'')
              (Option.bind (or_else (json_get p ''container'') (json_get p ''container_port'')) as_u64)) (\<lambda>c.
            Ok \<lparr>host_port = ucast h, container_port = ucast c,
                protocol = unwrap_or ''tcp'' (get_str p ''protocol'')\<rparr>)))"

definition network_from_json :: "json \<Rightarrow> network_config res" where
  "network_from_json j =
     (let n = network_default
      in r_bind (case get_str j ''mode'' of Some m \<Rightarrow> network_mode_parse m | None \<Rightarrow> Ok (n_mode n)) (\<lambda>mode.
         r_bind (case get_array j ''publish'' of Some arr \<Rightarrow> r_mapM publish_entry arr | None \<Rightarrow> Ok (n_publish n)) (\<lambda>publ.
           Ok \<lparr>n_mode = mode,
               n_bridge = unwrap_or (n_bridge n) (get_str j ''bridge''),
               n_subnet = unwrap_or (n_subnet n) (get_str j ''subnet''),
               n_ip = get_str j ''ip'',
               n_gateway = get_str j ''gateway'',
               n_mtu = (case get_u64 j ''mtu'' of Some v \<Rightarrow> ucast v | None \<Rightarrow> n_mtu n),
               n_publish = publ,
               n_nat = unwrap_or (n_nat n) (get_bool j ''nat''),
               n_dns = (case get_array j ''dns'' of Some a \<Rightarrow> strs_of a | None \<Rightarrow> n_dns n)\<rparr>)))"

section \<open>Security configuration\<close>

record security_config =
  s_no_new_privs :: bool
  s_cap_add :: "string list"
  s_cap_drop :: "string list"
  s_seccomp :: seccomp_mode
  s_masked_paths :: "string list"
  s_readonly_paths :: "string list"
  s_user :: "(u32 \<times> u32) option"
  s_privileged :: bool

definition security_default :: security_config where
  "security_default = \<lparr>s_no_new_privs = True, s_cap_add = [], s_cap_drop = [], s_seccomp = Default,
     s_masked_paths = DEFAULT_MASKED_PATHS, s_readonly_paths = DEFAULT_READONLY_PATHS,
     s_user = None, s_privileged = False\<rparr>"

definition cap_mask :: "security_config \<Rightarrow> u64 res" where
  "cap_mask s =
     (if s_privileged s then Ok all_caps
      else r_bind (resolve_keep_set DEFAULT_KEEP (s_cap_add s) (s_cap_drop s)) (\<lambda>msk.
        if s_user s \<noteq> None
        then r_bind (parse_cap ''SETUID'') (\<lambda>u. r_bind (parse_cap ''SETGID'') (\<lambda>g.
               Ok (msk OR shl1 u OR shl1 g)))
        else Ok msk))"

definition security_to_json :: "security_config \<Rightarrow> json" where
  "security_to_json s = json_build
     [(''no_new_privs'', Bool (s_no_new_privs s)), (''cap_add'', json_strings (s_cap_add s)),
      (''cap_drop'', json_strings (s_cap_drop s)), (''seccomp'', Str (seccomp_as_str (s_seccomp s))),
      (''masked_paths'', json_strings (s_masked_paths s)),
      (''readonly_paths'', json_strings (s_readonly_paths s)),
      (''user'', case s_user s of
          Some (u, g) \<Rightarrow> Str (show_nat (unat u) @ '':'' @ show_nat (unat g))
        | None \<Rightarrow> Null),
      (''privileged'', Bool (s_privileged s))]"

definition user_err :: "string \<Rightarrow> error" where
  "user_err s = Config (''--user expects numeric uid[:gid], got '' @ debug_str s)"

definition parse_user :: "string \<Rightarrow> (u32 \<times> u32) res" where
  "parse_user s =
     (let (u, g) = (case split_once s (CHR '':'') of Some (a, b) \<Rightarrow> (a, Some b) | None \<Rightarrow> (s, None))
      in r_bind (ok_or (user_err s) (parse_u32 (str_trim u))) (\<lambda>uid.
           r_bind (case g of
               Some g' \<Rightarrow> ok_or (user_err s) (parse_u32 (str_trim g'))
             | None \<Rightarrow> Ok uid) (\<lambda>gid. Ok (uid, gid))))"

definition get_strings :: "json \<Rightarrow> string \<Rightarrow> string list option" where
  "get_strings j key = map_option strs_of (get_array j key)"

definition security_from_json :: "json \<Rightarrow> security_config res" where
  "security_from_json j =
     (let s = security_default
      in r_bind (case get_str j ''seccomp'' of Some v \<Rightarrow> seccomp_parse v | None \<Rightarrow> Ok (s_seccomp s)) (\<lambda>sm.
         r_bind (case get_str j ''user'' of Some v \<Rightarrow> r_map Some (parse_user v) | None \<Rightarrow> Ok (s_user s)) (\<lambda>usr.
           Ok \<lparr>s_no_new_privs = unwrap_or (s_no_new_privs s) (get_bool j ''no_new_privs''),
               s_cap_add = unwrap_or (s_cap_add s) (get_strings j ''cap_add''),
               s_cap_drop = unwrap_or (s_cap_drop s) (get_strings j ''cap_drop''),
               s_seccomp = sm,
               s_masked_paths = unwrap_or (s_masked_paths s) (get_strings j ''masked_paths''),
               s_readonly_paths = unwrap_or (s_readonly_paths s) (get_strings j ''readonly_paths''),
               s_user = usr,
               s_privileged = unwrap_or (s_privileged s) (get_bool j ''privileged'')\<rparr>)))"

section \<open>Namespaces\<close>

definition CLONE_NEWNS :: u64 where "CLONE_NEWNS = 0x00020000"
definition CLONE_NEWCGROUP :: u64 where "CLONE_NEWCGROUP = 0x02000000"
definition CLONE_NEWUTS :: u64 where "CLONE_NEWUTS = 0x04000000"
definition CLONE_NEWIPC :: u64 where "CLONE_NEWIPC = 0x08000000"
definition CLONE_NEWPID :: u64 where "CLONE_NEWPID = 0x20000000"
definition CLONE_NEWNET :: u64 where "CLONE_NEWNET = 0x40000000"

record namespaces =
  ns_pid :: bool
  ns_mount :: bool
  ns_uts :: bool
  ns_ipc :: bool
  ns_net :: bool
  ns_cgroup :: bool

definition namespaces_default :: namespaces where
  "namespaces_default = \<lparr>ns_pid = True, ns_mount = True, ns_uts = True, ns_ipc = True,
     ns_net = True, ns_cgroup = True\<rparr>"

definition flag_if :: "bool \<Rightarrow> u64 \<Rightarrow> u64 \<Rightarrow> u64" where
  "flag_if b fl f = (if b then f OR fl else f)"

definition clone_flags :: "namespaces \<Rightarrow> u64" where
  "clone_flags n =
     flag_if (ns_cgroup n) CLONE_NEWCGROUP
    (flag_if (ns_net n) CLONE_NEWNET
    (flag_if (ns_ipc n) CLONE_NEWIPC
    (flag_if (ns_uts n) CLONE_NEWUTS
    (flag_if (ns_mount n) CLONE_NEWNS
    (flag_if (ns_pid n) CLONE_NEWPID 0)))))"

definition namespaces_to_json :: "namespaces \<Rightarrow> json" where
  "namespaces_to_json n = json_build
     [(''pid'', Bool (ns_pid n)), (''mount'', Bool (ns_mount n)), (''uts'', Bool (ns_uts n)),
      (''ipc'', Bool (ns_ipc n)), (''net'', Bool (ns_net n)), (''cgroup'', Bool (ns_cgroup n))]"

definition namespaces_from_json :: "json \<Rightarrow> namespaces" where
  "namespaces_from_json j =
     (let n = namespaces_default
      in \<lparr>ns_pid = unwrap_or (ns_pid n) (get_bool j ''pid''),
          ns_mount = unwrap_or (ns_mount n) (get_bool j ''mount''),
          ns_uts = unwrap_or (ns_uts n) (get_bool j ''uts''),
          ns_ipc = unwrap_or (ns_ipc n) (get_bool j ''ipc''),
          ns_net = unwrap_or (ns_net n) (get_bool j ''net''),
          ns_cgroup = unwrap_or (ns_cgroup n) (get_bool j ''cgroup'')\<rparr>)"

section \<open>The container configuration\<close>

record container_config =
  c_id :: string
  c_name :: "string option"
  c_rootfs :: string
  c_command :: "string list"
  c_env :: "string list"
  c_cwd :: string
  c_hostname :: string
  c_read_only :: bool
  c_mounts :: "mount_spec list"
  c_resources :: resources
  c_network :: network_config
  c_security :: security_config
  c_namespaces :: namespaces
  c_detach :: bool
  c_auto_remove :: bool
  c_labels :: "(string \<times> string) list"

definition config_default :: container_config where
  "config_default = \<lparr>c_id = [], c_name = None, c_rootfs = [], c_command = [],
     c_env = [''PATH='' @ DEFAULT_PATH, ''TERM=xterm''], c_cwd = ''/'', c_hostname = [],
     c_read_only = False, c_mounts = [], c_resources = resources_default,
     c_network = network_default, c_security = security_default,
     c_namespaces = namespaces_default, c_detach = False, c_auto_remove = False, c_labels = []\<rparr>"

text \<open>\<open>set_env\<close> and \<open>env_value\<close>, on the list of \<open>KEY=VALUE\<close> entries.\<close>

definition env_key :: "string \<Rightarrow> string" where
  "env_key kv = (case split_once kv (CHR ''='') of Some (key, _) \<Rightarrow> key | None \<Rightarrow> kv)"

definition set_env :: "string \<Rightarrow> string list \<Rightarrow> string list" where
  "set_env kv env = filter (\<lambda>e. \<not> starts_with e (env_key kv @ ''='')) env @ [kv]"

definition env_value :: "string list \<Rightarrow> string \<Rightarrow> string option" where
  "env_value env key =
     map_option (drop (length (key @ ''=''))) (List.find (\<lambda>e. starts_with e (key @ ''='')) env)"

definition mount_entry :: "json \<Rightarrow> mount_spec res" where
  "mount_entry m =
     (case as_str m of
        Some s \<Rightarrow> mount_spec_parse s
      | None \<Rightarrow>
          r_bind (ok_or (Config ''mount entry needs a source'') (get_str m ''source'')) (\<lambda>src.
          r_bind (ok_or (Config ''mount entry needs a destination'') (get_str m ''destination'')) (\<lambda>dst.
            Ok \<lparr>m_source = src, m_destination = dst,
                m_fstype = unwrap_or ''bind'' (get_str m ''type''),
                m_readonly = unwrap_or False (get_bool m ''readonly'')\<rparr>)))"

text \<open>The string-valued entries of an object, in order.\<close>

definition str_pairs :: "json option \<Rightarrow> (string \<times> string) list" where
  "str_pairs j = (case j of
      Some (Obj pairs) \<Rightarrow> List.map_filter (\<lambda>(key, v). map_option (Pair key) (as_str v)) pairs
    | _ \<Rightarrow> [])"

definition command_of :: "json \<Rightarrow> string list \<Rightarrow> string list" where
  "command_of j dflt = (case get_array j ''command'' of
      Some a \<Rightarrow> strs_of a
    | None \<Rightarrow> (case get_str j ''command'' of Some s \<Rightarrow> [s] | None \<Rightarrow> dflt))"

definition config_from_json :: "json \<Rightarrow> container_config res" where
  "config_from_json j =
     (let c = config_default;
          env1 = foldl (\<lambda>e kv. set_env kv e) (c_env c)
            (case get_array j ''env'' of Some a \<Rightarrow> strs_of a | None \<Rightarrow> []);
          env2 = foldl (\<lambda>e (key, v). set_env (key @ ''='' @ v) e) env1 (str_pairs (json_get j ''environment''))
      in r_bind (case get_array j ''mounts'' of Some a \<Rightarrow> r_mapM mount_entry a | None \<Rightarrow> Ok []) (\<lambda>mounts.
         r_bind (case json_get j ''resources'' of Some r \<Rightarrow> resources_from_json r | None \<Rightarrow> Ok (c_resources c)) (\<lambda>res.
         r_bind (case json_get j ''network'' of Some n \<Rightarrow> network_from_json n | None \<Rightarrow> Ok (c_network c)) (\<lambda>net.
         r_bind (case json_get j ''security'' of Some s \<Rightarrow> security_from_json s | None \<Rightarrow> Ok (c_security c)) (\<lambda>sec.
           Ok \<lparr>c_id = unwrap_or (c_id c) (get_str j ''id''),
               c_name = get_str j ''name'',
               c_rootfs = unwrap_or (c_rootfs c) (get_str j ''rootfs''),
               c_command = command_of j (c_command c),
               c_env = env2,
               c_cwd = unwrap_or (c_cwd c)
                 (Option.bind (or_else (json_get j ''cwd'') (json_get j ''workdir'')) as_str),
               c_hostname = unwrap_or (c_hostname c) (get_str j ''hostname''),
               c_read_only = unwrap_or (c_read_only c) (get_bool j ''read_only''),
               c_mounts = mounts,
               c_resources = res,
               c_network = net,
               c_security = sec,
               c_namespaces = (case json_get j ''namespaces'' of
                   Some n \<Rightarrow> namespaces_from_json n | None \<Rightarrow> c_namespaces c),
               c_detach = c_detach c,
               c_auto_remove = unwrap_or (c_auto_remove c) (get_bool j ''auto_remove''),
               c_labels = str_pairs (json_get j ''labels'')\<rparr>)))))"

definition config_to_json :: "container_config \<Rightarrow> json" where
  "config_to_json c = json_build
     [(''id'', Str (c_id c)), (''name'', opt_str (c_name c)), (''rootfs'', Str (c_rootfs c)),
      (''command'', json_strings (c_command c)), (''env'', json_strings (c_env c)),
      (''cwd'', Str (c_cwd c)), (''hostname'', Str (c_hostname c)),
      (''read_only'', Bool (c_read_only c)), (''auto_remove'', Bool (c_auto_remove c)),
      (''mounts'', Arr (map mount_spec_to_json (c_mounts c))),
      (''resources'', resources_to_json (c_resources c)),
      (''network'', network_to_json (c_network c)),
      (''security'', security_to_json (c_security c)),
      (''namespaces'', namespaces_to_json (c_namespaces c)),
      (''labels'', foldl (\<lambda>o' (key, v). json_set key (Str v) o') json_obj (c_labels c))]"

section \<open>Validation\<close>

text \<open>
  What validation asks of the host: the inputs of \<open>generate_id\<close>, \<open>canonicalize\<close> with the
  text of its error, and whether a path is a directory or exists.
\<close>

record host =
  h_entropy :: "u8 list option"
  h_nanos :: u64
  h_pid :: u32
  h_canon :: "string \<Rightarrow> (string, string) result"
  h_is_dir :: "string \<Rightarrow> bool"
  h_exists :: "string \<Rightarrow> bool"

definition ensure :: "bool \<Rightarrow> string \<Rightarrow> unit res" where
  "ensure b msg = (if b then Ok () else Err (Config msg))"

definition in_subnet :: "ipv4 \<Rightarrow> ipv4 \<Rightarrow> u8 \<Rightarrow> bool" where
  "in_subnet addr net prefix \<longleftrightarrow>
     from_be_bytes addr AND prefix_mask prefix = from_be_bytes net AND prefix_mask prefix"

definition hostname_char :: "char \<Rightarrow> bool" where
  "hostname_char c \<longleftrightarrow> is_ascii_alphanumeric c \<or> c = CHR ''-'' \<or> c = CHR ''.''"

text \<open>Id, name, host name and environment.\<close>

definition finalize_identity :: "host \<Rightarrow> container_config \<Rightarrow> container_config res" where
  "finalize_identity h c =
     (let i = (if c_id c = [] then generate_id (h_entropy h) (h_nanos h) (h_pid h) else c_id c)
      in r_bind (validate_id i) (\<lambda>_.
         r_bind (case c_name c of Some n \<Rightarrow> validate_id n | None \<Rightarrow> Ok ()) (\<lambda>_.
         let hn = (if c_hostname c = [] then unwrap_or (short_id i) (c_name c) else c_hostname c)
         in r_bind (ensure (length hn \<le> 64) ''hostname must be at most 64 characters'') (\<lambda>_.
            r_bind (ensure (list_all hostname_char hn)
                (''hostname '' @ debug_str hn @ '' contains invalid characters'')) (\<lambda>_.
              Ok (c\<lparr>c_id := i, c_hostname := hn, c_env := set_env (''HOSTNAME='' @ hn) (c_env c)\<rparr>))))))"

definition validate_command :: "container_config \<Rightarrow> unit res" where
  "validate_command c =
     r_bind (ensure (c_command c \<noteq> []) ''no command given for the container'') (\<lambda>_.
     r_bind (ensure (hd (c_command c) \<noteq> []) ''container command is empty'') (\<lambda>_.
       ensure (starts_with (c_cwd c) ''/'')
         (''working directory '' @ debug_str (c_cwd c) @ '' must be absolute'')))"

definition finalize_rootfs :: "host \<Rightarrow> container_config \<Rightarrow> container_config res" where
  "finalize_rootfs h c =
     r_bind (ensure (c_rootfs c \<noteq> []) ''no rootfs given'') (\<lambda>_.
     r_bind (r_map_err (\<lambda>e. Config (c_rootfs c @ '': '' @ e)) (h_canon h (c_rootfs c))) (\<lambda>canon.
     r_bind (ensure (h_is_dir h canon) (''rootfs '' @ canon @ '' is not a directory'')) (\<lambda>_.
     r_bind (ensure (canon \<noteq> ''/'')
         ''refusing to use / as a container rootfs; pivot_root would detach the host'') (\<lambda>_.
       Ok (c\<lparr>c_rootfs := canon\<rparr>)))))"

definition validate_mounts :: "host \<Rightarrow> mount_spec list \<Rightarrow> unit res" where
  "validate_mounts h ms = r_fold (\<lambda>m _.
     ensure (\<not> (m_fstype m = ''bind'' \<and> \<not> h_exists h (m_source m)))
       (''bind mount source '' @ m_source m @ '' does not exist'')) ms ()"

definition validate_resources :: "resources \<Rightarrow> unit res" where
  "validate_resources r =
     r_bind (case r_memory r of
         Some mem \<Rightarrow> ensure (\<not> mem < 512 * 1024)
           ''memory limit must be at least 512k; smaller values make the kernel OOM-kill the container immediately''
       | None \<Rightarrow> Ok ()) (\<lambda>_.
     r_bind (case (r_memory_swap r, r_memory r) of
         (Some sw, Some mem) \<Rightarrow> ensure (\<not> sw < mem) ''memory-swap must be greater than or equal to memory''
       | _ \<Rightarrow> Ok ()) (\<lambda>_.
     r_bind (case r_cpus r of
         Some c \<Rightarrow>
           r_bind (ensure (is_finite c \<and> f64_lt (f64_of_nat 0) c) ''--cpus must be a positive number'') (\<lambda>_.
             ensure (\<not> f64_lt (f64_of_nat 1024) c) ''--cpus is absurdly large (max 1024)'')
       | None \<Rightarrow> Ok ()) (\<lambda>_.
     r_bind (case r_cpu_weight r of
         Some w \<Rightarrow> ensure (1 \<le> w \<and> w \<le> 10000) ''--cpu-weight must be between 1 and 10000''
       | None \<Rightarrow> Ok ()) (\<lambda>_.
       case r_pids r of
         Some p \<Rightarrow> ensure (\<not> p < 1) ''--pids must be at least 1''
       | None \<Rightarrow> Ok ()))))"

definition check_publish :: "port_mapping list \<Rightarrow> (u16 \<times> string) list res" where
  "check_publish ps = r_fold (\<lambda>p seen.
     if (host_port p, protocol p) \<in> set seen
     then Err (Config (''host port '' @ show_nat (unat (host_port p)) @ ''/'' @ protocol p @ '' is published twice''))
     else Ok (seen @ [(host_port p, protocol p)])) ps []"

text \<open>The explicit address: in the subnet, and not the gateway.\<close>

definition check_ip :: "network_config \<Rightarrow> ipv4 \<Rightarrow> u8 \<Rightarrow> ipv4 \<Rightarrow> unit res" where
  "check_ip n net prefix gw =
     (case n_ip n of
        Some ip \<Rightarrow> r_bind (parse_ipv4 ip) (\<lambda>addr.
          r_bind (ensure (in_subnet addr net prefix)
              (''--ip '' @ format_ipv4 addr @ '' is outside subnet '' @ n_subnet n)) (\<lambda>_.
            ensure (addr \<noteq> gw)
              (''--ip '' @ format_ipv4 addr @ '' collides with the bridge gateway address'')))
      | None \<Rightarrow> Ok ())"

text \<open>The network section, giving the namespaces: host mode shares the host's network.\<close>

definition validate_network :: "network_config \<Rightarrow> namespaces \<Rightarrow> namespaces res" where
  "validate_network n ns =
     (case n_mode n of
        Host \<Rightarrow> r_bind (ensure (n_publish n = [])
            ''--publish is meaningless with --network host; the container already shares host ports'') (\<lambda>_.
          Ok (ns\<lparr>ns_net := False\<rparr>))
      | NetNone \<Rightarrow> r_bind (ensure (n_publish n = []) ''--publish requires --network bridge'') (\<lambda>_. Ok ns)
      | Bridge \<Rightarrow>
          r_bind (ensure (ns_net ns) ''--network bridge requires a network namespace'') (\<lambda>_.
          r_bind (parse_cidr (n_subnet n)) (\<lambda>(net, prefix).
          r_bind (ensure (\<not> prefix > 30)
              ''bridge subnet must be /30 or larger to hold a gateway and a container'') (\<lambda>_.
          r_bind (gateway_addr n) (\<lambda>gw.
          r_bind (check_ip n net prefix gw) (\<lambda>_.
          r_bind (check_publish (n_publish n)) (\<lambda>_. Ok ns)))))))"

definition finalize_and_validate :: "host \<Rightarrow> bool \<Rightarrow> container_config \<Rightarrow> container_config res" where
  "finalize_and_validate h require_rootfs c =
     r_bind (finalize_identity h c) (\<lambda>c.
     r_bind (validate_command c) (\<lambda>_.
     r_bind (if require_rootfs then finalize_rootfs h c else Ok c) (\<lambda>c.
     r_bind (validate_mounts h (c_mounts c)) (\<lambda>_.
     r_bind (validate_resources (c_resources c)) (\<lambda>_.
     r_bind (validate_network (c_network c) (c_namespaces c)) (\<lambda>ns.
     r_bind (ensure (\<not> (n_mtu (c_network c) < 68 \<or> n_mtu (c_network c) > 65535))
         ''--mtu must be between 68 and 65535'') (\<lambda>_.
     r_bind (cap_mask (c_security c)) (\<lambda>_.
       let sec = c_security c;
           sec' = (if s_privileged sec \<and> s_seccomp sec \<noteq> Unconfined
                   then sec\<lparr>s_seccomp := Unconfined\<rparr> else sec)
       in Ok (c\<lparr>c_namespaces := ns, c_security := sec'\<rparr>)))))))))"

end
