(* ===== verification/Config_Laws.thy ===== *)
theory Config_Laws
  imports Config_Model
begin

text \<open>
  Laws of \<open>src/config.rs\<close>: what is written to \<open>config.json\<close> is what is read back, what a
  validated configuration guarantees, and that validating it again changes nothing.
\<close>

section \<open>Objects built by a sequence of sets\<close>

lemma foldl_json_set:
  "distinct (map fst m @ map fst kvs) \<Longrightarrow>
     foldl (\<lambda>o' (key, v). json_set key v o') (Obj m) kvs = Obj (m @ kvs)"
proof (induction kvs arbitrary: m)
  case (Cons kv kvs)
  obtain a v where kv: "kv = (a, v)" by (cases kv)
  have "a \<notin> fst ` set m" using Cons.prems by (auto simp: kv)
  moreover have "distinct (map fst (m @ [(a, v)]) @ map fst kvs)" using Cons.prems by (auto simp: kv)
  ultimately show ?case using Cons.IH [of "m @ [(a, v)]"] by (simp add: kv set_entry_fresh)
qed simp

lemma json_build_Obj: "distinct (map fst kvs) \<Longrightarrow> json_build kvs = Obj kvs"
  using foldl_json_set [of "[]" kvs] by (simp add: json_build_def json_obj_def)

lemma find_map_of: "map_option snd (List.find (\<lambda>e. fst e = x) m) = map_of m x"
  by (induction m) auto

lemma json_get_Obj [json_simps]: "json_get (Obj m) x = map_of m x"
  by (simp add: find_map_of)

lemma json_get_build [json_simps]: "distinct (map fst kvs) \<Longrightarrow> json_get (json_build kvs) x = map_of kvs x"
  by (simp add: json_build_Obj find_map_of)

lemma get_opt_str [json_simps]: "as_str (opt_str v) = v"
  by (cases v) (simp_all add: opt_str_def)

lemma as_u64_small: "0 \<le> sint w \<Longrightarrow> as_u64 (JInt w) = Some w"
  by simp

lemma sint_ucast_nonneg [simp]: "0 \<le> sint (ucast (x :: u32) :: u64)" "0 \<le> sint (ucast (y :: u16) :: u64)"
proof -
  have "\<not> bit (ucast x :: u64) 63" "\<not> bit (ucast y :: u64) 63"
    by (auto simp: bit_simps dest: bit_imp_le_length)
  then show "0 \<le> sint (ucast x :: u64)" "0 \<le> sint (ucast y :: u64)"
    by (simp_all add: bit_last_iff [symmetric] not_less [symmetric])
qed

lemma ucast_ucast_id [simp]: "ucast (ucast (x :: u32) :: u64) = x" "ucast (ucast (y :: u16) :: u64) = y"
  by (rule bit_word_eqI; simp add: bit_simps)+

lemma strs_of_strings [simp]: "strs_of (map Str ss) = ss"
  by (induction ss) (simp_all add: strs_of_def List.map_filter_simps)

lemma str_pairs_labels [simp]: "str_pairs (Some (Obj (map (\<lambda>(a, v). (a, Str v)) ls))) = ls"
  by (induction ls) (auto simp: str_pairs_def List.map_filter_simps)

section \<open>Environment\<close>

lemma env_key_no_eq: "CHR ''='' \<notin> set (env_key kv)"
proof (cases "split_once kv (CHR ''='')")
  case None
  then have "CHR ''='' \<notin> set kv" by (rule split_once_None [THEN iffD1])
  with None show ?thesis unfolding env_key_def by simp
next
  case (Some ab)
  obtain a b where ab: "ab = (a, b)" by (cases ab)
  with Some have "CHR ''='' \<notin> set a" using split_once_Some by metis
  with Some show ?thesis by (simp add: env_key_def ab)
qed

lemma starts_with_key: "starts_with e (x @ ''='') \<Longrightarrow> CHR ''='' \<notin> set x \<Longrightarrow> env_key e = x"
  by (auto simp: starts_with_iff env_key_def split_once_append)

definition env_later_ok :: "string \<Rightarrow> string \<Rightarrow> bool" where
  "env_later_ok a b \<longleftrightarrow> \<not> starts_with a (env_key b @ ''='')"

definition env_ok :: "string list \<Rightarrow> bool" where
  "env_ok env \<longleftrightarrow> sorted_wrt env_later_ok env \<and>
     (\<exists>x \<in> set env. env_key x = ''PATH'') \<and> (\<exists>x \<in> set env. env_key x = ''TERM'')"

lemma set_env_keeps_key:
  assumes "\<exists>x \<in> set env. env_key x = p"
  shows "\<exists>x \<in> set (set_env kv env). env_key x = p"
  using assms starts_with_key [OF _ env_key_no_eq] by (fastforce simp: set_env_def)

lemma set_env_ok: "env_ok env \<Longrightarrow> env_ok (set_env kv env)"
  using set_env_keeps_key [of env _ kv]
  by (auto simp: env_ok_def set_env_def sorted_wrt_append sorted_wrt_filter env_later_ok_def)

lemma config_default_env_ok: "env_ok (c_env config_default)"
  by (simp add: config_default_def env_ok_def env_later_ok_def env_key_def DEFAULT_PATH_def)

lemma foldl_set_env_ok: "env_ok env \<Longrightarrow> env_ok (foldl (\<lambda>e kv. set_env kv e) env kvs)"
  by (induction kvs arbitrary: env) (simp_all add: set_env_ok)

lemma foldl_set_env:
  "sorted_wrt env_later_ok e \<Longrightarrow> foldl (\<lambda>e kv. set_env kv e) d e =
     filter (\<lambda>a. \<forall>b \<in> set e. env_later_ok a b) d @ e"
proof (induction e arbitrary: d)
  case (Cons x e)
  then show ?case by (auto simp: set_env_def env_later_ok_def intro!: filter_cong)
qed simp

lemma env_fixpoint:
  assumes "env_ok e"
  shows "foldl (\<lambda>e kv. set_env kv e) (c_env config_default) e = e"
proof -
  have kill: "\<exists>b \<in> set e. \<not> env_later_ok (p @ ''='' @ v) b" if "\<exists>x \<in> set e. env_key x = p" for p v
    using that by (auto simp: env_later_ok_def starts_with_iff)
  have "\<exists>b \<in> set e. \<not> env_later_ok (''PATH='' @ DEFAULT_PATH) b" "\<exists>b \<in> set e. \<not> env_later_ok ''TERM=xterm'' b"
    using kill [of "''PATH''" DEFAULT_PATH] kill [of "''TERM''" "''xterm''"] assms by (auto simp: env_ok_def)
  then show ?thesis
    using foldl_set_env [of e "c_env config_default"] assms by (simp add: env_ok_def config_default_def)
qed

lemma set_env_split:
  "CHR ''='' \<notin> set a \<Longrightarrow>
     set_env (a @ ''='' @ v) env = filter (\<lambda>e. \<not> starts_with e (a @ ''='')) env @ [a @ ''='' @ v]"
  by (simp add: set_env_def env_key_def split_once_append)

lemma env_value_set_env:
  assumes "CHR ''='' \<notin> set a"
  shows "env_value (set_env (a @ ''='' @ v) env) a = Some v"
proof -
  have "List.find (\<lambda>e. starts_with e (a @ ''='')) (filter (\<lambda>e. \<not> starts_with e (a @ ''='')) env) = None"
    by (simp add: find_None_iff)
  moreover have "starts_with (a @ ''='' @ v) (a @ ''='')" by (simp add: starts_with_iff)
  ultimately show ?thesis unfolding set_env_split [OF assms] by (simp add: env_value_def find_append)
qed

text \<open>
  Setting a variable makes its new value the one that is looked up and leaves the value
  of every other variable unchanged.
\<close>

theorem set_env_lookup:
  assumes "CHR ''='' \<notin> set a"
  shows "env_value (set_env (a @ ''='' @ v) env) a = Some v \<and>
    (CHR ''='' \<notin> set b \<longrightarrow> b \<noteq> a \<longrightarrow> env_value (set_env (a @ ''='' @ v) env) b = env_value env b)"
proof -
  have ka: "env_key (a @ ''='' @ v) = a" using assms by (simp add: env_key_def split_once_append)
  let ?f = "filter (\<lambda>e. \<not> starts_with e (a @ ''='')) env"
  note s = set_env_split [OF assms, of v env]
  note 1 = env_value_set_env [OF assms, of v env, unfolded s]
  have 2: "env_value (?f @ [a @ ''='' @ v]) b = env_value env b" if b: "CHR ''='' \<notin> set b" "b \<noteq> a"
  proof -
    have "\<not> starts_with (a @ ''='' @ v) (b @ ''='')"
      using starts_with_key [of "a @ ''='' @ v" b] b ka by auto
    moreover have "\<not> starts_with e (b @ ''='')" if "starts_with e (a @ ''='')" for e
      using starts_with_key [OF that assms] starts_with_key [OF _ b(1), of e] b(2) by auto
    then have "List.find (\<lambda>e. starts_with e (b @ ''='')) ?f = List.find (\<lambda>e. starts_with e (b @ ''='')) env"
      by (induction env) auto
    ultimately show ?thesis by (simp add: env_value_def find_append split: option.splits)
  qed
  show ?thesis unfolding s using 1 2 by blast
qed

theorem set_env_lookup_witness:
  "env_value (set_env ''A=2'' [''A=1'', ''B=7'']) ''A'' = Some ''2'' \<and>
   env_value (set_env ''A=2'' [''A=1'', ''B=7'']) ''B'' = Some ''7''"
proof -
  have "env_value [''A=1'', ''B=7''] ''B'' = Some ''7''" by code_simp
  then show ?thesis using set_env_lookup [of "''A''" "''2''" "[''A=1'', ''B=7'']" "''B''"] by simp
qed

section \<open>The configuration file\<close>

text \<open>Sizes that JSON's signed integers can hold.\<close>

definition fits :: "u64 option \<Rightarrow> bool" where
  "fits v \<longleftrightarrow> (case v of Some w \<Rightarrow> 0 \<le> sint w | None \<Rightarrow> True)"

definition limits_fit :: "resources \<Rightarrow> bool" where
  "limits_fit r \<longleftrightarrow> fits (r_memory r) \<and> fits (r_memory_swap r) \<and> fits (r_cpu_weight r) \<and> fits (r_pids r)"

lemma as_u64_opt: "fits v \<Longrightarrow> as_u64 (opt_u64 v) = v"
  by (cases v) (auto simp: fits_def opt_u64_def)

lemma num_or_size_opt:
  "json_get j key = Some (opt_u64 v) \<Longrightarrow> fits v \<Longrightarrow> num_or_size j key = Ok v"
  by (cases v) (auto simp: num_or_size_def opt_u64_def fits_def)

lemma resources_roundtrip:
  assumes "limits_fit r"
  shows "resources_from_json (resources_to_json r) = Ok r"
proof -
  let ?j = "resources_to_json r"
  have g: "json_get ?j ''memory'' = Some (opt_u64 (r_memory r))"
    "json_get ?j ''memory_swap'' = Some (opt_u64 (r_memory_swap r))"
    "json_get ?j ''cpus'' = Some (case r_cpus r of Some f \<Rightarrow> Float f | None \<Rightarrow> Null)"
    "json_get ?j ''cpu_weight'' = Some (opt_u64 (r_cpu_weight r))"
    "json_get ?j ''pids'' = Some (opt_u64 (r_pids r))"
    by (simp_all add: resources_to_json_def json_simps del: json_get.simps)
  have c: "as_f64 (case r_cpus r of Some f \<Rightarrow> Float f | None \<Rightarrow> Null) = r_cpus r" by (cases "r_cpus r") simp_all
  show ?thesis
    using assms g c
    by (simp add: resources_from_json_def num_or_size_opt limits_fit_def get_u64_def as_u64_opt)
qed

lemma network_mode_roundtrip: "network_mode_parse (network_mode_as_str m) = Ok m"
  by (cases m; hypsubst; code_simp)

lemma seccomp_roundtrip: "seccomp_parse (seccomp_as_str m) = Ok m"
  by (cases m; hypsubst; code_simp)

lemma publish_roundtrip: "publish_entry (port_mapping_to_json p) = Ok p"
proof -
  let ?j = "port_mapping_to_json p"
  have g: "json_get ?j ''host_port'' = Some (JInt (ucast (host_port p)))" "json_get ?j ''host'' = None"
    "json_get ?j ''container_port'' = Some (JInt (ucast (container_port p)))" "json_get ?j ''container'' = None"
    "json_get ?j ''protocol'' = Some (Str (protocol p))"
    by (simp_all add: port_mapping_to_json_def json_simps del: json_get.simps)
  moreover have "as_str ?j = None" by (simp add: port_mapping_to_json_def json_build_Obj)
  ultimately show ?thesis by (simp add: publish_entry_def or_else_def get_str_def)
qed

lemma r_mapM_map: "(\<And>x. f (g x) = Ok x) \<Longrightarrow> r_mapM f (map g xs) = Ok xs"
  by (induction xs) auto

lemma network_roundtrip: "network_from_json (network_to_json n) = Ok n"
proof -
  let ?j = "network_to_json n"
  have g: "json_get ?j ''mode'' = Some (Str (network_mode_as_str (n_mode n)))"
    "json_get ?j ''bridge'' = Some (Str (n_bridge n))" "json_get ?j ''subnet'' = Some (Str (n_subnet n))"
    "json_get ?j ''ip'' = Some (opt_str (n_ip n))" "json_get ?j ''gateway'' = Some (opt_str (n_gateway n))"
    "json_get ?j ''mtu'' = Some (JInt (ucast (n_mtu n)))"
    "json_get ?j ''publish'' = Some (Arr (map port_mapping_to_json (n_publish n)))"
    "json_get ?j ''nat'' = Some (Bool (n_nat n))" "json_get ?j ''dns'' = Some (json_strings (n_dns n))"
    by (simp_all add: network_to_json_def json_simps del: json_get.simps)
  show ?thesis
    by (simp add: network_from_json_def g get_str_def get_u64_def get_bool_def get_array_def
        network_mode_roundtrip r_mapM_map publish_roundtrip json_simps json_strings_def)
qed

lemma parse_user_show: "parse_user (show_nat (unat u) @ '':'' @ show_nat (unat g)) = Ok (u, g)"
proof -
  have "CHR '':'' \<notin> set (show_nat (unat u))" by (simp add: notin_show_nat not_digit)
  then have "split_once (show_nat (unat u) @ '':'' @ show_nat (unat g)) (CHR '':'') =
      Some (show_nat (unat u), show_nat (unat g))" by (simp add: split_once_append)
  then show ?thesis by (simp add: parse_user_def)
qed

lemma security_roundtrip: "security_from_json (security_to_json s) = Ok s"
proof -
  let ?j = "security_to_json s"
  have g: "json_get ?j ''no_new_privs'' = Some (Bool (s_no_new_privs s))"
    "json_get ?j ''cap_add'' = Some (json_strings (s_cap_add s))"
    "json_get ?j ''cap_drop'' = Some (json_strings (s_cap_drop s))"
    "json_get ?j ''seccomp'' = Some (Str (seccomp_as_str (s_seccomp s)))"
    "json_get ?j ''masked_paths'' = Some (json_strings (s_masked_paths s))"
    "json_get ?j ''readonly_paths'' = Some (json_strings (s_readonly_paths s))"
    "json_get ?j ''user'' = Some (case s_user s of
          Some (u, g) \<Rightarrow> Str (show_nat (unat u) @ '':'' @ show_nat (unat g)) | None \<Rightarrow> Null)"
    "json_get ?j ''privileged'' = Some (Bool (s_privileged s))"
    by (simp_all add: security_to_json_def json_simps del: json_get.simps)
  have u: "(case get_str ?j ''user'' of Some v \<Rightarrow> r_map Some (parse_user v) | None \<Rightarrow> Ok (s_user security_default)) =
      Ok (s_user s)"
    using parse_user_show
    by (cases "s_user s") (auto simp: get_str_def g(7) security_default_def split: prod.splits)
  show ?thesis
    using u by (simp add: security_from_json_def g get_str_def get_bool_def get_array_def get_strings_def
        seccomp_roundtrip json_strings_def)
qed

lemma namespaces_roundtrip: "namespaces_from_json (namespaces_to_json n) = n"
proof -
  let ?j = "namespaces_to_json n"
  have g: "json_get ?j ''pid'' = Some (Bool (ns_pid n))" "json_get ?j ''mount'' = Some (Bool (ns_mount n))"
    "json_get ?j ''uts'' = Some (Bool (ns_uts n))" "json_get ?j ''ipc'' = Some (Bool (ns_ipc n))"
    "json_get ?j ''net'' = Some (Bool (ns_net n))" "json_get ?j ''cgroup'' = Some (Bool (ns_cgroup n))"
    by (simp_all add: namespaces_to_json_def json_simps del: json_get.simps)
  show ?thesis by (simp add: namespaces_from_json_def g get_bool_def)
qed

lemma mount_roundtrip: "mount_entry (mount_spec_to_json m) = Ok m"
proof -
  let ?j = "mount_spec_to_json m"
  have g: "json_get ?j ''source'' = Some (Str (m_source m))"
    "json_get ?j ''destination'' = Some (Str (m_destination m))"
    "json_get ?j ''type'' = Some (Str (m_fstype m))" "json_get ?j ''readonly'' = Some (Bool (m_readonly m))"
    by (simp_all add: mount_spec_to_json_def json_simps del: json_get.simps)
  moreover have "as_str ?j = None" by (simp add: mount_spec_to_json_def json_build_Obj)
  ultimately show ?thesis by (simp add: mount_entry_def get_str_def get_bool_def)
qed

lemma labels_json:
  assumes "distinct (map fst ls)"
  shows "foldl (\<lambda>o' (key, v). json_set key (Str v) o') json_obj ls = Obj (map (\<lambda>(a, v). (a, Str v)) ls)"
proof -
  have "foldl (\<lambda>o' (key, v). json_set key (Str v) o') o0 ls =
      foldl (\<lambda>o' (key, v). json_set key v o') o0 (map (\<lambda>(a, v). (a, Str v)) ls)" for o0
    by (induction ls arbitrary: o0) auto
  moreover have "map fst (map (\<lambda>(a, v). (a, Str v)) ls) = map fst ls" by (induction ls) auto
  then have "distinct (map fst [] @ map fst (map (\<lambda>(a, v). (a, Str v)) ls))" using assms by (simp del: map_map)
  note foldl_json_set [OF this]
  ultimately show ?thesis by (simp add: json_obj_def)
qed

lemma config_to_json_Obj:
  "config_to_json c = Obj
     [(''id'', Str (c_id c)), (''name'', opt_str (c_name c)), (''rootfs'', Str (c_rootfs c)),
      (''command'', json_strings (c_command c)), (''env'', json_strings (c_env c)),
      (''cwd'', Str (c_cwd c)), (''hostname'', Str (c_hostname c)),
      (''read_only'', Bool (c_read_only c)), (''auto_remove'', Bool (c_auto_remove c)),
      (''mounts'', Arr (map mount_spec_to_json (c_mounts c))),
      (''resources'', resources_to_json (c_resources c)),
      (''network'', network_to_json (c_network c)),
      (''security'', security_to_json (c_security c)),
      (''namespaces'', namespaces_to_json (c_namespaces c)),
      (''labels'', foldl (\<lambda>o' (key, v). json_set key (Str v) o') json_obj (c_labels c))]"
  unfolding config_to_json_def by (rule json_build_Obj) simp

lemma config_roundtrip:
  assumes "env_ok (c_env c)" "limits_fit (c_resources c)" "distinct (map fst (c_labels c))"
  shows "config_from_json (config_to_json c) = Ok (c\<lparr>c_detach := False\<rparr>)"
proof -
  let ?j = "config_to_json c"
  have g: "json_get ?j ''id'' = Some (Str (c_id c))" "json_get ?j ''name'' = Some (opt_str (c_name c))"
    "json_get ?j ''rootfs'' = Some (Str (c_rootfs c))" "json_get ?j ''command'' = Some (json_strings (c_command c))"
    "json_get ?j ''env'' = Some (json_strings (c_env c))" "json_get ?j ''cwd'' = Some (Str (c_cwd c))"
    "json_get ?j ''hostname'' = Some (Str (c_hostname c))" "json_get ?j ''read_only'' = Some (Bool (c_read_only c))"
    "json_get ?j ''auto_remove'' = Some (Bool (c_auto_remove c))"
    "json_get ?j ''mounts'' = Some (Arr (map mount_spec_to_json (c_mounts c)))"
    "json_get ?j ''resources'' = Some (resources_to_json (c_resources c))"
    "json_get ?j ''network'' = Some (network_to_json (c_network c))"
    "json_get ?j ''security'' = Some (security_to_json (c_security c))"
    "json_get ?j ''namespaces'' = Some (namespaces_to_json (c_namespaces c))"
    "json_get ?j ''labels'' = Some (Obj (map (\<lambda>(a, v). (a, Str v)) (c_labels c)))"
    "json_get ?j ''environment'' = None"
    unfolding config_to_json_Obj labels_json [OF assms(3)] json_get_Obj by simp_all
  have env: "foldl (\<lambda>e kv. set_env kv e) (c_env config_default) (c_env c) = c_env c"
    by (rule env_fixpoint [OF assms(1)])
  have d: "c_detach config_default = False" by (simp add: config_default_def)
  show ?thesis
    unfolding config_from_json_def
    by (simp add: g get_str_def get_bool_def get_array_def command_of_def or_else_def json_strings_def
        r_mapM_map mount_roundtrip resources_roundtrip [OF assms(2)] network_roundtrip security_roundtrip
        namespaces_roundtrip str_pairs_def [of None] env d json_simps del: json_get.simps)
qed



section \<open>What validation guarantees\<close>

lemma ensure_Ok [simp, result_simps]: "ensure b m = Ok x \<longleftrightarrow> b"
  by (auto simp: ensure_def)

lemma check_publish_fold:
  "r_fold (\<lambda>p seen. if (host_port p, protocol p) \<in> set seen then Err (f p)
      else Ok (seen @ [(host_port p, protocol p)])) ps seen = Ok r \<Longrightarrow> distinct seen \<Longrightarrow>
   r = seen @ map (\<lambda>p. (host_port p, protocol p)) ps \<and> distinct r"
proof (induction ps arbitrary: seen)
  case (Cons p ps)
  let ?k = "(host_port p, protocol p)"
  have "?k \<notin> set seen" using Cons.prems(1) by (auto split: if_splits)
  then have "r = (seen @ [?k]) @ map (\<lambda>p. (host_port p, protocol p)) ps \<and> distinct r"
    using Cons.prems by (intro Cons.IH) simp_all
  then show ?case by (auto simp only: list.map append.assoc append_Cons append_Nil)
qed simp

lemma check_publish_distinct:
  "check_publish ps = Ok r \<Longrightarrow> distinct (map (\<lambda>p. (host_port p, protocol p)) ps)"
  unfolding check_publish_def by (drule check_publish_fold) auto

text \<open>What the validated network section promises to the network set-up.\<close>

definition bridge_ok :: "network_config \<Rightarrow> bool" where
  "bridge_ok n \<longleftrightarrow> (\<exists>net p gw. parse_cidr (n_subnet n) = Ok (net, p) \<and> p \<le> 30 \<and> gateway_addr n = Ok gw
     \<and> (\<forall>ip. n_ip n = Some ip \<longrightarrow> (\<exists>a. parse_ipv4 ip = Ok a \<and> in_subnet a net p \<and> a \<noteq> gw))
     \<and> distinct (map (\<lambda>q. (host_port q, protocol q)) (n_publish n)))"

definition network_ok :: "network_config \<Rightarrow> namespaces \<Rightarrow> bool" where
  "network_ok n ns \<longleftrightarrow> (case n_mode n of
      Host \<Rightarrow> \<not> ns_net ns \<and> n_publish n = []
    | NetNone \<Rightarrow> n_publish n = []
    | Bridge \<Rightarrow> ns_net ns \<and> bridge_ok n)"

lemma validate_network_ok:
  assumes "validate_network n ns = Ok ns'"
  shows "network_ok n ns' \<and> validate_network n ns' = Ok ns'"
proof (cases "n_mode n")
  case Bridge
  then obtain net p gw x s where b: "ns_net ns" "parse_cidr (n_subnet n) = Ok (net, p)" "\<not> p > 30"
      "gateway_addr n = Ok gw" "check_ip n net p gw = Ok x" "check_publish (n_publish n) = Ok s" "ns' = ns"
    using assms by (auto simp: validate_network_def)
  have "bridge_ok n"
    unfolding bridge_ok_def using b check_publish_distinct [OF b(6)]
    by (intro exI [of _ net] exI [of _ p] exI [of _ gw]) (auto simp: check_ip_def)
  then show ?thesis using assms b Bridge by (simp add: network_ok_def)
qed (use assms in \<open>auto simp: validate_network_def network_ok_def\<close>)

definition identity_ok :: "container_config \<Rightarrow> bool" where
  "identity_ok c \<longleftrightarrow> validate_id (c_id c) = Ok () \<and> (\<forall>n. c_name c = Some n \<longrightarrow> validate_id n = Ok ())
     \<and> c_hostname c \<noteq> [] \<and> length (c_hostname c) \<le> 64 \<and> list_all hostname_char (c_hostname c)
     \<and> env_value (c_env c) ''HOSTNAME'' = Some (c_hostname c)"

lemma short_id_nonempty: "validate_id i = Ok () \<Longrightarrow> short_id i \<noteq> []"
proof -
  assume "validate_id i = Ok ()"
  then have "i \<noteq> []" "\<forall>c \<in> set i. graphic c" by (rule validate_id_component)+
  then obtain c t where "i = c # t" "byte c < 128" by (cases i) (auto simp: graphic_def)
  moreover have "byte c div 64 \<noteq> 2" using \<open>byte c < 128\<close> by auto
  ultimately show ?thesis by (simp add: short_id_def)
qed

lemma set_env_idem: "set_env (a @ ''='' @ v) (set_env (a @ ''='' @ v) env) = set_env (a @ ''='' @ v) env"
  if "CHR ''='' \<notin> set a"
proof -
  have "env_key (a @ ''='' @ v) = a" using that by (simp add: env_key_def split_once_append)
  then have "starts_with (a @ ''='' @ v) (env_key (a @ ''='' @ v) @ ''='')" by (simp add: starts_with_iff)
  then show ?thesis by (simp add: set_env_def)
qed

lemma finalize_identity_ok:
  assumes "finalize_identity h c = Ok c'"
  shows "identity_ok c' \<and> set_env (''HOSTNAME='' @ c_hostname c') (c_env c') = c_env c' \<and>
    c' = c\<lparr>c_id := c_id c', c_hostname := c_hostname c', c_env := c_env c'\<rparr>"
proof -
  define i where "i = (if c_id c = [] then generate_id (h_entropy h) (h_nanos h) (h_pid h) else c_id c)"
  define hn where "hn = (if c_hostname c = [] then unwrap_or (short_id i) (c_name c) else c_hostname c)"
  have v: "validate_id i = Ok ()" "\<And>n. c_name c = Some n \<Longrightarrow> validate_id n = Ok ()" "length hn \<le> 64" "list_all hostname_char hn"
    and c': "c' = c\<lparr>c_id := i, c_hostname := hn, c_env := set_env (''HOSTNAME='' @ hn) (c_env c)\<rparr>"
    using assms unfolding finalize_identity_def i_def [symmetric] Let_def hn_def [symmetric]
    by (auto split: option.splits)
  have ine: "i \<noteq> []" using validate_id_component(1) [OF v(1)] .
  have hne: "hn \<noteq> []"
    using short_id_nonempty [OF v(1)] v(2) validate_id_component(1) by (cases "c_name c") (auto simp: hn_def)
  have no: "CHR ''='' \<notin> set ''HOSTNAME''" by simp
  have "env_value (set_env (''HOSTNAME'' @ ''='' @ hn) (c_env c)) ''HOSTNAME'' = Some hn"
    using env_value_set_env [OF no] .
  then have ok: "identity_ok c'" using v hne by (simp add: identity_ok_def c')
  then show ?thesis using set_env_idem [OF no, of hn "c_env c"] by (simp add: c')
qed

lemma finalize_identity_fixed:
  assumes "identity_ok c" "set_env (''HOSTNAME='' @ c_hostname c) (c_env c) = c_env c"
  shows "finalize_identity h c = Ok c"
proof -
  have "c_id c \<noteq> []" using assms(1) validate_id_component(1) by (auto simp: identity_ok_def)
  then show ?thesis
    using assms by (auto simp: identity_ok_def finalize_identity_def Let_def ensure_def split: option.splits)
qed

lemma ensure_seq: "ensure True m = Ok ()"
  by (simp add: ensure_def)

definition security_settled :: "security_config \<Rightarrow> bool" where
  "security_settled s \<longleftrightarrow> (\<exists>m. cap_mask s = Ok m) \<and> (s_privileged s \<longrightarrow> s_seccomp s = Unconfined)"

lemma cap_mask_seccomp [simp]: "cap_mask (s\<lparr>s_seccomp := m\<rparr>) = cap_mask s"
  by (simp add: cap_mask_def)

text \<open>The pieces of a successful validation.\<close>

lemma finalize_inv:
  assumes "finalize_and_validate h req c = Ok c'"
  obtains c1 c2 ns m where "finalize_identity h c = Ok c1" "validate_command c1 = Ok ()"
    "(if req then finalize_rootfs h c1 else Ok c1) = Ok c2"
    "validate_mounts h (c_mounts c2) = Ok ()" "validate_resources (c_resources c2) = Ok ()"
    "validate_network (c_network c2) (c_namespaces c2) = Ok ns"
    "\<not> (n_mtu (c_network c2) < 68 \<or> n_mtu (c_network c2) > 65535)"
    "cap_mask (c_security c2) = Ok m"
    "c' = c2\<lparr>c_namespaces := ns, c_security :=
       (if s_privileged (c_security c2) \<and> s_seccomp (c_security c2) \<noteq> Unconfined
        then (c_security c2)\<lparr>s_seccomp := Unconfined\<rparr> else c_security c2)\<rparr>"
  using assms unfolding finalize_and_validate_def Let_def r_bind_eq_Ok ensure_Ok by auto

lemma finalize_rootfs_same:
  "finalize_rootfs h c = Ok c' \<Longrightarrow> c' = c\<lparr>c_rootfs := c_rootfs c'\<rparr> \<and> c_rootfs c' \<noteq> ''/'' \<and> h_is_dir h (c_rootfs c')"
  by (auto simp: finalize_rootfs_def)

text \<open>
  C5: A configuration that passed validation has a valid id, name and host name (and the
  container's \<open>HOSTNAME\<close> variable names it), a non-empty command, an absolute working
  directory, a consistent network section (a bridged container has its own network
  namespace, a subnet of at most 30 bits, an explicit address inside it that is not the
  gateway, and no port published twice; host networking has no namespace), an MTU in range,
  resolvable capabilities, and no half-applied privileged mode.
\<close>

theorem validated_config:
  assumes "finalize_and_validate h req c = Ok c'"
  shows "identity_ok c' \<and> c_command c' \<noteq> [] \<and> hd (c_command c') \<noteq> [] \<and> starts_with (c_cwd c') ''/''
    \<and> network_ok (c_network c') (c_namespaces c')
    \<and> 68 \<le> n_mtu (c_network c') \<and> n_mtu (c_network c') \<le> 65535
    \<and> security_settled (c_security c') \<and> validate_resources (c_resources c') = Ok ()
    \<and> (req \<longrightarrow> c_rootfs c' \<noteq> ''/'' \<and> h_is_dir h (c_rootfs c'))"
  using assms
proof (rule finalize_inv)
  fix c1 c2 ns m
  assume 1: "finalize_identity h c = Ok c1" "validate_command c1 = Ok ()"
    "(if req then finalize_rootfs h c1 else Ok c1) = Ok c2"
    "validate_mounts h (c_mounts c2) = Ok ()" "validate_resources (c_resources c2) = Ok ()"
    "validate_network (c_network c2) (c_namespaces c2) = Ok ns"
    "\<not> (n_mtu (c_network c2) < 68 \<or> n_mtu (c_network c2) > 65535)"
    "cap_mask (c_security c2) = Ok m"
    and c': "c' = c2\<lparr>c_namespaces := ns, c_security :=
       (if s_privileged (c_security c2) \<and> s_seccomp (c_security c2) \<noteq> Unconfined
        then (c_security c2)\<lparr>s_seccomp := Unconfined\<rparr> else c_security c2)\<rparr>"
  obtain rf where c2: "c2 = c1\<lparr>c_rootfs := rf\<rparr>" "req \<Longrightarrow> rf \<noteq> ''/'' \<and> h_is_dir h rf"
  proof (cases req)
    case True
    then show ?thesis using that [of "c_rootfs c2"] finalize_rootfs_same [of h c1 c2] 1(3) by simp
  next
    case False
    then show ?thesis using that [of "c_rootfs c1"] 1(3) by simp
  qed
  have "identity_ok c1" using finalize_identity_ok [OF 1(1)] by blast
  then have "identity_ok c'" unfolding c' c2 by (simp add: identity_ok_def)
  moreover have "c_command c1 \<noteq> []" "hd (c_command c1) \<noteq> []" "starts_with (c_cwd c1) ''/''"
    using 1(2) by (auto simp: validate_command_def)
  moreover have "network_ok (c_network c2) ns" using validate_network_ok [OF 1(6)] by blast
  moreover have "security_settled (c_security c')"
    using 1(8) unfolding c' security_settled_def by simp
  ultimately show ?thesis
    using 1(5,7) c2(2) unfolding c' by (simp add: c2(1) not_less)
qed

theorem validated_config_witness:
  "\<exists>c. finalize_and_validate
      \<lparr>h_entropy = Some [1], h_nanos = 0, h_pid = 1, h_canon = Ok, h_is_dir = (\<lambda>p. p = ''/img''), h_exists = (\<lambda>_. True)\<rparr>
      True (config_default\<lparr>c_id := ''web'', c_command := [''/bin/sh''], c_rootfs := ''/img''\<rparr>) = Ok c
    \<and> c_rootfs c \<noteq> ''/'' \<and> identity_ok c"
proof -
  let ?h = "\<lparr>h_entropy = Some [1], h_nanos = 0, h_pid = 1, h_canon = Ok, h_is_dir = (\<lambda>p. p = ''/img''), h_exists = (\<lambda>_. True)\<rparr>"
  let ?c = "config_default\<lparr>c_id := ''web'', c_command := [''/bin/sh''], c_rootfs := ''/img''\<rparr>"
  have "is_ok (finalize_and_validate ?h True ?c)" by code_simp
  then obtain c where "finalize_and_validate ?h True ?c = Ok c" by (auto simp: is_ok_iff)
  then show ?thesis using validated_config by blast
qed

text \<open>
  Validation is idempotent: validating an already validated configuration again (as
  every later command that loads it may) accepts it and changes nothing.
\<close>

theorem finalize_idempotent:
  assumes "finalize_and_validate h req c = Ok c'"
  shows "finalize_and_validate h False c' = Ok c'"
  using assms
proof (rule finalize_inv)
  fix c1 c2 ns m
  let ?sec = "\<lambda>s. if s_privileged s \<and> s_seccomp s \<noteq> Unconfined then s\<lparr>s_seccomp := Unconfined\<rparr> else s"
  assume 1: "finalize_identity h c = Ok c1" "validate_command c1 = Ok ()"
    "(if req then finalize_rootfs h c1 else Ok c1) = Ok c2"
    "validate_mounts h (c_mounts c2) = Ok ()" "validate_resources (c_resources c2) = Ok ()"
    "validate_network (c_network c2) (c_namespaces c2) = Ok ns"
    "\<not> (n_mtu (c_network c2) < 68 \<or> n_mtu (c_network c2) > 65535)"
    "cap_mask (c_security c2) = Ok m"
    and c': "c' = c2\<lparr>c_namespaces := ns, c_security := ?sec (c_security c2)\<rparr>"
  obtain rf where c2: "c2 = c1\<lparr>c_rootfs := rf\<rparr>"
  proof (cases req)
    case True
    then show ?thesis using that [of "c_rootfs c2"] finalize_rootfs_same [of h c1 c2] 1(3) by simp
  next
    case False
    then show ?thesis using that [of "c_rootfs c1"] 1(3) by simp
  qed
  have "finalize_identity h c' = Ok c'"
    using finalize_identity_ok [OF 1(1)]
    by (intro finalize_identity_fixed) (auto simp: c' c2 identity_ok_def)
  note a = this
  have b: "validate_command c' = Ok ()" using 1(2) by (simp add: validate_command_def c' c2)
  have net: "validate_network (c_network c') (c_namespaces c') = Ok (c_namespaces c')"
    using validate_network_ok [OF 1(6)] by (simp add: c')
  have mr: "validate_mounts h (c_mounts c') = Ok ()" "validate_resources (c_resources c') = Ok ()"
    using 1(4,5) by (simp_all add: c')
  have mtu: "ensure (\<not> (n_mtu (c_network c') < 68 \<or> n_mtu (c_network c') > 65535)) msg = Ok ()" for msg
    using 1(7) by (simp add: c')
  have cap: "cap_mask (c_security c') = Ok m" using 1(8) by (simp add: c')
  have sec: "?sec (c_security c') = c_security c'" by (simp add: c')
  show ?thesis
    unfolding finalize_and_validate_def Let_def a r_bind.simps b if_False mr net mtu cap sec by simp
qed

theorem finalize_idempotent_witness:
  "\<exists>c. finalize_and_validate
      \<lparr>h_entropy = Some [1], h_nanos = 0, h_pid = 1, h_canon = Ok, h_is_dir = (\<lambda>_. True), h_exists = (\<lambda>_. True)\<rparr>
      False c = Ok c"
proof -
  let ?h = "\<lparr>h_entropy = Some [1], h_nanos = 0, h_pid = 1, h_canon = Ok, h_is_dir = (\<lambda>_. True), h_exists = (\<lambda>_. True)\<rparr>"
  let ?c = "config_default\<lparr>c_command := [''sh''], c_rootfs := ''/img''\<rparr>"
  have "is_ok (finalize_and_validate ?h True (?c\<lparr>c_id := ''web''\<rparr>))" by code_simp
  then obtain c where "finalize_and_validate ?h True (?c\<lparr>c_id := ''web''\<rparr>) = Ok c" by (auto simp: is_ok_iff)
  then show ?thesis using finalize_idempotent by blast
qed

end
