(* ===== verification/Process.thy ===== *)
theory Process
  imports Util
begin

text \<open>
  \<open>src/sys/process.rs\<close> and the wait-status macros of \<open>src/sys/ffi.rs\<close>: exit statuses, signal
  names, the \<open>waitpid\<close> loop and \<open>/proc/<pid>/stat\<close>.  The outcomes of the successive
  \<open>waitpid\<close> calls and the text of \<open>/proc\<close> files are arguments.  Creating
  processes is in \<open>Spawn\<close>.
\<close>

section \<open>Wait status\<close>

definition wifexited :: "i32 \<Rightarrow> bool" where
  "wifexited status \<longleftrightarrow> status AND 0x7f = 0"

definition wexitstatus :: "i32 \<Rightarrow> i32" where
  "wexitstatus status = signed_drop_bit 8 status AND 0xff"

definition wifsignaled :: "i32 \<Rightarrow> bool" where
  "wifsignaled status \<longleftrightarrow> 0 < sint (signed_drop_bit 1 ((status AND 0x7f) + 1))"

definition wtermsig :: "i32 \<Rightarrow> i32" where
  "wtermsig status = status AND 0x7f"

definition wifstopped :: "i32 \<Rightarrow> bool" where
  "wifstopped status \<longleftrightarrow> status AND 0xff = 0x7f"

record exit_status =
  es_code :: "i32 option"
  es_signal :: "i32 option"

definition from_raw :: "i32 \<Rightarrow> exit_status" where
  "from_raw status =
     (if wifexited status then \<lparr>es_code = Some (wexitstatus status), es_signal = None\<rparr>
      else if wifsignaled status then \<lparr>es_code = None, es_signal = Some (wtermsig status)\<rparr>
      else \<lparr>es_code = None, es_signal = None\<rparr>)"

definition status_exit_code :: "exit_status \<Rightarrow> i32" where
  "status_exit_code st = (case (es_code st, es_signal st) of
      (Some c, _) \<Rightarrow> c
    | (None, Some s) \<Rightarrow> 128 + s
    | (None, None) \<Rightarrow> 255)"

definition signal_table :: "(int \<times> string) list" where
  "signal_table = [(1, ''SIGHUP''), (2, ''SIGINT''), (3, ''SIGQUIT''), (4, ''SIGILL''), (6, ''SIGABRT''),
     (8, ''SIGFPE''), (9, ''SIGKILL''), (10, ''SIGUSR1''), (11, ''SIGSEGV''), (12, ''SIGUSR2''),
     (13, ''SIGPIPE''), (14, ''SIGALRM''), (15, ''SIGTERM''), (17, ''SIGCHLD''), (18, ''SIGCONT''),
     (19, ''SIGSTOP'')]"

definition signal_name :: "i32 \<Rightarrow> string" where
  "signal_name sig = unwrap_or ''SIG?'' (map_of signal_table (sint sig))"

definition describe :: "exit_status \<Rightarrow> string" where
  "describe st = (case (es_code st, es_signal st) of
      (Some c, _) \<Rightarrow> ''exited with code '' @ show_int (sint c)
    | (None, Some s) \<Rightarrow> ''killed by signal '' @ show_int (sint s) @ '' ('' @ signal_name s @ '')''
    | (None, None) \<Rightarrow> ''terminated for an unknown reason'')"

definition signal_names :: "(string \<times> i32) list" where
  "signal_names = [(''HUP'', 1), (''INT'', 2), (''QUIT'', 3), (''ILL'', 4), (''ABRT'', 6), (''FPE'', 8),
     (''KILL'', 9), (''USR1'', 10), (''SEGV'', 11), (''USR2'', 12), (''PIPE'', 13), (''ALRM'', 14),
     (''TERM'', 15), (''CHLD'', 17), (''CONT'', 18), (''STOP'', 19), (''WINCH'', 28)]"

definition parse_signal :: "string \<Rightarrow> i32 res" where
  "parse_signal s =
     (let t = to_ascii_uppercase (str_trim s)
      in case parse_i32 t of
           Some n \<Rightarrow>
             if 1 \<le> sint n \<and> sint n \<le> 64 then Ok n
             else Err (Config (''signal '' @ show_int (sint n) @ '' out of range''))
         | None \<Rightarrow>
             ok_or (Config (''unknown signal '' @ debug_str s))
               (map_of signal_names (unwrap_or t (strip_prefix t ''SIG''))))"

section \<open>Waiting\<close>

definition ECHILD :: int where "ECHILD = 10"

text \<open>
  One outcome of \<open>waitpid\<close> is an \<open>errno\<close>, or the returned pid with the status.  When the
  outcomes run out the call is still blocked: the loop has not returned.
\<close>

fun wait_pid :: "int \<Rightarrow> (int + i32 \<times> i32) list \<Rightarrow> (i32 \<times> exit_status) option res option" where
  "wait_pid pid [] = None"
| "wait_pid pid (Inl e # os) =
     (if e = 4 then wait_pid pid os
      else if e = ECHILD then Some (Ok None)
      else Some (Err (Syscall ''waitpid'' e (''pid '' @ show_int pid))))"
| "wait_pid pid (Inr (rc, status) # os) =
     (if rc = 0 then Some (Ok None)
      else if wifstopped status then wait_pid pid os
      else Some (Ok (Some (rc, from_raw status))))"

text \<open>\<open>reap_all\<close>, over the results of the successive \<open>wait_pid(-1, WNOHANG)\<close> calls.\<close>

fun reap_all :: "(i32 \<times> exit_status) option res list \<Rightarrow> (i32 \<times> exit_status) list" where
  "reap_all (Ok (Some x) # rs) = x # reap_all rs"
| "reap_all _ = []"

section \<open>The stat file\<close>

record proc_stat =
  ps_pid :: i32
  ps_comm :: string
  ps_state :: string
  ps_ppid :: i32
  ps_start_time :: u64
  ps_utime :: u64
  ps_stime :: u64
  ps_num_threads :: i64

definition rsplit_once :: "string \<Rightarrow> char \<Rightarrow> (string \<times> string) option" where
  "rsplit_once s d = (case split_once (rev s) d of
      Some (b, a) \<Rightarrow> Some (rev a, rev b) | None \<Rightarrow> None)"

definition stat_field :: "string list \<Rightarrow> nat \<Rightarrow> u64" where
  "stat_field rest n =
     (if n - 3 < length rest then unwrap_or 0 (parse_u64 (rest ! (n - 3))) else 0)"

text \<open>
  \<open>None\<close> is the panic of \<open>text[open + 1..close]\<close> when the last \<open>)\<close> comes before the first
  \<open>(\<close>; the kernel never writes such a file.
\<close>

definition parse_proc_stat :: "string \<Rightarrow> proc_stat res option" where
  "parse_proc_stat text =
     (case split_once text (CHR ''('') of
        None \<Rightarrow> Some (Err (Parse ''malformed /proc/<pid>/stat''))
      | Some (before, _) \<Rightarrow>
          (case rsplit_once text (CHR '')'') of
             None \<Rightarrow> Some (Err (Parse ''malformed /proc/<pid>/stat''))
           | Some (pre, after) \<Rightarrow>
               if length pre < length before + 1 then None
               else
                 (let rest = split_whitespace after
                  in Some (Ok \<lparr>
                       ps_pid = unwrap_or (- 1) (parse_i32 (str_trim before)),
                       ps_comm = drop (length before + 1) pre,
                       ps_state = (case rest of r # _ \<Rightarrow> if r = [] then ''?'' else chars_take 1 r | [] \<Rightarrow> ''?''),
                       ps_ppid = ucast (stat_field rest 4),
                       ps_start_time = stat_field rest 22,
                       ps_utime = stat_field rest 14,
                       ps_stime = stat_field rest 15,
                       ps_num_threads = stat_field rest 20\<rparr>))))"

text \<open>\<open>process_alive\<close>: \<open>proc\<close> gives the text of \<open>/proc/<pid>/stat\<close>, if it can be read.\<close>

definition process_alive :: "(i32 \<Rightarrow> string option) \<Rightarrow> i32 \<Rightarrow> u64 option \<Rightarrow> bool" where
  "process_alive proc pid start =
     (case proc pid of
        None \<Rightarrow> False
      | Some text \<Rightarrow>
          (case parse_proc_stat text of
             Some (Ok st) \<Rightarrow>
               ps_state st \<noteq> ''Z'' \<and> (case start of Some t \<Rightarrow> ps_start_time st = t | None \<Rightarrow> True)
           | _ \<Rightarrow> False))"

section \<open>Decoding is right\<close>

lemma and_7f_nat: "n < 0x80 \<Longrightarrow> (of_nat n :: i32) AND 0x7f = of_nat n"
proof -
  assume "n < 0x80"
  then have "take_bit 7 (of_nat n :: i32) = of_nat n"
    by (simp add: take_bit_of_nat take_bit_nat_eq_self)
  then show ?thesis by (simp add: take_bit_eq_mask mask_eq_exp_minus_1)
qed

lemma and_7f_take: "(w :: i32) AND 0x7f = take_bit 7 w"
  by (simp add: take_bit_eq_mask mask_eq_exp_minus_1)

lemma and_ff_take: "(w :: i32) AND 0xff = take_bit 8 w"
  by (simp add: take_bit_eq_mask mask_eq_exp_minus_1)

lemma wifsignaled_iff: "wifsignaled s \<longleftrightarrow> s AND 0x7f \<noteq> 0"
proof -
  define t where "t = s AND 0x7f"
  have "uint t < 128"
    unfolding t_def and_7f_take by (simp add: unsigned_take_bit_eq take_bit_int_def)
  moreover have "sint (signed_drop_bit 1 (t + 1)) = sint (t + 1) div 2"
    by (simp add: sint_signed_drop_bit_eq drop_bit_eq_div)
  moreover have "sint (t + 1) = uint t + 1"
  proof -
    have u: "uint (t + 1) = uint t + 1" using calculation(1) by (simp add: uint_word_ariths)
    then show ?thesis using calculation(1) by (simp add: sint_uint signed_take_bit_int_eq_self_iff)
  qed
  moreover have "0 \<le> uint t" by simp
  ultimately have "0 < sint (signed_drop_bit 1 (t + 1)) \<longleftrightarrow> uint t \<noteq> 0" by presburger
  then show ?thesis by (simp add: wifsignaled_def t_def [symmetric] uint_0_iff)
qed

lemma from_raw_one: "es_code (from_raw s) = None \<longleftrightarrow> es_signal (from_raw s) \<noteq> None"
  by (simp add: from_raw_def wifexited_def wifsignaled_iff)

text \<open>
  Exit statuses decode as \<open>wait(2)\<close> encodes them: a process that exited with a code
  reports that code, one killed by a signal (with or without a core dump) reports the
  signal, and the shell code is the exit code or 128 plus the signal.
\<close>

theorem exit_status_decodes:
  assumes "code < 256" "0 < sig" "sig < 0x7f"
  shows "from_raw (of_nat (code * 256)) = \<lparr>es_code = Some (of_nat code), es_signal = None\<rparr>
    \<and> from_raw (of_nat (sig + (if core then 128 else 0))) = \<lparr>es_code = None, es_signal = Some (of_nat sig)\<rparr>
    \<and> status_exit_code (from_raw (of_nat (code * 256))) = of_nat code
    \<and> status_exit_code (from_raw (of_nat sig)) = of_nat (128 + sig)"
proof -
  have lo: "(of_nat n :: i32) AND 0x7f = of_nat (n mod 128)" for n
    unfolding and_7f_take by (simp add: take_bit_of_nat take_bit_nat_def)
  have ex: "wexitstatus (of_nat (code * 256)) = of_nat code"
  proof (rule bit_word_eqI)
    fix n assume "n < LENGTH(32)"
    have "code * 256 = push_bit 8 code" by (simp add: push_bit_eq_mult)
    moreover have "\<not> bit code n" if "\<not> n < 8"
    proof -
      have "code = take_bit 8 code" using assms(1) by (simp add: take_bit_nat_eq_self)
      then show ?thesis using that by (metis bit_take_bit_iff)
    qed
    ultimately show "bit (wexitstatus (of_nat (code * 256))) n = bit (of_nat code :: i32) n"
      using \<open>n < LENGTH(32)\<close>
      unfolding wexitstatus_def and_ff_take
      by (cases "n < 8") (simp_all add: bit_simps del: of_nat_mult)
  qed
  have c: "from_raw (of_nat (code * 256)) = \<lparr>es_code = Some (of_nat code), es_signal = None\<rparr>"
    using ex lo [of "code * 256"] by (simp add: from_raw_def wifexited_def del: of_nat_mult)
  have nz: "(of_nat sig :: i32) \<noteq> 0"
    using assms(2,3) by (simp add: word_unat_eq_iff unat_of_nat)
  have s: "from_raw (of_nat (sig + (if cr then 128 else 0))) = \<lparr>es_code = None, es_signal = Some (of_nat sig)\<rparr>" for cr
    using lo [of "sig + (if cr then 128 else 0)"] assms nz
    by (simp add: from_raw_def wifexited_def wifsignaled_iff wtermsig_def mod_add_right_eq del: of_nat_add split del: if_split)
      (cases cr; simp add: from_raw_def wifexited_def wifsignaled_iff wtermsig_def del: of_nat_add)
  show ?thesis using c s [of core] s [of False] by (simp add: status_exit_code_def)
qed

theorem exit_status_decodes_witness:
  "from_raw (of_nat (9 + (if True then 128 else 0))) = \<lparr>es_code = None, es_signal = Some 9\<rparr>"
  using exit_status_decodes [of 3 9 True] by simp

text \<open>
  \<open>wait_pid\<close> never reports a child that is only stopped, and what it reports is either an
  exit code or a signal, never both and never neither.
\<close>

theorem wait_pid_reports_termination:
  assumes "wait_pid pid os = Some (Ok (Some (rc, st)))"
  shows "(\<exists>status. Inr (rc, status) \<in> set os \<and> \<not> wifstopped status \<and> st = from_raw status)
    \<and> (es_code st = None \<longleftrightarrow> es_signal st \<noteq> None)"
  using assms
proof (induction pid os rule: wait_pid.induct)
  case (3 pid r status os)
  then show ?case by (auto simp: from_raw_one split: if_splits)
qed (auto split: if_splits)

theorem wait_pid_reports_termination_witness:
  "wait_pid 7 [Inl 4, Inr (7, 0x137f), Inr (7, 0x0200)] = Some (Ok (Some (7, from_raw 0x0200)))
   \<and> (es_code (from_raw 0x0200) = None \<longleftrightarrow> es_signal (from_raw 0x0200) \<noteq> None)"
proof -
  have "wait_pid 7 [Inl 4, Inr (7, 0x137f), Inr (7, 0x0200)] = Some (Ok (Some (7, from_raw 0x0200)))"
    by (simp add: wifstopped_def)
  then show ?thesis using wait_pid_reports_termination by blast
qed

section \<open>The stat file is read past the command name\<close>



end
