(* ===== verification/Fs.thy ===== *)
theory Fs
  imports Util "HOL-Library.List_Lexorder" "HOL-Library.Char_ord"
begin

text \<open>
  The file operations of \<open>src/util/mod.rs\<close> and the lock of \<open>src/sys/mod.rs\<close>, over a model of
  the part of the file system they use.  A file system has regular files and directories;
  every system call may fail, as decided by \<open>fs_fail\<close> from the number of calls made so far,
  with an \<open>errno\<close> and the amount of work (bytes, directories, entries) done before the
  failure.  The clock is read the same way.  Operations are functions from a file system to
  a result and a file system.
\<close>

record fs =
  fs_files :: "(string \<times> string) list"
  fs_dirs :: "string list"
  fs_tick :: nat
  fs_fail :: "nat \<Rightarrow> (int \<times> nat) option"
  fs_clock :: "nat \<Rightarrow> u64"
  fs_strerror :: "int \<Rightarrow> string"

type_synonym 'a io = "fs \<Rightarrow> 'a res \<times> fs"

definition io_ok :: "'a \<Rightarrow> 'a io" where
  "io_ok x s = (Ok x, s)"

definition io_err :: "error \<Rightarrow> 'a io" where
  "io_err e s = (Err e, s)"

text \<open>\<open>let x = m?; f x\<close>.\<close>

definition io_bind :: "'a io \<Rightarrow> ('a \<Rightarrow> 'b io) \<Rightarrow> 'b io" where
  "io_bind m f s = (case m s of (Ok x, s') \<Rightarrow> f x s' | (Err e, s') \<Rightarrow> (Err e, s'))"

definition io_lift :: "'a res \<Rightarrow> 'a io" where
  "io_lift r s = (r, s)"

text \<open>The result of an operation as a value: \<open>match m { Ok .. Err .. }\<close>, \<open>if let Ok\<close>.\<close>

definition io_try :: "'a io \<Rightarrow> ('a res \<Rightarrow> 'b io) \<Rightarrow> 'b io" where
  "io_try m f s = (case m s of (r, s') \<Rightarrow> f r s')"

fun io_fold :: "('a \<Rightarrow> 'b \<Rightarrow> 'b io) \<Rightarrow> 'a list \<Rightarrow> 'b \<Rightarrow> 'b io" where
  "io_fold f [] b = io_ok b"
| "io_fold f (x # xs) b = io_bind (f x b) (io_fold f xs)"

section \<open>Paths\<close>

definition path_split :: "string \<Rightarrow> string \<times> string" where
  "path_split p =
     (let base = rev (takeWhile (\<lambda>c. c \<noteq> CHR ''/'') (rev p));
          dir = take (length p - length base) p
      in (if length dir \<le> 1 then dir else butlast dir, base))"

definition path_parent :: "string \<Rightarrow> string" where
  "path_parent p = fst (path_split p)"

definition path_file_name :: "string \<Rightarrow> string" where
  "path_file_name p = snd (path_split p)"

text \<open>A path and its ancestors, outermost first; the root and the empty path are left out.\<close>

fun path_ancestors_fuel :: "nat \<Rightarrow> string \<Rightarrow> string list" where
  "path_ancestors_fuel 0 p = []"
| "path_ancestors_fuel (Suc n) p =
     (if p = [] \<or> p = ''/'' then [] else path_ancestors_fuel n (path_parent p) @ [p])"

definition path_ancestors :: "string \<Rightarrow> string list" where
  "path_ancestors p = path_ancestors_fuel (length p) p"

section \<open>System calls\<close>

definition ENOENT :: int where "ENOENT = 2"
definition EISDIR :: int where "EISDIR = 21"
definition ENOTDIR :: int where "ENOTDIR = 20"

definition dir_exists :: "string \<Rightarrow> fs \<Rightarrow> bool" where
  "dir_exists p s \<longleftrightarrow> p = [] \<or> p = ''/'' \<or> p \<in> set (fs_dirs s)"

definition file_of :: "fs \<Rightarrow> string \<Rightarrow> string option" where
  "file_of s p = map_of (fs_files s) p"

definition put_file :: "string \<Rightarrow> string \<Rightarrow> fs \<Rightarrow> fs" where
  "put_file p c s = s\<lparr>fs_files := (p, c) # filter (\<lambda>e. fst e \<noteq> p) (fs_files s)\<rparr>"

definition del_file :: "string \<Rightarrow> fs \<Rightarrow> fs" where
  "del_file p s = s\<lparr>fs_files := filter (\<lambda>e. fst e \<noteq> p) (fs_files s)\<rparr>"

text \<open>One system call: \<open>bad k\<close> is the partial effect of a failure, \<open>good\<close> the call itself.\<close>

definition sys_call :: "(nat \<Rightarrow> fs \<Rightarrow> fs) \<Rightarrow> (fs \<Rightarrow> ('a, int) result \<times> fs) \<Rightarrow> fs \<Rightarrow> ('a, int) result \<times> fs" where
  "sys_call bad good s =
     (let s' = s\<lparr>fs_tick := Suc (fs_tick s)\<rparr>
      in case fs_fail s (fs_tick s) of
           Some (e, k) \<Rightarrow> (Err e, bad k s')
         | None \<Rightarrow> good s')"

definition os_read :: "string \<Rightarrow> fs \<Rightarrow> (string, int) result \<times> fs" where
  "os_read p = sys_call (\<lambda>_ s. s) (\<lambda>s. case file_of s p of
     Some c \<Rightarrow> (Ok c, s) | None \<Rightarrow> (Err (if p \<in> set (fs_dirs s) then EISDIR else ENOENT), s))"

text \<open>\<open>File::create\<close>: an empty file.\<close>

definition os_create :: "string \<Rightarrow> fs \<Rightarrow> (unit, int) result \<times> fs" where
  "os_create p = sys_call (\<lambda>_ s. s) (\<lambda>s.
     if p \<in> set (fs_dirs s) then (Err EISDIR, s)
     else if \<not> dir_exists (path_parent p) s then (Err ENOENT, s)
     else (Ok (), put_file p [] s))"

text \<open>\<open>write_all\<close> to a freshly created file: a failure leaves a prefix of the data.\<close>

definition os_write_all :: "string \<Rightarrow> string \<Rightarrow> fs \<Rightarrow> (unit, int) result \<times> fs" where
  "os_write_all p d = sys_call (\<lambda>k s. put_file p (take k d) s) (\<lambda>s. (Ok (), put_file p d s))"

definition os_sync :: "fs \<Rightarrow> (unit, int) result \<times> fs" where
  "os_sync = sys_call (\<lambda>_ s. s) (\<lambda>s. (Ok (), s))"

definition os_rename :: "string \<Rightarrow> string \<Rightarrow> fs \<Rightarrow> (unit, int) result \<times> fs" where
  "os_rename a b = sys_call (\<lambda>_ s. s) (\<lambda>s.
     case file_of s a of
       None \<Rightarrow> (Err ENOENT, s)
     | Some c \<Rightarrow>
         if b \<in> set (fs_dirs s) then (Err EISDIR, s)
         else if \<not> dir_exists (path_parent b) s then (Err ENOENT, s)
         else (Ok (), put_file b c (del_file a s)))"

definition os_remove :: "string \<Rightarrow> fs \<Rightarrow> (unit, int) result \<times> fs" where
  "os_remove p = sys_call (\<lambda>_ s. s) (\<lambda>s.
     case file_of s p of None \<Rightarrow> (Err ENOENT, s) | Some _ \<Rightarrow> (Ok (), del_file p s))"

definition add_dirs :: "string list \<Rightarrow> fs \<Rightarrow> fs" where
  "add_dirs ps s = s\<lparr>fs_dirs := fs_dirs s @ filter (\<lambda>p. p \<notin> set (fs_dirs s)) ps\<rparr>"

definition os_mkdir_all :: "string \<Rightarrow> fs \<Rightarrow> (unit, int) result \<times> fs" where
  "os_mkdir_all p = sys_call (\<lambda>k s. add_dirs (take k (path_ancestors p)) s) (\<lambda>s.
     if list_ex (\<lambda>a. file_of s a \<noteq> None) (path_ancestors p) then (Err ENOTDIR, s)
     else (Ok (), add_dirs (path_ancestors p) s))"

text \<open>\<open>Path::exists\<close>: a failing \<open>stat\<close> counts as absent.\<close>

definition os_exists :: "string \<Rightarrow> fs \<Rightarrow> bool \<times> fs" where
  "os_exists p s = (case sys_call (\<lambda>_ s. s) (\<lambda>s. (Ok (file_of s p \<noteq> None \<or> dir_exists p s), s)) s of
     (Ok b, s') \<Rightarrow> (b, s') | (Err _, s') \<Rightarrow> (False, s'))"

text \<open>The names directly under a directory, in the order the directory lists them.\<close>

definition entry_names :: "string \<Rightarrow> fs \<Rightarrow> string list" where
  "entry_names p s =
     map path_file_name (filter (\<lambda>q. path_parent q = p \<and> q \<noteq> p) (fs_dirs s @ map fst (fs_files s)))"

definition os_read_dir :: "string \<Rightarrow> fs \<Rightarrow> (string list, int) result \<times> fs" where
  "os_read_dir p = sys_call (\<lambda>_ s. s) (\<lambda>s.
     if dir_exists p s then (Ok (entry_names p s), s) else (Err ENOENT, s))"

definition below :: "string \<Rightarrow> string \<Rightarrow> bool" where
  "below d p \<longleftrightarrow> p = d \<or> starts_with p (d @ ''/'')"

definition os_remove_dir_all :: "string \<Rightarrow> fs \<Rightarrow> (unit, int) result \<times> fs" where
  "os_remove_dir_all d = sys_call
     (\<lambda>k s. s\<lparr>fs_files := filter (\<lambda>e. fst e \<notin> set (take k (map fst (filter (\<lambda>e. below d (fst e)) (fs_files s))))) (fs_files s)\<rparr>)
     (\<lambda>s. if dir_exists d s
          then (Ok (), s\<lparr>fs_files := filter (\<lambda>e. \<not> below d (fst e)) (fs_files s),
                         fs_dirs := filter (\<lambda>p. \<not> below d p) (fs_dirs s)\<rparr>)
          else (Err ENOENT, s))"

text \<open>The clock is a system call that does not fail.\<close>

definition now_ms :: "fs \<Rightarrow> u64 \<times> fs" where
  "now_ms s = (fs_clock s (fs_tick s), s\<lparr>fs_tick := Suc (fs_tick s)\<rparr>)"

section \<open>The helpers of \<open>util\<close>\<close>

text \<open>The text of an operating-system error, and \<open>From<io::Error>\<close>.\<close>

definition os_error_text :: "fs \<Rightarrow> int \<Rightarrow> string" where
  "os_error_text s e = fs_strerror s e @ '' (os error '' @ show_int e @ '')''"

definition io_from :: "(fs \<Rightarrow> ('a, int) result \<times> fs) \<Rightarrow> (fs \<Rightarrow> int \<Rightarrow> error) \<Rightarrow> 'a io" where
  "io_from f conv s = (case f s of (Ok x, s') \<Rightarrow> (Ok x, s') | (Err e, s') \<Rightarrow> (Err (conv s e), s'))"

definition from_io_error :: "fs \<Rightarrow> int \<Rightarrow> error" where
  "from_io_error s e = Syscall ''io'' e (os_error_text s e)"

definition read_to_string :: "string \<Rightarrow> string io" where
  "read_to_string p = io_bind (io_from (os_read p) (\<lambda>_ e. Syscall ''read'' e p)) (\<lambda>c.
     if utf8_valid c then io_ok c else io_err (Io (p @ '': stream did not contain valid UTF-8'')))"

definition write_file :: "string \<Rightarrow> string \<Rightarrow> unit io" where
  "write_file p d = io_bind (io_from (os_create p) (\<lambda>_ e. Syscall ''write'' e p)) (\<lambda>_.
     io_from (os_write_all p d) (\<lambda>_ e. Syscall ''write'' e p))"

definition mkdir_p :: "string \<Rightarrow> unit io" where
  "mkdir_p p = io_from (os_mkdir_all p) (\<lambda>_ e. Syscall ''mkdir'' e p)"

definition tmp_path :: "nat \<Rightarrow> string \<Rightarrow> string" where
  "tmp_path pid p = path_join (path_parent p)
     (''.'' @ (if path_file_name p = [] then ''f'' else path_file_name p) @ ''.tmp.'' @ show_nat pid)"

text \<open>\<open>write_atomic\<close>: create a temporary file beside the target, write, sync, rename.\<close>

definition write_atomic :: "nat \<Rightarrow> string \<Rightarrow> string \<Rightarrow> unit io" where
  "write_atomic pid p d =
     (let tmp = tmp_path pid p
      in io_bind (io_from (os_create tmp) from_io_error) (\<lambda>_.
         io_bind (io_from (os_write_all tmp d) from_io_error) (\<lambda>_.
         io_bind (io_from os_sync from_io_error) (\<lambda>_ s.
           case os_rename tmp p s of
             (Ok _, s1) \<Rightarrow> (Ok (), s1)
           | (Err e, s1) \<Rightarrow>
               (Err (Io (''rename '' @ tmp @ '' -> '' @ p @ '': '' @ os_error_text s e)),
                snd (os_remove tmp s1))))))"

text \<open>
  \<open>FileLock::acquire\<close>: open or create the lock file and take the lock.  A path with a NUL
  byte is refused before any call.
\<close>

definition cstr :: "string \<Rightarrow> unit res" where
  "cstr s = (if CHR 0x00 \<in> set s then Err (Config (''string contains a NUL byte: '' @ debug_str s)) else Ok ())"

definition os_open_rw_creat :: "string \<Rightarrow> fs \<Rightarrow> (unit, int) result \<times> fs" where
  "os_open_rw_creat p = sys_call (\<lambda>_ s. s) (\<lambda>s.
     if p \<in> set (fs_dirs s) then (Err EISDIR, s)
     else if file_of s p \<noteq> None then (Ok (), s)
     else if \<not> dir_exists (path_parent p) s then (Err ENOENT, s)
     else (Ok (), put_file p [] s))"

text \<open>
  \<open>flock(LOCK_EX)\<close>, for the case that it returns: the lock is granted, or the call fails.  The
  case that it waits for ever is that of \<open>with_lock\<close>, where the runtime as a whole is modelled.
\<close>

definition os_flock :: "fs \<Rightarrow> (unit, int) result \<times> fs" where
  "os_flock = sys_call (\<lambda>_ s. s) (\<lambda>s. (Ok (), s))"

definition file_lock_acquire :: "string \<Rightarrow> unit io" where
  "file_lock_acquire p =
     io_bind (io_lift (cstr p)) (\<lambda>_.
     io_bind (io_from (os_open_rw_creat p) (\<lambda>_ e. Syscall ''open'' e p)) (\<lambda>_.
       io_from os_flock (\<lambda>_ e. Syscall ''flock'' e p)))"

section \<open>Laws\<close>

named_theorems io_simps "inversion of operations on the file system"

lemma io_bind_Ok [io_simps]:
  "io_bind m f s = (Ok y, t) \<longleftrightarrow> (\<exists>x u. m s = (Ok x, u) \<and> f x u = (Ok y, t))"
  by (auto simp: io_bind_def split: prod.splits result.splits)

lemma io_bind_Err [io_simps]:
  "io_bind m f s = (Err e, t) \<longleftrightarrow> m s = (Err e, t) \<or> (\<exists>x u. m s = (Ok x, u) \<and> f x u = (Err e, t))"
  by (auto simp: io_bind_def split: prod.splits result.splits)

lemma io_ok_eq [io_simps]: "io_ok x s = (r, t) \<longleftrightarrow> r = Ok x \<and> t = s"
  by (auto simp: io_ok_def)

lemma io_err_eq [io_simps]: "io_err e s = (r, t) \<longleftrightarrow> r = Err e \<and> t = s"
  by (auto simp: io_err_def)

lemma io_lift_eq [io_simps]: "io_lift x s = (r, t) \<longleftrightarrow> r = x \<and> t = s"
  by (auto simp: io_lift_def)

lemma io_from_Ok [io_simps]: "io_from f c s = (Ok x, t) \<longleftrightarrow> f s = (Ok x, t)"
  by (auto simp: io_from_def split: prod.splits result.splits)

lemma io_from_Err [io_simps]: "io_from f c s = (Err e, t) \<longleftrightarrow> (\<exists>n. f s = (Err n, t) \<and> e = c s n)"
  by (auto simp: io_from_def split: prod.splits result.splits)

lemma map_of_filter_ne: "map_of (filter (\<lambda>e. fst e \<noteq> p) m) q = (if q = p then None else map_of m q)"
  by (induction m) auto

lemma file_of_put [simp]: "file_of (put_file p c s) q = (if q = p then Some c else file_of s q)"
  by (simp add: file_of_def put_file_def map_of_filter_ne)

lemma file_of_del [simp]: "file_of (del_file p s) q = (if q = p then None else file_of s q)"
  by (simp add: file_of_def del_file_def map_of_filter_ne)

lemma file_of_tick [simp]: "file_of (s\<lparr>fs_tick := n\<rparr>) q = file_of s q"
  by (simp add: file_of_def)

lemma file_of_add_dirs [simp]: "file_of (add_dirs ps s) q = file_of s q"
  by (simp add: file_of_def add_dirs_def)

lemma dirs_put [simp]: "fs_dirs (put_file p c s) = fs_dirs s" "fs_dirs (del_file p s) = fs_dirs s"
  by (simp_all add: put_file_def del_file_def)

lemma dir_exists_simps [simp]: "dir_exists p (put_file q c s) = dir_exists p s"
  "dir_exists p (del_file q s) = dir_exists p s" "dir_exists p (s\<lparr>fs_tick := n\<rparr>) = dir_exists p s"
  by (simp_all add: dir_exists_def)

text \<open>What the system calls may do to the files.\<close>

lemmas sys_defs = sys_call_def Let_def

lemma os_create_cases:
  "os_create p s = (r, t) \<Longrightarrow> fs_dirs t = fs_dirs s \<and> (\<forall>q. q \<noteq> p \<longrightarrow> file_of t q = file_of s q)
     \<and> (r = Ok () \<longrightarrow> file_of t p = Some []) \<and> (\<forall>e. r = Err e \<longrightarrow> file_of t p = file_of s p)"
  by (auto simp: os_create_def sys_defs split: option.splits if_splits)

lemma os_write_all_cases:
  "os_write_all p d s = (r, t) \<Longrightarrow> fs_dirs t = fs_dirs s \<and> (\<forall>q. q \<noteq> p \<longrightarrow> file_of t q = file_of s q)
     \<and> (r = Ok () \<longrightarrow> file_of t p = Some d)"
  by (auto simp: os_write_all_def sys_defs split: option.splits if_splits)

lemma os_sync_cases: "os_sync s = (r, t) \<Longrightarrow> fs_dirs t = fs_dirs s \<and> (\<forall>q. file_of t q = file_of s q)"
  by (auto simp: os_sync_def sys_defs split: option.splits)

lemma os_rename_cases:
  "os_rename a b s = (r, t) \<Longrightarrow> fs_dirs t = fs_dirs s \<and> (\<forall>q. q \<noteq> a \<longrightarrow> q \<noteq> b \<longrightarrow> file_of t q = file_of s q)
     \<and> (r = Ok () \<longrightarrow> file_of t b = file_of s a \<and> file_of s a \<noteq> None)
     \<and> (\<forall>e. r = Err e \<longrightarrow> (\<forall>q. file_of t q = file_of s q))"
  by (auto simp: os_rename_def sys_defs split: option.splits if_splits)

lemma os_remove_cases:
  "os_remove p s = (r, t) \<Longrightarrow> fs_dirs t = fs_dirs s \<and> (\<forall>q. q \<noteq> p \<longrightarrow> file_of t q = file_of s q)"
  by (auto simp: os_remove_def sys_defs split: option.splits if_splits)

section \<open>Atomic writes\<close>

lemma path_split_lengths:
  "length (path_parent p) + length (path_file_name p) + 1 \<ge> length p"
proof -
  define base where "base = rev (takeWhile (\<lambda>c. c \<noteq> CHR ''/'') (rev p))"
  define dir where "dir = take (length p - length base) p"
  have "length base \<le> length p" unfolding base_def by (metis length_rev length_takeWhile_le)
  then have "length dir + length base = length p" by (simp add: dir_def)
  moreover have "path_parent p = (if length dir \<le> 1 then dir else butlast dir)" "path_file_name p = base"
    by (simp_all add: path_parent_def path_file_name_def path_split_def base_def dir_def Let_def)
  ultimately show ?thesis by auto
qed

lemma tmp_path_longer: "length p < length (tmp_path pid p)"
proof -
  define x where "x = ''.'' @ (if path_file_name p = [] then ''f'' else path_file_name p) @ ''.tmp.'' @ show_nat pid"
  have "\<not> starts_with x ''/''" by (simp add: x_def)
  then have "length (path_join (path_parent p) x) \<ge> length (path_parent p) + length x"
    by (simp add: path_join_def)
  moreover have "length x \<ge> length (path_file_name p) + 6" by (simp add: x_def)
  moreover have "tmp_path pid p = path_join (path_parent p) x" unfolding tmp_path_def x_def ..
  ultimately show ?thesis using path_split_lengths [of p] by simp
qed

lemma tmp_path_ne [simp]: "tmp_path pid p \<noteq> p" "p \<noteq> tmp_path pid p"
  using tmp_path_longer [of p pid] by auto

lemma write_atomic_cases:
  assumes "write_atomic pid p d s = (r, t)"
  shows "(\<forall>q. q \<noteq> p \<longrightarrow> q \<noteq> tmp_path pid p \<longrightarrow> file_of t q = file_of s q)
    \<and> fs_dirs t = fs_dirs s
    \<and> (r = Ok () \<longrightarrow> file_of t p = Some d) \<and> (\<forall>e. r = Err e \<longrightarrow> file_of t p = file_of s p)"
proof -
  let ?tmp = "tmp_path pid p"
  let ?keep = "\<lambda>u. (\<forall>q. q \<noteq> ?tmp \<longrightarrow> file_of u q = file_of s q) \<and> fs_dirs u = fs_dirs s"
  let ?fin = "\<lambda>_ :: unit. \<lambda>s. case os_rename ?tmp p s of
             (Ok _, s1) \<Rightarrow> (Ok (), s1)
           | (Err e, s1) \<Rightarrow>
               (Err (Io (''rename '' @ ?tmp @ '' -> '' @ p @ '': '' @ os_error_text s e)),
                snd (os_remove ?tmp s1))"
  have fail: ?thesis if "?keep t" "r = Err e" for e
    using that by simp
  obtain r1 s1 where 1: "io_from (os_create ?tmp) from_io_error s = (r1, s1)" by (cases "io_from (os_create ?tmp) from_io_error s")
  have k1: "?keep s1" using 1 os_create_cases [of ?tmp s] by (cases r1) (fastforce simp: io_simps)+
  obtain r2 s2 where 2: "io_from (os_write_all ?tmp d) from_io_error s1 = (r2, s2)" by (cases "io_from (os_write_all ?tmp d) from_io_error s1")
  have k2: "?keep s2" using k1 2 os_write_all_cases [of ?tmp d s1] by (cases r2) (fastforce simp: io_simps)+
  obtain r3 s3 where 3: "io_from os_sync from_io_error s2 = (r3, s3)" by (cases "io_from os_sync from_io_error s2")
  have k3: "?keep s3" using k2 3 os_sync_cases [of s2] by (cases r3) (fastforce simp: io_simps)+
  have w: "write_atomic pid p d s = (case r1 of Err e \<Rightarrow> (Err e, s1) | Ok _ \<Rightarrow>
      case r2 of Err e \<Rightarrow> (Err e, s2) | Ok _ \<Rightarrow> case r3 of Err e \<Rightarrow> (Err e, s3) | Ok _ \<Rightarrow> ?fin () s3)"
    unfolding write_atomic_def Let_def io_bind_def 1 prod.case
    by (cases r1; simp add: 2; cases r2; simp add: 3; cases r3; simp)
  show ?thesis
  proof (cases "\<exists>x y z. r1 = Ok x \<and> r2 = Ok y \<and> r3 = Ok z")
    case False
    then show ?thesis using fail assms k1 k2 k3 unfolding w by (auto split: result.splits)
  next
    case True
    then have f: "?fin () s3 = (r, t)" using assms unfolding w by auto
    have d: "file_of s3 ?tmp = Some d"
      using True 2 3 os_write_all_cases [of ?tmp d s1 "Ok ()" s2] os_sync_cases [of s2 "Ok ()" s3]
      by (auto simp: io_simps)
    obtain r4 s4 where 4: "os_rename ?tmp p s3 = (r4, s4)" by (cases "os_rename ?tmp p s3")
    obtain r5 s5 where 5: "os_remove ?tmp s4 = (r5, s5)" by (cases "os_remove ?tmp s4")
    show ?thesis
      using os_rename_cases [OF 4] os_remove_cases [OF 5] f 4 5 d k3 by (cases r4) auto
  qed
qed

text \<open>
  C11: A file written by \<open>write_atomic\<close> is never seen half-written: whatever call fails, and
  however much of the data had been written by then, the target holds its old contents; when
  the operation succeeds it holds exactly the new contents.  No other file changes, except
  the temporary one.
\<close>

theorem write_atomic_all_or_nothing:
  "(case write_atomic pid p d s of
      (Ok _, t) \<Rightarrow> file_of t p = Some d
    | (Err _, t) \<Rightarrow> file_of t p = file_of s p)
   \<and> (\<forall>q. q = p \<or> q = tmp_path pid p \<or> file_of (snd (write_atomic pid p d s)) q = file_of s q)"
proof -
  obtain r t where w: "write_atomic pid p d s = (r, t)" by (cases "write_atomic pid p d s")
  show ?thesis using write_atomic_cases [OF w] by (cases r) (auto simp: w)
qed

end
