(* ===== verification/State.thy ===== *)
theory State
  imports Config_Laws Process Fs
begin

text \<open>
  \<open>src/runtime/state.rs\<close>: the container state machine, the JSON form of the state and the
  state store.  The store's operations run on the file system of \<open>Fs\<close>; \<open>root\<close> is the
  runtime root, \<open>pid\<close> the process id used for temporary files and \<open>procs\<close> the stat files
  under \<open>/proc\<close>.  Log messages are not modelled.
\<close>

section \<open>Status\<close>

datatype status = Creating | Created | Running | Paused | Stopping | Stopped

fun status_as_str :: "status \<Rightarrow> string" where
  "status_as_str Creating = ''creating''"
| "status_as_str Created = ''created''"
| "status_as_str Running = ''running''"
| "status_as_str Paused = ''paused''"
| "status_as_str Stopping = ''stopping''"
| "status_as_str Stopped = ''stopped''"

definition status_parse :: "string \<Rightarrow> status res" where
  "status_parse s =
     (if s = ''creating'' then Ok Creating
      else if s = ''created'' then Ok Created
      else if s = ''running'' then Ok Running
      else if s = ''paused'' then Ok Paused
      else if s = ''stopping'' then Ok Stopping
      else if s = ''stopped'' then Ok Stopped
      else Err (Parse (''unknown container status '' @ debug_str s)))"

fun is_live :: "status \<Rightarrow> bool" where
  "is_live Running = True"
| "is_live Paused = True"
| "is_live Stopping = True"
| "is_live _ = False"

definition can_transition_to :: "status \<Rightarrow> status \<Rightarrow> bool" where
  "can_transition_to a b \<longleftrightarrow> (a, b) \<in>
     {(Creating, Created), (Creating, Stopped), (Created, Running), (Created, Stopped),
      (Running, Paused), (Running, Stopping), (Running, Stopped), (Paused, Running),
      (Paused, Stopping), (Paused, Stopped), (Stopping, Stopped)}"

section \<open>Network and container state\<close>

record network_state =
  ns_mode :: string
  ns_bridge :: "string option"
  ns_host_veth :: "string option"
  ns_container_veth :: "string option"
  ns_ip :: "string option"
  ns_prefix :: u8
  ns_gateway :: "string option"
  ns_published :: "port_mapping list"

definition network_state_default :: network_state where
  "network_state_default = \<lparr>ns_mode = ''none'', ns_bridge = None, ns_host_veth = None,
     ns_container_veth = None, ns_ip = None, ns_prefix = 24, ns_gateway = None, ns_published = []\<rparr>"

definition network_state_to_json :: "network_state \<Rightarrow> json" where
  "network_state_to_json n = json_build
     [(''mode'', Str (ns_mode n)), (''bridge'', opt_str (ns_bridge n)),
      (''host_veth'', opt_str (ns_host_veth n)), (''container_veth'', opt_str (ns_container_veth n)),
      (''ip'', opt_str (ns_ip n)), (''prefix'', JInt (ucast (ns_prefix n))),
      (''gateway'', opt_str (ns_gateway n)),
      (''published'', Arr (map port_mapping_to_json (ns_published n)))]"

definition published_entry :: "json \<Rightarrow> port_mapping" where
  "published_entry p =
     \<lparr>host_port = ucast (unwrap_or 0 (get_u64 p ''host_port'')),
      container_port = ucast (unwrap_or 0 (get_u64 p ''container_port'')),
      protocol = unwrap_or ''tcp'' (get_str p ''protocol'')\<rparr>"

definition network_state_from_json :: "json \<Rightarrow> network_state" where
  "network_state_from_json j =
     \<lparr>ns_mode = unwrap_or ''none'' (get_str j ''mode''),
      ns_bridge = get_str j ''bridge'',
      ns_host_veth = get_str j ''host_veth'',
      ns_container_veth = get_str j ''container_veth'',
      ns_ip = get_str j ''ip'',
      ns_prefix = ucast (unwrap_or 24 (get_u64 j ''prefix'')),
      ns_gateway = get_str j ''gateway'',
      ns_published = (case get_array j ''published'' of Some a \<Rightarrow> map published_entry a | None \<Rightarrow> [])\<rparr>"

record container_state =
  cs_id :: string
  cs_name :: "string option"
  cs_status :: status
  cs_init_pid :: i32
  cs_init_start_time :: u64
  cs_shim_pid :: i32
  cs_created_at :: u64
  cs_started_at :: u64
  cs_finished_at :: u64
  cs_exit_code :: "i32 option"
  cs_exit_signal :: "i32 option"
  cs_oom_killed :: bool
  cs_error :: "string option"
  cs_cgroup_path :: "string option"
  cs_network :: network_state
  cs_config :: container_config

definition state_new :: "container_config \<Rightarrow> container_state io" where
  "state_new c s = (case now_ms s of (now, s') \<Rightarrow>
     (Ok \<lparr>cs_id = c_id c, cs_name = c_name c, cs_status = Creating, cs_init_pid = 0,
          cs_init_start_time = 0, cs_shim_pid = 0, cs_created_at = now, cs_started_at = 0,
          cs_finished_at = 0, cs_exit_code = None, cs_exit_signal = None, cs_oom_killed = False,
          cs_error = None, cs_cgroup_path = None,
          cs_network = network_state_default\<lparr>ns_mode := network_mode_as_str (n_mode (c_network c))\<rparr>,
          cs_config = c\<rparr>, s'))"

text \<open>\<open>if self.finished_at == 0 { self.finished_at = now_ms(); }\<close>.\<close>

definition stamp_finished :: "container_state \<Rightarrow> fs \<Rightarrow> container_state \<times> fs" where
  "stamp_finished st s =
     (if cs_finished_at st = 0
      then (case now_ms s of (now, s') \<Rightarrow> (st\<lparr>cs_finished_at := now\<rparr>, s'))
      else (st, s))"

definition stamp_started :: "container_state \<Rightarrow> fs \<Rightarrow> container_state \<times> fs" where
  "stamp_started st s =
     (if cs_started_at st = 0
      then (case now_ms s of (now, s') \<Rightarrow> (st\<lparr>cs_started_at := now\<rparr>, s'))
      else (st, s))"

definition transition :: "status \<Rightarrow> container_state \<Rightarrow> container_state io" where
  "transition nxt st s =
     (if cs_status st = nxt then (Ok st, s)
      else if \<not> can_transition_to (cs_status st) nxt
      then (Err (InvalidState (''container '' @ short_id (cs_id st) @ '' cannot go from '' @
              status_as_str (cs_status st) @ '' to '' @ status_as_str nxt)), s)
      else
        (let st1 = st\<lparr>cs_status := nxt\<rparr>
         in case nxt of
              Running \<Rightarrow> (case stamp_started st1 s of (st2, s') \<Rightarrow> (Ok st2, s'))
            | Stopped \<Rightarrow> (case stamp_finished st1 s of (st2, s') \<Rightarrow> (Ok st2, s'))
            | _ \<Rightarrow> (Ok st1, s)))"

definition record_exit :: "exit_status \<Rightarrow> container_state \<Rightarrow> fs \<Rightarrow> container_state \<times> fs" where
  "record_exit es st s =
     stamp_finished (st\<lparr>cs_exit_code := es_code es, cs_exit_signal := es_signal es\<rparr>) s"

definition effective_exit_code :: "container_state \<Rightarrow> i32" where
  "effective_exit_code st = status_exit_code \<lparr>es_code = cs_exit_code st, es_signal = cs_exit_signal st\<rparr>"

definition init_is_alive :: "(i32 \<Rightarrow> string option) \<Rightarrow> container_state \<Rightarrow> bool" where
  "init_is_alive procs st =
     (if sint (cs_init_pid st) \<le> 0 then False
      else process_alive procs (cs_init_pid st)
        (if cs_init_start_time st = 0 then None else Some (cs_init_start_time st)))"

definition uptime_ms :: "container_state \<Rightarrow> fs \<Rightarrow> u64 \<times> fs" where
  "uptime_ms st s =
     (if cs_started_at st = 0 then (0, s)
      else
        (let (end', s') = (if cs_finished_at st > 0 then (cs_finished_at st, s) else now_ms s)
         in (if end' < cs_started_at st then 0 else end' - cs_started_at st, s')))"

text \<open>\<open>c as i64\<close> of an \<open>i32\<close>.\<close>

definition opt_i32 :: "i32 option \<Rightarrow> json" where
  "opt_i32 v = (case v of Some c \<Rightarrow> JInt (scast c) | None \<Rightarrow> Null)"

definition state_to_json :: "container_state \<Rightarrow> json" where
  "state_to_json st = json_build
     [(''id'', Str (cs_id st)), (''name'', opt_str (cs_name st)),
      (''status'', Str (status_as_str (cs_status st))),
      (''init_pid'', JInt (scast (cs_init_pid st))), (''init_start_time'', JInt (cs_init_start_time st)),
      (''shim_pid'', JInt (scast (cs_shim_pid st))), (''created_at'', JInt (cs_created_at st)),
      (''started_at'', JInt (cs_started_at st)), (''finished_at'', JInt (cs_finished_at st)),
      (''exit_code'', opt_i32 (cs_exit_code st)), (''exit_signal'', opt_i32 (cs_exit_signal st)),
      (''oom_killed'', Bool (cs_oom_killed st)), (''error'', opt_str (cs_error st)),
      (''cgroup_path'', opt_str (cs_cgroup_path st)),
      (''network'', network_state_to_json (cs_network st)),
      (''config'', config_to_json (cs_config st))]"

definition get_i64 :: "json \<Rightarrow> string \<Rightarrow> i64 option" where
  "get_i64 j key = Option.bind (json_get j key) as_i64"

definition state_from_json :: "json \<Rightarrow> container_state res" where
  "state_from_json j =
     r_bind (ok_or (Parse ''state file has no config section'') (json_get j ''config'')) (\<lambda>cj.
     r_bind (config_from_json cj) (\<lambda>c.
     r_bind (ok_or (Parse ''state file has no id'') (get_str j ''id'')) (\<lambda>i.
     r_bind (status_parse (unwrap_or ''stopped'' (get_str j ''status''))) (\<lambda>stt.
       Ok \<lparr>cs_id = i, cs_name = get_str j ''name'', cs_status = stt,
           cs_init_pid = ucast (unwrap_or 0 (get_i64 j ''init_pid'')),
           cs_init_start_time = unwrap_or 0 (get_u64 j ''init_start_time''),
           cs_shim_pid = ucast (unwrap_or 0 (get_i64 j ''shim_pid'')),
           cs_created_at = unwrap_or 0 (get_u64 j ''created_at''),
           cs_started_at = unwrap_or 0 (get_u64 j ''started_at''),
           cs_finished_at = unwrap_or 0 (get_u64 j ''finished_at''),
           cs_exit_code = map_option ucast (get_i64 j ''exit_code''),
           cs_exit_signal = map_option ucast (get_i64 j ''exit_signal''),
           cs_oom_killed = unwrap_or False (get_bool j ''oom_killed''),
           cs_error = get_str j ''error'',
           cs_cgroup_path = get_str j ''cgroup_path'',
           cs_network = (case json_get j ''network'' of
               Some n \<Rightarrow> network_state_from_json n | None \<Rightarrow> network_state_default),
           cs_config = c\<rparr>))))"

definition state_network_mode :: "container_state \<Rightarrow> network_mode" where
  "state_network_mode st = unwrap_or NetNone (r_ok (network_mode_parse (ns_mode (cs_network st))))"

section \<open>The store\<close>

definition store_containers_dir :: "string \<Rightarrow> string" where
  "store_containers_dir root = path_join root ''containers''"

definition store_open :: "string \<Rightarrow> string io" where
  "store_open root = io_bind (mkdir_p (store_containers_dir root)) (\<lambda>_. io_ok root)"

definition store_dir :: "string \<Rightarrow> string \<Rightarrow> string" where
  "store_dir root i = path_join (store_containers_dir root) i"

definition state_path :: "string \<Rightarrow> string \<Rightarrow> string" where
  "state_path root i = path_join (store_dir root i) ''state.json''"

definition config_path :: "string \<Rightarrow> string \<Rightarrow> string" where
  "config_path root i = path_join (store_dir root i) ''config.json''"

definition log_path :: "string \<Rightarrow> string \<Rightarrow> string" where
  "log_path root i = path_join (store_dir root i) ''container.log''"

definition shim_socket_path :: "string \<Rightarrow> string \<Rightarrow> string" where
  "shim_socket_path root i = path_join (store_dir root i) ''shim.sock''"

definition store_exists :: "string \<Rightarrow> string \<Rightarrow> bool io" where
  "store_exists root i s = (case os_exists (state_path root i) s of (b, s') \<Rightarrow> (Ok b, s'))"

definition store_lock :: "string \<Rightarrow> string \<Rightarrow> unit io" where
  "store_lock root i = io_bind (mkdir_p (store_dir root i)) (\<lambda>_.
     file_lock_acquire (path_join (store_dir root i) ''lock''))"

definition store_ids :: "string \<Rightarrow> string list io" where
  "store_ids root =
     (let d = store_containers_dir root
      in (\<lambda>s. case os_exists d s of
            (False, s') \<Rightarrow> (Ok [], s')
          | (True, s') \<Rightarrow>
              io_bind (io_from (os_read_dir d) (\<lambda>u e. Io (d @ '': '' @ os_error_text u e))) (\<lambda>names.
                io_bind (io_fold (\<lambda>n acc. io_bind (store_exists root n) (\<lambda>b.
                    io_ok (if b then acc @ [n] else acc))) names []) (\<lambda>out.
                  io_ok (sort out))) s'))"

definition store_load :: "string \<Rightarrow> string \<Rightarrow> container_state io" where
  "store_load root i =
     (let p = state_path root i
      in io_bind (store_exists root i) (\<lambda>ex.
         if \<not> ex then io_err (NotFound (''container '' @ short_id i))
         else io_bind (read_to_string p) (\<lambda>text.
           io_bind (io_lift (r_map_err (\<lambda>e. Parse (p @ '': '' @ display_error e)) (json_parse text))) (\<lambda>j.
             io_lift (state_from_json j)))))"

definition store_save :: "string \<Rightarrow> nat \<Rightarrow> container_state \<Rightarrow> unit io" where
  "store_save root pid st =
     io_bind (mkdir_p (store_dir root (cs_id st))) (\<lambda>_.
       write_atomic pid (state_path root (cs_id st)) (json_to_string_pretty (state_to_json st)))"

text \<open>The loop of \<open>resolve\<close>: an exact name returns at once, prefixes are collected.\<close>

fun resolve_loop :: "string \<Rightarrow> string \<Rightarrow> string list \<Rightarrow> string list \<Rightarrow> (string + string list) io" where
  "resolve_loop root needle [] ms = io_ok (Inr ms)"
| "resolve_loop root needle (i # is) ms =
     (if starts_with i needle then resolve_loop root needle is (ms @ [i])
      else io_try (store_load root i) (\<lambda>r.
        case r of
          Ok st \<Rightarrow> if cs_name st = Some needle then io_ok (Inl i) else resolve_loop root needle is ms
        | Err _ \<Rightarrow> resolve_loop root needle is ms))"

definition store_resolve :: "string \<Rightarrow> string \<Rightarrow> string io" where
  "store_resolve root needle =
     (if needle = [] then io_err (Usage ''no container specified'')
      else io_bind (store_exists root needle) (\<lambda>ex.
        if ex then io_ok needle
        else io_bind (store_ids root) (\<lambda>ids.
          io_bind (resolve_loop root needle ids []) (\<lambda>r.
            case r of
              Inl i \<Rightarrow> io_ok i
            | Inr [] \<Rightarrow> io_err (NotFound (''container '' @ debug_str needle))
            | Inr [m] \<Rightarrow> io_ok m
            | Inr ms \<Rightarrow> io_err (Usage (''container id prefix '' @ debug_str needle @ '' is ambiguous: '' @
                str_join '', '' (map short_id ms)))))))"

text \<open>Is the name taken by another container?\<close>

fun name_taken :: "string \<Rightarrow> string \<Rightarrow> string list \<Rightarrow> string option io" where
  "name_taken root name [] = io_ok None"
| "name_taken root name (i # is) = io_try (store_load root i) (\<lambda>r.
     case r of
       Ok other \<Rightarrow> if cs_name other = Some name then io_ok (Some i) else name_taken root name is
     | Err _ \<Rightarrow> name_taken root name is)"

definition store_create :: "string \<Rightarrow> nat \<Rightarrow> container_state \<Rightarrow> unit io" where
  "store_create root pid st =
     io_bind (store_exists root (cs_id st)) (\<lambda>ex.
       if ex then io_err (AlreadyExists (''container '' @ short_id (cs_id st)))
       else io_bind (case cs_name st of
           None \<Rightarrow> io_ok ()
         | Some name \<Rightarrow> io_bind (store_ids root) (\<lambda>ids. io_bind (name_taken root name ids) (\<lambda>t.
             case t of
               Some i \<Rightarrow> io_err (AlreadyExists (''container name '' @ debug_str name @ '' (used by '' @ short_id i @ '')''))
             | None \<Rightarrow> io_ok ()))) (\<lambda>_.
         io_bind (mkdir_p (store_dir root (cs_id st))) (\<lambda>_.
         io_bind (write_atomic pid (config_path root (cs_id st))
             (json_to_string_pretty (config_to_json (cs_config st)))) (\<lambda>_.
           store_save root pid st))))"

definition store_remove :: "string \<Rightarrow> string \<Rightarrow> unit io" where
  "store_remove root i =
     (let d = store_dir root i
      in (\<lambda>s. case os_exists d s of
            (True, s') \<Rightarrow> io_from (os_remove_dir_all d) (\<lambda>u e. Io (''removing '' @ d @ '': '' @ os_error_text u e)) s'
          | (False, s') \<Rightarrow> (Ok (), s')))"

definition store_list :: "string \<Rightarrow> container_state list io" where
  "store_list root =
     io_bind (store_ids root) (\<lambda>ids.
       io_bind (io_fold (\<lambda>i acc. io_try (store_load root i) (\<lambda>r.
           case r of Ok st \<Rightarrow> io_ok (acc @ [st]) | Err _ \<Rightarrow> io_ok acc)) ids []) (\<lambda>out.
         io_ok (sort_key (\<lambda>st. unat (cs_created_at st)) out)))"

definition reconcile_error :: string where
  "reconcile_error = ''init process disappeared without recording an exit status''"

definition store_reconcile ::
  "string \<Rightarrow> nat \<Rightarrow> (i32 \<Rightarrow> string option) \<Rightarrow> container_state \<Rightarrow> (bool \<times> container_state) io" where
  "store_reconcile root pid procs st =
     (if \<not> is_live (cs_status st) \<or> init_is_alive procs st then io_ok (False, st)
      else (\<lambda>s. case stamp_finished (st\<lparr>cs_status := Stopped\<rparr>) s of
         (st1, s') \<Rightarrow>
           (let st2 = (if cs_error st1 = None then st1\<lparr>cs_error := Some reconcile_error\<rparr> else st1)
            in io_bind (store_save root pid st2) (\<lambda>_. io_ok (True, st2)) s')))"

section \<open>Stopping without a transition\<close>

text \<open>The end of \<open>teardown\<close> (\<open>supervisor.rs\<close>), and the shim's record of a launch that failed (\<open>shim.rs\<close>).\<close>

definition force_stopped :: "container_state \<Rightarrow> container_state io" where
  "force_stopped st s =
     (if is_live (cs_status st)
      then (case stamp_finished (st\<lparr>cs_status := Stopped\<rparr>) s of (st', s') \<Rightarrow> (Ok st', s'))
      else (Ok st, s))"

definition stopped_by_error :: "container_state \<Rightarrow> error \<Rightarrow> container_state io" where
  "stopped_by_error st e s = (case now_ms s of (now, s') \<Rightarrow>
     (Ok (st\<lparr>cs_error := Some (display_error e), cs_status := Stopped, cs_finished_at := now\<rparr>), s'))"

end
