(* ===== verification/State_Laws.thy ===== *)
theory State_Laws
  imports State
begin

text \<open>
  Laws of \<open>src/runtime/state.rs\<close>: the state machine's invariants over every history of
  transitions, the round trip of the state file, and what the store's operations do to it.
\<close>

section \<open>The state machine\<close>

lemma transition_Ok:
  "transition nxt st s = (Ok st', s') \<longleftrightarrow>
     (cs_status st = nxt \<and> st' = st \<and> s' = s) \<or>
     (cs_status st \<noteq> nxt \<and> can_transition_to (cs_status st) nxt \<and>
       (case nxt of
          Running \<Rightarrow> stamp_started (st\<lparr>cs_status := nxt\<rparr>) s = (st', s')
        | Stopped \<Rightarrow> stamp_finished (st\<lparr>cs_status := nxt\<rparr>) s = (st', s')
        | _ \<Rightarrow> st' = st\<lparr>cs_status := nxt\<rparr> \<and> s' = s))"
  by (cases nxt) (auto simp: transition_def split: prod.splits)

lemma stamp_started_pos:
  assumes "stamp_started st s = (st', s')" "\<forall>n. fs_clock s n \<noteq> 0"
  obtains t where "t \<noteq> 0" "st' = st\<lparr>cs_started_at := t\<rparr>" "cs_started_at st \<noteq> 0 \<Longrightarrow> t = cs_started_at st"
proof (cases "cs_started_at st = 0")
  case True
  have "st' = st\<lparr>cs_started_at := fs_clock s (fs_tick s)\<rparr>"
    using assms(1) True by (simp add: stamp_started_def now_ms_def)
  moreover have "fs_clock s (fs_tick s) \<noteq> 0" using assms(2) by blast
  ultimately show ?thesis using True by (intro that) blast+
next
  case False
  then have "st' = st" using assms(1) by (simp add: stamp_started_def)
  then show ?thesis using False by (intro that [of "cs_started_at st"]) simp_all
qed

lemma stamp_finished_pos:
  assumes "stamp_finished st s = (st', s')" "\<forall>n. fs_clock s n \<noteq> 0"
  obtains t where "t \<noteq> 0" "st' = st\<lparr>cs_finished_at := t\<rparr>" "cs_finished_at st \<noteq> 0 \<Longrightarrow> t = cs_finished_at st"
proof (cases "cs_finished_at st = 0")
  case True
  have "st' = st\<lparr>cs_finished_at := fs_clock s (fs_tick s)\<rparr>"
    using assms(1) True by (simp add: stamp_finished_def now_ms_def)
  moreover have "fs_clock s (fs_tick s) \<noteq> 0" using assms(2) by blast
  ultimately show ?thesis using True by (intro that) blast+
next
  case False
  then have "st' = st" using assms(1) by (simp add: stamp_finished_def)
  then show ?thesis using False by (intro that [of "cs_finished_at st"]) simp_all
qed

text \<open>
  The histories of a container's state: it is created by \<open>new\<close>, and every change of status
  goes through \<open>transition\<close>, the correction of \<open>reconcile\<close>, or the two assignments of \<open>Stopped\<close> in
  \<open>teardown\<close> and in the shim; \<open>record_exit\<close> notes the exit, and the other fields (the process, the
  network, the error) may change at any time.  The clock reads a positive time (it counts
  from the epoch).
\<close>

inductive history :: "container_state \<Rightarrow> bool" where
  new: "state_new c s = (Ok st, s') \<Longrightarrow> history st"
| trans: "history st \<Longrightarrow> transition nxt st s = (Ok st', s') \<Longrightarrow> \<forall>n. fs_clock s n \<noteq> 0 \<Longrightarrow> history st'"
| exit: "history st \<Longrightarrow> record_exit es st s = (st', s') \<Longrightarrow> \<forall>n. fs_clock s n \<noteq> 0 \<Longrightarrow> history st'"
| reconcile: "history st \<Longrightarrow> store_reconcile root pid procs st s = (Ok (b, st'), s') \<Longrightarrow>
     \<forall>n. fs_clock s n \<noteq> 0 \<Longrightarrow> history st'"
| teardown: "history st \<Longrightarrow> force_stopped st s = (Ok st', s') \<Longrightarrow> \<forall>n. fs_clock s n \<noteq> 0 \<Longrightarrow> history st'"
| failed: "history st \<Longrightarrow> stopped_by_error st e s = (Ok st', s') \<Longrightarrow> \<forall>n. fs_clock s n \<noteq> 0 \<Longrightarrow> history st'"
| fields: "history st \<Longrightarrow> cs_status st' = cs_status st \<Longrightarrow> cs_started_at st' = cs_started_at st \<Longrightarrow>
     cs_finished_at st' = cs_finished_at st \<Longrightarrow> history st'"

inductive_cases historyE: "history st"

definition stamps_ok :: "container_state \<Rightarrow> bool" where
  "stamps_ok st \<longleftrightarrow> (is_live (cs_status st) \<longrightarrow> cs_started_at st \<noteq> 0) \<and>
     (cs_status st \<in> {Creating, Created} \<longrightarrow> cs_started_at st = 0) \<and>
     (cs_status st = Stopped \<longrightarrow> cs_finished_at st \<noteq> 0)"

lemma transition_stamps:
  assumes "stamps_ok st" "transition nxt st s = (Ok st', s')" "\<forall>n. fs_clock s n \<noteq> 0"
  shows "stamps_ok st'"
proof (cases "cs_status st = nxt")
  case True
  then show ?thesis using assms by (simp add: transition_Ok)
next
  case False
  then have can: "can_transition_to (cs_status st) nxt"
    and n: "case nxt of
          Running \<Rightarrow> stamp_started (st\<lparr>cs_status := nxt\<rparr>) s = (st', s')
        | Stopped \<Rightarrow> stamp_finished (st\<lparr>cs_status := nxt\<rparr>) s = (st', s')
        | _ \<Rightarrow> st' = st\<lparr>cs_status := nxt\<rparr> \<and> s' = s"
    using assms(2) by (simp_all add: transition_Ok)
  show ?thesis
  proof (cases nxt)
    case Running
    then have st: "stamp_started (st\<lparr>cs_status := Running\<rparr>) s = (st', s')" using n by simp
    show ?thesis by (rule stamp_started_pos [OF st assms(3)]) (simp add: stamps_ok_def)
  next
    case Stopped
    then have st: "stamp_finished (st\<lparr>cs_status := Stopped\<rparr>) s = (st', s')" using n by simp
    show ?thesis by (rule stamp_finished_pos [OF st assms(3)]) (simp add: stamps_ok_def)
  next
    case Paused
    then show ?thesis using n can assms(1) by (auto simp: stamps_ok_def can_transition_to_def)
  next
    case Stopping
    then show ?thesis using n can assms(1) by (auto simp: stamps_ok_def can_transition_to_def)
  next
    case Created
    then show ?thesis using n can assms(1) by (auto simp: stamps_ok_def can_transition_to_def)
  next
    case Creating
    then show ?thesis using can by (auto simp: can_transition_to_def)
  qed
qed

lemma history_stamps: "history st \<Longrightarrow> stamps_ok st"
proof (induction rule: history.induct)
  case (new c s st s')
  then show ?case by (auto simp: state_new_def now_ms_def stamps_ok_def)
next
  case (trans st nxt s st' s')
  then show ?case using transition_stamps by blast
next
  case (exit st es s st' s')
  then have e: "stamp_finished (st\<lparr>cs_exit_code := es_code es, cs_exit_signal := es_signal es\<rparr>) s = (st', s')"
    by (simp add: record_exit_def)
  show ?case
    by (rule stamp_finished_pos [OF e exit(3)]) (use exit.IH in \<open>auto simp: stamps_ok_def\<close>)
next
  case (reconcile st root pid procs s b st' s')
  show ?case
  proof (cases "\<not> is_live (cs_status st) \<or> init_is_alive procs st")
    case True
    then show ?thesis using reconcile by (simp add: store_reconcile_def io_simps)
  next
    case False
    obtain st1 s1 where f: "stamp_finished (st\<lparr>cs_status := Stopped\<rparr>) s = (st1, s1)"
      by (cases "stamp_finished (st\<lparr>cs_status := Stopped\<rparr>) s")
    have "st' = (if cs_error st1 = None then st1\<lparr>cs_error := Some reconcile_error\<rparr> else st1)"
      using reconcile(2) False by (auto simp: store_reconcile_def f Let_def io_simps)
    then show ?thesis
      by - (rule stamp_finished_pos [OF f reconcile(3)], simp add: stamps_ok_def)
  qed
next
  case (teardown st s st' s')
  show ?case
  proof (cases "is_live (cs_status st)")
    case True
    then have "stamp_finished (st\<lparr>cs_status := Stopped\<rparr>) s = (st', s')"
      using teardown(2) by (auto simp: force_stopped_def split: prod.splits)
    then show ?thesis by (rule stamp_finished_pos [OF _ teardown(3)]) (simp add: stamps_ok_def)
  next
    case False
    then show ?thesis using teardown by (simp add: force_stopped_def)
  qed
next
  case (failed st e s st' s')
  then have "st' = st\<lparr>cs_error := Some (display_error e), cs_status := Stopped, cs_finished_at := fs_clock s (fs_tick s)\<rparr>"
    by (auto simp: stopped_by_error_def now_ms_def)
  then show ?case using failed(3) by (simp add: stamps_ok_def)
next
  case (fields st st')
  then show ?case by (simp add: stamps_ok_def)
qed

text \<open>
  C10: in every history of a container (under a clock that never reads zero), a live status (running, paused or stopping) has a
  start time, a container that was never started has none, and a stopped one has a finish
  time; a stopped container accepts no further change, and from any status a transition
  succeeds exactly when it is the identity or an edge of the diagram.
\<close>

theorem history_invariant:
  assumes "history st"
  shows "(is_live (cs_status st) \<longrightarrow> cs_started_at st \<noteq> 0)
    \<and> (cs_status st \<in> {Creating, Created} \<longrightarrow> cs_started_at st = 0)
    \<and> (cs_status st = Stopped \<longrightarrow> cs_finished_at st \<noteq> 0)
    \<and> (is_ok (fst (transition nxt st s)) \<longleftrightarrow> cs_status st = nxt \<or> can_transition_to (cs_status st) nxt)
    \<and> (cs_status st = Stopped \<longrightarrow> is_ok (fst (transition nxt st s)) \<longrightarrow> fst (transition nxt st s) = Ok st)"
proof -
  have ok: "is_ok (fst (transition nxt st s)) \<longleftrightarrow> cs_status st = nxt \<or> can_transition_to (cs_status st) nxt"
    by (cases nxt) (auto simp: transition_def Let_def split: prod.splits)
  have "\<not> can_transition_to Stopped nxt" by (simp add: can_transition_to_def)
  then have "cs_status st = Stopped \<Longrightarrow> is_ok (fst (transition nxt st s)) \<Longrightarrow> fst (transition nxt st s) = Ok st"
    using ok by (auto simp: transition_def)
  then show ?thesis using ok history_stamps [OF assms] unfolding stamps_ok_def by blast
qed

definition demo_fs :: fs where
  "demo_fs = \<lparr>fs_files = [], fs_dirs = [''/run'', ''/run/myrun'', ''/run/myrun/containers''], fs_tick = 0,
     fs_fail = (\<lambda>_. None), fs_clock = (\<lambda>n. of_nat (Suc n)), fs_strerror = (\<lambda>_. ''error'')\<rparr>"

theorem history_invariant_witness:
  "\<exists>st. history st \<and> cs_status st = Creating \<and> cs_started_at st = 0 \<and>
     \<not> is_ok (fst (transition Running st demo_fs))"
proof -
  obtain st s' where st: "state_new config_default demo_fs = (Ok st, s')" "cs_status st = Creating"
    by (simp add: state_new_def now_ms_def)
  then have h: "history st" by (auto intro: history.new)
  have "\<not> can_transition_to Creating Running" by (simp add: can_transition_to_def)
  then show ?thesis using history_invariant [OF h, of Running demo_fs] st(2) h by auto
qed

section \<open>The state file round trip\<close>

lemma status_roundtrip: "status_parse (status_as_str x) = Ok x"
  by (cases x) (simp_all add: status_parse_def)

lemma ucast_scast [simp]: "ucast (scast (x :: i32) :: i64) = x"
  by (rule bit_word_eqI) (auto simp: bit_simps)

lemma ucast_u8 [simp]: "ucast (ucast (x :: u8) :: u64) = x" "0 \<le> sint (ucast (x :: u8) :: u64)"
proof -
  show "ucast (ucast x :: u64) = x" by (rule bit_word_eqI) (simp add: bit_simps)
  have "\<not> bit (ucast x :: u64) 63" by (auto simp: bit_simps dest: bit_imp_le_length)
  then show "0 \<le> sint (ucast x :: u64)" by (simp add: bit_last_iff [symmetric] not_less [symmetric])
qed

lemma opt_i32_roundtrip: "map_option ucast (as_i64 (opt_i32 v)) = v"
  by (cases v) (simp_all add: opt_i32_def)

lemma published_roundtrip: "published_entry (port_mapping_to_json p) = p"
proof -
  let ?j = "port_mapping_to_json p"
  have g: "json_get ?j ''host_port'' = Some (JInt (ucast (host_port p)))"
    "json_get ?j ''container_port'' = Some (JInt (ucast (container_port p)))"
    "json_get ?j ''protocol'' = Some (Str (protocol p))"
    by (simp_all add: port_mapping_to_json_def json_simps del: json_get.simps)
  then show ?thesis by (simp add: published_entry_def get_u64_def get_str_def)
qed

lemma network_state_roundtrip: "network_state_from_json (network_state_to_json n) = n"
proof -
  let ?j = "network_state_to_json n"
  have g: "json_get ?j ''mode'' = Some (Str (ns_mode n))" "json_get ?j ''bridge'' = Some (opt_str (ns_bridge n))"
    "json_get ?j ''host_veth'' = Some (opt_str (ns_host_veth n))"
    "json_get ?j ''container_veth'' = Some (opt_str (ns_container_veth n))"
    "json_get ?j ''ip'' = Some (opt_str (ns_ip n))" "json_get ?j ''prefix'' = Some (JInt (ucast (ns_prefix n)))"
    "json_get ?j ''gateway'' = Some (opt_str (ns_gateway n))"
    "json_get ?j ''published'' = Some (Arr (map port_mapping_to_json (ns_published n)))"
    by (simp_all add: network_state_to_json_def json_simps del: json_get.simps)
  show ?thesis
    by (simp add: network_state_from_json_def g get_str_def get_u64_def get_array_def json_simps
        comp_def published_roundtrip)
qed

text \<open>Times and limits that fit JSON integers, a stored environment, distinct labels.\<close>

definition storable :: "container_state \<Rightarrow> bool" where
  "storable st \<longleftrightarrow> 0 \<le> sint (cs_init_start_time st) \<and> 0 \<le> sint (cs_created_at st)
     \<and> 0 \<le> sint (cs_started_at st) \<and> 0 \<le> sint (cs_finished_at st)
     \<and> env_ok (c_env (cs_config st)) \<and> limits_fit (c_resources (cs_config st))
     \<and> distinct (map fst (c_labels (cs_config st)))"

text \<open>What a file holds of a state: everything but \<open>detach\<close>, which only matters to the process that starts it.\<close>

definition stored :: "container_state \<Rightarrow> container_state" where
  "stored st = st\<lparr>cs_config := (cs_config st)\<lparr>c_detach := False\<rparr>\<rparr>"

lemma state_roundtrip:
  assumes "storable st"
  shows "state_from_json (state_to_json st) = Ok (stored st)"
proof -
  let ?j = "state_to_json st"
  have d: "distinct (map fst
     [(''id'', Str (cs_id st)), (''name'', opt_str (cs_name st)),
      (''status'', Str (status_as_str (cs_status st))),
      (''init_pid'', JInt (scast (cs_init_pid st))), (''init_start_time'', JInt (cs_init_start_time st)),
      (''shim_pid'', JInt (scast (cs_shim_pid st))), (''created_at'', JInt (cs_created_at st)),
      (''started_at'', JInt (cs_started_at st)), (''finished_at'', JInt (cs_finished_at st)),
      (''exit_code'', opt_i32 (cs_exit_code st)), (''exit_signal'', opt_i32 (cs_exit_signal st)),
      (''oom_killed'', Bool (cs_oom_killed st)), (''error'', opt_str (cs_error st)),
      (''cgroup_path'', opt_str (cs_cgroup_path st)),
      (''network'', network_state_to_json (cs_network st)),
      (''config'', config_to_json (cs_config st))])" by simp
  have g: "json_get ?j ''id'' = Some (Str (cs_id st))" "json_get ?j ''name'' = Some (opt_str (cs_name st))"
    "json_get ?j ''status'' = Some (Str (status_as_str (cs_status st)))"
    "json_get ?j ''init_pid'' = Some (JInt (scast (cs_init_pid st)))"
    "json_get ?j ''init_start_time'' = Some (JInt (cs_init_start_time st))"
    "json_get ?j ''shim_pid'' = Some (JInt (scast (cs_shim_pid st)))"
    "json_get ?j ''created_at'' = Some (JInt (cs_created_at st))"
    "json_get ?j ''started_at'' = Some (JInt (cs_started_at st))"
    "json_get ?j ''finished_at'' = Some (JInt (cs_finished_at st))"
    "json_get ?j ''exit_code'' = Some (opt_i32 (cs_exit_code st))"
    "json_get ?j ''exit_signal'' = Some (opt_i32 (cs_exit_signal st))"
    "json_get ?j ''oom_killed'' = Some (Bool (cs_oom_killed st))"
    "json_get ?j ''error'' = Some (opt_str (cs_error st))"
    "json_get ?j ''cgroup_path'' = Some (opt_str (cs_cgroup_path st))"
    "json_get ?j ''network'' = Some (network_state_to_json (cs_network st))"
    "json_get ?j ''config'' = Some (config_to_json (cs_config st))"
    unfolding state_to_json_def json_get_build [OF d] by simp_all
  have c: "config_from_json (config_to_json (cs_config st)) = Ok ((cs_config st)\<lparr>c_detach := False\<rparr>)"
    using config_roundtrip [of "cs_config st"] assms by (simp add: storable_def)
  show ?thesis
    using assms unfolding state_from_json_def g
    by (simp add: g c get_str_def get_u64_def get_i64_def get_bool_def json_simps status_roundtrip
        network_state_roundtrip opt_i32_roundtrip storable_def stored_def del: json_get.simps)
qed

section \<open>Paths of the store\<close>

lemma path_join_plain: "d \<noteq> [] \<Longrightarrow> last d \<noteq> CHR ''/'' \<Longrightarrow> \<not> starts_with x ''/'' \<Longrightarrow> path_join d x = d @ CHR ''/'' # x"
  by (auto simp: path_join_def ends_with_iff)

lemma takeWhile_stop: "c \<notin> set x \<Longrightarrow> takeWhile (\<lambda>a. a \<noteq> c) (x @ c # y) = x"
  by (induction x) auto

lemma path_split_plain:
  assumes "d \<noteq> []" "CHR ''/'' \<notin> set x"
  shows "path_parent (d @ CHR ''/'' # x) = d" "path_file_name (d @ CHR ''/'' # x) = x"
proof -
  have "takeWhile (\<lambda>c. c \<noteq> CHR ''/'') (rev (d @ CHR ''/'' # x)) = rev x"
    using takeWhile_stop [of "CHR ''/''" "rev x" "rev d"] assms(2) by simp
  then have "path_split (d @ CHR ''/'' # x) = (d, x)"
    using assms(1) unfolding path_split_def by (simp add: Let_def butlast_append Suc_le_eq)
  then show "path_parent (d @ CHR ''/'' # x) = d" "path_file_name (d @ CHR ''/'' # x) = x"
    by (simp_all add: path_parent_def path_file_name_def)
qed

lemma store_dir_plain:
  assumes "validate_id i = Ok ()"
  shows "store_dir root i \<noteq> []" "last (store_dir root i) \<noteq> CHR ''/''"
proof -
  note v = validate_id_component [OF assms]
  have "\<not> starts_with i ''/''" using v(1,3) by (cases i) auto
  then obtain pre where d: "store_dir root i = pre @ i"
    unfolding store_dir_def path_join_def by (metis append.assoc append_Nil)
  have "last i \<noteq> CHR ''/''" using v(1,3) last_in_set by metis
  then show "store_dir root i \<noteq> []" "last (store_dir root i) \<noteq> CHR ''/''" using v(1) d by auto
qed

lemma state_path_plain:
  assumes "validate_id i = Ok ()"
  shows "state_path root i = store_dir root i @ CHR ''/'' # ''state.json''"
    "config_path root i = store_dir root i @ CHR ''/'' # ''config.json''"
  using path_join_plain [OF store_dir_plain [OF assms]] by (simp_all add: state_path_def config_path_def)

lemma state_tmp_plain:
  assumes "validate_id i = Ok ()"
  shows "tmp_path pid (state_path root i) = store_dir root i @ CHR ''/'' # ''.state.json.tmp.'' @ show_nat pid"
    "tmp_path pid (config_path root i) = store_dir root i @ CHR ''/'' # ''.config.json.tmp.'' @ show_nat pid"
  unfolding tmp_path_def state_path_plain [OF assms]
  using path_split_plain [OF store_dir_plain(1) [OF assms], of _ root]
    path_join_plain [OF store_dir_plain [OF assms]] by simp_all

section \<open>Saving and loading\<close>

definition calm :: "fs \<Rightarrow> bool" where
  "calm s \<longleftrightarrow> (\<forall>n. fs_tick s \<le> n \<longrightarrow> fs_fail s n = None)"

lemma sys_call_calm:
  "calm s \<Longrightarrow> sys_call bad good s = good (s\<lparr>fs_tick := Suc (fs_tick s)\<rparr>) \<and> calm (s\<lparr>fs_tick := Suc (fs_tick s)\<rparr>)"
  by (simp add: calm_def sys_call_def Let_def)

lemma mkdir_p_files: "mkdir_p p s = (r, t) \<Longrightarrow> file_of t q = file_of s q"
  by (cases r) (auto simp: mkdir_p_def io_simps os_mkdir_all_def sys_defs split: option.splits if_splits)

lemma store_save_cases:
  assumes "store_save root pid st s = (r, t)"
  defines "p \<equiv> state_path root (cs_id st)"
  shows "(\<forall>q. q \<noteq> p \<longrightarrow> q \<noteq> tmp_path pid p \<longrightarrow> file_of t q = file_of s q)
    \<and> (r = Ok () \<longrightarrow> file_of t p = Some (json_to_string_pretty (state_to_json st)))
    \<and> (\<forall>e. r = Err e \<longrightarrow> file_of t p = file_of s p)"
proof -
  obtain r1 s1 where 1: "mkdir_p (store_dir root (cs_id st)) s = (r1, s1)"
    by (cases "mkdir_p (store_dir root (cs_id st)) s")
  note f = mkdir_p_files [OF 1]
  show ?thesis
  proof (cases r1)
    case (Err e)
    then show ?thesis using assms 1 f by (auto simp: store_save_def io_bind_def)
  next
    case (Ok x)
    then have w: "write_atomic pid p (json_to_string_pretty (state_to_json st)) s1 = (r, t)"
      using assms 1 by (simp add: store_save_def io_bind_def p_def)
    show ?thesis using write_atomic_cases [OF w] f by auto
  qed
qed

lemma os_exists_calm: "calm s \<Longrightarrow> os_exists p s = (file_of s p \<noteq> None \<or> dir_exists p s, s\<lparr>fs_tick := Suc (fs_tick s)\<rparr>)"
  by (simp add: os_exists_def sys_call_calm)

lemma os_read_calm: "calm s \<Longrightarrow> file_of s p = Some c \<Longrightarrow> os_read p s = (Ok c, s\<lparr>fs_tick := Suc (fs_tick s)\<rparr>)"
  by (simp add: os_read_def sys_call_calm)

lemma calm_tick: "calm s \<Longrightarrow> calm (s\<lparr>fs_tick := Suc (fs_tick s)\<rparr>)"
  by (simp add: calm_def)

lemma store_load_file:
  assumes "calm s" "file_of s (state_path root i) = Some (json_to_string_pretty (state_to_json st))"
    and "storable st" "plain_json (state_to_json st)"
  shows "\<exists>t. store_load root i s = (Ok (stored st), t)"
proof -
  have v: "utf8_valid (json_to_string_pretty (state_to_json st))"
    unfolding json_to_string_pretty_def by (rule json_write_valid [OF assms(4)])
  have j: "json_parse (json_to_string_pretty (state_to_json st)) = Ok (state_to_json st)"
    unfolding json_to_string_pretty_def by (rule json_parse_write [OF assms(4)])
  let ?s = "s\<lparr>fs_tick := Suc (fs_tick s)\<rparr>"
  have e: "store_exists root i s = (Ok True, ?s)"
    using assms(1,2) by (simp add: store_exists_def os_exists_calm)
  have r: "\<exists>t. read_to_string (state_path root i) ?s = (Ok (json_to_string_pretty (state_to_json st)), t)"
    using os_read_calm [OF calm_tick [OF assms(1)], of "state_path root i"] assms(2) v
    by (simp add: read_to_string_def io_bind_def io_from_def io_ok_def)
  then show ?thesis
    using e j state_roundtrip [OF assms(3)]
    by (auto simp: store_load_def Let_def io_bind_def io_lift_def)
qed

text \<open>Without failures, saving succeeds.\<close>

lemma path_ancestors_fuel_self:
  "n \<noteq> 0 \<Longrightarrow> p \<noteq> [] \<Longrightarrow> p \<noteq> ''/'' \<Longrightarrow> p \<in> set (path_ancestors_fuel n p)"
  by (cases n) auto

lemma mkdir_p_calm:
  assumes "calm s" "list_all (\<lambda>a. file_of s a = None) (path_ancestors p)"
  obtains t where "mkdir_p p s = (Ok (), t)" "calm t" "dir_exists p t"
    "\<And>q. q \<in> set (fs_dirs t) \<longleftrightarrow> q \<in> set (fs_dirs s) \<or> q \<in> set (path_ancestors p)"
proof -
  let ?s = "s\<lparr>fs_tick := Suc (fs_tick s)\<rparr>"
  let ?t = "add_dirs (path_ancestors p) ?s"
  have e: "mkdir_p p s = (Ok (), ?t)"
    using assms by (auto simp: mkdir_p_def io_from_def os_mkdir_all_def sys_call_calm list_ex_iff list_all_iff)
  have c: "calm ?t" using assms(1) by (simp add: calm_def add_dirs_def)
  have d: "q \<in> set (fs_dirs ?t) \<longleftrightarrow> q \<in> set (fs_dirs s) \<or> q \<in> set (path_ancestors p)" for q
    by (auto simp: add_dirs_def)
  have "dir_exists p ?t"
    using path_ancestors_fuel_self [of "length p" p] d [of p] unfolding dir_exists_def path_ancestors_def by auto
  show thesis by (rule that [OF e c \<open>dir_exists p ?t\<close> d])
qed

lemma calm_put [simp]: "calm (put_file p c s) = calm s" "calm (del_file p s) = calm s"
  by (simp_all add: calm_def put_file_def del_file_def)

lemma tick_put [simp]: "fs_tick (put_file p c s) = fs_tick s" "fs_tick (del_file p s) = fs_tick s"
  by (simp_all add: put_file_def del_file_def)

lemma calm_ticks: "calm s \<Longrightarrow> fs_tick s \<le> n \<Longrightarrow> calm (s\<lparr>fs_tick := n\<rparr>)"
  by (simp add: calm_def)

lemma put_file_tick: "put_file p c (s\<lparr>fs_tick := n\<rparr>) = (put_file p c s)\<lparr>fs_tick := n\<rparr>"
  "del_file p (s\<lparr>fs_tick := n\<rparr>) = (del_file p s)\<lparr>fs_tick := n\<rparr>"
  by (simp_all add: put_file_def del_file_def)

lemma write_atomic_calm:
  assumes "calm s" "tmp_path pid p \<notin> set (fs_dirs s)" "p \<notin> set (fs_dirs s)"
    and "dir_exists (path_parent (tmp_path pid p)) s" "dir_exists (path_parent p) s"
  obtains t where "write_atomic pid p d s = (Ok (), t)" "calm t"
proof -
  have c: "os_create (tmp_path pid p) s = (Ok (), put_file (tmp_path pid p) [] (s\<lparr>fs_tick := Suc (fs_tick s)\<rparr>))"
    using assms by (simp add: os_create_def sys_call_calm)
  show thesis
    using assms that
    by (simp add: write_atomic_def Let_def io_bind_def io_from_def os_write_all_def os_sync_def os_rename_def c
       sys_call_calm calm_ticks put_file_tick)
qed

text \<open>Nothing is in the way of the store: no file where a directory is needed, no directory where
  a file is needed.\<close>

definition store_ready :: "string \<Rightarrow> nat \<Rightarrow> string \<Rightarrow> fs \<Rightarrow> bool" where
  "store_ready root pid i s \<longleftrightarrow>
     list_all (\<lambda>a. file_of s a = None) (path_ancestors (store_dir root i))
     \<and> list_all (\<lambda>p. p \<notin> set (fs_dirs s) \<and> p \<notin> set (path_ancestors (store_dir root i)))
         [state_path root i, tmp_path pid (state_path root i), config_path root i, tmp_path pid (config_path root i)]"

lemma slash_not_digit: "\<not> is_ascii_digit (CHR ''/'')"
  by code_simp

lemma store_save_calm:
  assumes "calm s" "validate_id (cs_id st) = Ok ()" "store_ready root pid (cs_id st) s"
  obtains t where "store_save root pid st s = (Ok (), t)" "calm t"
proof -
  let ?d = "store_dir root (cs_id st)" and ?p = "state_path root (cs_id st)"
  obtain u where u: "mkdir_p ?d s = (Ok (), u)" "calm u" "dir_exists ?d u"
    "\<And>q. q \<in> set (fs_dirs u) \<longleftrightarrow> q \<in> set (fs_dirs s) \<or> q \<in> set (path_ancestors ?d)"
    using mkdir_p_calm [of s ?d] assms by (auto simp: store_ready_def)
  have n: "CHR ''/'' \<notin> set (show_nat pid)"
    using show_nat_digits [of pid] slash_not_digit by blast
  have "path_parent ?p = ?d" "path_parent (tmp_path pid ?p) = ?d"
    unfolding state_tmp_plain [OF assms(2)] unfolding state_path_plain [OF assms(2)]
    using path_split_plain(1) [OF store_dir_plain(1) [OF assms(2)]] n by simp_all
  then obtain t where "write_atomic pid ?p (json_to_string_pretty (state_to_json st)) u = (Ok (), t)" "calm t"
    using write_atomic_calm [OF u(2), of pid ?p] u(3,4) assms(3) unfolding store_ready_def by auto
  then show thesis using that u(1) by (simp add: store_save_def io_bind_def)
qed

lemma byte_ascii: "byte c < 0x80 \<longleftrightarrow> \<not> digit7 c"
  by (cases c) (auto simp: byte_def of_char_def horner_sum_simps)

fun ascii_json :: "json \<Rightarrow> bool" where
  "ascii_json (Float f) = False"
| "ascii_json (Str s) = list_all (\<lambda>c. \<not> digit7 c) s"
| "ascii_json (Arr a) = list_all ascii_json a"
| "ascii_json (Obj m) = list_all (\<lambda>(k, v). list_all (\<lambda>c. \<not> digit7 c) k \<and> ascii_json v) m"
| "ascii_json j = True"

lemma ascii_json_plain: "ascii_json j \<Longrightarrow> plain_json j"
  by (induction j rule: plain_json.induct) (force simp: list_all_iff byte_ascii intro!: utf8_valid_ascii)+

definition demo_state :: container_state where
  "demo_state = \<lparr>cs_id = ''web'', cs_name = Some ''front'', cs_status = Running, cs_init_pid = 42,
     cs_init_start_time = 7, cs_shim_pid = 41, cs_created_at = 1, cs_started_at = 2, cs_finished_at = 0,
     cs_exit_code = None, cs_exit_signal = None, cs_oom_killed = False, cs_error = None,
     cs_cgroup_path = None, cs_network = network_state_default, cs_config = config_default\<rparr>"

lemma demo_state_plain: "plain_json (state_to_json demo_state)"
  by (rule ascii_json_plain) code_simp

lemma demo_state_ready: "store_ready ''/run/myrun'' 3 ''web'' demo_fs"
  by code_simp

lemma demo_state_storable: "storable demo_state"
  using config_default_env_ok
  by (simp add: storable_def demo_state_def config_default_def resources_default_def limits_fit_def fits_def)

lemma demo_save:
  obtains t where "store_save ''/run/myrun'' 3 demo_state demo_fs = (Ok (), t)" "calm t"
proof -
  have "calm demo_fs" by (simp add: calm_def demo_fs_def)
  moreover have "cs_id demo_state = ''web''" by (simp add: demo_state_def)
  moreover have "validate_id ''web'' = Ok ()" by code_simp
  ultimately show thesis
    using store_save_calm [of demo_fs demo_state] demo_state_ready that by metis
qed

text \<open>
  C15: A state that was saved is the state that is loaded: after \<open>save\<close> succeeds, \<open>load\<close> of
  the same id (with no I/O failure) returns that state, through the pretty-printed file, in every
  field but \<open>detach\<close>, which is not stored and is loaded as false.  The times and limits of the
  state must be below \<open>2 ^ 63\<close>, its label keys distinct, its environment free of repeated variables
  with \<open>PATH\<close> and \<open>TERM\<close> set, its text UTF-8, and it must have no CPU limit, which is written as a
  floating point number.
\<close>

theorem save_then_load:
  assumes "store_save root pid st s = (Ok (), t)" and "calm t"
    and "storable st" and "plain_json (state_to_json st)"
  shows "\<exists>u. store_load root (cs_id st) t = (Ok (stored st), u)"
  using store_save_cases [OF assms(1)] store_load_file [OF assms(2) _ assms(3,4)] by blast

theorem save_then_load_witness:
  "\<exists>t u. store_save ''/run/myrun'' 3 demo_state demo_fs = (Ok (), t)
     \<and> store_load ''/run/myrun'' ''web'' t = (Ok (stored demo_state), u)"
proof -
  obtain t where t: "store_save ''/run/myrun'' 3 demo_state demo_fs = (Ok (), t)" "calm t"
    by (rule demo_save)
  moreover have "cs_id demo_state = ''web''" by (simp add: demo_state_def)
  ultimately show ?thesis
    using save_then_load [OF t demo_state_storable demo_state_plain] by auto
qed

text \<open>
  Whatever fails while a state is saved, the state file holds either the previous
  contents (and the operation reports an error) or the complete new ones, and no other
  container's files are touched.
\<close>

theorem save_is_atomic:
  "(case store_save root pid st s of
      (Ok _, t) \<Rightarrow> file_of t (state_path root (cs_id st)) = Some (json_to_string_pretty (state_to_json st))
    | (Err _, t) \<Rightarrow> file_of t (state_path root (cs_id st)) = file_of s (state_path root (cs_id st)))
   \<and> (\<forall>q. q = state_path root (cs_id st) \<or> q = tmp_path pid (state_path root (cs_id st))
        \<or> file_of (snd (store_save root pid st s)) q = file_of s q)"
proof -
  obtain r t where w: "store_save root pid st s = (r, t)" by (cases "store_save root pid st s")
  show ?thesis using store_save_cases [OF w] by (cases r) (auto simp: w)
qed

end
