(* ===== verification/Store_Laws.thy ===== *)
theory Store_Laws
  imports State_Laws
begin

text \<open>
  What the read-only operations of the state store return, and what \<open>create\<close>, \<open>remove\<close>,
  \<open>resolve\<close> and \<open>reconcile\<close> promise.  An operation is quiet when, as long as no system call
  fails, it leaves the file system as it is and its result does not depend on how many calls
  were made before it; quiet operations compose, so each one can be read as a function of
  the file system.
\<close>

section \<open>Quiet operations\<close>

abbreviation at_tick :: "fs \<Rightarrow> nat \<Rightarrow> fs" where
  "at_tick s n \<equiv> s\<lparr>fs_tick := n\<rparr>"

definition quiet :: "'a io \<Rightarrow> bool" where
  "quiet m \<longleftrightarrow> (\<forall>s. calm s \<longrightarrow>
     (\<forall>n \<ge> fs_tick s. fst (m (at_tick s n)) = fst (m s)) \<and> (\<exists>n \<ge> fs_tick s. snd (m s) = at_tick s n))"

named_theorems quiet_intros "composition of quiet operations"

lemma calm_at_tick: "calm s \<Longrightarrow> fs_tick s \<le> n \<Longrightarrow> calm (at_tick s n)"
  by (simp add: calm_def)

lemma quiet_state:
  assumes "quiet m" "calm s"
  obtains n where "fs_tick s \<le> n" "m s = (fst (m s), at_tick s n)"
  using assms unfolding quiet_def by (metis prod.collapse)

lemma quiet_later: "quiet m \<Longrightarrow> calm s \<Longrightarrow> fs_tick s \<le> n \<Longrightarrow> fst (m (at_tick s n)) = fst (m s)"
  unfolding quiet_def by blast

lemma quiet_try_fst:
  assumes "quiet m" "\<And>r. quiet (f r)" "calm s"
  shows "fst (io_try m f s) = fst (f (fst (m s)) s)"
proof -
  obtain n where n: "fs_tick s \<le> n" "m s = (fst (m s), at_tick s n)" using quiet_state [OF assms(1,3)] .
  have "io_try m f s = f (fst (m s)) (at_tick s n)" unfolding io_try_def by (subst n(2)) simp
  then show ?thesis using quiet_later [OF assms(2,3) n(1)] by simp
qed

lemma quiet_try [quiet_intros]:
  assumes "quiet m" "\<And>r. quiet (f r)"
  shows "quiet (io_try m f)"
  unfolding quiet_def
proof (intro allI impI conjI)
  fix s n assume s: "calm s" "fs_tick s \<le> n"
  show "fst (io_try m f (at_tick s n)) = fst (io_try m f s)"
    using quiet_try_fst [OF assms] s calm_at_tick [OF s] quiet_later [OF assms(1) s]
      quiet_later [OF assms(2) s] by simp
next
  fix s assume s: "calm s"
  obtain n where n: "fs_tick s \<le> n" "m s = (fst (m s), at_tick s n)" using quiet_state [OF assms(1) s] .
  have e: "io_try m f s = f (fst (m s)) (at_tick s n)" unfolding io_try_def by (subst n(2)) simp
  obtain k where "n \<le> k" "snd (f (fst (m s)) (at_tick s n)) = at_tick s k"
    using quiet_state [OF assms(2) calm_at_tick [OF s n(1)], of "fst (m s)"] by (metis (no_types, lifting)
        fs.ext_inject fs.surjective fs.update_convs(3) snd_conv)
  then show "\<exists>k \<ge> fs_tick s. snd (io_try m f s) = at_tick s k" using e n(1) by (metis order_trans)
qed

lemma io_bind_try: "io_bind m f = io_try m (\<lambda>r. case r of Ok x \<Rightarrow> f x | Err e \<Rightarrow> io_err e)"
  by (rule ext) (auto simp: io_bind_def io_try_def io_err_def split: prod.splits result.splits)

lemma quiet_ok [quiet_intros]: "quiet (io_ok x)"
  unfolding quiet_def io_ok_def by (metis fs.surjective fs.update_convs(3) fst_conv order_refl snd_conv)

lemma quiet_err [quiet_intros]: "quiet (io_err e)"
  unfolding quiet_def io_err_def by (metis fs.surjective fs.update_convs(3) fst_conv order_refl snd_conv)

lemma quiet_lift [quiet_intros]: "quiet (io_lift r)"
  by (cases r) (use quiet_ok quiet_err in \<open>simp_all add: io_lift_def io_ok_def io_err_def quiet_def\<close>)

lemma quiet_bind [quiet_intros]: "quiet m \<Longrightarrow> (\<And>x. quiet (f x)) \<Longrightarrow> quiet (io_bind m f)"
  unfolding io_bind_try by (intro quiet_try) (auto split: result.splits intro: quiet_err)

lemma quiet_bind_fst:
  assumes "quiet m" "\<And>x. quiet (f x)" "calm s"
  shows "fst (io_bind m f s) = (case fst (m s) of Ok x \<Rightarrow> fst (f x s) | Err e \<Rightarrow> Err e)"
  unfolding io_bind_try
  by (subst quiet_try_fst) (auto simp: assms io_err_def intro: quiet_err split: result.splits)

lemma quiet_fold [quiet_intros]: "(\<And>x b. quiet (f x b)) \<Longrightarrow> quiet (io_fold f xs b)"
  by (induction xs arbitrary: b) (auto intro: quiet_intros)

lemma quiet_if [quiet_intros]: "quiet m \<Longrightarrow> quiet m' \<Longrightarrow> quiet (if b then m else m')"
  by simp

lemma quiet_sys:
  assumes "\<And>s. snd (good s) = s" "\<And>s n. fst (good (at_tick s n)) = fst (good s)"
    and "\<And>s n e. conv (at_tick s n) e = conv s e"
  shows "quiet (io_from (sys_call bad good) conv)"
proof -
  have e: "io_from (sys_call bad good) conv s =
      (case fst (good s) of Ok x \<Rightarrow> Ok x | Err e \<Rightarrow> Err (conv s e), at_tick s (Suc (fs_tick s)))"
    if "calm s" for s
  proof -
    let ?t = "at_tick s (Suc (fs_tick s))"
    have "good ?t = (fst (good s), ?t)" using assms by (metis prod.collapse)
    then show ?thesis using that by (simp add: io_from_def sys_call_calm split: result.splits)
  qed
  show ?thesis unfolding quiet_def
  proof (intro allI impI conjI)
    fix s n assume s: "calm s" "fs_tick s \<le> n"
    show "fst (io_from (sys_call bad good) conv (at_tick s n)) = fst (io_from (sys_call bad good) conv s)"
      using e [OF calm_at_tick [OF s]] e [OF s(1)] assms(2,3) by (cases "fst (good s)") simp_all
  next
    fix s assume s: "calm s"
    show "\<exists>n \<ge> fs_tick s. snd (io_from (sys_call bad good) conv s) = at_tick s n"
      using e [OF s] by (intro exI [of _ "Suc (fs_tick s)"]) simp
  qed
qed

lemma entry_names_tick [simp]: "entry_names p (at_tick s n) = entry_names p s"
  by (simp add: entry_names_def)

lemma quiet_read [quiet_intros]: "quiet (io_from (os_read p) (\<lambda>_. conv))"
  unfolding os_read_def by (rule quiet_sys) (auto split: option.splits)

lemma quiet_read_dir [quiet_intros]:
  "(\<And>s n e. conv (at_tick s n) e = conv s e) \<Longrightarrow> quiet (io_from (os_read_dir p) conv)"
  unfolding os_read_dir_def by (rule quiet_sys) auto

lemma quiet_read_to_string [quiet_intros]: "quiet (read_to_string p)"
  unfolding read_to_string_def by (intro quiet_intros)

lemma error_text_tick [simp]: "os_error_text (at_tick s n) e = os_error_text s e"
  by (simp add: os_error_text_def)

text \<open>\<open>Path::exists\<close> as an operation.\<close>

definition io_exists :: "string \<Rightarrow> bool io" where
  "io_exists p s = (case os_exists p s of (b, s') \<Rightarrow> (Ok b, s'))"

definition present :: "string \<Rightarrow> fs \<Rightarrow> bool" where
  "present p s \<longleftrightarrow> file_of s p \<noteq> None \<or> dir_exists p s"

lemma present_tick [simp]: "present p (at_tick s n) = present p s"
  by (simp add: present_def)

lemma io_exists_fst: "calm s \<Longrightarrow> fst (io_exists p s) = Ok (present p s)"
  by (simp add: io_exists_def os_exists_calm present_def)

lemma quiet_io_exists [quiet_intros]: "quiet (io_exists p)"
  unfolding quiet_def
proof (intro allI impI conjI)
  fix s n assume s: "calm s" "fs_tick s \<le> n"
  show "fst (io_exists p (at_tick s n)) = fst (io_exists p s)"
    using io_exists_fst [OF calm_at_tick [OF s]] io_exists_fst [OF s(1)] by simp
next
  fix s assume "calm s"
  then show "\<exists>n \<ge> fs_tick s. snd (io_exists p s) = at_tick s n"
    by (intro exI [of _ "Suc (fs_tick s)"]) (simp add: io_exists_def os_exists_calm)
qed

lemma store_exists_io: "store_exists root i = io_exists (state_path root i)"
  by (rule ext) (simp add: store_exists_def io_exists_def)

lemma quiet_exists [quiet_intros]: "quiet (store_exists root i)"
  unfolding store_exists_io by (rule quiet_io_exists)

lemma quiet_load [quiet_intros]: "quiet (store_load root i)"
  unfolding store_load_def Let_def by (intro quiet_intros)


text \<open>The ids the store lists: the entries of the containers directory that have a state.\<close>

definition stored_ids :: "string \<Rightarrow> fs \<Rightarrow> string list" where
  "stored_ids root s =
     (if dir_exists (store_containers_dir root) s
      then sort (filter (\<lambda>n. present (state_path root n) s) (entry_names (store_containers_dir root) s))
      else [])"

lemma store_ids_io:
  "store_ids root = io_bind (io_exists (store_containers_dir root)) (\<lambda>b.
     if \<not> b then io_ok []
     else io_bind (io_from (os_read_dir (store_containers_dir root)) (\<lambda>u e. Io (store_containers_dir root @ '': '' @ os_error_text u e))) (\<lambda>names.
       io_bind (io_fold (\<lambda>n acc. io_bind (store_exists root n) (\<lambda>b.
                    io_ok (if b then acc @ [n] else acc))) names []) (\<lambda>out.
                  io_ok (sort out))))"
  by (rule ext) (auto simp: store_ids_def Let_def io_bind_def io_exists_def io_ok_def split: prod.splits bool.splits)

lemma quiet_ids [quiet_intros]: "quiet (store_ids root)"
  unfolding store_ids_io by (intro quiet_intros) simp

lemma filter_fold_fst:
  "calm s \<Longrightarrow> fst (io_fold (\<lambda>n acc. io_bind (store_exists root n) (\<lambda>b. io_ok (if b then acc @ [n] else acc))) names acc s)
     = Ok (acc @ filter (\<lambda>n. present (state_path root n) s) names)"
proof (induction names arbitrary: acc)
  case Nil
  then show ?case by (simp add: io_ok_def)
next
  case (Cons n names)
  have "fst (io_bind (store_exists root n) (\<lambda>b. io_ok (if b then acc @ [n] else acc)) s)
      = Ok (if present (state_path root n) s then acc @ [n] else acc)"
    by (subst quiet_bind_fst) (auto simp: Cons.prems store_exists_io io_exists_fst io_ok_def intro: quiet_intros)
  moreover have "quiet (io_bind (store_exists root n) (\<lambda>b. io_ok (if b then acc @ [n] else acc)))"
    by (intro quiet_intros)
  moreover have "quiet (io_fold (\<lambda>n acc. io_bind (store_exists root n) (\<lambda>b. io_ok (if b then acc @ [n] else acc))) names a)" for a
    by (intro quiet_intros)
  ultimately show ?case using Cons by (simp add: quiet_bind_fst)
qed

lemma os_read_dir_fst: "calm s \<Longrightarrow> dir_exists p s \<Longrightarrow> fst (io_from (os_read_dir p) conv s) = Ok (entry_names p s)"
  by (simp add: io_from_def os_read_dir_def sys_call_calm)

lemma store_ids_fst:
  assumes "calm s" "file_of s (store_containers_dir root) = None"
  shows "fst (store_ids root s) = Ok (stored_ids root s)"
proof -
  have p: "present (store_containers_dir root) s = dir_exists (store_containers_dir root) s"
    using assms(2) by (simp add: present_def)
  show ?thesis
    unfolding store_ids_io stored_ids_def
    by (subst quiet_bind_fst, (intro quiet_intros; simp)+)
      (auto simp: assms(1) io_exists_fst p io_ok_def quiet_bind_fst quiet_intros os_read_dir_fst filter_fold_fst)
qed

section \<open>Reconciling\<close>

text \<open>
  C18: \<open>reconcile\<close> never touches a container whose recorded init process is still running, or
  one that is not live: the state and the file system are unchanged.  Otherwise it moves the
  container to stopped along an edge of the state machine, with a finish time and an error,
  and saves exactly that state; if saving fails the state file keeps its old contents.
\<close>

theorem reconcile_correct:
  "(case store_reconcile root pid procs st s of
      (Ok (False, st'), t) \<Rightarrow> st' = st \<and> t = s \<and> \<not> (is_live (cs_status st) \<and> \<not> init_is_alive procs st)
    | (Ok (True, st'), t) \<Rightarrow> is_live (cs_status st) \<and> \<not> init_is_alive procs st
        \<and> cs_status st' = Stopped \<and> can_transition_to (cs_status st) Stopped
        \<and> cs_error st' = Some (unwrap_or reconcile_error (cs_error st))
        \<and> cs_finished_at st' = (if cs_finished_at st = 0 then fs_clock s (fs_tick s) else cs_finished_at st)
        \<and> cs_id st' = cs_id st \<and> cs_config st' = cs_config st
        \<and> file_of t (state_path root (cs_id st)) = Some (json_to_string_pretty (state_to_json st'))
    | (Err _, t) \<Rightarrow> is_live (cs_status st) \<and> \<not> init_is_alive procs st
        \<and> file_of t (state_path root (cs_id st)) = file_of s (state_path root (cs_id st)))"
proof (cases "is_live (cs_status st) \<and> \<not> init_is_alive procs st")
  case False
  then show ?thesis by (auto simp: store_reconcile_def io_ok_def)
next
  case True
  then have edge: "can_transition_to (cs_status st) Stopped"
    by (cases "cs_status st") (simp_all add: can_transition_to_def)
  obtain st1 s1 where 1: "stamp_finished (st\<lparr>cs_status := Stopped\<rparr>) s = (st1, s1)"
    by (cases "stamp_finished (st\<lparr>cs_status := Stopped\<rparr>) s")
  then have f1: "cs_status st1 = Stopped" "cs_id st1 = cs_id st" "cs_config st1 = cs_config st"
      "cs_error st1 = cs_error st" "cs_finished_at st1 = (if cs_finished_at st = 0 then fs_clock s (fs_tick s) else cs_finished_at st)"
      "file_of s1 q = file_of s q" for q
    by (auto simp: stamp_finished_def now_ms_def split: if_splits)
  define st2 where "st2 = (if cs_error st1 = None then st1\<lparr>cs_error := Some reconcile_error\<rparr> else st1)"
  obtain r t where w: "store_save root pid st2 s1 = (r, t)" by (cases "store_save root pid st2 s1")
  have id2: "cs_id st2 = cs_id st" by (simp add: st2_def f1)
  have e: "store_reconcile root pid procs st s =
      (case r of Ok _ \<Rightarrow> (Ok (True, st2), t) | Err e \<Rightarrow> (Err e, t))"
    using True by (simp add: store_reconcile_def 1 st2_def [symmetric] io_bind_def w io_ok_def split: result.splits)
  show ?thesis
    using store_save_cases [OF w] f1 True edge unfolding e id2
    by (cases r) (auto simp: st2_def)
qed


section \<open>Resolving\<close>

text \<open>Whether the container \<open>i\<close> can be loaded and is called \<open>name\<close>.\<close>

definition named :: "string \<Rightarrow> string \<Rightarrow> fs \<Rightarrow> string \<Rightarrow> bool" where
  "named root name s i \<longleftrightarrow> (case fst (store_load root i s) of Ok st \<Rightarrow> cs_name st = Some name | Err _ \<Rightarrow> False)"

lemma quiet_resolve_loop [quiet_intros]: "quiet (resolve_loop root needle is ms)"
  by (induction "is" arbitrary: ms) (auto intro!: quiet_intros split: result.splits)

lemma resolve_loop_fst:
  assumes "calm s"
  shows "fst (resolve_loop root needle is ms s) =
    Ok (case find (\<lambda>i. \<not> starts_with i needle \<and> named root needle s i) is of
          Some i \<Rightarrow> Inl i | None \<Rightarrow> Inr (ms @ filter (\<lambda>i. starts_with i needle) is))"
proof (induction "is" arbitrary: ms)
  case Nil
  then show ?case by (simp add: io_ok_def)
next
  case (Cons i "is")
  have q: "quiet (case r of Ok st \<Rightarrow> if cs_name st = Some needle then io_ok (Inl i) else resolve_loop root needle is ms
        | Err _ \<Rightarrow> resolve_loop root needle is ms)" for r
    by (auto intro: quiet_intros split: result.splits)
  show ?case
  proof (cases "starts_with i needle")
    case True
    then show ?thesis using Cons by (simp split: option.splits)
  next
    case False
    have "fst (resolve_loop root needle (i # is) ms s) =
      fst ((case fst (store_load root i s) of Ok st \<Rightarrow> if cs_name st = Some needle then io_ok (Inl i) else resolve_loop root needle is ms
        | Err _ \<Rightarrow> resolve_loop root needle is ms) s)"
      using False quiet_try_fst [OF quiet_load q assms] by simp
    then show ?thesis using False Cons
      by (cases "fst (store_load root i s)") (auto simp: named_def [of root needle s i] io_ok_def split: option.splits)
  qed
qed

lemma quiet_resolve [quiet_intros]: "quiet (store_resolve root needle)"
  unfolding store_resolve_def
  by (intro quiet_intros) (auto intro: quiet_intros split: sum.splits list.splits)

lemma store_resolve_fst:
  assumes "calm s" "file_of s (store_containers_dir root) = None" "needle \<noteq> []"
  shows "fst (store_resolve root needle s) =
    (if present (state_path root needle) s then Ok needle
     else case find (\<lambda>i. \<not> starts_with i needle \<and> named root needle s i) (stored_ids root s) of
       Some i \<Rightarrow> Ok i
     | None \<Rightarrow> (case filter (\<lambda>i. starts_with i needle) (stored_ids root s) of
         [] \<Rightarrow> Err (NotFound (''container '' @ debug_str needle))
       | [m] \<Rightarrow> Ok m
       | ms \<Rightarrow> Err (Usage (''container id prefix '' @ debug_str needle @ '' is ambiguous: '' @
                str_join '', '' (map short_id ms)))))"
proof -
  define fin :: "string + string list \<Rightarrow> string io" where "fin r = (case r of
              Inl i \<Rightarrow> io_ok i
            | Inr [] \<Rightarrow> io_err (NotFound (''container '' @ debug_str needle))
            | Inr [m] \<Rightarrow> io_ok m
            | Inr ms \<Rightarrow> io_err (Usage (''container id prefix '' @ debug_str needle @ '' is ambiguous: '' @
                str_join '', '' (map short_id ms))))" for r
  define rest where "rest = io_bind (store_ids root) (\<lambda>ids. io_bind (resolve_loop root needle ids []) fin)"
  have d: "store_resolve root needle = io_bind (store_exists root needle) (\<lambda>ex. if ex then io_ok needle else rest)"
    using assms(3) unfolding store_resolve_def rest_def fin_def [abs_def] by simp
  have qf: "quiet (fin r)" for r by (auto simp: fin_def intro: quiet_intros split: sum.splits list.splits)
  have q2: "quiet (io_bind (resolve_loop root needle ids []) fin)" for ids
    by (intro quiet_intros qf)
  have qr: "quiet rest" unfolding rest_def by (intro quiet_intros qf)
  have q0: "quiet (if ex then io_ok needle else rest)" for ex
    by (intro quiet_intros qr)
  have r: "fst (rest s) = fst (fin (case find (\<lambda>i. \<not> starts_with i needle \<and> named root needle s i) (stored_ids root s) of
          Some i \<Rightarrow> Inl i | None \<Rightarrow> Inr (filter (\<lambda>i. starts_with i needle) (stored_ids root s))) s)"
    unfolding rest_def quiet_bind_fst [OF quiet_ids q2 assms(1)]
    by (simp add: quiet_bind_fst [OF quiet_resolve_loop qf assms(1)]
        store_ids_fst [OF assms(1,2)] resolve_loop_fst [OF assms(1)] split: option.split)
  have e: "fst (store_resolve root needle s) = (if present (state_path root needle) s then Ok needle else fst (rest s))"
    unfolding d quiet_bind_fst [OF quiet_exists q0 assms(1)]
    by (simp add: store_exists_io io_exists_fst [OF assms(1)] io_ok_def)
  show ?thesis unfolding e r by (simp add: fin_def io_ok_def io_err_def split: option.splits list.splits)
qed

lemma resolve_cases:
  assumes "(if present (state_path root needle) s then Ok needle
     else case find (\<lambda>i. \<not> starts_with i needle \<and> named root needle s i) ids of
       Some i \<Rightarrow> Ok i
     | None \<Rightarrow> (case filter (\<lambda>i. starts_with i needle) ids of
         [] \<Rightarrow> Err e | [m] \<Rightarrow> Ok m | ms \<Rightarrow> Err (f ms))) = Ok i"
  shows "(i = needle \<and> present (state_path root i) s) \<or> (i \<in> set ids \<and> named root needle s i)
    \<or> (i \<in> set ids \<and> starts_with i needle \<and> (\<forall>j \<in> set ids. starts_with j needle \<longrightarrow> j = i))"
proof -
  have "j \<in> set ids \<and> starts_with j needle \<longleftrightarrow> j = m" if "filter (\<lambda>i. starts_with i needle) ids = [m]" for j m
    using arg_cong [OF that, of "\<lambda>x. j \<in> set x"] by simp
  then show ?thesis using assms
    by (auto split: if_splits option.splits list.splits simp: find_Some_iff)
qed




section \<open>Creating\<close>

lemma quiet_name_taken [quiet_intros]: "quiet (name_taken root name is)"
  by (induction "is") (auto intro!: quiet_intros split: result.splits)

lemma name_taken_fst:
  assumes "calm s"
  shows "fst (name_taken root name is s) = Ok (find (named root name s) is)"
proof (induction "is")
  case Nil
  then show ?case by (simp add: io_ok_def)
next
  case (Cons i "is")
  have q: "quiet (case r of Ok other \<Rightarrow> if cs_name other = Some name then io_ok (Some i) else name_taken root name is
     | Err _ \<Rightarrow> name_taken root name is)" for r
    by (auto intro: quiet_intros split: result.splits)
  have "fst (name_taken root name (i # is) s) = fst ((case fst (store_load root i s) of
      Ok other \<Rightarrow> if cs_name other = Some name then io_ok (Some i) else name_taken root name is
     | Err _ \<Rightarrow> name_taken root name is) s)"
    using quiet_try_fst [OF quiet_load q assms] by simp
  then show ?case
    using Cons by (cases "fst (store_load root i s)") (auto simp: named_def [of root name s i] io_ok_def)
qed

text \<open>The check of the name in \<open>create\<close>.\<close>

definition name_free :: "string \<Rightarrow> container_state \<Rightarrow> unit io" where
  "name_free root st = (case cs_name st of
           None \<Rightarrow> io_ok ()
         | Some name \<Rightarrow> io_bind (store_ids root) (\<lambda>ids. io_bind (name_taken root name ids) (\<lambda>t.
             case t of
               Some i \<Rightarrow> io_err (AlreadyExists (''container name '' @ debug_str name @ '' (used by '' @ short_id i @ '')''))
             | None \<Rightarrow> io_ok ())))"

lemma quiet_name_free [quiet_intros]: "quiet (name_free root st)"
  unfolding name_free_def by (auto intro!: quiet_intros split: option.splits)

lemma name_free_iff:
  assumes "calm s" "file_of s (store_containers_dir root) = None"
  shows "fst (name_free root st s) = Ok () \<longleftrightarrow>
    (\<forall>n i. cs_name st = Some n \<longrightarrow> i \<in> set (stored_ids root s) \<longrightarrow> \<not> named root n s i)"
proof (cases "cs_name st")
  case None
  then show ?thesis by (simp add: name_free_def io_ok_def)
next
  case (Some n)
  define fin :: "string option \<Rightarrow> unit io" where "fin t = (case t of
               Some i \<Rightarrow> io_err (AlreadyExists (''container name '' @ debug_str n @ '' (used by '' @ short_id i @ '')''))
             | None \<Rightarrow> io_ok ())" for t
  have qf: "quiet (fin t)" for t by (auto simp: fin_def intro: quiet_intros split: option.splits)
  have q: "quiet (io_bind (name_taken root n ids) fin)" for ids by (intro quiet_intros qf)
  have d: "name_free root st = io_bind (store_ids root) (\<lambda>ids. io_bind (name_taken root n ids) fin)"
    unfolding name_free_def Some option.case fin_def ..
  have "fst (name_free root st s) = fst (fin (find (named root n s) (stored_ids root s)) s)"
    unfolding d
    by (simp add: quiet_bind_fst [OF quiet_ids q assms(1)] quiet_bind_fst [OF quiet_name_taken qf assms(1)]
        store_ids_fst [OF assms(1,2)] name_taken_fst [OF assms(1)])
  then have "fst (name_free root st s) = Ok () \<longleftrightarrow> find (named root n s) (stored_ids root s) = None"
    by (auto simp: fin_def io_err_def io_ok_def split: option.splits)
  then show ?thesis using Some by (simp add: find_None_iff)
qed

lemma store_create_steps:
  assumes "calm s" "store_create root pid st s = (Ok (), t)"
  obtains u v where "\<And>q. file_of u q = file_of s q" "write_atomic pid (config_path root (cs_id st))
      (json_to_string_pretty (config_to_json (cs_config st))) u = (Ok (), v)"
    "store_save root pid st v = (Ok (), t)"
    "\<not> present (state_path root (cs_id st)) s" "fst (name_free root st s) = Ok ()"
proof -
  obtain b u1 u2 u3 v where b: "store_exists root (cs_id st) s = (Ok b, u1)" "\<not> b"
    and n: "name_free root st u1 = (Ok (), u2)" and m: "mkdir_p (store_dir root (cs_id st)) u2 = (Ok (), u3)"
    and w: "write_atomic pid (config_path root (cs_id st))
      (json_to_string_pretty (config_to_json (cs_config st))) u3 = (Ok (), v)" "store_save root pid st v = (Ok (), t)"
    using assms(2) unfolding store_create_def name_free_def [symmetric]
    by (auto simp: io_simps split: if_splits)
  obtain k where k: "u1 = at_tick s k" "fs_tick s \<le> k" using quiet_exists b(1) assms(1) quiet_state by (metis prod.inject)
  obtain k' where k': "u2 = at_tick u1 k'" using quiet_state [OF quiet_name_free, of u1] calm_at_tick [OF assms(1) k(2)] n k(1)
    by (metis prod.inject)
  have f: "file_of u3 q = file_of s q" for q using mkdir_p_files [OF m] k(1) k' by simp
  have p: "\<not> present (state_path root (cs_id st)) s"
    using io_exists_fst [OF assms(1), of "state_path root (cs_id st)"] b by (simp add: store_exists_io)
  have "fst (name_free root st s) = Ok ()"
    using quiet_later [OF quiet_name_free assms(1) k(2)] n k(1) by (metis fst_conv)
  with f w p show thesis by (intro that)
qed

lemma store_create_cases:
  assumes "calm s" and "file_of s (store_containers_dir root) = None"
    and "validate_id (cs_id st) = Ok ()" and "store_create root pid st s = (Ok (), t)"
  defines "sp \<equiv> state_path root (cs_id st)" and "cp \<equiv> config_path root (cs_id st)"
  shows "\<not> present sp s
    \<and> (\<forall>n i. cs_name st = Some n \<longrightarrow> i \<in> set (stored_ids root s) \<longrightarrow> \<not> named root n s i)
    \<and> file_of t cp = Some (json_to_string_pretty (config_to_json (cs_config st)))
    \<and> file_of t sp = Some (json_to_string_pretty (state_to_json st))
    \<and> (\<forall>q. q \<notin> {sp, cp, tmp_path pid sp, tmp_path pid cp} \<longrightarrow> file_of t q = file_of s q)"
proof -
  obtain u v where u: "\<And>q. file_of u q = file_of s q" "write_atomic pid cp
      (json_to_string_pretty (config_to_json (cs_config st))) u = (Ok (), v)"
    "store_save root pid st v = (Ok (), t)" "\<not> present sp s" "fst (name_free root st s) = Ok ()"
    using store_create_steps [OF assms(1,4)] unfolding sp_def cp_def by metis
  have d: "cp \<noteq> sp" "cp \<noteq> tmp_path pid sp"
    unfolding sp_def cp_def state_tmp_plain [OF assms(3)] unfolding state_path_plain [OF assms(3)] by simp_all
  note w = write_atomic_cases [OF u(2)] and v = store_save_cases [OF u(3), folded sp_def]
  show ?thesis
    using name_free_iff [OF assms(1,2), of st] u w v d by auto
qed


lemma store_parents:
  assumes "validate_id i = Ok ()"
  shows "path_parent (state_path root i) = store_dir root i" "path_parent (config_path root i) = store_dir root i"
    "path_parent (tmp_path pid (state_path root i)) = store_dir root i"
    "path_parent (tmp_path pid (config_path root i)) = store_dir root i"
proof -
  have n: "CHR ''/'' \<notin> set (show_nat pid)" using show_nat_digits [of pid] slash_not_digit by blast
  show "path_parent (state_path root i) = store_dir root i" "path_parent (config_path root i) = store_dir root i"
    "path_parent (tmp_path pid (state_path root i)) = store_dir root i"
    "path_parent (tmp_path pid (config_path root i)) = store_dir root i"
    unfolding state_tmp_plain [OF assms] unfolding state_path_plain [OF assms]
    using path_split_plain(1) [OF store_dir_plain(1) [OF assms]] n by simp_all
qed

lemma store_ready_tick: "store_ready root pid i (at_tick s n) = store_ready root pid i s"
  by (simp add: store_ready_def)

lemma store_create_calm:
  assumes "calm s" "validate_id (cs_id st) = Ok ()" "store_ready root pid (cs_id st) s"
    and "\<not> present (state_path root (cs_id st)) s" "fst (name_free root st s) = Ok ()"
  shows "\<exists>t. store_create root pid st s = (Ok (), t)"
proof -
  let ?i = "cs_id st" let ?d = "store_dir root ?i" and ?c = "config_path root ?i"
  obtain k where k: "fs_tick s \<le> k" "store_exists root ?i s = (Ok False, at_tick s k)"
    using quiet_state [OF quiet_exists assms(1)] io_exists_fst [OF assms(1)] assms(4) by (metis store_exists_io)
  have c1: "calm (at_tick s k)" using calm_at_tick [OF assms(1) k(1)] .
  have "fst (name_free root st (at_tick s k)) = Ok ()" using quiet_later [OF quiet_name_free assms(1) k(1)] assms(5) by simp
  then obtain m where m: "k \<le> m" "name_free root st (at_tick s k) = (Ok (), at_tick s m)"
    using quiet_state [OF quiet_name_free c1] by (metis (no_types, lifting) fs.select_convs(3) fs.surjective fs.update_convs(3))
  let ?u = "at_tick s m"
  have c2: "calm ?u" using calm_at_tick [OF assms(1), of m] k(1) m(1) by simp
  obtain v where v: "mkdir_p ?d ?u = (Ok (), v)" "calm v" "dir_exists ?d v"
    "\<And>q. q \<in> set (fs_dirs v) \<longleftrightarrow> q \<in> set (fs_dirs s) \<or> q \<in> set (path_ancestors ?d)"
    using mkdir_p_calm [OF c2, of ?d] assms(3) by (auto simp: store_ready_def)
  obtain w where w: "write_atomic pid ?c (json_to_string_pretty (config_to_json (cs_config st))) v = (Ok (), w)" "calm w"
    using write_atomic_calm [OF v(2), of pid ?c] v(3,4) assms(3) store_parents [OF assms(2)]
    unfolding store_ready_def by auto
  have "file_of w a = None" if "a \<in> set (path_ancestors ?d)" for a
  proof -
    have "a \<noteq> ?c" "a \<noteq> tmp_path pid ?c" using that assms(3) by (auto simp: store_ready_def)
    then show ?thesis
      using that assms(3) write_atomic_cases [OF w(1)] mkdir_p_files [OF v(1)] by (auto simp: store_ready_def list_all_iff)
  qed
  then have "store_ready root pid ?i w"
    using assms(3) write_atomic_cases [OF w(1)] v(4) unfolding store_ready_def list_all_iff by auto
  then obtain t where "store_save root pid st w = (Ok (), t)"
    using store_save_calm [OF w(2) assms(2)] by blast
  then show ?thesis
    using k(2) m(2) v(1) w(1) unfolding store_create_def name_free_def [symmetric]
    by (auto simp: io_simps)
qed

text \<open>
  C12: As long as no system call fails, \<open>create\<close> succeeds exactly when there is no state under
  the id and no stored container with the same name; when it succeeds, the configuration
  and state files hold exactly what was given and no other file but the two temporary ones
  was touched.
\<close>

theorem create_correct:
  assumes "calm s" and "file_of s (store_containers_dir root) = None"
    and "validate_id (cs_id st) = Ok ()" and "store_ready root pid (cs_id st) s"
  defines "sp \<equiv> state_path root (cs_id st)" and "cp \<equiv> config_path root (cs_id st)"
  shows "(is_ok (fst (store_create root pid st s)) \<longleftrightarrow>
      \<not> present sp s \<and> (\<forall>n i. cs_name st = Some n \<longrightarrow> i \<in> set (stored_ids root s) \<longrightarrow> \<not> named root n s i))
    \<and> (\<forall>t. store_create root pid st s = (Ok (), t) \<longrightarrow>
        file_of t cp = Some (json_to_string_pretty (config_to_json (cs_config st)))
        \<and> file_of t sp = Some (json_to_string_pretty (state_to_json st))
        \<and> (\<forall>q. q \<notin> {sp, cp, tmp_path pid sp, tmp_path pid cp} \<longrightarrow> file_of t q = file_of s q))"
proof -
  obtain r t where e: "store_create root pid st s = (r, t)" by (cases "store_create root pid st s")
  show ?thesis
    using store_create_cases [OF assms(1-3), of pid t] store_create_calm [OF assms(1,3,4)]
      name_free_iff [OF assms(1,2), of st] unfolding sp_def cp_def e
    by (cases r) auto
qed

theorem create_correct_witness:
  "is_ok (fst (store_create ''/run/myrun'' 3 demo_state demo_fs))"
proof -
  have "calm demo_fs" by (simp add: calm_def demo_fs_def)
  moreover have i: "cs_id demo_state = ''web''" by (simp add: demo_state_def)
  moreover have "validate_id ''web'' = Ok ()" "file_of demo_fs (store_containers_dir ''/run/myrun'') = None"
    "\<not> present (state_path ''/run/myrun'' ''web'') demo_fs" "stored_ids ''/run/myrun'' demo_fs = []" by code_simp+
  ultimately show ?thesis using create_correct [of demo_fs "''/run/myrun''" demo_state 3] demo_state_ready by simp
qed

end
