(* ===== verification/Ipam.thy ===== *)
theory Ipam
  imports Store_Laws
begin

text \<open>
  \<open>src/runtime/ipam.rs\<close>: the address leases of the bridge network.  The lease file and its
  lock live in the runtime root; every operation takes the lock, reads the file, and writes
  it back atomically when the leases changed.  Log messages are not modelled.
\<close>

section \<open>Leases\<close>

record lease =
  l_ip :: ipv4
  l_id :: string

record leases =
  ls_subnet :: string
  ls_entries :: "lease list"

definition leases_default :: leases where
  "leases_default = \<lparr>ls_subnet = [], ls_entries = []\<rparr>"

definition lease_to_json :: "lease \<Rightarrow> json" where
  "lease_to_json l = json_build [(''ip'', Str (format_ipv4 (l_ip l))), (''id'', Str (l_id l))]"

definition leases_to_json :: "leases \<Rightarrow> json" where
  "leases_to_json l = json_build
     [(''subnet'', Str (ls_subnet l)), (''leases'', Arr (map lease_to_json (ls_entries l)))]"

definition lease_from_json :: "json \<Rightarrow> lease option" where
  "lease_from_json e =
     (case (Option.bind (get_str e ''ip'') (\<lambda>s. r_ok (parse_ipv4 s)), get_str e ''id'') of
        (Some ip, Some i) \<Rightarrow> Some \<lparr>l_ip = ip, l_id = i\<rparr>
      | _ \<Rightarrow> None)"

definition leases_from_json :: "json \<Rightarrow> leases" where
  "leases_from_json j =
     \<lparr>ls_subnet = unwrap_or [] (get_str j ''subnet''),
      ls_entries = (case get_array j ''leases'' of
          Some a \<Rightarrow> List.map_filter lease_from_json a | None \<Rightarrow> [])\<rparr>"

section \<open>The lease file\<close>

definition ipam_state_path :: "string \<Rightarrow> string" where
  "ipam_state_path root = path_join root ''ipam.json''"

definition ipam_lock_path :: "string \<Rightarrow> string" where
  "ipam_lock_path root = path_join root ''ipam.lock''"

text \<open>What a lease file with this text means: an empty or unreadable one is a fresh start.\<close>

definition leases_of_text :: "string \<Rightarrow> leases" where
  "leases_of_text text =
     (if str_trim text = [] then leases_default
      else (case json_parse text of Ok j \<Rightarrow> leases_from_json j | Err _ \<Rightarrow> leases_default))"

definition ipam_load :: "string \<Rightarrow> leases io" where
  "ipam_load root =
     (let p = ipam_state_path root
      in (\<lambda>s. case os_exists p s of
            (False, s') \<Rightarrow> (Ok leases_default, s')
          | (True, s') \<Rightarrow> io_bind (read_to_string p) (\<lambda>text. io_ok (leases_of_text text)) s'))"

definition ipam_store :: "string \<Rightarrow> nat \<Rightarrow> leases \<Rightarrow> unit io" where
  "ipam_store root pid l =
     io_bind (mkdir_p root) (\<lambda>_.
       write_atomic pid (ipam_state_path root) (json_to_string_pretty (leases_to_json l)))"

definition ipam_guard :: "string \<Rightarrow> unit io" where
  "ipam_guard root = io_bind (mkdir_p root) (\<lambda>_. file_lock_acquire (ipam_lock_path root))"

section \<open>Allocation\<close>

definition usable_range :: "string \<Rightarrow> (u32 \<times> u32) res" where
  "usable_range subnet =
     r_bind (parse_cidr subnet) (\<lambda>(net, prefix).
       if prefix > 30
       then Err (Config (''subnet '' @ subnet @ '' is too small to allocate addresses from''))
       else
         (let msk = prefix_mask prefix;
              base = from_be_bytes net AND msk;
              hi = base OR NOT msk
          in Ok (base + 1, hi - 1)))"

text \<open>\<open>for candidate in lo..=hi\<close>, stopping at the first address that is free.\<close>

function first_free :: "u32 \<Rightarrow> ipv4 list \<Rightarrow> u32 \<Rightarrow> u32 \<Rightarrow> ipv4 option" where
  "first_free gw taken cand hi =
     (if hi < cand then None
      else if cand \<noteq> gw \<and> to_be_bytes cand \<notin> set taken then Some (to_be_bytes cand)
      else if cand = hi then None
      else first_free gw taken (cand + 1) hi)"
  by auto

lemma step_up: "a < b \<Longrightarrow> unat (a + 1) = Suc (unat a)" for a b :: u32
proof -
  assume "a < b"
  then have "a \<noteq> - 1" using word_order.extremum [of b] by (metis leD)
  then have "1 + a \<noteq> 0" by (metis add.commute add_eq_0_iff2)
  then show ?thesis using unatSuc [of a] by (simp add: add.commute)
qed

termination first_free
proof (relation "measure (\<lambda>(gw, taken, cand, hi). unat hi - unat cand)")
  fix gw :: u32 and taken :: "ipv4 list" and cand hi :: u32
  assume "\<not> hi < cand" "cand \<noteq> hi"
  then have "cand < hi" by simp
  then show "((gw, taken, cand + 1, hi), gw, taken, cand, hi) \<in> measure (\<lambda>(gw, taken, cand, hi). unat hi - unat cand)"
    using step_up [OF \<open>cand < hi\<close>] by (simp add: word_less_nat_alt)
qed simp

declare first_free.simps [simp del]

definition new_lease ::
  "string \<Rightarrow> string \<Rightarrow> ipv4 option \<Rightarrow> ipv4 \<Rightarrow> leases \<Rightarrow> (leases option \<times> ipv4) res" where
  "new_lease subnet i requested gateway ls =
     (let taken = map l_ip (ls_entries ls); gw = from_be_bytes gateway
      in r_bind
          (case requested of
             Some ip \<Rightarrow>
               if ip \<in> set taken
               then Err (Config (''address '' @ format_ipv4 ip @ '' is already leased to another container''))
               else if from_be_bytes ip = gw
               then Err (Config (''address '' @ format_ipv4 ip @ '' is the bridge gateway''))
               else Ok ip
           | None \<Rightarrow>
               r_bind (usable_range subnet) (\<lambda>(lo, hi).
                 ok_or (Container (''no free addresses left in '' @ subnet @ '' ('' @
                     show_nat (length taken) @ '' in use)'')) (first_free gw taken lo hi)))
          (\<lambda>chosen. Ok (Some (ls\<lparr>ls_entries := ls_entries ls @ [\<lparr>l_ip = chosen, l_id = i\<rparr>]\<rparr>), chosen)))"

text \<open>
  The choice of an address: \<open>None\<close> with the address when the container keeps the one it
  has, otherwise the leases to store and the new address.
\<close>

definition choose_lease ::
  "string \<Rightarrow> string \<Rightarrow> ipv4 option \<Rightarrow> ipv4 \<Rightarrow> leases \<Rightarrow> (leases option \<times> ipv4) res" where
  "choose_lease subnet i requested gateway loaded =
     (let ls = (if ls_subnet loaded \<noteq> subnet then \<lparr>ls_subnet = subnet, ls_entries = []\<rparr> else loaded);
          existing = List.find (\<lambda>l. l_id l = i) (ls_entries ls)
      in case existing of
           Some l \<Rightarrow>
             if requested = None \<or> requested = Some (l_ip l) then Ok (None, l_ip l)
             else new_lease subnet i requested gateway
               (ls\<lparr>ls_entries := filter (\<lambda>l. l_id l \<noteq> i) (ls_entries ls)\<rparr>)
         | None \<Rightarrow> new_lease subnet i requested gateway ls)"

definition ipam_allocate ::
  "string \<Rightarrow> nat \<Rightarrow> string \<Rightarrow> string \<Rightarrow> ipv4 option \<Rightarrow> ipv4 \<Rightarrow> (ipv4 \<times> u8) io" where
  "ipam_allocate root pid subnet i requested gateway =
     io_bind (ipam_guard root) (\<lambda>_.
     io_bind (io_lift (parse_cidr subnet)) (\<lambda>(_, prefix).
     io_bind (ipam_load root) (\<lambda>loaded.
     io_bind (io_lift (choose_lease subnet i requested gateway loaded)) (\<lambda>(changed, ip).
       case changed of
         None \<Rightarrow> io_ok (ip, prefix)
       | Some ls \<Rightarrow> io_bind (ipam_store root pid ls) (\<lambda>_. io_ok (ip, prefix))))))"

text \<open>\<open>release\<close> and \<open>gc\<close> keep some of the leases and store them when any was dropped.\<close>

definition ipam_retain :: "string \<Rightarrow> nat \<Rightarrow> (lease \<Rightarrow> bool) \<Rightarrow> nat io" where
  "ipam_retain root pid keep =
     io_bind (ipam_guard root) (\<lambda>_.
     io_bind (ipam_load root) (\<lambda>ls.
       (let entries = filter keep (ls_entries ls);
            removed = length (ls_entries ls) - length entries
        in if length entries \<noteq> length (ls_entries ls)
           then io_bind (ipam_store root pid (ls\<lparr>ls_entries := entries\<rparr>)) (\<lambda>_. io_ok removed)
           else io_ok removed)))"

definition ipam_release :: "string \<Rightarrow> nat \<Rightarrow> string \<Rightarrow> unit io" where
  "ipam_release root pid i = io_bind (ipam_retain root pid (\<lambda>l. l_id l \<noteq> i)) (\<lambda>_. io_ok ())"

definition ipam_gc :: "string \<Rightarrow> nat \<Rightarrow> string list \<Rightarrow> nat io" where
  "ipam_gc root pid live = ipam_retain root pid (\<lambda>l. l_id l \<in> set live)"

definition lease_of :: "string \<Rightarrow> string \<Rightarrow> ipv4 option io" where
  "lease_of root i = io_bind (ipam_guard root) (\<lambda>_. io_bind (ipam_load root) (\<lambda>ls.
     io_ok (map_option l_ip (List.find (\<lambda>l. l_id l = i) (ls_entries ls)))))"

definition all_leases :: "string \<Rightarrow> lease list io" where
  "all_leases root = io_bind (ipam_guard root) (\<lambda>_. io_bind (ipam_load root) (\<lambda>ls. io_ok (ls_entries ls)))"

section \<open>The JSON form\<close>

lemma lease_roundtrip: "lease_from_json (lease_to_json l) = Some l"
  by (simp add: lease_from_json_def lease_to_json_def get_str_def json_simps parse_format_ipv4 del: json_get.simps)

lemma leases_roundtrip: "leases_from_json (leases_to_json l) = l"
proof -
  have "List.map_filter lease_from_json (map lease_to_json xs) = xs" for xs
    by (induction xs) (simp_all add: List.map_filter_def lease_roundtrip)
  then show ?thesis
    by (simp add: leases_from_json_def leases_to_json_def get_str_def get_array_def json_simps del: json_get.simps)
qed

section \<open>The free address\<close>

lemma first_free_Some:
  "first_free gw taken cand hi = Some a \<Longrightarrow> \<exists>c. cand \<le> c \<and> c \<le> hi \<and> a = to_be_bytes c \<and> c \<noteq> gw \<and> a \<notin> set taken
     \<and> (\<forall>d. cand \<le> d \<and> d < c \<longrightarrow> d = gw \<or> to_be_bytes d \<in> set taken)"
proof (induction gw taken cand hi rule: first_free.induct)
  case (1 gw taken cand hi)
  consider "cand \<le> hi" "cand \<noteq> gw" "to_be_bytes cand \<notin> set taken" "a = to_be_bytes cand"
    | "cand < hi" "cand = gw \<or> to_be_bytes cand \<in> set taken" "first_free gw taken (cand + 1) hi = Some a"
    using 1(2) by (subst (asm) first_free.simps) (auto split: if_splits simp: not_less)
  then show ?case
  proof cases
    case 1
    then show ?thesis by (intro exI [of _ cand]) auto
  next
    case 2
    have "\<not> hi < cand" "\<not> (cand \<noteq> gw \<and> to_be_bytes cand \<notin> set taken)" "cand \<noteq> hi" using 2 by auto
    from 1(1) [OF this 2(3)] obtain c where c: "cand + 1 \<le> c" "c \<le> hi" "a = to_be_bytes c" "c \<noteq> gw" "a \<notin> set taken"
      "\<forall>d. cand + 1 \<le> d \<and> d < c \<longrightarrow> d = gw \<or> to_be_bytes d \<in> set taken" by auto
    have n: "unat (cand + 1) = Suc (unat cand)" by (rule step_up [OF 2(1)])
    have "d = cand \<or> cand + 1 \<le> d" if "cand \<le> d" for d
      using that n by (auto simp: word_le_nat_alt word_unat_eq_iff)
    moreover have "cand \<le> c" using c(1) n by (simp add: word_le_nat_alt)
    ultimately show ?thesis using c 2(2) by metis
  qed
qed

lemma first_free_None:
  "first_free gw taken cand hi = None \<Longrightarrow> cand \<le> d \<Longrightarrow> d \<le> hi \<Longrightarrow> d = gw \<or> to_be_bytes d \<in> set taken"
proof (induction gw taken cand hi rule: first_free.induct)
  case (1 gw taken cand hi)
  have le: "cand \<le> hi" using 1(3,4) by simp
  have b: "cand = gw \<or> to_be_bytes cand \<in> set taken" "cand \<noteq> hi \<Longrightarrow> first_free gw taken (cand + 1) hi = None"
    using 1(2) le by (subst (asm) first_free.simps; auto split: if_splits)+
  show ?case
  proof (cases "d = cand")
    case False
    then have l: "cand < d" "cand < hi" using 1(3,4) by auto
    have "cand + 1 \<le> d" using step_up [OF l(1)] l(1) by (simp add: word_le_nat_alt word_less_nat_alt)
    then show ?thesis using 1(4) b l(2) by (intro 1(1)) auto
  qed (use b in auto)
qed

end
