(* ===== verification/Address_Pool.thy ===== *)
theory Address_Pool
  imports Netlink
begin

text \<open>
  The contract of the address manager that the network set-up relies on, as an interface: a
  pool in which a container is given an address nobody else holds, keeps it until it is
  released, and gives it back.  The lemmas about runs of operations are proved from the
  contract alone.
\<close>

datatype pool_op = Take string "ipv4 option" | Give string

fun pool_run :: "(string \<Rightarrow> ipv4 option \<Rightarrow> 's \<Rightarrow> ipv4 option \<times> 's) \<Rightarrow> (string \<Rightarrow> 's \<Rightarrow> 's) \<Rightarrow> pool_op list \<Rightarrow> 's \<Rightarrow> 's" where
  "pool_run tk gv [] s = s"
| "pool_run tk gv (Take i q # ops) s = pool_run tk gv ops (snd (tk i q s))"
| "pool_run tk gv (Give i # ops) s = pool_run tk gv ops (gv i s)"

fun pool_ids :: "pool_op \<Rightarrow> string" where
  "pool_ids (Take i q) = i"
| "pool_ids (Give i) = i"

locale address_pool =
  fixes inv :: "'s \<Rightarrow> bool"
    and holds :: "'s \<Rightarrow> string \<Rightarrow> ipv4 option"
    and valid :: "string \<Rightarrow> bool"
    and tk :: "string \<Rightarrow> ipv4 option \<Rightarrow> 's \<Rightarrow> ipv4 option \<times> 's"
    and gv :: "string \<Rightarrow> 's \<Rightarrow> 's"
  assumes tk_inv: "inv s \<Longrightarrow> valid i \<Longrightarrow> tk i q s = (r, t) \<Longrightarrow> inv t"
    and tk_some: "inv s \<Longrightarrow> valid i \<Longrightarrow> tk i q s = (Some a, t) \<Longrightarrow>
      holds t = (holds s)(i \<mapsto> a) \<and> (\<forall>j. j \<noteq> i \<longrightarrow> holds s j \<noteq> Some a)"
    and tk_none: "inv s \<Longrightarrow> valid i \<Longrightarrow> tk i q s = (None, t) \<Longrightarrow> holds t = holds s"
    and gv_inv: "inv s \<Longrightarrow> valid i \<Longrightarrow> inv (gv i s)"
    and gv_holds: "inv s \<Longrightarrow> valid i \<Longrightarrow> holds (gv i s) = (holds s)(i := None)"
begin

definition exclusive :: "'s \<Rightarrow> bool" where
  "exclusive s \<longleftrightarrow> (\<forall>i j a. holds s i = Some a \<longrightarrow> holds s j = Some a \<longrightarrow> i = j)"

lemma exclusiveD: "exclusive s \<Longrightarrow> holds s i = Some a \<Longrightarrow> holds s j = Some a \<Longrightarrow> i = j"
  unfolding exclusive_def by blast

lemma tk_exclusive:
  assumes "inv s" "valid i" "exclusive s"
  shows "exclusive (snd (tk i q s))"
proof (cases "tk i q s")
  case (Pair r t)
  then show ?thesis
  proof (cases r)
    case None
    then show ?thesis using tk_none [OF assms(1,2)] Pair assms(3) by (simp add: exclusive_def)
  next
    case (Some a)
    then have h: "holds t = (holds s)(i \<mapsto> a)" "\<forall>j. j \<noteq> i \<longrightarrow> holds s j \<noteq> Some a"
      using tk_some [OF assms(1,2)] Pair by blast+
    have "x = y" if "holds t x = Some b" "holds t y = Some b" for x y b
      using that h(2) exclusiveD [OF assms(3), of x b y] unfolding h(1) by (cases "x = i"; cases "y = i") auto
    then show ?thesis unfolding Pair snd_conv exclusive_def by blast
  qed
qed

lemma run_inv:
  "inv s \<Longrightarrow> list_all (\<lambda>p. valid (pool_ids p)) ops \<Longrightarrow> inv (pool_run tk gv ops s)"
proof (induction ops arbitrary: s)
  case (Cons p ops)
  have "inv (snd (tk i q s))" if "valid i" for i q using tk_inv [OF Cons.prems(1) that] by (metis prod.collapse)
  then show ?case using Cons gv_inv by (cases p) auto
qed simp

lemma run_exclusive:
  "inv s \<Longrightarrow> exclusive s \<Longrightarrow> list_all (\<lambda>p. valid (pool_ids p)) ops \<Longrightarrow> exclusive (pool_run tk gv ops s)"
proof (induction ops arbitrary: s)
  case (Cons p ops)
  show ?case
  proof (cases p)
    case (Take i q)
    then have "inv (snd (tk i q s))" "exclusive (snd (tk i q s))"
      using Cons.prems tk_exclusive [of s i q] tk_inv [of s i q] by (auto simp: prod_eq_iff)
    then show ?thesis using Cons Take by simp
  next
    case (Give i)
    then have "exclusive (gv i s)" using Cons.prems gv_holds [of s i] by (auto simp: exclusive_def)
    then show ?thesis using Cons Give gv_inv by simp
  qed
qed simp

lemma run_keeps:
  "inv s \<Longrightarrow> list_all (\<lambda>p. valid (pool_ids p) \<and> pool_ids p \<noteq> i) ops \<Longrightarrow>
     holds (pool_run tk gv ops s) i = holds s i"
proof (induction ops arbitrary: s)
  case (Cons p ops)
  show ?case
  proof (cases p)
    case (Take j q)
    obtain r t where t: "tk j q s = (r, t)" by (cases "tk j q s")
    have "holds t i = holds s i"
      using Cons.prems Take t tk_none [of s j q t] tk_some [of s j q _ t] by (cases r) auto
    then show ?thesis using Cons Take t tk_inv [of s j q r t] by simp
  next
    case (Give j)
    then show ?thesis using Cons gv_inv [of s j] gv_holds [of s j] by auto
  qed
qed simp

end

end
