(* ===== verification/Ipam_Laws.thy ===== *)
theory Ipam_Laws
  imports Ipam Address_Pool
begin

text \<open>
  The laws of the lease file: what is stored is what is loaded, no address is leased twice
  whatever fails, and, as long as nothing fails, the file implements an abstract pool of
  addresses.
\<close>

section \<open>The text of the lease file\<close>

lemma trim_braces: "str_trim (''{'' @ m @ ''}'') = ''{'' @ m @ ''}''"
  using str_trim_ends [of "CHR ''{''" "CHR ''}''" m] by (simp add: graphic_def byte_def)

definition file_leases :: "string \<Rightarrow> fs \<Rightarrow> leases" where
  "file_leases root s = (case file_of s (ipam_state_path root) of
     None \<Rightarrow> leases_default | Some text \<Rightarrow> leases_of_text text)"

text \<open>No address and no container twice, and text the file can hold.\<close>

definition table_ok :: "leases \<Rightarrow> bool" where
  "table_ok l \<longleftrightarrow> distinct (map l_ip (ls_entries l)) \<and> distinct (map l_id (ls_entries l))
     \<and> utf8_valid (ls_subnet l) \<and> list_all (\<lambda>e. utf8_valid (l_id e)) (ls_entries l)"

lemma format_ipv4_ascii: "utf8_valid (format_ipv4 ip)"
proof -
  have "\<forall>c \<in> set (show_nat n). byte c < 0x80" for n
    using show_nat_digits [of n] by (auto simp: is_ascii_digit_def byte_def)
  then show ?thesis
    by (intro utf8_valid_ascii) (auto simp: format_ipv4_def byte_def split: prod.splits)
qed

lemma leases_plain: "table_ok l \<Longrightarrow> plain_json (leases_to_json l)"
proof -
  assume a: "table_ok l"
  have k: "utf8_valid ''subnet''" "utf8_valid ''leases''" "utf8_valid ''ip''" "utf8_valid ''id''" by code_simp+
  have "plain_json (lease_to_json e)" if "utf8_valid (l_id e)" for e
    using that k by (simp add: lease_to_json_def json_build_Obj format_ipv4_ascii)
  then show ?thesis
    using a k by (simp add: leases_to_json_def json_build_Obj table_ok_def list_all_iff)
qed

lemma leases_of_text_write:
  assumes "table_ok l"
  shows "leases_of_text (json_to_string_pretty (leases_to_json l)) = l"
    and "utf8_valid (json_to_string_pretty (leases_to_json l))"
proof -
  let ?t = "json_to_string_pretty (leases_to_json l)"
  note p = leases_plain [OF assms]
  obtain m where "?t = ''{'' @ m @ ''}''"
    by (simp add: json_to_string_pretty_def leases_to_json_def json_build_Obj)
  then have "str_trim ?t \<noteq> []" using trim_braces [of m] by simp
  then show "leases_of_text ?t = l"
    unfolding leases_of_text_def
    by (simp add: json_to_string_pretty_def json_parse_write [OF p] leases_roundtrip)
  show "utf8_valid ?t" unfolding json_to_string_pretty_def by (rule json_write_valid [OF p])
qed

section \<open>Choosing an address\<close>

definition current :: "string \<Rightarrow> leases \<Rightarrow> leases" where
  "current subnet l = (if ls_subnet l \<noteq> subnet then \<lparr>ls_subnet = subnet, ls_entries = []\<rparr> else l)"

lemma find_id_Some:
  "List.find (\<lambda>l. l_id l = i) xs = Some e \<Longrightarrow> e \<in> set xs \<and> l_id e = i"
  by (auto simp: find_Some_iff)

lemma new_lease_Ok:
  assumes "new_lease subnet i requested gateway ls = Ok (changed, ip)"
  shows "changed = Some (ls\<lparr>ls_entries := ls_entries ls @ [\<lparr>l_ip = ip, l_id = i\<rparr>]\<rparr>)"
    and "ip \<notin> l_ip ` set (ls_entries ls)" and "from_be_bytes ip \<noteq> from_be_bytes gateway"
    and "requested \<noteq> None \<Longrightarrow> requested = Some ip"
    and "requested = None \<Longrightarrow> \<exists>lo hi. usable_range subnet = Ok (lo, hi)
      \<and> first_free (from_be_bytes gateway) (map l_ip (ls_entries ls)) lo hi = Some ip"
proof -
  let ?gw = "from_be_bytes gateway" and ?t = "map l_ip (ls_entries ls)"
  have fb: "from_be_bytes (to_be_bytes c) = c" for c by (rule from_to_be_bytes)
  show "changed = Some (ls\<lparr>ls_entries := ls_entries ls @ [\<lparr>l_ip = ip, l_id = i\<rparr>]\<rparr>)"
    "requested \<noteq> None \<Longrightarrow> requested = Some ip"
    using assms by (auto simp: new_lease_def Let_def split: option.splits if_splits)
  show n: "requested = None \<Longrightarrow> \<exists>lo hi. usable_range subnet = Ok (lo, hi) \<and> first_free ?gw ?t lo hi = Some ip"
    using assms by (auto simp: new_lease_def Let_def)
  show "ip \<notin> l_ip ` set (ls_entries ls)" "from_be_bytes ip \<noteq> ?gw"
    using assms n first_free_Some [of ?gw ?t _ _ ip] fb
    by (cases requested; fastforce simp: new_lease_def Let_def split: if_splits)+
qed

text \<open>Who holds which address.\<close>

definition lease_for :: "leases \<Rightarrow> string \<Rightarrow> ipv4 option" where
  "lease_for l i = map_option l_ip (List.find (\<lambda>e. l_id e = i) (ls_entries l))"

lemma lease_for_in: "lease_for l i = Some a \<Longrightarrow> \<exists>e \<in> set (ls_entries l). l_id e = i \<and> l_ip e = a"
  by (auto simp: lease_for_def find_Some_iff)

lemma lease_for_add:
  "lease_for (l\<lparr>ls_entries := ls_entries l @ [\<lparr>l_ip = a, l_id = i\<rparr>]\<rparr>) j =
     (case lease_for l j of None \<Rightarrow> if j = i then Some a else None | r \<Rightarrow> r)"
  by (simp add: lease_for_def find_append split: option.splits)

lemma lease_for_keep:
  assumes "\<And>e. l_id e = j \<Longrightarrow> P e"
  shows "lease_for (l\<lparr>ls_entries := filter P (ls_entries l)\<rparr>) j = lease_for l j"
proof -
  have "List.find (\<lambda>e. l_id e = j) (filter P xs) = List.find (\<lambda>e. l_id e = j) xs" for xs
    using assms by (induction xs) auto
  then show ?thesis by (simp add: lease_for_def)
qed

lemma lease_for_lose:
  assumes "\<And>e. l_id e = j \<Longrightarrow> \<not> P e"
  shows "lease_for (l\<lparr>ls_entries := filter P (ls_entries l)\<rparr>) j = None"
  using assms by (auto simp: lease_for_def find_None_iff)

lemma lease_for_drop: "lease_for (l\<lparr>ls_entries := filter (\<lambda>e. l_id e \<noteq> i) (ls_entries l)\<rparr>) = (lease_for l)(i := None)"
  by (rule ext) (simp add: lease_for_keep lease_for_lose)

lemma table_ok_filter: "table_ok l \<Longrightarrow> table_ok (l\<lparr>ls_entries := filter P (ls_entries l)\<rparr>)"
  by (auto simp: table_ok_def list_all_iff distinct_map_filter_prop)

lemma table_ok_current: "table_ok l \<Longrightarrow> utf8_valid subnet \<Longrightarrow> table_ok (current subnet l)"
  by (simp add: table_ok_def current_def)

lemma table_ok_add:
  "table_ok l \<Longrightarrow> a \<notin> l_ip ` set (ls_entries l) \<Longrightarrow> i \<notin> l_id ` set (ls_entries l) \<Longrightarrow> utf8_valid i \<Longrightarrow>
     table_ok (l\<lparr>ls_entries := ls_entries l @ [\<lparr>l_ip = a, l_id = i\<rparr>]\<rparr>)"
  by (simp add: table_ok_def)

lemma table_ok_unique:
  "table_ok l \<Longrightarrow> lease_for l i = Some a \<Longrightarrow> lease_for l j = Some a \<Longrightarrow> i = j"
  by (metis lease_for_in table_ok_def distinct_map inj_onD)

text \<open>What a choice promises of the table \<open>l'\<close> it leaves, given the table \<open>c\<close> for the subnet.\<close>

definition leased :: "string \<Rightarrow> string \<Rightarrow> ipv4 \<Rightarrow> leases \<Rightarrow> leases \<Rightarrow> bool" where
  "leased subnet i ip c l' \<longleftrightarrow> table_ok l' \<and> ls_subnet l' = subnet \<and> lease_for l' = (lease_for c)(i \<mapsto> ip) \<and>
     (\<forall>j. j \<noteq> i \<longrightarrow> lease_for c j \<noteq> Some ip)"

lemma new_lease_leased:
  assumes "new_lease subnet i requested gateway d = Ok (changed, ip)" "lease_for d = (lease_for c)(i := None)"
    and "table_ok d" "i \<notin> l_id ` set (ls_entries d)" "ls_subnet d = subnet" "utf8_valid i"
  shows "leased subnet i ip c (unwrap_or l changed)"
proof -
  note o = new_lease_Ok [OF assms(1)]
  let ?l = "d\<lparr>ls_entries := ls_entries d @ [\<lparr>l_ip = ip, l_id = i\<rparr>]\<rparr>"
  have l': "unwrap_or l changed = ?l" using o(1) by simp
  have "lease_for ?l = (lease_for c)(i \<mapsto> ip)"
    by (rule ext) (simp add: lease_for_add assms(2) split: option.splits)
  moreover have "\<forall>j. j \<noteq> i \<longrightarrow> lease_for c j \<noteq> Some ip"
    using o(2) lease_for_in [of d _ ip] assms(2) by (metis fun_upd_other imageI)
  ultimately show ?thesis using table_ok_add [OF assms(3) o(2) assms(4,6)] assms(5) by (simp add: l' leased_def)
qed

lemma held_lease_leased: "table_ok l \<Longrightarrow> ls_subnet l = subnet \<Longrightarrow> lease_for l i = Some ip \<Longrightarrow> leased subnet i ip l l"
  using table_ok_unique unfolding leased_def by (simp add: fun_upd_idem) blast

lemma choose_lease_leased:
  assumes "choose_lease subnet i requested gateway l = Ok (changed, ip)" "table_ok l" "utf8_valid subnet" "utf8_valid i"
  shows "leased subnet i ip (current subnet l) (unwrap_or l changed)"
proof -
  let ?c = "current subnet l" and ?drop = "\<lambda>c. c\<lparr>ls_entries := filter (\<lambda>l. l_id l \<noteq> i) (ls_entries c)\<rparr>"
  have c: "choose_lease subnet i requested gateway l = (case List.find (\<lambda>l. l_id l = i) (ls_entries ?c) of
           Some l \<Rightarrow>
             if requested = None \<or> requested = Some (l_ip l) then Ok (None, l_ip l)
             else new_lease subnet i requested gateway (?drop ?c)
         | None \<Rightarrow> new_lease subnet i requested gateway ?c)"
    unfolding choose_lease_def current_def [symmetric] Let_def ..
  have tc: "table_ok ?c" "ls_subnet ?c = subnet" using table_ok_current [OF assms(2,3)] by (simp_all add: current_def)
  show ?thesis
  proof (cases "List.find (\<lambda>l. l_id l = i) (ls_entries ?c)")
    case None
    then have "i \<notin> l_id ` set (ls_entries ?c)" "lease_for ?c = (lease_for ?c)(i := None)"
      by (auto simp: find_None_iff lease_for_def fun_eq_iff)
    then show ?thesis using new_lease_leased [of subnet i requested gateway ?c] None assms(1,4) tc by (simp add: c)
  next
    case (Some e)
    then have cl: "?c = l" by (auto simp: current_def split: if_splits)
    show ?thesis
    proof (cases "requested = None \<or> requested = Some (l_ip e)")
      case True
      then have "lease_for l i = Some ip" "changed = None" using assms(1) Some cl by (auto simp: c lease_for_def)
      then show ?thesis using held_lease_leased [OF assms(2)] tc(2) cl by simp
    next
      case False
      then have "new_lease subnet i requested gateway (?drop ?c) = Ok (changed, ip)" using assms(1) Some by (auto simp: c)
      then show ?thesis
        by (rule new_lease_leased [OF _ lease_for_drop table_ok_filter [OF tc(1)] _ _ assms(4)]) (auto simp: tc(2))
    qed
  qed
qed

lemmas choose_lease_Ok = choose_lease_leased [unfolded leased_def, THEN conjunct1]
  choose_lease_leased [unfolded leased_def, THEN conjunct2, THEN conjunct1]
  choose_lease_leased [unfolded leased_def, THEN conjunct2, THEN conjunct2, THEN conjunct1]
  choose_lease_leased [unfolded leased_def, THEN conjunct2, THEN conjunct2, THEN conjunct2]

section \<open>The lease file under failures\<close>

lemma ipam_paths [simp]: "ipam_state_path root \<noteq> ipam_lock_path root" "ipam_lock_path root \<noteq> ipam_state_path root"
  by (simp_all add: ipam_state_path_def ipam_lock_path_def path_join_def)

lemma file_lock_acquire_files: "file_lock_acquire p s = (r, t) \<Longrightarrow> q \<noteq> p \<Longrightarrow> file_of t q = file_of s q"
  by (cases r) (auto simp: file_lock_acquire_def io_simps os_open_rw_creat_def os_flock_def sys_defs
      split: option.splits if_splits)

lemma ipam_guard_files: "ipam_guard root s = (r, t) \<Longrightarrow> q \<noteq> ipam_lock_path root \<Longrightarrow> file_of t q = file_of s q"
  by (cases r) (auto simp: ipam_guard_def io_simps dest!: mkdir_p_files [where q = q] file_lock_acquire_files [where q = q])

lemma os_read_files: "os_read p s = (r, t) \<Longrightarrow> file_of t q = file_of s q \<and> (\<forall>c. r = Ok c \<longrightarrow> file_of s p = Some c)"
  by (auto simp: os_read_def sys_defs split: option.splits)

lemma ipam_load_cases:
  assumes "ipam_load root s = (r, t)"
  shows "file_of t q = file_of s q" "r = Ok l \<Longrightarrow> l = leases_default \<or> l = file_leases root s"
proof -
  let ?p = "ipam_state_path root"
  obtain b u where u: "os_exists ?p s = (b, u)" by (cases "os_exists ?p s")
  then have f: "file_of u q = file_of s q" for q
    by (auto simp: os_exists_def sys_defs split: option.splits prod.splits)
  have e: "(r, t) = (if b then io_bind (read_to_string ?p) (\<lambda>text. io_ok (leases_of_text text)) u else (Ok leases_default, u))"
    using assms u by (simp add: ipam_load_def Let_def split: bool.splits)
  show "file_of t q = file_of s q"
    using e [symmetric] f os_read_files [of ?p u]
    by (cases r) (auto simp: read_to_string_def io_simps split: if_splits)
  show "l = leases_default \<or> l = file_leases root s" if "r = Ok l"
    using e [symmetric] that f os_read_files [of ?p u]
    by (auto simp: read_to_string_def io_simps file_leases_def split: if_splits)
qed

lemma ipam_store_cases:
  assumes "ipam_store root pid l s = (r, t)"
  shows "r = Ok () \<Longrightarrow> file_of t (ipam_state_path root) = Some (json_to_string_pretty (leases_to_json l))"
    and "r = Err e \<Longrightarrow> file_of t (ipam_state_path root) = file_of s (ipam_state_path root)"
proof -
  obtain r1 s1 where 1: "mkdir_p root s = (r1, s1)" by (cases "mkdir_p root s")
  note f = mkdir_p_files [OF 1]
  have "(case r1 of Ok _ \<Rightarrow> write_atomic pid (ipam_state_path root) (json_to_string_pretty (leases_to_json l)) s1 | Err e \<Rightarrow> (Err e, s1)) = (r, t)"
    using assms 1 by (simp add: ipam_store_def io_bind_def split: result.splits)
  then show "r = Ok () \<Longrightarrow> file_of t (ipam_state_path root) = Some (json_to_string_pretty (leases_to_json l))"
    "r = Err e \<Longrightarrow> file_of t (ipam_state_path root) = file_of s (ipam_state_path root)"
    using write_atomic_cases [of pid "ipam_state_path root"] f by (auto split: result.splits)
qed

lemma ipam_store_leases:
  assumes "ipam_store root pid l s = (r, t)" "table_ok l"
  shows "file_leases root t = (if r = Ok () then l else file_leases root s)"
proof (cases r)
  case (Ok x)
  then show ?thesis using ipam_store_cases(1) [OF assms(1)] leases_of_text_write(1) [OF assms(2)]
    by (simp add: file_leases_def)
next
  case (Err e)
  then show ?thesis using ipam_store_cases(2) [OF assms(1) Err] by (simp add: file_leases_def)
qed

lemma table_ok_default: "table_ok leases_default"
  by (simp add: table_ok_def leases_default_def)

lemma file_leases_cong: "file_of t (ipam_state_path root) = file_of s (ipam_state_path root) \<Longrightarrow> file_leases root t = file_leases root s"
  by (simp add: file_leases_def)

text \<open>The lock and the load in front of every operation.\<close>

lemma ipam_open_cases [consumes 2, case_names fail ok]:
  assumes "io_bind (ipam_guard root) (\<lambda>_. io_bind (ipam_load root) f) s = (r, t)"
    and "table_ok (file_leases root s)"
  obtains (fail) e where "r = Err e" "file_leases root t = file_leases root s"
  | (ok) l u where "table_ok l" "file_leases root u = file_leases root s" "f l u = (r, t)"
      "l = leases_default \<or> l = file_leases root s"
proof -
  obtain r1 s1 where 1: "ipam_guard root s = (r1, s1)" by (cases "ipam_guard root s")
  obtain r2 s2 where 2: "ipam_load root s1 = (r2, s2)" by (cases "ipam_load root s1")
  have f1: "file_leases root s1 = file_leases root s"
    using ipam_guard_files [OF 1] by (intro file_leases_cong) simp
  have f2: "file_leases root s2 = file_leases root s"
    using ipam_load_cases(1) [OF 2] f1 by (metis file_leases_cong)
  have c: "(case r1 of Err e \<Rightarrow> (Err e, s1) | Ok _ \<Rightarrow> (case r2 of Err e \<Rightarrow> (Err e, s2) | Ok l \<Rightarrow> f l s2)) = (r, t)"
    using assms(1) 1 2 by (simp add: io_bind_def split: result.splits)
  show thesis
  proof (cases "\<exists>l. r1 = Ok () \<and> r2 = Ok l")
    case True
    then obtain l where l: "r1 = Ok ()" "r2 = Ok l" by blast
    then have "l = leases_default \<or> l = file_leases root s" using ipam_load_cases(2) [OF 2 l(2)] f1 by simp
    moreover have "table_ok l" using calculation assms(2) table_ok_default by auto
    ultimately show thesis using ok [of l s2] f2 c l by simp
  next
    case False
    then show thesis using fail c f1 f2 by (cases r1; cases r2) auto
  qed
qed

definition allocate_rest ::
  "string \<Rightarrow> nat \<Rightarrow> string \<Rightarrow> string \<Rightarrow> ipv4 option \<Rightarrow> ipv4 \<Rightarrow> u8 \<Rightarrow> leases \<Rightarrow> (ipv4 \<times> u8) io" where
  "allocate_rest root pid subnet i requested gateway prefix loaded =
     io_bind (io_lift (choose_lease subnet i requested gateway loaded)) (\<lambda>(changed, ip).
       case changed of
         None \<Rightarrow> io_ok (ip, prefix)
       | Some ls \<Rightarrow> io_bind (ipam_store root pid ls) (\<lambda>_. io_ok (ip, prefix)))"

lemma ipam_allocate_unfold:
  "ipam_allocate root pid subnet i requested gateway =
     (case parse_cidr subnet of
        Err e \<Rightarrow> io_bind (ipam_guard root) (\<lambda>_. io_err e)
      | Ok (_, prefix) \<Rightarrow> io_bind (ipam_guard root) (\<lambda>_. io_bind (ipam_load root)
          (allocate_rest root pid subnet i requested gateway prefix)))"
  unfolding ipam_allocate_def allocate_rest_def [abs_def]
  by (rule ext) (auto simp: io_bind_def io_lift_def io_err_def split: result.splits prod.splits)

lemma allocate_rest_leases:
  assumes "allocate_rest root pid subnet i requested gateway prefix l s = (r, t)"
    and "table_ok l" "utf8_valid subnet" "utf8_valid i" "table_ok (file_leases root s)"
  shows "table_ok (file_leases root t)"
proof (cases "choose_lease subnet i requested gateway l")
  case (Err e)
  then show ?thesis using assms by (simp add: allocate_rest_def io_bind_def io_lift_def)
next
  case (Ok p)
  obtain changed ip where p: "p = (changed, ip)" by (cases p)
  note c = choose_lease_Ok [OF Ok [unfolded p] assms(2-4)]
  show ?thesis
  proof (cases changed)
    case None
    then show ?thesis using assms Ok p by (simp add: allocate_rest_def io_bind_def io_lift_def io_ok_def)
  next
    case (Some ls)
    obtain r' t' where "ipam_store root pid ls s = (r', t')" by (cases "ipam_store root pid ls s")
    moreover have "t = t'"
      using assms(1) Ok p Some calculation by (auto simp: allocate_rest_def io_bind_def io_lift_def io_ok_def split: result.splits)
    ultimately show ?thesis using ipam_store_leases [of root pid ls s r' t'] c(1) Some assms(5) by simp
  qed
qed

lemma ipam_allocate_table:
  assumes "ipam_allocate root pid subnet i requested gateway s = (r, t)"
    and "utf8_valid subnet" "utf8_valid i" "table_ok (file_leases root s)"
  shows "table_ok (file_leases root t)"
proof (cases "parse_cidr subnet")
  case (Err e)
  obtain r1 s1 where 1: "ipam_guard root s = (r1, s1)" by (cases "ipam_guard root s")
  then have "t = s1" using assms(1) Err by (auto simp: ipam_allocate_unfold io_bind_def io_err_def split: result.splits)
  then show ?thesis using ipam_guard_files [OF 1] assms(4) by (metis file_leases_cong ipam_paths(1))
next
  case (Ok p)
  then have "io_bind (ipam_guard root) (\<lambda>_. io_bind (ipam_load root)
      (allocate_rest root pid subnet i requested gateway (snd p))) s = (r, t)"
    using assms(1) by (simp add: ipam_allocate_unfold split: prod.splits)
  from this assms(4) show ?thesis
  proof (cases rule: ipam_open_cases)
    case prems: (ok l u)
    then show ?thesis using allocate_rest_leases [OF prems(3,1) assms(2,3)] assms(4) by simp
  qed (use assms in auto)
qed

lemma ipam_retain_table:
  assumes "ipam_retain root pid keep s = (r, t)" "table_ok (file_leases root s)"
  shows "table_ok (file_leases root t)"
  using assms unfolding ipam_retain_def
proof (cases rule: ipam_open_cases)
  case prems: (ok l u)
  let ?l = "l\<lparr>ls_entries := filter keep (ls_entries l)\<rparr>"
  obtain r' t' where w: "ipam_store root pid ?l u = (r', t')" by (cases "ipam_store root pid ?l u")
  have "t = u \<or> t = t'"
    using prems(3) w by (auto simp: Let_def io_bind_def io_ok_def split: if_splits result.splits)
  then show ?thesis
    using ipam_store_leases [OF w table_ok_filter [OF prems(1)]] table_ok_filter [OF prems(1)] prems(2) assms(2)
    by (auto split: if_splits)
qed (use assms in auto)

text \<open>
  Everything that can happen to the lease file: any operation, by any process, with any
  system call failing; and any change to other files or to what fails next.
\<close>

inductive ipam_reach :: "string \<Rightarrow> fs \<Rightarrow> fs \<Rightarrow> bool" for root :: string and s :: fs where
  start: "ipam_reach root s s"
| alloc: "ipam_reach root s t \<Longrightarrow> utf8_valid subnet \<Longrightarrow> utf8_valid i \<Longrightarrow>
    ipam_allocate root pid subnet i requested gateway t = (r, u) \<Longrightarrow> ipam_reach root s u"
| release: "ipam_reach root s t \<Longrightarrow> ipam_release root pid i t = (r', u) \<Longrightarrow> ipam_reach root s u"
| gc: "ipam_reach root s t \<Longrightarrow> ipam_gc root pid live t = (r'', u) \<Longrightarrow> ipam_reach root s u"
| other: "ipam_reach root s t \<Longrightarrow> file_of u (ipam_state_path root) = file_of t (ipam_state_path root) \<Longrightarrow>
    ipam_reach root s u"

lemma ipam_release_retain: "ipam_release root pid i s = (r, t) \<Longrightarrow> \<exists>r'. ipam_retain root pid (\<lambda>l. l_id l \<noteq> i) s = (r', t)"
  by (cases "ipam_retain root pid (\<lambda>l. l_id l \<noteq> i) s")
    (auto simp: ipam_release_def io_bind_def io_ok_def split: result.splits)

lemma ipam_reach_table:
  assumes "ipam_reach root s t" "table_ok (file_leases root s)"
  shows "table_ok (file_leases root t)"
  using assms
proof (induction rule: ipam_reach.induct)
  case (release t pid i r' u)
  then show ?case using ipam_release_retain ipam_retain_table by blast
next
  case (gc t pid live r'' u)
  then show ?case using ipam_retain_table unfolding ipam_gc_def by blast
next
  case (other t u)
  then show ?case using file_leases_cong [of u root t] by simp
qed (use ipam_allocate_table in blast)+

text \<open>
  C7: no address is ever leased to two containers and no container has two addresses: from a
  runtime root without a lease file, after any sequence of operations of any processes,
  with any system call failing at any point, the lease file lists each address and each
  container at most once.
\<close>

theorem ipam_never_twice:
  assumes "file_of s (ipam_state_path root) = None" and "ipam_reach root s t"
  shows "distinct (map l_ip (ls_entries (file_leases root t)))
    \<and> distinct (map l_id (ls_entries (file_leases root t)))"
  using ipam_reach_table [OF assms(2)] assms(1) table_ok_default
  by (simp add: file_leases_def table_ok_def)

theorem ipam_never_twice_witness:
  "\<exists>t. ipam_reach ''/run/myrun'' demo_fs t
     \<and> distinct (map l_ip (ls_entries (file_leases ''/run/myrun'' t)))"
proof -
  obtain r t where t: "ipam_allocate ''/run/myrun'' 3 ''10.87.0.0/24'' ''web'' None (10, 87, 0, 1) demo_fs = (r, t)"
    by (cases "ipam_allocate ''/run/myrun'' 3 ''10.87.0.0/24'' ''web'' None (10, 87, 0, 1) demo_fs")
  have "utf8_valid ''10.87.0.0/24''" "utf8_valid ''web''" by code_simp+
  with t have r: "ipam_reach ''/run/myrun'' demo_fs t" by (intro ipam_reach.alloc [OF ipam_reach.start])
  moreover have "file_of demo_fs (ipam_state_path ''/run/myrun'') = None" by code_simp
  ultimately show ?thesis using ipam_never_twice [of demo_fs "''/run/myrun''" t] by blast
qed

section \<open>The operations without failures\<close>

definition ipam_ready :: "string \<Rightarrow> nat \<Rightarrow> fs \<Rightarrow> bool" where
  "ipam_ready root pid s \<longleftrightarrow> root \<noteq> [] \<and> last root \<noteq> CHR ''/'' \<and> CHR 0x00 \<notin> set root
     \<and> list_all (\<lambda>a. file_of s a = None) (path_ancestors root)
     \<and> list_all (\<lambda>p. p \<notin> set (fs_dirs s) \<and> p \<notin> set (path_ancestors root))
         [ipam_state_path root, tmp_path pid (ipam_state_path root), ipam_lock_path root]
     \<and> (case file_of s (ipam_state_path root) of None \<Rightarrow> True | Some text \<Rightarrow> utf8_valid text)"

definition ipam_inv :: "string \<Rightarrow> nat \<Rightarrow> fs \<Rightarrow> bool" where
  "ipam_inv root pid s \<longleftrightarrow> calm s \<and> ipam_ready root pid s \<and> table_ok (file_leases root s)"

lemma ipam_ready_paths:
  assumes "ipam_ready root pid s"
  shows "path_parent (ipam_state_path root) = root" "path_parent (ipam_lock_path root) = root"
    "path_parent (tmp_path pid (ipam_state_path root)) = root" "cstr (ipam_lock_path root) = Ok ()"
    "tmp_path pid (ipam_state_path root) \<noteq> ipam_lock_path root"
proof -
  have r: "root \<noteq> []" "last root \<noteq> CHR ''/''" "CHR 0x00 \<notin> set root" using assms by (auto simp: ipam_ready_def)
  have p: "ipam_state_path root = root @ CHR ''/'' # ''ipam.json''" "ipam_lock_path root = root @ CHR ''/'' # ''ipam.lock''"
    unfolding ipam_state_path_def ipam_lock_path_def by (simp_all add: path_join_plain r)
  have n: "CHR ''/'' \<notin> set (show_nat pid)" using show_nat_digits [of pid] slash_not_digit by blast
  have t: "tmp_path pid (ipam_state_path root) = root @ CHR ''/'' # ''.ipam.json.tmp.'' @ show_nat pid"
    unfolding tmp_path_def p using path_split_plain [OF r(1)] path_join_plain [OF r(1,2)] by simp
  show "path_parent (ipam_state_path root) = root" "path_parent (ipam_lock_path root) = root"
    "path_parent (tmp_path pid (ipam_state_path root)) = root" "cstr (ipam_lock_path root) = Ok ()"
    "tmp_path pid (ipam_state_path root) \<noteq> ipam_lock_path root"
    unfolding t unfolding p using path_split_plain(1) [OF r(1)] n r(3) by (simp_all add: cstr_def)
qed

lemma ipam_ready_cong:
  assumes "ipam_ready root pid s" "\<And>q. q \<in> set (path_ancestors root) \<or> q = ipam_state_path root \<Longrightarrow> file_of t q = file_of s q"
    and "\<And>q. q \<in> set (fs_dirs t) \<Longrightarrow> q \<in> set (fs_dirs s) \<or> q \<in> set (path_ancestors root)"
  shows "ipam_ready root pid t"
  using assms unfolding ipam_ready_def list_all_iff by auto

lemma ipam_mkdir:
  assumes "calm s" "ipam_ready root pid s"
  obtains t where "mkdir_p root s = (Ok (), t)" "calm t" "ipam_ready root pid t" "dir_exists root t"
    "\<And>q. file_of t q = file_of s q"
proof -
  obtain t where t: "mkdir_p root s = (Ok (), t)" "calm t" "dir_exists root t"
    "\<And>q. q \<in> set (fs_dirs t) \<longleftrightarrow> q \<in> set (fs_dirs s) \<or> q \<in> set (path_ancestors root)"
    using mkdir_p_calm [OF assms(1), of root] assms(2) by (auto simp: ipam_ready_def)
  note f = mkdir_p_files [OF t(1)]
  show thesis using that t f ipam_ready_cong [OF assms(2), of t] by blast
qed

lemma ipam_guard_calm:
  assumes "calm s" "ipam_ready root pid s"
  obtains t where "ipam_guard root s = (Ok (), t)" "calm t" "ipam_ready root pid t"
    "file_of t (ipam_state_path root) = file_of s (ipam_state_path root)"
proof -
  obtain u where u: "mkdir_p root s = (Ok (), u)" "calm u" "ipam_ready root pid u" "dir_exists root u"
    "\<And>q. file_of u q = file_of s q" using ipam_mkdir [OF assms] by blast
  let ?l = "ipam_lock_path root"
  have l: "?l \<notin> set (fs_dirs u)" "path_parent ?l = root" "cstr ?l = Ok ()"
    using u(3) ipam_ready_paths [OF u(3)] by (auto simp: ipam_ready_def)
  have "\<exists>t. file_lock_acquire ?l u = (Ok (), t) \<and> calm t \<and> fs_dirs t = fs_dirs u"
    using u(2,4) l
    by (auto simp: file_lock_acquire_def io_bind_def io_lift_def io_from_def os_open_rw_creat_def os_flock_def
        sys_call_calm calm_ticks put_file_tick)
  then obtain t where t: "file_lock_acquire ?l u = (Ok (), t)" "calm t" "fs_dirs t = fs_dirs u" by blast
  have f: "file_of t q = file_of u q" if "q \<in> set (path_ancestors root) \<or> q = ipam_state_path root" for q
    using file_lock_acquire_files [OF t(1), of q] that u(3) by (auto simp: ipam_ready_def)
  have "ipam_ready root pid t" using ipam_ready_cong [OF u(3), of t] f t(3) by auto
  then show thesis using that t u(1,5) f by (simp add: ipam_guard_def io_bind_def)
qed

lemma ipam_load_calm:
  assumes "calm s" "ipam_ready root pid s"
  obtains n where "ipam_load root s = (Ok (file_leases root s), at_tick s n)" "fs_tick s \<le> n"
proof (cases "file_of s (ipam_state_path root)")
  case None
  have "\<not> dir_exists (ipam_state_path root) s"
    using assms(2) by (auto simp: ipam_ready_def dir_exists_def ipam_state_path_def path_join_def)
  then show thesis using that [of "Suc (fs_tick s)"] None assms(1)
    by (simp add: ipam_load_def Let_def os_exists_calm file_leases_def)
next
  case (Some c)
  then have "utf8_valid c" using assms(2) by (simp add: ipam_ready_def)
  then show thesis using that [of "Suc (Suc (fs_tick s))"] Some assms(1)
    by (simp add: ipam_load_def Let_def os_exists_calm file_leases_def read_to_string_def io_bind_def io_from_def
      os_read_calm calm_tick io_ok_def)
qed

lemma ipam_store_calm:
  assumes "calm s" "ipam_ready root pid s" "table_ok l"
  obtains t where "ipam_store root pid l s = (Ok (), t)" "ipam_inv root pid t" "file_leases root t = l"
proof -
  let ?p = "ipam_state_path root"
  obtain u where u: "mkdir_p root s = (Ok (), u)" "calm u" "ipam_ready root pid u" "dir_exists root u"
    "\<And>q. file_of u q = file_of s q" using ipam_mkdir [OF assms(1,2)] by blast
  obtain t where t: "write_atomic pid ?p (json_to_string_pretty (leases_to_json l)) u = (Ok (), t)" "calm t"
    using write_atomic_calm [OF u(2), of pid ?p] u(3,4) ipam_ready_paths [OF u(3)] by (auto simp: ipam_ready_def)
  note w = write_atomic_cases [OF t(1)]
  have "?p \<notin> set (path_ancestors root)" "tmp_path pid ?p \<notin> set (path_ancestors root)"
    using u(3) by (simp_all add: ipam_ready_def)
  then have "file_of t q = file_of u q" if "q \<in> set (path_ancestors root)" for q
    using w that by metis
  then have "ipam_ready root pid t"
    using u(3) w leases_of_text_write(2) [OF assms(3)] unfolding ipam_ready_def list_all_iff by auto
  moreover have st: "ipam_store root pid l s = (Ok (), t)" using u(1) t(1) by (simp add: ipam_store_def io_bind_def)
  moreover have "file_leases root t = l" using ipam_store_leases [OF st assms(3)] by simp
  ultimately show thesis using that t(2) assms(3) by (simp add: ipam_inv_def)
qed

lemma ipam_open_calm:
  assumes "ipam_inv root pid s"
  obtains u where "ipam_inv root pid u" "file_leases root u = file_leases root s"
    "\<And>f. io_bind (ipam_guard root) (\<lambda>_. io_bind (ipam_load root) f) s = f (file_leases root s) u"
proof -
  have a: "calm s" "ipam_ready root pid s" "table_ok (file_leases root s)" using assms by (simp_all add: ipam_inv_def)
  obtain t where t: "ipam_guard root s = (Ok (), t)" "calm t" "ipam_ready root pid t"
    "file_of t (ipam_state_path root) = file_of s (ipam_state_path root)"
    using ipam_guard_calm [OF a(1,2)] by blast
  have ft: "file_leases root t = file_leases root s" by (rule file_leases_cong [OF t(4)])
  obtain n where n: "ipam_load root t = (Ok (file_leases root t), at_tick t n)" "fs_tick t \<le> n"
    using ipam_load_calm [OF t(2,3)] by blast
  have c: "ipam_inv root pid (at_tick t n)" "file_leases root (at_tick t n) = file_leases root s"
    using t(2,3) n(2) a(3) ft by (auto simp: ipam_inv_def calm_at_tick file_leases_def
        intro: ipam_ready_cong [OF t(3)])
  show thesis using t(1) n(1) ft by (intro that [OF c]) (simp add: io_bind_def)
qed

lemma ipam_guard_err_calm:
  assumes "ipam_inv root pid s"
  obtains v where "io_bind (ipam_guard root) (\<lambda>_. io_err e) s = (Err e, v)" "ipam_inv root pid v"
    "file_leases root v = file_leases root s"
proof -
  have a: "calm s" "ipam_ready root pid s" "table_ok (file_leases root s)" using assms by (simp_all add: ipam_inv_def)
  obtain t where t: "ipam_guard root s = (Ok (), t)" "calm t" "ipam_ready root pid t"
    "file_of t (ipam_state_path root) = file_of s (ipam_state_path root)"
    using ipam_guard_calm [OF a(1,2)] by blast
  then show thesis using that [of t] file_leases_cong [OF t(4)] a(3) by (simp add: io_bind_def io_err_def ipam_inv_def)
qed

text \<open>What \<open>allocate\<close> does to the lease table.\<close>

lemma allocate_rest_calm:
  assumes "ipam_inv root pid u" "utf8_valid subnet" "utf8_valid i"
    and "allocate_rest root pid subnet i requested gateway prefix (file_leases root u) u = (r, t)"
  defines "c \<equiv> choose_lease subnet i requested gateway (file_leases root u)"
  shows "ipam_inv root pid t \<and> r = r_bind c (\<lambda>(_, ip). Ok (ip, prefix)) \<and>
    file_leases root t = (case c of Ok (changed, _) \<Rightarrow> unwrap_or (file_leases root u) changed | Err _ \<Rightarrow> file_leases root u)"
proof (cases c)
  case (Err x)
  then show ?thesis using assms(1,4) by (auto simp: c_def allocate_rest_def io_bind_def io_lift_def split: prod.splits)
next
  case (Ok q)
  obtain changed ip where q: "q = (changed, ip)" by (cases q)
  have tl: "table_ok (file_leases root u)" using assms(1) by (simp add: ipam_inv_def)
  note ok = choose_lease_Ok(1) [OF Ok [unfolded q c_def] tl assms(2,3)]
  show ?thesis
  proof (cases changed)
    case None
    then show ?thesis using assms(1,4) Ok q
      by (auto simp: c_def allocate_rest_def io_bind_def io_lift_def io_ok_def split: prod.splits)
  next
    case (Some ls)
    obtain v where "ipam_store root pid ls u = (Ok (), v)" "ipam_inv root pid v" "file_leases root v = ls"
      using ipam_store_calm [of u root pid ls] assms(1) ok Some by (auto simp: ipam_inv_def)
    then show ?thesis using assms(4) Ok q Some
      by (auto simp: c_def allocate_rest_def io_bind_def io_lift_def io_ok_def split: prod.splits)
  qed
qed

lemma allocate_calm:
  assumes "ipam_inv root pid s" "utf8_valid subnet" "utf8_valid i"
    and "ipam_allocate root pid subnet i requested gateway s = (r, t)"
  shows "ipam_inv root pid t \<and>
    r = r_bind (parse_cidr subnet) (\<lambda>(_, prefix). r_bind (choose_lease subnet i requested gateway (file_leases root s))
        (\<lambda>(_, ip). Ok (ip, prefix))) \<and>
    file_leases root t = (case r_bind (parse_cidr subnet) (\<lambda>_. choose_lease subnet i requested gateway (file_leases root s)) of
        Ok (changed, _) \<Rightarrow> unwrap_or (file_leases root s) changed | Err _ \<Rightarrow> file_leases root s)"
proof (cases "parse_cidr subnet")
  case (Err e)
  obtain v where v: "io_bind (ipam_guard root) (\<lambda>_. io_err e :: (ipv4 \<times> u8) io) s = (Err e, v)" "ipam_inv root pid v"
      "file_leases root v = file_leases root s"
    using ipam_guard_err_calm [OF assms(1)] by blast
  moreover have "r = Err e" "t = v" using assms(4) Err v(1) by (simp_all add: ipam_allocate_unfold)
  ultimately show ?thesis using Err by simp
next
  case (Ok p)
  obtain u where u: "ipam_inv root pid u" "file_leases root u = file_leases root s"
    "\<And>f :: leases \<Rightarrow> (ipv4 \<times> u8) io. io_bind (ipam_guard root) (\<lambda>_. io_bind (ipam_load root) f) s = f (file_leases root s) u"
    using ipam_open_calm [OF assms(1)] by blast
  have "allocate_rest root pid subnet i requested gateway (snd p) (file_leases root u) u = (r, t)"
    using assms(4) Ok by (simp add: ipam_allocate_unfold u(2,3) split: prod.splits)
  from allocate_rest_calm [OF u(1) assms(2,3) this, unfolded u(2)] show ?thesis
    using Ok by (simp add: case_prod_beta)
qed

lemmas ipam_allocate_calm = allocate_calm [THEN conjunct1] allocate_calm [THEN conjunct2, THEN conjunct1]
  allocate_calm [THEN conjunct2, THEN conjunct2]

lemma ipam_retain_calm:
  assumes "ipam_inv root pid s" "ipam_retain root pid keep s = (r, t)"
  shows "ipam_inv root pid t" "file_leases root t = (file_leases root s)\<lparr>ls_entries := filter keep (ls_entries (file_leases root s))\<rparr>"
    "is_ok r"
proof -
  let ?l = "file_leases root s" let ?e = "filter keep (ls_entries ?l)"
  have tl: "table_ok ?l" using assms(1) by (simp add: ipam_inv_def)
  obtain u where u: "ipam_inv root pid u" "file_leases root u = ?l"
    "\<And>f :: leases \<Rightarrow> nat io. io_bind (ipam_guard root) (\<lambda>_. io_bind (ipam_load root) f) s = f ?l u"
    using ipam_open_calm [OF assms(1)] by blast
  obtain v where v: "ipam_store root pid (?l\<lparr>ls_entries := ?e\<rparr>) u = (Ok (), v)" "ipam_inv root pid v" "file_leases root v = ?l\<lparr>ls_entries := ?e\<rparr>"
    using ipam_store_calm [of u root pid "?l\<lparr>ls_entries := ?e\<rparr>"] u(1) table_ok_filter [OF tl] by (auto simp: ipam_inv_def)
  have e: "(if length ?e \<noteq> length (ls_entries ?l) then (Ok (length (ls_entries ?l) - length ?e), v)
      else (Ok (length (ls_entries ?l) - length ?e), u)) = (r, t)"
    using assms(2) v(1) unfolding ipam_retain_def u(3)
    by (auto simp: Let_def io_bind_def io_ok_def split: if_splits)
  have same: "length ?e = length (ls_entries ?l) \<Longrightarrow> ?l\<lparr>ls_entries := ?e\<rparr> = ?l"
    by (metis (no_types, lifting) filter_True length_filter_less leases.surjective leases.update_convs(2) nat_neq_iff)
  show "ipam_inv root pid t" "file_leases root t = ?l\<lparr>ls_entries := ?e\<rparr>" "is_ok r"
    using e u(1,2) v(2,3) same by (cases "length ?e = length (ls_entries ?l)"; auto)+
qed

section \<open>The lease file as a pool of addresses\<close>

definition pool_holds :: "string \<Rightarrow> string \<Rightarrow> fs \<Rightarrow> string \<Rightarrow> ipv4 option" where
  "pool_holds root subnet s = lease_for (current subnet (file_leases root s))"

definition pool_take ::
  "string \<Rightarrow> nat \<Rightarrow> string \<Rightarrow> ipv4 \<Rightarrow> string \<Rightarrow> ipv4 option \<Rightarrow> fs \<Rightarrow> ipv4 option \<times> fs" where
  "pool_take root pid subnet gateway i requested s =
     (case ipam_allocate root pid subnet i requested gateway s of
        (Ok (ip, _), t) \<Rightarrow> (Some ip, t) | (Err _, t) \<Rightarrow> (None, t))"

definition pool_give :: "string \<Rightarrow> nat \<Rightarrow> string \<Rightarrow> fs \<Rightarrow> fs" where
  "pool_give root pid i s = snd (ipam_release root pid i s)"

lemma current_current: "ls_subnet l = subnet \<Longrightarrow> current subnet l = l"
  by (simp add: current_def)

lemma current_drop: "lease_for (current subnet (l\<lparr>ls_entries := filter (\<lambda>e. l_id e \<noteq> i) (ls_entries l)\<rparr>)) =
   (lease_for (current subnet l))(i := None)"
proof (cases "ls_subnet l = subnet")
  case True
  then show ?thesis by (simp add: current_def lease_for_drop)
next
  case False
  then show ?thesis by (auto simp: current_def lease_for_def)
qed

text \<open>The pool runs with a subnet whose text a lease file can hold.\<close>

abbreviation pool_inv :: "string \<Rightarrow> nat \<Rightarrow> string \<Rightarrow> fs \<Rightarrow> bool" where
  "pool_inv root pid subnet s \<equiv> utf8_valid subnet \<and> ipam_inv root pid s"

lemma pool_take_cases:
  assumes "pool_inv root pid subnet s" "utf8_valid i" "pool_take root pid subnet gateway i requested s = (r, t)"
  shows "ipam_inv root pid t"
    and "r = Some a \<Longrightarrow> pool_holds root subnet t = (pool_holds root subnet s)(i \<mapsto> a)
      \<and> (\<forall>j. j \<noteq> i \<longrightarrow> pool_holds root subnet s j \<noteq> Some a)"
    and "r = None \<Longrightarrow> pool_holds root subnet t = pool_holds root subnet s"
proof -
  let ?l = "file_leases root s"
  obtain x t' where x: "ipam_allocate root pid subnet i requested gateway s = (x, t')"
    by (cases "ipam_allocate root pid subnet i requested gateway s")
  note al = ipam_allocate_calm [OF _ _ assms(2) x]
  have t: "t' = t" using assms(3) x by (auto simp: pool_take_def split: result.splits prod.splits)
  have tl: "table_ok ?l" using assms(1) by (simp add: ipam_inv_def)
  show "ipam_inv root pid t" using al(1) assms(1) t by simp
  show "pool_holds root subnet t = (pool_holds root subnet s)(i \<mapsto> a)
      \<and> (\<forall>j. j \<noteq> i \<longrightarrow> pool_holds root subnet s j \<noteq> Some a)" if ra: "r = Some a"
  proof -
    obtain p where p: "x = Ok (a, p)" using assms(3) x ra by (auto simp: pool_take_def split: result.splits prod.splits)
    then obtain c where c: "choose_lease subnet i requested gateway ?l = Ok (c, a)" "is_ok (parse_cidr subnet)"
      using al(2) assms(1) by (auto split: prod.splits)
    have f: "file_leases root t = unwrap_or ?l c" using al(3) c assms(1) t by (auto simp: is_ok_iff)
    have "utf8_valid subnet" using assms(1) by simp
    note o = choose_lease_Ok [OF c(1) tl this assms(2)]
    show ?thesis unfolding pool_holds_def f current_current [OF o(2)] using o(3,4) by blast
  qed
  show "pool_holds root subnet t = pool_holds root subnet s" if rn: "r = None"
  proof -
    obtain e where "x = Err e" using assms(3) x rn by (auto simp: pool_take_def split: result.splits prod.splits)
    then have "\<not> is_ok (r_bind (parse_cidr subnet) (\<lambda>_. choose_lease subnet i requested gateway ?l))"
      using al(2) assms(1) by (auto simp: is_ok_iff)
    then have "file_leases root t = ?l" using al(3) assms(1) t by (auto simp: is_ok_iff split: result.splits)
    then show ?thesis by (simp add: pool_holds_def)
  qed
qed

lemma pool_give_cases:
  assumes "ipam_inv root pid s"
  shows "ipam_inv root pid (pool_give root pid i s)"
    "pool_holds root subnet (pool_give root pid i s) = (pool_holds root subnet s)(i := None)"
proof -
  obtain r t where t: "ipam_release root pid i s = (r, t)" by (cases "ipam_release root pid i s")
  then obtain r' where "ipam_retain root pid (\<lambda>l. l_id l \<noteq> i) s = (r', t)" using ipam_release_retain by blast
  note c = ipam_retain_calm [OF assms this]
  show "ipam_inv root pid (pool_give root pid i s)"
    "pool_holds root subnet (pool_give root pid i s) = (pool_holds root subnet s)(i := None)"
    using c t by (simp_all add: pool_give_def pool_holds_def current_drop)
qed

interpretation ipam: address_pool "pool_inv root pid subnet" "pool_holds root subnet" utf8_valid
    "pool_take root pid subnet gateway" "pool_give root pid"
  for root :: string and pid :: nat and subnet :: string and gateway :: ipv4
proof
  fix s i q r t
  assume "pool_inv root pid subnet s" "utf8_valid i" "pool_take root pid subnet gateway i q s = (r, t)"
  then show "pool_inv root pid subnet t" using pool_take_cases(1) by blast
next
  fix s i q a t
  assume "pool_inv root pid subnet s" "utf8_valid i" "pool_take root pid subnet gateway i q s = (Some a, t)"
  then show "pool_holds root subnet t = (pool_holds root subnet s)(i \<mapsto> a)
      \<and> (\<forall>j. j \<noteq> i \<longrightarrow> pool_holds root subnet s j \<noteq> Some a)" using pool_take_cases(2) by blast
next
  fix s i q t
  assume "pool_inv root pid subnet s" "utf8_valid i" "pool_take root pid subnet gateway i q s = (None, t)"
  then show "pool_holds root subnet t = pool_holds root subnet s" using pool_take_cases(3) by blast
qed (simp_all add: pool_give_cases)

end
