(* ===== verification/Ipam_Pool.thy ===== *)
theory Ipam_Pool
  imports Ipam_Laws
begin

text \<open>
  The properties of the address manager as its callers see them: the usable range of a
  subnet, the pool of addresses, and which address is given.
\<close>

section \<open>The usable range\<close>

lemma and_high_mask: "c AND push_bit w (- 1) = push_bit w (drop_bit w c)" for c :: u32
  by (rule bit_word_eqI) (auto simp: bit_simps)

lemma unat_and_high_mask: "unat (c AND push_bit w (- 1)) = 2 ^ w * (unat c div 2 ^ w)" for c :: u32
proof -
  have lt: "unat c < 2 ^ 32" using unsigned_less [of c] by simp
  have "2 ^ w * (unat c div 2 ^ w) \<le> unat c" by simp
  also note lt
  finally have l: "2 ^ w * (unat c div 2 ^ w) < 2 ^ 32" .
  have "unat (push_bit w (drop_bit w c)) = take_bit 32 (push_bit w (drop_bit w (unat c)))"
    using take_bit_nat_eq_self [OF lt] by (simp add: unsigned_push_bit_eq unsigned_drop_bit_eq)
  then show ?thesis unfolding and_high_mask
    using l by (simp add: drop_bit_eq_div push_bit_eq_mult take_bit_eq_mod mult.commute)
qed

lemma div_interval:
  fixes x :: nat
  assumes "0 < b"
  shows "x div b = q \<longleftrightarrow> b * q \<le> x \<and> x \<le> b * q + b - 1"
proof
  assume "x div b = q"
  then have "x = b * q + x mod b" by (metis mult_div_mod_eq)
  moreover have "x mod b < b" using assms by simp
  ultimately show "b * q \<le> x \<and> x \<le> b * q + b - 1" by linarith
next
  assume "b * q \<le> x \<and> x \<le> b * q + b - 1"
  then obtain r where "x = b * q + r" "r < b" using assms by (metis add_le_cancel_left le_add_diff_inverse
        less_eq_Suc_le Suc_pred' less_Suc_eq_le Nat.add_diff_assoc Suc_leI One_nat_def)
  then show "x div b = q" using assms by simp
qed

lemma network_interval:
  fixes c n :: u32
  assumes "w \<le> 32"
  defines "m \<equiv> push_bit w (- 1 :: u32)"
  shows "c AND m = n AND m \<longleftrightarrow> n AND m \<le> c \<and> c \<le> n AND m OR NOT m"
    and "unat (n AND m OR NOT m) = unat (n AND m) + 2 ^ w - 1"
proof -
  let ?q = "unat n div 2 ^ w" and ?K = "2 ^ w :: nat"
  have nm: "NOT m = Bit_Operations.mask w" unfolding m_def by (rule bit_word_eqI) (auto simp: bit_simps)
  have "(n AND m) AND Bit_Operations.mask w = 0" unfolding m_def by (rule bit_word_eqI) (auto simp: bit_simps)
  then have or: "n AND m OR NOT m = (n AND m) + Bit_Operations.mask w" unfolding nm by (rule disjunctive_add_eq_or [symmetric])
  have mk: "unat (Bit_Operations.mask w :: u32) = 2 ^ w - 1" 
  proof -
    have "unat (of_nat (Bit_Operations.mask w) :: u32) = take_bit 32 (Bit_Operations.mask w)" by (simp add: unsigned_of_nat)
    also have "\<dots> = Bit_Operations.mask w" using assms(1) by (simp add: min_def)
    finally show ?thesis by (simp add: of_nat_mask_eq mask_eq_exp_minus_1)
  qed
  have b: "unat (n AND m) = ?K * ?q" unfolding m_def by (rule unat_and_high_mask)
  have "unat n < ?K * 2 ^ (32 - w)" using unsigned_less [of n] assms(1) by (simp flip: power_add)
  then have "Suc ?q \<le> 2 ^ (32 - w)" by (simp add: Suc_le_eq less_mult_imp_div_less mult.commute)
  then have "?K * Suc ?q \<le> ?K * 2 ^ (32 - w)" by (rule mult_le_mono2)
  then have lt: "?K * ?q + (?K - 1) < 2 ^ 32" using assms(1)
    by (simp flip: power_add)
  show u: "unat (n AND m OR NOT m) = unat (n AND m) + 2 ^ w - 1"
    using lt unfolding or by (simp add: unat_word_ariths b mk)
  have "c AND m = n AND m \<longleftrightarrow> unat c div ?K = ?q"
    unfolding word_unat_eq_iff m_def unat_and_high_mask by simp
  also have "\<dots> \<longleftrightarrow> ?K * ?q \<le> unat c \<and> unat c \<le> ?K * ?q + ?K - 1"
    by (rule div_interval) simp
  finally show "c AND m = n AND m \<longleftrightarrow> n AND m \<le> c \<and> c \<le> n AND m OR NOT m"
    by (simp add: word_le_nat_alt u b)
qed

text \<open>
  For the subnet alone, \<open>usable_range\<close> is exactly the host part of the subnet: for every subnet it accepts, the
  addresses from the first to the last are those of the network except the network address
  and the broadcast address, and there are at least two.
\<close>

theorem usable_range_exact:
  assumes "parse_cidr subnet = Ok (net, prefix)" and "usable_range subnet = Ok (lo, hi)"
  defines "m \<equiv> prefix_mask prefix"
  shows "(lo \<le> c \<and> c \<le> hi \<longleftrightarrow> c AND m = from_be_bytes net AND m
      \<and> c \<noteq> from_be_bytes net AND m \<and> c \<noteq> from_be_bytes net AND m OR NOT m) \<and> lo < hi"
proof -
  let ?w = "32 - unat prefix" and ?b = "from_be_bytes net AND m" let ?t = "?b OR NOT m"
  have p: "prefix \<le> 30" and r: "lo = ?b + 1" "hi = ?t - 1"
    using assms(1,2) by (auto simp: usable_range_def Let_def m_def split: if_splits)
  have w: "2 \<le> ?w" using p by (simp add: word_le_nat_alt)
  have m: "m = push_bit ?w (- 1)" 
  proof (cases "prefix = 0")
    case True
    then show ?thesis unfolding m_def by (intro bit_word_eqI) (auto simp: prefix_mask_def bit_simps)
  qed (simp add: m_def prefix_mask_def)
  have u: "unat ?t = unat ?b + 2 ^ ?w - 1" unfolding m by (rule network_interval(2)) simp
  have i: "c AND m = ?b \<longleftrightarrow> ?b \<le> c \<and> c \<le> ?t" unfolding m by (rule network_interval(1)) simp
  have "(2::nat) ^ 2 \<le> 2 ^ ?w" using w by (rule power_increasing) simp
  then have gap: "unat ?b + 3 \<le> unat ?t" using u by simp
  have "?b < ?t" using gap by (simp add: word_less_nat_alt)
  from step_up [OF this] have lo: "unat lo = Suc (unat ?b)" using r by simp
  have "?t \<noteq> 0" using gap by (auto simp: word_unat_eq_iff)
  then have hi: "unat hi = unat ?t - 1" using r by (simp add: unat_minus_one)
  show ?thesis unfolding i using lo hi gap
    by (auto simp: word_le_nat_alt word_less_nat_alt word_unat_eq_iff)
qed

theorem usable_range_exact_witness:
  "usable_range ''192.168.5.0/29'' = Ok (0xC0A80501, 0xC0A80506) \<and> (0xC0A80501 :: u32) < 0xC0A80506"
proof -
  have "parse_cidr ''192.168.5.0/29'' = Ok ((192, 168, 5, 0), 29)" by code_simp
  moreover have u: "usable_range ''192.168.5.0/29'' = Ok (0xC0A80501, 0xC0A80506)" by code_simp
  ultimately show ?thesis using usable_range_exact [of "''192.168.5.0/29''" "(192, 168, 5, 0)" 29 "0xC0A80501" "0xC0A80506"]
    by blast
qed

text \<open>
  C16: the lease file implements a pool of addresses: as long as no system call fails, after any
  sequence of allocations and releases on one subnet no two containers hold the same
  address, and a container that no operation mentions holds what it held before.
\<close>

theorem ipam_is_a_pool:
  fixes gateway :: ipv4
  assumes "utf8_valid subnet" and "ipam_inv root pid s" and "list_all (\<lambda>p. utf8_valid (pool_ids p)) ops"
  defines "t \<equiv> pool_run (pool_take root pid subnet gateway) (pool_give root pid) ops s"
  shows "(\<forall>i j a. pool_holds root subnet t i = Some a \<longrightarrow> pool_holds root subnet t j = Some a \<longrightarrow> i = j)
    \<and> (\<forall>i. list_all (\<lambda>p. pool_ids p \<noteq> i) ops \<longrightarrow> pool_holds root subnet t i = pool_holds root subnet s i)
    \<and> ipam_inv root pid t"
proof (intro conjI allI impI)
  have i: "utf8_valid subnet \<and> ipam_inv root pid s" using assms by simp
  have tc: "table_ok (current subnet (file_leases root s))"
    using assms by (simp add: ipam_inv_def table_ok_current)
  have "ipam.exclusive root subnet s"
    unfolding ipam.exclusive_def using table_ok_unique [OF tc] by (simp add: pool_holds_def)
  note x = ipam.run_exclusive [where gateway = gateway, OF i this assms(3), folded t_def]
  show "j = j'" if "pool_holds root subnet t j = Some a" "pool_holds root subnet t j' = Some a" for j j' a
    using ipam.exclusiveD [OF x that] .
  show "ipam_inv root pid t" using ipam.run_inv [where gateway = gateway, OF i assms(3), folded t_def] by simp
  show "pool_holds root subnet t j = pool_holds root subnet s j" if "list_all (\<lambda>p. pool_ids p \<noteq> j) ops" for j
    using ipam.run_keeps [where gateway = gateway, OF i, of j ops, folded t_def] that assms(3) by (auto simp: list_all_iff)
qed


lemma demo_ipam_inv: "ipam_inv ''/run/myrun'' 3 demo_fs"
proof -
  have "calm demo_fs" by (simp add: calm_def demo_fs_def)
  moreover have "ipam_ready ''/run/myrun'' 3 demo_fs" by code_simp
  moreover have "file_leases ''/run/myrun'' demo_fs = leases_default" by code_simp
  ultimately show ?thesis by (simp add: ipam_inv_def table_ok_default)
qed

theorem ipam_is_a_pool_witness:
  "let t = pool_run (pool_take ''/run/myrun'' 3 ''10.87.0.0/24'' (10, 87, 0, 1))
        (pool_give ''/run/myrun'' 3) [Take ''a'' None, Take ''b'' None, Give ''a''] demo_fs
   in ipam_inv ''/run/myrun'' 3 t \<and> pool_holds ''/run/myrun'' ''10.87.0.0/24'' t ''c'' = None"
proof -
  let ?ops = "[Take ''a'' None, Take ''b'' None, Give ''a'']"
  have "utf8_valid ''10.87.0.0/24''" "list_all (\<lambda>p. utf8_valid (pool_ids p)) ?ops" by code_simp+
  note t = ipam_is_a_pool [OF this(1) demo_ipam_inv this(2), of "(10, 87, 0, 1)"]
  have "list_all (\<lambda>p. pool_ids p \<noteq> ''c'') ?ops" "pool_holds ''/run/myrun'' ''10.87.0.0/24'' demo_fs ''c'' = None"
    by code_simp+
  then show ?thesis unfolding Let_def using t by metis
qed

section \<open>Which address is given\<close>

text \<open>An address a container may have: inside the subnet, neither its first nor its last one.\<close>

definition usable :: "string \<Rightarrow> ipv4 \<Rightarrow> bool" where
  "usable subnet a \<longleftrightarrow> (case usable_range subnet of
     Ok (lo, hi) \<Rightarrow> lo \<le> from_be_bytes a \<and> from_be_bytes a \<le> hi | Err _ \<Rightarrow> False)"

lemma lease_for_mem:
  assumes "table_ok l" "e \<in> set (ls_entries l)"
  shows "lease_for l (l_id e) = Some (l_ip e)"
proof -
  obtain x where x: "List.find (\<lambda>d. l_id d = l_id e) (ls_entries l) = Some x"
    using assms(2) by (cases "List.find (\<lambda>d. l_id d = l_id e) (ls_entries l)") (auto simp: find_None_iff)
  then have "x \<in> set (ls_entries l)" "l_id x = l_id e" by (auto simp: find_Some_iff)
  then have "x = e" using assms by (auto simp: table_ok_def distinct_map dest: inj_onD)
  then show ?thesis using x by (simp add: lease_for_def)
qed

lemma choose_lease_how:
  assumes "choose_lease subnet i requested gateway l = Ok (changed, ip)"
  shows "(lease_for (current subnet l) i = Some ip \<and> (requested = None \<or> requested = Some ip))
    \<or> (from_be_bytes ip \<noteq> from_be_bytes gateway \<and>
        (requested = Some ip \<or>
         (requested = None \<and> lease_for (current subnet l) i = None \<and>
          (\<exists>lo hi. usable_range subnet = Ok (lo, hi) \<and>
            first_free (from_be_bytes gateway) (map l_ip (ls_entries (current subnet l))) lo hi = Some ip))))"
proof -
  let ?c = "current subnet l"
  have c: "choose_lease subnet i requested gateway l = (case List.find (\<lambda>l. l_id l = i) (ls_entries ?c) of
           Some l \<Rightarrow>
             if requested = None \<or> requested = Some (l_ip l) then Ok (None, l_ip l)
             else new_lease subnet i requested gateway (?c\<lparr>ls_entries := filter (\<lambda>l. l_id l \<noteq> i) (ls_entries ?c)\<rparr>)
         | None \<Rightarrow> new_lease subnet i requested gateway ?c)"
    unfolding choose_lease_def current_def [symmetric] Let_def ..
  show ?thesis
  proof (cases "List.find (\<lambda>l. l_id l = i) (ls_entries ?c)")
    case None
    then have "new_lease subnet i requested gateway ?c = Ok (changed, ip)" using assms c by simp
    from new_lease_Ok [OF this] None show ?thesis by (cases "requested = None") (auto simp: lease_for_def)
  next
    case (Some e)
    show ?thesis
    proof (cases "requested = None \<or> requested = Some (l_ip e)")
      case True
      then show ?thesis using assms c Some by (auto simp: lease_for_def)
    next
      case False
      then have n: "new_lease subnet i requested gateway (?c\<lparr>ls_entries := filter (\<lambda>l. l_id l \<noteq> i) (ls_entries ?c)\<rparr>) = Ok (changed, ip)"
        using assms unfolding c Some option.case if_not_P [OF False] by blast
      have "requested \<noteq> None" using False by metis
      then show ?thesis using new_lease_Ok(3,4) [OF n] by blast
    qed
  qed
qed

text \<open>
  C17: The address \<open>allocate\<close> returns is the right one, as long as no system call fails and what is
  asked for is an address of the usable range (so neither the network nor the broadcast address)
  and the container does not already hold the gateway: it becomes the container's address and
  nobody else's lease changes; no other container of the subnet held it; it is not the gateway,
  and a new address is in the usable range; a requested address is honoured; a container that
  has an address and requests none keeps it; and otherwise it is the lowest address of the
  usable range that is neither the gateway nor leased.
\<close>

theorem allocate_gives_lowest_free:
  assumes "ipam_inv root pid s" and "utf8_valid subnet" and "utf8_valid i"
    and "ipam_allocate root pid subnet i requested gateway s = (Ok (ip, prefix), t)"
    and "\<forall>a. requested = Some a \<longrightarrow> usable subnet a" and "pool_holds root subnet s i \<noteq> Some gateway"
  defines "held \<equiv> pool_holds root subnet s"
  shows "pool_holds root subnet t = held(i \<mapsto> ip) \<and> (\<forall>j. j \<noteq> i \<longrightarrow> held j \<noteq> Some ip)
    \<and> ip \<noteq> gateway \<and> (held i = Some ip \<or> usable subnet ip)
    \<and> (requested = None \<or> requested = Some ip)
    \<and> (requested = None \<longrightarrow> held i \<noteq> None \<longrightarrow> held i = Some ip)
    \<and> (requested = None \<longrightarrow> held i = None \<longrightarrow>
        (\<exists>lo hi. usable_range subnet = Ok (lo, hi) \<and> lo \<le> from_be_bytes ip \<and> from_be_bytes ip \<le> hi
          \<and> (\<forall>c. lo \<le> c \<and> c < from_be_bytes ip \<longrightarrow> to_be_bytes c = gateway \<or> (\<exists>j. held j = Some (to_be_bytes c)))))"
proof -
  let ?c = "current subnet (file_leases root s)"
  have tk: "pool_take root pid subnet gateway i requested s = (Some ip, t)"
    using assms(4) by (simp add: pool_take_def)
  have inv: "pool_inv root pid subnet s" using assms(1,2) by simp
  have h: "held = lease_for ?c" by (simp add: held_def pool_holds_def)
  have tc: "table_ok ?c" using assms(1,2) by (simp add: ipam_inv_def table_ok_current)
  obtain changed where ch: "choose_lease subnet i requested gateway (file_leases root s) = Ok (changed, ip)"
    using ipam_allocate_calm(2) [OF assms(1-4), symmetric] by (auto split: prod.splits)
  have gw: "to_be_bytes x = gateway" if "x = from_be_bytes gateway" for x using that by simp
  have mem: "\<exists>j. held j = Some a" if "a \<in> set (map l_ip (ls_entries ?c))" for a
    using that lease_for_mem [OF tc] unfolding h by (metis (no_types, lifting) image_iff list.set_map)
  have low: "\<exists>lo hi. usable_range subnet = Ok (lo, hi) \<and> lo \<le> from_be_bytes ip \<and> from_be_bytes ip \<le> hi
          \<and> (\<forall>c. lo \<le> c \<and> c < from_be_bytes ip \<longrightarrow> to_be_bytes c = gateway \<or> (\<exists>j. held j = Some (to_be_bytes c)))"
    if u: "usable_range subnet = Ok (lo, hi)" and f: "first_free (from_be_bytes gateway) (map l_ip (ls_entries ?c)) lo hi = Some ip" for lo hi
    using first_free_Some [OF f] u mem gw by (metis from_to_be_bytes)
  have "usable subnet ip" if n: "held i \<noteq> Some ip"
  proof (cases "requested = None")
    case True
    then obtain lo hi where "usable_range subnet = Ok (lo, hi)" "lo \<le> from_be_bytes ip" "from_be_bytes ip \<le> hi"
      using n choose_lease_how [OF ch] low unfolding h [symmetric] by blast
    then show ?thesis by (simp add: usable_def)
  next
    case False
    then show ?thesis using n choose_lease_how [OF ch] assms(5) unfolding h [symmetric] by blast
  qed
  moreover have "ip \<noteq> gateway"
    using assms(6) choose_lease_how [OF ch] unfolding held_def [symmetric] h [symmetric] by auto
  ultimately show ?thesis
    using pool_take_cases(2) [OF inv assms(3) tk, of ip] choose_lease_how [OF ch] low
    unfolding held_def [symmetric] h [symmetric] by fastforce
qed

theorem allocate_gives_lowest_free_witness:
  "\<exists>t. ipam_allocate ''/run/myrun'' 3 ''10.87.0.0/24'' ''web'' None (10, 87, 0, 1) demo_fs = (Ok ((10, 87, 0, 2), 24), t)
     \<and> pool_holds ''/run/myrun'' ''10.87.0.0/24'' t ''web'' = Some (10, 87, 0, 2)"
proof -
  have u: "utf8_valid ''10.87.0.0/24''" "utf8_valid ''web''" by code_simp+
  let ?r = "ipam_allocate ''/run/myrun'' 3 ''10.87.0.0/24'' ''web'' None (10, 87, 0, 1) demo_fs"
  obtain r t where t: "?r = (r, t)" by (cases ?r)
  have "file_leases ''/run/myrun'' demo_fs = leases_default" by code_simp
  moreover have "r_bind (parse_cidr ''10.87.0.0/24'') (\<lambda>(_, prefix). r_bind (choose_lease ''10.87.0.0/24'' ''web'' None (10, 87, 0, 1) leases_default)
        (\<lambda>(_, ip). Ok (ip, prefix))) = Ok ((10, 87, 0, 2), 24)" by code_simp
  ultimately have r: "r = Ok ((10, 87, 0, 2), 24)"
    using ipam_allocate_calm(2) [OF demo_ipam_inv u t] by simp
  have "pool_holds ''/run/myrun'' ''10.87.0.0/24'' demo_fs ''web'' \<noteq> Some (10, 87, 0, 1)" by code_simp
  from allocate_gives_lowest_free [OF demo_ipam_inv u t [unfolded r] _ this] show ?thesis using t r by auto
qed

end
