(* ===== verification/Toml.thy ===== *)
theory Toml
  imports Json
begin

text \<open>
  \<open>src/util/toml.rs\<close>: the parser of configuration files in a subset of TOML, which lowers a
  document to the JSON value tree.  A result is \<open>None\<close> where the code panics, which only
  slicing inside a character can cause.  Mutable tables are functional updates along a path.
\<close>

section \<open>Scanning\<close>

text \<open>
  The three scanning loops keep track of basic (\<open>b\<close>) and literal (\<open>l\<close>) strings; a backslash in
  a basic string skips the next byte.
\<close>

abbreviation quote :: char where "quote \<equiv> CHR 0x22"
abbreviation apostrophe :: char where "apostrophe \<equiv> CHR 0x27"
abbreviation backslash :: char where "backslash \<equiv> CHR 0x5C"

fun bracket_depth_aux :: "bool \<Rightarrow> bool \<Rightarrow> int \<Rightarrow> string \<Rightarrow> int" where
  "bracket_depth_aux b l d [] = d"
| "bracket_depth_aux b l d (c # s) =
     (if c = backslash \<and> b then bracket_depth_aux b l d (drop 1 s)
      else if c = quote \<and> \<not> l then bracket_depth_aux (\<not> b) l d s
      else if c = apostrophe \<and> \<not> b then bracket_depth_aux b (\<not> l) d s
      else if c = CHR ''['' \<and> \<not> b \<and> \<not> l then bracket_depth_aux b l (d + 1) s
      else if c = CHR '']'' \<and> \<not> b \<and> \<not> l then bracket_depth_aux b l (d - 1) s
      else bracket_depth_aux b l d s)"

definition bracket_depth :: "string \<Rightarrow> int" where
  "bracket_depth s = bracket_depth_aux False False 0 s"

fun strip_comment_aux :: "bool \<Rightarrow> bool \<Rightarrow> string \<Rightarrow> string" where
  "strip_comment_aux b l [] = []"
| "strip_comment_aux b l (c # s) =
     (if c = backslash \<and> b then c # take 1 s @ strip_comment_aux b l (drop 1 s)
      else if c = quote \<and> \<not> l then c # strip_comment_aux (\<not> b) l s
      else if c = apostrophe \<and> \<not> b then c # strip_comment_aux b (\<not> l) s
      else if c = CHR ''#'' \<and> \<not> b \<and> \<not> l then []
      else c # strip_comment_aux b l s)"

definition strip_comment :: "string \<Rightarrow> string" where
  "strip_comment line = strip_comment_aux False False line"

fun split_top_aux :: "bool \<Rightarrow> bool \<Rightarrow> int \<Rightarrow> string \<Rightarrow> string \<Rightarrow> string list" where
  "split_top_aux b l d cur [] = [cur]"
| "split_top_aux b l d cur (c # s) =
     (if c = backslash \<and> b then split_top_aux b l d (cur @ c # take 1 s) (drop 1 s)
      else if c = quote \<and> \<not> l then split_top_aux (\<not> b) l d (cur @ [c]) s
      else if c = apostrophe \<and> \<not> b then split_top_aux b (\<not> l) d (cur @ [c]) s
      else if c = CHR ''['' \<and> \<not> b \<and> \<not> l then split_top_aux b l (d + 1) (cur @ [c]) s
      else if c = CHR '']'' \<and> \<not> b \<and> \<not> l then split_top_aux b l (d - 1) (cur @ [c]) s
      else if c = CHR '','' \<and> d = 0 \<and> \<not> b \<and> \<not> l then cur # split_top_aux b l d [] s
      else split_top_aux b l d (cur @ [c]) s)"

definition split_top_level :: "string \<Rightarrow> string list" where
  "split_top_level s = split_top_aux False False 0 [] s"

section \<open>Lines\<close>

text \<open>The inner loop of \<open>logical_lines\<close>: join lines until the brackets balance.\<close>

fun join_lines :: "string \<Rightarrow> nat \<Rightarrow> string list \<Rightarrow> (string \<times> nat \<times> string list) option" where
  "join_lines joined i [] = (if bracket_depth joined > 0 then None else Some (joined, i, []))"
| "join_lines joined i (p # ps) =
     (if bracket_depth joined > 0 then
        (let nxt = str_trim (strip_comment p)
         in join_lines (if nxt = [] then joined else joined @ '' '' @ nxt) (i + 1) ps)
      else Some (joined, i, p # ps))"

lemma join_lines_length: "join_lines joined i ps = Some (j, i', rest) \<Longrightarrow> length rest \<le> length ps"
  by (induction joined i ps rule: join_lines.induct) (auto simp: Let_def split: if_splits)

function logical_lines_from :: "nat \<Rightarrow> string list \<Rightarrow> (nat \<times> string) list res" where
  "logical_lines_from i [] = Ok []"
| "logical_lines_from i (p # ps) =
     (let first = str_trim (strip_comment p)
      in if first = [] then logical_lines_from (i + 1) ps
         else if starts_with first ''['' \<and> \<not> str_contains first ''=''
         then r_map (\<lambda>out. (i, first) # out) (logical_lines_from (i + 1) ps)
         else (case join_lines first (i + 1) ps of
             None \<Rightarrow> Err (Parse (''unterminated array starting on line '' @ show_nat (i + 1)))
           | Some (joined, i', rest) \<Rightarrow>
               r_map (\<lambda>out. (i, joined) # out) (logical_lines_from i' rest)))"
  by pat_completeness auto
termination
  by (relation "measure (\<lambda>(i, ps). length ps)") (auto dest: join_lines_length)

definition logical_lines :: "string \<Rightarrow> (nat \<times> string) list res" where
  "logical_lines input = logical_lines_from 0 (str_lines input)"

section \<open>Keys\<close>

definition unquote_key :: "string \<Rightarrow> string res" where
  "unquote_key key =
     (if length key \<ge> 2 \<and> starts_with key [quote] \<and> ends_with key [quote]
      then Ok (take (length key - 2) (drop 1 key))
      else if length key \<ge> 2 \<and> starts_with key [apostrophe] \<and> ends_with key [apostrophe]
      then Ok (take (length key - 2) (drop 1 key))
      else if key = [] then Err (Parse ''empty key'')
      else Ok key)"

definition split_key_path :: "string \<Rightarrow> string list res" where
  "split_key_path s = r_mapM (\<lambda>part.
     let p = str_trim part
     in if p = [] then Err (Parse ''empty key segment in table header'') else unquote_key p)
     (str_split s (CHR ''.''))"

section \<open>Tables\<close>

fun is_table :: "json \<Rightarrow> bool" where
  "is_table (Obj _) = True"
| "is_table _ = False"

definition not_a_table :: "string \<Rightarrow> string" where
  "not_a_table seg = ''`'' @ seg @ ''` is not a table''"

text \<open>
  \<open>table_at\<close> gives a mutable reference to a table, created as needed; \<open>at_table path f\<close> is the
  tree with \<open>f\<close> applied there.
\<close>

fun at_table :: "string list \<Rightarrow> (json \<Rightarrow> (json, string) result) \<Rightarrow> json \<Rightarrow> (json, string) result" where
  "at_table [] f node = f node"
| "at_table (seg # path) f node =
     (let node1 = (if json_get node seg = None then json_set seg json_obj node else node)
      in case json_get node1 seg of
           None \<Rightarrow> Err (not_a_table seg)
         | Some (Arr a) \<Rightarrow>
             if a = [] then Err (''array of tables `'' @ seg @ ''` is empty'')
             else if \<not> is_table (last a) then Err (not_a_table seg)
             else r_map (\<lambda>t. json_set seg (Arr (butlast a @ [t])) node1) (at_table path f (last a))
         | Some child \<Rightarrow>
             if \<not> is_table child then Err (not_a_table seg)
             else r_map (\<lambda>t. json_set seg t node1) (at_table path f child))"

definition ensure_table :: "json \<Rightarrow> string list \<Rightarrow> (json, string) result" where
  "ensure_table root path = at_table path Ok root"

definition push_array_table :: "json \<Rightarrow> string list \<Rightarrow> (json, string) result" where
  "push_array_table root path =
     (if path = [] then Err ''empty table path''
      else at_table (butlast path) (\<lambda>parent.
        let seg = last path;
            p1 = (if json_get parent seg = None then json_set seg (Arr []) parent else parent)
        in case json_get p1 seg of
             Some (Arr a) \<Rightarrow> Ok (json_set seg (Arr (a @ [json_obj])) p1)
           | _ \<Rightarrow> Err (''`'' @ seg @ ''` is not an array of tables'')) root)"

section \<open>Values\<close>

text \<open>The text of a failed \<open>from_str_radix\<close>: digits are read one by one.\<close>

fun radix_error :: "nat \<Rightarrow> bool \<Rightarrow> int \<Rightarrow> string \<Rightarrow> string" where
  "radix_error r neg acc [] = ''invalid digit found in string''"
| "radix_error r neg acc (c # s) =
     (case to_digit r c of
        None \<Rightarrow> ''invalid digit found in string''
      | Some d \<Rightarrow>
          (let v = (if neg then acc * int r - int d else acc * int r + int d)
           in if v \<ge> 2 ^ 63 then ''number too large to fit in target type''
              else if v < - (2 ^ 63) then ''number too small to fit in target type''
              else radix_error r neg v s))"

definition parse_int_error :: "nat \<Rightarrow> string \<Rightarrow> string" where
  "parse_int_error r s =
     (case s of
        [] \<Rightarrow> ''cannot parse integer from empty string''
      | c # t \<Rightarrow>
          if t = [] \<and> (c = CHR ''+'' \<or> c = CHR ''-'') then ''invalid digit found in string''
          else if c = CHR ''+'' then radix_error r False 0 t
          else if c = CHR ''-'' then radix_error r True 0 t
          else radix_error r False 0 s)"

definition radix_body :: "string \<Rightarrow> (nat \<times> string) option" where
  "radix_body body =
     (case strip_prefix body ''0x'' of Some h \<Rightarrow> Some (16, h)
      | None \<Rightarrow> (case strip_prefix body ''0o'' of Some h \<Rightarrow> Some (8, h)
      | None \<Rightarrow> (case strip_prefix body ''0b'' of Some h \<Rightarrow> Some (2, h) | None \<Rightarrow> None)))"

definition toml_number :: "string \<Rightarrow> json res" where
  "toml_number s =
     (let cleaned = filter (\<lambda>c. c \<noteq> CHR ''_'') s;
          (sign, body) = (case strip_prefix cleaned ''-'' of
              Some r \<Rightarrow> (- 1, r)
            | None \<Rightarrow> (case strip_prefix cleaned ''+'' of Some r \<Rightarrow> (1 :: int, r) | None \<Rightarrow> (1, cleaned)))
      in case radix_body body of
           Some (r, digits) \<Rightarrow>
             (case parse_signed 64 r digits of
                Some v \<Rightarrow> Ok (JInt (word_of_int (sign * v)))
              | None \<Rightarrow> Err (Parse (''bad integer '' @ debug_str s @ '': '' @ parse_int_error r digits)))
         | None \<Rightarrow>
             (case parse_i64 cleaned of
                Some i \<Rightarrow> Ok (JInt i)
              | None \<Rightarrow> (case parse_f64 cleaned of
                  Some f \<Rightarrow> Ok (Float f)
                | None \<Rightarrow> Err (Parse (''unrecognised value '' @ debug_str s @ '' (strings must be quoted)'')))))"

definition toml_escapes :: "(char \<times> char) list" where
  "toml_escapes = [(CHR ''n'', CHR 0x0A), (CHR ''t'', CHR 0x09), (CHR ''r'', CHR 0x0D), (quote, quote),
     (backslash, backslash), (CHR ''0'', CHR 0x00)]"

text \<open>The loop of \<open>parse_basic_string\<close>: the slice of a \<open>\u\<close> escape panics inside a character.\<close>

function basic_loop :: "string \<Rightarrow> string \<Rightarrow> string res option" where
  "basic_loop [] out = Some (Err (Parse ''unterminated string''))"
| "basic_loop (c # r) out =
     (if c = quote then Some (if r \<noteq> [] then Err (Parse ''trailing data after string value'') else Ok out)
      else if c = backslash then
        (case r of
           [] \<Rightarrow> Some (Err (Parse ''unterminated escape''))
         | e # t \<Rightarrow>
             (case map_of toml_escapes e of
                Some x \<Rightarrow> basic_loop t (out @ [x])
              | None \<Rightarrow>
                  if e = CHR ''u'' then
                    (if length t < 4 then Some (Err (Parse (''truncated '' @ [backslash] @ ''u escape'')))
                     else if 4 < length t \<and> utf8_cont (byte (t ! 4)) then None
                     else (case parse_unsigned 32 16 (take 4 t) of
                         None \<Rightarrow> Some (Err (Parse (''bad '' @ [backslash] @ ''u escape'')))
                       | Some cp \<Rightarrow> basic_loop (drop 4 t)
                           (out @ utf8_encode (if is_scalar cp then cp else 0xFFFD))))
                  else Some (Err (Parse (''unknown escape '' @ [backslash] @ utf8_encode (byte e))))))
      else if utf8_len (c # r) = 0 then basic_loop r out
      else basic_loop (drop (utf8_len (c # r)) (c # r)) (out @ take (utf8_len (c # r)) (c # r)))"
  by pat_completeness auto
termination by (relation "measure (\<lambda>(s, _). length s)") auto

definition parse_basic_string :: "string \<Rightarrow> string res option" where
  "parse_basic_string s =
     (if length s < 2 \<or> \<not> starts_with s [quote] then Some (Err (Parse ''unterminated string''))
      else basic_loop (drop 1 s) [])"

text \<open>\<open>?\<close> and the array loop for results that may panic.\<close>

definition pr_bind :: "'a res option \<Rightarrow> ('a \<Rightarrow> 'b res option) \<Rightarrow> 'b res option" where
  "pr_bind m f = (case m of None \<Rightarrow> None | Some (Err e) \<Rightarrow> Some (Err e) | Some (Ok x) \<Rightarrow> f x)"

fun pr_mapM :: "('a \<Rightarrow> 'b res option) \<Rightarrow> 'a list \<Rightarrow> 'b list res option" where
  "pr_mapM f [] = Some (Ok [])"
| "pr_mapM f (x # xs) = pr_bind (f x) (\<lambda>y. pr_bind (pr_mapM f xs) (\<lambda>ys. Some (Ok (y # ys))))"

lemma pr_mapM_cong [fundef_cong]: "xs = ys \<Longrightarrow> (\<And>x. x \<in> set ys \<Longrightarrow> f x = g x) \<Longrightarrow> pr_mapM f xs = pr_mapM g ys"
  by (induction ys arbitrary: xs) auto

lemma trim_start_fuel_length: "length (trim_start_fuel n s) \<le> length s"
proof (induction n arbitrary: s)
  case (Suc n)
  have "length (trim_start_fuel n (drop (ws_len s) s)) \<le> length (drop (ws_len s) s)" by (rule Suc)
  then show ?case by (simp, linarith)
qed simp

lemma trim_end_fuel_length: "length (trim_end_fuel n s) \<le> length s"
proof (induction n arbitrary: s)
  case (Suc n)
  have "length (trim_end_fuel n (take (length s - ws_end_len s) s)) \<le> length (take (length s - ws_end_len s) s)" by (rule Suc)
  then show ?case by (simp, linarith)
qed simp

lemma str_trim_length: "length (str_trim s) \<le> length s"
  unfolding str_trim_def trim_end_def trim_start_def
  using trim_end_fuel_length trim_start_fuel_length order_trans by blast

lemma split_top_nonempty: "split_top_aux b l d cur s \<noteq> []"
  by (induction b l d cur s rule: split_top_aux.induct) auto

lemma join_Cons: "ps \<noteq> [] \<Longrightarrow> str_join sep (p # ps) = p @ sep @ str_join sep ps"
  by (cases ps) auto

lemma join_part: "p \<in> set ps \<Longrightarrow> length p \<le> length (str_join sep ps) \<and> set p \<subseteq> set (str_join sep ps)"
  by (induction sep ps rule: str_join.induct) auto

lemma split_top_join: "str_join '','' (split_top_aux b l d cur s) = cur @ s"
  by (induction b l d cur s rule: split_top_aux.induct) (auto simp: join_Cons split_top_nonempty)

lemma split_top_part: "p \<in> set (split_top_level s) \<Longrightarrow> length p \<le> length s \<and> set p \<subseteq> set s"
  using join_part [of p "split_top_level s" "'',''"] by (simp add: split_top_level_def split_top_join)

definition array_items :: "string \<Rightarrow> string list" where
  "array_items s = filter (\<lambda>t. t \<noteq> []) (map str_trim (split_top_level (take (length s - 2) (drop 1 s))))"

lemma array_items_length: "t \<in> set (array_items s) \<Longrightarrow> s \<noteq> [] \<Longrightarrow> length t < length s"
proof -
  assume t: "t \<in> set (array_items s)" "s \<noteq> []"
  then obtain p where p: "p \<in> set (split_top_level (take (length s - 2) (drop 1 s)))" "t = str_trim p"
    by (auto simp: array_items_def)
  have "length p \<le> length (take (length s - 2) (drop 1 s))"
    using split_top_part [OF p(1)] by simp
  then show ?thesis using str_trim_length [of p] p(2) t(2) by (cases s) auto
qed

function toml_value :: "string \<Rightarrow> json res option" where
  "toml_value s =
     (if s = [] then Some (Err (Parse ''missing value''))
      else if starts_with s [quote, quote, quote] \<or> starts_with s [apostrophe, apostrophe, apostrophe]
      then Some (Err (Parse ''multi-line strings are not supported''))
      else if starts_with s ''{'' then Some (Err (Parse ''inline tables are not supported''))
      else if starts_with s [quote] then pr_bind (parse_basic_string s) (\<lambda>t. Some (Ok (Str t)))
      else if starts_with s [apostrophe] then
        (if \<not> ends_with s [apostrophe] \<or> length s < 2 then Some (Err (Parse ''unterminated literal string''))
         else Some (Ok (Str (take (length s - 2) (drop 1 s)))))
      else if starts_with s ''['' then
        (if \<not> ends_with s '']'' then Some (Err (Parse ''unterminated array: the brackets do not balance''))
         else pr_bind (pr_mapM toml_value (array_items s)) (\<lambda>out. Some (Ok (Arr out))))
      else if s = ''true'' then Some (Ok (Bool True))
      else if s = ''false'' then Some (Ok (Bool False))
      else Some (toml_number s))"
  by pat_completeness auto
termination by (relation "measure length") (auto dest: array_items_length)

declare toml_value.simps [simp del]

section \<open>Documents\<close>

definition at_line :: "nat \<Rightarrow> string \<Rightarrow> error" where
  "at_line n m = Parse (m @ '' (line '' @ show_nat (n + 1) @ '')'')"

text \<open>One logical line: the tree and the table that bare keys go to.\<close>

definition toml_step :: "nat \<times> string \<Rightarrow> json \<times> string list \<Rightarrow> (json \<times> string list) res option" where
  "toml_step nl st = (case (nl, st) of ((n, line), (root, cur)) \<Rightarrow>
     if starts_with line ''[['' then
       (if \<not> ends_with line '']]'' then Some (Err (at_line n ''unterminated [[array of tables]] header''))
        else Some (r_bind (split_key_path (take (length line - 4) (drop 2 line))) (\<lambda>path.
          r_bind (r_map_err (at_line n) (push_array_table root path)) (\<lambda>root'. Ok (root', path)))))
     else if starts_with line ''['' then
       (if \<not> ends_with line '']'' then Some (Err (at_line n ''unterminated [table] header''))
        else Some (r_bind (split_key_path (take (length line - 2) (drop 1 line))) (\<lambda>path.
          r_bind (r_map_err (at_line n) (ensure_table root path)) (\<lambda>root'. Ok (root', path)))))
     else (case split_once line (CHR ''='') of
         None \<Rightarrow> Some (Err (at_line n (''expected `key = value`, got '' @ debug_str line)))
       | Some (k0, v0) \<Rightarrow>
           pr_bind (Some (unquote_key (str_trim k0))) (\<lambda>key.
           pr_bind (map_option (r_map_err (\<lambda>e. at_line n (display_error e))) (toml_value (str_trim v0))) (\<lambda>value.
             Some (r_bind (r_map_err (at_line n) (at_table cur (\<lambda>t. Ok (json_set key value t)) root)) (\<lambda>root'.
               Ok (root', cur)))))))"

fun toml_loop :: "(nat \<times> string) list \<Rightarrow> json \<times> string list \<Rightarrow> (json \<times> string list) res option" where
  "toml_loop [] st = Some (Ok st)"
| "toml_loop (l # ls) st = pr_bind (toml_step l st) (toml_loop ls)"

definition toml_parse :: "string \<Rightarrow> json res option" where
  "toml_parse input =
     pr_bind (Some (logical_lines input)) (\<lambda>ls.
       pr_bind (toml_loop ls (json_obj, [])) (\<lambda>(root, _). Some (Ok root)))"

end
