(* ===== verification/Toml_Laws.thy ===== *)
theory Toml_Laws
  imports Toml Json_Laws Util
begin

text \<open>
  What the TOML parser promises: a document of settings, grouped in tables, is read as the
  tree it describes, and no text that consists of ASCII characters makes it panic.
\<close>

section \<open>Strings\<close>

definition toml_esc :: "char \<Rightarrow> string" where
  "toml_esc c = (if c = quote then [backslash, quote] else if c = backslash then [backslash, backslash]
     else if c = CHR 0x0A then [backslash, CHR ''n''] else if c = CHR 0x0D then [backslash, CHR ''r'']
     else [c])"

definition toml_string :: "string \<Rightarrow> string" where
  "toml_string s = [quote] @ concat (map toml_esc s) @ [quote]"

lemma basic_loop_esc:
  "byte c < 0x80 \<Longrightarrow> basic_loop (toml_esc c @ t) out = basic_loop t (out @ [c])"
  by (auto simp: toml_esc_def toml_escapes_def utf8_len_ascii)

lemma toml_esc_multi: "\<forall>x \<in> set s. 0x80 \<le> byte x \<Longrightarrow> concat (map toml_esc s) = s"
  by (induction s) (auto simp: toml_esc_def byte_def)

lemma basic_loop_string:
  "utf8_valid s \<Longrightarrow> basic_loop (concat (map toml_esc s) @ [quote]) out = Some (Ok (out @ s))"
proof (induction "length s" arbitrary: s out rule: less_induct)
  case less
  show ?case
  proof (cases s)
    case Nil
    then show ?thesis by simp
  next
    case (Cons c r)
    show ?thesis
    proof (cases "byte c < 0x80")
      case True
      have "utf8_valid r" using less(2) by (simp add: Cons utf8_valid_Cons utf8_len_ascii True)
      then show ?thesis using less(1) [of r "out @ [c]"] basic_loop_esc [OF True] by (simp add: Cons del: basic_loop.simps)
    next
      case False
      define n where "n = utf8_len (c # r)"
      have u: "n \<noteq> 0" "utf8_valid (drop n (c # r))"
        using less(2) by (simp_all add: Cons utf8_valid_Cons n_def)
      note m = utf8_len_multi [OF False u(1) [unfolded n_def], folded n_def]
      define a where "a = take n (c # r)"
      define d where "d = drop n (c # r)"
      have s: "s = a @ d" by (simp add: Cons a_def d_def)
      have ul: "utf8_len a = n" using m(1,3) by (simp add: a_def n_def)
      have al: "length a = n" using utf8_len_le [of "c # r"] by (simp add: a_def n_def)
      have e: "concat (map toml_esc a) = a" using m(1,2) by (intro toml_esc_multi) (simp add: a_def n_def)
      obtain a' where a': "a = c # a'" using u(1) by (cases n) (auto simp: a_def)
      have "c \<noteq> quote" "c \<noteq> backslash" using False by (auto simp: byte_def)
      moreover have "utf8_len (a @ x) = n" for x using utf8_len_append [of a x] ul u(1) by simp
      ultimately have "basic_loop (a @ x) out = basic_loop x (out @ a)" for x
        using u(1) unfolding al [symmetric] a' by simp
      moreover have "length d < length s" using s al u(1) by simp
      ultimately show ?thesis using less(1) [of d "out @ a"] u(2) by (simp add: s e d_def del: basic_loop.simps)
    qed
  qed
qed

lemma toml_string_value:
  assumes "utf8_valid s"
  shows "toml_value (toml_string s) = Some (Ok (Str s))"
proof -
  have b: "parse_basic_string (toml_string s) = Some (Ok s)"
    using basic_loop_string [OF assms, of "[]"] by (simp add: parse_basic_string_def toml_string_def)
  have "\<not> starts_with (toml_string s) [quote, quote, quote]"
    by (cases s) (auto simp: toml_string_def toml_esc_def)
  then show ?thesis using b by (subst toml_value.simps) (simp add: toml_string_def pr_bind_def)
qed

section \<open>Text that leaves the scanners where they were\<close>

definition neutral :: "string \<Rightarrow> bool" where
  "neutral t \<longleftrightarrow> (\<forall>d rest. bracket_depth_aux False False d (t @ rest) = bracket_depth_aux False False d rest)
     \<and> (\<forall>rest. strip_comment_aux False False (t @ rest) = t @ strip_comment_aux False False rest)
     \<and> (\<forall>cur rest. split_top_aux False False 0 cur (t @ rest) = split_top_aux False False 0 (cur @ t) rest)"

definition inert :: "char \<Rightarrow> bool" where
  "inert c \<longleftrightarrow> c \<notin> {quote, apostrophe, CHR ''['', CHR '']'', CHR ''#'', CHR '',''}"

lemma neutral_Nil: "neutral []"
  by (simp add: neutral_def)

lemma neutral_append: "neutral a \<Longrightarrow> neutral b \<Longrightarrow> neutral (a @ b)"
  by (simp add: neutral_def)

lemma neutral_inert: "list_all inert t \<Longrightarrow> neutral t"
proof (induction t)
  case (Cons c t)
  have "neutral [c]" using Cons.prems by (simp add: neutral_def inert_def)
  then show ?case using Cons neutral_append [of "[c]" t] by simp
qed (simp add: neutral_Nil)

lemma esc_scan:
  "bracket_depth_aux True False d (toml_esc c @ rest) = bracket_depth_aux True False d rest"
  "strip_comment_aux True False (toml_esc c @ rest) = toml_esc c @ strip_comment_aux True False rest"
  "split_top_aux True False 0 cur (toml_esc c @ rest) = split_top_aux True False 0 (cur @ toml_esc c) rest"
  by (auto simp: toml_esc_def)

lemma neutral_string: "neutral (toml_string s)"
proof -
  have "bracket_depth_aux True False d (concat (map toml_esc s) @ rest) = bracket_depth_aux True False d rest"
    "strip_comment_aux True False (concat (map toml_esc s) @ rest) = concat (map toml_esc s) @ strip_comment_aux True False rest"
    "split_top_aux True False 0 cur (concat (map toml_esc s) @ rest) = split_top_aux True False 0 (cur @ concat (map toml_esc s)) rest"
    for d rest cur
    by (induction s arbitrary: d cur) (simp_all add: esc_scan)
  then show ?thesis by (simp add: neutral_def toml_string_def)
qed

section \<open>Values\<close>

fun toml_scalar :: "json \<Rightarrow> bool" where
  "toml_scalar (Str s) = utf8_valid s"
| "toml_scalar (JInt i) = True"
| "toml_scalar (Bool b) = True"
| "toml_scalar _ = False"

fun toml_setting :: "json \<Rightarrow> bool" where
  "toml_setting (Arr a) = list_all toml_scalar a"
| "toml_setting v = toml_scalar v"

fun scalar_text :: "json \<Rightarrow> string" where
  "scalar_text (Str s) = toml_string s"
| "scalar_text (JInt i) = show_int (sint i)"
| "scalar_text (Bool b) = (if b then ''true'' else ''false'')"
| "scalar_text _ = []"

fun toml_text :: "json \<Rightarrow> string" where
  "toml_text (Arr a) = ''['' @ str_join '', '' (map scalar_text a) @ '']''"
| "toml_text v = scalar_text v"

lemma show_int_chars: "c \<in> set (show_int i) \<Longrightarrow> is_ascii_digit c \<or> c = CHR ''-''"
  using show_nat_digits by (auto simp: show_int_def split: if_splits)

lemma number_char: "is_ascii_digit c \<or> c = CHR ''-'' \<Longrightarrow> graphic c \<and> inert c"
  by (auto simp: graphic_def inert_def is_ascii_digit_def byte_def)

lemma show_int_graphic: "\<forall>c \<in> set (show_int i). graphic c"
  using show_int_chars number_char by blast

lemma show_int_inert: "list_all inert (show_int i)"
  using show_int_chars number_char by (blast intro: list_all_iff [THEN iffD2])

lemma show_int_nonempty: "show_int i \<noteq> []"
  by (simp add: show_int_def)

text \<open>Text that starts and ends with a visible character is not changed by trimming.\<close>

definition tight :: "string \<Rightarrow> bool" where
  "tight t \<longleftrightarrow> t \<noteq> [] \<and> graphic (hd t) \<and> graphic (last t)"

lemma tight_trim: "tight t \<Longrightarrow> str_trim t = t"
proof -
  assume t: "tight t"
  then obtain c r where c: "t = c # r" by (cases t) (auto simp: tight_def)
  show ?thesis
  proof (cases r rule: rev_cases)
    case Nil
    then show ?thesis using t by (simp add: c tight_def)
  next
    case (snoc m d)
    then show ?thesis using t str_trim_ends [of c d m] by (simp add: c tight_def)
  qed
qed

lemma tight_graphic: "t \<noteq> [] \<Longrightarrow> \<forall>c \<in> set t. graphic c \<Longrightarrow> tight t"
  by (simp add: tight_def)

lemma quote_graphic: "graphic quote"
  by (simp add: graphic_def byte_def)

lemma scalar_tight: "toml_scalar v \<Longrightarrow> tight (scalar_text v)"
proof (cases v rule: scalar_text.cases)
  case (1 s)
  then show ?thesis by (simp add: tight_def toml_string_def quote_graphic)
next
  case (2 i)
  have "show_int (sint i) \<noteq> []" by (simp add: show_int_def)
  then show ?thesis using 2 show_int_graphic by (simp add: tight_graphic)
next
  case (3 b)
  then show ?thesis by (simp add: tight_def graphic_def byte_def)
qed auto

lemma scalar_neutral: "toml_scalar v \<Longrightarrow> neutral (scalar_text v)"
proof (cases v rule: scalar_text.cases)
  case (1 s)
  then show ?thesis by (simp add: neutral_string)
next
  case (2 i)
  then show ?thesis by (simp add: neutral_inert show_int_inert)
next
  case (3 b)
  have "list_all inert ''true''" "list_all inert ''false''" by (simp_all add: inert_def)
  then show ?thesis using 3 by (simp add: neutral_inert)
qed auto

lemma number_value: "toml_value (show_int (sint i)) = Some (Ok (JInt i))"
proof -
  let ?t = "show_int (sint i)"
  obtain c r where t: "?t = c # r" using show_int_nonempty [of "sint i"] by (auto simp: neq_Nil_conv)
  have c: "is_ascii_digit x \<or> x = CHR ''-''" if "x \<in> set ?t" for x using show_int_chars that by blast
  have ne: "x \<notin> {quote, apostrophe, CHR ''{'', CHR ''['', CHR ''t'', CHR ''f'', CHR ''_'', CHR ''+'', CHR ''x'', CHR ''o'', CHR ''b''}"
    if "x \<in> set ?t" for x
    using c [OF that] by (auto simp: is_ascii_digit_def byte_def)
  have f: "filter (\<lambda>c. c \<noteq> CHR ''_'') ?t = ?t" using ne by (auto simp: filter_id_conv)
  have rb: "radix_body (show_nat n) = None" for n
  proof -
    have "x \<notin> {CHR ''x'', CHR ''o'', CHR ''b''}" if "x \<in> set (show_nat n)" for x
      using show_nat_digits [of n] that by (auto simp: is_ascii_digit_def byte_def)
    then show ?thesis
      by (cases "show_nat n"; cases "tl (show_nat n)") (auto simp: radix_body_def strip_prefix_def)
  qed
  have "\<not> starts_with (show_nat n) ''-''" "\<not> starts_with (show_nat n) ''+''" for n
    using show_nat_digits [of n] by (cases "show_nat n"; auto simp: is_ascii_digit_def byte_def)+
  then have "toml_number ?t = Ok (JInt i)"
  proof (cases "sint i < 0")
    case True
    have "strip_prefix ?t ''-'' = Some (show_nat (nat (- sint i)))"
      using True strip_prefix_append [of "''-''"] by (simp add: show_int_def)
    then show ?thesis unfolding toml_number_def f by (simp add: rb)
  next
    case False
    then have "?t = show_nat (nat (sint i))" by (simp add: show_int_def)
    moreover assume "\<And>n. \<not> starts_with (show_nat n) ''-''" "\<And>n. \<not> starts_with (show_nat n) ''+''"
    ultimately have "strip_prefix ?t ''-'' = None" "strip_prefix ?t ''+'' = None" "radix_body ?t = None"
      by (simp_all add: strip_prefix_def rb)
    then show ?thesis unfolding toml_number_def f by simp
  qed
  moreover have "?t \<noteq> ''true''" "?t \<noteq> ''false''" using ne [of c] t by auto
  ultimately show ?thesis using ne [of c] t by (subst toml_value.simps) auto
qed

lemma scalar_value: "toml_scalar v \<Longrightarrow> toml_value (scalar_text v) = Some (Ok v)"
proof (cases v rule: scalar_text.cases)
  case (3 b)
  then show ?thesis by (cases b) (subst toml_value.simps, simp)+
qed (auto simp: toml_string_value number_value)

lemma split_top_items:
  assumes "\<forall>t \<in> set ts. neutral t"
  shows "split_top_aux False False 0 cur (str_join '', '' ts) =
    (case ts of [] \<Rightarrow> [cur] | t # us \<Rightarrow> (cur @ t) # map (\<lambda>u. '' '' @ u) us)"
  using assms
proof (induction ts arbitrary: cur)
  case (Cons t ts)
  have t: "split_top_aux False False 0 c (t @ r) = split_top_aux False False 0 (c @ t) r" for c r
    using Cons.prems by (simp add: neutral_def)
  show ?case
  proof (cases ts)
    case Nil
    then show ?thesis using t [of cur "[]"] by simp
  next
    case (Cons u us)
    have "split_top_aux False False 0 '' '' (str_join '', '' ts) = map (\<lambda>u. '' '' @ u) ts"
      using Cons.IH [of "'' ''"] Cons.prems by (simp add: Cons)
    then show ?thesis using t by (simp add: Cons)
  qed
qed simp

lemma tight_trim_space:
  assumes "tight t"
  shows "str_trim ('' '' @ t) = t"
proof -
  obtain c r where c: "t = c # r" using assms by (cases t) (auto simp: tight_def)
  have "ws_len ('' '' @ t) = 1" by (simp add: ws_len_def byte_def)
  moreover have "ws_len t = 0" using assms by (simp add: c tight_def ws_len_graphic)
  ultimately have "trim_start ('' '' @ t) = trim_start t" by (simp add: trim_start_def c)
  then show ?thesis using tight_trim [OF assms] by (simp add: str_trim_def)
qed

lemma tight_trim_end:
  assumes "tight t"
  shows "str_trim (t @ '' '') = t"
proof -
  obtain c r where c: "t = c # r" using assms by (cases t) (auto simp: tight_def)
  have w: "ws_len t = 0" "ws_len (t @ '' '') = 0" using assms by (simp_all add: c tight_def ws_len_graphic)
  have "ws_end_len (t @ '' '') = 1" by (simp add: ws_end_len_def ws_len_def byte_def)
  then have "trim_end (t @ '' '') = trim_end_fuel (length t) t" by (simp add: trim_end_def)
  also have "\<dots> = trim_end t" by (simp add: trim_end_def)
  finally show ?thesis using tight_trim [OF assms] w by (simp add: str_trim_def trim_start_noop)
qed

lemma array_items_text:
  assumes "list_all toml_scalar a"
  shows "array_items (toml_text (Arr a)) = map scalar_text a"
proof -
  have n: "\<forall>t \<in> set (map scalar_text a). neutral t" using assms by (auto simp: list_all_iff scalar_neutral)
  have t: "str_trim (scalar_text v) = scalar_text v" "str_trim ('' '' @ scalar_text v) = scalar_text v"
    "scalar_text v \<noteq> []" if "v \<in> set a" for v
  proof -
    have "tight (scalar_text v)" using assms that by (auto simp: list_all_iff scalar_tight)
    then show "str_trim (scalar_text v) = scalar_text v" "str_trim ('' '' @ scalar_text v) = scalar_text v"
      "scalar_text v \<noteq> []"
      using tight_trim tight_trim_space by (auto simp: tight_def)
  qed
  have "map str_trim (split_top_level (str_join '', '' (map scalar_text a))) = (if a = [] then [[]] else map scalar_text a)"
    using t unfolding split_top_level_def split_top_items [OF n]
    by (cases a) (auto simp: str_trim_def trim_start_def trim_end_def)
  then show ?thesis using t by (auto simp: array_items_def)
qed

lemma pr_mapM_Ok: "\<forall>x \<in> set xs. f (g x) = Some (Ok x) \<Longrightarrow> pr_mapM f (map g xs) = Some (Ok xs)"
  by (induction xs) (auto simp: pr_bind_def)

lemma setting_value: "toml_setting v \<Longrightarrow> toml_value (toml_text v) = Some (Ok v)"
proof (cases v)
  case (Arr a)
  assume "toml_setting v"
  then have a: "list_all toml_scalar a" by (simp add: Arr)
  have "pr_mapM toml_value (map scalar_text a) = Some (Ok a)"
    using a by (intro pr_mapM_Ok) (auto simp: list_all_iff scalar_value)
  then show ?thesis
    using array_items_text [OF a] ends_with_append [of "''['' @ str_join '', '' (map scalar_text a)" "'']''"]
    by (subst toml_value.simps) (simp add: Arr pr_bind_def)
qed (auto simp: scalar_value simp del: toml_scalar.simps scalar_text.simps)

section \<open>Lines\<close>

definition scan_ok :: "string \<Rightarrow> bool" where
  "scan_ok t \<longleftrightarrow> (\<forall>d rest. bracket_depth_aux False False d (t @ rest) = bracket_depth_aux False False d rest)
     \<and> (\<forall>rest. strip_comment_aux False False (t @ rest) = t @ strip_comment_aux False False rest)"

lemma scan_ok_neutral: "neutral t \<Longrightarrow> scan_ok t"
  by (simp add: scan_ok_def neutral_def)

lemma scan_ok_append: "scan_ok a \<Longrightarrow> scan_ok b \<Longrightarrow> scan_ok (a @ b)"
  by (simp add: scan_ok_def)

lemma scan_ok_brackets: "scan_ok t \<Longrightarrow> scan_ok (''['' @ t @ '']'')"
  by (simp add: scan_ok_def)

lemma scan_ok_join: "\<forall>t \<in> set ts. scan_ok t \<Longrightarrow> scan_ok (str_join '', '' ts)"
proof (induction "'', ''" ts rule: str_join.induct)
  case (3 x y ys)
  have "scan_ok '', ''" by (simp add: scan_ok_def)
  then show ?case using 3 by (simp del: append_Cons append_Nil add: scan_ok_append)
qed (simp_all add: scan_ok_def)

lemma scan_okD:
  assumes "scan_ok t"
  shows "bracket_depth t = 0" "strip_comment t = t"
proof -
  have "bracket_depth_aux False False 0 (t @ []) = 0" "strip_comment_aux False False (t @ []) = t @ []"
    using assms [unfolded scan_ok_def] by (metis bracket_depth_aux.simps(1), metis strip_comment_aux.simps(1))
  then show "bracket_depth t = 0" "strip_comment t = t" by (simp_all add: bracket_depth_def strip_comment_def)
qed

lemma text_scan: "toml_setting v \<Longrightarrow> scan_ok (toml_text v)"
proof (cases v)
  case (Arr a)
  assume "toml_setting v"
  then have "scan_ok (str_join '', '' (map scalar_text a))"
    by (intro scan_ok_join) (auto simp: Arr list_all_iff intro: scan_ok_neutral scalar_neutral)
  then show ?thesis using scan_ok_brackets by (simp add: Arr)
qed (auto intro: scan_ok_neutral scalar_neutral simp del: toml_scalar.simps scalar_text.simps)

lemma text_tight: "toml_setting v \<Longrightarrow> tight (toml_text v)"
proof (cases v)
  case (Arr a)
  then show ?thesis by (simp add: tight_def graphic_def byte_def)
qed (auto intro: scalar_tight simp del: toml_scalar.simps scalar_text.simps)

definition bare_key :: "string \<Rightarrow> bool" where
  "bare_key key \<longleftrightarrow> key \<noteq> [] \<and> (\<forall>c \<in> set key. is_ascii_alphanumeric c \<or> c = CHR ''_'' \<or> c = CHR ''-'')"

definition toml_line :: "string \<times> json \<Rightarrow> string" where
  "toml_line kv = fst kv @ '' = '' @ toml_text (snd kv)"

definition line_ok :: "string \<times> json \<Rightarrow> bool" where
  "line_ok kv \<longleftrightarrow> bare_key (fst kv) \<and> toml_setting (snd kv)"

lemma bare_char:
  assumes "is_ascii_alphanumeric c \<or> c = CHR ''_'' \<or> c = CHR ''-''"
  shows "graphic c" "inert c" "c \<noteq> CHR ''=''" "c \<noteq> CHR ''.''" "c \<noteq> CHR 0x0A"
  using assms by (auto simp: is_ascii_alphanumeric_def is_ascii_digit_def is_ascii_upper_def
      is_ascii_lower_def graphic_def inert_def byte_def)

lemma bare_key_facts:
  assumes "bare_key key"
  shows "tight key" "neutral key" "CHR ''='' \<notin> set key" "CHR ''.'' \<notin> set key" "CHR 0x0A \<notin> set key"
    "unquote_key key = Ok key" "hd key \<noteq> CHR ''[''" "str_split key (CHR ''.'') = [key]"
proof -
  have c: "is_ascii_alphanumeric c \<or> c = CHR ''_'' \<or> c = CHR ''-''" if "c \<in> set key" for c
    using assms that by (simp add: bare_key_def)
  show "tight key" using assms c bare_char(1) by (intro tight_graphic) (auto simp: bare_key_def)
  have "list_all inert key" using bare_char(2) [OF c] by (simp add: list_all_iff)
  then show "neutral key" by (rule neutral_inert)
  show "CHR ''='' \<notin> set key" "CHR ''.'' \<notin> set key" "CHR 0x0A \<notin> set key"
    using bare_char(3,4,5) [OF c] by blast+
  then show "str_split key (CHR ''.'') = [key]" by (simp add: str_split_single)
  obtain x r where k: "key = x # r" using assms by (cases key) (auto simp: bare_key_def)
  have "inert x" using bare_char(2) [OF c] k by simp
  then show "hd key \<noteq> CHR ''[''" "unquote_key key = Ok key" by (simp_all add: k inert_def unquote_key_def)
qed

lemma scalar_no_newline: "toml_scalar v \<Longrightarrow> CHR 0x0A \<notin> set (scalar_text v)"
proof (cases v rule: scalar_text.cases)
  case (1 s)
  have "CHR 0x0A \<notin> set (toml_esc c)" for c by (simp add: toml_esc_def)
  then show ?thesis by (simp add: 1 toml_string_def)
next
  case (2 i)
  have "\<not> graphic (CHR 0x0A)" by (simp add: graphic_def byte_def)
  then show ?thesis using show_int_graphic by (auto simp: 2)
qed auto

lemma set_join: "set (str_join sep ts) \<subseteq> set sep \<union> (\<Union>t \<in> set ts. set t)"
  by (induction sep ts rule: str_join.induct) auto

lemma text_no_newline: "toml_setting v \<Longrightarrow> CHR 0x0A \<notin> set (toml_text v)"
proof (cases v)
  case (Arr a)
  assume "toml_setting v"
  then show ?thesis using set_join [of "'', ''" "map scalar_text a"] scalar_no_newline
    by (fastforce simp: Arr list_all_iff)
qed (use scalar_no_newline [of v] in \<open>auto simp del: toml_scalar.simps scalar_text.simps\<close>)

lemma line_facts:
  assumes "line_ok kv"
  shows "scan_ok (toml_line kv)" "tight (toml_line kv)" "hd (toml_line kv) \<noteq> CHR ''[''"
    "CHR 0x0A \<notin> set (toml_line kv)"
proof -
  obtain key v where kv: "kv = (key, v)" by (cases kv)
  have kk: "bare_key key" "toml_setting v" using assms by (simp_all add: kv line_ok_def)
  note k = bare_key_facts [OF kk(1)]
  have "scan_ok '' = ''" by (simp add: scan_ok_def)
  then show "scan_ok (toml_line kv)"
    unfolding toml_line_def kv fst_conv snd_conv
    using scan_ok_neutral [OF k(2)] text_scan [OF kk(2)] by (intro scan_ok_append)
  have ne: "key \<noteq> []" "toml_text v \<noteq> []"
    using k(1) text_tight [OF kk(2)] by (auto simp: tight_def)
  show "tight (toml_line kv)" using k(1) text_tight [OF kk(2)] ne by (simp add: kv toml_line_def tight_def)
  show "hd (toml_line kv) \<noteq> CHR ''[''" using k(7) ne by (simp add: kv toml_line_def)
  show "CHR 0x0A \<notin> set (toml_line kv)" using k(5) text_no_newline [OF kk(2)] by (simp add: kv toml_line_def)
qed

definition plain_line :: "string \<Rightarrow> bool" where
  "plain_line l \<longleftrightarrow> scan_ok l \<and> tight l \<and> CHR 0x0A \<notin> set l"

lemma plain_lines:
  "\<forall>l \<in> set ls. plain_line l \<Longrightarrow> logical_lines_from i ls = Ok (List.enumerate i ls)"
proof (induction ls arbitrary: i)
  case (Cons l ls)
  have l: "bracket_depth l = 0" "strip_comment l = l" "str_trim l = l" "l \<noteq> []"
    using Cons.prems scan_okD [of l] tight_trim [of l] by (auto simp: plain_line_def tight_def)
  moreover have "join_lines l (Suc i) ls = Some (l, Suc i, ls)" using l(1) by (cases ls) auto
  ultimately show ?case using Cons by (simp add: Let_def)
qed simp

lemma lines_of_join:
  assumes "\<forall>l \<in> set ls. plain_line l"
  shows "str_lines (concat (map (\<lambda>l. l @ [CHR 0x0A]) ls)) = ls"
proof -
  have "str_split (concat (map (\<lambda>l. l @ [CHR 0x0A]) ls)) (CHR 0x0A) = ls @ [[]]"
    using assms by (induction ls) (auto simp: plain_line_def str_split_append)
  moreover have "strip_cr l = l" if "l \<in> set ls" for l
    using assms that by (auto simp: plain_line_def tight_def strip_cr_def graphic_def)
  then have "lines_aux (ls @ [[]]) = ls"
  proof (induction ls)
    case (Cons l ls)
    then show ?case by (cases ls) auto
  qed simp
  ultimately show ?thesis by (simp add: str_lines_def)
qed

section \<open>Documents\<close>

text \<open>
  A document: settings, then tables and arrays of tables, printed one setting a line and one
  header a table.
\<close>

datatype toml_section =
    Table string "(string \<times> json) list"
  | Tables string "(string \<times> json) list list"

fun section_lines :: "toml_section \<Rightarrow> string list" where
  "section_lines (Table n kvs) = (''['' @ n @ '']'') # map toml_line kvs"
| "section_lines (Tables n ts) = concat (map (\<lambda>kvs. (''[['' @ n @ '']]'') # map toml_line kvs) ts)"

fun section_name :: "toml_section \<Rightarrow> string" where
  "section_name (Table n kvs) = n"
| "section_name (Tables n ts) = n"

fun section_json :: "toml_section \<Rightarrow> json" where
  "section_json (Table n kvs) = Obj kvs"
| "section_json (Tables n ts) = Arr (map Obj ts)"

definition settings_ok :: "(string \<times> json) list \<Rightarrow> bool" where
  "settings_ok kvs \<longleftrightarrow> list_all line_ok kvs \<and> distinct (map fst kvs)"

fun section_ok :: "toml_section \<Rightarrow> bool" where
  "section_ok (Table n kvs) = (bare_key n \<and> settings_ok kvs)"
| "section_ok (Tables n ts) = (bare_key n \<and> ts \<noteq> [] \<and> list_all settings_ok ts)"

definition document :: "(string \<times> json) list \<Rightarrow> toml_section list \<Rightarrow> string" where
  "document kvs ss = concat (map (\<lambda>l. l @ [CHR 0x0A]) (map toml_line kvs @ concat (map section_lines ss)))"

definition document_json :: "(string \<times> json) list \<Rightarrow> toml_section list \<Rightarrow> json" where
  "document_json kvs ss = Obj (kvs @ map (\<lambda>s. (section_name s, section_json s)) ss)"

definition document_ok :: "(string \<times> json) list \<Rightarrow> toml_section list \<Rightarrow> bool" where
  "document_ok kvs ss \<longleftrightarrow> settings_ok kvs \<and> list_all section_ok ss
     \<and> distinct (map fst kvs @ map section_name ss)"

lemma header_plain:
  assumes "bare_key n"
  shows "plain_line (''['' @ n @ '']'')" "plain_line (''[['' @ n @ '']]'')"
proof -
  note k = bare_key_facts [OF assms]
  have s: "scan_ok n" using k(2) by (rule scan_ok_neutral)
  show "plain_line (''['' @ n @ '']'')"
    using scan_ok_brackets [OF s] k(5) by (simp add: plain_line_def tight_def graphic_def byte_def)
  show "plain_line (''[['' @ n @ '']]'')"
    using scan_ok_brackets [OF scan_ok_brackets [OF s]] k(5)
    by (simp add: plain_line_def tight_def graphic_def byte_def)
qed

lemma settings_plain: "settings_ok kvs \<Longrightarrow> l \<in> toml_line ` set kvs \<Longrightarrow> plain_line l"
  using line_facts by (auto simp: settings_ok_def list_all_iff plain_line_def)

lemma section_plain: "section_ok s \<Longrightarrow> l \<in> set (section_lines s) \<Longrightarrow> plain_line l"
  using header_plain settings_plain by (cases s) (auto simp: list_all_iff)

lemma document_plain: "document_ok kvs ss \<Longrightarrow> l \<in> set (map toml_line kvs @ concat (map section_lines ss)) \<Longrightarrow> plain_line l"
  using settings_plain section_plain by (auto simp: document_ok_def list_all_iff)

lemma setting_step:
  assumes "line_ok (key, v)"
  shows "toml_step (i, toml_line (key, v)) (root, cur) =
    Some (r_bind (r_map_err (at_line i) (at_table cur (\<lambda>t. Ok (json_set key v t)) root)) (\<lambda>root'. Ok (root', cur)))"
proof -
  have kk: "bare_key key" "toml_setting v" using assms by (simp_all add: line_ok_def)
  note k = bare_key_facts [OF kk(1)]
  have "key \<noteq> []" using kk(1) by (simp add: bare_key_def)
  then have "\<not> starts_with (toml_line (key, v)) ''[''" "\<not> starts_with (toml_line (key, v)) ''[[''"
    using k(7) by (cases key; simp add: toml_line_def)+
  moreover have "split_once (toml_line (key, v)) (CHR ''='') = Some (key @ '' '', '' '' @ toml_text v)"
    using split_once_append [of "CHR ''=''" "key @ '' ''" "'' '' @ toml_text v"] k(3) by (simp add: toml_line_def)
  moreover have "str_trim (key @ '' '') = key" using k(1) by (rule tight_trim_end)
  moreover have "str_trim ('' '' @ toml_text v) = toml_text v" using text_tight [OF kk(2)] by (rule tight_trim_space)
  ultimately show ?thesis by (simp add: toml_step_def k(6) pr_bind_def setting_value [OF kk(2)] del: append_Cons)
qed

lemma settings_loop:
  assumes C: "\<And>m key v. at_table cur (\<lambda>t. Ok (json_set key v t)) (C m) = Ok (C (set_entry key v m))"
    and "list_all line_ok kvs" "distinct (map fst (m @ kvs))"
  shows "toml_loop (List.enumerate i (map toml_line kvs) @ rest) (C m, cur) = toml_loop rest (C (m @ kvs), cur)"
  using assms(2,3)
proof (induction kvs arbitrary: i m)
  case (Cons kv kvs)
  obtain key v where kv: "kv = (key, v)" by (cases kv)
  have "set_entry key v m = m @ [(key, v)]" using Cons.prems by (intro set_entry_fresh) (auto simp: kv)
  then show ?case
    using Cons.IH [of "m @ [kv]" "Suc i"] Cons.prems
    by (simp add: kv setting_step C pr_bind_def)
qed simp

lemma get_last: "n \<notin> fst ` set m \<Longrightarrow> json_get (Obj (m @ [(n, x)])) n = Some x"
  by (induction m) auto

lemma get_fresh: "n \<notin> fst ` set m \<Longrightarrow> json_get (Obj m) n = None"
  by (induction m) auto

lemma set_last: "n \<notin> fst ` set m \<Longrightarrow> set_entry n y (m @ [(n, x)]) = m @ [(n, y)]"
  by (induction m) auto

lemma at_last_table:
  assumes "n \<notin> fst ` set m"
  shows "at_table [n] (\<lambda>t. Ok (json_set key v t)) (Obj (m @ [(n, Obj a)])) =
      Ok (Obj (m @ [(n, Obj (set_entry key v a))]))"
    "at_table [n] (\<lambda>t. Ok (json_set key v t)) (Obj (m @ [(n, Arr (ts @ [Obj a]))])) =
      Ok (Obj (m @ [(n, Arr (ts @ [Obj (set_entry key v a)]))]))"
  using assms by (simp_all add: get_last set_last Let_def del: json_get.simps)

lemma header_path: "bare_key n \<Longrightarrow> split_key_path n = Ok [n]"
  using bare_key_facts [of n] by (simp add: split_key_path_def tight_trim tight_def Let_def)

lemma table_header_step:
  assumes "bare_key n" "n \<notin> fst ` set m"
  shows "toml_step (i, ''['' @ n @ '']'') (Obj m, cur) = Some (Ok (Obj (m @ [(n, Obj [])]), [n]))"
proof -
  have "hd n \<noteq> CHR ''[''" "n \<noteq> []" using bare_key_facts(7) [OF assms(1)] assms(1) by (simp_all add: bare_key_def)
  then have "\<not> starts_with (''['' @ n @ '']'') ''[[''" by (cases n) auto
  moreover have "ends_with (''['' @ n @ '']'') '']''" using ends_with_append [of "''['' @ n" "'']''"] by simp
  moreover have "ensure_table (Obj m) [n] = Ok (Obj (m @ [(n, Obj [])]))"
    using assms(2) get_fresh [OF assms(2)] get_last [OF assms(2)]
    by (simp add: ensure_table_def Let_def set_entry_fresh set_last json_obj_def del: json_get.simps)
  ultimately show ?thesis by (simp add: toml_step_def header_path [OF assms(1)])
qed

lemma tables_header_step:
  assumes "bare_key n" "n \<notin> fst ` set m"
  shows "toml_step (i, ''[['' @ n @ '']]'') (Obj m, cur) = Some (Ok (Obj (m @ [(n, Arr [Obj []])]), [n]))"
    "toml_step (i, ''[['' @ n @ '']]'') (Obj (m @ [(n, Arr ts)]), cur) =
       Some (Ok (Obj (m @ [(n, Arr (ts @ [Obj []]))]), [n]))"
proof -
  have e: "ends_with (''[['' @ n @ '']]'') '']]''" using ends_with_append [of "''[['' @ n" "'']]''"] by simp
  have "push_array_table (Obj m) [n] = Ok (Obj (m @ [(n, Arr [Obj []])]))"
    "push_array_table (Obj (m @ [(n, Arr ts)])) [n] = Ok (Obj (m @ [(n, Arr (ts @ [Obj []]))]))"
    using assms(2) get_fresh [OF assms(2)] get_last [OF assms(2)]
    by (simp_all add: push_array_table_def Let_def set_entry_fresh set_last json_obj_def del: json_get.simps)
  then show "toml_step (i, ''[['' @ n @ '']]'') (Obj m, cur) = Some (Ok (Obj (m @ [(n, Arr [Obj []])]), [n]))"
    "toml_step (i, ''[['' @ n @ '']]'') (Obj (m @ [(n, Arr ts)]), cur) =
       Some (Ok (Obj (m @ [(n, Arr (ts @ [Obj []]))]), [n]))"
    using e by (simp_all add: toml_step_def header_path [OF assms(1)])
qed

lemma tables_loop:
  assumes "bare_key n" "n \<notin> fst ` set m" "list_all settings_ok us"
  shows "toml_loop (List.enumerate i (section_lines (Tables n us)) @ rest) (Obj (m @ [(n, Arr ts)]), [n]) =
    toml_loop rest (Obj (m @ [(n, Arr (ts @ map Obj us))]), [n])"
  using assms(3)
proof (induction us arbitrary: i ts)
  case (Cons kvs us)
  have "toml_loop (List.enumerate (Suc i) (map toml_line kvs) @ r) (Obj (m @ [(n, Arr (ts @ [Obj []]))]), [n]) =
      toml_loop r (Obj (m @ [(n, Arr (ts @ [Obj ([] @ kvs)]))]), [n])" for r
    using Cons.prems at_last_table(2) [OF assms(2)]
    by (intro settings_loop [where C = "\<lambda>a. Obj (m @ [(n, Arr (ts @ [Obj a]))])"]) (auto simp: settings_ok_def)
  then show ?case
    using Cons.IH [of _ "ts @ [Obj kvs]"] Cons.prems tables_header_step(2) [OF assms(1,2)]
    by (simp add: enumerate_append_eq pr_bind_def)
qed simp

lemma section_loop:
  assumes "section_ok s" "section_name s \<notin> fst ` set m"
  shows "toml_loop (List.enumerate i (section_lines s) @ rest) (Obj m, cur) =
    toml_loop rest (Obj (m @ [(section_name s, section_json s)]), [section_name s])"
proof (cases s)
  case (Table n kvs)
  have n: "bare_key n" "n \<notin> fst ` set m" "settings_ok kvs" using assms by (simp_all add: Table)
  have "toml_loop (List.enumerate (Suc i) (map toml_line kvs) @ rest) (Obj (m @ [(n, Obj [])]), [n]) =
      toml_loop rest (Obj (m @ [(n, Obj ([] @ kvs))]), [n])"
    using n(3) at_last_table(1) [OF n(2)]
    by (intro settings_loop [where C = "\<lambda>a. Obj (m @ [(n, Obj a)])"]) (auto simp: settings_ok_def)
  then show ?thesis using table_header_step [OF n(1,2)] by (simp add: Table pr_bind_def)
next
  case (Tables n ts)
  have n: "bare_key n" "n \<notin> fst ` set m" "list_all settings_ok ts" "ts \<noteq> []" using assms by (simp_all add: Tables)
  obtain kvs us where ts: "ts = kvs # us" using n(4) by (cases ts) auto
  show ?thesis
    using tables_loop [OF n(1-3), of i rest "[]"] tables_header_step(1) [OF n(1,2)] tables_header_step(2) [OF n(1,2), of _ "[]"]
    by (simp add: Tables ts pr_bind_def)
qed

lemma sections_loop:
  assumes "list_all section_ok ss" "distinct (map fst m @ map section_name ss)"
  shows "\<exists>cur'. toml_loop (List.enumerate i (concat (map section_lines ss))) (Obj m, cur) =
    Some (Ok (Obj (m @ map (\<lambda>s. (section_name s, section_json s)) ss), cur'))"
  using assms
proof (induction ss arbitrary: i m cur)
  case (Cons s ss)
  let ?m = "m @ [(section_name s, section_json s)]"
  have "section_name s \<notin> fst ` set m" using Cons.prems by auto
  then have "toml_loop (List.enumerate i (concat (map section_lines (s # ss)))) (Obj m, cur) =
      toml_loop (List.enumerate (i + length (section_lines s)) (concat (map section_lines ss))) (Obj ?m, [section_name s])"
    using Cons.prems section_loop [of s m i] by (simp add: enumerate_append_eq)
  moreover have "distinct (map fst ?m @ map section_name ss)" using Cons.prems by auto
  ultimately show ?case using Cons.IH [of ?m] Cons.prems by simp
qed simp

text \<open>
  C29: The TOML parser reads a document of settings (strings, 64-bit integers, booleans and
  arrays of these), tables and arrays of tables, printed one setting a line, as exactly the tree
  it describes, entries in order.
\<close>
theorem toml_roundtrip:
  assumes "document_ok kvs ss"
  shows "toml_parse (document kvs ss) = Some (Ok (document_json kvs ss))"
proof -
  let ?ls = "map toml_line kvs @ concat (map section_lines ss)"
  have "logical_lines (document kvs ss) = Ok (List.enumerate 0 ?ls)"
    unfolding logical_lines_def document_def
    using document_plain [OF assms] by (subst lines_of_join) (auto intro!: plain_lines)
  moreover obtain cur where "toml_loop (List.enumerate (length kvs) (concat (map section_lines ss))) (Obj kvs, []) =
      Some (Ok (Obj (kvs @ map (\<lambda>s. (section_name s, section_json s)) ss), cur))"
    using sections_loop [of ss kvs "length kvs" "[]"] assms by (auto simp: document_ok_def)
  moreover have "toml_loop (List.enumerate 0 (map toml_line kvs) @ r) (Obj [], []) = toml_loop r (Obj ([] @ kvs), [])" for r
    using assms by (intro settings_loop [where C = Obj]) (auto simp: document_ok_def settings_ok_def)
  ultimately show ?thesis
    by (simp add: toml_parse_def pr_bind_def enumerate_append_eq document_json_def json_obj_def)
qed

theorem toml_roundtrip_witness:
  "toml_parse (document [(''rootfs'', Str ''/srv/a#b''), (''command'', Arr [Str ''sh'', Str ''a, b''])]
     [Table ''resources'' [(''pids'', JInt 100)], Tables ''publish'' [[(''host'', JInt 80)], []]]) =
   Some (Ok (Obj [(''rootfs'', Str ''/srv/a#b''), (''command'', Arr [Str ''sh'', Str ''a, b'']),
     (''resources'', Obj [(''pids'', JInt 100)]), (''publish'', Arr [Obj [(''host'', JInt 80)], Obj []])]))"
proof -
  have b: "bare_key ''rootfs''" "bare_key ''command''" "bare_key ''resources''" "bare_key ''pids''"
    "bare_key ''publish''" "bare_key ''host''"
    by (simp_all add: bare_key_def is_ascii_alphanumeric_def is_ascii_digit_def is_ascii_upper_def is_ascii_lower_def byte_def)
  have u: "utf8_valid ''/srv/a#b''" "utf8_valid ''sh''" "utf8_valid ''a, b''"
    by (simp_all add: utf8_valid_Cons utf8_len_ascii byte_def)
  show ?thesis
    using toml_roundtrip [of "[(''rootfs'', Str ''/srv/a#b''), (''command'', Arr [Str ''sh'', Str ''a, b''])]"
        "[Table ''resources'' [(''pids'', JInt 100)], Tables ''publish'' [[(''host'', JInt 80)], []]]"]
    by (simp add: document_ok_def settings_ok_def line_ok_def b u document_json_def)
qed

section \<open>Panics\<close>

abbreviation ascii :: "string \<Rightarrow> bool" where
  "ascii s \<equiv> \<forall>c \<in> set s. byte c < 0x80"

lemma pr_bind_None: "pr_bind m f = None \<longleftrightarrow> m = None \<or> (\<exists>x. m = Some (Ok x) \<and> f x = None)"
  by (auto simp: pr_bind_def split: option.splits result.splits)

lemma pr_mapM_None: "pr_mapM f xs = None \<Longrightarrow> \<exists>x \<in> set xs. f x = None"
  by (induction xs) (auto simp: pr_bind_None)

lemma ascii_drop: "ascii s \<Longrightarrow> ascii (drop n s)"
  by (meson in_set_dropD)

lemma basic_loop_ascii: "ascii s \<Longrightarrow> basic_loop s out \<noteq> None"
proof (induction "length s" arbitrary: s out rule: less_induct)
  case less
  show ?case
  proof (cases s)
    case (Cons c r)
    have IH: "basic_loop (drop n s) o' \<noteq> None" if "0 < n" for n o'
      using less(1) [of "drop n s" o'] ascii_drop [OF less(2)] that by (simp add: Cons)
    show ?thesis
    proof (cases "c = backslash \<and> r \<noteq> []")
      case True
      then obtain e t where r: "r = e # t" by (cases r) auto
      have "\<not> utf8_cont (byte (t ! 4))" if "4 < length t"
      proof -
        have "byte (t ! 4) < 0x80" using less(2) that by (simp add: Cons r)
        then show ?thesis by (simp add: utf8_cont_def)
      qed
      then show ?thesis using True IH [of 2] IH [of 6] by (auto simp: Cons r split: option.splits)
    next
      case False
      then show ?thesis using IH [of 1] IH [of "utf8_len s"] by (auto simp: Cons)
    qed
  qed simp
qed

lemma set_take_mid: "set (take n (drop m s)) \<subseteq> set s"
  by (meson in_set_dropD in_set_takeD subsetI)

lemma set_trim: "set (str_trim s) \<subseteq> set s"
proof -
  have "set (trim_start_fuel n t) \<subseteq> set t" for n t
    by (induction n arbitrary: t) (auto, meson in_set_dropD subsetD)
  moreover have "set (trim_end_fuel n t) \<subseteq> set t" for n t
    by (induction n arbitrary: t) (auto, meson in_set_takeD subsetD)
  ultimately show ?thesis unfolding str_trim_def trim_start_def trim_end_def by (meson subset_trans)
qed

lemma array_items_set:
  assumes "t \<in> set (array_items s)"
  shows "set t \<subseteq> set s"
proof -
  obtain p where p: "p \<in> set (split_top_level (take (length s - 2) (drop 1 s)))" "t = str_trim p"
    using assms by (auto simp: array_items_def)
  have "set p \<subseteq> set (take (length s - 2) (drop 1 s))" using split_top_part [OF p(1)] by simp
  then show ?thesis using set_trim [of p] set_take_mid [of "length s - 2" 1 s] p(2) by blast
qed

lemma toml_value_ascii: "ascii s \<Longrightarrow> toml_value s \<noteq> None"
proof (induction "length s" arbitrary: s rule: less_induct)
  case less
  have "parse_basic_string s \<noteq> None"
    using basic_loop_ascii [OF ascii_drop [OF less(2), of 1], of "[]"] by (simp add: parse_basic_string_def)
  moreover have "toml_value t \<noteq> None" if "t \<in> set (array_items s)" "s \<noteq> []" for t
    using less array_items_length [OF that] array_items_set [OF that(1)] by blast
  then have "pr_mapM toml_value (array_items s) \<noteq> None" if "s \<noteq> []"
    using pr_mapM_None that by blast
  ultimately show ?case
    by (subst toml_value.simps) (simp add: pr_bind_None del: not_None_eq)
qed

lemma set_strip_comment_aux: "set (strip_comment_aux b q l) \<subseteq> set l"
proof (induction "length l" arbitrary: b q l rule: less_induct)
  case less
  show ?case
  proof (cases l)
    case (Cons c s)
    have IH: "set (strip_comment_aux b' q' (drop n s)) \<subseteq> set s" for b' q' n
    proof -
      have "length (drop n s) < length l" by (simp add: Cons less_Suc_eq_le)
      then show ?thesis using less set_drop_subset [of n s] by blast
    qed
    have "set (strip_comment_aux b' q' s) \<subseteq> set s" for b' q' using IH [of b' q' 0] by simp
    moreover note IH [of _ _ 1] set_take_subset [of 1 s]
    ultimately show ?thesis unfolding Cons strip_comment_aux.simps by (simp add: subset_insertI2)
  qed simp
qed

lemma clean_line_ascii: "ascii l \<Longrightarrow> ascii (str_trim (strip_comment l))"
  using set_trim [of "strip_comment l"] set_strip_comment_aux [of False False l]
  unfolding strip_comment_def by blast

lemma join_lines_ascii:
  "join_lines j i ps = Some (j', i', rest) \<Longrightarrow> ascii j \<Longrightarrow> list_all ascii ps \<Longrightarrow> ascii j' \<and> list_all ascii rest"
proof (induction ps arbitrary: j i)
  case Nil
  then show ?case by (simp split: if_splits)
next
  case (Cons p ps)
  define j1 where "j1 = (if str_trim (strip_comment p) = [] then j else j @ '' '' @ str_trim (strip_comment p))"
  have "byte CHR '' '' < 0x80" by (simp add: byte_def)
  moreover have "ascii (str_trim (strip_comment p))" using Cons.prems(3) by (intro clean_line_ascii) simp
  ultimately have j1: "ascii j1" using Cons.prems(2) by (simp add: j1_def ball_Un)
  show ?case
  proof (cases "bracket_depth j > 0")
    case True
    then have "join_lines j1 (i + 1) ps = Some (j', i', rest)"
      using Cons.prems(1) unfolding join_lines.simps Let_def j1_def by simp
    then show ?thesis using Cons.IH [OF _ j1] Cons.prems(3) by simp
  next
    case False
    then show ?thesis using Cons.prems by simp
  qed
qed

lemma logical_lines_ascii:
  "logical_lines_from i ps = Ok out \<Longrightarrow> list_all ascii ps \<Longrightarrow> list_all (\<lambda>nl. ascii (snd nl)) out"
proof (induction "length ps" arbitrary: i ps out rule: less_induct)
  case less
  show ?case
  proof (cases ps)
    case Nil
    then show ?thesis using less(2) by simp
  next
    case (Cons p qs)
    let ?f = "str_trim (strip_comment p)"
    have f: "ascii ?f" using less(3) by (intro clean_line_ascii) (simp add: Cons)
    have IH: "list_all (\<lambda>nl. ascii (snd nl)) o'" if "logical_lines_from n qs = Ok o'" for n o'
      using less(1) [OF _ that] less(3) by (simp add: Cons)
    show ?thesis
    proof (cases "?f = [] \<or> starts_with ?f ''['' \<and> \<not> str_contains ?f ''=''")
      case True
      then show ?thesis using less(2) IH f unfolding Cons logical_lines_from.simps Let_def by (auto split: if_splits)
    next
      case False
      then obtain j i' rest o' where j: "join_lines ?f (i + 1) qs = Some (j, i', rest)"
        "logical_lines_from i' rest = Ok o'" "out = (i, j) # o'"
        using less(2) unfolding Cons logical_lines_from.simps Let_def by (auto split: option.splits)
      have "ascii j \<and> list_all ascii rest" using join_lines_ascii [OF j(1) f] less(3) by (simp add: Cons)
      then show ?thesis using less(1) [OF _ j(2)] join_lines_length [OF j(1)] j(3) by (simp add: Cons)
    qed
  qed
qed

lemma toml_step_ascii: "ascii (snd nl) \<Longrightarrow> toml_step nl st \<noteq> None"
proof -
  assume a: "ascii (snd nl)"
  have "ascii (str_trim v)" if "split_once (snd nl) (CHR ''='') = Some (key, v)" for key v
    using that a set_trim [of v] by (auto simp: split_once_Some)
  then show ?thesis using toml_value_ascii
    by (cases nl; cases st) (simp add: toml_step_def pr_bind_None split: option.splits prod.splits del: not_None_eq)
qed

lemma toml_loop_ascii: "list_all (\<lambda>nl. ascii (snd nl)) ls \<Longrightarrow> toml_loop ls st \<noteq> None"
proof (induction ls arbitrary: st)
  case (Cons l ls)
  then show ?case using toml_step_ascii [of l st] by (simp add: pr_bind_None del: not_None_eq)
qed simp

lemma lines_ascii: "ascii s \<Longrightarrow> list_all ascii (str_lines s)"
proof -
  assume s: "ascii s"
  have "set p \<subseteq> set s" if "p \<in> set (str_split s (CHR 0x0A))" for p
    using join_part [OF that, of "[CHR 0x0A]"] by (simp add: str_split_join)
  moreover have "\<exists>q \<in> set ps. set l \<subseteq> set q" if "l \<in> set (lines_aux ps)" for l ps
    using that
  proof (induction ps rule: lines_aux.induct)
    case (3 l m ls)
    have "set (strip_cr x) \<subseteq> set x" for x by (auto simp: strip_cr_def dest: in_set_butlastD)
    then show ?case using 3 by auto
  qed (auto split: if_splits)
  ultimately show ?thesis using s unfolding str_lines_def list_all_iff by blast
qed

text \<open>
  The TOML parser never panics on a document of ASCII characters: it returns a tree or an
  error, whatever the text.
\<close>
theorem toml_no_panic:
  assumes "\<forall>c \<in> set s. byte c < 0x80"
  shows "toml_parse s \<noteq> None"
  using toml_loop_ascii logical_lines_ascii [of 0 "str_lines s"] lines_ascii [OF assms]
  by (auto simp: toml_parse_def pr_bind_None logical_lines_def simp del: not_None_eq)

theorem toml_no_panic_witness: "toml_parse ''a = [1, 2'' \<noteq> None"
  by (rule toml_no_panic) (simp add: byte_def)

text \<open>A multi-byte character inside a \<open>\u\<close> escape does make it panic.\<close>

lemma toml_panics: "toml_value ([quote, backslash] @ ''u000'' @ [CHR 0xE2, CHR 0x82, CHR 0xAC, quote]) = None"
  by (simp add: toml_value.simps parse_basic_string_def toml_escapes_def utf8_cont_def byte_def pr_bind_def)

end
