(* ===== verification/Ipc.thy ===== *)
theory Ipc
  imports Netlink Json_Laws
begin

text \<open>
  \<open>src/runtime/ipc.rs\<close>: the framed channel between the supervisor and the container's init.
  One end of the socket pair is a record of the bytes that arrive, the bytes that were
  written, and a schedule for the coming system calls: each may be interrupted, may fail, or
  may transfer fewer bytes than asked for; when the schedule has run out a call transfers
  all it can.  A read with nothing to read from an open peer blocks, which is \<open>None\<close>.
\<close>

datatype sched = Intr | Fault int | Chunk nat

record pipe =
  p_in :: "u8 list"
  p_closed :: bool
  p_out :: "u8 list"
  p_sched :: "sched list"

datatype kread = KBlock | KErr int | KBytes "u8 list"

definition next_sched :: "nat \<Rightarrow> sched list \<Rightarrow> int + nat" where
  "next_sched n sch = (case sch of [] \<Rightarrow> Inr n | Intr # _ \<Rightarrow> Inl EINTR | Fault e # _ \<Rightarrow> Inl e
     | Chunk c # _ \<Rightarrow> Inr (min n c))"

text \<open>\<open>read\<close> of at most \<open>n\<close> bytes: at least one when there is any.\<close>

definition kernel_read :: "nat \<Rightarrow> pipe \<Rightarrow> kread \<times> pipe" where
  "kernel_read n p =
     (let q = p\<lparr>p_sched := tl (p_sched p)\<rparr>
      in case next_sched n (p_sched p) of
           Inl e \<Rightarrow> (KErr e, q)
         | Inr c \<Rightarrow>
             if p_in p = [] then (if p_closed p then KBytes [] else KBlock, q)
             else (KBytes (take (max 1 c) (p_in p)), q\<lparr>p_in := drop (max 1 c) (p_in p)\<rparr>))"

text \<open>\<open>write\<close>: the number of bytes taken.\<close>

definition kernel_write :: "u8 list \<Rightarrow> pipe \<Rightarrow> (nat, int) result \<times> pipe" where
  "kernel_write buf p =
     (let q = p\<lparr>p_sched := tl (p_sched p)\<rparr>
      in case next_sched (length buf) (p_sched p) of
           Inl e \<Rightarrow> (Err e, q)
         | Inr c \<Rightarrow> (Ok c, q\<lparr>p_out := p_out p @ take c buf\<rparr>))"

section \<open>Frames\<close>

definition TAG_READY :: u8 where "TAG_READY = 0x52"
definition TAG_GO :: u8 where "TAG_GO = 0x47"
definition TAG_STARTED :: u8 where "TAG_STARTED = 0x53"
definition TAG_ERROR :: u8 where "TAG_ERROR = 0x45"
definition TAG_EXIT :: u8 where "TAG_EXIT = 0x58"

definition MAX_PAYLOAD :: u32 where "MAX_PAYLOAD = 64 * 1024"

definition tag_name :: "u8 \<Rightarrow> string" where
  "tag_name t =
     (if t = TAG_READY then ''ready'' else if t = TAG_GO then ''go''
      else if t = TAG_STARTED then ''started'' else if t = TAG_ERROR then ''error''
      else if t = TAG_EXIT then ''exit'' else ''unknown'')"

function ipc_write_all :: "u8 list \<Rightarrow> pipe \<Rightarrow> unit res \<times> pipe" where
  "ipc_write_all buf p =
     (if buf = [] then (Ok (), p)
      else case kernel_write buf p of
             (Err e, q) \<Rightarrow>
               if e = EINTR then ipc_write_all buf q
               else (Err (Syscall ''write'' e ''sync channel''), q)
           | (Ok n, q) \<Rightarrow>
               if n = 0 then (Err (Io ''sync channel closed while writing''), q)
               else ipc_write_all (drop n buf) q)"
  by pat_completeness auto

termination
  by (relation "measure (\<lambda>(buf, p). length buf + length (p_sched p))")
    (auto simp: kernel_write_def next_sched_def Let_def split: sum.splits list.splits sched.splits)

text \<open>The loop of \<open>read_exact\<close>: \<open>out\<close> is what was read so far.\<close>

function read_loop :: "nat \<Rightarrow> u8 list \<Rightarrow> pipe \<Rightarrow> (u8 list option res \<times> pipe) option" where
  "read_loop n out p =
     (if n \<le> length out then Some (Ok (Some out), p)
      else case kernel_read (n - length out) p of
             (KBlock, q) \<Rightarrow> None
           | (KErr e, q) \<Rightarrow>
               if e = EINTR then read_loop n out q
               else Some (Err (Syscall ''read'' e ''sync channel''), q)
           | (KBytes b, q) \<Rightarrow>
               if b = [] then
                 (if out = [] then Some (Ok None, q)
                  else Some (Err (Io (''sync channel truncated: wanted '' @ show_nat n @ '' bytes, got '' @
                         show_nat (length out))), q))
               else read_loop n (out @ b) q)"
  by pat_completeness auto

lemma kernel_read_sched:
  "kernel_read n p = (KErr e, q) \<Longrightarrow> length (p_sched q) < length (p_sched p)"
  "kernel_read n p = (KBytes b, q) \<Longrightarrow> length (p_sched q) \<le> length (p_sched p)"
  by (auto simp: kernel_read_def next_sched_def Let_def split: sum.splits list.splits sched.splits if_splits)

termination read_loop
proof (relation "measure (\<lambda>(n, out, p). (n - length out) + length (p_sched p))", goal_cases)
  case (2 n out p x q e)
  then show ?case using kernel_read_sched(1) [of "n - length out" p e q] by simp
next
  case (3 n out p x q b)
  then show ?case using kernel_read_sched(2) [of "n - length out" p b q] by (cases b) auto
qed simp

declare ipc_write_all.simps [simp del] read_loop.simps [simp del]

definition read_exact :: "nat \<Rightarrow> pipe \<Rightarrow> (u8 list option res \<times> pipe) option" where
  "read_exact n p = read_loop n [] p"

definition frame :: "u8 \<Rightarrow> u8 list \<Rightarrow> u8 list" where
  "frame tag payload = [tag] @ le32 (of_nat (length payload)) @ payload"

definition ipc_send :: "u8 \<Rightarrow> u8 list \<Rightarrow> pipe \<Rightarrow> unit res \<times> pipe" where
  "ipc_send tag payload p =
     (if (of_nat (length payload) :: u32) > MAX_PAYLOAD then (Err (Io ''sync message too large''), p)
      else ipc_write_all (frame tag payload) p)"

definition send_tag :: "u8 \<Rightarrow> pipe \<Rightarrow> unit res \<times> pipe" where
  "send_tag tag = ipc_send tag []"

definition send_error :: "string \<Rightarrow> pipe \<Rightarrow> unit res \<times> pipe" where
  "send_error msg = ipc_send TAG_ERROR (take (min (length (bytes_of msg)) (unat MAX_PAYLOAD)) (bytes_of msg))"

definition send_exit :: "i32 \<Rightarrow> i32 \<Rightarrow> pipe \<Rightarrow> unit res \<times> pipe" where
  "send_exit code signal = ipc_send TAG_EXIT (le32 code @ le32 signal)"

definition ipc_recv :: "pipe \<Rightarrow> ((u8 \<times> u8 list) option res \<times> pipe) option" where
  "ipc_recv p =
     (case read_exact 5 p of
        None \<Rightarrow> None
      | Some (Err e, q) \<Rightarrow> Some (Err e, q)
      | Some (Ok None, q) \<Rightarrow> Some (Ok None, q)
      | Some (Ok (Some h), q) \<Rightarrow>
          (let len = from_le32 (h ! 1) (h ! 2) (h ! 3) (h ! 4)
           in if len > MAX_PAYLOAD
              then Some (Err (Parse (''sync frame claims '' @ show_nat (unat len) @
                     '' bytes, which is beyond the '' @ show_nat (unat MAX_PAYLOAD) @ '' byte limit'')), q)
              else if len = 0 then Some (Ok (Some (h ! 0, [])), q)
              else (case read_exact (unat len) q of
                  None \<Rightarrow> None
                | Some (Err e, q') \<Rightarrow> Some (Err e, q')
                | Some (Ok None, q') \<Rightarrow> Some (Err (Io ''sync channel closed mid-frame''), q')
                | Some (Ok (Some payload), q') \<Rightarrow> Some (Ok (Some (h ! 0, payload)), q'))))"

definition ipc_expect :: "u8 \<Rightarrow> pipe \<Rightarrow> (u8 list res \<times> pipe) option" where
  "ipc_expect want p =
     (case ipc_recv p of
        None \<Rightarrow> None
      | Some (Err e, q) \<Rightarrow> Some (Err e, q)
      | Some (Ok None, q) \<Rightarrow> Some (Err (Container (''container init exited before sending '' @ tag_name want)), q)
      | Some (Ok (Some (tag, payload)), q) \<Rightarrow>
          if tag = want then Some (Ok payload, q)
          else if tag = TAG_ERROR then Some (Err (Container (from_utf8_lossy payload)), q)
          else Some (Err (Container (''expected '' @ tag_name want @ '' from container init, got '' @ tag_name tag)), q))"

definition parse_exit :: "u8 list \<Rightarrow> (i32 \<times> i32) option" where
  "parse_exit b =
     (if length b < 8 then None
      else Some (from_le32 (b ! 0) (b ! 1) (b ! 2) (b ! 3), from_le32 (b ! 4) (b ! 5) (b ! 6) (b ! 7)))"

section \<open>Reading under any schedule\<close>

text \<open>Interruptions and short transfers only.\<close>

definition benign :: "sched list \<Rightarrow> bool" where
  "benign sch \<longleftrightarrow> list_all (\<lambda>a. case a of Fault e \<Rightarrow> e = EINTR | _ \<Rightarrow> True) sch"

lemma benign_tl: "benign sch \<Longrightarrow> benign (tl sch)"
  by (cases sch) (auto simp: benign_def)

lemma kernel_read_benign:
  assumes "benign (p_sched p)" "0 < n" "p_in p \<noteq> []"
  shows "(\<exists>q. kernel_read n p = (KErr EINTR, q) \<and> p_in q = p_in p \<and> p_closed q = p_closed p \<and> benign (p_sched q))
    \<or> (\<exists>c q. kernel_read n p = (KBytes (take c (p_in p)), q) \<and> 0 < c \<and> c \<le> n \<and> p_in q = drop c (p_in p)
        \<and> p_closed q = p_closed p \<and> benign (p_sched q))"
proof (cases "next_sched n (p_sched p)")
  case (Inl e)
  then have "e = EINTR" using assms(1)
    by (auto simp: next_sched_def benign_def split: list.splits sched.splits)
  then show ?thesis using Inl benign_tl [OF assms(1)] by (simp add: kernel_read_def Let_def)
next
  case (Inr c)
  then have "max 1 c \<le> n" using assms(2) by (auto simp: next_sched_def split: list.splits sched.splits)
  then show ?thesis using Inr benign_tl [OF assms(1)] assms(3)
    by (intro disjI2 exI [of _ "max 1 c"]) (simp add: kernel_read_def Let_def)
qed

lemma read_loop_benign:
  assumes "benign (p_sched p)" "p_in p = xs @ rest" "length out + length xs = n"
  shows "\<exists>q. read_loop n out p = Some (Ok (Some (out @ xs)), q) \<and> p_in q = rest \<and> p_closed q = p_closed p \<and> benign (p_sched q)"
  using assms
proof (induction n out p arbitrary: xs rule: read_loop.induct)
  case (1 n out p)
  show ?case
  proof (cases "n \<le> length out")
    case True
    then have "length xs = 0" using 1(5) by linarith
    then have "xs = []" by simp
    then show ?thesis using 1(3-5) by (subst read_loop.simps) simp
  next
    case False
    then have ne: "p_in p \<noteq> []" "0 < n - length out" using 1(4,5) by auto
    from kernel_read_benign [OF 1(3) ne(2,1)] show ?thesis
    proof (elim disjE exE conjE)
      fix q assume q: "kernel_read (n - length out) p = (KErr EINTR, q)" "p_in q = p_in p" "p_closed q = p_closed p" "benign (p_sched q)"
      from 1(1) [OF False q(1) [symmetric] refl refl q(4)] show ?thesis
        using False q 1(4,5) by (subst read_loop.simps) simp
    next
      fix c q assume q: "kernel_read (n - length out) p = (KBytes (take c (p_in p)), q)" "0 < c" "c \<le> n - length out"
        "p_in q = drop c (p_in p)" "p_closed q = p_closed p" "benign (p_sched q)"
      have c: "c \<le> length xs" using q(3) 1(5) by simp
      have t: "take c (p_in p) = take c xs" "drop c (p_in p) = drop c xs @ rest" using 1(4) c by simp_all
      have b: "take c xs \<noteq> []" using q(2) c by auto
      have "\<exists>q'. read_loop n (out @ take c xs) q = Some (Ok (Some ((out @ take c xs) @ drop c xs)), q') \<and> p_in q' = rest
          \<and> p_closed q' = p_closed q \<and> benign (p_sched q')"
        using 1(2) [OF False q(1) [symmetric] refl, of "drop c xs"] b q(4,6) t 1(5) c by simp
      then show ?thesis using False q(1,5) b t by (subst read_loop.simps) simp
    qed
  qed
qed

lemma read_loop_short:
  assumes "benign (p_sched p)" "p_closed p" "length out + length (p_in p) < n"
  shows "\<exists>r q. read_loop n out p = Some (r, q) \<and> (if out @ p_in p = [] then r = Ok None else (\<exists>e. r = Err e))"
  using assms
proof (induction n out p rule: read_loop.induct)
  case (1 n out p)
  have lt: "\<not> n \<le> length out" using 1(5) by simp
  show ?case
  proof (cases "p_in p = []")
    case True
    then show ?thesis
    proof (cases "next_sched (n - length out) (p_sched p)")
      case (Inl e)
      then have e: "e = EINTR" using 1(3)
        by (auto simp: next_sched_def benign_def split: list.splits sched.splits)
      let ?q = "p\<lparr>p_sched := tl (p_sched p)\<rparr>"
      have q: "kernel_read (n - length out) p = (KErr EINTR, ?q)" using Inl e by (simp add: kernel_read_def Let_def)
      from 1(1) [OF lt q [symmetric] refl refl] show ?thesis
        using lt q 1(3-5) benign_tl [OF 1(3)] by (subst read_loop.simps) simp
    next
      case (Inr c)
      then have "kernel_read (n - length out) p = (KBytes [], p\<lparr>p_sched := tl (p_sched p)\<rparr>)"
        using True 1(4) by (simp add: kernel_read_def Let_def)
      then show ?thesis using lt True by (subst read_loop.simps) simp
    qed
  next
    case False
    have pos: "0 < n - length out" using lt by simp
    from kernel_read_benign [OF 1(3) pos False] show ?thesis
    proof (elim disjE exE conjE)
      fix q assume q: "kernel_read (n - length out) p = (KErr EINTR, q)" "p_in q = p_in p" "p_closed q = p_closed p" "benign (p_sched q)"
      from 1(1) [OF lt q(1) [symmetric] refl refl q(4)] show ?thesis
        using lt q 1(4,5) by (subst read_loop.simps) simp
    next
      fix c q assume q: "kernel_read (n - length out) p = (KBytes (take c (p_in p)), q)" "0 < c" "c \<le> n - length out"
        "p_in q = drop c (p_in p)" "p_closed q = p_closed p" "benign (p_sched q)"
      have b: "take c (p_in p) \<noteq> []" using False q(2) by simp
      have "\<exists>r q'. read_loop n (out @ take c (p_in p)) q = Some (r, q') \<and> (\<exists>e. r = Err e)"
        using 1(2) [OF lt q(1) [symmetric] refl b q(6)] q(4,5) 1(4,5) b by simp
      then show ?thesis using lt q(1) b False by (subst read_loop.simps) auto
    qed
  qed
qed

section \<open>Frames over a stream\<close>

lemma length_le32 [simp]: "length (le32 w) = 4"
  by (simp add: le32_def)

lemma payload_len:
  assumes "length payload \<le> 65536"
  shows "unat (of_nat (length payload) :: u32) = length payload" "\<not> (of_nat (length payload) :: u32) > MAX_PAYLOAD"
proof -
  show u: "unat (of_nat (length payload) :: u32) = length payload"
    using assms by (simp add: unat_of_nat)
  show "\<not> (of_nat (length payload) :: u32) > MAX_PAYLOAD"
    using assms u by (simp add: word_less_nat_alt MAX_PAYLOAD_def)
qed

lemma recv_header:
  assumes "read_exact 5 p = Some (Ok (Some ([tag] @ le32 w)), q)" "\<not> w > MAX_PAYLOAD"
  shows "ipc_recv p = (if w = 0 then Some (Ok (Some (tag, [])), q)
      else (case read_exact (unat w) q of
                  None \<Rightarrow> None
                | Some (Err e, q') \<Rightarrow> Some (Err e, q')
                | Some (Ok None, q') \<Rightarrow> Some (Err (Io ''sync channel closed mid-frame''), q')
                | Some (Ok (Some payload), q') \<Rightarrow> Some (Ok (Some (tag, payload)), q')))"
proof -
  let ?h = "[tag] @ le32 w"
  have "from_le32 (?h ! 1) (?h ! 2) (?h ! 3) (?h ! 4) = w" "?h ! 0 = tag" by (simp_all add: le32_def)
  then show ?thesis
    unfolding ipc_recv_def assms(1) option.case prod.case result.case Let_def using assms(2) by (simp only: if_False if_True)
qed

lemma recv_frame:
  assumes "benign (p_sched p)" "p_in p = frame tag payload @ rest" "length payload \<le> 65536"
  shows "\<exists>q. ipc_recv p = Some (Ok (Some (tag, payload)), q) \<and> p_in q = rest \<and> p_closed q = p_closed p \<and> benign (p_sched q)"
proof -
  let ?w = "of_nat (length payload) :: u32" let ?h = "[tag] @ le32 ?w"
  obtain q where q: "read_exact 5 p = Some (Ok (Some ?h), q)" "p_in q = payload @ rest" "p_closed q = p_closed p" "benign (p_sched q)"
    using read_loop_benign [OF assms(1), of ?h "payload @ rest" "[]" 5] assms(2) by (auto simp: read_exact_def frame_def)
  note pl = payload_len [OF assms(3)]
  note r = recv_header [OF q(1) pl(2)]
  show ?thesis
  proof (cases "?w = 0")
    case True
    then have "payload = []" using pl(1) by simp
    then show ?thesis using q True r by simp
  next
    case False
    obtain q' where "read_exact (unat ?w) q = Some (Ok (Some payload), q')" "p_in q' = rest" "p_closed q' = p_closed q" "benign (p_sched q')"
      using read_loop_benign [OF q(4,2), of "[]" "length payload"] pl(1) by (auto simp: read_exact_def)
    then show ?thesis using q(3) unfolding r if_not_P [OF False] by simp
  qed
qed

text \<open>Any schedule: a write that succeeds wrote everything, one that fails wrote a prefix.\<close>

lemma write_all_out:
  "ipc_write_all buf p = (r, q) \<Longrightarrow> \<exists>k. p_out q = p_out p @ take k buf \<and> p_in q = p_in p \<and> (r = Ok () \<longrightarrow> length buf \<le> k)"
proof (induction buf p rule: ipc_write_all.induct)
  case (1 buf p)
  show ?case
  proof (cases "buf = []")
    case True
    then show ?thesis using 1(3) by (subst (asm) ipc_write_all.simps) simp
  next
    case False
    obtain x q1 where k: "kernel_write buf p = (x, q1)" by (cases "kernel_write buf p")
    show ?thesis
    proof (cases x)
      case (Err e)
      have o: "p_out q1 = p_out p" "p_in q1 = p_in p" using k Err by (auto simp: kernel_write_def Let_def split: sum.splits)
      show ?thesis
      proof (cases "e = EINTR")
        case True
        have "ipc_write_all buf q1 = (r, q)" using 1(3) False k Err True by (subst (asm) ipc_write_all.simps) simp
        then show ?thesis using 1(2) [OF False k [symmetric] Err True] o by simp
      next
        case ne: False
        have "r \<noteq> Ok ()" "q = q1" using 1(3) False k Err ne by (subst (asm) ipc_write_all.simps; auto)+
        then show ?thesis using o by (intro exI [of _ 0]) simp
      qed
    next
      case (Ok n)
      have o: "p_out q1 = p_out p @ take n buf" "p_in q1 = p_in p" using k Ok by (auto simp: kernel_write_def Let_def split: sum.splits)
      show ?thesis
      proof (cases "n = 0")
        case True
        have "r \<noteq> Ok ()" "q = q1" using 1(3) False k Ok True by (subst (asm) ipc_write_all.simps; auto)+
        then show ?thesis using o True by (intro exI [of _ 0]) simp
      next
        case pos: False
        have "ipc_write_all (drop n buf) q1 = (r, q)" using 1(3) False k Ok pos by (subst (asm) ipc_write_all.simps) simp
        then obtain j where j: "p_out q = p_out q1 @ take j (drop n buf)" "p_in q = p_in q1" "r = Ok () \<longrightarrow> length (drop n buf) \<le> j"
          using 1(1) [OF False k [symmetric] Ok pos] by blast
        then show ?thesis using o by (intro exI [of _ "n + j"]) (auto simp: take_add)
      qed
    qed
  qed
qed

section \<open>Conversations\<close>

fun send_msgs :: "(u8 \<times> u8 list) list \<Rightarrow> pipe \<Rightarrow> unit res \<times> pipe" where
  "send_msgs [] p = (Ok (), p)"
| "send_msgs ((tag, payload) # ms) p = (case ipc_send tag payload p of
     (Ok _, q) \<Rightarrow> send_msgs ms q | (Err e, q) \<Rightarrow> (Err e, q))"

text \<open>Receive up to \<open>n\<close> frames, stopping at the end of the stream.\<close>

fun recv_msgs :: "nat \<Rightarrow> pipe \<Rightarrow> ((u8 \<times> u8 list) list \<times> bool) res option" where
  "recv_msgs 0 p = Some (Ok ([], False))"
| "recv_msgs (Suc n) p = (case ipc_recv p of
     None \<Rightarrow> None
   | Some (Err e, q) \<Rightarrow> Some (Err e)
   | Some (Ok None, q) \<Rightarrow> Some (Ok ([], True))
   | Some (Ok (Some m), q) \<Rightarrow> map_option (r_map (\<lambda>(ms, fin). (m # ms, fin))) (recv_msgs n q))"

lemma send_msgs_out:
  "send_msgs ms p = (Ok (), q) \<Longrightarrow> p_out q = p_out p @ concat (map (\<lambda>(t, b). frame t b) ms)"
proof (induction ms arbitrary: p)
  case (Cons m ms)
  obtain t b where m: "m = (t, b)" by (cases m)
  obtain q1 where 1: "ipc_send t b p = (Ok (), q1)" "send_msgs ms q1 = (Ok (), q)"
    using Cons.prems m by (auto split: prod.splits result.splits)
  then have "ipc_write_all (frame t b) p = (Ok (), q1)" by (auto simp: ipc_send_def split: if_splits)
  from write_all_out [OF this] have "p_out q1 = p_out p @ frame t b" by auto
  then show ?case using Cons.IH [OF 1(2)] m by simp
qed simp

lemma recv_eof:
  assumes "benign (p_sched p)" "p_closed p" "p_in p = []"
  shows "\<exists>q. ipc_recv p = Some (Ok None, q)"
  using read_loop_short [OF assms(1,2), of "[]" 5] assms(3) by (auto simp: ipc_recv_def read_exact_def)

lemma recv_msgs_frames:
  assumes "benign (p_sched p)" "p_closed p" "p_in p = concat (map (\<lambda>(t, b). frame t b) ms)"
    and "list_all (\<lambda>(t, b). length b \<le> 65536) ms" "length ms < n"
  shows "recv_msgs n p = Some (Ok (ms, True))"
  using assms
proof (induction ms arbitrary: p n)
  case Nil
  then obtain k where "n = Suc k" by (cases n) auto
  then show ?case using recv_eof [of p] Nil by auto
next
  case (Cons m ms)
  obtain t b where m: "m = (t, b)" by (cases m)
  obtain k where k: "n = Suc k" "length ms < k" using Cons.prems(5) by (cases n) auto
  obtain q where q: "ipc_recv p = Some (Ok (Some (t, b)), q)" "p_in q = concat (map (\<lambda>(t, b). frame t b) ms)"
      "p_closed q = p_closed p" "benign (p_sched q)"
    using recv_frame [OF Cons.prems(1), of t b "concat (map (\<lambda>(t, b). frame t b) ms)"] Cons.prems(3,4) m by auto
  then show ?case using Cons.IH [of q k] Cons.prems m k by simp
qed

text \<open>
  C8: the channel carries messages faithfully: when any list of messages of at most 64 KiB
  each has been sent, whatever the sender's writes were cut into, the receiver gets exactly
  those messages, in order, and then the clean end of the stream, however its own reads are
  cut into pieces or interrupted.
\<close>

theorem ipc_roundtrip:
  assumes "list_all (\<lambda>(t, b). length b \<le> 65536) ms" and "send_msgs ms a = (Ok (), a')" and "p_out a = []"
    and "p_in b = p_out a'" and "p_closed b" and "benign (p_sched b)"
  shows "recv_msgs (Suc (length ms)) b = Some (Ok (ms, True))"
  using recv_msgs_frames [OF assms(6,5) _ assms(1), of "Suc (length ms)"] send_msgs_out [OF assms(2)] assms(3,4) by simp

definition demo_a :: pipe where
  "demo_a = \<lparr>p_in = [], p_closed = False, p_out = [], p_sched = [Chunk 3, Intr, Chunk 1]\<rparr>"

theorem ipc_roundtrip_witness:
  "let ms = [(TAG_READY, []), (TAG_ERROR, [1, 2, 3])]; a' = snd (send_msgs ms demo_a)
   in fst (send_msgs ms demo_a) = Ok () \<and>
      recv_msgs 3 \<lparr>p_in = p_out a', p_closed = True, p_out = [], p_sched = [Chunk 2, Intr, Chunk 4, Chunk 1]\<rparr> = Some (Ok (ms, True))"
proof -
  let ?ms = "[(TAG_READY, []), (TAG_ERROR, [1, 2, 3])]"
  let ?b = "\<lparr>p_in = p_out (snd (send_msgs ?ms demo_a)), p_closed = True, p_out = [], p_sched = [Chunk 2, Intr, Chunk 4, Chunk 1]\<rparr>"
  have s: "fst (send_msgs ?ms demo_a) = Ok ()" by code_simp
  then have "send_msgs ?ms demo_a = (Ok (), snd (send_msgs ?ms demo_a))" by (metis prod.collapse)
  moreover have "list_all (\<lambda>(t, b). length b \<le> 65536) ?ms" "p_out demo_a = []" "benign (p_sched ?b)"
    by (simp_all add: demo_a_def benign_def)
  moreover have "Suc (length ?ms) = 3" by simp
  ultimately have "recv_msgs 3 ?b = Some (Ok (?ms, True))" using ipc_roundtrip [of ?ms demo_a _ ?b] by (metis pipe.select_convs(1,2))
  then show ?thesis using s unfolding Let_def by blast
qed

text \<open>
  C37: A message is never received in part: when the peer dies after sending only the first
  bytes of a frame, \<open>recv\<close> reports an error, and it reports the clean end of the stream
  exactly when not a single byte of the frame had been sent.
\<close>

theorem ipc_truncation:
  assumes "p_in p @ lost = frame tag payload" and "lost \<noteq> []" and "length payload \<le> 65536"
    and "p_closed p" and "benign (p_sched p)"
  shows "\<exists>r q. ipc_recv p = Some (r, q) \<and> (if p_in p = [] then r = Ok None else (\<exists>e. r = Err e))"
proof (cases "length (p_in p) < 5")
  case True
  then show ?thesis
    using read_loop_short [OF assms(5,4), of "[]" 5] by (auto simp: ipc_recv_def read_exact_def split: if_splits)
next
  case False
  let ?w = "of_nat (length payload) :: u32" let ?h = "[tag] @ le32 ?w" let ?part = "drop 5 (p_in p)"
  have l: "length ?h = 5" by simp
  have t: "take 5 (p_in p) = ?h" using arg_cong [OF assms(1), of "take 5"] False by (simp add: frame_def le32_def)
  have "?part @ lost = payload" using arg_cong [OF assms(1), of "drop 5"] False by (simp add: frame_def le32_def)
  then have short: "length ?part < length payload" using assms(2) by (metis length_append length_greater_0_conv less_add_same_cancel1)
  have "p_in p = ?h @ ?part" using t by (metis append_take_drop_id)
  then obtain q where q: "read_exact 5 p = Some (Ok (Some ?h), q)" "p_in q = ?part" "p_closed q" "benign (p_sched q)"
    using read_loop_benign [OF assms(5), of ?h ?part "[]" 5] l assms(4) by (auto simp: read_exact_def)
  note pl = payload_len [OF assms(3)]
  obtain r q' where r: "read_exact (unat ?w) q = Some (r, q')" "r = Ok None \<or> (\<exists>e. r = Err e)"
    using read_loop_short [OF q(4,3), of "[]" "length payload"] short q(2) pl(1) by (auto simp: read_exact_def split: if_splits)
  have w: "?w \<noteq> 0" using pl(1) short by auto
  have "\<exists>e. ipc_recv p = Some (Err e, q')"
    unfolding recv_header [OF q(1) pl(2)] r(1) if_not_P [OF w] using r(2) by auto
  then show ?thesis using False by auto
qed

theorem ipc_truncation_witness:
  "\<exists>e q. ipc_recv \<lparr>p_in = [TAG_ERROR, 3, 0, 0, 0, 7], p_closed = True, p_out = [], p_sched = [Chunk 1, Intr]\<rparr> = Some (Err e, q)"
proof -
  have "[TAG_ERROR, 3, 0, 0, 0, 7] @ [8, 9] = frame TAG_ERROR [7, 8, 9]" by code_simp
  then show ?thesis
    using ipc_truncation [of "\<lparr>p_in = [TAG_ERROR, 3, 0, 0, 0, 7], p_closed = True, p_out = [], p_sched = [Chunk 1, Intr]\<rparr>"
        "[8, 9]" TAG_ERROR "[7, 8, 9]"] by (auto simp: benign_def)
qed

section \<open>What the supervisor sees\<close>

lemma lossy_fuel_valid: "utf8_valid s \<Longrightarrow> length s \<le> n \<Longrightarrow> lossy_fuel n s = s"
proof (induction n arbitrary: s)
  case (Suc n)
  show ?case
  proof (cases s)
    case (Cons c r)
    then have v: "utf8_len s \<noteq> 0" "utf8_valid (drop (utf8_len s) s)" using Suc.prems(1) utf8_valid_Cons [of c r] by auto
    have "length (drop (utf8_len s) s) \<le> n" using v(1) Suc.prems(2) by simp
    then show ?thesis using v Suc.IH Cons by simp
  qed simp
qed simp

lemma lossy_valid: "utf8_valid s \<Longrightarrow> from_utf8_lossy (bytes_of s) = s"
  using lossy_fuel_valid [of s "length s"] by (simp add: from_utf8_lossy_def)

lemma send_error_short:
  assumes "length msg \<le> 65536"
  shows "send_error msg = ipc_send TAG_ERROR (bytes_of msg)"
proof -
  have "unat MAX_PAYLOAD = 65536" by (simp add: MAX_PAYLOAD_def)
  then show ?thesis using assms by (simp add: send_error_def)
qed

text \<open>
  C40: An error inside the container reaches the user as it was written: when init sends an
  error message of at most 64 KiB and nothing before it, a supervisor that waits for any
  other message fails with exactly that text, whatever the transfer was cut into.
\<close>

theorem expect_reports_error:
  assumes "send_error msg a = (Ok (), a')" and "p_out a = []" and "length msg \<le> 65536" and "utf8_valid msg"
    and "p_in b = p_out a' @ rest" and "benign (p_sched b)" and "want \<noteq> TAG_ERROR"
  shows "\<exists>q. ipc_expect want b = Some (Err (Container msg), q) \<and> p_in q = rest"
proof -
  have l: "length (bytes_of msg) \<le> 65536" using assms(3) by (simp add: bytes_of_def)
  have "send_msgs [(TAG_ERROR, bytes_of msg)] a = (Ok (), a')"
    using assms(1) by (simp add: send_error_short [OF assms(3)])
  from send_msgs_out [OF this] have "p_in b = frame TAG_ERROR (bytes_of msg) @ rest" using assms(2,5) by simp
  from recv_frame [OF assms(6) this l] show ?thesis
    using assms(7) lossy_valid [OF assms(4)] by (auto simp: ipc_expect_def)
qed

theorem expect_reports_error_witness:
  "\<exists>q. ipc_expect TAG_STARTED \<lparr>p_in = p_out (snd (send_error ''no rootfs'' demo_a)), p_closed = True, p_out = [],
      p_sched = [Chunk 4, Intr]\<rparr> = Some (Err (Container ''no rootfs''), q) \<and> p_in q = []"
proof -
  let ?b = "\<lparr>p_in = p_out (snd (send_error ''no rootfs'' demo_a)), p_closed = True, p_out = [], p_sched = [Chunk 4, Intr]\<rparr>"
  have "fst (ipc_send TAG_ERROR (bytes_of ''no rootfs'') demo_a) = Ok ()" by code_simp
  then have "fst (send_error ''no rootfs'' demo_a) = Ok ()" by (simp add: send_error_short)
  then have s: "send_error ''no rootfs'' demo_a = (Ok (), snd (send_error ''no rootfs'' demo_a))" by (metis prod.collapse)
  have "utf8_valid ''no rootfs''" "TAG_STARTED \<noteq> TAG_ERROR" by code_simp+
  then show ?thesis
    using expect_reports_error [OF s, of ?b "[]" TAG_STARTED] by (simp add: demo_a_def benign_def)
qed

text \<open>
  The exit payload decodes to the code and the signal that were sent, and a payload that
  is too short is refused.
\<close>

theorem exit_payload_roundtrip:
  "parse_exit (le32 code @ le32 signal) = Some (code, signal) \<and>
   (parse_exit b = None \<longleftrightarrow> length b < 8)"
  by (simp add: parse_exit_def le32_def)

end
