(* ===== verification/Kernel.thy ===== *)
theory Kernel
  imports Ipc Store_Laws Seccomp
begin

text \<open>
  The machine the runtime drives.  The kernel, and the \<open>iptables\<close> program, are not part of the
  sources: they are an unknown function \<open>w_answer\<close> that answers each call, given all calls
  made so far with their answers.  So an answer may depend on everything that happened before,
  calls may fail at any time, and every statement about all worlds holds for every kernel.
  The calls made are kept in \<open>w_log\<close>.  Regular files of the runtime are in \<open>w_fs\<close>, the
  supervisor's end of the channel in \<open>w_chan\<close>, the environment variables in \<open>w_env\<close>.
\<close>

section \<open>Calls and answers\<close>

text \<open>Descriptors, processes, mounts, and the calls that confine a process.\<close>

datatype fd_call =
    FOpen string u32 | FClose int | FDupFd int | FDup2 int int | FMemfd | FWrite int string | FRead int nat
  | FSeal int | FSocketpair | FPipe | FGetfd int | FSetfd int i32 | FCloseRange int

text \<open>
  What a cloned process finds in the memory it shares with its parent and uses until it executes
  a program: the signal it asks for when its parent dies, the two descriptors it keeps, and the
  arguments and the environment of that program.  It is part of the clone calls here, since
  nothing else tells what the new process does.
\<close>

record child_start =
  im_pdeathsig :: "i32 option"
  im_sync_high :: int
  im_exe_high :: int
  im_argv :: "string list"
  im_envp :: "string list"

text \<open>\<open>PClone3\<close> has the flags, the exit signal and the group; \<open>PClone\<close> the flags.\<close>

datatype proc_call =
    PFork | PClone3 u64 i32 "int option" child_start | PClone u64 child_start | PGetpid | PSetsid | PExec string "string list" "string list"
  | PExecFd int "string list" "string list" | PExit i32 | PSetns int int | PUnshare u64 | PDeathsig i32
  | PPidfdOpen i32 | PPidfdSignal int i32 | PName string | PSysconf int

datatype mount_call =
    MMount "string option" string "string option" u64 "string option" | MUmount string int
  | MPivot string string | MChdir string | MMkdir string nat | MSymlink string string
  | MMknod string nat nat nat | MTouch string

datatype sec_call =
    SHostname string | SNoNewPrivs | SGetNoNewPrivs | SAmbientClear | SBoundDrop u8
  | SCapset "u32 \<times> u32 \<times> u32" "u32 \<times> u32 \<times> u32" | SCapget | SSeccomp "sock_filter list"
  | SGroups | SGid u32 | SUid u32 | SBlock "i32 list" | SSignalFd "i32 list" | SNextSignal int | SPoll int int | SPollChan int int
  | SSetMask "i32 list" | SDefault i32 | SRlimit int u64 u64 | SGetRlimit int | SBoundRead u8

datatype kcall =
    KRead string
  | KWrite string string
  | KMkdir string
  | KMkdirAll string
  | KRmdir string
  | KUnlink string
  | KStat string
  | KLstat string
  | KReadDir string
  | KKill i32 i32
  | KWait i32 i32
  | KSleep nat
  | KNow
  | KRun string "string list"
  | KReadlink string
  | KNlOpen
  | KNlBind
  | KSend u8
  | KRecv u8
  | KNetlink "u8 list"
  | KIfIndex string
  | KFd fd_call
  | KProc proc_call
  | KMnt mount_call
  | KSec sec_call

text \<open>
  An answer of another kind than the call asks for does not occur; the wrappers below treat it
  as a failure with \<open>EIO\<close>.  \<open>RStat\<close> tells directories from other files and executable ones from
  others, \<open>RWait\<close> lists the outcomes of successive \<open>waitpid\<close> calls, \<open>RExit\<close> is an exit by a program:
  success, standard output and standard error, \<open>RPackets\<close> an error of \<open>send\<close> or the outcomes of
  \<open>recv\<close>.  \<open>SPollChan\<close> waits for a descriptor and the channel; its answer \<open>RFds\<close> gives the events of both.
\<close>

datatype reply =
    RFail int
  | RDone
  | RData string
  | RNames "string list"
  | RStat bool bool
  | RNum int
  | RFds int int
  | RCaps u64 u64 u64
  | RExit bool string string
  | RWait "(int + i32 \<times> i32) list"
  | RPackets "int + (int + u8 list) list"

fun failed :: "reply \<Rightarrow> bool" where
  "failed (RFail _) = True"
| "failed _ = False"

type_synonym klog = "(kcall \<times> reply) list"

record world =
  w_fs :: fs
  w_chan :: pipe
  w_env :: "string \<Rightarrow> string option"
  w_log :: klog
  w_answer :: "klog \<Rightarrow> kcall \<Rightarrow> reply"
  w_others :: "klog \<Rightarrow> fs \<Rightarrow> fs"
  w_held :: "klog \<Rightarrow> string \<Rightarrow> bool"

text \<open>An operation: \<open>None\<close> where the code panics or never returns.\<close>

type_synonym 'a act = "world \<Rightarrow> ('a res \<times> world) option"

definition k_call :: "kcall \<Rightarrow> world \<Rightarrow> reply \<times> world" where
  "k_call c w = (let r = w_answer w (w_log w) c in (r, w\<lparr>w_log := w_log w @ [(c, r)]\<rparr>))"

section \<open>Combining operations\<close>

definition w_ok :: "'a \<Rightarrow> 'a act" where
  "w_ok x w = Some (Ok x, w)"

definition w_err :: "error \<Rightarrow> 'a act" where
  "w_err e w = Some (Err e, w)"

definition w_bind :: "'a act \<Rightarrow> ('a \<Rightarrow> 'b act) \<Rightarrow> 'b act" where
  "w_bind m f w = (case m w of
      None \<Rightarrow> None
    | Some (Err e, w') \<Rightarrow> Some (Err e, w')
    | Some (Ok x, w') \<Rightarrow> f x w')"

text \<open>The result of \<open>m\<close> as a value: \<open>match m { Ok .. Err .. }\<close>, \<open>let _ = m\<close>.\<close>

definition w_try :: "'a act \<Rightarrow> ('a res \<Rightarrow> 'b act) \<Rightarrow> 'b act" where
  "w_try m f w = (case m w of None \<Rightarrow> None | Some (r, w') \<Rightarrow> f r w')"

definition w_lift :: "'a res \<Rightarrow> 'a act" where
  "w_lift r w = Some (r, w)"

definition w_map_err :: "(error \<Rightarrow> error) \<Rightarrow> 'a act \<Rightarrow> 'a act" where
  "w_map_err g m = w_try m (\<lambda>r. w_lift (r_map_err g r))"

definition w_call :: "kcall \<Rightarrow> (reply \<Rightarrow> 'a act) \<Rightarrow> 'a act" where
  "w_call c f w = (case k_call c w of (r, w') \<Rightarrow> f r w')"

definition w_get :: "(world \<Rightarrow> 'a act) \<Rightarrow> 'a act" where
  "w_get f w = f w w"

definition on_fs :: "'a io \<Rightarrow> 'a act" where
  "on_fs m w = (case m (w_fs w) of (r, s) \<Rightarrow> Some (r, w\<lparr>w_fs := s\<rparr>))"

text \<open>
  \<open>flock(LOCK_EX)\<close> waits for the lock.  \<open>w_held\<close> tells which locks are held by a process that
  never lets them go: there an operation \<open>m\<close> that begins by taking the lock on \<open>p\<close>, as \<open>guard\<close>
  does, never returns once its \<open>open\<close> has succeeded.
\<close>

definition with_lock :: "string \<Rightarrow> unit io \<Rightarrow> 'a io \<Rightarrow> 'a act" where
  "with_lock p guard m w = (case guard (w_fs w) of
      (Ok _, _) \<Rightarrow> if w_held w (w_log w) p then None else on_fs m w
    | (Err _, _) \<Rightarrow> on_fs m w)"

fun w_mapM :: "('a \<Rightarrow> 'b act) \<Rightarrow> 'a list \<Rightarrow> 'b list act" where
  "w_mapM f [] = w_ok []"
| "w_mapM f (x # xs) = w_bind (f x) (\<lambda>y. w_bind (w_mapM f xs) (\<lambda>ys. w_ok (y # ys)))"

fun w_each :: "('a \<Rightarrow> unit act) \<Rightarrow> 'a list \<Rightarrow> unit act" where
  "w_each f [] = w_ok ()"
| "w_each f (x # xs) = w_bind (f x) (\<lambda>_. w_each f xs)"

fun w_fold :: "('a \<Rightarrow> 'b \<Rightarrow> 'b act) \<Rightarrow> 'a list \<Rightarrow> 'b \<Rightarrow> 'b act" where
  "w_fold f [] b = w_ok b"
| "w_fold f (x # xs) b = w_bind (f x b) (w_fold f xs)"

text \<open>\<open>let _ = m\<close>: whatever the outcome.\<close>

definition w_ignore :: "'a act \<Rightarrow> unit act" where
  "w_ignore m = w_try m (\<lambda>_. w_ok ())"

definition w_fault :: "string \<Rightarrow> unit act" where
  "w_fault point = w_get (\<lambda>w. w_lift (fault_check (w_env w ''MYRUN_FAULT'') point))"

section \<open>Wrappers\<close>

definition EIO :: int where "EIO = 5"

fun reply_unit :: "reply \<Rightarrow> (unit, int) result" where
  "reply_unit (RFail e) = Err e"
| "reply_unit _ = Ok ()"

fun reply_data :: "reply \<Rightarrow> (string, int) result" where
  "reply_data (RFail e) = Err e"
| "reply_data (RData d) = Ok d"
| "reply_data _ = Err EIO"

fun reply_names :: "reply \<Rightarrow> (string list, int) result" where
  "reply_names (RFail e) = Err e"
| "reply_names (RNames d) = Ok d"
| "reply_names _ = Err EIO"

fun reply_num :: "reply \<Rightarrow> (int, int) result" where
  "reply_num (RFail e) = Err e"
| "reply_num (RNum n) = Ok n"
| "reply_num _ = Err EIO"

text \<open>A call whose failure is turned into an error: \<open>chk\<close> of \<open>sys/mod.rs\<close>.\<close>

definition w_sys :: "kcall \<Rightarrow> (reply \<Rightarrow> ('a, int) result) \<Rightarrow> (world \<Rightarrow> int \<Rightarrow> error) \<Rightarrow> 'a act" where
  "w_sys c dec conv = w_call c (\<lambda>r. w_get (\<lambda>w. w_lift (r_map_err (conv w) (dec r))))"

definition chk :: "string \<Rightarrow> string \<Rightarrow> world \<Rightarrow> int \<Rightarrow> error" where
  "chk name context w e = Syscall name e context"

text \<open>\<open>util::read_to_string\<close>, \<open>read_trimmed\<close> and \<open>write_file\<close> on files of the kernel.\<close>

definition k_read_to_string :: "string \<Rightarrow> string act" where
  "k_read_to_string p = w_bind (w_sys (KRead p) reply_data (chk ''read'' p)) (\<lambda>c.
     if utf8_valid c then w_ok c else w_err (Io (p @ '': stream did not contain valid UTF-8'')))"

definition read_trimmed :: "string \<Rightarrow> string act" where
  "read_trimmed p = w_bind (k_read_to_string p) (\<lambda>c. w_ok (str_trim c))"

definition k_write_file :: "string \<Rightarrow> string \<Rightarrow> unit act" where
  "k_write_file p d = w_sys (KWrite p d) reply_unit (chk ''write'' p)"

text \<open>\<open>Path::exists\<close> and \<open>Path::is_dir\<close>.\<close>

definition k_exists :: "string \<Rightarrow> bool act" where
  "k_exists p = w_call (KStat p) (\<lambda>r. w_ok (case r of RStat _ _ \<Rightarrow> True | _ \<Rightarrow> False))"

definition k_is_dir :: "string \<Rightarrow> bool act" where
  "k_is_dir p = w_call (KStat p) (\<lambda>r. w_ok (case r of RStat d _ \<Rightarrow> d | _ \<Rightarrow> False))"

text \<open>While this process sleeps, others (the shim of a container) may change the files.\<close>

definition w_interfere :: "unit act" where
  "w_interfere w = Some (Ok (), w\<lparr>w_fs := w_others w (w_log w) (w_fs w)\<rparr>)"

definition k_sleep :: "nat \<Rightarrow> unit act" where
  "k_sleep ms = w_call (KSleep ms) (\<lambda>_. w_interfere)"

definition kill_pid :: "i32 \<Rightarrow> i32 \<Rightarrow> unit act" where
  "kill_pid pid sig = w_sys (KKill pid sig) reply_unit
     (chk ''kill'' (''pid '' @ show_int (sint pid) @ '' signal '' @ show_int (sint sig)))"

definition SIGKILL :: i32 where "SIGKILL = 9"
definition SIGTERM :: i32 where "SIGTERM = 15"
definition SIGCHLD :: i32 where "SIGCHLD = 17"
definition EBUSY :: int where "EBUSY = 16"

text \<open>The text of an \<open>io::Error\<close>.\<close>

definition io_text :: "world \<Rightarrow> int \<Rightarrow> string" where
  "io_text w e = os_error_text (w_fs w) e"

text \<open>
  The supervisor's end of the channel.  The contents travel through \<open>w_chan\<close>; the log only notes
  that a message was sent or awaited, so that its place among the calls can be told.
\<close>

definition w_chan_op :: "kcall \<Rightarrow> (pipe \<Rightarrow> ('a res \<times> pipe) option) \<Rightarrow> 'a act" where
  "w_chan_op c f w = (case f (w_chan w) of
      None \<Rightarrow> None
    | Some (r, p) \<Rightarrow> Some (r, w\<lparr>w_chan := p,
        w_log := w_log w @ [(c, case r of Ok _ \<Rightarrow> RDone | Err _ \<Rightarrow> RFail EIO)]\<rparr>))"

definition w_send :: "u8 \<Rightarrow> unit act" where
  "w_send tag = w_chan_op (KSend tag) (\<lambda>p. Some (send_tag tag p))"

definition w_expect :: "u8 \<Rightarrow> u8 list act" where
  "w_expect tag = w_chan_op (KRecv tag) (ipc_expect tag)"

definition w_recv :: "(u8 \<times> u8 list) option act" where
  "w_recv = w_chan_op (KRecv 0) ipc_recv"

section \<open>What every operation keeps\<close>

text \<open>
  Nothing is forgotten: the log grows at its end, the environment and the kernel stay.
\<close>

definition later :: "world \<Rightarrow> world \<Rightarrow> bool" where
  "later w w' \<longleftrightarrow> (\<exists>t. w_log w' = w_log w @ t) \<and> w_env w' = w_env w \<and> w_answer w' = w_answer w \<and>
     w_others w' = w_others w \<and> w_held w' = w_held w"

text \<open>The calls made between two worlds.\<close>

definition since :: "world \<Rightarrow> world \<Rightarrow> klog" where
  "since w w' = drop (length (w_log w)) (w_log w')"

text \<open>
  \<open>makes P m\<close>: the operation only adds to the log, and every call it makes satisfies \<open>P\<close>.
\<close>

definition makes :: "(kcall \<Rightarrow> bool) \<Rightarrow> 'a act \<Rightarrow> bool" where
  "makes P m \<longleftrightarrow> (\<forall>w r w'. m w = Some (r, w') \<longrightarrow> later w w' \<and> (\<forall>e \<in> set (since w w'). P (fst e)))"

abbreviation forward :: "'a act \<Rightarrow> bool" where
  "forward m \<equiv> makes (\<lambda>_. True) m"

named_theorems forward_intros "which calls operations make"

lemma later_refl [simp]: "later w w"
  by (simp add: later_def)

lemma later_trans: "later u v \<Longrightarrow> later v w \<Longrightarrow> later u w"
  by (auto simp: later_def)

lemma later_since: "later w w' \<Longrightarrow> w_log w' = w_log w @ since w w'"
  by (auto simp: later_def since_def)

lemma since_trans: "later u v \<Longrightarrow> later v w \<Longrightarrow> since u w = since u v @ since v w"
  by (auto simp: later_def since_def)

lemma since_refl [simp]: "since w w = []"
  by (simp add: since_def)

lemma later_log: "later w w' \<Longrightarrow> e \<in> set (w_log w) \<Longrightarrow> e \<in> set (w_log w')"
  by (auto simp: later_def)

lemma laterI: "m w = Some (r, w') \<Longrightarrow> forward m \<Longrightarrow> later w w'"
  by (auto simp: makes_def)

lemma makesD: "makes P m \<Longrightarrow> m w = Some (r, w') \<Longrightarrow> (c, x) \<in> set (since w w') \<Longrightarrow> P c"
  by (fastforce simp: makes_def)

lemma makes_later: "makes P m \<Longrightarrow> m w = Some (r, w') \<Longrightarrow> later w w'"
  by (auto simp: makes_def)

lemma makes_mono: "makes P m \<Longrightarrow> (\<And>c. P c \<Longrightarrow> Q c) \<Longrightarrow> makes Q m"
  by (auto simp: makes_def)

lemma makes_forward: "makes P m \<Longrightarrow> forward m"
  by (auto simp: makes_def)

lemma makes_steps:
  assumes "later u v" "\<forall>e \<in> set (since u v). P (fst e)" "later v w" "\<forall>e \<in> set (since v w). P (fst e)"
  shows "later u w \<and> (\<forall>e \<in> set (since u w). P (fst e))"
  using assms since_trans [of u v w] later_trans [of u v w] by auto

lemma makes_ok [forward_intros]: "makes P (w_ok x)"
  by (simp add: makes_def w_ok_def)

lemma makes_err [forward_intros]: "makes P (w_err e)"
  by (simp add: makes_def w_err_def)

lemma makes_lift [forward_intros]: "makes P (w_lift r)"
  by (simp add: makes_def w_lift_def)

lemma makes_seq:
  assumes "makes P m" "m w = Some (x, u)" "makes P n" "n u = Some (r, w')"
  shows "later w w' \<and> (\<forall>e \<in> set (since w w'). P (fst e))"
  using assms unfolding makes_def by (intro makes_steps [of w u]) blast+

lemma makes_try [forward_intros]:
  assumes "makes P m" "\<And>r. makes P (f r)"
  shows "makes P (w_try m f)"
  unfolding makes_def
proof (intro allI impI)
  fix w r w' assume "w_try m f w = Some (r, w')"
  then obtain x u where "m w = Some (x, u)" "f x u = Some (r, w')"
    by (auto simp: w_try_def split: option.splits)
  then show "later w w' \<and> (\<forall>e \<in> set (since w w'). P (fst e))" using makes_seq assms by blast
qed

lemma w_bind_try: "w_bind m f = w_try m (\<lambda>r. case r of Ok x \<Rightarrow> f x | Err e \<Rightarrow> w_err e)"
  by (rule ext) (auto simp: w_bind_def w_try_def w_err_def split: option.splits result.splits)

lemma makes_bind [forward_intros]: "makes P m \<Longrightarrow> (\<And>x. makes P (f x)) \<Longrightarrow> makes P (w_bind m f)"
  unfolding w_bind_try by (intro makes_try) (auto intro: makes_err split: result.splits)

lemma makes_get [forward_intros]: "(\<And>w. makes P (f w)) \<Longrightarrow> makes P (w_get f)"
  by (simp add: makes_def w_get_def)

lemma makes_map_err [forward_intros]: "makes P m \<Longrightarrow> makes P (w_map_err g m)"
  unfolding w_map_err_def by (intro forward_intros)

lemma makes_ignore [forward_intros]: "makes P m \<Longrightarrow> makes P (w_ignore m)"
  unfolding w_ignore_def by (intro forward_intros)

lemma call_since: "k_call c w = (r, w') \<Longrightarrow> later w w' \<and> since w w' = [(c, r)]"
  by (auto simp: k_call_def later_def since_def Let_def)

lemma makes_call [forward_intros]:
  assumes "P c" "\<And>r. makes P (f r)"
  shows "makes P (w_call c f)"
  unfolding makes_def
proof (intro allI impI)
  fix w r w' assume a: "w_call c f w = Some (r, w')"
  obtain x u where u: "k_call c w = (x, u)" by (cases "k_call c w")
  have "f x u = Some (r, w')" using a by (simp add: w_call_def u)
  then have "later u w'" "\<forall>e \<in> set (since u w'). P (fst e)" using assms(2) unfolding makes_def by blast+
  then show "later w w' \<and> (\<forall>e \<in> set (since w w'). P (fst e))"
    using call_since [OF u] assms(1) by (intro makes_steps) auto
qed

lemma makes_sys [forward_intros]: "P c \<Longrightarrow> makes P (w_sys c d e)"
  unfolding w_sys_def by (intro forward_intros)

lemma makes_fs [forward_intros]: "makes P (on_fs m)" "makes P (with_lock p g m)"
  by (auto simp: makes_def on_fs_def with_lock_def later_def since_def split: prod.splits result.splits if_splits)

lemma makes_chan: "P c \<Longrightarrow> makes P (w_chan_op c f)"
  by (auto simp: makes_def w_chan_op_def later_def since_def split: option.splits)

lemma makes_channel [forward_intros]:
  "P (KSend t) \<Longrightarrow> makes P (w_send t)" "P (KRecv t) \<Longrightarrow> makes P (w_expect t)" "P (KRecv 0) \<Longrightarrow> makes P w_recv"
  unfolding w_send_def w_expect_def w_recv_def by (rule makes_chan; assumption)+

lemma makes_interfere [forward_intros]: "makes P w_interfere"
  by (simp add: makes_def w_interfere_def later_def since_def)

lemma makes_mapM [forward_intros]: "(\<And>x. makes P (f x)) \<Longrightarrow> makes P (w_mapM f xs)"
  by (induction xs) (auto intro!: forward_intros)

lemma makes_each [forward_intros]: "(\<And>x. makes P (f x)) \<Longrightarrow> makes P (w_each f xs)"
  by (induction xs) (auto intro!: forward_intros)

lemma makes_fold [forward_intros]: "(\<And>x b. makes P (f x b)) \<Longrightarrow> makes P (w_fold f xs b)"
  by (induction xs arbitrary: b) (auto intro!: forward_intros)

lemma makes_if [forward_intros]: "makes P a \<Longrightarrow> makes P b \<Longrightarrow> makes P (if c then a else b)"
  by simp

lemma makes_option [forward_intros]:
  "makes P a \<Longrightarrow> (\<And>x. makes P (b x)) \<Longrightarrow> makes P (case z of None \<Rightarrow> a | Some x \<Rightarrow> b x)"
  by (cases z) auto

lemma makes_result [forward_intros]:
  "(\<And>x. makes P (a x)) \<Longrightarrow> (\<And>e. makes P (b e)) \<Longrightarrow> makes P (case z of Ok x \<Rightarrow> a x | Err e \<Rightarrow> b e)"
  by (cases z) auto

lemma makes_prod [forward_intros]: "(\<And>x y. makes P (f x y)) \<Longrightarrow> makes P (case z of (x, y) \<Rightarrow> f x y)"
  by (cases z) auto

lemmas [forward_intros] = TrueI

lemma makes_wrappers [forward_intros]:
  "makes P (w_fault p)"
  "P (KRead f) \<Longrightarrow> makes P (k_read_to_string f)"
  "P (KRead f) \<Longrightarrow> makes P (read_trimmed f)"
  "P (KWrite f d) \<Longrightarrow> makes P (k_write_file f d)"
  "P (KStat f) \<Longrightarrow> makes P (k_exists f)"
  "P (KStat f) \<Longrightarrow> makes P (k_is_dir f)"
  "P (KSleep n) \<Longrightarrow> makes P (k_sleep n)"
  "P (KKill i s) \<Longrightarrow> makes P (kill_pid i s)"
  unfolding w_fault_def k_read_to_string_def read_trimmed_def k_write_file_def k_exists_def k_is_dir_def
    k_sleep_def kill_pid_def
  by (intro forward_intros; assumption)+

section \<open>Operations that always return\<close>

definition returns :: "'a act \<Rightarrow> bool" where
  "returns m \<longleftrightarrow> (\<forall>w. m w \<noteq> None)"

named_theorems returns_intros "operations that always return"

lemma returnsD: "returns m \<Longrightarrow> \<exists>r w'. m w = Some (r, w')"
  by (fastforce simp: returns_def)

lemma returns_basic [returns_intros]:
  "returns (w_ok x)" "returns (w_err e)" "returns (w_lift r)" "returns (on_fs m)" "returns w_interfere"
  by (simp_all add: returns_def w_interfere_def w_ok_def w_err_def w_lift_def on_fs_def split: prod.splits)

lemma returns_try [returns_intros]: "returns m \<Longrightarrow> (\<And>r. returns (f r)) \<Longrightarrow> returns (w_try m f)"
  by (auto simp: returns_def w_try_def split: option.splits)

lemma returns_bind [returns_intros]: "returns m \<Longrightarrow> (\<And>x. returns (f x)) \<Longrightarrow> returns (w_bind m f)"
  unfolding w_bind_try by (intro returns_try) (auto intro: returns_intros split: result.splits)

lemma returns_get [returns_intros]: "(\<And>w. returns (f w)) \<Longrightarrow> returns (w_get f)"
  by (simp add: returns_def w_get_def)

lemma returns_call [returns_intros]: "(\<And>r. returns (f r)) \<Longrightarrow> returns (w_call c f)"
  by (simp add: returns_def w_call_def split: prod.splits)

lemma returns_derived [returns_intros]:
  "returns m \<Longrightarrow> returns (w_map_err g m)" "returns m \<Longrightarrow> returns (w_ignore m)" "returns (w_sys c d e)"
  unfolding w_map_err_def w_ignore_def w_sys_def by (intro returns_intros; assumption)+

lemma returns_each [returns_intros]: "(\<And>x. returns (f x)) \<Longrightarrow> returns (w_each f xs)"
  by (induction xs) (auto intro!: returns_intros)

lemma returns_fold [returns_intros]: "(\<And>x b. returns (f x b)) \<Longrightarrow> returns (w_fold f xs b)"
  by (induction xs arbitrary: b) (auto intro!: returns_intros)

lemma returns_cases [returns_intros]:
  "returns a \<Longrightarrow> returns b \<Longrightarrow> returns (if c then a else b)"
  "returns a \<Longrightarrow> (\<And>x. returns (g x)) \<Longrightarrow> returns (case z of None \<Rightarrow> a | Some x \<Rightarrow> g x)"
  "(\<And>x. returns (g x)) \<Longrightarrow> (\<And>e. returns (h e)) \<Longrightarrow> returns (case y of Ok x \<Rightarrow> g x | Err e \<Rightarrow> h e)"
  by (simp, cases z, auto, cases y, auto)

lemma returns_wrappers [returns_intros]:
  "returns (w_fault p)" "returns (k_read_to_string f)" "returns (read_trimmed f)" "returns (k_write_file f d)"
  "returns (k_exists f)" "returns (k_is_dir f)" "returns (k_sleep n)" "returns (kill_pid i s)"
  unfolding w_fault_def k_read_to_string_def read_trimmed_def k_write_file_def k_exists_def k_is_dir_def
    k_sleep_def kill_pid_def
  by (intro returns_intros)+

section \<open>Inversion\<close>

named_theorems w_simps "inversion of operations"

lemma w_bind_Ok [w_simps]:
  "w_bind m f w = Some (Ok y, v) \<longleftrightarrow> (\<exists>x u. m w = Some (Ok x, u) \<and> f x u = Some (Ok y, v))"
  by (auto simp: w_bind_def split: option.splits prod.splits result.splits)

lemma w_bind_Err [w_simps]:
  "w_bind m f w = Some (Err e, v) \<longleftrightarrow>
     m w = Some (Err e, v) \<or> (\<exists>x u. m w = Some (Ok x, u) \<and> f x u = Some (Err e, v))"
  by (auto simp: w_bind_def split: option.splits prod.splits result.splits)

lemma w_bind_None [w_simps]:
  "w_bind m f w = None \<longleftrightarrow> m w = None \<or> (\<exists>x u. m w = Some (Ok x, u) \<and> f x u = None)"
  by (auto simp: w_bind_def split: option.splits prod.splits result.splits)

lemma w_try_Some [w_simps]:
  "w_try m f w = Some y \<longleftrightarrow> (\<exists>r u. m w = Some (r, u) \<and> f r u = Some y)"
  by (auto simp: w_try_def split: option.splits prod.splits)

lemma w_try_None [w_simps]: "w_try m f w = None \<longleftrightarrow> m w = None \<or> (\<exists>r u. m w = Some (r, u) \<and> f r u = None)"
  by (auto simp: w_try_def split: option.splits prod.splits)

lemma w_simple [w_simps]:
  "w_ok x w = z \<longleftrightarrow> z = Some (Ok x, w)" "w_err e w = y \<longleftrightarrow> y = Some (Err e, w)"
  "w_lift r w = t \<longleftrightarrow> Some (r, w) = t" "w_get g w = g w w"
  by (auto simp: w_ok_def w_err_def w_lift_def w_get_def)

lemma never_Err [w_simps]:
  "k_exists p w \<noteq> Some (Err e, v)" "k_is_dir p w \<noteq> Some (Err e, v)" "w_ignore m w \<noteq> Some (Err e, v)"
  "k_sleep n w \<noteq> Some (Err e, v)"
  by (auto simp: k_exists_def k_is_dir_def w_ignore_def k_sleep_def w_call_def w_simps w_interfere_def split: prod.splits)

lemma k_exists_Ok: "\<exists>b v. k_exists p w = Some (Ok b, v)"
  by (simp add: k_exists_def w_call_def w_ok_def split: prod.splits)

lemma w_map_err_Ok [w_simps]: "w_map_err g m w = Some (Ok x, v) \<longleftrightarrow> m w = Some (Ok x, v)"
  by (auto simp: w_map_err_def w_simps)

text \<open>A call that succeeded.\<close>

definition succeeded :: "kcall \<Rightarrow> klog \<Rightarrow> bool" where
  "succeeded c t \<longleftrightarrow> (\<exists>r. (c, r) \<in> set t \<and> \<not> failed r)"

lemma succeeded_append [simp]: "succeeded c (s @ t) \<longleftrightarrow> succeeded c s \<or> succeeded c t"
  by (auto simp: succeeded_def)

lemma w_sys_since:
  assumes "w_sys c dec conv w = Some (x, w')"
  shows "since w w' = [(c, w_answer w (w_log w) c)] \<and> x = r_map_err (conv w') (dec (w_answer w (w_log w) c))"
  using assms by (auto simp: w_sys_def w_call_def k_call_def Let_def w_simps since_def split: prod.splits)

lemma w_sys_succeeded:
  assumes "w_sys c dec conv w = Some (Ok x, w')" "\<And>e. dec (RFail e) = Err e"
  shows "succeeded c (since w w')"
proof -
  let ?r = "w_answer w (w_log w) c"
  have "since w w' = [(c, ?r)]" "dec ?r = Ok x" using w_sys_since [OF assms(1)] by (auto simp: eq_commute [of "Ok x"])
  then show ?thesis using assms(2) by (cases ?r) (auto simp: succeeded_def)
qed

lemma w_sys_unit:
  assumes "w_sys c reply_unit conv w = Some (Ok x, w')"
  shows "since w w' = [(c, w_answer w (w_log w) c)]" "\<not> failed (w_answer w (w_log w) c)"
  using w_sys_since [OF assms] by (cases "w_answer w (w_log w) c"; simp)+

text \<open>Whenever \<open>m\<close> returns \<open>Ok\<close>, it has performed \<open>c\<close>.\<close>

definition ensures :: "'a act \<Rightarrow> kcall \<Rightarrow> bool" where
  "ensures m c \<longleftrightarrow> (\<forall>w y w'. m w = Some (Ok y, w') \<longrightarrow> succeeded c (since w w'))"

lemma bind_since:
  assumes "w_bind m f w = Some (Ok y, w')" "forward m" "\<And>x. forward (f x)"
  obtains x u where "m w = Some (Ok x, u)" "f x u = Some (Ok y, w')" "later w u" "later u w'"
    "since w w' = since w u @ since u w'"
  using assms by (auto simp: w_bind_Ok) (metis laterI since_trans)

lemma ensures_bind1: "ensures m c \<Longrightarrow> forward m \<Longrightarrow> (\<And>x. forward (f x)) \<Longrightarrow> ensures (w_bind m f) c"
  unfolding ensures_def by (metis bind_since succeeded_append)

lemma ensures_bind2: "(\<And>x. ensures (f x) c) \<Longrightarrow> forward m \<Longrightarrow> (\<And>x. forward (f x)) \<Longrightarrow> ensures (w_bind m f) c"
  unfolding ensures_def by (metis bind_since succeeded_append)

text \<open>What an \<open>Ok\<close> result satisfies, given the environment variables.\<close>

definition yields :: "(string \<Rightarrow> string option) \<Rightarrow> 'a act \<Rightarrow> ('a \<Rightarrow> bool) \<Rightarrow> bool" where
  "yields env m Q \<longleftrightarrow> (\<forall>w y w'. w_env w = env \<longrightarrow> m w = Some (Ok y, w') \<longrightarrow> Q y)"

lemma yields_bind: "forward m \<Longrightarrow> (\<And>x. yields env (f x) Q) \<Longrightarrow> yields env (w_bind m f) Q"
  unfolding yields_def by (auto simp: w_bind_Ok) (metis laterI later_def)

lemma yields_bind_no: "yields env m (\<lambda>_. False) \<Longrightarrow> yields env (w_bind m f) Q"
  unfolding yields_def by (auto simp: w_bind_Ok)

section \<open>Concrete hosts\<close>

text \<open>A host whose kernel answers a call always the same way, and the rules that run an operation on it.\<close>

definition calm_world :: "fs \<Rightarrow> pipe \<Rightarrow> (kcall \<Rightarrow> reply) \<Rightarrow> (string \<Rightarrow> string option) \<Rightarrow> world" where
  "calm_world files chan answer env =
     \<lparr>w_fs = files, w_chan = chan, w_env = env, w_log = [], w_answer = (\<lambda>_. answer),
      w_others = (\<lambda>_ s. s), w_held = (\<lambda>_ _. False)\<rparr>"

definition empty_fs :: fs where
  "empty_fs = \<lparr>fs_files = [], fs_dirs = [''/run''], fs_tick = 0, fs_fail = (\<lambda>_. None), fs_clock = (\<lambda>_. 0),
     fs_strerror = (\<lambda>_. ''error'')\<rparr>"

definition empty_pipe :: pipe where
  "empty_pipe = \<lparr>p_in = [], p_closed = False, p_out = [], p_sched = []\<rparr>"

lemmas run_simps = w_bind_def w_ok_def w_err_def w_try_def w_lift_def w_get_def w_call_def k_call_def w_sys_def
  w_map_err_def w_ignore_def Let_def chk_def k_read_to_string_def read_trimmed_def k_write_file_def k_exists_def
  k_is_dir_def calm_world_def w_interfere_def

lemma fault_none [simp]: "fault_check None p = Ok ()"
  by (simp add: fault_check_def armed_def)

end
