(* ===== verification/Rollback.thy ===== *)
theory Rollback
  imports Errors
begin

text \<open>
  \<open>src/rollback.rs\<close>: the stack of undo actions.  An action is a closure that may change
  the host and may fail; the host is the type variable \<open>'w\<close>.  The stack keeps the actions
  in the order they were pushed, \<open>unwind\<close> pops them from the end.
\<close>

type_synonym 'w action = "'w \<Rightarrow> unit res \<times> 'w"

record 'w rollback =
  actions :: "(string \<times> 'w action) list"
  committed :: bool

definition rb_new :: "'w rollback" where
  "rb_new = \<lparr>actions = [], committed = False\<rparr>"

definition rb_push :: "'w rollback \<Rightarrow> string \<Rightarrow> 'w action \<Rightarrow> 'w rollback" where
  "rb_push rb name f = rb\<lparr>actions := actions rb @ [(name, f)]\<rparr>"

definition rb_commit :: "'w rollback \<Rightarrow> 'w rollback" where
  "rb_commit rb = rb\<lparr>committed := True, actions := []\<rparr>"

definition rb_len :: "'w rollback \<Rightarrow> nat" where
  "rb_len rb = length (actions rb)"

definition rb_is_empty :: "'w rollback \<Rightarrow> bool" where
  "rb_is_empty rb \<longleftrightarrow> actions rb = []"

text \<open>The \<open>while let Some(..) = self.actions.pop()\<close> loop, on the actions in reverse order.\<close>

fun unwind_loop :: "(string \<times> 'w action) list \<Rightarrow> string list \<Rightarrow> 'w \<Rightarrow> string list \<times> 'w" where
  "unwind_loop [] failed w = (failed, w)"
| "unwind_loop ((name, f) # rest) failed w =
     (case f w of
        (Ok _, w') \<Rightarrow> unwind_loop rest failed w'
      | (Err e, w') \<Rightarrow> unwind_loop rest (failed @ [name @ '': '' @ display_error e]) w')"

definition unwind :: "'w rollback \<Rightarrow> 'w \<Rightarrow> string list \<times> 'w rollback \<times> 'w" where
  "unwind rb w =
     (case unwind_loop (rev (actions rb)) [] w of
        (failed, w') \<Rightarrow> (failed, rb\<lparr>actions := []\<rparr>, w'))"

definition rb_drop :: "'w rollback \<Rightarrow> 'w \<Rightarrow> 'w" where
  "rb_drop rb w =
     (if \<not> committed rb \<and> actions rb \<noteq> [] then snd (snd (unwind rb w)) else w)"

section \<open>Properties\<close>

text \<open>The effect of the actions alone, whatever they return.\<close>

definition effect :: "string \<times> 'w action \<Rightarrow> 'w \<Rightarrow> 'w" where
  "effect a w = snd (snd a w)"

lemma unwind_loop_effect: "snd (unwind_loop xs failed w) = fold effect xs w"
  by (induction xs failed w rule: unwind_loop.induct)
     (auto simp: effect_def split: prod.splits result.splits)

lemma unwind_loop_failed:
  "fst (unwind_loop xs failed w) = failed @ fst (unwind_loop xs [] w)"
proof (induction xs arbitrary: failed w)
  case Nil
  then show ?case by simp
next
  case (Cons a xs)
  obtain name f where a: "a = (name, f)" by (cases a)
  obtain r w' where f: "f w = (r, w')" by (cases "f w")
  show ?case
    using Cons [of "failed @ [name @ '': '' @ display_error e]" w' for e]
      Cons [of "[name @ '': '' @ display_error e]" w' for e]
    by (cases r) (simp_all add: a f Cons [of failed w'])
qed

lemma rb_drop_effect: "\<not> committed rb \<Longrightarrow> rb_drop rb w = fold effect (rev (actions rb)) w"
  using unwind_loop_effect [of "rev (actions rb)" "[]" w]
  by (auto simp: rb_drop_def unwind_def split: prod.splits)

lemma actions_foldl_push:
  "actions (foldl (\<lambda>rb (n, f). rb_push rb n f) rb xs) = actions rb @ xs"
  "committed (foldl (\<lambda>rb (n, f). rb_push rb n f) rb xs) = committed rb"
  by (induction xs arbitrary: rb) (auto simp: rb_push_def)

text \<open>
  Dropping an uncommitted rollback runs every registered action exactly once, last
  registered first, each on the host the previous one left, and a failing action does not
  stop the ones registered before it.
\<close>

theorem drop_runs_all_in_reverse:
  "rb_drop (foldl (\<lambda>rb (n, f). rb_push rb n f) rb_new xs) w =
     fold (\<lambda>(n, f) w. snd (f w)) (rev xs) w"
proof -
  have eff: "(\<lambda>(n, f) w. snd (f w)) = effect"
    by (auto simp: effect_def fun_eq_iff)
  show ?thesis
    unfolding eff by (simp add: rb_drop_effect actions_foldl_push rb_new_def)
qed

text \<open>
  After a commit nothing is undone, whatever was registered before.
\<close>

theorem commit_prevents_unwind: "rb_drop (rb_commit rb) w = w \<and> rb_is_empty (rb_commit rb)"
  by (simp add: rb_drop_def rb_commit_def rb_is_empty_def)

end
