(* ===== verification/Undo.thy ===== *)
theory Undo
  imports Kernel Rollback
begin

text \<open>
  Operations with mutable arguments: \<open>&mut\<close> parameters and local variables of the code are a state
  \<open>'s\<close>, which is there after an error too.  The state of the set-up operations is the stack of
  undo actions of \<open>src/rollback.rs\<close>.
\<close>

section \<open>Operations on a local state\<close>

type_synonym ('s, 'a) lact = "'s \<Rightarrow> ('a res \<times> 's) act"

definition l_ok :: "'a \<Rightarrow> ('s, 'a) lact" where
  "l_ok x s = w_ok (Ok x, s)"

definition l_err :: "error \<Rightarrow> ('s, 'a) lact" where
  "l_err e s = w_ok (Err e, s)"

definition l_lift :: "'a res \<Rightarrow> ('s, 'a) lact" where
  "l_lift r s = w_ok (r, s)"

text \<open>An operation that does not touch the state.\<close>

definition l_do :: "'a act \<Rightarrow> ('s, 'a) lact" where
  "l_do m s = w_try m (\<lambda>r. w_ok (r, s))"

definition l_bind :: "('s, 'a) lact \<Rightarrow> ('a \<Rightarrow> ('s, 'b) lact) \<Rightarrow> ('s, 'b) lact" where
  "l_bind m f s = w_bind (m s) (\<lambda>(r, s'). case r of Ok x \<Rightarrow> f x s' | Err e \<Rightarrow> w_ok (Err e, s'))"

definition l_try :: "('s, 'a) lact \<Rightarrow> ('a res \<Rightarrow> ('s, 'b) lact) \<Rightarrow> ('s, 'b) lact" where
  "l_try m f s = w_bind (m s) (\<lambda>(r, s'). f r s')"

definition l_map_err :: "(error \<Rightarrow> error) \<Rightarrow> ('s, 'a) lact \<Rightarrow> ('s, 'a) lact" where
  "l_map_err g m = l_try m (\<lambda>r. l_lift (r_map_err g r))"

definition l_get :: "('s \<Rightarrow> ('s, 'a) lact) \<Rightarrow> ('s, 'a) lact" where
  "l_get f s = f s s"

definition l_mod :: "('s \<Rightarrow> 's) \<Rightarrow> ('s, unit) lact" where
  "l_mod g s = w_ok (Ok (), g s)"

text \<open>Two states side by side, and a local variable that goes out of scope at the end.\<close>

definition l_fst :: "('s, 'a) lact \<Rightarrow> ('s \<times> 't, 'a) lact" where
  "l_fst m st = w_bind (m (fst st)) (\<lambda>(r, s'). w_ok (r, (s', snd st)))"

definition l_snd :: "('t, 'a) lact \<Rightarrow> ('s \<times> 't, 'a) lact" where
  "l_snd m st = w_bind (m (snd st)) (\<lambda>(r, t'). w_ok (r, (fst st, t')))"

definition l_local :: "'s \<Rightarrow> ('s \<times> 't, 'a) lact \<Rightarrow> ('t, 'a) lact" where
  "l_local s m t = w_bind (m (s, t)) (\<lambda>(r, (_, t')). w_ok (r, t'))"

definition l_only :: "'s \<Rightarrow> ('s, 'a) lact \<Rightarrow> 'a act" where
  "l_only s m = w_bind (m s) (\<lambda>(r, _). w_lift r)"

fun l_each :: "('a \<Rightarrow> ('s, unit) lact) \<Rightarrow> 'a list \<Rightarrow> ('s, unit) lact" where
  "l_each f [] = l_ok ()"
| "l_each f (x # xs) = l_bind (f x) (\<lambda>_. l_each f xs)"

lemmas l_defs = l_ok_def l_err_def l_lift_def l_do_def l_bind_def l_try_def l_get_def l_mod_def l_fst_def l_snd_def
  l_local_def l_only_def

section \<open>The undo stack\<close>

text \<open>
  \<open>Rollback\<close> on the machine; an undo action that never returns or panics leaves no machine.
\<close>

type_synonym undo_stack = "world option rollback"

definition undo_of :: "unit act \<Rightarrow> world option action" where
  "undo_of m ow = (case ow of None \<Rightarrow> (Ok (), None)
     | Some w \<Rightarrow> (case m w of None \<Rightarrow> (Ok (), None) | Some (r, w') \<Rightarrow> (r, Some w')))"

definition l_push :: "string \<Rightarrow> unit act \<Rightarrow> (undo_stack, unit) lact" where
  "l_push name m = l_mod (\<lambda>rb. rb_push rb name (undo_of m))"

definition w_drop :: "undo_stack \<Rightarrow> unit act" where
  "w_drop rb w = (case rb_drop rb (Some w) of None \<Rightarrow> None | Some w' \<Rightarrow> Some (Ok (), w'))"

text \<open>The stack is dropped at the end of the operation that made it.\<close>

definition l_rollback :: "(undo_stack \<times> 's, 'a) lact \<Rightarrow> ('s, 'a) lact" where
  "l_rollback m s = w_bind (m (rb_new, s)) (\<lambda>(r, (rb, s')). w_bind (w_drop rb) (\<lambda>_. w_ok (r, s')))"

section \<open>Calls made\<close>

lemma makes_sum [forward_intros]:
  "(\<And>x s. makes P (a x s)) \<Longrightarrow> (\<And>e s. makes P (b e s)) \<Longrightarrow> makes P ((case z of Ok x \<Rightarrow> a x | Err e \<Rightarrow> b e) s)"
  by (cases z) auto

lemma makes_local [forward_intros]:
  "makes P (l_ok x s)" "makes P (l_err e s)" "makes P (l_lift r s)" "makes P (l_mod g s)" "makes P (l_push n u rb)"
  by (simp_all add: l_defs l_push_def makes_ok)

lemma makes_l_do [forward_intros]: "makes P m \<Longrightarrow> makes P (l_do m s)"
  unfolding l_do_def by (intro forward_intros)

lemma makes_l_bind [forward_intros]: "(\<And>s. makes P (m s)) \<Longrightarrow> (\<And>x s. makes P (f x s)) \<Longrightarrow> makes P (l_bind m f s)"
  unfolding l_bind_def by (intro forward_intros)

lemma makes_l_try [forward_intros]: "(\<And>s. makes P (m s)) \<Longrightarrow> (\<And>r s. makes P (f r s)) \<Longrightarrow> makes P (l_try m f s)"
  unfolding l_try_def by (intro forward_intros)

lemma makes_l_map_err [forward_intros]: "(\<And>s. makes P (m s)) \<Longrightarrow> makes P (l_map_err g m s)"
  unfolding l_map_err_def by (intro forward_intros)

lemma makes_l_get [forward_intros]: "(\<And>x s. makes P (f x s)) \<Longrightarrow> makes P (l_get f s)"
  by (simp add: l_get_def)

lemma makes_l_parts [forward_intros]:
  "(\<And>s. makes P (m s)) \<Longrightarrow> makes P (l_fst m st)" "(\<And>s. makes P (n s)) \<Longrightarrow> makes P (l_snd n ts)"
  "(\<And>s. makes P (p s)) \<Longrightarrow> makes P (l_local x p t)" "(\<And>s. makes P (q s)) \<Longrightarrow> makes P (l_only y q)"
  unfolding l_fst_def l_snd_def l_local_def l_only_def by (intro forward_intros; assumption)+

lemma makes_l_each [forward_intros]: "(\<And>x s. makes P (f x s)) \<Longrightarrow> makes P (l_each f xs s)"
  by (induction xs arbitrary: s) (auto intro!: forward_intros)

lemma makes_l_cases [forward_intros]:
  "makes P (a s) \<Longrightarrow> makes P (b s) \<Longrightarrow> makes P ((if c then a else b) s)"
  "makes P (d s) \<Longrightarrow> (\<And>x. makes P (g x s)) \<Longrightarrow> makes P ((case z of None \<Rightarrow> d | Some x \<Rightarrow> g x) s)"
  "(\<And>x y. makes P (h x y s)) \<Longrightarrow> makes P ((case v of (x, y) \<Rightarrow> h x y) s)"
  by (simp, cases z, auto, cases v, auto)

section \<open>What is undone\<close>

text \<open>A stack built by pushing \<open>xs\<close>, first pushed first.\<close>

definition stack_of :: "(string \<times> unit act) list \<Rightarrow> undo_stack" where
  "stack_of xs = \<lparr>actions = map (\<lambda>(n, m). (n, undo_of m)) xs, committed = False\<rparr>"

lemma stack_new: "rb_new = stack_of []"
  by (simp add: rb_new_def stack_of_def)

lemma stack_push: "rb_push (stack_of xs) n (undo_of m) = stack_of (xs @ [(n, m)])"
  by (simp add: rb_push_def stack_of_def)

lemma undo_fold: "fold effect (map (\<lambda>(n, m). (n, undo_of m)) ys) (Some w) = map_option snd (w_each (\<lambda>x. w_ignore (snd x)) ys w)"
proof (induction ys arbitrary: w)
  case (Cons y ys)
  obtain n m where y: "y = (n, m)" by (cases y)
  have none: "fold effect (map (\<lambda>(n, m). (n, undo_of m)) zs) None = None" for zs
    by (induction zs) (auto simp: effect_def undo_of_def)
  have e: "effect (n, undo_of m) (Some w) = map_option snd (m w)"
    by (simp add: effect_def undo_of_def split: option.splits prod.splits)
  show ?case
  proof (cases "m w")
    case None
    then show ?thesis using none by (simp add: y e w_bind_def w_ignore_def w_try_def)
  next
    case (Some p)
    then show ?thesis using Cons.IH
      by (cases p) (simp add: y e w_bind_def w_ignore_def w_try_def w_ok_def)
  qed
qed (simp add: w_ok_def)

lemma each_ignore_Ok: "w_each (\<lambda>x. w_ignore (f x)) ys w = Some (r, w') \<Longrightarrow> r = Ok ()"
  by (induction ys arbitrary: w) (auto simp: w_simps w_bind_def w_ignore_def w_try_def split: option.splits)

lemma w_drop_stack: "w_drop (stack_of xs) = w_each (\<lambda>x. w_ignore (snd x)) (rev xs)"
proof
  fix w
  have "rb_drop (stack_of xs) (Some w) = map_option snd (w_each (\<lambda>x. w_ignore (snd x)) (rev xs) w)"
    using undo_fold [of "rev xs" w] by (simp add: rb_drop_effect stack_of_def rev_map)
  then show "w_drop (stack_of xs) w = w_each (\<lambda>x. w_ignore (snd x)) (rev xs) w"
    by (cases "w_each (\<lambda>x. w_ignore (snd x)) (rev xs) w") (auto simp: w_drop_def dest: each_ignore_Ok)
qed

lemma w_drop_commit: "w_drop (rb_commit rb) = w_ok ()"
  by (rule ext) (simp add: w_drop_def rb_drop_def rb_commit_def w_ok_def)

end
