(* ===== verification/Mountinfo.thy ===== *)
theory Mountinfo
  imports Kernel
begin

text \<open>
  The mount table of \<open>src/sys/mount.rs\<close>: parsing \<open>/proc/self/mountinfo\<close> and finding the cgroup
  hierarchy.
\<close>

record mountinfo_entry =
  me_mount_id :: i32
  me_parent_id :: i32
  me_root :: string
  me_mount_point :: string
  me_options :: string
  me_fstype :: string
  me_source :: string
  me_super_options :: string

definition me_is_readonly :: "mountinfo_entry \<Rightarrow> bool" where
  "me_is_readonly m \<longleftrightarrow> ''ro'' \<in> set (str_split (me_options m) (CHR '',''))"

text \<open>
  \<open>unescape_octal\<close>: a byte is pushed as the character with its number, and the slice of three
  digits panics inside a character (\<open>None\<close>).
\<close>

function unescape_loop :: "string \<Rightarrow> string option" where
  "unescape_loop [] = Some []"
| "unescape_loop (c # r) =
     (if c = CHR 0x5C \<and> 3 \<le> length r then
        (if 3 < length r \<and> utf8_cont (byte (r ! 3)) then None
         else (case parse_unsigned 8 8 (take 3 r) of
             Some v \<Rightarrow> map_option (\<lambda>t. utf8_encode v @ t) (unescape_loop (drop 3 r))
           | None \<Rightarrow> map_option (\<lambda>t. utf8_encode (byte c) @ t) (unescape_loop r)))
      else map_option (\<lambda>t. utf8_encode (byte c) @ t) (unescape_loop r))"
  by pat_completeness auto
termination by (relation "measure length") auto

definition unescape_octal :: "string \<Rightarrow> string option" where
  "unescape_octal s = (if CHR 0x5C \<notin> set s then Some s else unescape_loop s)"

text \<open>One line of the table, \<open>Some None\<close> where it is skipped.\<close>

definition mountinfo_line :: "string \<Rightarrow> mountinfo_entry option option" where
  "mountinfo_line line =
     (let fields = split_whitespace line;
          sep = length (takeWhile (\<lambda>f. f \<noteq> ''-'') fields)
      in if length fields < 10 \<or> sep = length fields \<or> length fields < sep + 3 then Some None
         else (case (unescape_octal (fields ! 3), unescape_octal (fields ! 4), unescape_octal (fields ! (sep + 2))) of
             (Some rt, Some mp, Some src) \<Rightarrow> Some (Some \<lparr>
               me_mount_id = unwrap_or (- 1) (parse_i32 (fields ! 0)),
               me_parent_id = unwrap_or (- 1) (parse_i32 (fields ! 1)),
               me_root = rt, me_mount_point = mp, me_options = fields ! 5,
               me_fstype = fields ! (sep + 1), me_source = src,
               me_super_options = (if sep + 3 < length fields then fields ! (sep + 3) else [])\<rparr>)
           | _ \<Rightarrow> None))"

fun parse_mountinfo_lines :: "string list \<Rightarrow> mountinfo_entry list option" where
  "parse_mountinfo_lines [] = Some []"
| "parse_mountinfo_lines (l # ls) =
     (case mountinfo_line l of
        None \<Rightarrow> None
      | Some None \<Rightarrow> parse_mountinfo_lines ls
      | Some (Some m) \<Rightarrow> map_option ((#) m) (parse_mountinfo_lines ls))"

definition parse_mountinfo :: "string \<Rightarrow> mountinfo_entry list option" where
  "parse_mountinfo s = parse_mountinfo_lines (str_lines s)"

definition mountinfo_for :: "string \<Rightarrow> mountinfo_entry list act" where
  "mountinfo_for pid =
     (let path = ''/proc/'' @ pid @ ''/mountinfo''
      in w_bind (w_sys (KRead path) reply_data (\<lambda>w e. Io (path @ '': '' @ io_text w e))) (\<lambda>c.
           if \<not> utf8_valid c then w_err (Io (path @ '': stream did not contain valid UTF-8''))
           else (\<lambda>w. map_option (\<lambda>ms. (Ok ms, w)) (parse_mountinfo c))))"

definition is_mount_point :: "string \<Rightarrow> bool act" where
  "is_mount_point p = w_try (mountinfo_for ''self'') (\<lambda>r. w_ok (case r of
     Ok v \<Rightarrow> list_ex (\<lambda>m. me_mount_point m = p) v | Err _ \<Rightarrow> False))"

fun best_cgroup2 :: "mountinfo_entry list \<Rightarrow> string option \<Rightarrow> string option" where
  "best_cgroup2 [] best = best"
| "best_cgroup2 (m # ms) best =
     (if me_fstype m = ''cgroup2'' then
        (if me_mount_point m = ''/sys/fs/cgroup'' then Some (me_mount_point m)
         else best_cgroup2 ms (if best = None then Some (me_mount_point m) else best))
      else best_cgroup2 ms best)"

definition find_cgroup2_mount :: "string option act" where
  "find_cgroup2_mount = w_try (mountinfo_for ''self'') (\<lambda>r. w_ok (case r of
     Ok v \<Rightarrow> best_cgroup2 v None | Err _ \<Rightarrow> None))"

section \<open>Laws\<close>

lemma makes_mountinfo_for [forward_intros]:
  assumes "P (KRead (''/proc/'' @ p @ ''/mountinfo''))"
  shows "makes P (mountinfo_for p)"
proof -
  have "makes P (\<lambda>w. map_option (\<lambda>ms. (Ok ms, w)) z)" for z :: "mountinfo_entry list option"
    by (auto simp: makes_def)
  then show ?thesis unfolding mountinfo_for_def Let_def by (intro forward_intros assms)
qed

lemma makes_mountinfo [forward_intros]:
  assumes "P (KRead ''/proc/self/mountinfo'')"
  shows "makes P (is_mount_point q)" "makes P find_cgroup2_mount"
proof -
  have "makes P (mountinfo_for ''self'')" using assms by (intro makes_mountinfo_for) simp
  then show "makes P (is_mount_point q)" "makes P find_cgroup2_mount"
    unfolding is_mount_point_def find_cgroup2_mount_def by (auto intro!: makes_try makes_ok)
qed

text \<open>The mount that is found is a cgroup2 mount of the table, \<open>/sys/fs/cgroup\<close> if there is one there.\<close>

lemma best_cgroup2_spec:
  "best_cgroup2 ms best = (
     if \<exists>m \<in> set ms. me_fstype m = ''cgroup2'' \<and> me_mount_point m = ''/sys/fs/cgroup'' then Some ''/sys/fs/cgroup''
     else case best of Some b \<Rightarrow> Some b
       | None \<Rightarrow> map_option me_mount_point (List.find (\<lambda>m. me_fstype m = ''cgroup2'') ms))"
  by (induction ms best rule: best_cgroup2.induct) (auto split: option.splits)

text \<open>The kernel writes a path with white space and backslashes in octal; reading restores it.\<close>

definition octal3 :: "nat \<Rightarrow> string" where
  "octal3 n = [digit_char (n div 64), digit_char (n div 8 mod 8), digit_char (n mod 8)]"

definition escape_octal :: "string \<Rightarrow> string" where
  "escape_octal s = concat (map (\<lambda>c. if byte c \<in> {0x20, 0x09, 0x0A, 0x5C} then CHR 0x5C # octal3 (byte c) else [c]) s)"

lemma octal3_parse: "n \<in> {0x20, 0x09, 0x0A, 0x5C} \<Longrightarrow> parse_unsigned 8 8 (octal3 n) = Some n"
  by (elim insertE emptyE; hypsubst) code_simp+

lemma escape_ascii: "\<forall>c \<in> set s. byte c < 0x80 \<Longrightarrow> \<forall>c \<in> set (escape_octal s). byte c < 0x80"
proof -
  have "byte (digit_char n) < 0x80" if "n < 8" for n
    using that by (simp add: digit_char_def byte_char_of)
  then have "\<forall>x \<in> set (octal3 n). byte x < 0x80" if "n < 0x80" for n
    using that by (auto simp: octal3_def)
  moreover have "byte CHR 0x5C < 0x80" by (simp add: byte_def)
  ultimately show "\<forall>c \<in> set s. byte c < 0x80 \<Longrightarrow> \<forall>c \<in> set (escape_octal s). byte c < 0x80"
    by (auto simp: escape_octal_def split: if_splits)
qed

lemma utf8_encode_ascii: "byte c < 0x80 \<Longrightarrow> utf8_encode (byte c) = [c]"
  by (simp add: utf8_encode_def byte_def)

lemma unescape_loop_escape:
  assumes "\<forall>c \<in> set s. byte c < 0x80"
  shows "unescape_loop (escape_octal s) = Some s"
  using assms
proof (induction s)
  case (Cons c s)
  have e: "escape_octal (c # s) = (if byte c \<in> {0x20, 0x09, 0x0A, 0x5C} then CHR 0x5C # octal3 (byte c) else [c]) @ escape_octal s"
    by (simp add: escape_octal_def)
  show ?case
  proof (cases "byte c \<in> {0x20, 0x09, 0x0A, 0x5C}")
    case True
    let ?r = "octal3 (byte c) @ escape_octal s"
    have "\<not> (3 < length ?r \<and> utf8_cont (byte (?r ! 3)))"
    proof
      assume a: "3 < length ?r \<and> utf8_cont (byte (?r ! 3))"
      then have "?r ! 3 \<in> set (escape_octal s)" by (simp add: octal3_def numeral_3_eq_3)
      then have "byte (?r ! 3) < 0x80" using escape_ascii [of s] Cons.prems by auto
      then show False using a by (simp add: utf8_cont_def)
    qed
    moreover have "take 3 ?r = octal3 (byte c)" "drop 3 ?r = escape_octal s" "3 \<le> length ?r"
      by (simp_all add: octal3_def)
    ultimately show ?thesis
      using Cons utf8_encode_ascii [of c] octal3_parse [OF True]
      unfolding e append_Cons if_P [OF True] unescape_loop.simps by (simp, linarith)
  next
    case False
    then have "c \<noteq> CHR 0x5C" by (auto simp: byte_def)
    then show ?thesis using Cons False utf8_encode_ascii [of c] by (simp add: e)
  qed
qed (simp add: escape_octal_def)

lemma unescape_escape:
  assumes "\<forall>c \<in> set s. byte c < 0x80"
  shows "unescape_octal (escape_octal s) = Some s"
proof (cases "CHR 0x5C \<in> set (escape_octal s)")
  case True
  then show ?thesis using unescape_loop_escape [OF assms] by (simp add: unescape_octal_def)
next
  case False
  then have "escape_octal s = s" by (induction s) (auto simp: escape_octal_def split: if_splits)
  then show ?thesis using False by (simp add: unescape_octal_def)
qed

end
