(* ===== verification/Cgroup.thy ===== *)
theory Cgroup
  imports Mountinfo Config_Laws
begin

text \<open>
  \<open>src/runtime/cgroup.rs\<close>: the control group of a container.  The control files are files of
  the kernel, so every operation is a sequence of kernel calls.
\<close>

section \<open>Finding the hierarchy\<close>

definition WANTED :: "string list" where
  "WANTED = [''memory'', ''cpu'', ''pids'']"

definition BASE_NAME :: string where "BASE_NAME = ''myrun''"

definition allow_missing_controllers :: "world \<Rightarrow> bool" where
  "allow_missing_controllers w \<longleftrightarrow>
     w_env w ''MYRUN_ALLOW_MISSING_CONTROLLERS'' \<in> {Some ''1'', Some ''true'', Some ''yes''}"

record cgroup_stats =
  c_memory_current :: "u64 option"
  c_memory_peak :: "u64 option"
  c_memory_max :: "u64 option"
  c_oom_kills :: u64
  c_cpu_usage_usec :: "u64 option"
  c_cpu_user_usec :: "u64 option"
  c_cpu_system_usec :: "u64 option"
  c_nr_throttled :: u64
  c_throttled_usec :: u64
  c_pids_current :: "u64 option"
  c_pids_max :: "u64 option"

record cgroup =
  cg_path :: string
  cg_enabled :: "string list"

definition mount_point :: "string act" where
  "mount_point = w_bind find_cgroup2_mount (\<lambda>m. case m of
     Some p \<Rightarrow> w_ok p
   | None \<Rightarrow> w_err (Unsupported (''no cgroup2 filesystem is mounted; myrun requires cgroup v2 '' @
       ''(mount one with: mount -t cgroup2 none /sys/fs/cgroup)'')))"

definition read_list :: "string \<Rightarrow> string list act" where
  "read_list p = w_try (read_trimmed p) (\<lambda>r. w_ok (case r of Ok s \<Rightarrow> split_whitespace s | Err _ \<Rightarrow> []))"

definition available_controllers :: "string \<Rightarrow> string list act" where
  "available_controllers dir = read_list (path_join dir ''cgroup.controllers'')"

definition enable_subtree :: "string \<Rightarrow> string list \<Rightarrow> string list act" where
  "enable_subtree dir wanted =
     w_bind (read_list (path_join dir ''cgroup.subtree_control'')) (\<lambda>already.
       w_fold (\<lambda>c ok.
         if c \<in> set already then w_ok (ok @ [c])
         else w_try (k_write_file (path_join dir ''cgroup.subtree_control'') (''+'' @ c)) (\<lambda>r.
           w_ok (case r of Ok _ \<Rightarrow> ok @ [c] | Err _ \<Rightarrow> ok))) wanted [])"

definition required_for :: "resources \<Rightarrow> string list" where
  "required_for res =
     (if r_memory res \<noteq> None \<or> r_memory_swap res \<noteq> None then [''memory''] else []) @
     (if r_cpus res \<noteq> None \<or> r_cpu_weight res \<noteq> None then [''cpu''] else []) @
     (if r_pids res \<noteq> None then [''pids''] else [])"

section \<open>Control files\<close>

definition cg_has :: "cgroup \<Rightarrow> string \<Rightarrow> bool" where
  "cg_has cg controller \<longleftrightarrow> controller \<in> set (cg_enabled cg)"

definition cg_write :: "cgroup \<Rightarrow> string \<Rightarrow> string \<Rightarrow> unit act" where
  "cg_write cg file value = w_map_err
     (\<lambda>e. Io (''writing '' @ debug_str value @ '' to '' @ cg_path cg @ ''/'' @ file @ '': '' @ display_error e))
     (k_write_file (path_join (cg_path cg) file) value)"

definition cg_write_if :: "cgroup \<Rightarrow> string \<Rightarrow> string \<Rightarrow> string \<Rightarrow> unit act" where
  "cg_write_if cg controller file value =
     (if \<not> cg_has cg controller then w_ok () else cg_write cg file value)"

definition cg_read :: "cgroup \<Rightarrow> string \<Rightarrow> string option act" where
  "cg_read cg file = w_try (read_trimmed (path_join (cg_path cg) file)) (\<lambda>r. w_ok (r_ok r))"

definition cg_read_u64 :: "cgroup \<Rightarrow> string \<Rightarrow> u64 option act" where
  "cg_read_u64 cg file = w_bind (cg_read cg file) (\<lambda>r. w_ok (case r of
     None \<Rightarrow> None | Some s \<Rightarrow> if s = ''max'' then None else parse_u64 s))"

definition keyed_line :: "string \<Rightarrow> (string \<times> u64) option" where
  "keyed_line line = (case split_whitespace line of
     key # v # _ \<Rightarrow> map_option (Pair key) (parse_u64 v) | _ \<Rightarrow> None)"

definition keyed_entries :: "string \<Rightarrow> (string \<times> u64) list" where
  "keyed_entries s = List.map_filter keyed_line (str_lines s)"

definition cg_read_keyed :: "cgroup \<Rightarrow> string \<Rightarrow> (string \<times> u64) list act" where
  "cg_read_keyed cg file = w_bind (cg_read cg file) (\<lambda>r. w_ok (case r of
     None \<Rightarrow> [] | Some s \<Rightarrow> keyed_entries s))"

definition cg_keyed_value :: "cgroup \<Rightarrow> string \<Rightarrow> string \<Rightarrow> u64 option act" where
  "cg_keyed_value cg file key = w_bind (cg_read_keyed cg file) (\<lambda>es. w_ok (map_of es key))"

text \<open>The limits; a swap limit is the combined total less the memory limit.\<close>

definition w_when :: "'a option \<Rightarrow> ('a \<Rightarrow> unit act) \<Rightarrow> unit act" where
  "w_when z f = (case z of None \<Rightarrow> w_ok () | Some x \<Rightarrow> f x)"

definition swap_only :: "u64 option \<Rightarrow> u64 \<Rightarrow> u64" where
  "swap_only mem s = (case mem of Some m \<Rightarrow> if m \<le> s then s - m else 0 | None \<Rightarrow> s)"

definition show_u64 :: "u64 \<Rightarrow> string" where
  "show_u64 x = show_nat (unat x)"

definition cg_apply :: "cgroup \<Rightarrow> resources \<Rightarrow> unit act" where
  "cg_apply cg res =
     w_bind (w_when (r_memory res) (\<lambda>m. cg_write_if cg ''memory'' ''memory.max'' (show_u64 m))) (\<lambda>_.
     w_bind (case r_memory_swap res of
         Some s \<Rightarrow> cg_write_if cg ''memory'' ''memory.swap.max'' (show_u64 (swap_only (r_memory res) s))
       | None \<Rightarrow>
           if r_memory res \<noteq> None then w_ignore (cg_write_if cg ''memory'' ''memory.swap.max'' ''0'')
           else w_ok ()) (\<lambda>_.
     w_bind (w_when (cpu_max_value res) (cg_write_if cg ''cpu'' ''cpu.max'')) (\<lambda>_.
     w_bind (w_when (r_cpu_weight res) (\<lambda>x. cg_write_if cg ''cpu'' ''cpu.weight'' (show_u64 x))) (\<lambda>_.
       w_when (r_pids res) (\<lambda>p. cg_write_if cg ''pids'' ''pids.max'' (show_u64 p))))))"

section \<open>Creation\<close>

definition creating_error :: "string \<Rightarrow> world \<Rightarrow> int \<Rightarrow> error" where
  "creating_error p w e = Io (''creating cgroup '' @ p @ '': '' @ io_text w e)"

definition missing_text :: "string list \<Rightarrow> string \<Rightarrow> string list \<Rightarrow> string" where
  "missing_text missing mount available =
     ''cgroup v2 controller(s) '' @ str_join '', '' missing @ '' are not available at '' @ mount @
     '' (cgroup.controllers = ['' @ str_join '' '' available @ '']). The requested limits cannot be '' @
     ''enforced. This usually means the host is running cgroup v1 or '' @
     ''hybrid mode, or the controllers are not delegated to this '' @
     ''subtree. Boot with systemd.unified_cgroup_hierarchy=1, or set '' @
     ''MYRUN_ALLOW_MISSING_CONTROLLERS=1 to run without enforcement.''"

text \<open>The closure \<open>finish\<close>: faults and limits once the directory exists.\<close>

definition cg_finish :: "cgroup \<Rightarrow> resources \<Rightarrow> unit act" where
  "cg_finish cg res =
     w_bind (w_fault ''after_cgroup_create'') (\<lambda>_.
     w_bind (cg_apply cg res) (\<lambda>_.
       w_fault ''after_cgroup_limits''))"

definition cg_make_leaf :: "string \<Rightarrow> string list \<Rightarrow> resources \<Rightarrow> cgroup act" where
  "cg_make_leaf path enabled res =
     w_bind (k_exists path) (\<lambda>there.
     w_bind (if there then w_ignore (w_sys (KRmdir path) reply_unit (chk ''rmdir'' path)) else w_ok ()) (\<lambda>_.
     w_bind (w_sys (KMkdir path) reply_unit (creating_error path)) (\<lambda>_.
       let cg = \<lparr>cg_path = path, cg_enabled = enabled\<rparr>
       in w_try (cg_finish cg res) (\<lambda>r. case r of
            Err e \<Rightarrow> w_bind (w_ignore (w_sys (KRmdir path) reply_unit (chk ''rmdir'' path))) (\<lambda>_. w_err e)
          | Ok _ \<Rightarrow> w_ok cg))))"

text \<open>\<open>create\<close> up to the check that the limits can be enforced: the base directory and its controllers.\<close>

definition cg_prepare :: "resources \<Rightarrow> (string \<times> string list) act" where
  "cg_prepare res =
     w_bind mount_point (\<lambda>mount.
     let base = path_join mount BASE_NAME
     in w_bind (enable_subtree mount WANTED) (\<lambda>_.
        w_bind (k_exists base) (\<lambda>there.
        w_bind (if there then w_ok () else w_sys (KMkdir base) reply_unit (creating_error base)) (\<lambda>_.
        w_bind (enable_subtree base WANTED) (\<lambda>enabled.
        let missing = filter (\<lambda>c. c \<notin> set enabled) (required_for res)
        in w_bind (if missing = [] then w_ok ()
             else w_bind (available_controllers mount) (\<lambda>available.
               w_get (\<lambda>w. if \<not> allow_missing_controllers w
                 then w_err (Unsupported (missing_text missing mount available)) else w_ok ()))) (\<lambda>_.
           w_ok (base, enabled)))))))"

definition cg_create :: "string \<Rightarrow> resources \<Rightarrow> cgroup act" where
  "cg_create cid res = w_bind (cg_prepare res) (\<lambda>(base, enabled). cg_make_leaf (path_join base cid) enabled res)"

definition cg_attach :: "string \<Rightarrow> cgroup act" where
  "cg_attach path =
     w_bind (k_is_dir path) (\<lambda>d.
       if \<not> d then w_err (NotFound (''cgroup '' @ path))
       else w_bind (available_controllers path) (\<lambda>cs. w_ok \<lparr>cg_path = path, cg_enabled = cs\<rparr>))"

section \<open>Processes of the group\<close>

definition cg_add_pid :: "cgroup \<Rightarrow> i32 \<Rightarrow> unit act" where
  "cg_add_pid cg pid = cg_write cg ''cgroup.procs'' (show_int (sint pid))"

definition pids_of_text :: "string \<Rightarrow> i32 list" where
  "pids_of_text s = List.map_filter (\<lambda>l. parse_i32 (str_trim l)) (str_lines s)"

definition cg_pids :: "cgroup \<Rightarrow> i32 list act" where
  "cg_pids cg = w_bind (cg_read cg ''cgroup.procs'') (\<lambda>r. w_ok (case r of
     None \<Rightarrow> [] | Some s \<Rightarrow> pids_of_text s))"

definition cg_is_populated :: "cgroup \<Rightarrow> bool act" where
  "cg_is_populated cg = w_bind (cg_keyed_value cg ''cgroup.events'' ''populated'') (\<lambda>v.
     w_ok (unwrap_or 0 v = 1))"

definition cg_freeze :: "cgroup \<Rightarrow> unit act" where
  "cg_freeze cg = cg_write cg ''cgroup.freeze'' ''1''"

definition cg_thaw :: "cgroup \<Rightarrow> unit act" where
  "cg_thaw cg = cg_write cg ''cgroup.freeze'' ''0''"

definition cg_frozen :: "cgroup \<Rightarrow> bool act" where
  "cg_frozen cg = w_bind (cg_read cg ''cgroup.freeze'') (\<lambda>r. w_ok (r = Some ''1''))"

definition cg_kill_all :: "cgroup \<Rightarrow> unit act" where
  "cg_kill_all cg =
     w_bind (k_exists (path_join (cg_path cg) ''cgroup.kill'')) (\<lambda>there.
       if there then cg_write cg ''cgroup.kill'' ''1''
       else w_bind (cg_pids cg) (w_each (\<lambda>pid. w_ignore (kill_pid pid SIGKILL))))"

definition cg_stats :: "cgroup \<Rightarrow> cgroup_stats act" where
  "cg_stats cg =
     w_bind (cg_read_u64 cg ''memory.current'') (\<lambda>mc.
     w_bind (cg_read_u64 cg ''memory.peak'') (\<lambda>mp.
     w_bind (cg_read_u64 cg ''memory.max'') (\<lambda>mm.
     w_bind (cg_keyed_value cg ''memory.events'' ''oom_kill'') (\<lambda>oom.
     w_bind (cg_keyed_value cg ''cpu.stat'' ''usage_usec'') (\<lambda>cu.
     w_bind (cg_keyed_value cg ''cpu.stat'' ''user_usec'') (\<lambda>cus.
     w_bind (cg_keyed_value cg ''cpu.stat'' ''system_usec'') (\<lambda>csy.
     w_bind (cg_keyed_value cg ''cpu.stat'' ''nr_throttled'') (\<lambda>nt.
     w_bind (cg_keyed_value cg ''cpu.stat'' ''throttled_usec'') (\<lambda>tu.
     w_bind (cg_read_u64 cg ''pids.current'') (\<lambda>pc.
     w_bind (cg_read_u64 cg ''pids.max'') (\<lambda>pm.
       w_ok \<lparr>c_memory_current = mc, c_memory_peak = mp, c_memory_max = mm, c_oom_kills = unwrap_or 0 oom,
         c_cpu_usage_usec = cu, c_cpu_user_usec = cus, c_cpu_system_usec = csy,
         c_nr_throttled = unwrap_or 0 nt, c_throttled_usec = unwrap_or 0 tu,
         c_pids_current = pc, c_pids_max = pm\<rparr>)))))))))))"

definition cg_was_oom_killed :: "cgroup \<Rightarrow> bool act" where
  "cg_was_oom_killed cg = w_bind (cg_stats cg) (\<lambda>s. w_ok (c_oom_kills s > 0))"

section \<open>Removal\<close>

definition busy_error :: "cgroup \<Rightarrow> error" where
  "busy_error cg = Io (''cgroup '' @ cg_path cg @ '' is still busy after 1s; processes may be unkillable (D state)'')"

text \<open>The attempts that are left; the first is the one with \<open>first\<close>.\<close>

fun cg_remove_loop :: "cgroup \<Rightarrow> bool \<Rightarrow> nat \<Rightarrow> unit act" where
  "cg_remove_loop cg first 0 = w_err (busy_error cg)"
| "cg_remove_loop cg first (Suc n) =
     w_call (KRmdir (cg_path cg)) (\<lambda>r. case reply_unit r of
         Ok _ \<Rightarrow> w_ok ()
       | Err e \<Rightarrow>
           w_bind (if e = EBUSY then w_ok True else k_exists (cg_path cg)) (\<lambda>there.
             if \<not> there then w_ok ()
             else w_bind (if first \<and> e = EBUSY then w_ignore (cg_kill_all cg) else w_ok ()) (\<lambda>_.
                  w_bind (k_sleep 20) (\<lambda>_. cg_remove_loop cg False n))))"

definition cg_remove :: "cgroup \<Rightarrow> unit act" where
  "cg_remove cg =
     w_bind (k_exists (cg_path cg)) (\<lambda>there.
       if \<not> there then w_ok () else cg_remove_loop cg True 50)"

definition gc_entry :: "string \<Rightarrow> string list \<Rightarrow> string \<Rightarrow> nat \<Rightarrow> nat act" where
  "gc_entry base live name removed =
     (let p = path_join base name
      in w_bind (k_is_dir p) (\<lambda>d.
           if \<not> d \<or> from_utf8_lossy (bytes_of name) \<in> set live then w_ok removed
           else w_try (cg_attach p) (\<lambda>r. case r of
                Err _ \<Rightarrow> w_ok removed
              | Ok cg \<Rightarrow>
                  w_bind (cg_pids cg) (\<lambda>ps.
                    if ps \<noteq> [] then w_ok removed
                    else w_try (cg_remove cg) (\<lambda>rr. w_ok (case rr of Ok _ \<Rightarrow> removed + 1 | Err _ \<Rightarrow> removed))))))"

definition gc_empty :: "string list \<Rightarrow> nat act" where
  "gc_empty live =
     w_try mount_point (\<lambda>m. case m of
       Err _ \<Rightarrow> w_ok 0
     | Ok mount \<Rightarrow>
         (let base = path_join mount BASE_NAME
          in w_call (KReadDir base) (\<lambda>r. case reply_names r of
               Err _ \<Rightarrow> w_ok 0
             | Ok names \<Rightarrow> w_fold (gc_entry base live) names 0)))"

end
