(* ===== verification/Cgroup_Laws.thy ===== *)
theory Cgroup_Laws
  imports Cgroup
begin

text \<open>
  What control groups promise: a container that starts has every limit it asked for, a failed
  creation leaves no directory, and removal ends.
\<close>

lemma makes_when [forward_intros]: "(\<And>x. makes P (f x)) \<Longrightarrow> makes P (w_when z f)"
  unfolding w_when_def by (intro forward_intros)

lemma makes_cgroup_files [forward_intros]:
  "P (KRead ''/proc/self/mountinfo'') \<Longrightarrow> makes P mount_point"
  "P (KRead p) \<Longrightarrow> makes P (read_list p)"
  "P (KRead (path_join d ''cgroup.controllers'')) \<Longrightarrow> makes P (available_controllers d)"
  "P (KWrite (path_join (cg_path cg) f) v) \<Longrightarrow> makes P (cg_write cg f v)"
  "P (KWrite (path_join (cg_path cg) f) v) \<Longrightarrow> makes P (cg_write_if cg c f v)"
  unfolding mount_point_def read_list_def available_controllers_def cg_write_def cg_write_if_def
  by (intro forward_intros; assumption)+

lemma makes_enable_subtree [forward_intros]:
  assumes "P (KRead (path_join d ''cgroup.subtree_control''))"
    "\<And>c. P (KWrite (path_join d ''cgroup.subtree_control'') (''+'' @ c))"
  shows "makes P (enable_subtree d ws)"
  unfolding enable_subtree_def by (intro forward_intros assms)

lemma makes_cgroup_reads [forward_intros]:
  assumes "P (KRead (path_join (cg_path cg) f))"
  shows "makes P (cg_read cg f)" "makes P (cg_read_u64 cg f)" "makes P (cg_read_keyed cg f)"
    "makes P (cg_keyed_value cg f key)"
  unfolding cg_read_u64_def cg_keyed_value_def cg_read_keyed_def cg_read_def
  by (intro forward_intros assms)+

lemma forward_cgroup_ops [forward_intros]:
  "forward (cg_apply cg res)" "forward (cg_finish cg res)" "forward (cg_add_pid cg pid)" "forward (cg_pids cg)"
  "forward (cg_is_populated cg)" "forward (cg_freeze cg)" "forward (cg_thaw cg)" "forward (cg_frozen cg)"
  "forward (cg_kill_all cg)" "forward (cg_stats cg)" "forward (cg_was_oom_killed cg)" "forward (cg_attach p)"
proof -
  show a: "forward (cg_apply cg res)" unfolding cg_apply_def by (intro forward_intros)
  show "forward (cg_finish cg res)" unfolding cg_finish_def by (intro forward_intros a)
  show s: "forward (cg_stats cg)" unfolding cg_stats_def by (intro forward_intros)
  show "forward (cg_was_oom_killed cg)" unfolding cg_was_oom_killed_def by (intro forward_intros s)
  show p: "forward (cg_pids cg)" unfolding cg_pids_def by (intro forward_intros)
  show "forward (cg_kill_all cg)" unfolding cg_kill_all_def by (intro forward_intros p)
qed (unfold cg_add_pid_def cg_is_populated_def cg_freeze_def cg_thaw_def cg_frozen_def cg_attach_def,
    (intro forward_intros)+)

lemma forward_remove_loop [forward_intros]: "forward (cg_remove_loop cg first n)"
  by (induction n arbitrary: first) (auto intro!: forward_intros)

lemma forward_cgroup_lifecycle [forward_intros]:
  "forward (cg_make_leaf p en res)" "forward (cg_create cid res)" "forward (cg_remove cg)"
  "forward (gc_entry b l n m)" "forward (gc_empty live)"
proof -
  show m: "forward (cg_make_leaf p en res)" for p en res
    unfolding cg_make_leaf_def Let_def by (intro forward_intros)
  have "forward (cg_prepare res)" unfolding cg_prepare_def Let_def by (intro forward_intros)
  then show "forward (cg_create cid res)" unfolding cg_create_def by (intro makes_bind makes_prod m)
  show r: "forward (cg_remove cg)" for cg unfolding cg_remove_def by (intro forward_intros)
  show g: "forward (gc_entry b l n m)" for b l n m unfolding gc_entry_def Let_def by (intro forward_intros r)
  show "forward (gc_empty live)" unfolding gc_empty_def Let_def by (intro forward_intros g)
qed

section \<open>Limits\<close>

text \<open>The control files a configuration asks for, with their values.\<close>

definition limit_plan :: "resources \<Rightarrow> (string \<times> string) list" where
  "limit_plan res =
     (case r_memory res of Some m \<Rightarrow> [(''memory.max'', show_u64 m)] | None \<Rightarrow> []) @
     (case r_memory_swap res of Some s \<Rightarrow> [(''memory.swap.max'', show_u64 (swap_only (r_memory res) s))] | None \<Rightarrow> []) @
     (case cpu_max_value res of Some v \<Rightarrow> [(''cpu.max'', v)] | None \<Rightarrow> []) @
     (case r_cpu_weight res of Some x \<Rightarrow> [(''cpu.weight'', show_u64 x)] | None \<Rightarrow> []) @
     (case r_pids res of Some p \<Rightarrow> [(''pids.max'', show_u64 p)] | None \<Rightarrow> [])"

lemma mem_case_option: "x \<in> set (case z of None \<Rightarrow> [] | Some y \<Rightarrow> [g y]) \<longleftrightarrow> (\<exists>y. z = Some y \<and> x = g y)"
  by (cases z) auto

lemma cg_write_if_succeeded:
  assumes "cg_write_if cg c f v w = Some (Ok x, w')" "cg_has cg c"
  shows "succeeded (KWrite (path_join (cg_path cg) f) v) (since w w')"
  using assms by (auto simp: cg_write_if_def cg_write_def k_write_file_def w_simps intro!: w_sys_succeeded)

lemma ensures_write_if: "cg_has cg c \<Longrightarrow> ensures (cg_write_if cg c f v) (KWrite (path_join (cg_path cg) f) v)"
  using cg_write_if_succeeded unfolding ensures_def by blast

lemma apply_limits:
  assumes "\<forall>c \<in> set (required_for res). cg_has cg c" "(f, v) \<in> set (limit_plan res)"
  shows "ensures (cg_apply cg res) (KWrite (path_join (cg_path cg) f) v)"
proof -
  have r: "r_memory res \<noteq> None \<Longrightarrow> cg_has cg ''memory''" "r_memory_swap res \<noteq> None \<Longrightarrow> cg_has cg ''memory''"
    "r_cpus res \<noteq> None \<Longrightarrow> cg_has cg ''cpu''" "r_cpu_weight res \<noteq> None \<Longrightarrow> cg_has cg ''cpu''"
    "r_pids res \<noteq> None \<Longrightarrow> cg_has cg ''pids''"
    using assms(1) by (auto simp: required_for_def split: if_splits)
  have "(\<exists>m. r_memory res = Some m \<and> f = ''memory.max'' \<and> v = show_u64 m) \<or>
      (\<exists>x. r_memory_swap res = Some x \<and> f = ''memory.swap.max'' \<and> v = show_u64 (swap_only (r_memory res) x)) \<or>
      (cpu_max_value res = Some v \<and> f = ''cpu.max'') \<or>
      (\<exists>x. r_cpu_weight res = Some x \<and> f = ''cpu.weight'' \<and> v = show_u64 x) \<or>
      (\<exists>p. r_pids res = Some p \<and> f = ''pids.max'' \<and> v = show_u64 p)"
    using assms(2) unfolding limit_plan_def set_append Un_iff mem_case_option prod.inject
    by (elim disjE exE conjE) simp_all
  then consider m where "r_memory res = Some m" "f = ''memory.max''" "v = show_u64 m"
    | x where "r_memory_swap res = Some x" "f = ''memory.swap.max''" "v = show_u64 (swap_only (r_memory res) x)"
    | "cpu_max_value res = Some v" "f = ''cpu.max''"
    | x where "r_cpu_weight res = Some x" "f = ''cpu.weight''" "v = show_u64 x"
    | p where "r_pids res = Some p" "f = ''pids.max''" "v = show_u64 p"
    by (elim disjE exE conjE) simp_all
  then show ?thesis
  proof cases
    case 1
    then show ?thesis unfolding cg_apply_def w_when_def
      by (intro ensures_bind1 forward_intros) (simp add: ensures_write_if r)
  next
    case 2
    then show ?thesis unfolding cg_apply_def w_when_def
      by (intro ensures_bind2 [OF ensures_bind1] forward_intros) (simp add: ensures_write_if r)
  next
    case 3
    then have "cg_has cg ''cpu''" using r(3) by (auto simp: cpu_max_value_def)
    then show ?thesis unfolding cg_apply_def w_when_def
      by (intro ensures_bind2 [OF ensures_bind2, OF ensures_bind1] forward_intros) (simp add: ensures_write_if 3)
  next
    case 4
    then show ?thesis unfolding cg_apply_def w_when_def
      by (intro ensures_bind2 [OF ensures_bind2, OF ensures_bind2, OF ensures_bind1] forward_intros) (simp add: ensures_write_if r)
  next
    case 5
    then show ?thesis unfolding cg_apply_def w_when_def
      by (intro ensures_bind2 [OF ensures_bind2, OF ensures_bind2, OF ensures_bind2] forward_intros) (simp add: ensures_write_if r)
  qed
qed

lemma cg_make_leaf_Ok:
  assumes "cg_make_leaf path enabled res w = Some (Ok cg, w')"
  obtains u v where "cg = \<lparr>cg_path = path, cg_enabled = enabled\<rparr>" "later w u" "later u v" "later v w'"
    "since u v = [(KMkdir path, w_answer u (w_log u) (KMkdir path))]" "\<not> failed (w_answer u (w_log u) (KMkdir path))"
    "cg_finish cg res v = Some (Ok (), w')"
proof -
  let ?cg = "\<lparr>cg_path = path, cg_enabled = enabled\<rparr>"
  obtain b u1 u v r t where s: "k_exists path w = Some (Ok b, u1)"
    "(if b then w_ignore (w_sys (KRmdir path) reply_unit (chk ''rmdir'' path)) else w_ok ()) u1 = Some (Ok (), u)"
    "w_sys (KMkdir path) reply_unit (creating_error path) u = Some (Ok (), v)"
    and f: "cg_finish ?cg res v = Some (r, t)"
    and e: "(case r of Err e \<Rightarrow> w_bind (w_ignore (w_sys (KRmdir path) reply_unit (chk ''rmdir'' path))) (\<lambda>_. w_err e)
          | Ok _ \<Rightarrow> w_ok ?cg) t = Some (Ok cg, w')"
    using assms by (auto simp: cg_make_leaf_def Let_def w_simps)
  have s45: "cg = ?cg" "cg_finish ?cg res v = Some (Ok (), w')"
    using e f by (cases r; simp add: w_simps)+
  have "later w u1" using s(1) by (rule laterI) (intro forward_intros)
  moreover have "later u1 u" using s(2) by (rule laterI) (intro forward_intros)
  moreover have "later v w'" using s45(2) by (rule laterI) (intro forward_intros)
  moreover have "later u v" using s(3) by (rule laterI) (intro forward_intros)
  ultimately have "later w u" "later u v" "later v w'" using later_trans by blast+
  then show thesis using s45 w_sys_unit [OF s(3)] that [of u v] by simp
qed

lemma last_call: "w_sys c d conv v = Some (r, w') \<Longrightarrow> fst (last (w_log w')) = c"
  by (auto simp: w_sys_def w_call_def k_call_def Let_def w_simps)

lemma failed_leaf_removes:
  assumes "cg_make_leaf path enabled res w = Some (Err e, w')" "succeeded (KMkdir p) (since w w')"
  shows "fst (last (w_log w')) = KRmdir p"
proof -
  let ?cg = "\<lparr>cg_path = path, cg_enabled = enabled\<rparr>"
  let ?rm = "w_sys (KRmdir path) reply_unit (chk ''rmdir'' path)"
  obtain b u1 u where s: "k_exists path w = Some (Ok b, u1)" "(if b then w_ignore ?rm else w_ok ()) u1 = Some (Ok (), u)"
    and m: "w_bind (w_sys (KMkdir path) reply_unit (creating_error path)) (\<lambda>_.
       w_try (cg_finish ?cg res) (\<lambda>r. case r of
            Err e \<Rightarrow> w_bind (w_ignore ?rm) (\<lambda>_. w_err e)
          | Ok _ \<Rightarrow> w_ok ?cg)) u = Some (Err e, w')"
    using assms(1) unfolding cg_make_leaf_def Let_def by (auto simp: w_simps split: if_splits)
  have no1: "makes (\<lambda>c. c \<noteq> KMkdir p) (k_exists path)"
    and no2: "makes (\<lambda>c. c \<noteq> KMkdir p) (if b then w_ignore ?rm else w_ok ())"
    and only: "makes (\<lambda>c. c = KMkdir p \<longrightarrow> p = path) (cg_make_leaf path enabled res)"
    unfolding cg_make_leaf_def cg_finish_def cg_apply_def Let_def by (intro forward_intros; simp)+
  have no: "\<not> succeeded (KMkdir p) (since w u1)" "\<not> succeeded (KMkdir p) (since u1 u)"
    using makesD [OF no1 s(1)] makesD [OF no2 s(2)] by (auto simp: succeeded_def)
  have p: "p = path" using makesD [OF only assms(1)] assms(2) by (auto simp: succeeded_def)
  have "later u w'" using m by (rule laterI) (intro forward_intros)
  note l = makes_later [OF no1 s(1)] makes_later [OF no2 s(2)] this
  have su: "succeeded (KMkdir p) (since u w')"
    using assms(2) no since_trans [OF l(1) l(2)] since_trans [OF later_trans [OF l(1) l(2)] l(3)] by simp
  show ?thesis
  proof (cases "w_sys (KMkdir path) reply_unit (creating_error path) u = Some (Err e, w')")
    case True
    then have "since u w' = [(KMkdir path, w_answer u (w_log u) (KMkdir path))]"
      "failed (w_answer u (w_log u) (KMkdir path))"
      using w_sys_since [OF True] by (auto, cases "w_answer u (w_log u) (KMkdir path)") auto
    then show ?thesis using su by (simp add: succeeded_def)
  next
    case False
    then obtain v r t where v: "w_sys (KMkdir path) reply_unit (creating_error path) u = Some (Ok (), v)"
      "cg_finish ?cg res v = Some (r, t)"
      "(case r of Err e \<Rightarrow> w_bind (w_ignore ?rm) (\<lambda>_. w_err e) | Ok _ \<Rightarrow> w_ok ?cg) t = Some (Err e, w')"
      using m by (auto simp: w_simps)
    then obtain x where "?rm t = Some (x, w')" by (cases r) (auto simp: w_simps w_ignore_def)
    then have "fst (last (w_log w')) = KRmdir path" by (rule last_call)
    then show ?thesis by (simp add: p)
  qed
qed

text \<open>What \<open>create\<close> does before it makes the leaf: it ends in an error, or goes on to the leaf.\<close>

lemma made_leaf:
  assumes "cg_make_leaf path enabled res w = Some (r, w')" "succeeded (KMkdir p) (since w w')"
  shows "p = path"
proof -
  have only: "makes (\<lambda>c. c = KMkdir p \<longrightarrow> p = path) (cg_make_leaf path enabled res)"
    unfolding cg_make_leaf_def cg_finish_def cg_apply_def Let_def by (intro forward_intros; simp)
  show ?thesis using makesD [OF only assms(1)] assms(2) by (auto simp: succeeded_def)
qed

definition before_leaf :: "kcall \<Rightarrow> bool" where
  "before_leaf c \<longleftrightarrow> (case c of KMkdir p \<Rightarrow> \<exists>mount. p = path_join mount BASE_NAME | _ \<Rightarrow> True)"

lemma cg_prepare_calls: "makes before_leaf (cg_prepare res)"
  unfolding cg_prepare_def Let_def by (intro forward_intros) (auto simp: before_leaf_def)

lemma cg_prepare_enabled: "\<not> allow_missing_controllers w \<Longrightarrow> cg_prepare res w = Some (Ok (base, en), u) \<Longrightarrow> set (required_for res) \<subseteq> set en"
proof -
  assume w: "\<not> allow_missing_controllers w" "cg_prepare res w = Some (Ok (base, en), u)"
  have no: "\<not> allow_missing_controllers v" if "w_env v = w_env w" for v
    using w(1) that by (simp add: allow_missing_controllers_def)
  have "yields (w_env w) (cg_prepare res) (\<lambda>(_, en). set (required_for res) \<subseteq> set en)"
    unfolding cg_prepare_def Let_def
  proof (rule yields_bind [OF _ yields_bind, OF _ _ yields_bind, OF _ _ _ yields_bind, OF _ _ _ _ yields_bind],
      goal_cases)
    case (6 mount _ _ _ enabled)
    show ?case
    proof (cases "filter (\<lambda>c. c \<notin> set enabled) (required_for res) = []")
      case True
      then show ?thesis by (auto simp: yields_def w_simps filter_empty_conv)
    next
      case False
      have "yields (w_env w) (w_bind (available_controllers mount) (\<lambda>available. w_get (\<lambda>w.
          if \<not> allow_missing_controllers w
          then w_err (Unsupported (missing_text (filter (\<lambda>c. c \<notin> set enabled) (required_for res)) mount available))
          else w_ok ()))) (\<lambda>_. False)"
        using no by (intro yields_bind forward_intros) (auto simp: yields_def w_simps)
      then show ?thesis using False by (intro yields_bind_no) simp
    qed
  qed (intro forward_intros)+
  then show ?thesis using w(2) by (auto simp: yields_def)
qed

lemma limits_after_mkdir:
  assumes "cg_create cid res w = Some (Ok cg, w')" "\<not> allow_missing_controllers w" "(f, v) \<in> set (limit_plan res)"
  shows "\<exists>before r after. w_log w' = w_log w @ before @ [(KMkdir (cg_path cg), r)] @ after \<and> \<not> failed r \<and>
    succeeded (KWrite (path_join (cg_path cg) f) v) after"
proof -
  obtain base en s where s: "cg_prepare res w = Some (Ok (base, en), s)"
    "cg_make_leaf (path_join base cid) en res s = Some (Ok cg, w')"
    using assms(1) by (auto simp: cg_create_def w_simps)
  obtain u x where u: "cg = \<lparr>cg_path = path_join base cid, cg_enabled = en\<rparr>" "later s u" "later x w'"
    "since u x = [(KMkdir (path_join base cid), w_answer u (w_log u) (KMkdir (path_join base cid)))]"
    "\<not> failed (w_answer u (w_log u) (KMkdir (path_join base cid)))" "later u x"
    "cg_finish cg res x = Some (Ok (), w')"
    using cg_make_leaf_Ok [OF s(2)] by metis
  have "later w s" using s(1) by (rule laterI) (rule makes_forward [OF cg_prepare_calls])
  then have ws: "later w u" using u(2) later_trans by blast
  have "\<forall>c \<in> set (required_for res). cg_has cg c"
    using cg_prepare_enabled [OF assms(2) s(1)] u(1) by (auto simp: cg_has_def)
  then have "ensures (cg_apply cg res) (KWrite (path_join (cg_path cg) f) v)"
    using assms(3) by (rule apply_limits)
  then have "ensures (cg_finish cg res) (KWrite (path_join (cg_path cg) f) v)"
    unfolding cg_finish_def by (intro ensures_bind2 [OF ensures_bind1] forward_intros)
  then have "succeeded (KWrite (path_join (cg_path cg) f) v) (since x w')" using u(7) by (auto simp: ensures_def)
  moreover have "w_log w' = w_log w @ since w u @ since u x @ since x w'"
    using later_since [OF ws] later_since [OF u(6)] later_since [OF u(3)] by simp
  ultimately show ?thesis using u(1,4,5) by auto
qed

text \<open>
  C26: When \<open>create\<close> succeeds and the escape hatch is not set, every limit of the configuration has
  been accepted by the kernel: after the group's directory was made, each control file the
  configuration asks for was written with its value and the write succeeded.
\<close>
theorem limits_enforced:
  assumes "cg_create cid res w = Some (Ok cg, w')" "\<not> allow_missing_controllers w" "(f, v) \<in> set (limit_plan res)"
  shows "\<exists>before r after. w_log w' = w_log w @ before @ [(KMkdir (cg_path cg), r)] @ after \<and> \<not> failed r \<and>
    succeeded (KWrite (path_join (cg_path cg) f) v) after"
  by (rule limits_after_mkdir [OF assms])

text \<open>Preparing makes no directory but the shared base of the hierarchy it found.\<close>

lemma cg_prepare_makes_base:
  assumes "mount_point w = Some (Ok mount, v)" "cg_prepare res w = Some (r, u)" "(KMkdir p, x) \<in> set (since w u)"
  shows "p = path_join mount BASE_NAME"
proof -
  have lw: "makes (\<lambda>c. c \<noteq> KMkdir p) mount_point" by (intro forward_intros; simp)
  define rest where "rest = (let base = path_join mount BASE_NAME
     in w_bind (enable_subtree mount WANTED) (\<lambda>_.
        w_bind (k_exists base) (\<lambda>there.
        w_bind (if there then w_ok () else w_sys (KMkdir base) reply_unit (creating_error base)) (\<lambda>_.
        w_bind (enable_subtree base WANTED) (\<lambda>enabled.
        let missing = filter (\<lambda>c. c \<notin> set enabled) (required_for res)
        in w_bind (if missing = [] then w_ok ()
             else w_bind (available_controllers mount) (\<lambda>available.
               w_get (\<lambda>w. if \<not> allow_missing_controllers w
                 then w_err (Unsupported (missing_text missing mount available)) else w_ok ()))) (\<lambda>_.
           w_ok (base, enabled))))))) "
  have run: "rest v = Some (r, u)" using assms(1,2) by (simp add: cg_prepare_def w_bind_def rest_def)
  have m: "makes (\<lambda>c. c = KMkdir p \<longrightarrow> p = path_join mount BASE_NAME) rest"
    unfolding rest_def Let_def by (intro forward_intros) auto
  have "since w u = since w v @ since v u" using makes_later [OF lw assms(1)] makes_later [OF m run] since_trans by blast
  moreover have "(KMkdir p, x) \<notin> set (since w v)" using makesD [OF lw assms(1), of "KMkdir p" x] by auto
  ultimately show ?thesis using makesD [OF m run, of "KMkdir p" x] assms(3) by auto
qed

lemma leaf_is_not_base:
  assumes "validate_id cid = Ok ()"
  shows "path_join base cid \<noteq> base"
proof -
  have "cid \<noteq> []" "\<not> starts_with cid ''/''"
    using validate_id_component [OF assms] by (cases cid; auto)+
  then show ?thesis by (auto simp: path_join_def)
qed

text \<open>
  C27: When \<open>create\<close> fails although it had made the directory of the container's group, the last
  call it makes is the removal of that directory (whose own failure the code ignores), and it
  made no other directory but the shared base.
\<close>
theorem failed_create_removes:
  assumes "mount_point w = Some (Ok mount, v)" "validate_id cid = Ok ()"
    "cg_create cid res w = Some (Err e, w')" "succeeded (KMkdir (path_join (path_join mount BASE_NAME) cid)) (since w w')"
  shows "(\<exists>t r. since w w' = t @ [(KRmdir (path_join (path_join mount BASE_NAME) cid), r)]) \<and>
    (\<forall>p. succeeded (KMkdir p) (since w w') \<longrightarrow> p = path_join mount BASE_NAME \<or> p = path_join (path_join mount BASE_NAME) cid)"
proof -
  let ?base = "path_join mount BASE_NAME"
  have base: "p = ?base" if "cg_prepare res w = Some (r, u)" "succeeded (KMkdir p) (since w u)" for r u p
    using cg_prepare_makes_base [OF assms(1) that(1)] that(2) unfolding succeeded_def by blast
  have ne: "path_join ?base cid \<noteq> ?base" using assms(2) by (rule leaf_is_not_base)
  obtain b en s where s: "cg_prepare res w = Some (Ok (b, en), s)" "cg_make_leaf (path_join b cid) en res s = Some (Err e, w')"
  proof (cases "cg_prepare res w = Some (Err e, w')")
    case True
    then show thesis using base [OF True assms(4)] ne by simp
  next
    case False
    then show thesis using assms(3) that by (auto simp: cg_create_def w_simps)
  qed
  have l1: "later w s" using s(1) by (rule laterI) (rule makes_forward [OF cg_prepare_calls])
  have l2: "later s w'" using s(2) by (rule laterI) (intro forward_intros)
  note l = l1 l2
  have split: "succeeded (KMkdir p) (since w w') \<longleftrightarrow> succeeded (KMkdir p) (since w s) \<or> succeeded (KMkdir p) (since s w')" for p
    by (simp add: since_trans [OF l])
  have leaf: "b = ?base" using s(1) assms(1) by (auto simp: cg_prepare_def w_simps Let_def)
  have only: "p = path_join ?base cid" if "succeeded (KMkdir p) (since s w')" for p
    using failed_leaf_removes [OF s(2) that] made_leaf [OF s(2) that] leaf by simp
  have "succeeded (KMkdir (path_join ?base cid)) (since s w')" using assms(4) split base [OF s(1)] ne by blast
  then have "fst (last (w_log w')) = KRmdir (path_join ?base cid)" "since s w' \<noteq> []"
    using failed_leaf_removes [OF s(2)] by (auto simp: succeeded_def)
  then have "\<exists>t r. since w w' = t @ [(KRmdir (path_join ?base cid), r)]"
    using later_since [OF l(2)] since_trans [OF l]
    by (metis append_assoc append_butlast_last_id last_appendR prod.collapse)
  then show ?thesis using split base [OF s(1)] only by blast
qed

section \<open>Removal\<close>

lemma returns_cgroup [returns_intros]:
  "returns (cg_write cg f v)" "returns (cg_read cg f)" "returns (cg_pids cg)" "returns (cg_kill_all cg)"
proof -
  show w: "returns (cg_write cg f v)" for cg f v unfolding cg_write_def by (intro returns_intros)
  show r: "returns (cg_read cg f)" for cg f unfolding cg_read_def by (intro returns_intros)
  show p: "returns (cg_pids cg)" for cg unfolding cg_pids_def by (intro returns_intros r)
  show "returns (cg_kill_all cg)" unfolding cg_kill_all_def by (intro returns_intros w p)
qed

definition rmdir_of :: "string \<Rightarrow> kcall \<times> reply \<Rightarrow> bool" where
  "rmdir_of p e \<longleftrightarrow> fst e = KRmdir p"

text \<open>The directory is gone: removed just now, or no longer found.\<close>

definition gone :: "string \<Rightarrow> kcall \<times> reply \<Rightarrow> bool" where
  "gone p e \<longleftrightarrow> fst e = KRmdir p \<and> \<not> failed (snd e) \<or> fst e = KStat p \<and> (\<forall>d x. snd e \<noteq> RStat d x)"

definition removal :: "string \<Rightarrow> nat \<Rightarrow> unit res \<Rightarrow> klog \<Rightarrow> bool" where
  "removal p n r t \<longleftrightarrow> (case r of
      Ok _ \<Rightarrow> t \<noteq> [] \<and> gone p (last t)
    | Err _ \<Rightarrow> length (filter (rmdir_of p) t) = n \<and> list_all (\<lambda>e. rmdir_of p e \<longrightarrow> failed (snd e)) t)"

lemma kill_all_no_rmdir: "makes (\<lambda>c. c \<noteq> KRmdir p) (cg_kill_all cg)"
  unfolding cg_kill_all_def cg_pids_def by (intro forward_intros) simp_all

lemma removal_Suc:
  assumes "removal p n r t" "failed x" "list_all (\<lambda>e. \<not> rmdir_of p e) s"
  shows "removal p (Suc n) r ((KRmdir p, x) # s @ t)"
proof -
  have "filter (rmdir_of p) s = []" using assms(3) by (auto simp: filter_empty_conv list_all_iff)
  then show ?thesis using assms by (cases r) (auto simp: removal_def rmdir_of_def list_all_iff)
qed

text \<open>Between two attempts: what is done before the next one, and when there is none.\<close>

definition pause_between :: "cgroup \<Rightarrow> bool \<Rightarrow> int \<Rightarrow> unit act" where
  "pause_between cg first e =
     w_bind (if first \<and> e = EBUSY then w_ignore (cg_kill_all cg) else w_ok ()) (\<lambda>_. k_sleep 20)"

lemma pause_between_run: "\<exists>w'. pause_between cg first e w = Some (Ok (), w')"
proof -
  obtain u where u: "(if first \<and> e = EBUSY then w_ignore (cg_kill_all cg) else w_ok ()) w = Some (Ok (), u)"
    using returnsD [OF returns_cgroup(4), of cg w] by (cases "first \<and> e = EBUSY") (auto simp: w_ignore_def w_simps)
  moreover obtain v where "k_sleep 20 u = Some (Ok (), v)"
    by (cases "k_call (KSleep 20) u") (auto simp: k_sleep_def w_call_def w_interfere_def w_simps)
  ultimately show ?thesis by (simp add: pause_between_def w_bind_def)
qed

lemma pause_no_rmdir: "makes (\<lambda>c. c \<noteq> KRmdir p) (pause_between cg first e)"
  unfolding pause_between_def by (intro forward_intros kill_all_no_rmdir; simp)

lemma still_there_no_rmdir: "makes (\<lambda>c. c \<noteq> KRmdir p) (if e = EBUSY then w_ok True else k_exists q)"
  by (intro forward_intros; simp)

lemma still_there_run: "\<exists>there w'. (if e = EBUSY then w_ok True else k_exists p) w = Some (Ok there, w') \<and>
    (\<not> there \<longrightarrow> (\<exists>r. since w w' = [(KStat p, r)] \<and> (\<forall>d x. r \<noteq> RStat d x)))"
proof (cases "e = EBUSY")
  case False
  then show ?thesis by (auto simp: k_exists_def w_call_def k_call_def Let_def since_def w_simps split: reply.splits)
qed (auto simp: w_simps)

lemma pause_then: "w_bind (if first \<and> e = EBUSY then w_ignore (cg_kill_all cg) else w_ok ()) (\<lambda>_. w_bind (k_sleep 20) (\<lambda>_. m)) =
    w_bind (pause_between cg first e) (\<lambda>_. m)"
  unfolding pause_between_def by (rule ext) (simp add: w_bind_def split: option.split result.split)

lemma remove_loop_ends:
  "\<exists>r w'. cg_remove_loop cg first n w = Some (r, w') \<and> removal (cg_path cg) n r (since w w')"
proof (induction n arbitrary: first w)
  case 0
  then show ?case by (simp add: w_simps removal_def)
next
  case (Suc n)
  let ?p = "cg_path cg"
  obtain x u where u: "k_call (KRmdir ?p) w = (x, u)" by (cases "k_call (KRmdir ?p) w")
  note su = call_since [OF u]
  show ?case
  proof (cases "reply_unit x")
    case (Ok a)
    then have "\<not> failed x" by (cases x) auto
    then show ?thesis using Ok su by (auto simp: w_call_def u w_simps removal_def gone_def)
  next
    case (Err e)
    then have fx: "failed x" by (cases x) auto
    obtain there v where v: "(if e = EBUSY then w_ok True else k_exists ?p) u = Some (Ok there, v)"
        "\<not> there \<Longrightarrow> \<exists>r. since u v = [(KStat ?p, r)] \<and> (\<forall>d x. r \<noteq> RStat d x)"
      using still_there_run [of e ?p u] by blast
    note lv = makes_later [OF still_there_no_rmdir v(1)]
    obtain v' where v': "pause_between cg first e v = Some (Ok (), v')" using pause_between_run by blast
    note lv' = makes_later [OF pause_no_rmdir v']
    obtain r w' where r: "cg_remove_loop cg False n v' = Some (r, w')" "removal ?p n r (since v' w')" using Suc by blast
    have lw: "later v' w'" using r(1) by (rule laterI) (intro forward_intros)
    show ?thesis
    proof (cases there)
      case False
      moreover have "since w v = since w u @ since u v" using su lv by (intro since_trans) auto
      ultimately show ?thesis using v Err by (auto simp: w_call_def u w_simps removal_def gone_def w_bind_def w_ok_def)
    next
      case True
      have "since w w' = (KRmdir ?p, x) # (since u v @ since v v') @ since v' w'"
        unfolding since_trans [OF conjunct1 [OF su] later_trans [OF lv later_trans [OF lv' lw]]]
          since_trans [OF lv later_trans [OF lv' lw]] since_trans [OF lv' lw] by (simp add: su)
      moreover have "list_all (\<lambda>e. \<not> rmdir_of ?p e) (since u v @ since v v')"
        using makesD [OF still_there_no_rmdir v(1)] makesD [OF pause_no_rmdir v'] by (auto simp: list_all_iff rmdir_of_def)
      moreover have "cg_remove_loop cg first (Suc n) w = Some (r, w')"
        unfolding cg_remove_loop.simps pause_then using Err v(1) True v' r(1) by (simp add: w_call_def u w_bind_def)
      ultimately show ?thesis using removal_Suc [OF r(2) fx] by metis
    qed
  qed
qed

text \<open>
  C28: Removing a control group always returns.  It reports success only when its last call removed
  the directory or no longer found it, and failure only after fifty failed attempts to remove
  the directory.
\<close>
theorem remove_ends:
  "\<exists>r w'. cg_remove cg w = Some (r, w') \<and> removal (cg_path cg) 50 r (since w w')"
proof -
  let ?p = "cg_path cg"
  obtain x u where u: "k_call (KStat ?p) w = (x, u)" by (cases "k_call (KStat ?p) w")
  note su = call_since [OF u]
  obtain r w' where r: "cg_remove_loop cg True 50 u = Some (r, w')" "removal ?p 50 r (since u w')"
    using remove_loop_ends by blast
  have "later u w'" using r(1) by (rule laterI) (intro forward_intros)
  then have t: "since w w' = (KStat ?p, x) # since u w'" using su since_trans [of w u w'] by simp
  show ?thesis
  proof (cases "\<exists>d y. x = RStat d y")
    case True
    then have "cg_remove cg w = Some (r, w')" using r(1) by (auto simp: cg_remove_def k_exists_def w_bind_def w_call_def u w_ok_def)
    moreover have "removal ?p 50 r (since w w')"
      using r(2) unfolding t by (cases r) (auto simp: removal_def rmdir_of_def)
    ultimately show ?thesis by blast
  next
    case False
    then have "cg_remove cg w = Some (Ok (), u)"
      by (auto simp: cg_remove_def k_exists_def w_bind_def w_call_def u w_ok_def split: reply.splits)
    moreover have "removal ?p 50 (Ok ()) (since w u)" using False su by (simp add: removal_def gone_def)
    ultimately show ?thesis by blast
  qed
qed

section \<open>A host\<close>

text \<open>A kernel with a cgroup2 hierarchy that accepts everything.\<close>

definition cgroup_host :: "kcall \<Rightarrow> reply" where
  "cgroup_host c = (case c of
     KRead p \<Rightarrow> if p = ''/proc/self/mountinfo''
       then RData ''1 1 0 / /c r a - cgroup2 x'' else RData []
   | KStat p \<Rightarrow> RFail 2
   | _ \<Rightarrow> RDone)"

definition demo_resources :: resources where
  "demo_resources = resources_default\<lparr>r_pids := Some 100\<rparr>"

lemma demo_mountinfo: "parse_mountinfo ''1 1 0 / /c r a - cgroup2 x'' = Some [\<lparr>me_mount_id = 1, me_parent_id = 1,
    me_root = ''/'', me_mount_point = ''/c'', me_options = ''r'', me_fstype = ''cgroup2'', me_source = ''x'',
    me_super_options = []\<rparr>]"
  by code_simp

lemma demo_text: "utf8_valid ''1 1 0 / /c r a - cgroup2 x''" "str_trim [] = []" "split_whitespace [] = []"
  by code_simp+

lemmas cgroup_run = run_simps cgroup_host_def demo_mountinfo demo_text cg_create_def cg_prepare_def mount_point_def
  find_cgroup2_mount_def mountinfo_for_def enable_subtree_def read_list_def WANTED_def path_join_def BASE_NAME_def
  required_for_def cg_make_leaf_def cg_finish_def cg_apply_def w_when_def ends_with_def demo_resources_def
  resources_default_def

lemmas cgroup_run_limits = run_simps cgroup_host_def w_fault_def cpu_max_value_def cg_write_if_def cg_has_def cg_write_def

theorem limits_enforced_witness:
  "\<exists>cg w'. cg_create ''c1'' demo_resources (calm_world empty_fs empty_pipe cgroup_host (\<lambda>_. None)) = Some (Ok cg, w') \<and>
     (\<exists>before r after. w_log w' = before @ [(KMkdir (cg_path cg), r)] @ after \<and>
       succeeded (KWrite (path_join (cg_path cg) ''pids.max'') ''100'') after)"
proof -
  let ?w = "calm_world empty_fs empty_pipe cgroup_host (\<lambda>_. None)"
  have "\<exists>cg w'. cg_create ''c1'' demo_resources ?w = Some (Ok cg, w')"
    by (simp add: cgroup_run) (simp add: cgroup_run_limits)
  then obtain cg w' where c: "cg_create ''c1'' demo_resources ?w = Some (Ok cg, w')" by blast
  have "show_u64 100 = ''100''" by code_simp
  then have "(''pids.max'', ''100'') \<in> set (limit_plan demo_resources)"
    by (simp add: limit_plan_def demo_resources_def resources_default_def cpu_max_value_def)
  moreover have "\<not> allow_missing_controllers ?w" by (simp add: allow_missing_controllers_def calm_world_def)
  ultimately have "\<exists>before r after. w_log w' = w_log ?w @ before @ [(KMkdir (cg_path cg), r)] @ after \<and> \<not> failed r \<and>
      succeeded (KWrite (path_join (cg_path cg) ''pids.max'') ''100'') after"
    using limits_enforced [OF c, of "''pids.max''" "''100''"] by blast
  moreover have "w_log ?w = []" by (simp add: calm_world_def)
  ultimately show ?thesis using c by (metis append_Nil)
qed

theorem failed_create_removes_witness:
  "\<exists>e w'. cg_create ''c1'' demo_resources
      (calm_world empty_fs empty_pipe cgroup_host (\<lambda>_. Some ''after_cgroup_limits'')) = Some (Err e, w') \<and>
     fst (last (w_log w')) = KRmdir ''/c/myrun/c1''"
proof -
  let ?w = "calm_world empty_fs empty_pipe cgroup_host (\<lambda>_. Some ''after_cgroup_limits'')"
  let ?p = "''/c/myrun/c1''"
  have f: "fault_check (Some ''after_cgroup_limits'') ''after_cgroup_create'' = Ok ()"
    "fault_check (Some ''after_cgroup_limits'') ''after_cgroup_limits'' = Err (error.Fault ''after_cgroup_limits'')"
    by code_simp+
  have "\<exists>e w'. cg_create ''c1'' demo_resources ?w = Some (Err e, w') \<and> succeeded (KMkdir ?p) (since ?w w')"
    by (simp add: cgroup_run) (simp add: cgroup_run_limits f succeeded_def since_def)
  then obtain e w' where c: "cg_create ''c1'' demo_resources ?w = Some (Err e, w')" "succeeded (KMkdir ?p) (since ?w w')"
    by blast
  have m: "\<exists>v. mount_point ?w = Some (Ok ''/c'', v)" by (simp add: cgroup_run)
  have i: "validate_id ''c1'' = Ok ()" "path_join (path_join ''/c'' BASE_NAME) ''c1'' = ?p" by code_simp+
  obtain v where "mount_point ?w = Some (Ok ''/c'', v)" using m by blast
  from failed_create_removes [OF this i(1) c(1)] c(2) i(2) have "\<exists>t r. since ?w w' = t @ [(KRmdir ?p, r)]" by auto
  then show ?thesis using c(1) by (auto simp: since_def calm_world_def)
qed

end
