(* ===== verification/Iptables.thy ===== *)
theory Iptables
  imports Cgroup_Laws
begin

text \<open>
  \<open>src/runtime/nat.rs\<close>: masquerading, forwarding and published ports.  The \<open>iptables\<close> program is
  run by the call \<open>KRun\<close>.
\<close>

section \<open>Running the program\<close>

definition NAT_TABLE :: string where "NAT_TABLE = ''nat''"
definition FILTER_TABLE :: string where "FILTER_TABLE = ''filter''"
definition CHAIN_PRE :: string where "CHAIN_PRE = ''MYRUN-PRE''"
definition CHAIN_POST :: string where "CHAIN_POST = ''MYRUN-POST''"
definition CHAIN_FWD :: string where "CHAIN_FWD = ''MYRUN-FWD''"

definition iptables_bin :: "world \<Rightarrow> string" where
  "iptables_bin w = unwrap_or ''iptables'' (w_env w ''MYRUN_IPTABLES'')"

definition lossy :: "string \<Rightarrow> string" where
  "lossy s = from_utf8_lossy (bytes_of s)"

definition iptables_run :: "(reply \<Rightarrow> 'a act) \<Rightarrow> string list \<Rightarrow> 'a act" where
  "iptables_run f args = w_get (\<lambda>w. w_call (KRun (iptables_bin w) args) f)"

definition nat_available :: "bool act" where
  "nat_available = iptables_run (\<lambda>r. w_ok (case r of RExit ok _ _ \<Rightarrow> ok | _ \<Rightarrow> False)) [''-t'', ''nat'', ''-S'']"

definition ipt :: "string list \<Rightarrow> string act" where
  "ipt args = iptables_run (\<lambda>r. case r of
     RExit ok out err \<Rightarrow>
       if ok then w_ok (lossy out)
       else w_err (Container (''iptables '' @ str_join '' '' args @ '' failed: '' @ str_trim (lossy err)))
   | RFail e \<Rightarrow> w_get (\<lambda>w. w_err (Io (''running iptables: '' @ io_text w e)))
   | _ \<Rightarrow> w_get (\<lambda>w. w_err (Io (''running iptables: '' @ io_text w EIO)))) args"

definition ipt_ok :: "string list \<Rightarrow> bool act" where
  "ipt_ok args = w_try (ipt args) (\<lambda>r. w_ok (is_ok r))"

definition nat_tag :: "string \<Rightarrow> string" where
  "nat_tag i = ''myrun:'' @ i"

definition chain_exists :: "string \<Rightarrow> string \<Rightarrow> bool act" where
  "chain_exists table chain = ipt_ok [''-t'', table, ''-S'', chain]"

definition rule_exists :: "string \<Rightarrow> string list \<Rightarrow> bool act" where
  "rule_exists table args = ipt_ok ([''-t'', table, ''-C''] @ args)"

definition append_unique :: "string \<Rightarrow> string list \<Rightarrow> unit act" where
  "append_unique table args = w_bind (rule_exists table args) (\<lambda>there.
     if there then w_ok ()
     else w_bind (ipt ([''-t'', table, ''-A''] @ args)) (\<lambda>_. w_ok ()))"

definition insert_unique :: "string \<Rightarrow> string list \<Rightarrow> unit act" where
  "insert_unique table args = w_bind (rule_exists table args) (\<lambda>there.
     if there then w_ok ()
     else w_bind (ipt ([''-t'', table, ''-I''] @ args)) (\<lambda>_. w_ok ()))"

section \<open>Forwarding and chains\<close>

definition enable_sysctl :: "string \<Rightarrow> string \<Rightarrow> unit act" where
  "enable_sysctl p what = w_try (read_trimmed p) (\<lambda>r.
     if r = Ok ''1'' then w_ok ()
     else w_map_err (\<lambda>e. Container (what @ display_error e)) (k_write_file p ''1''))"

definition enable_ip_forwarding :: "unit act" where
  "enable_ip_forwarding = enable_sysctl ''/proc/sys/net/ipv4/ip_forward'' ''enabling IPv4 forwarding: ''"

definition enable_route_localnet :: "unit act" where
  "enable_route_localnet = enable_sysctl ''/proc/sys/net/ipv4/conf/all/route_localnet'' ''enabling route_localnet: ''"

definition our_chains :: "(string \<times> string) list" where
  "our_chains = [(NAT_TABLE, CHAIN_PRE), (NAT_TABLE, CHAIN_POST), (FILTER_TABLE, CHAIN_FWD)]"

definition with_comment :: "string list \<Rightarrow> string \<Rightarrow> string list" where
  "with_comment args c = args @ [''-m'', ''comment'', ''--comment'', c]"

definition guard_rule :: "string list" where
  "guard_rule = with_comment
     [''INPUT'', ''!'', ''-i'', ''lo'', ''-d'', ''127.0.0.0/8'', ''-m'', ''conntrack'', ''--ctstate'', ''NEW'',
      ''-j'', ''DROP''] (nat_tag ''base'')"

definition ensure_chains :: "unit act" where
  "ensure_chains =
     w_bind (w_each (\<lambda>(table, chain). w_bind (chain_exists table chain) (\<lambda>there.
       if there then w_ok () else w_bind (ipt [''-t'', table, ''-N'', chain]) (\<lambda>_. w_ok ()))) our_chains) (\<lambda>_.
     w_bind (insert_unique NAT_TABLE [''PREROUTING'', ''-j'', CHAIN_PRE]) (\<lambda>_.
     w_bind (insert_unique NAT_TABLE [''OUTPUT'', ''-j'', CHAIN_PRE]) (\<lambda>_.
     w_bind (insert_unique NAT_TABLE [''POSTROUTING'', ''-j'', CHAIN_POST]) (\<lambda>_.
     w_bind (insert_unique FILTER_TABLE [''FORWARD'', ''-j'', CHAIN_FWD]) (\<lambda>_.
       insert_unique FILTER_TABLE guard_rule)))))"

text \<open>The rules of a bridge, in the order they are appended.\<close>

definition bridge_rules :: "string \<Rightarrow> string \<Rightarrow> bool \<Rightarrow> (string \<times> string list) list" where
  "bridge_rules bridge subnet natted =
     (if natted then [(NAT_TABLE, with_comment [CHAIN_POST, ''-s'', subnet, ''!'', ''-o'', bridge, ''-j'', ''MASQUERADE''] (nat_tag ''base''))]
      else []) @
     [(NAT_TABLE, with_comment [CHAIN_POST, ''-s'', ''127.0.0.0/8'', ''-o'', bridge, ''-j'', ''MASQUERADE''] (nat_tag ''base'')),
      (FILTER_TABLE, with_comment [CHAIN_FWD, ''-i'', bridge, ''!'', ''-o'', bridge, ''-j'', ''ACCEPT''] (nat_tag ''base'')),
      (FILTER_TABLE, with_comment [CHAIN_FWD, ''-o'', bridge, ''-m'', ''conntrack'', ''--ctstate'', ''RELATED,ESTABLISHED'',
        ''-j'', ''ACCEPT''] (nat_tag ''base'')),
      (FILTER_TABLE, with_comment [CHAIN_FWD, ''-i'', bridge, ''-o'', bridge, ''-j'', ''ACCEPT''] (nat_tag ''base''))]"

definition setup_bridge :: "string \<Rightarrow> string \<Rightarrow> bool \<Rightarrow> unit act" where
  "setup_bridge bridge subnet natted =
     w_bind enable_ip_forwarding (\<lambda>_.
     w_bind (w_ignore enable_route_localnet) (\<lambda>_.
     w_bind ensure_chains (\<lambda>_.
     w_bind (w_each (\<lambda>(table, args). append_unique table args) (bridge_rules bridge subnet natted)) (\<lambda>_.
       w_fault ''after_nat_rules''))))"

definition show_u16 :: "u16 \<Rightarrow> string" where
  "show_u16 x = show_nat (unat x)"

definition publish_rules :: "string \<Rightarrow> string \<Rightarrow> ipv4 \<Rightarrow> port_mapping \<Rightarrow> (string \<times> string list) list" where
  "publish_rules i bridge addr m =
     (let ip = format_ipv4 addr;
          dest = ip @ '':'' @ show_u16 (container_port m);
          hp = show_u16 (host_port m);
          cp = show_u16 (container_port m)
      in [(NAT_TABLE, with_comment [CHAIN_PRE, ''-p'', protocol m, ''--dport'', hp, ''-j'', ''DNAT'', ''--to-destination'', dest]
             (nat_tag i)),
          (NAT_TABLE, with_comment [CHAIN_POST, ''-s'', ip, ''-d'', ip, ''-p'', protocol m, ''--dport'', cp, ''-j'', ''MASQUERADE'']
             (nat_tag i)),
          (FILTER_TABLE, with_comment [CHAIN_FWD, ''-o'', bridge, ''-d'', ip, ''-p'', protocol m, ''--dport'', cp, ''-j'', ''ACCEPT'']
             (nat_tag i))])"

definition nat_publish :: "string \<Rightarrow> string \<Rightarrow> ipv4 \<Rightarrow> port_mapping \<Rightarrow> unit act" where
  "nat_publish i bridge addr m =
     w_bind ensure_chains (\<lambda>_. w_each (\<lambda>(table, args). append_unique table args) (publish_rules i bridge addr m))"

section \<open>Removing rules\<close>

text \<open>
  \<open>split_rule\<close> by bytes: a multi-byte character that is not white space is copied byte by byte,
  which none of its later bytes can change.
\<close>

function split_rule_loop :: "bool \<Rightarrow> string \<Rightarrow> string \<Rightarrow> string list" where
  "split_rule_loop q cur [] = (if cur = [] then [] else [cur])"
| "split_rule_loop q cur (c # s) =
     (if c = CHR 0x22 then split_rule_loop (\<not> q) cur s
      else if ws_len (c # s) \<noteq> 0 \<and> \<not> q
      then (if cur = [] then [] else [cur]) @ split_rule_loop q [] (drop (ws_len (c # s)) (c # s))
      else split_rule_loop q (cur @ [c]) s)"
  by pat_completeness auto
termination by (relation "measure (\<lambda>(q, cur, s). length s)") auto

definition split_rule :: "string \<Rightarrow> string list" where
  "split_rule line = split_rule_loop False [] line"

definition tagged_line :: "string \<Rightarrow> string \<Rightarrow> bool" where
  "tagged_line i line \<longleftrightarrow> starts_with line ''-A '' \<and>
     (str_contains line (''--comment '' @ nat_tag i) \<or>
      str_contains line (''--comment '' @ [CHR 0x22] @ nat_tag i @ [CHR 0x22]))"

definition rules_of_dump :: "string \<Rightarrow> string \<Rightarrow> string \<Rightarrow> (string \<times> string list) list" where
  "rules_of_dump i table dump = map (Pair table) (filter (\<lambda>args. args \<noteq> [])
     (map (\<lambda>line. split_rule (drop 3 line)) (filter (tagged_line i) (str_lines dump))))"

definition tagged_rules :: "string \<Rightarrow> (string \<times> string list) list act" where
  "tagged_rules i = w_fold (\<lambda>table out.
     w_try (ipt [''-t'', table, ''-S'']) (\<lambda>r. w_ok (case r of
       Ok dump \<Rightarrow> out @ rules_of_dump i table dump | Err _ \<Rightarrow> out))) [NAT_TABLE, FILTER_TABLE] []"

definition nat_cleanup :: "string \<Rightarrow> nat act" where
  "nat_cleanup i = w_bind (tagged_rules i) (\<lambda>rules.
     w_fold (\<lambda>(table, args) removed.
       w_bind (ipt_ok ([''-t'', table, ''-D''] @ args)) (\<lambda>ok. w_ok (if ok then removed + 1 else removed))) rules 0)"

definition teardown_base :: "unit act" where
  "teardown_base =
     w_bind (nat_cleanup ''base'') (\<lambda>_.
     w_bind (ipt_ok ([''-t'', FILTER_TABLE, ''-D''] @ guard_rule)) (\<lambda>_.
     w_bind (w_each (\<lambda>(table, chain, parent). w_bind (ipt_ok [''-t'', table, ''-D'', parent, ''-j'', chain]) (\<lambda>_. w_ok ()))
       [(NAT_TABLE, CHAIN_PRE, ''PREROUTING''), (NAT_TABLE, CHAIN_PRE, ''OUTPUT''),
        (NAT_TABLE, CHAIN_POST, ''POSTROUTING''), (FILTER_TABLE, CHAIN_FWD, ''FORWARD'')]) (\<lambda>_.
       w_each (\<lambda>(table, chain). w_bind (ipt_ok [''-t'', table, ''-F'', chain]) (\<lambda>_.
         w_bind (ipt_ok [''-t'', table, ''-X'', chain]) (\<lambda>_. w_ok ()))) our_chains)))"

definition rule_count :: "string \<Rightarrow> nat act" where
  "rule_count i = w_bind (tagged_rules i) (\<lambda>rules. w_ok (length rules))"

end
