(* ===== verification/Iptables_Laws.thy ===== *)
theory Iptables_Laws
  imports Iptables "HOL-Library.Multiset"
begin

text \<open>
  What the firewall code promises: removing the rules of a container removes exactly the rules
  that carry its tag, as long as no other rule is printed with that tag in its text.
\<close>

section \<open>Rules and how they are printed\<close>

text \<open>
  A rule is the list of arguments of \<open>iptables -A\<close>.  \<open>iptables -S\<close> prints the arguments with blanks
  between them, and a comment in double quotes unless it consists of letters, digits, underscores
  and hyphens.  The tags hold a colon, so they are quoted.
\<close>

definition simple_char :: "char \<Rightarrow> bool" where
  "simple_char c \<longleftrightarrow> is_ascii_alphanumeric c \<or> c = CHR ''_'' \<or> c = CHR ''-''"

definition dquote :: "string \<Rightarrow> string" where
  "dquote s = CHR 0x22 # s @ [CHR 0x22]"

definition show_comment :: "string \<Rightarrow> string" where
  "show_comment s = (if s \<noteq> [] \<and> list_all simple_char s then s else dquote s)"

fun show_args :: "string list \<Rightarrow> string list" where
  "show_args [] = []"
| "show_args [a] = [a]"
| "show_args (a # b # r) = (if a = ''--comment'' then a # show_comment b # show_args r else a # show_args (b # r))"

definition dump_line :: "string list \<Rightarrow> string" where
  "dump_line r = str_join '' '' (''-A'' # show_args r)"

fun comments :: "string list \<Rightarrow> string list" where
  "comments [] = []"
| "comments [a] = []"
| "comments (a # b # r) = (if a = ''--comment'' then b # comments r else comments (b # r))"

text \<open>
  The rules whose printed form shows their arguments one by one: no argument is empty or has a
  blank, a quote or a backslash in it, no argument but the option itself ends with the word
  \<open>--comment\<close>, and no comment is that word.
\<close>

definition plain :: "string \<Rightarrow> bool" where
  "plain s \<longleftrightarrow> s \<noteq> [] \<and> list_all (\<lambda>c. graphic c \<and> c \<noteq> CHR 0x22 \<and> c \<noteq> CHR 0x27 \<and> c \<noteq> CHR 0x5C) s"

definition rule_ok :: "string list \<Rightarrow> bool" where
  "rule_ok r \<longleftrightarrow> r \<noteq> [] \<and> list_all (\<lambda>a. plain a \<and> (ends_with a ''--comment'' \<longrightarrow> a = ''--comment'')) r \<and>
     ''--comment'' \<notin> set (comments r)"

lemma plainD: "plain s \<Longrightarrow> \<forall>c \<in> set s. graphic c" "plain s \<Longrightarrow> CHR 0x22 \<notin> set s" "plain s \<Longrightarrow> s \<noteq> []"
  by (auto simp: plain_def list_all_iff)

lemma not_graphic_blank: "\<not> graphic (CHR '' '')" "\<not> graphic (CHR 0x0A)"
  by (simp_all add: graphic_def byte_def)

lemma plain_no_blank: "plain s \<Longrightarrow> CHR '' '' \<notin> set s"
  using plainD(1) not_graphic_blank by metis

lemma split_rule_plain:
  "\<forall>c \<in> set a. graphic c \<and> c \<noteq> CHR 0x22 \<Longrightarrow> split_rule_loop q cur (a @ s) = split_rule_loop q (cur @ a) s"
  by (induction a arbitrary: cur) (simp_all add: ws_len_graphic)

lemma split_rule_quoted: "plain b \<Longrightarrow> split_rule_loop False [] (show_comment b @ s) = split_rule_loop False b s"
  using split_rule_plain [of b True "[]"] split_rule_plain [of b False "[]"]
  by (simp add: show_comment_def dquote_def plain_def list_all_iff)

lemma split_rule_blank:
  "split_rule_loop False cur (CHR '' '' # s) = (if cur = [] then [] else [cur]) @ split_rule_loop False [] s"
  by (simp add: ws_len_blank byte_def)

lemma split_rule_token:
  "plain a \<Longrightarrow> split_rule_loop False [] (a @ s) = split_rule_loop False a s"
  using split_rule_plain [of a False "[]" s] by (simp add: plain_def list_all_iff)

declare split_rule_loop.simps(2) [simp del]

lemma show_args_Nil [simp]: "show_args r = [] \<longleftrightarrow> r = []"
  by (cases r rule: show_args.cases) auto

lemma args_join_Cons: "ys \<noteq> [] \<Longrightarrow> str_join sep (x # ys) = x @ sep @ str_join sep ys"
  by (cases ys) auto

lemma split_show:
  "list_all plain r \<Longrightarrow> split_rule_loop False [] (str_join '' '' (show_args r)) = r"
proof (induction r rule: show_args.induct)
  case (2 a)
  then show ?case using split_rule_token [of a "[]"] by (simp add: plain_def)
next
  case (3 a b r)
  have p: "plain a" "plain b" "list_all plain r" using "3.prems" by simp_all
  note n = plainD(3) [OF p(1)] plainD(3) [OF p(2)]
  show ?case
  proof (cases "a = ''--comment''")
    case True
    have "split_rule_loop False b (if r = [] then [] else CHR '' '' # str_join '' '' (show_args r)) = b # r"
      using "3.IH"(1) [OF True p(3)] n by (simp add: split_rule_blank)
    moreover have "str_join '' '' (show_args (a # b # r)) =
        a @ CHR '' '' # show_comment b @ (if r = [] then [] else CHR '' '' # str_join '' '' (show_args r))"
      using True by (cases "r = []") (simp_all add: args_join_Cons)
    ultimately show ?thesis using n by (simp only: split_rule_token [OF p(1)] split_rule_blank split_rule_quoted [OF p(2)]) simp
  next
    case False
    have "str_join '' '' (show_args (a # b # r)) = a @ CHR '' '' # str_join '' '' (show_args (b # r))"
      using False by (simp add: args_join_Cons)
    then show ?thesis
      using n "3.IH"(2) [OF False] p by (simp only: split_rule_token [OF p(1)] split_rule_blank) simp
  qed
qed simp

lemma dump_line_eq: "r \<noteq> [] \<Longrightarrow> dump_line r = ''-A '' @ str_join '' '' (show_args r)"
  by (simp add: dump_line_def args_join_Cons)

lemma split_dump_line: "rule_ok r \<Longrightarrow> split_rule (drop 3 (dump_line r)) = r"
  by (auto simp: rule_ok_def dump_line_eq split_rule_def numeral_3_eq_3 list_all_iff intro!: split_show)

subsection \<open>A line carries a tag exactly when the rule has that comment\<close>

lemma contains_iff: "str_contains s p \<longleftrightarrow> (\<exists>x y. s = x @ p @ y)"
proof (induction s)
  case (Cons c s)
  have "(\<exists>x y. c # s = x @ p @ y) \<longleftrightarrow> (\<exists>y. c # s = p @ y) \<or> (\<exists>x y. s = x @ p @ y)" (is "?l \<longleftrightarrow> ?r")
  proof
    assume ?l
    then obtain x y where "c # s = x @ p @ y" by blast
    then show ?r by (cases x) auto
  next
    assume ?r
    then show ?l by (metis append_Cons append_Nil)
  qed
  with Cons show ?case by (simp add: starts_with_iff)
qed auto

lemma args_join_split:
  assumes "str_join [d] toks = x @ d # y" "\<forall>t \<in> set toks. d \<notin> set t"
  shows "\<exists>ts us. toks = ts @ us \<and> ts \<noteq> [] \<and> us \<noteq> [] \<and> str_join [d] ts = x \<and> str_join [d] us = y"
  using assms
proof (induction toks arbitrary: x)
  case (Cons t toks)
  show ?case
  proof (cases "toks = []")
    case True
    then show ?thesis using Cons.prems by (metis in_set_conv_decomp list.set_intros(1) str_join.simps(2))
  next
    case False
    with Cons.prems have e: "t @ d # str_join [d] toks = x @ d # y" by (simp add: args_join_Cons)
    have "d \<notin> set t" using Cons.prems by simp
    with e consider "x = t" "y = str_join [d] toks" | x' where "x = t @ d # x'" "str_join [d] toks = x' @ d # y"
      by (auto simp: append_eq_append_conv2 append_eq_Cons_conv Cons_eq_append_conv)
    then show ?thesis
    proof cases
      case 1
      with False show ?thesis by (intro exI [of _ "[t]"] exI [of _ toks]) auto
    next
      case 2
      with Cons.IH [OF 2(2)] Cons.prems obtain ts us where
        "toks = ts @ us" "ts \<noteq> []" "us \<noteq> []" "str_join [d] ts = x'" "str_join [d] us = y" by auto
      with 2(1) show ?thesis by (intro exI [of _ "t # ts"] exI [of _ us]) (simp add: args_join_Cons)
    qed
  qed
qed simp

lemma join_prefix:
  assumes "str_join [d] (b # us) = z @ y" "d \<notin> set z"
  shows "\<exists>q. b = z @ q"
proof (cases "us = []")
  case False
  then have "b @ d # str_join [d] us = z @ y" using assms(1) by (simp add: args_join_Cons)
  then show ?thesis using assms(2) by (auto simp: append_eq_append_conv2 append_eq_Cons_conv Cons_eq_append_conv)
qed (use assms in auto)

lemma join_snoc: "ts \<noteq> [] \<Longrightarrow> str_join sep (ts @ [a]) = str_join sep ts @ sep @ a"
  by (induction sep ts rule: str_join.induct) simp_all

lemma join_suffix:
  assumes "str_join [d] (ts @ [a]) = x @ z" "d \<notin> set z"
  shows "\<exists>p. a = p @ z"
proof (cases "ts = []")
  case False
  then have "(str_join [d] ts @ [d]) @ a = x @ z" using assms(1) by (simp add: join_snoc)
  then show ?thesis using assms(2) by (auto simp: append_eq_append_conv2 append_eq_Cons_conv Cons_eq_append_conv)
qed (use assms in auto)

text \<open>A needle with one blank in it is found in two neighbouring words.\<close>

lemma contains_words:
  assumes "str_contains (str_join [d] toks) (z1 @ d # z2)" "\<forall>t \<in> set toks. d \<notin> set t" "d \<notin> set z1" "d \<notin> set z2"
  shows "\<exists>ts a b us. toks = ts @ a # b # us \<and> (\<exists>p. a = p @ z1) \<and> (\<exists>q. b = z2 @ q)"
proof -
  obtain x y where "str_join [d] toks = (x @ z1) @ d # (z2 @ y)" using assms(1) by (auto simp: contains_iff)
  from args_join_split [OF this assms(2)] obtain ts us where
    t: "toks = ts @ us" "ts \<noteq> []" "us \<noteq> []" "str_join [d] ts = x @ z1" "str_join [d] us = z2 @ y" by blast
  obtain ts' a where a: "ts = ts' @ [a]" using t(2) by (metis rev_exhaust)
  obtain b us' where b: "us = b # us'" using t(3) by (cases us) auto
  show ?thesis using join_suffix [OF t(4) [unfolded a] assms(3)] join_prefix [OF t(5) [unfolded b] assms(4)] t(1) a b by auto
qed

lemma words_contain: "str_contains (str_join [d] (ts @ a # b # us)) (a @ d # b)"
proof -
  have "str_join [d] (a # b # us) = a @ d # b @ (if us = [] then [] else d # str_join [d] us)"
    by (cases us) auto
  moreover have "str_join [d] (ts @ a # b # us) = (if ts = [] then [] else str_join [d] ts @ [d]) @ str_join [d] (a # b # us)"
    by (induction ts) (auto simp: args_join_Cons)
  ultimately have "str_join [d] (ts @ a # b # us) =
      (if ts = [] then [] else str_join [d] ts @ [d]) @ (a @ d # b) @ (if us = [] then [] else d # str_join [d] us)"
    by (metis append.assoc append_Cons)
  then show ?thesis unfolding contains_iff by blast
qed

lemma show_args_words: "t \<in> set (show_args r) \<Longrightarrow> t \<in> set r \<or> (\<exists>b \<in> set r. t = dquote b)"
  by (induction r rule: show_args.induct) (auto simp: show_comment_def split: if_splits)

lemma show_args_comment:
  "show_args r = ts @ ''--comment'' # b # us \<Longrightarrow> ''--comment'' \<notin> set (comments r) \<Longrightarrow> \<exists>c \<in> set (comments r). b = show_comment c"
proof (induction r arbitrary: ts rule: show_args.induct)
  case (2 a)
  then show ?case by (simp add: Cons_eq_append_conv)
next
  case (3 x y r)
  show ?case
  proof (cases "x = ''--comment''")
    case True
    show ?thesis
    proof (cases "ts = []")
      case False
      with 3(3) True obtain t ts' where "ts = x # ts'" "show_comment y # show_args r = ts' @ ''--comment'' # b # us"
        by (cases ts) auto
      moreover have "show_comment y \<noteq> ''--comment''" using 3(4) True by (auto simp: show_comment_def dquote_def)
      ultimately obtain ts'' where "show_args r = ts'' @ ''--comment'' # b # us" by (cases ts') auto
      then show ?thesis using 3(1) [OF True] 3(4) True by auto
    qed (use 3 True in auto)
  next
    case False
    with 3(3) obtain ts' where "show_args (y # r) = ts' @ ''--comment'' # b # us" by (cases ts) auto
    then show ?thesis using 3(2) [OF False] 3(4) False by auto
  qed
qed simp

lemma comments_shown: "c \<in> set (comments r) \<Longrightarrow> \<exists>ts us. show_args r = ts @ ''--comment'' # show_comment c # us"
proof (induction r rule: show_args.induct)
  case (3 x y r)
  show ?case
  proof (cases "x = ''--comment'' \<and> c = y")
    case True
    then show ?thesis by (intro exI [of _ "[]"] exI [of _ "show_args r"]) simp
  next
    case False
    then consider "x = ''--comment''" "c \<in> set (comments r)" | "x \<noteq> ''--comment''" "c \<in> set (comments (y # r))"
      using 3(3) by (auto split: if_splits)
    then show ?thesis
    proof cases
      case 1
      then obtain ts us where "show_args r = ts @ ''--comment'' # show_comment c # us" using 3(1) by blast
      with 1 show ?thesis by (intro exI [of _ "x # show_comment y # ts"] exI [of _ us]) simp
    next
      case 2
      then obtain ts us where "show_args (y # r) = ts @ ''--comment'' # show_comment c # us" using 3(2) by blast
      with 2 show ?thesis by (intro exI [of _ "x # ts"] exI [of _ us]) simp
    qed
  qed
qed auto

lemma rule_no_quote: "rule_ok r \<Longrightarrow> \<forall>a \<in> set r. CHR 0x22 \<notin> set a"
  by (auto simp: rule_ok_def list_all_iff plain_def)

text \<open>In a printed rule, what follows the word \<open>--comment\<close> is a comment of the rule.\<close>

lemma comment_follows:
  assumes r: "rule_ok r" and h: "str_contains (dump_line r) (''--comment'' @ CHR '' '' # z)" "CHR '' '' \<notin> set z"
  shows "\<exists>c \<in> set (comments r). \<exists>q. show_comment c = z @ q"
proof -
  let ?toks = "''-A'' # show_args r"
  have blanks: "\<forall>t \<in> set ?toks. CHR '' '' \<notin> set t"
    using r plain_no_blank show_args_words [of _ r] by (fastforce simp: rule_ok_def list_all_iff dquote_def)
  obtain ts a b us where w: "?toks = ts @ a # b # us" "\<exists>p. a = p @ ''--comment''" "\<exists>q. b = z @ q"
    using contains_words [OF h(1) [unfolded dump_line_def] blanks _ h(2)] by auto
  have e: "ends_with a ''--comment''" using w(2) by (auto simp: ends_with_def)
  then have "ts \<noteq> []" using w(1) by (auto simp: ends_with_def)
  then obtain ts' where s: "show_args r = ts' @ a # b # us" using w(1) by (cases ts) auto
  then have "a \<in> set (show_args r)" by simp
  from show_args_words [OF this] have "a = ''--comment''" using r e by (auto simp: rule_ok_def list_all_iff dquote_def ends_with_def)
  then show ?thesis using show_args_comment [OF s [unfolded \<open>a = _\<close>]] r w(3) by (auto simp: rule_ok_def)
qed

lemma quoted_prefix: "CHR 0x22 \<notin> set c \<Longrightarrow> dquote c = dquote t @ p \<Longrightarrow> c = t"
  by (cases p rule: rev_cases) (auto simp: dquote_def append_eq_append_conv2 append_eq_Cons_conv Cons_eq_append_conv)

lemma not_simple: "\<not> simple_char (CHR '':'')" "\<not> simple_char (CHR 0x22)"
  by code_simp+

lemma show_tag: "show_comment (nat_tag i) = dquote (nat_tag i)"
  using not_simple(1) by (auto simp: show_comment_def nat_tag_def)

lemma show_comment_is_no_tag: "show_comment c \<noteq> nat_tag i @ q"
proof
  assume "show_comment c = nat_tag i @ q"
  then have "list_all simple_char (nat_tag i @ q)" by (auto simp: show_comment_def nat_tag_def dquote_def split: if_splits)
  then show False using not_simple(1) by (simp add: nat_tag_def)
qed

lemma show_comment_tag:
  assumes "show_comment c = dquote (nat_tag i) @ p" "CHR 0x22 \<notin> set c"
  shows "c = nat_tag i"
proof -
  have "show_comment c = dquote c" using assms not_simple(2) by (auto simp: show_comment_def dquote_def split: if_splits)
  then show ?thesis using quoted_prefix [OF assms(2), of "nat_tag i" p] assms(1) by simp
qed

lemma tagged_line_iff:
  assumes r: "rule_ok r" and i: "plain i"
  shows "tagged_line i (dump_line r) \<longleftrightarrow> nat_tag i \<in> set (comments r)"
proof -
  let ?tag = "nat_tag i"
  have tag: "CHR '' '' \<notin> set ?tag" "CHR 0x22 \<notin> set ?tag"
    using plain_no_blank [OF i] plainD(2) [OF i] by (simp_all add: nat_tag_def)
  have "starts_with (dump_line r) ''-A ''" using r by (simp add: rule_ok_def dump_line_eq)
  moreover have "\<not> str_contains (dump_line r) (''--comment '' @ ?tag)"
    using comment_follows [OF r, of ?tag] tag show_comment_is_no_tag by auto
  moreover have "str_contains (dump_line r) (''--comment '' @ [CHR 0x22] @ ?tag @ [CHR 0x22]) \<longleftrightarrow> ?tag \<in> set (comments r)" (is "?l \<longleftrightarrow> ?m")
  proof
    assume ?l
    then obtain c p where c: "c \<in> set (comments r)" "show_comment c = dquote ?tag @ p"
      using comment_follows [OF r, of "dquote ?tag"] tag by (auto simp: dquote_def)
    have "c \<in> set r" using c(1) by (induction r rule: comments.induct) (auto split: if_splits)
    then show ?m using c show_comment_tag [OF c(2)] rule_no_quote [OF r] by blast
  next
    assume ?m
    from comments_shown [OF this] obtain ts us where "show_args r = ts @ ''--comment'' # dquote ?tag # us" unfolding show_tag by blast
    then have "''-A'' # show_args r = (''-A'' # ts) @ ''--comment'' # dquote ?tag # us" by simp
    from words_contain [of "CHR '' ''" "''-A'' # ts" "''--comment''" "dquote ?tag" us, folded this] show ?l
      by (simp add: dump_line_def dquote_def)
  qed
  ultimately show ?thesis by (simp add: tagged_line_def)
qed

section \<open>The contract of the packet filter\<close>

text \<open>
  \<open>rules t T\<close> are the rules of table \<open>T\<close> after the calls \<open>t\<close>, in the order \<open>-S\<close> lists them, and
  \<open>line r\<close> is how \<open>-S\<close> prints the rule \<open>r\<close>.  Only of the rules whose arguments need no quoting but
  for the comment is it said what that line looks like.
\<close>

lemma fold_remove1_notin: "x \<notin> set ys \<Longrightarrow> fold remove1 ys (x # xs) = x # fold remove1 ys xs"
  by (induction ys arbitrary: xs) auto

lemma fold_remove1_filter: "fold remove1 (filter P xs) xs = filter (\<lambda>x. \<not> P x) xs"
  by (induction xs) (simp_all add: fold_remove1_notin)

locale packet_filter =
  fixes bin :: string
    and rules :: "klog \<Rightarrow> string \<Rightarrow> string list list"
    and answer :: "klog \<Rightarrow> kcall \<Rightarrow> reply"
    and line :: "string list \<Rightarrow> string"
  assumes dump: "\<exists>out err. answer t (KRun bin [''-t'', T, ''-S'']) = RExit True out err \<and>
      filter (\<lambda>l. starts_with l ''-A '') (str_lines (lossy out)) = map line (rules t T)"
    and dump_keeps: "rules (t @ [(KRun bin [''-t'', T, ''-S''], x)]) T' = rules t T'"
    and delete: "r \<in> set (rules t T) \<Longrightarrow> \<exists>out err. answer t (KRun bin ([''-t'', T, ''-D''] @ r)) = RExit True out err"
    and delete_effect: "rules (t @ [(KRun bin ([''-t'', T, ''-D''] @ r), RExit True out err)]) T' =
      (if T' = T then remove1 r (rules t T) else rules t T')"
    and line: "rule_ok r \<Longrightarrow> line r = dump_line r"
begin

definition tagged :: "string \<Rightarrow> string list \<Rightarrow> bool" where
  "tagged i r \<longleftrightarrow> tagged_line i (line r)"

text \<open>Every rule of the log's tables that is printed with the tag is printed argument by argument.\<close>

definition clear :: "string \<Rightarrow> klog \<Rightarrow> bool" where
  "clear i t \<longleftrightarrow> (\<forall>T. \<forall>r \<in> set (rules t T). tagged i r \<longrightarrow> rule_ok r)"

lemma rules_of_dump_eq:
  assumes "filter (\<lambda>l. starts_with l ''-A '') (str_lines out) = map line (rules t T)" "clear i t"
  shows "rules_of_dump i T out = map (Pair T) (filter (tagged i) (rules t T))"
proof -
  have "filter (tagged_line i) (str_lines out) = filter (tagged_line i) (filter (\<lambda>l. starts_with l ''-A '') (str_lines out))"
    by (auto simp: tagged_line_def intro!: filter_cong)
  also have "\<dots> = map line (filter (tagged i) (rules t T))"
    unfolding assms(1) by (simp add: filter_map o_def tagged_def [abs_def])
  finally have f: "filter (tagged_line i) (str_lines out) = map line (filter (tagged i) (rules t T))" .
  have r: "split_rule (drop 3 (line r)) = r" "r \<noteq> []" if "r \<in> set (filter (tagged i) (rules t T))" for r
  proof -
    have ok: "rule_ok r" using that assms(2) by (auto simp: clear_def)
    then show "split_rule (drop 3 (line r)) = r" "r \<noteq> []" using split_dump_line [OF ok] by (simp_all add: line rule_ok_def)
  qed
  have "map (\<lambda>l. split_rule (drop 3 l)) (map line (filter (tagged i) (rules t T))) = filter (tagged i) (rules t T)"
    unfolding map_map o_def by (rule map_idI) (rule r(1))
  moreover have "filter (\<lambda>a. a \<noteq> []) (filter (tagged i) (rules t T)) = filter (tagged i) (rules t T)"
    using r(2) by (intro filter_True) blast
  ultimately show ?thesis by (simp only: rules_of_dump_def f)
qed

text \<open>The host runs this packet filter.\<close>

definition hosts :: "world \<Rightarrow> bool" where
  "hosts w \<longleftrightarrow> w_answer w = answer \<and> iptables_bin w = bin"

lemma ipt_run:
  assumes "hosts w" "answer (w_log w) (KRun bin args) = RExit True out err"
  shows "\<exists>w'. ipt args w = Some (Ok (lossy out), w') \<and> hosts w' \<and> w_log w' = w_log w @ [(KRun bin args, RExit True out err)]"
  using assms
  by (auto simp: ipt_def iptables_run_def hosts_def w_get_def w_call_def k_call_def Let_def w_ok_def iptables_bin_def)

lemma dump_run:
  assumes "hosts w" "clear i (w_log w)"
  shows "\<exists>out w'. ipt [''-t'', T, ''-S''] w = Some (Ok out, w') \<and> hosts w' \<and>
    rules_of_dump i T out = map (Pair T) (filter (tagged i) (rules (w_log w) T)) \<and> rules (w_log w') = rules (w_log w)"
proof -
  obtain out err where a: "answer (w_log w) (KRun bin [''-t'', T, ''-S'']) = RExit True out err"
    and f: "filter (\<lambda>l. starts_with l ''-A '') (str_lines (lossy out)) = map line (rules (w_log w) T)"
    using dump by blast
  show ?thesis using ipt_run [OF assms(1) a] rules_of_dump_eq [OF f assms(2)] by (auto simp: dump_keeps fun_eq_iff)
qed

definition all_tagged :: "string \<Rightarrow> klog \<Rightarrow> (string \<times> string list) list" where
  "all_tagged i t = map (Pair NAT_TABLE) (filter (tagged i) (rules t NAT_TABLE)) @
     map (Pair FILTER_TABLE) (filter (tagged i) (rules t FILTER_TABLE))"

lemma tagged_rules_run:
  assumes "hosts w" "clear i (w_log w)"
  shows "\<exists>w'. tagged_rules i w = Some (Ok (all_tagged i (w_log w)), w') \<and> hosts w' \<and> rules (w_log w') = rules (w_log w)"
proof -
  obtain o1 u where u: "ipt [''-t'', NAT_TABLE, ''-S''] w = Some (Ok o1, u)" "hosts u"
    "rules_of_dump i NAT_TABLE o1 = map (Pair NAT_TABLE) (filter (tagged i) (rules (w_log w) NAT_TABLE))"
    "rules (w_log u) = rules (w_log w)" using dump_run [OF assms] by blast
  have c: "clear i (w_log u)" using assms(2) u(4) by (simp add: clear_def)
  obtain o2 v where v: "ipt [''-t'', FILTER_TABLE, ''-S''] u = Some (Ok o2, v)" "hosts v"
    "rules_of_dump i FILTER_TABLE o2 = map (Pair FILTER_TABLE) (filter (tagged i) (rules (w_log u) FILTER_TABLE))"
    "rules (w_log v) = rules (w_log u)" using dump_run [OF u(2) c] by blast
  show ?thesis using u v by (simp add: tagged_rules_def w_bind_def w_try_def w_ok_def all_tagged_def)
qed

lemma delete_run:
  assumes "hosts w" "r \<in> set (rules (w_log w) T)"
  shows "\<exists>w'. ipt_ok ([''-t'', T, ''-D''] @ r) w = Some (Ok True, w') \<and> hosts w' \<and>
    rules (w_log w') = (rules (w_log w))(T := remove1 r (rules (w_log w) T))"
proof -
  obtain out err where "answer (w_log w) (KRun bin ([''-t'', T, ''-D''] @ r)) = RExit True out err"
    using delete assms(2) by blast
  from ipt_run [OF assms(1) this] show ?thesis
    by (auto simp: ipt_ok_def w_try_def w_ok_def fun_eq_iff delete_effect simp del: append_Cons append_Nil)
qed

text \<open>The rules of one table among those to delete.\<close>

definition of_table :: "string \<Rightarrow> (string \<times> string list) list \<Rightarrow> string list list" where
  "of_table T xs = map snd (filter (\<lambda>x. fst x = T) xs)"

lemma delete_all:
  assumes "hosts w" "\<And>T. mset (of_table T xs) \<subseteq># mset (rules (w_log w) T)"
  shows "\<exists>w'. w_fold (\<lambda>(table, args) removed.
       w_bind (ipt_ok ([''-t'', table, ''-D''] @ args)) (\<lambda>ok. w_ok (if ok then removed + 1 else removed))) xs n w =
      Some (Ok (n + length xs), w') \<and> hosts w' \<and> (\<forall>T. rules (w_log w') T = fold remove1 (of_table T xs) (rules (w_log w) T))"
  using assms
proof (induction xs arbitrary: n w)
  case Nil
  then show ?case by (auto simp: w_ok_def of_table_def)
next
  case (Cons x xs)
  obtain T r where x: "x = (T, r)" by (cases x)
  have "add_mset r (mset (of_table T xs)) \<subseteq># mset (rules (w_log w) T)"
    using Cons.prems(2) [of T] by (simp add: x of_table_def)
  then have "r \<in> set (rules (w_log w) T)" by (metis insert_subset_eq_iff set_mset_mset)
  from delete_run [OF Cons.prems(1) this] obtain u where
    u: "ipt_ok ([''-t'', T, ''-D''] @ r) w = Some (Ok True, u)" "hosts u"
       "rules (w_log u) = (rules (w_log w))(T := remove1 r (rules (w_log w) T))" by blast
  have "mset (of_table T' xs) \<subseteq># mset (rules (w_log u) T')" for T'
  proof (cases "T' = T")
    case True
    then show ?thesis using Cons.prems(2) [of T] by (simp add: x u(3) of_table_def insert_subset_eq_iff)
  next
    case False
    then show ?thesis using Cons.prems(2) [of T'] by (simp add: x u(3) of_table_def)
  qed
  from Cons.IH [OF u(2) this, of "n + 1"] u show ?case
    by (auto simp: x w_bind_def w_ok_def of_table_def simp del: append_Cons append_Nil)
qed

lemma of_all_tagged:
  "of_table T (all_tagged i t) = (if T = NAT_TABLE \<or> T = FILTER_TABLE then filter (tagged i) (rules t T) else [])"
  by (auto simp: of_table_def all_tagged_def filter_map o_def NAT_TABLE_def FILTER_TABLE_def)

lemma cleanup_exact:
  assumes "hosts w" "clear i (w_log w)"
  shows "\<exists>w'. nat_cleanup i w = Some (Ok (length (all_tagged i (w_log w))), w') \<and> hosts w' \<and>
    (\<forall>T. rules (w_log w') T = (if T = NAT_TABLE \<or> T = FILTER_TABLE then filter (\<lambda>r. \<not> tagged i r) (rules (w_log w) T)
       else rules (w_log w) T))"
proof -
  obtain u where u: "tagged_rules i w = Some (Ok (all_tagged i (w_log w)), u)" "hosts u" "rules (w_log u) = rules (w_log w)"
    using tagged_rules_run [OF assms] by blast
  have "mset (of_table T (all_tagged i (w_log w))) \<subseteq># mset (rules (w_log u) T)" for T
    by (simp add: of_all_tagged u(3) multiset_filter_subset)
  from delete_all [OF u(2) this, of 0] u(1,3) show ?thesis
    by (auto simp: nat_cleanup_def w_bind_def of_all_tagged fold_remove1_filter)
qed

lemma cleanup_by_comment:
  assumes "hosts w" "plain i"
    and ok: "\<And>T r. r \<in> set (rules (w_log w) T) \<Longrightarrow> rule_ok r \<or> nat_tag i \<notin> set (comments r) \<and> \<not> tagged_line i (line r)"
  shows "\<exists>w'. nat_cleanup i w = Some (Ok (length (filter (\<lambda>r. nat_tag i \<in> set (comments r)) (rules (w_log w) NAT_TABLE)) +
      length (filter (\<lambda>r. nat_tag i \<in> set (comments r)) (rules (w_log w) FILTER_TABLE))), w') \<and>
    rules (w_log w') NAT_TABLE = filter (\<lambda>r. nat_tag i \<notin> set (comments r)) (rules (w_log w) NAT_TABLE) \<and>
    rules (w_log w') FILTER_TABLE = filter (\<lambda>r. nat_tag i \<notin> set (comments r)) (rules (w_log w) FILTER_TABLE)"
proof -
  have "clear i (w_log w)" unfolding clear_def using ok by (auto simp: tagged_def)
  moreover have "tagged i r \<longleftrightarrow> nat_tag i \<in> set (comments r)" if "r \<in> set (rules (w_log w) T)" for r T
    using ok [OF that] tagged_line_iff [OF _ assms(2)] line by (auto simp: tagged_def)
  then have "filter (tagged i) (rules (w_log w) T) = filter (\<lambda>r. nat_tag i \<in> set (comments r)) (rules (w_log w) T)"
    "filter (\<lambda>r. \<not> tagged i r) (rules (w_log w) T) = filter (\<lambda>r. nat_tag i \<notin> set (comments r)) (rules (w_log w) T)" for T
    by (auto intro!: filter_cong)
  ultimately show ?thesis using cleanup_exact [OF assms(1), of i] by (auto simp: all_tagged_def)
qed

end

section \<open>A packet filter that keeps the contract\<close>

text \<open>
  Tables kept as lists of rules, changed by the successful calls of the log.  A rule may have any
  arguments of visible characters and blanks.
\<close>

definition printable :: "string list \<Rightarrow> bool" where
  "printable r \<longleftrightarrow> r \<noteq> [] \<and> list_all (list_all (\<lambda>c. graphic c \<or> c = CHR '' '')) r"

fun table_step :: "string \<Rightarrow> kcall \<times> reply \<Rightarrow> (string \<Rightarrow> string list list) \<Rightarrow> string \<Rightarrow> string list list" where
  "table_step bin (KRun b (f # T # cmd # r), RExit True out err) S =
     (if b \<noteq> bin then S
      else if cmd = ''-D'' then S(T := remove1 r (S T))
      else if cmd = ''-A'' \<and> printable r then S(T := S T @ [r])
      else if cmd = ''-I'' \<and> printable r then S(T := r # S T)
      else S)"
| "table_step bin _ S = S"

definition tables :: "string \<Rightarrow> klog \<Rightarrow> string \<Rightarrow> string list list" where
  "tables bin t = fold (table_step bin) t (\<lambda>_. [])"

definition dump_text :: "string list list \<Rightarrow> string" where
  "dump_text rs = concat (map (\<lambda>r. dump_line r @ [CHR 0x0A]) rs)"

fun tables_answer :: "string \<Rightarrow> klog \<Rightarrow> kcall \<Rightarrow> reply" where
  "tables_answer bin t (KRun b (f # T # cmd # r)) =
     (if cmd = ''-S'' then RExit True (dump_text (tables bin t T)) []
      else if cmd = ''-D'' \<or> cmd = ''-C'' then RExit (r \<in> set (tables bin t T)) [] ''No such rule''
      else if cmd = ''-A'' \<or> cmd = ''-I'' then RExit (printable r) [] ''Bad rule''
      else RExit True [] [])"
| "tables_answer bin t _ = RDone"

lemma table_step_ok: "\<forall>T. \<forall>r \<in> set (S T). printable r \<Longrightarrow> \<forall>T. \<forall>r \<in> set (table_step bin e S T). printable r"
  by (induction bin e S rule: table_step.induct) (auto dest: notin_set_remove1 simp: in_set_remove1 split: if_splits)

lemma tables_ok: "r \<in> set (tables bin t T) \<Longrightarrow> printable r"
proof -
  have "\<forall>T. \<forall>r \<in> set (fold (table_step bin) t S T). printable r" if "\<forall>T. \<forall>r \<in> set (S T). printable r" for S
    using that
  proof (induction t arbitrary: S)
    case (Cons e t)
    from Cons.IH [OF table_step_ok [OF Cons.prems]] show ?case by simp
  qed simp
  from this [of "\<lambda>_. []"] show "r \<in> set (tables bin t T) \<Longrightarrow> printable r" by (simp add: tables_def)
qed

lemma dump_line_chars: "printable r \<Longrightarrow> c \<in> set (dump_line r) \<Longrightarrow> graphic c \<or> c = CHR '' ''"
proof -
  assume r: "printable r" and c: "c \<in> set (dump_line r)"
  have "c \<in> set (str_join '' '' ts) \<Longrightarrow> c = CHR '' '' \<or> (\<exists>t \<in> set ts. c \<in> set t)" for ts
    by (induction "'' ''" ts rule: str_join.induct) auto
  then have "c = CHR '' '' \<or> (\<exists>t \<in> set (''-A'' # show_args r). c \<in> set t)" using c unfolding dump_line_def by blast
  then show ?thesis using r show_args_words [of _ r]
    by (fastforce simp: printable_def list_all_iff dquote_def graphic_def byte_def)
qed

lemma dump_line_no_newline: "printable r \<Longrightarrow> CHR 0x0A \<notin> set (dump_line r)"
  using dump_line_chars not_graphic_blank by force

lemma dump_line_start: "printable r \<Longrightarrow> starts_with (dump_line r) ''-A ''"
  by (simp add: printable_def dump_line_eq)

lemma dump_line_strip: "printable r \<Longrightarrow> strip_cr (dump_line r) = dump_line r"
proof -
  assume r: "printable r"
  then have "dump_line r \<noteq> []" using dump_line_start by fastforce
  then have "graphic (last (dump_line r)) \<or> last (dump_line r) = CHR '' ''" using dump_line_chars [OF r] last_in_set by blast
  then show ?thesis by (auto simp: strip_cr_def graphic_def byte_def)
qed

lemma dump_text_lines: "\<forall>r \<in> set rs. printable r \<Longrightarrow> str_lines (dump_text rs) = map dump_line rs"
proof (induction rs)
  case (Cons r rs)
  have "str_split (dump_text (r # rs)) (CHR 0x0A) = dump_line r # str_split (dump_text rs) (CHR 0x0A)"
    using Cons.prems by (simp add: dump_text_def str_split_append dump_line_no_newline)
  moreover obtain p ps where "str_split (dump_text rs) (CHR 0x0A) = p # ps"
    by (metis neq_Nil_conv str_split_nonempty)
  ultimately show ?case using Cons by (simp add: str_lines_def dump_line_strip)
qed (simp add: dump_text_def str_lines_def)

lemma dump_text_valid: "\<forall>r \<in> set rs. printable r \<Longrightarrow> lossy (dump_text rs) = dump_text rs"
proof -
  assume rs: "\<forall>r \<in> set rs. printable r"
  have "\<forall>c \<in> set (dump_text rs). byte c < 0x80"
  proof
    fix c assume "c \<in> set (dump_text rs)"
    then consider r where "r \<in> set rs" "c \<in> set (dump_line r)" | "c = CHR 0x0A" by (auto simp: dump_text_def split: if_splits)
    then have "graphic c \<or> c = CHR '' '' \<or> c = CHR 0x0A" using rs dump_line_chars by cases blast+
    then show "byte c < 0x80" by (auto simp: graphic_def byte_def)
  qed
  then show ?thesis unfolding lossy_def by (intro lossy_valid utf8_valid_ascii)
qed

interpretation pf: packet_filter bin "tables bin" "tables_answer bin" dump_line for bin
proof
  show "\<exists>out err. tables_answer bin t (KRun bin [''-t'', T, ''-S'']) = RExit True out err \<and>
      filter (\<lambda>l. starts_with l ''-A '') (str_lines (lossy out)) = map dump_line (tables bin t T)" for t T
    using tables_ok by (auto simp: dump_text_valid dump_text_lines filter_map o_def dump_line_start intro!: arg_cong [where f = "map dump_line"])
  show "tables bin (t @ [(KRun bin [''-t'', T, ''-S''], x)]) T' = tables bin t T'" for t T x T'
    by (cases "(bin, (KRun bin [''-t'', T, ''-S''], x), tables bin t)" rule: table_step.cases) (auto simp: tables_def)
qed (simp_all add: tables_def)

section \<open>What the firewall code promises\<close>

text \<open>
  C25: For every packet filter that keeps the contract, cleaning up after a container removes from
  both tables all the rules whose comment is the container's tag, leaves every other rule in its
  place and returns how many it removed.  Every rule present must either be printed argument by
  argument (no blank, quote or backslash inside an argument), or be a foreign rule of any form
  whose printed line does not happen to contain the option \<open>--comment\<close> followed by the tag: the
  code looks for that text anywhere in the line.
\<close>

theorem cleanup_removes_exactly:
  assumes "packet_filter bin rules answer line" "w_answer w = answer" "iptables_bin w = bin" "plain i"
    and "\<And>T r. r \<in> set (rules (w_log w) T) \<Longrightarrow> rule_ok r \<or> nat_tag i \<notin> set (comments r) \<and> \<not> tagged_line i (line r)"
  shows "\<exists>w'. nat_cleanup i w = Some (Ok (length (filter (\<lambda>r. nat_tag i \<in> set (comments r)) (rules (w_log w) NAT_TABLE)) +
      length (filter (\<lambda>r. nat_tag i \<in> set (comments r)) (rules (w_log w) FILTER_TABLE))), w') \<and>
    rules (w_log w') NAT_TABLE = filter (\<lambda>r. nat_tag i \<notin> set (comments r)) (rules (w_log w) NAT_TABLE) \<and>
    rules (w_log w') FILTER_TABLE = filter (\<lambda>r. nat_tag i \<notin> set (comments r)) (rules (w_log w) FILTER_TABLE)"
proof -
  have "packet_filter.hosts bin answer w" using assms(2,3) by (simp add: packet_filter.hosts_def [OF assms(1)])
  then show ?thesis using assms(4,5) by (rule packet_filter.cleanup_by_comment [OF assms(1)])
qed

definition two_tenants :: world where
  "two_tenants = \<lparr>w_fs = empty_fs, w_chan = empty_pipe, w_env = (\<lambda>_. None),
     w_log = [(KRun ''iptables'' [''-t'', ''nat'', ''-A'', ''P'', ''-m'', ''comment'', ''--comment'', ''myrun:a''], RExit True [] []),
              (KRun ''iptables'' [''-t'', ''nat'', ''-A'', ''P'', ''-m'', ''comment'', ''--comment'', ''myrun:ab''], RExit True [] []),
              (KRun ''iptables'' [''-t'', ''nat'', ''-A'', ''P'', ''-m'', ''comment'', ''--comment'', ''ssh from home''], RExit True [] []),
              (KRun ''iptables'' [''-t'', ''filter'', ''-A'', ''F'', ''-m'', ''comment'', ''--comment'', ''myrun:a''], RExit True [] [])],
     w_answer = tables_answer ''iptables'', w_others = (\<lambda>_ s. s), w_held = (\<lambda>_ _. False)\<rparr>"

lemma two_tenants_tables:
  "tables ''iptables'' (w_log two_tenants) NAT_TABLE =
     [[''P'', ''-m'', ''comment'', ''--comment'', ''myrun:a''], [''P'', ''-m'', ''comment'', ''--comment'', ''myrun:ab''],
      [''P'', ''-m'', ''comment'', ''--comment'', ''ssh from home'']]"
  "tables ''iptables'' (w_log two_tenants) FILTER_TABLE = [[''F'', ''-m'', ''comment'', ''--comment'', ''myrun:a'']]"
  by code_simp+

lemma two_tenants_clear:
  assumes "r \<in> set (tables ''iptables'' (w_log two_tenants) T)"
  shows "rule_ok r \<or> nat_tag ''a'' \<notin> set (comments r) \<and> \<not> tagged_line ''a'' (dump_line r)"
proof -
  have "rule_ok [''P'', ''-m'', ''comment'', ''--comment'', ''myrun:a'']" "rule_ok [''P'', ''-m'', ''comment'', ''--comment'', ''myrun:ab'']"
    "rule_ok [''F'', ''-m'', ''comment'', ''--comment'', ''myrun:a'']"
    "nat_tag ''a'' \<notin> set (comments [''P'', ''-m'', ''comment'', ''--comment'', ''ssh from home''])"
    "\<not> tagged_line ''a'' (dump_line [''P'', ''-m'', ''comment'', ''--comment'', ''ssh from home''])"
    by code_simp+
  moreover have "T = NAT_TABLE \<or> T = FILTER_TABLE"
    using assms by (auto simp: tables_def two_tenants_def NAT_TABLE_def FILTER_TABLE_def split: if_splits)
  ultimately show ?thesis using assms two_tenants_tables by auto
qed

theorem cleanup_removes_exactly_witness:
  "\<exists>w'. nat_cleanup ''a'' two_tenants = Some (Ok 2, w') \<and>
     tables ''iptables'' (w_log w') NAT_TABLE =
       [[''P'', ''-m'', ''comment'', ''--comment'', ''myrun:ab''], [''P'', ''-m'', ''comment'', ''--comment'', ''ssh from home'']] \<and>
     tables ''iptables'' (w_log w') FILTER_TABLE = []"
proof -
  have "plain ''a''" by code_simp
  moreover have "w_answer two_tenants = tables_answer ''iptables''" "iptables_bin two_tenants = ''iptables''"
    by (simp_all add: two_tenants_def iptables_bin_def)
  ultimately show ?thesis
    using cleanup_removes_exactly [OF pf.packet_filter_axioms, of two_tenants "''iptables''" "''a''"] two_tenants_clear
    by (simp add: two_tenants_tables nat_tag_def numeral_2_eq_2)
qed

end
