(* ===== verification/Network.thy ===== *)
theory Network
  imports Undo Iptables_Laws Ipam_Pool Util
begin

text \<open>
  \<open>src/runtime/network.rs\<close>, and the operations of \<open>src/sys/netlink.rs\<close> on an open socket: its sequence
  counter is the local state.
\<close>

section \<open>The netlink socket\<close>

definition EEXIST :: int where "EEXIST = 17"

fun nl_answer :: "reply \<Rightarrow> int + (int + u8 list) list" where
  "nl_answer (RPackets x) = x"
| "nl_answer (RFail e) = Inl e"
| "nl_answer _ = Inl EIO"

definition nl_open :: "unit act" where
  "nl_open =
     w_bind (w_sys KNlOpen reply_unit (chk ''socket'' ''AF_NETLINK'')) (\<lambda>_.
       w_sys KNlBind reply_unit (chk ''bind'' ''netlink socket''))"

definition nl_exchange :: "u8 list \<Rightarrow> bool \<Rightarrow> (u32, u8 list list) lact" where
  "nl_exchange msg expect_dump seq =
     w_call (KNetlink (mb_finish (seq + 1) msg)) (\<lambda>r. w_ok (send_recv (\<lambda>_. nl_answer r) seq msg expect_dump))"

definition nl_do :: "u8 list \<Rightarrow> (u32, unit) lact" where
  "nl_do msg = l_bind (nl_exchange msg False) (\<lambda>_. l_ok ())"

definition link_index :: "string \<Rightarrow> u32 option act" where
  "link_index name = w_bind (w_lift (cstr name)) (\<lambda>_.
     w_call (KIfIndex name) (\<lambda>r. w_ok (case r of RNum n \<Rightarrow> if n = 0 then None else Some (word_of_int n) | _ \<Rightarrow> None)))"

definition link_index_required :: "string \<Rightarrow> u32 act" where
  "link_index_required name = w_bind (link_index name) (\<lambda>i. case i of
     Some i \<Rightarrow> w_ok i | None \<Rightarrow> w_err (NotFound (''network interface '' @ debug_str name)))"

definition nl_list_links :: "(u32, string list) lact" where
  "nl_list_links = l_bind (nl_exchange get_links_msg True) (\<lambda>rs. l_ok (link_names rs))"

section \<open>The host side\<close>

definition CONTAINER_IFNAME :: string where "CONTAINER_IFNAME = ''eth0''"

definition ensure_bridge :: "string \<Rightarrow> ipv4 \<Rightarrow> u8 \<Rightarrow> (u32, u32) lact" where
  "ensure_bridge bridge gateway prefix =
     l_bind (l_do (link_index bridge)) (\<lambda>found.
     l_bind (case found of
         Some i \<Rightarrow> l_ok i
       | None \<Rightarrow>
           l_bind (nl_do (create_bridge_msg bridge)) (\<lambda>_.
           l_bind (l_do (w_fault ''after_bridge_create'')) (\<lambda>_.
             l_do (link_index_required bridge)))) (\<lambda>idx.
     l_bind (l_try (nl_do (add_address_msg idx gateway prefix)) (\<lambda>r. case r of
         Ok _ \<Rightarrow> l_ok ()
       | Err e \<Rightarrow>
           if is_errno e EEXIST then l_ok ()
           else l_err (Container (''assigning '' @ format_ipv4 gateway @ ''/'' @ show_nat (unat prefix) @
             '' to bridge '' @ bridge @ '': '' @ display_error e)))) (\<lambda>_.
     l_bind (nl_do (set_up_msg idx)) (\<lambda>_.
       l_ok idx))))"

text \<open>The undo actions of the set-up.\<close>

definition undo_lease :: "string \<Rightarrow> nat \<Rightarrow> string \<Rightarrow> unit act" where
  "undo_lease root me i = with_lock (ipam_lock_path root) (ipam_guard root) (ipam_release root me i)"

definition undo_veth :: "string \<Rightarrow> unit act" where
  "undo_veth host_name =
     w_bind nl_open (\<lambda>_.
     w_bind (link_index host_name) (\<lambda>found. case found of
         Some i \<Rightarrow> l_only 1 (nl_do (delete_link_msg i))
       | None \<Rightarrow> w_ok ()))"

definition undo_rules :: "string \<Rightarrow> unit act" where
  "undo_rules i = w_bind (nat_cleanup i) (\<lambda>_. w_ok ())"

definition NO_IPTABLES :: string where
  "NO_IPTABLES = ''iptables is not usable, so bridge networking cannot be set up (install iptables, or use --network none)''"

text \<open>Step 2 to 4 of \<open>setup_host\<close>: the pair of interfaces, on the socket and the undo stack.\<close>

definition remove_stale :: "string \<Rightarrow> (u32, unit) lact" where
  "remove_stale host_name =
     l_bind (l_do (link_index host_name)) (\<lambda>a.
       if a = None then l_ok ()
       else l_bind (l_do (link_index host_name)) (\<lambda>b. case b of
           Some i \<Rightarrow> l_try (nl_do (delete_link_msg i)) (\<lambda>_. l_ok ())
         | None \<Rightarrow> l_ok ()))"

definition setup_veth :: "network_config \<Rightarrow> string \<Rightarrow> i32 \<Rightarrow> u32 \<Rightarrow> (u32 \<times> undo_stack, string) lact" where
  "setup_veth net i pid bridge_idx =
     (let (host_name, peer_name) = veth_names i in
      l_bind (l_fst (remove_stale host_name)) (\<lambda>_.
      l_bind (l_fst (nl_do (create_veth_msg host_name peer_name))) (\<lambda>_.
      l_bind (l_snd (l_push ''veth pair'' (undo_veth host_name))) (\<lambda>_.
      l_bind (l_do (w_fault ''after_veth_create'')) (\<lambda>_.
      l_bind (l_do (link_index_required host_name)) (\<lambda>host_idx.
      l_bind (l_do (link_index_required peer_name)) (\<lambda>peer_idx.
      l_bind (l_fst (nl_do (set_mtu_msg host_idx (n_mtu net)))) (\<lambda>_.
      l_bind (l_fst (nl_do (set_mtu_msg peer_idx (n_mtu net)))) (\<lambda>_.
      l_bind (l_fst (nl_do (set_master_msg host_idx bridge_idx))) (\<lambda>_.
      l_bind (l_fst (nl_do (set_up_msg host_idx))) (\<lambda>_.
      l_bind (l_do (w_fault ''after_veth_master'')) (\<lambda>_.
      l_bind (l_fst (nl_do (move_to_netns_pid_msg peer_idx pid CONTAINER_IFNAME))) (\<lambda>_.
      l_bind (l_do (w_fault ''after_netns_move'')) (\<lambda>_.
        l_ok host_name))))))))))))))"

definition setup_rules :: "network_config \<Rightarrow> string \<Rightarrow> ipv4 \<Rightarrow> (undo_stack, unit) lact" where
  "setup_rules net i ip =
     l_bind (l_do (setup_bridge (n_bridge net) (n_subnet net) (n_nat net))) (\<lambda>_.
     l_bind (l_do (w_each (nat_publish i (n_bridge net) ip) (n_publish net))) (\<lambda>_.
       if n_publish net = [] then l_ok () else l_push ''iptables rules'' (undo_rules i)))"

definition requested_ip :: "network_config \<Rightarrow> ipv4 option res" where
  "requested_ip net = (case n_ip net of Some s \<Rightarrow> r_map Some (parse_ipv4 s) | None \<Rightarrow> Ok None)"

definition bridged_state :: "network_config \<Rightarrow> string \<Rightarrow> ipv4 \<Rightarrow> u8 \<Rightarrow> ipv4 \<Rightarrow> network_state" where
  "bridged_state net host_name ip prefix gateway =
     \<lparr>ns_mode = network_mode_as_str (n_mode net), ns_bridge = Some (n_bridge net), ns_host_veth = Some host_name,
      ns_container_veth = Some CONTAINER_IFNAME, ns_ip = Some (format_ipv4 ip), ns_prefix = prefix,
      ns_gateway = Some (format_ipv4 gateway), ns_published = n_publish net\<rparr>"

definition setup_host :: "string \<Rightarrow> nat \<Rightarrow> container_config \<Rightarrow> i32 \<Rightarrow> (undo_stack, network_state) lact" where
  "setup_host root me cfg pid =
     (let net = c_network cfg; i = c_id cfg in
      if n_mode net \<noteq> Bridge then l_ok (network_state_default\<lparr>ns_mode := network_mode_as_str (n_mode net)\<rparr>)
      else
        l_bind (l_do nat_available) (\<lambda>avail.
        if \<not> avail then l_err (Unsupported NO_IPTABLES)
        else
          l_bind (l_lift (parse_cidr (n_subnet net))) (\<lambda>(_, prefix0).
          l_bind (l_lift (gateway_addr net)) (\<lambda>gateway.
          l_bind (l_do nl_open) (\<lambda>_.
          l_local 1 (
            l_bind (l_fst (ensure_bridge (n_bridge net) gateway prefix0)) (\<lambda>bridge_idx.
            l_bind (l_lift (requested_ip net)) (\<lambda>requested.
            l_bind (l_do (with_lock (ipam_lock_path root) (ipam_guard root) (ipam_allocate root me (n_subnet net) i requested gateway))) (\<lambda>(ip, prefix).
            l_bind (l_snd (l_push ''ip lease'' (undo_lease root me i))) (\<lambda>_.
            l_bind (l_do (w_fault ''after_ip_alloc'')) (\<lambda>_.
            l_bind (setup_veth net i pid bridge_idx) (\<lambda>host_name.
            l_bind (l_snd (setup_rules net i ip)) (\<lambda>_.
              l_ok (bridged_state net host_name ip prefix gateway))))))))))))))"

section \<open>Inside the container\<close>

definition configure_inside :: "network_state \<Rightarrow> unit act" where
  "configure_inside st =
     w_bind nl_open (\<lambda>_. l_only 1 (
       l_bind (l_do (link_index ''lo'')) (\<lambda>lo.
       l_bind (case lo of Some i \<Rightarrow> nl_do (set_up_msg i) | None \<Rightarrow> l_ok ()) (\<lambda>_.
       if ns_mode st \<noteq> ''bridge'' then l_ok ()
       else
         (let ifname = unwrap_or CONTAINER_IFNAME (ns_container_veth st) in
          l_bind (l_map_err (\<lambda>e. Container (''container interface '' @ ifname @ '' is missing inside the namespace: '' @
              display_error e)) (l_do (link_index_required ifname))) (\<lambda>idx.
          l_bind (l_lift (case ns_ip st of Some ip \<Rightarrow> Ok ip | None \<Rightarrow> Err (Container ''no address assigned to the container''))) (\<lambda>ip.
          l_bind (l_lift (parse_ipv4 ip)) (\<lambda>addr.
          l_bind (nl_do (add_address_msg idx addr (ns_prefix st))) (\<lambda>_.
          l_bind (nl_do (set_up_msg idx)) (\<lambda>_.
          case ns_gateway st of
            None \<Rightarrow> l_ok ()
          | Some g \<Rightarrow> l_bind (l_lift (parse_ipv4 g)) (\<lambda>gw. nl_do (add_default_route_msg gw idx))))))))))))"

text \<open>These files are inside the new root: they are files of the kernel, not of the runtime.\<close>

definition hosts_text :: "container_config \<Rightarrow> network_state \<Rightarrow> string" where
  "hosts_text cfg st = ''127.0.0.1'' @ [CHR 0x09] @ ''localhost'' @ [CHR 0x0A] @
     ''::1'' @ [CHR 0x09] @ ''localhost ip6-localhost ip6-loopback'' @ [CHR 0x0A] @
     (case ns_ip st of Some ip \<Rightarrow> ip | None \<Rightarrow> ''127.0.1.1'') @ [CHR 0x09] @ c_hostname cfg @ [CHR 0x0A]"

definition resolv_text :: "string list \<Rightarrow> string" where
  "resolv_text dns = concat (map (\<lambda>s. ''nameserver '' @ s @ [CHR 0x0A]) dns)"

definition write_resolver_files :: "container_config \<Rightarrow> network_state \<Rightarrow> unit act" where
  "write_resolver_files cfg st =
     w_try (w_sys (KMkdirAll ''/etc'') reply_unit (chk ''mkdir'' ''/etc'')) (\<lambda>r. case r of
       Err _ \<Rightarrow> w_ok ()
     | Ok _ \<Rightarrow>
         w_bind (w_ignore (k_write_file ''/etc/hosts'' (hosts_text cfg st))) (\<lambda>_.
         w_bind (if n_dns (c_network cfg) \<noteq> [] \<and> n_mode (c_network cfg) \<noteq> NetNone
             then w_ignore (k_write_file ''/etc/resolv.conf'' (resolv_text (n_dns (c_network cfg)))) else w_ok ()) (\<lambda>_.
           w_ignore (k_write_file ''/etc/hostname'' (c_hostname cfg @ [CHR 0x0A])))))"

section \<open>Removing the network\<close>

definition net_teardown :: "string \<Rightarrow> nat \<Rightarrow> string \<Rightarrow> network_state \<Rightarrow> unit act" where
  "net_teardown root me i st =
     (if ns_mode st \<noteq> ''bridge'' then w_ignore (with_lock (ipam_lock_path root) (ipam_guard root) (ipam_release root me i))
      else
        w_bind (nat_cleanup i) (\<lambda>_.
        w_bind (case ns_host_veth st of
            None \<Rightarrow> w_ok ()
          | Some host_veth \<Rightarrow>
              w_try nl_open (\<lambda>o1. case o1 of
                Err _ \<Rightarrow> w_ok ()
              | Ok _ \<Rightarrow> w_try (link_index host_veth) (\<lambda>o2. case o2 of
                  Ok (Some idx) \<Rightarrow> w_ignore (l_only 1 (nl_do (delete_link_msg idx)))
                | _ \<Rightarrow> w_ok ()))) (\<lambda>_.
          w_ignore (with_lock (ipam_lock_path root) (ipam_guard root) (ipam_release root me i)))))"

definition remove_bridge_if_unused :: "string \<Rightarrow> bool act" where
  "remove_bridge_if_unused bridge =
     w_bind nl_open (\<lambda>_.
     w_bind (link_index bridge) (\<lambda>found. case found of
       None \<Rightarrow> w_ok False
     | Some idx \<Rightarrow> l_only 1 (l_bind nl_list_links (\<lambda>links.
         if \<exists>l \<in> set links. starts_with l ''mrv'' then l_ok False
         else l_bind (nl_do (delete_link_msg idx)) (\<lambda>_. l_ok True)))))"

definition orphaned_veths :: "string list \<Rightarrow> string list act" where
  "orphaned_veths live_ids =
     w_bind nl_open (\<lambda>_. l_only 1 (l_bind nl_list_links (\<lambda>links.
       l_ok (filter (\<lambda>l. starts_with l ''mrv'' \<and> l \<notin> set (map (\<lambda>i. fst (veth_names i)) live_ids)) links))))"

end
