(* ===== verification/Rootfs.thy ===== *)
theory Rootfs
  imports Network Mountinfo
begin

text \<open>
  \<open>src/sys/mount.rs\<close> (the calls; the mount table is in \<open>Mountinfo\<close>) and \<open>src/runtime/filesystem.rs\<close>:
  building the root of a container and moving into it.
\<close>

section \<open>Mount calls\<close>

definition MS_RDONLY :: u64 where "MS_RDONLY = 1"
definition MS_NOSUID :: u64 where "MS_NOSUID = 2"
definition MS_NODEV :: u64 where "MS_NODEV = 4"
definition MS_NOEXEC :: u64 where "MS_NOEXEC = 8"
definition MS_REMOUNT :: u64 where "MS_REMOUNT = 32"
definition MS_BIND :: u64 where "MS_BIND = 4096"
definition MS_REC :: u64 where "MS_REC = 16384"
definition MS_PRIVATE :: u64 where "MS_PRIVATE = 262144"
definition MS_STRICTATIME :: u64 where "MS_STRICTATIME = 16777216"
definition MNT_DETACH :: int where "MNT_DETACH = 2"
definition S_IFCHR :: nat where "S_IFCHR = 8192"

definition opt_cstr :: "string option \<Rightarrow> unit res" where
  "opt_cstr s = (case s of Some t \<Rightarrow> cstr t | None \<Rightarrow> Ok ())"

definition mount_text :: "string option \<Rightarrow> string \<Rightarrow> string option \<Rightarrow> u64 \<Rightarrow> string option \<Rightarrow> string" where
  "mount_text source target fstype flags data =
     ''source='' @ debug_str (unwrap_or ''-'' source) @ '' target='' @ target @ '' fstype='' @ debug_str (unwrap_or ''-'' fstype) @
     '' flags=0x'' @ show_radix 16 (unat flags) @ '' data='' @ debug_str (unwrap_or ''-'' data)"

definition m_mount :: "string option \<Rightarrow> string \<Rightarrow> string option \<Rightarrow> u64 \<Rightarrow> string option \<Rightarrow> unit act" where
  "m_mount source target fstype flags data =
     w_bind (w_lift (opt_cstr source)) (\<lambda>_.
     w_bind (w_lift (cstr target)) (\<lambda>_.
     w_bind (w_lift (opt_cstr fstype)) (\<lambda>_.
     w_bind (w_lift (opt_cstr data)) (\<lambda>_.
       w_sys (KMnt (MMount source target fstype flags data)) reply_unit (chk ''mount'' (mount_text source target fstype flags data))))))"

definition m_umount :: "string \<Rightarrow> int \<Rightarrow> unit act" where
  "m_umount target flags = w_bind (w_lift (cstr target)) (\<lambda>_. w_sys (KMnt (MUmount target flags)) reply_unit (chk ''umount2'' target))"

definition make_rprivate :: "string \<Rightarrow> unit act" where
  "make_rprivate p = m_mount None p None (MS_REC OR MS_PRIVATE) None"

definition m_bind :: "string \<Rightarrow> string \<Rightarrow> bool \<Rightarrow> unit act" where
  "m_bind source target recursive = m_mount (Some source) target None (if recursive then MS_BIND OR MS_REC else MS_BIND) None"

definition remount_ro :: "string \<Rightarrow> u64 \<Rightarrow> unit act" where
  "remount_ro target extra = m_mount None target None (MS_REMOUNT OR MS_BIND OR MS_RDONLY OR extra) None"

definition m_pivot_root :: "string \<Rightarrow> string \<Rightarrow> unit act" where
  "m_pivot_root new_root put_old =
     w_bind (w_lift (cstr new_root)) (\<lambda>_.
     w_bind (w_lift (cstr put_old)) (\<lambda>_.
       w_sys (KMnt (MPivot new_root put_old)) reply_unit (chk ''pivot_root'' (''new_root='' @ new_root @ '' put_old='' @ put_old))))"

definition m_chdir :: "string \<Rightarrow> unit act" where
  "m_chdir p = w_bind (w_lift (cstr p)) (\<lambda>_. w_sys (KMnt (MChdir p)) reply_unit (chk ''chdir'' p))"

text \<open>A call for which an existing file is no error.\<close>

definition w_sys_exist :: "kcall \<Rightarrow> string \<Rightarrow> string \<Rightarrow> unit act" where
  "w_sys_exist c name context = w_call c (\<lambda>r. case reply_unit r of
       Ok _ \<Rightarrow> w_ok ()
     | Err e \<Rightarrow> if e = EEXIST then w_ok () else w_err (Syscall name e context))"

definition m_mkdir :: "string \<Rightarrow> nat \<Rightarrow> unit act" where
  "m_mkdir p mode = w_bind (w_lift (cstr p)) (\<lambda>_. w_sys_exist (KMnt (MMkdir p mode)) ''mkdir'' p)"

text \<open>The paths that \<open>cur\<close> takes in the loop of \<open>mkdir_p\<close>, the root left out.\<close>

fun extend_paths :: "string \<Rightarrow> string list \<Rightarrow> string list" where
  "extend_paths cur [] = []"
| "extend_paths cur (c # cs) = (let p = path_join cur c in p # extend_paths p cs)"

definition path_components :: "string \<Rightarrow> string list" where
  "path_components p = (case str_split p (CHR ''/'') of
      c # cs \<Rightarrow> filter (\<lambda>d. d \<noteq> []) [c] @ filter (\<lambda>d. d \<noteq> [] \<and> d \<noteq> ''.'') cs
    | [] \<Rightarrow> [])"

definition component_paths :: "string \<Rightarrow> string list" where
  "component_paths p = extend_paths (if starts_with p ''/'' then ''/'' else []) (path_components p)"

definition m_mkdir_p :: "string \<Rightarrow> nat \<Rightarrow> unit act" where
  "m_mkdir_p p mode = w_each (\<lambda>q. m_mkdir q mode) (component_paths p)"

definition m_symlink :: "string \<Rightarrow> string \<Rightarrow> unit act" where
  "m_symlink target link =
     w_bind (w_lift (cstr target)) (\<lambda>_.
     w_bind (w_lift (cstr link)) (\<lambda>_.
       w_sys_exist (KMnt (MSymlink target link)) ''symlink'' (link @ '' -> '' @ target)))"

definition mknod_char :: "string \<Rightarrow> nat \<Rightarrow> nat \<Rightarrow> nat \<Rightarrow> unit act" where
  "mknod_char p mode major minor =
     w_bind (w_lift (cstr p)) (\<lambda>_.
       w_sys_exist (KMnt (MMknod p (S_IFCHR + mode) major minor)) ''mknod''
         (p @ '' c '' @ show_nat major @ '':'' @ show_nat minor))"

definition m_touch :: "string \<Rightarrow> unit act" where
  "m_touch p = w_bind (w_lift (cstr p)) (\<lambda>_. w_sys_exist (KMnt (MTouch p)) ''open'' p)"

section \<open>Populating the root\<close>

definition DEVICES :: "(string \<times> nat \<times> nat \<times> nat) list" where
  "DEVICES = [(''null'', 1, 3, 438), (''zero'', 1, 5, 438), (''full'', 1, 7, 438), (''random'', 1, 8, 438),
     (''urandom'', 1, 9, 438), (''tty'', 5, 0, 438)]"

definition DEV_SYMLINKS :: "(string \<times> string) list" where
  "DEV_SYMLINKS = [(''/proc/self/fd'', ''fd''), (''/proc/self/fd/0'', ''stdin''), (''/proc/self/fd/1'', ''stdout''),
     (''/proc/self/fd/2'', ''stderr''), (''/proc/kcore'', ''core'')]"

definition root_join :: "string \<Rightarrow> string \<Rightarrow> string" where
  "root_join root rel = path_join root (dropWhile (\<lambda>c. c = CHR ''/'') rel)"

definition make_device :: "string \<Rightarrow> string \<times> nat \<times> nat \<times> nat \<Rightarrow> unit act" where
  "make_device dev_dir d = (case d of (name, major, minor, mode) \<Rightarrow>
     (let target = path_join dev_dir name; host = path_join ''/dev'' name in
      w_try (mknod_char target mode major minor) (\<lambda>r. case r of
        Ok _ \<Rightarrow> w_ok ()
      | Err e \<Rightarrow>
          w_bind (k_exists host) (\<lambda>there.
          if \<not> there then w_ok ()
          else
            w_bind (m_touch target) (\<lambda>_.
              w_map_err (\<lambda>e2. Container (''could not provide /dev/'' @ name @ '': mknod said '' @ display_error e @
                '', bind said '' @ display_error e2)) (m_bind host target False))))))"

definition make_link :: "string \<Rightarrow> string \<times> string \<Rightarrow> unit act" where
  "make_link dev_dir d = (case d of (target, name) \<Rightarrow>
     (let link = path_join dev_dir name in
      w_bind (k_exists link) (\<lambda>there. if there then w_ok () else w_ignore (m_symlink target link))))"

definition make_devices :: "string \<Rightarrow> unit act" where
  "make_devices dev_dir =
     w_bind (w_each (make_device dev_dir) DEVICES) (\<lambda>_.
     (let ptmx = path_join dev_dir ''ptmx'' in
      w_call (KUnlink ptmx) (\<lambda>_.
      w_bind (w_ignore (m_symlink ''pts/ptmx'' ptmx)) (\<lambda>_.
        w_each (make_link dev_dir) DEV_SYMLINKS))))"

definition mount_volume :: "string \<Rightarrow> mount_spec \<Rightarrow> unit act" where
  "mount_volume root spec =
     (let target = root_join root (m_destination spec) in
      w_bind (if m_fstype spec = ''tmpfs''
        then w_bind (m_mkdir_p target 493) (\<lambda>_.
               m_mount (Some ''tmpfs'') target (Some ''tmpfs'') (MS_NOSUID OR MS_NODEV) None)
        else w_call (KStat (m_source spec)) (\<lambda>r.
          w_bind (case r of
              RStat d _ \<Rightarrow>
                if d then m_mkdir_p target 493
                else w_bind (m_mkdir_p (path_parent target) 493) (\<lambda>_. m_touch target)
            | RFail e \<Rightarrow> w_get (\<lambda>w. w_err (Config (''bind mount source '' @ m_source spec @ '': '' @ io_text w e)))
            | _ \<Rightarrow> w_get (\<lambda>w. w_err (Config (''bind mount source '' @ m_source spec @ '': '' @ io_text w EIO)))) (\<lambda>_.
            m_bind (m_source spec) target True))) (\<lambda>_.
      if m_readonly spec then remount_ro target MS_REC else w_ok ()))"

definition mount_volumes :: "string \<Rightarrow> mount_spec list \<Rightarrow> unit act" where
  "mount_volumes root = w_each (mount_volume root)"

definition mount_sys :: "string \<Rightarrow> unit act" where
  "mount_sys sys_dir =
     w_try (m_mount (Some ''sysfs'') sys_dir (Some ''sysfs'') (MS_NOSUID OR MS_NOEXEC OR MS_NODEV OR MS_RDONLY) None) (\<lambda>r. case r of
       Ok _ \<Rightarrow> w_ok ()
     | Err _ \<Rightarrow> w_bind (m_bind ''/sys'' sys_dir True) (\<lambda>_. remount_ro sys_dir MS_REC))"

definition mount_standard :: "string \<Rightarrow> container_config \<Rightarrow> unit act" where
  "mount_standard root cfg =
     (let proc_dir = root_join root ''proc''; sys_dir = root_join root ''sys''; dev_dir = root_join root ''dev'';
          pts = path_join dev_dir ''pts''; shm = path_join dev_dir ''shm''; mqueue = path_join dev_dir ''mqueue'';
          tmp = root_join root ''tmp''; safe = MS_NOSUID OR MS_NOEXEC OR MS_NODEV in
      w_bind (m_mkdir_p proc_dir 493) (\<lambda>_.
      w_bind (m_mount (Some ''proc'') proc_dir (Some ''proc'') safe None) (\<lambda>_.
      w_bind (m_mkdir_p sys_dir 493) (\<lambda>_.
      w_bind (mount_sys sys_dir) (\<lambda>_.
      w_bind (m_mkdir_p dev_dir 493) (\<lambda>_.
      w_bind (m_mount (Some ''tmpfs'') dev_dir (Some ''tmpfs'') (MS_NOSUID OR MS_STRICTATIME) (Some ''mode=755,size=65536k'')) (\<lambda>_.
      w_bind (m_mkdir_p pts 493) (\<lambda>_.
      w_bind (w_ignore (m_mount (Some ''devpts'') pts (Some ''devpts'') (MS_NOSUID OR MS_NOEXEC) (Some ''gid=5,mode=620,ptmxmode=666''))) (\<lambda>_.
      w_bind (m_mkdir_p shm 493) (\<lambda>_.
      w_bind (m_mount (Some ''shm'') shm (Some ''tmpfs'') safe (Some ''mode=1777,size=65536k'')) (\<lambda>_.
      w_bind (m_mkdir_p mqueue 493) (\<lambda>_.
      w_bind (w_ignore (m_mount (Some ''mqueue'') mqueue (Some ''mqueue'') safe None)) (\<lambda>_.
      w_bind (m_mkdir_p tmp 1023) (\<lambda>_.
      w_bind (m_mount (Some ''tmpfs'') tmp (Some ''tmpfs'') (MS_NOSUID OR MS_NODEV) (Some ''mode=1777,size=131072k'')) (\<lambda>_.
      w_bind (make_devices dev_dir) (\<lambda>_.
        mount_volumes root (c_mounts cfg)))))))))))))))))"

section \<open>Hiding and sealing\<close>

definition mask_path :: "string \<Rightarrow> unit act" where
  "mask_path p = w_call (KLstat p) (\<lambda>r. case r of
       RStat d _ \<Rightarrow> w_ignore (if d
         then m_mount (Some ''tmpfs'') p (Some ''tmpfs'') (MS_RDONLY OR MS_NOSUID OR MS_NODEV OR MS_NOEXEC) (Some ''size=0k'')
         else m_bind ''/dev/null'' p False)
     | _ \<Rightarrow> w_ok ())"

definition mask_paths :: "string list \<Rightarrow> unit act" where
  "mask_paths = w_each mask_path"

definition readonly_path :: "string \<Rightarrow> unit act" where
  "readonly_path p = w_bind (k_exists p) (\<lambda>there.
     if \<not> there then w_ok ()
     else w_try (m_bind p p True) (\<lambda>r. case r of
         Err _ \<Rightarrow> w_ok ()
       | Ok _ \<Rightarrow> w_ignore (remount_ro p MS_REC)))"

definition readonly_paths :: "string list \<Rightarrow> unit act" where
  "readonly_paths = w_each readonly_path"

section \<open>Moving in\<close>

definition fs_setup :: "container_config \<Rightarrow> unit act" where
  "fs_setup cfg =
     (let root = c_rootfs cfg; sec = c_security cfg in
      w_bind (make_rprivate ''/'') (\<lambda>_.
      w_bind (m_bind root root True) (\<lambda>_.
      w_bind (mount_standard root cfg) (\<lambda>_.
      w_bind (if c_read_only cfg then remount_ro root 0 else w_ok ()) (\<lambda>_.
      w_bind (w_fault ''before_pivot_root'') (\<lambda>_.
      w_bind (m_chdir root) (\<lambda>_.
      w_bind (m_pivot_root ''.'' ''.'') (\<lambda>_.
      w_bind (m_umount ''.'' MNT_DETACH) (\<lambda>_.
      w_bind (m_chdir ''/'') (\<lambda>_.
      w_bind (w_fault ''after_pivot_root'') (\<lambda>_.
        if s_privileged sec then w_ok ()
        else w_bind (mask_paths (s_masked_paths sec)) (\<lambda>_. readonly_paths (s_readonly_paths sec)))))))))))))"

definition enter_cwd :: "string \<Rightarrow> unit act" where
  "enter_cwd cwd = w_map_err (\<lambda>e. Container (''working directory '' @ cwd @ '' does not exist in the container: '' @ display_error e))
     (m_chdir cwd)"

definition host_root_is_detached :: "bool act" where
  "host_root_is_detached = w_try (mountinfo_for ''self'') (\<lambda>r. w_ok (case r of
     Ok entries \<Rightarrow> length (filter (\<lambda>e. me_mount_point e = ''/'') entries) = 1 | Err _ \<Rightarrow> False))"

end
