(* ===== verification/Security.thy ===== *)
theory Security
  imports Network Caps Seccomp
begin

text \<open>
  \<open>src/runtime/security.rs\<close>, the calls of \<open>src/sys/caps.rs\<close> and \<open>src/sys/seccomp.rs\<close> as calls of
  the machine, and \<open>src/sys/signal.rs\<close>.
\<close>

section \<open>Calls\<close>

fun reply_errno :: "reply \<Rightarrow> int option" where
  "reply_errno (RFail e) = Some e"
| "reply_errno _ = None"

definition world_caps :: "world cap_sys" where
  "world_caps = \<lparr>
     sys_ambient_clear = (\<lambda>w. case k_call (KSec SAmbientClear) w of (r, w') \<Rightarrow> (reply_errno r, w')),
     sys_capbset_drop = (\<lambda>c w. case k_call (KSec (SBoundDrop c)) w of (r, w') \<Rightarrow> (reply_errno r, w')),
     sys_capset = (\<lambda>lo hi w. case k_call (KSec (SCapset lo hi)) w of (r, w') \<Rightarrow> (reply_errno r, w'))\<rparr>"

definition LAST_CAP_FILE :: string where "LAST_CAP_FILE = ''/proc/sys/kernel/cap_last_cap''"

definition w_caps_apply :: "u64 \<Rightarrow> unit act" where
  "w_caps_apply keep = w_call (KRead LAST_CAP_FILE) (\<lambda>r w.
     Some (caps_apply world_caps (last_cap (case r of RData d \<Rightarrow> if utf8_valid d then Some d else None | _ \<Rightarrow> None)) keep w))"

definition set_no_new_privs :: "unit act" where
  "set_no_new_privs = w_sys (KSec SNoNewPrivs) reply_unit (chk ''prctl'' ''PR_SET_NO_NEW_PRIVS'')"

definition get_no_new_privs :: "bool act" where
  "get_no_new_privs = w_call (KSec SGetNoNewPrivs) (\<lambda>r. w_ok (r = RNum 1))"

definition w_seccomp_install :: "arch \<Rightarrow> seccomp_mode \<Rightarrow> nat act" where
  "w_seccomp_install a mode =
     (if mode = Unconfined then w_ok 0
      else w_bind (w_lift (build_filter a mode)) (\<lambda>prog.
        w_bind (w_sys (KSec (SSeccomp prog)) reply_unit (chk ''seccomp'' (''mode '' @ seccomp_as_str mode))) (\<lambda>_.
          w_ok (length prog))))"

definition w_switch_user :: "u32 \<Rightarrow> u32 \<Rightarrow> unit act" where
  "w_switch_user uid gid =
     w_bind (w_sys (KSec SGroups) reply_unit (chk ''setgroups'' ''clearing supplementary groups'')) (\<lambda>_.
     w_bind (w_sys (KSec (SGid gid)) reply_unit (chk ''setgid'' (''gid '' @ show_nat (unat gid)))) (\<lambda>_.
       w_sys (KSec (SUid uid)) reply_unit (chk ''setuid'' (''uid '' @ show_nat (unat uid)))))"

definition sethostname_str :: "string \<Rightarrow> unit act" where
  "sethostname_str name = w_bind (w_lift (cstr name)) (\<lambda>_. w_sys (KSec (SHostname name)) reply_unit (chk ''sethostname'' name))"

section \<open>Hardening\<close>

definition NNP_TEXT :: string where
  "NNP_TEXT = ''--no-new-privs=false cannot be combined with seccomp; the kernel requires PR_SET_NO_NEW_PRIVS or CAP_SYS_ADMIN to install a filter''"

definition sec_precheck :: "security_config \<Rightarrow> unit res" where
  "sec_precheck sec =
     (if s_privileged sec then Ok ()
      else r_bind (cap_mask sec) (\<lambda>_.
        if \<not> s_no_new_privs sec \<and> s_seccomp sec \<noteq> Unconfined then Err (Config NNP_TEXT) else Ok ()))"

definition sec_apply :: "arch \<Rightarrow> security_config \<Rightarrow> unit act" where
  "sec_apply a sec =
     w_bind (w_lift (sec_precheck sec)) (\<lambda>_.
     if s_privileged sec then w_ok ()
     else
       w_bind (w_lift (cap_mask sec)) (\<lambda>keep.
       w_bind (w_caps_apply keep) (\<lambda>_.
       w_bind (if s_no_new_privs sec then set_no_new_privs else w_ok ()) (\<lambda>_.
       w_bind (w_seccomp_install a (s_seccomp sec)) (\<lambda>_.
         w_ok ())))))"

definition sec_switch_user :: "security_config \<Rightarrow> unit act" where
  "sec_switch_user sec = (case s_user sec of Some (uid, gid) \<Rightarrow> w_switch_user uid gid | None \<Rightarrow> w_ok ())"

definition get_caps :: "(u64 \<times> u64 \<times> u64) act" where
  "get_caps = w_sys (KSec SCapget) (\<lambda>r. case r of RCaps a b c \<Rightarrow> Ok (a, b, c) | RFail e \<Rightarrow> Err e | _ \<Rightarrow> Err EIO) (chk ''capget'' [])"

definition drop_text :: "u64 \<times> u64 \<times> u64 \<Rightarrow> u64 \<Rightarrow> string" where
  "drop_text sets expected = (case sets of (eff, perm, inh) \<Rightarrow>
     ''capability drop incomplete: effective=0x'' @ show_radix 16 (unat eff) @ '' permitted=0x'' @ show_radix 16 (unat perm) @
     '' inheritable=0x'' @ show_radix 16 (unat inh) @ '' expected<=0x'' @ show_radix 16 (unat expected))"

definition w_assert_dropped :: "u64 \<Rightarrow> unit act" where
  "w_assert_dropped expected = w_bind get_caps (\<lambda>sets.
     if assert_dropped sets expected then w_ok () else w_err (Container (drop_text sets expected)))"

text \<open>\<open>verify\<close>: the problems found after the fact.\<close>

definition sec_verify :: "security_config \<Rightarrow> string list act" where
  "sec_verify sec =
     (if s_privileged sec then w_ok []
      else case cap_mask sec of
        Err e \<Rightarrow> w_ok [''capability set is invalid: '' @ display_error e]
      | Ok keep \<Rightarrow>
          w_try (w_assert_dropped keep) (\<lambda>dropped.
          w_bind (if s_no_new_privs sec then get_no_new_privs else w_ok True) (\<lambda>nnp.
          w_bind (if s_seccomp sec = Unconfined then w_ok 2
              else w_call (KProc PGetpid) (\<lambda>p. w_call (KRead (''/proc/'' @ (case p of RNum n \<Rightarrow> show_int n | _ \<Rightarrow> []) @ ''/status''))
                (\<lambda>r. w_ok (unwrap_or 0 (seccomp_mode_of (case r of RData d \<Rightarrow> if utf8_valid d then Some d else None | _ \<Rightarrow> None)))))) (\<lambda>mode.
            w_ok ((case dropped of Err e \<Rightarrow> [display_error e] | Ok _ \<Rightarrow> []) @
              (if keep AND push_bit 21 1 \<noteq> 0 then [''CAP_SYS_ADMIN is retained''] else []) @
              (if nnp then [] else [''no_new_privs was requested but is not set'']) @
              (if mode = 0 then [''seccomp was requested but no filter is active''] else []))))))"

definition count_ones :: "u64 \<Rightarrow> nat" where
  "count_ones m = length (filter (bit m) [0..<64])"

definition sec_summary :: "security_config \<Rightarrow> string" where
  "sec_summary sec =
     (if s_privileged sec then ''privileged (no confinement)''
      else
        (let n = count_ones (case cap_mask sec of Ok m \<Rightarrow> m | Err _ \<Rightarrow> 0) in
         show_nat n @ '' capabilit'' @ (if n = 1 then ''y'' else ''ies'') @ '', no_new_privs='' @
         (if s_no_new_privs sec then ''true'' else ''false'') @ '', seccomp='' @ seccomp_as_str (s_seccomp sec) @
         (case s_user sec of Some (u, g) \<Rightarrow> '', user='' @ show_nat (unat u) @ '':'' @ show_nat (unat g) | None \<Rightarrow> [])))"

section \<open>Signals\<close>

definition FORWARDED :: "i32 list" where
  "FORWARDED = [15, 2, 3, 1, 10, 12, 28, 13]"

definition sig_block :: "i32 list \<Rightarrow> unit act" where
  "sig_block sigs = w_sys (KSec (SBlock sigs)) reply_unit (chk ''sigprocmask'' ''SIG_BLOCK'')"

definition sig_set_mask :: "i32 list \<Rightarrow> unit act" where
  "sig_set_mask sigs = w_sys (KSec (SSetMask sigs)) reply_unit (chk ''sigprocmask'' ''SIG_SETMASK'')"

definition unblock_all :: "unit act" where
  "unblock_all = sig_set_mask []"

definition reset_handlers :: "unit act" where
  "reset_handlers = w_each (\<lambda>s. w_call (KSec (SDefault s)) (\<lambda>_. w_ok ()))
     (filter (\<lambda>s. s \<noteq> 9 \<and> s \<noteq> 19) (map of_nat [1..<64]))"

definition signal_fd_new :: "i32 list \<Rightarrow> int act" where
  "signal_fd_new sigs =
     w_bind (w_sys (KSec (SBlock sigs)) reply_unit (chk ''sigprocmask'' ''SIG_BLOCK for signalfd'')) (\<lambda>_.
       w_sys (KSec (SSignalFd sigs)) reply_num (chk ''signalfd'' []))"

text \<open>A short read answers neither a number nor an error.\<close>

definition next_signal :: "int \<Rightarrow> i32 option act" where
  "next_signal fd = w_call (KSec (SNextSignal fd)) (\<lambda>r. case r of
       RFail e \<Rightarrow> if e = EAGAIN \<or> e = EINTR then w_ok None else w_err (Syscall ''read'' e ''signalfd'')
     | RNum n \<Rightarrow> w_ok (Some (word_of_int n))
     | _ \<Rightarrow> w_ok None)"

text \<open>\<open>poll\<close> on one descriptor, repeated while it is interrupted.\<close>

partial_function (option) poll_fd :: "int \<Rightarrow> int \<Rightarrow> int act" where
  "poll_fd fd timeout w = (case k_call (KSec (SPoll fd timeout)) w of (r, w') \<Rightarrow>
     (case reply_num r of
        Ok n \<Rightarrow> Some (Ok n, w')
      | Err e \<Rightarrow> if e = EINTR then poll_fd fd timeout w' else Some (Err (Syscall ''poll'' e ''1 fds''), w')))"

end
