(* ===== verification/Spawn.thy ===== *)
theory Spawn
  imports Undo Cgroup
begin

text \<open>
  The rest of \<open>src/sys/process.rs\<close> (creating, signalling and waiting for processes) and of
  \<open>src/sys/mod.rs\<close> as calls to the kernel.
\<close>

section \<open>Recursion through the combinators\<close>

lemma w_bind_mono [partial_function_mono]:
  "(\<And>y u. mono_option (\<lambda>f. C f y u)) \<Longrightarrow> mono_option (\<lambda>f. w_bind m (C f) w)"
  unfolding w_bind_def
  by (cases "m w"; cases "fst (the (m w))") (auto intro!: partial_function_mono split: prod.split)

lemma w_try_mono [partial_function_mono]:
  "(\<And>y u. mono_option (\<lambda>f. C f y u)) \<Longrightarrow> mono_option (\<lambda>f. w_try m (C f) w)"
  unfolding w_try_def by (cases "m w") (auto intro!: partial_function_mono)

lemma w_call_mono [partial_function_mono]:
  "(\<And>y u. mono_option (\<lambda>f. C f y u)) \<Longrightarrow> mono_option (\<lambda>f. w_call c (C f) w)"
  unfolding w_call_def by (cases "k_call c w") simp

lemma if_app_mono [partial_function_mono]:
  "mono_option (\<lambda>f. A f u) \<Longrightarrow> mono_option (\<lambda>f. B f u) \<Longrightarrow> mono_option (\<lambda>f. (if c then A f else B f) u)"
  by (cases c) simp_all

section \<open>Small wrappers\<close>

definition ENOSYS :: int where "ENOSYS = 38"
definition O_CLOEXEC :: u32 where "O_CLOEXEC = 0x80000"
definition O_DIRECTORY :: u32 where "O_DIRECTORY = 0x10000"
definition O_WRONLY :: u32 where "O_WRONLY = 1"
definition O_CREAT :: u32 where "O_CREAT = 0x40"
definition O_APPEND :: u32 where "O_APPEND = 0x400"
definition CLONE_PIDFD :: u64 where "CLONE_PIDFD = 0x1000"
definition CLONE_INTO_CGROUP :: u64 where "CLONE_INTO_CGROUP = 0x200000000"
definition WNOHANG :: i32 where "WNOHANG = 1"

fun reply_fds :: "reply \<Rightarrow> (int \<times> int, int) result" where
  "reply_fds (RFail e) = Err e"
| "reply_fds (RFds a b) = Ok (a, b)"
| "reply_fds _ = Err EIO"

definition open_path :: "string \<Rightarrow> u32 \<Rightarrow> int act" where
  "open_path p flags = w_bind (w_lift (cstr p)) (\<lambda>_. w_sys (KFd (FOpen p flags)) reply_num (chk ''open'' p))"

definition close_fd :: "int \<Rightarrow> unit act" where
  "close_fd fd = (if fd \<ge> 0 then w_call (KFd (FClose fd)) (\<lambda>_. w_ok ()) else w_ok ())"

definition fork_process :: "i32 act" where
  "fork_process = w_bind (w_sys (KProc PFork) reply_num (chk ''fork'' [])) (\<lambda>p. w_ok (word_of_int p))"

definition w_setsid :: "i32 act" where
  "w_setsid = w_bind (w_sys (KProc PSetsid) reply_num (chk ''setsid'' [])) (\<lambda>p. w_ok (word_of_int p))"

definition pidfd_open :: "i32 \<Rightarrow> int act" where
  "pidfd_open pid = w_sys (KProc (PPidfdOpen pid)) reply_num (chk ''pidfd_open'' (''pid '' @ show_int (sint pid)))"

definition pidfd_send_signal :: "int \<Rightarrow> i32 \<Rightarrow> unit act" where
  "pidfd_send_signal fd sig = w_sys (KProc (PPidfdSignal fd sig)) reply_unit
     (chk ''pidfd_send_signal'' (''signal '' @ show_int (sint sig)))"

definition cg_open_fd :: "cgroup \<Rightarrow> int act" where
  "cg_open_fd cg = open_path (cg_path cg) (O_DIRECTORY OR O_CLOEXEC)"

section \<open>Waiting and looking at processes\<close>

definition w_panic :: "'a option \<Rightarrow> 'a act" where
  "w_panic z w = (case z of None \<Rightarrow> None | Some x \<Rightarrow> Some (Ok x, w))"

definition w_wait_pid :: "i32 \<Rightarrow> i32 \<Rightarrow> (i32 \<times> exit_status) option act" where
  "w_wait_pid pid options = w_call (KWait pid options) (\<lambda>r.
     w_bind (w_panic (wait_pid (sint pid) (case r of RWait os \<Rightarrow> os | RFail e \<Rightarrow> [Inl e] | _ \<Rightarrow> [Inl EIO]))) w_lift)"

definition stat_path :: "i32 \<Rightarrow> string" where
  "stat_path pid = ''/proc/'' @ show_int (sint pid) @ ''/stat''"

definition stat_text :: "reply \<Rightarrow> (string, int option) result" where
  "stat_text r = (case r of RData d \<Rightarrow> if utf8_valid d then Ok d else Err None | RFail e \<Rightarrow> Err (Some e) | _ \<Rightarrow> Err (Some EIO))"

definition read_proc_stat :: "i32 \<Rightarrow> proc_stat act" where
  "read_proc_stat pid = w_call (KRead (stat_path pid)) (\<lambda>r. w_get (\<lambda>w. case stat_text r of
       Err (Some e) \<Rightarrow> w_err (NotFound (stat_path pid @ '': '' @ io_text w e))
     | Err None \<Rightarrow> w_err (NotFound (stat_path pid @ '': stream did not contain valid UTF-8''))
     | Ok t \<Rightarrow> w_bind (w_panic (parse_proc_stat t)) w_lift))"

text \<open>The one stat file that \<open>process_alive\<close> reads, as the function its model takes.\<close>

definition procs_of :: "reply \<Rightarrow> i32 \<Rightarrow> string option" where
  "procs_of r p = (case stat_text r of Ok t \<Rightarrow> Some t | Err _ \<Rightarrow> None)"

definition w_process_alive :: "i32 \<Rightarrow> u64 option \<Rightarrow> bool act" where
  "w_process_alive pid start = w_call (KRead (stat_path pid)) (\<lambda>r. w_ok (process_alive (procs_of r) pid start))"

definition list_pids_in_proc :: "string \<Rightarrow> i32 list act" where
  "list_pids_in_proc root =
     w_bind (w_sys (KReadDir root) reply_names (\<lambda>w e. Io (root @ '': '' @ io_text w e))) (\<lambda>names.
       w_ok (sort_key sint (List.map_filter (\<lambda>n. parse_i32 (from_utf8_lossy (bytes_of n))) names)))"

text \<open>\<open>reap_all\<close> ends when nothing is left to reap; a kernel with endless dead children keeps it busy.\<close>

partial_function (option) w_reap_all :: "(i32 \<times> exit_status) list \<Rightarrow> (i32 \<times> exit_status) list act" where
  "w_reap_all out w = (case w_wait_pid (- 1) WNOHANG w of
      None \<Rightarrow> None
    | Some (Ok (Some x), w') \<Rightarrow> w_reap_all (out @ [x]) w'
    | Some (_, w') \<Rightarrow> Some (Ok out, w'))"

section \<open>Creating the init process\<close>

record exec_plan =
  ep_argv :: "string list"
  ep_envp :: "string list"
  ep_exe_fd :: int

definition exec_plan_new :: "int \<Rightarrow> string list \<Rightarrow> string list \<Rightarrow> exec_plan act" where
  "exec_plan_new fd argv envp =
     w_bind (w_each (\<lambda>s. w_lift (cstr s)) argv) (\<lambda>_.
     w_bind (w_each (\<lambda>s. w_lift (cstr s)) envp) (\<lambda>_.
       w_ok \<lparr>ep_argv = argv, ep_envp = envp, ep_exe_fd = fd\<rparr>))"

record clone_request =
  cr_flags :: u64
  cr_cgroup_fd :: "int option"
  cr_sync_fd :: int
  cr_exit_signal :: i32
  cr_pdeathsig :: "i32 option"
  cr_plan :: exec_plan

record child =
  ch_pid :: i32
  ch_pidfd :: int

definition CHILD_SYNC_FD :: int where "CHILD_SYNC_FD = 3"
definition CHILD_EXE_FD :: int where "CHILD_EXE_FD = 4"

definition move_fd_high :: "int \<Rightarrow> int act" where
  "move_fd_high fd = w_sys (KFd (FDupFd fd)) reply_num (chk ''fcntl'' ''F_DUPFD_CLOEXEC'')"

text \<open>What the new process does before it becomes init; it never returns from this.\<close>

definition child_start_of :: "clone_request \<Rightarrow> int \<Rightarrow> int \<Rightarrow> child_start" where
  "child_start_of req sync_high exe_high = \<lparr>im_pdeathsig = cr_pdeathsig req, im_sync_high = sync_high, im_exe_high = exe_high,
     im_argv = ep_argv (cr_plan req), im_envp = ep_envp (cr_plan req)\<rparr>"

definition child_side :: "child_start \<Rightarrow> unit act" where
  "child_side im =
     (let leave = (\<lambda>n. w_call (KProc (PExit n)) (\<lambda>_. w_ok ())) in
      w_bind (case im_pdeathsig im of Some sig \<Rightarrow> w_call (KProc (PDeathsig sig)) (\<lambda>_. w_ok ()) | None \<Rightarrow> w_ok ()) (\<lambda>_.
      w_call (KFd (FDup2 (im_sync_high im) CHILD_SYNC_FD)) (\<lambda>r1.
        if failed r1 then leave 126
        else w_call (KFd (FDup2 (im_exe_high im) CHILD_EXE_FD)) (\<lambda>r2.
          if failed r2 then leave 126
          else w_call (KFd (FCloseRange (CHILD_EXE_FD + 1))) (\<lambda>_.
            w_call (KProc (PExecFd CHILD_EXE_FD (im_argv im) (im_envp im))) (\<lambda>r3.
              if failed r3 then leave 127 else w_ok ()))))))"

definition flags_text :: "u64 \<Rightarrow> string" where
  "flags_text x = ''0x'' @ show_radix 16 (unat x)"

definition clone3_flags :: "clone_request \<Rightarrow> u64" where
  "clone3_flags req = (cr_flags req OR CLONE_PIDFD) OR (if cr_cgroup_fd req = None then 0 else CLONE_INTO_CGROUP)"

definition legacy_flags :: "clone_request \<Rightarrow> u64" where
  "legacy_flags req = cr_flags req OR CLONE_PIDFD OR (ucast (cr_exit_signal req) AND 0xff)"

text \<open>
  \<open>errno\<close> is read only after the two descriptors are closed: it is the error of the clone call
  unless closing failed too.
\<close>

definition clone_errno :: "reply \<Rightarrow> int" where
  "clone_errno r = (case reply_fds r of Err e \<Rightarrow> e | Ok _ \<Rightarrow> 0)"

definition close_errno :: "int \<Rightarrow> int \<Rightarrow> int act" where
  "close_errno fd e = (if fd \<ge> 0
     then w_call (KFd (FClose fd)) (\<lambda>r. w_ok (case reply_unit r of Err e' \<Rightarrow> e' | Ok _ \<Rightarrow> e)) else w_ok e)"

definition clone_child_legacy :: "clone_request \<Rightarrow> child act" where
  "clone_child_legacy req =
     w_bind (move_fd_high (cr_sync_fd req)) (\<lambda>sync_high.
     w_bind (move_fd_high (ep_exe_fd (cr_plan req))) (\<lambda>exe_high.
     w_call (KProc (PClone (legacy_flags req) (child_start_of req sync_high exe_high))) (\<lambda>rc.
     w_bind (close_errno sync_high (clone_errno rc)) (\<lambda>e.
     w_bind (close_errno exe_high e) (\<lambda>e.
       case reply_fds rc of
         Err _ \<Rightarrow> w_err (Syscall ''clone'' e (''flags '' @ flags_text (legacy_flags req)))
       | Ok (pid, fd) \<Rightarrow> w_ok \<lparr>ch_pid = word_of_int pid, ch_pidfd = fd\<rparr>)))))"

definition clone_child :: "clone_request \<Rightarrow> child act" where
  "clone_child req =
     w_bind (move_fd_high (cr_sync_fd req)) (\<lambda>sync_high.
     w_bind (move_fd_high (ep_exe_fd (cr_plan req))) (\<lambda>exe_high.
     w_call (KProc (PClone3 (clone3_flags req) (cr_exit_signal req) (cr_cgroup_fd req) (child_start_of req sync_high exe_high))) (\<lambda>rc.
     w_bind (close_errno sync_high (clone_errno rc)) (\<lambda>e.
     w_bind (close_errno exe_high e) (\<lambda>e.
       case reply_fds rc of
         Err _ \<Rightarrow>
           if e = ENOSYS \<or> e = EINVAL then clone_child_legacy req
           else w_err (Syscall ''clone3'' e (''flags '' @ flags_text (clone3_flags req)))
       | Ok (pid, fd) \<Rightarrow> w_ok \<lparr>ch_pid = word_of_int pid, ch_pidfd = fd\<rparr>)))))"

section \<open>The sealed copy of the program\<close>

text \<open>
  The write loop: interrupted writes are repeated, short ones continued.  A kernel that always
  answers 0 keeps it busy for ever.
\<close>

partial_function (option) memfd_write :: "int \<Rightarrow> string \<Rightarrow> unit act" where
  "memfd_write fd data w =
     (if data = [] then Some (Ok (), w)
      else case k_call (KFd (FWrite fd data)) w of (r, w') \<Rightarrow>
        (case reply_num r of
           Ok n \<Rightarrow> memfd_write fd (drop (nat n) data) w'
         | Err e \<Rightarrow> if e = EINTR then memfd_write fd data w'
             else Some (Err (Syscall ''write'' e ''memfd self-copy''), w')))"

definition sealed_self_exe :: "(int \<times> bool) act" where
  "sealed_self_exe =
     w_bind (w_sys (KRead ''/proc/self/exe'') reply_data (\<lambda>w e. Io (''read /proc/self/exe: '' @ io_text w e))) (\<lambda>data.
     w_call (KFd FMemfd) (\<lambda>r. case reply_num r of
       Err _ \<Rightarrow> w_bind (w_sys (KFd (FOpen ''/proc/self/exe'' O_CLOEXEC)) reply_num (chk ''open'' ''/proc/self/exe''))
                  (\<lambda>f. w_ok (f, False))
     | Ok fd \<Rightarrow> w_try (memfd_write fd data) (\<lambda>r. case r of
         Err e \<Rightarrow> w_bind (close_fd fd) (\<lambda>_. w_err e)
       | Ok _ \<Rightarrow> w_call (KFd (FSeal fd)) (\<lambda>r. w_ok (fd, \<not> failed r)))))"

end
