(* ===== verification/Init.thy ===== *)
theory Init
  imports Rootfs Security Spawn
begin

text \<open>
  \<open>src/runtime/init.rs\<close>: the first process of a container, from the ready message to the exit of the
  workload.  Its end of the channel is \<open>w_chan\<close> of its world.
\<close>

section \<open>Reading what the supervisor wrote\<close>

definition SYNC_FD :: int where "SYNC_FD = 3"

definition init_read_config :: "string \<Rightarrow> container_config act" where
  "init_read_config state_dir =
     w_bind (on_fs (read_to_string (path_join state_dir ''config.json''))) (\<lambda>t.
     w_bind (w_lift (json_parse t)) (\<lambda>j.
       w_lift (config_from_json j)))"

definition netstate_of_json :: "json \<Rightarrow> network_state" where
  "netstate_of_json j =
     network_state_default\<lparr>ns_mode := unwrap_or ''none'' (get_str j ''mode''), ns_container_veth := get_str j ''container_veth'',
       ns_ip := get_str j ''ip'', ns_gateway := get_str j ''gateway'', ns_prefix := ucast (unwrap_or 24 (get_u64 j ''prefix''))\<rparr>"

definition read_network_state :: "string \<Rightarrow> network_state act" where
  "read_network_state state_dir =
     w_try (on_fs (read_to_string (path_join state_dir ''netstate.json''))) (\<lambda>r. w_ok (case r of
         Err _ \<Rightarrow> network_state_default
       | Ok t \<Rightarrow> (case json_parse t of Ok j \<Rightarrow> netstate_of_json j | Err _ \<Rightarrow> network_state_default)))"

section \<open>Preparing the container\<close>

definition init_setup :: "arch \<Rightarrow> container_config \<Rightarrow> network_state \<Rightarrow> unit act" where
  "init_setup a cfg ns =
     w_bind (if ns_uts (c_namespaces cfg) then sethostname_str (c_hostname cfg) else w_ok ()) (\<lambda>_.
     w_bind (fs_setup cfg) (\<lambda>_.
     w_bind (if ns_net (c_namespaces cfg)
         then w_map_err (\<lambda>e. Container (''configuring container network: '' @ display_error e)) (configure_inside ns)
         else w_ok ()) (\<lambda>_.
     w_bind (write_resolver_files cfg ns) (\<lambda>_.
     w_bind (enter_cwd (c_cwd cfg)) (\<lambda>_.
       sec_apply a (c_security cfg))))))"

definition is_executable :: "string \<Rightarrow> bool act" where
  "is_executable p = w_call (KStat p) (\<lambda>r. w_ok (case r of RStat _ x \<Rightarrow> x | _ \<Rightarrow> False))"

fun search_path :: "string \<Rightarrow> string list \<Rightarrow> string option act" where
  "search_path cmd [] = w_ok None"
| "search_path cmd (d # ds) =
     (let candidate = path_join d cmd in
      w_bind (is_executable candidate) (\<lambda>ok. if ok then w_ok (Some candidate) else search_path cmd ds))"

definition resolve_exe :: "string \<Rightarrow> string option \<Rightarrow> string act" where
  "resolve_exe cmd path_env =
     (if CHR ''/'' \<in> set cmd
      then w_bind (is_executable cmd) (\<lambda>ok.
        if ok then w_ok cmd else w_err (NotFound (cmd @ '' is not an executable file in the container'')))
      else
        (let path = unwrap_or DEFAULT_PATH path_env in
         w_bind (search_path cmd (filter (\<lambda>d. d \<noteq> []) (str_split path (CHR '':'')))) (\<lambda>r. case r of
           Some p \<Rightarrow> w_ok p
         | None \<Rightarrow> w_err (NotFound (''executable '' @ debug_str cmd @ '' not found in the container'' @ [CHR 0x27] @ ''s PATH ('' @ path @ '')'')))))"

definition no_nul :: "string \<Rightarrow> string \<Rightarrow> unit act" where
  "no_nul what s = (if CHR 0x00 \<in> set s then w_err (Config (what @ '' contains a NUL byte'')) else w_ok ())"

text \<open>What the workload process does before it becomes the workload.\<close>

definition workload_child :: "(u32 \<times> u32) option \<Rightarrow> string \<Rightarrow> string list \<Rightarrow> string list \<Rightarrow> unit act" where
  "workload_child user exe argv envp =
     w_bind reset_handlers (\<lambda>_.
     w_bind (w_ignore unblock_all) (\<lambda>_.
     w_try (case user of Some (uid, gid) \<Rightarrow> w_switch_user uid gid | None \<Rightarrow> w_ok ()) (\<lambda>r.
       if is_ok r
       then w_call (KProc (PExec exe argv envp)) (\<lambda>x. if failed x then w_call (KProc (PExit 127)) (\<lambda>_. w_ok ()) else w_ok ())
       else w_call (KProc (PExit 126)) (\<lambda>_. w_ok ()))))"

text \<open>
  \<open>spawn_workload\<close> in the parent; an empty command is a panic.  The configuration check rejects
  empty commands.
\<close>

definition spawn_workload :: "container_config \<Rightarrow> i32 act" where
  "spawn_workload cfg = (case c_command cfg of
      [] \<Rightarrow> w_panic None
    | cmd # _ \<Rightarrow>
        w_bind (resolve_exe cmd (env_value (c_env cfg) ''PATH'')) (\<lambda>exe.
        w_bind (no_nul ''command path'' exe) (\<lambda>_.
        w_bind (w_each (no_nul ''argument'') (c_command cfg)) (\<lambda>_.
        w_bind (w_each (no_nul ''environment'') (c_env cfg)) (\<lambda>_.
          fork_process)))))"

section \<open>Supervising the workload\<close>

partial_function (option) forward_signals :: "i32 \<Rightarrow> int \<Rightarrow> unit act" where
  "forward_signals workload sfd w =
     w_try (next_signal sfd) (\<lambda>r. case r of
         Ok (Some signo) \<Rightarrow>
           if signo = SIGCHLD then forward_signals workload sfd
           else w_bind (w_ignore (kill_pid workload signo)) (\<lambda>_. forward_signals workload sfd)
       | _ \<Rightarrow> w_ok ()) w"

text \<open>The status of the workload among the reaped processes; the last one counts.\<close>

definition workload_status :: "i32 \<Rightarrow> (i32 \<times> exit_status) list \<Rightarrow> exit_status option" where
  "workload_status workload reaped = map_of (rev reaped) workload"

partial_function (option) supervise :: "i32 \<Rightarrow> int \<Rightarrow> exit_status act" where
  "supervise workload sfd w =
     w_bind (w_reap_all []) (\<lambda>reaped. case workload_status workload reaped of
         Some status \<Rightarrow> w_ok status
       | None \<Rightarrow>
           w_try (poll_fd sfd 200) (\<lambda>r. case r of
               Ok n \<Rightarrow> if n = 0 then supervise workload sfd
                  else w_bind (forward_signals workload sfd) (\<lambda>_. supervise workload sfd)
             | Err _ \<Rightarrow> w_bind (k_sleep 50) (\<lambda>_. supervise workload sfd))) w"

definition other_pids :: "i32 list act" where
  "other_pids = w_try (list_pids_in_proc ''/proc'') (\<lambda>r. w_ok (case r of
     Ok ps \<Rightarrow> filter (\<lambda>p. p \<noteq> 1) ps | Err _ \<Rightarrow> []))"

text \<open>The grace period: \<open>True\<close> when nothing is left.\<close>

fun grace :: "nat \<Rightarrow> bool act" where
  "grace 0 = w_ok False"
| "grace (Suc n) =
     w_bind (k_sleep 25) (\<lambda>_.
     w_bind (w_reap_all []) (\<lambda>_.
     w_bind other_pids (\<lambda>left. if left = [] then w_ok True else grace n)))"

definition shutdown_remaining :: "unit act" where
  "shutdown_remaining =
     w_bind other_pids (\<lambda>others.
     if others = [] then w_ok ()
     else
       w_bind (w_each (\<lambda>p. w_ignore (kill_pid p SIGTERM)) others) (\<lambda>_.
       w_bind (grace 20) (\<lambda>gone.
       if gone then w_ok ()
       else
         w_bind (w_each (\<lambda>p. w_ignore (kill_pid p SIGKILL)) others) (\<lambda>_.
         w_bind (w_reap_all []) (\<lambda>_.
           w_ok ())))))"

section \<open>The whole life of init\<close>

definition init_run :: "arch \<Rightarrow> string \<Rightarrow> exit_status act" where
  "init_run a state_dir =
     w_bind (init_read_config state_dir) (\<lambda>cfg.
     w_bind (w_send TAG_READY) (\<lambda>_.
     w_bind (w_fault ''before_go_signal'') (\<lambda>_.
     w_bind (w_expect TAG_GO) (\<lambda>_.
     w_bind (w_fault ''after_go_signal'') (\<lambda>_.
     w_bind (read_network_state state_dir) (\<lambda>ns.
     w_bind (init_setup a cfg ns) (\<lambda>_.
     w_bind (sig_block FORWARDED) (\<lambda>_.
     w_bind (signal_fd_new FORWARDED) (\<lambda>sfd.
     w_bind (w_fault ''before_exec'') (\<lambda>_.
     w_bind (spawn_workload cfg) (\<lambda>child.
     w_bind (w_send TAG_STARTED) (\<lambda>_.
     w_bind (supervise child sfd) (\<lambda>status.
     w_bind shutdown_remaining (\<lambda>_.
       w_ok status))))))))))))))"

definition w_send_exit :: "i32 \<Rightarrow> i32 \<Rightarrow> unit act" where
  "w_send_exit c sg = w_chan_op (KSend TAG_EXIT) (\<lambda>p. Some (send_exit c sg p))"

definition w_send_error :: "string \<Rightarrow> unit act" where
  "w_send_error msg = w_chan_op (KSend TAG_ERROR) (\<lambda>p. Some (send_error msg p))"

definition init_main :: "arch \<Rightarrow> string \<Rightarrow> unit act" where
  "init_main a state_dir =
     w_call (KProc (PName ''myrun-init'')) (\<lambda>_.
     w_try (init_run a state_dir) (\<lambda>r. case r of
         Ok status \<Rightarrow>
           w_bind (w_ignore (w_send_exit (unwrap_or (- 1) (es_code status)) (unwrap_or 0 (es_signal status)))) (\<lambda>_.
             w_call (KProc (PExit (status_exit_code status))) (\<lambda>_. w_ok ()))
       | Err e \<Rightarrow>
           w_bind (w_ignore (w_send_error (display_error e))) (\<lambda>_.
             w_call (KProc (PExit (word_of_int (exit_code e)))) (\<lambda>_. w_ok ()))))"

end
