(* ===== verification/Supervisor.thy ===== *)
theory Supervisor
  imports Spawn Network Cgroup_Laws
begin

text \<open>
  \<open>src/runtime/supervisor.rs\<close>: turning a created container into a running one, waiting for it, and
  releasing what it owns.  \<open>root\<close> is the state directory of the store, \<open>me\<close> the pid of this process
  (part of the names of temporary files).
\<close>

section \<open>The store and the processes\<close>

definition w_init_is_alive :: "container_state \<Rightarrow> bool act" where
  "w_init_is_alive st =
     (if sint (cs_init_pid st) \<le> 0 then w_ok False
      else w_call (KRead (stat_path (cs_init_pid st))) (\<lambda>r. w_ok (init_is_alive (procs_of r) st)))"

definition w_reconcile :: "string \<Rightarrow> nat \<Rightarrow> container_state \<Rightarrow> (bool \<times> container_state) act" where
  "w_reconcile root me st =
     (if \<not> is_live (cs_status st) then w_ok (False, st)
      else if sint (cs_init_pid st) \<le> 0 then on_fs (store_reconcile root me (\<lambda>_. None) st)
      else w_call (KRead (stat_path (cs_init_pid st))) (\<lambda>r. on_fs (store_reconcile root me (procs_of r) st)))"

definition l_transition :: "status \<Rightarrow> (container_state, unit) lact" where
  "l_transition nxt st = w_try (on_fs (transition nxt st)) (\<lambda>r. case r of
       Ok st' \<Rightarrow> w_ok (Ok (), st')
     | Err e \<Rightarrow> w_ok (Err e, st))"

definition load_reconciled :: "string \<Rightarrow> nat \<Rightarrow> string \<Rightarrow> container_state act" where
  "load_reconciled root me i =
     w_bind (on_fs (store_load root i)) (\<lambda>st. w_bind (w_reconcile root me st) (\<lambda>(_, st'). w_ok st'))"

definition sup_create :: "string \<Rightarrow> nat \<Rightarrow> container_state \<Rightarrow> container_state act" where
  "sup_create root me st =
     w_bind (w_fault ''before_state_create'') (\<lambda>_.
     w_bind (on_fs (store_create root me st)) (\<lambda>_.
     w_bind (w_fault ''after_state_create'') (\<lambda>_.
     w_bind (on_fs (transition Created st)) (\<lambda>st'.
     w_bind (on_fs (store_save root me st')) (\<lambda>_.
       w_ok st')))))"

definition netstate_json :: "network_state \<Rightarrow> json" where
  "netstate_json ns = json_build
     [(''mode'', Str (ns_mode ns)), (''ip'', opt_str (ns_ip ns)), (''gateway'', opt_str (ns_gateway ns)),
      (''container_veth'', opt_str (ns_container_veth ns)), (''prefix'', JInt (ucast (ns_prefix ns)))]"

definition write_netstate :: "string \<Rightarrow> nat \<Rightarrow> container_state \<Rightarrow> unit act" where
  "write_netstate root me st =
     on_fs (write_atomic me (path_join (store_dir root (cs_id st)) ''netstate.json'')
       (json_to_string_pretty (netstate_json (cs_network st))))"

section \<open>Launching\<close>

record running =
  ru_child :: child
  ru_cgroup :: "cgroup option"

definition undo_cgroup :: "string \<Rightarrow> unit act" where
  "undo_cgroup path = w_bind (cg_attach path) cg_remove"

definition undo_process :: "i32 \<Rightarrow> unit act" where
  "undo_process pid =
     w_bind (w_ignore (kill_pid pid SIGKILL)) (\<lambda>_.
     w_bind (w_ignore (w_wait_pid pid 0)) (\<lambda>_. w_ok ()))"

type_synonym launch_state = "undo_stack \<times> container_state"

definition launch_cgroup :: "string \<Rightarrow> resources \<Rightarrow> (launch_state, cgroup option) lact" where
  "launch_cgroup i res =
     l_try (l_do (cg_create i res)) (\<lambda>r. case r of
       Ok cg \<Rightarrow>
         l_bind (l_fst (l_push ''cgroup'' (undo_cgroup (cg_path cg)))) (\<lambda>_.
         l_bind (l_snd (l_mod (\<lambda>st. st\<lparr>cs_cgroup_path := Some (cg_path cg)\<rparr>))) (\<lambda>_.
           l_ok (Some cg)))
     | Err e \<Rightarrow>
         if resources_is_empty res \<and> exit_code e = UNSUPPORTED then l_ok None else l_err e)"

definition init_environment :: "(string \<Rightarrow> string option) \<Rightarrow> string list" where
  "init_environment env = (''PATH='' @ DEFAULT_PATH) # List.map_filter (\<lambda>key. case env key of
       Some v \<Rightarrow> if v = [] then None else Some (key @ ''='' @ v)
     | None \<Rightarrow> None) [''MYRUN_LOG'', ''MYRUN_FAULT'']"

text \<open>A descriptor that is closed when the steps after it fail.\<close>

definition guard_fd :: "int \<Rightarrow> 'a act \<Rightarrow> 'a act" where
  "guard_fd fd m = w_try m (\<lambda>r. case r of
     Ok x \<Rightarrow> w_ok x | Err e \<Rightarrow> w_bind (close_fd fd) (\<lambda>_. w_err e))"

definition guard_opt :: "int option \<Rightarrow> 'a act \<Rightarrow> 'a act" where
  "guard_opt fd m = (case fd of Some f \<Rightarrow> guard_fd f m | None \<Rightarrow> m)"

text \<open>
  Steps 2 and 3: the sealed copy, the channel and the clone.  The result tells whether a descriptor
  of the group was passed to the clone call.
\<close>

definition launch_clone :: "string \<Rightarrow> container_config \<Rightarrow> string \<Rightarrow> cgroup option \<Rightarrow> (child \<times> bool) act" where
  "launch_clone root cfg i cg =
     w_bind sealed_self_exe (\<lambda>(exe_fd, sealed).
     guard_fd exe_fd (
       w_bind (w_sys (KFd FSocketpair) reply_fds (chk ''socketpair'' ''sync channel'')) (\<lambda>(parent_fd, child_fd).
       guard_fd parent_fd (guard_fd child_fd (
         w_get (\<lambda>w.
         w_bind (exec_plan_new exe_fd [''myrun-init'', ''__init'', store_dir root i] (init_environment (w_env w))) (\<lambda>plan.
         w_bind (case cg of
             Some g \<Rightarrow> w_try (cg_open_fd g) (\<lambda>r. w_ok (case r of Ok f \<Rightarrow> Some f | Err _ \<Rightarrow> None))
           | None \<Rightarrow> w_ok None) (\<lambda>cgroup_fd.
         w_bind (guard_opt cgroup_fd (
           w_bind (w_fault ''before_clone'') (\<lambda>_.
           w_bind (clone_child \<lparr>cr_flags = clone_flags (c_namespaces cfg), cr_cgroup_fd = cgroup_fd, cr_sync_fd = child_fd,
               cr_exit_signal = SIGCHLD, cr_pdeathsig = Some SIGKILL, cr_plan = plan\<rparr>) (\<lambda>child.
           w_bind (w_fault ''after_clone'') (\<lambda>_.
             w_ok child))))) (\<lambda>child.
         w_bind (close_fd child_fd) (\<lambda>_.
         w_bind (case cgroup_fd of Some f \<Rightarrow> close_fd f | None \<Rightarrow> w_ok ()) (\<lambda>_.
         w_bind (close_fd exe_fd) (\<lambda>_.
           w_ok (child, cgroup_fd \<noteq> None)))))))))))))"

text \<open>The rest of step 3: the undo action, the move into the group, the identity of the process.\<close>

definition launch_adopt :: "cgroup option \<Rightarrow> child \<Rightarrow> bool \<Rightarrow> (launch_state, unit) lact" where
  "launch_adopt cg child placed_by_clone =
     (let pid = ch_pid child in
      l_bind (l_fst (l_push ''container process'' (undo_process pid))) (\<lambda>_.
      l_bind (case cg of
          Some g \<Rightarrow> if placed_by_clone then l_ok () else l_do (cg_add_pid g pid)
        | None \<Rightarrow> l_ok ()) (\<lambda>_.
      l_bind (l_do (w_try (read_proc_stat pid) (\<lambda>r. w_ok (case r of Ok s \<Rightarrow> ps_start_time s | Err _ \<Rightarrow> 0)))) (\<lambda>t.
        l_snd (l_mod (\<lambda>st. st\<lparr>cs_init_pid := pid, cs_init_start_time := t\<rparr>))))))"

text \<open>Steps 5 and 6.\<close>

definition launch_network :: "string \<Rightarrow> nat \<Rightarrow> container_config \<Rightarrow> i32 \<Rightarrow> (launch_state, unit) lact" where
  "launch_network root me cfg pid =
     l_bind (l_fst (setup_host root me cfg pid)) (\<lambda>ns.
     l_bind (l_snd (l_mod (\<lambda>st. st\<lparr>cs_network := ns\<rparr>))) (\<lambda>_.
     l_get (\<lambda>(_, st).
     l_bind (l_fst (l_push ''container network'' (net_teardown root me (cs_id st) ns))) (\<lambda>_.
       l_do (write_netstate root me st)))))"

text \<open>Steps 7 and 8, and the commit.\<close>

definition launch_go :: "string \<Rightarrow> nat \<Rightarrow> (launch_state, unit) lact" where
  "launch_go root me =
     l_bind (l_do (w_send TAG_GO)) (\<lambda>_.
     l_bind (l_do (w_expect TAG_STARTED)) (\<lambda>_.
     l_bind (l_snd (l_transition Running)) (\<lambda>_.
     l_bind (l_snd (l_mod (\<lambda>st. st\<lparr>cs_error := None\<rparr>))) (\<lambda>_.
     l_get (\<lambda>(_, st).
     l_bind (l_do (on_fs (store_save root me st))) (\<lambda>_.
     l_bind (l_do (w_fault ''after_start'')) (\<lambda>_.
       l_fst (l_mod rb_commit))))))))"

definition launch_steps :: "string \<Rightarrow> nat \<Rightarrow> string \<Rightarrow> container_config \<Rightarrow> (launch_state, running) lact" where
  "launch_steps root me i cfg =
     l_bind (launch_cgroup i (c_resources cfg)) (\<lambda>cg.
     l_bind (l_do (launch_clone root cfg i cg)) (\<lambda>(child, placed_by_clone).
     l_bind (launch_adopt cg child placed_by_clone) (\<lambda>_.
     l_bind (l_do (w_expect TAG_READY)) (\<lambda>_.
     l_bind (launch_network root me cfg (ch_pid child)) (\<lambda>_.
     l_bind (launch_go root me) (\<lambda>_.
       l_ok \<lparr>ru_child = child, ru_cgroup = cg\<rparr>))))))"

definition launch :: "string \<Rightarrow> nat \<Rightarrow> (container_state, running) lact" where
  "launch root me st =
     (if cs_status st \<noteq> Created
      then l_err (InvalidState (''container '' @ short_id (cs_id st) @ '' is '' @ status_as_str (cs_status st) @
             '', not created; cannot start it'')) st
      else l_rollback (launch_steps root me (cs_id st) (cs_config st)) st)"

section \<open>Waiting for the end\<close>

definition exit_of_payload :: "u8 list \<Rightarrow> exit_status option" where
  "exit_of_payload payload = (case parse_exit payload of
      Some (c, sg) \<Rightarrow> Some \<lparr>es_code = (if sint c \<ge> 0 then Some c else None),
        es_signal = (if sint sg > 0 then Some sg else None)\<rparr>
    | None \<Rightarrow> None)"

partial_function (option) exit_loop :: "exit_status option \<Rightarrow> container_state \<Rightarrow> (exit_status option \<times> container_state) act" where
  "exit_loop from_init st w = (case w_recv w of
      None \<Rightarrow> None
    | Some (Ok (Some (tag, payload)), w') \<Rightarrow>
        (if tag = TAG_EXIT
         then exit_loop (case exit_of_payload payload of Some s \<Rightarrow> Some s | None \<Rightarrow> from_init) st w'
         else exit_loop from_init (if tag = TAG_ERROR then st\<lparr>cs_error := Some (from_utf8_lossy payload)\<rparr> else st) w')
    | Some (_, w') \<Rightarrow> Some (Ok (from_init, st), w'))"

definition wait_for_exit :: "string \<Rightarrow> nat \<Rightarrow> running \<Rightarrow> (container_state, exit_status) lact" where
  "wait_for_exit root me ru =
     l_get (\<lambda>st0.
     l_bind (l_do (exit_loop None st0)) (\<lambda>(from_init, st1).
     l_bind (l_mod (\<lambda>_. st1)) (\<lambda>_.
     l_bind (l_do (w_wait_pid (ch_pid (ru_child ru)) 0)) (\<lambda>waited.
     (let status = (case from_init of Some s \<Rightarrow> s
         | None \<Rightarrow> (case waited of Some (_, s) \<Rightarrow> s | None \<Rightarrow> \<lparr>es_code = Some (- 1), es_signal = None\<rparr>)) in
      l_bind (l_do (case ru_cgroup ru of Some cg \<Rightarrow> cg_was_oom_killed cg | None \<Rightarrow> w_ok False)) (\<lambda>oom.
      l_bind (l_mod (\<lambda>st. if oom then st\<lparr>cs_oom_killed := True\<rparr> else st)) (\<lambda>_.
      l_bind (l_get (\<lambda>st. l_bind (l_do (on_fs (\<lambda>s. case record_exit status st s of (st', s') \<Rightarrow> (Ok st', s')))) (\<lambda>st'. l_mod (\<lambda>_. st')))) (\<lambda>_.
      l_bind (l_try (l_transition Stopped) (\<lambda>_. l_ok ())) (\<lambda>_.
      l_get (\<lambda>st. l_bind (l_do (on_fs (store_save root me st))) (\<lambda>_.
        l_ok status)))))))))))"

section \<open>Releasing everything\<close>

text \<open>\<open>teardown\<close> never fails; its result is the changed state.\<close>

definition teardown_cgroup :: "string option \<Rightarrow> bool act" where
  "teardown_cgroup path = (case path of
      None \<Rightarrow> w_ok False
    | Some p \<Rightarrow> w_try (cg_attach p) (\<lambda>r. case r of
        Err _ \<Rightarrow> w_ok False
      | Ok cg \<Rightarrow>
          w_bind (cg_was_oom_killed cg) (\<lambda>oom.
          w_bind (w_ignore (cg_kill_all cg)) (\<lambda>_.
          w_bind (w_ignore (cg_remove cg)) (\<lambda>_.
            w_ok oom)))))"

definition sup_teardown :: "string \<Rightarrow> nat \<Rightarrow> container_state \<Rightarrow> container_state act" where
  "sup_teardown root me st =
     w_bind (if sint (cs_init_pid st) > 0 then w_init_is_alive st else w_ok False) (\<lambda>alive.
     w_bind (if alive
         then w_bind (w_ignore (kill_pid (cs_init_pid st) SIGKILL)) (\<lambda>_. w_ignore (w_wait_pid (cs_init_pid st) WNOHANG))
         else w_ok ()) (\<lambda>_.
     w_bind (teardown_cgroup (cs_cgroup_path st)) (\<lambda>oom.
     (let st1 = (if oom then st\<lparr>cs_oom_killed := True\<rparr> else st) in
      w_bind (net_teardown root me (cs_id st1) (cs_network st1)) (\<lambda>_.
      w_bind (on_fs (force_stopped st1)) (\<lambda>st2.
      w_bind (w_ignore (on_fs (store_save root me st2))) (\<lambda>_.
        w_ok st2)))))))"

section \<open>Collecting garbage\<close>

definition gc_container :: "string \<Rightarrow> nat \<Rightarrow> container_state \<Rightarrow> string list \<times> string list \<Rightarrow> (string list \<times> string list) act" where
  "gc_container root me st acc =
     (case acc of (report, live) \<Rightarrow>
        w_bind (w_reconcile root me st) (\<lambda>(corrected, st1).
        w_bind (if corrected then sup_teardown root me st1 else w_ok st1) (\<lambda>st2.
          w_ok (report @ (if corrected then [short_id (cs_id st1) @ '': marked stopped (init process was gone)''] else []),
                live @ (if is_live (cs_status st2) then [cs_id st2] else [])))))"

definition delete_orphan :: "string \<Rightarrow> string list \<Rightarrow> string list act" where
  "delete_orphan v report =
     w_try (w_bind nl_open (\<lambda>_. w_bind (link_index_required v) (\<lambda>idx. l_only 1 (nl_do (delete_link_msg idx))))) (\<lambda>r.
       w_ok (case r of Ok _ \<Rightarrow> report @ [''deleted orphaned interface '' @ v] | Err _ \<Rightarrow> report))"

definition gc_base :: "string list \<Rightarrow> string list act" where
  "gc_base report =
     w_try (remove_bridge_if_unused DEFAULT_BRIDGE) (\<lambda>r.
     (let report1 = (if r = Ok True then report @ [''removed unused bridge '' @ DEFAULT_BRIDGE] else report) in
      w_bind (rule_count ''base'') (\<lambda>n.
        if 0 < n then w_bind teardown_base (\<lambda>_. w_ok (report1 @ [''removed '' @ show_nat n @ '' shared iptables rule(s)'']))
        else w_ok report1)))"

definition sup_gc :: "string \<Rightarrow> nat \<Rightarrow> string list act" where
  "sup_gc root me =
     w_bind (on_fs (store_list root)) (\<lambda>all.
     w_bind (w_fold (gc_container root me) all ([], [])) (\<lambda>(report, live).
     w_bind (gc_empty live) (\<lambda>n.
     w_try (with_lock (ipam_lock_path root) (ipam_guard root) (ipam_gc root me live)) (\<lambda>m.
     w_try (orphaned_veths live) (\<lambda>veths.
     (let report1 = report @ (if 0 < n then [''removed '' @ show_nat n @ '' orphaned cgroup(s)''] else []) @
         (case m of Ok num \<Rightarrow> if 0 < num then [''released '' @ show_nat num @ '' stale IP lease(s)''] else [] | Err _ \<Rightarrow> []) in
      w_bind (case veths of Ok vs \<Rightarrow> w_fold delete_orphan vs report1 | Err _ \<Rightarrow> w_ok report1) (\<lambda>report2.
        if live = [] then gc_base report2 else w_ok report2)))))))"

end
