(* ===== verification/Calls.thy ===== *)
theory Calls
  imports Cgroup_Laws Supervisor Iptables_Laws
begin

text \<open>
  Which calls the operations of the runtime make.  \<open>ordinary\<close> calls neither create nor replace a
  process nor use the channel.
\<close>

definition ordinary :: "kcall \<Rightarrow> bool" where
  "ordinary c \<longleftrightarrow> (case c of KProc _ \<Rightarrow> False | KSend _ \<Rightarrow> False | KRecv _ \<Rightarrow> False | _ \<Rightarrow> True)"

named_theorems ordinary_intros "operations that make only ordinary calls"

lemma ordinary_calls [ordinary_intros]:
  "ordinary (KRead p)" "ordinary (KWrite p d)" "ordinary (KMkdir p)" "ordinary (KMkdirAll p)" "ordinary (KRmdir p)"
  "ordinary (KUnlink p)" "ordinary (KStat p)" "ordinary (KLstat p)" "ordinary (KReadDir p)" "ordinary (KKill i s)"
  "ordinary (KWait i s)" "ordinary (KSleep n)" "ordinary KNow" "ordinary (KRun b as)" "ordinary (KReadlink p)"
  "ordinary KNlOpen" "ordinary KNlBind" "ordinary (KNetlink m)" "ordinary (KIfIndex v)" "ordinary (KFd f)"
  "ordinary (KMnt x)" "ordinary (KSec y)"
  by (simp_all add: ordinary_def)

lemma not_ordinary [simp]: "\<not> ordinary (KProc x)" "\<not> ordinary (KSend t)" "\<not> ordinary (KRecv t)"
  by (simp_all add: ordinary_def)

lemma makes_reply [forward_intros]:
  "(\<And>e. makes P (a e)) \<Longrightarrow> makes P b \<Longrightarrow> (\<And>d. makes P (c d)) \<Longrightarrow> (\<And>ns. makes P (d' ns)) \<Longrightarrow> (\<And>x y. makes P (f x y)) \<Longrightarrow>
   (\<And>n. makes P (g n)) \<Longrightarrow> (\<And>x y. makes P (h x y)) \<Longrightarrow> (\<And>x y z. makes P (i x y z)) \<Longrightarrow> (\<And>x y z. makes P (j x y z)) \<Longrightarrow>
   (\<And>os. makes P (l os)) \<Longrightarrow> (\<And>q. makes P (m q)) \<Longrightarrow>
   makes P (case r of RFail e \<Rightarrow> a e | RDone \<Rightarrow> b | RData d \<Rightarrow> c d | RNames ns \<Rightarrow> d' ns | RStat x y \<Rightarrow> f x y | RNum n \<Rightarrow> g n
     | RFds x y \<Rightarrow> h x y | RCaps x y z \<Rightarrow> i x y z | RExit x y z \<Rightarrow> j x y z | RWait os \<Rightarrow> l os | RPackets q \<Rightarrow> m q)"
  by (cases r) auto

lemma makes_panic [forward_intros]: "makes P (w_panic z)"
  by (auto simp: makes_def w_panic_def split: option.splits)

section \<open>Control groups\<close>

lemma ordinary_cgroup [ordinary_intros]:
  "makes ordinary (cg_apply cg res)" "makes ordinary (cg_finish cg res)" "makes ordinary (cg_add_pid cg pid)"
  "makes ordinary (cg_pids cg)" "makes ordinary (cg_stats cg)" "makes ordinary (cg_was_oom_killed cg)"
  "makes ordinary (cg_kill_all cg)" "makes ordinary (cg_attach p)" "makes ordinary (cg_freeze cg)" "makes ordinary (cg_thaw cg)"
proof -
  show a: "makes ordinary (cg_apply cg res)" unfolding cg_apply_def by (intro forward_intros ordinary_intros)
  show "makes ordinary (cg_finish cg res)" unfolding cg_finish_def by (intro forward_intros ordinary_intros a)
  show s: "makes ordinary (cg_stats cg)" unfolding cg_stats_def by (intro forward_intros ordinary_intros)
  show "makes ordinary (cg_was_oom_killed cg)" unfolding cg_was_oom_killed_def by (intro forward_intros ordinary_intros s)
  show p: "makes ordinary (cg_pids cg)" unfolding cg_pids_def by (intro forward_intros ordinary_intros)
  show "makes ordinary (cg_kill_all cg)" unfolding cg_kill_all_def by (intro forward_intros ordinary_intros p)
qed (unfold cg_add_pid_def cg_attach_def cg_freeze_def cg_thaw_def, (intro forward_intros ordinary_intros)+)

lemma ordinary_remove [ordinary_intros]: "makes ordinary (cg_remove_loop cg first n)" "makes ordinary (cg_remove cg)"
proof -
  show l: "makes ordinary (cg_remove_loop cg first n)" for first n
    by (induction n arbitrary: first) (auto intro!: forward_intros ordinary_intros)
  show "makes ordinary (cg_remove cg)" unfolding cg_remove_def by (intro forward_intros ordinary_intros l)
qed

lemma ordinary_create [ordinary_intros]: "makes ordinary (cg_create i res)"
proof -
  have "makes ordinary (cg_prepare res)" unfolding cg_prepare_def Let_def by (intro forward_intros ordinary_intros)
  moreover have "makes ordinary (cg_make_leaf p en res)" for p en
    unfolding cg_make_leaf_def Let_def by (intro forward_intros ordinary_intros)
  ultimately show ?thesis unfolding cg_create_def by (intro makes_bind makes_prod)
qed

lemma ordinary_gc_empty [ordinary_intros]: "makes ordinary (gc_empty live)"
  unfolding gc_empty_def gc_entry_def Let_def by (intro forward_intros ordinary_intros)

section \<open>The firewall\<close>

lemma ordinary_ipt [ordinary_intros]:
  "makes ordinary (ipt args)" "makes ordinary (ipt_ok args)" "makes ordinary nat_available"
  "makes ordinary (chain_exists t c)" "makes ordinary (rule_exists t r)" "makes ordinary (append_unique t r)" "makes ordinary (insert_unique t r)"
proof -
  show i: "makes ordinary (ipt args)" for args
    unfolding ipt_def iptables_run_def by (intro forward_intros ordinary_intros)
  show k: "makes ordinary (ipt_ok args)" for args unfolding ipt_ok_def by (intro forward_intros i)
  show "makes ordinary nat_available" unfolding nat_available_def iptables_run_def by (intro forward_intros ordinary_intros)
  show "makes ordinary (chain_exists t c)" unfolding chain_exists_def by (intro k)
  show e: "makes ordinary (rule_exists t r)" for t r unfolding rule_exists_def by (intro k)
  show "makes ordinary (append_unique t r)" unfolding append_unique_def by (intro forward_intros e i)
  show "makes ordinary (insert_unique t r)" unfolding insert_unique_def by (intro forward_intros e i)
qed

lemma ordinary_nat [ordinary_intros]:
  "makes ordinary (setup_bridge b s n)" "makes ordinary (nat_publish i b ip m)" "makes ordinary (tagged_rules i)"
  "makes ordinary (nat_cleanup i)" "makes ordinary (rule_count i)" "makes ordinary teardown_base"
proof -
  have c: "makes ordinary ensure_chains" unfolding ensure_chains_def by (intro forward_intros ordinary_intros)
  show "makes ordinary (setup_bridge b s n)"
    unfolding setup_bridge_def enable_ip_forwarding_def enable_route_localnet_def enable_sysctl_def
    by (intro forward_intros ordinary_intros c)
  show "makes ordinary (nat_publish i b ip m)" unfolding nat_publish_def by (intro forward_intros ordinary_intros c)
  show t: "makes ordinary (tagged_rules i)" for i unfolding tagged_rules_def by (intro forward_intros ordinary_intros)
  show n: "makes ordinary (nat_cleanup i)" for i unfolding nat_cleanup_def by (intro forward_intros ordinary_intros t)
  show "makes ordinary (rule_count i)" unfolding rule_count_def by (intro forward_intros t)
  show "makes ordinary teardown_base" unfolding teardown_base_def by (intro forward_intros ordinary_intros n)
qed

section \<open>The network\<close>

lemma ordinary_netlink [ordinary_intros]:
  "makes ordinary nl_open" "makes ordinary (nl_exchange m d s)" "makes ordinary (nl_do m s)" "makes ordinary (link_index n)"
  "makes ordinary (link_index_required n)" "makes ordinary (nl_list_links s)"
proof -
  show "makes ordinary nl_open" unfolding nl_open_def by (intro forward_intros ordinary_intros)
  show x: "makes ordinary (nl_exchange m d s)" for m d s unfolding nl_exchange_def by (intro forward_intros ordinary_intros)
  show "makes ordinary (nl_do m s)" unfolding nl_do_def by (intro forward_intros x)
  show l: "makes ordinary (link_index n)" for n unfolding link_index_def by (intro forward_intros ordinary_intros)
  show "makes ordinary (link_index_required n)" unfolding link_index_required_def by (intro forward_intros l)
  show "makes ordinary (nl_list_links s)" unfolding nl_list_links_def by (intro forward_intros x)
qed

lemma ordinary_undo [ordinary_intros]:
  "makes ordinary (undo_lease root me i)" "makes ordinary (undo_veth v)" "makes ordinary (undo_rules i)"
  "makes ordinary (net_teardown root me i ns)" "makes ordinary (undo_cgroup p)" "makes ordinary (w_wait_pid pid o1)"
  "makes ordinary (undo_process pid)"
proof -
  show w: "makes ordinary (w_wait_pid pid o1)" for pid o1 unfolding w_wait_pid_def by (intro forward_intros ordinary_intros)
  show "makes ordinary (undo_process pid)" unfolding undo_process_def by (intro forward_intros ordinary_intros w)
  show "makes ordinary (net_teardown root me i ns)"
    unfolding net_teardown_def by (intro forward_intros ordinary_intros)
qed (unfold undo_lease_def undo_veth_def undo_rules_def undo_cgroup_def, (intro forward_intros ordinary_intros)+)

lemma ordinary_setup_host [ordinary_intros]: "makes ordinary (setup_host root me cfg pid rb)"
  unfolding setup_host_def setup_veth_def setup_rules_def ensure_bridge_def remove_stale_def Let_def case_prod_beta
  by (intro forward_intros ordinary_intros)

end
