(* ===== verification/Launch_Laws.thy ===== *)
theory Launch_Laws
  imports Calls
begin

text \<open>
  What \<open>launch\<close> promises: the go message is only sent to a confined process with a network, and a
  failed launch undoes what it did, last step first.
\<close>

section \<open>Operations that only push undo actions\<close>

text \<open>
  \<open>grows get m\<close>: whatever happens, \<open>m\<close> returns, for a stack that holds the actions \<open>xs\<close>, a stack
  that holds \<open>xs\<close> and more, all of them making ordinary calls only.  \<open>get\<close> selects the stack from the
  local state.
\<close>

definition grows :: "('s \<Rightarrow> undo_stack) \<Rightarrow> ('s, 'a) lact \<Rightarrow> bool" where
  "grows get m \<longleftrightarrow> (\<forall>xs s w res w'. get s = stack_of xs \<longrightarrow> m s w = Some (res, w') \<longrightarrow>
     (\<exists>r s' ys. res = Ok (r, s') \<and> get s' = stack_of (xs @ ys) \<and> (\<forall>y \<in> set ys. makes ordinary (snd y))))"

text \<open>Operations that always come back with a result and a state.\<close>

definition proper :: "('s, 'a) lact \<Rightarrow> bool" where
  "proper m \<longleftrightarrow> (\<forall>s w res w'. m s w = Some (res, w') \<longrightarrow> (\<exists>r s'. res = Ok (r, s')))"

named_theorems grows_intros "operations that push undo actions"

lemma growsI_same:
  "(\<And>s w res w'. m s w = Some (res, w') \<Longrightarrow> \<exists>r. res = Ok (r, s)) \<Longrightarrow> grows get m"
  unfolding grows_def by (metis append_Nil2 empty_iff list.set(1))

lemma grows_basic [grows_intros]:
  "grows get (l_ok x)" "grows get (l_err e)" "grows get (l_lift r)" "grows get (l_do n)"
  by (rule growsI_same; auto simp: l_defs w_ok_def w_try_def split: option.splits)+

lemma proper_basic [grows_intros]:
  "proper (l_ok x)" "proper (l_err e)" "proper (l_lift r)" "proper (l_do n)" "proper (l_mod g)"
  by (auto simp: proper_def l_defs w_ok_def w_try_def split: option.splits)

lemma grows_bind [grows_intros]:
  assumes "grows get m" "\<And>x. grows get (f x)"
  shows "grows get (l_bind m f)"
  unfolding grows_def
proof (intro allI impI)
  fix xs s w res w' assume s: "get s = stack_of xs" and run: "l_bind m f s w = Some (res, w')"
  obtain x u where u: "m s w = Some (x, u)" using run by (auto simp: l_bind_def w_bind_def split: option.splits)
  then obtain r s1 ys where r: "x = Ok (r, s1)" "get s1 = stack_of (xs @ ys)" "\<forall>y \<in> set ys. makes ordinary (snd y)"
    using assms(1) s unfolding grows_def by blast
  show "\<exists>r s' ys. res = Ok (r, s') \<and> get s' = stack_of (xs @ ys) \<and> (\<forall>y \<in> set ys. makes ordinary (snd y))"
  proof (cases r)
    case (Ok y)
    then have "f y s1 u = Some (res, w')" using run u r by (simp add: l_bind_def w_bind_def)
    with assms(2) [of y] r(2) obtain r' s' zs where "res = Ok (r', s')" "get s' = stack_of ((xs @ ys) @ zs)"
      "\<forall>y \<in> set zs. makes ordinary (snd y)" unfolding grows_def by blast
    then show ?thesis using r(3) by (intro exI [of _ r'] exI [of _ s'] exI [of _ "ys @ zs"]) auto
  next
    case (Err e)
    then show ?thesis using run u r by (auto simp: l_bind_def w_bind_def w_ok_def)
  qed
qed

lemma grows_try [grows_intros]:
  assumes "grows get m" "\<And>x. grows get (f x)"
  shows "grows get (l_try m f)"
  unfolding grows_def
proof (intro allI impI)
  fix xs s w res w' assume s: "get s = stack_of xs" and run: "l_try m f s w = Some (res, w')"
  obtain x u where u: "m s w = Some (x, u)" using run by (auto simp: l_try_def w_bind_def split: option.splits)
  then obtain r s1 ys where r: "x = Ok (r, s1)" "get s1 = stack_of (xs @ ys)" "\<forall>y \<in> set ys. makes ordinary (snd y)"
    using assms(1) s unfolding grows_def by blast
  then have "f r s1 u = Some (res, w')" using run u by (simp add: l_try_def w_bind_def)
  with assms(2) [of r] r(2) obtain r' s' zs where "res = Ok (r', s')" "get s' = stack_of ((xs @ ys) @ zs)"
    "\<forall>y \<in> set zs. makes ordinary (snd y)" unfolding grows_def by blast
  then show "\<exists>r s' ys. res = Ok (r, s') \<and> get s' = stack_of (xs @ ys) \<and> (\<forall>y \<in> set ys. makes ordinary (snd y))"
    using r(3) by (intro exI [of _ r'] exI [of _ s'] exI [of _ "ys @ zs"]) auto
qed

lemma proper_bind [grows_intros]: "proper m \<Longrightarrow> (\<And>x. proper (f x)) \<Longrightarrow> proper (l_bind m f)"
  unfolding proper_def by (fastforce simp: l_bind_def w_bind_def w_ok_def split: option.splits prod.splits result.splits)

lemma proper_try [grows_intros]: "proper m \<Longrightarrow> (\<And>x. proper (f x)) \<Longrightarrow> proper (l_try m f)"
  unfolding proper_def by (fastforce simp: l_try_def w_bind_def w_ok_def split: option.splits prod.splits result.splits)

lemma grows_push [grows_intros]: "makes ordinary u \<Longrightarrow> grows (\<lambda>rb. rb) (l_push n u)"
  unfolding grows_def by (auto simp: l_push_def l_mod_def w_ok_def stack_push intro!: exI [of _ "[(n, u)]"])

lemma grows_fst [grows_intros]: "grows (\<lambda>rb. rb) m \<Longrightarrow> grows fst (l_fst m)"
  unfolding grows_def l_fst_def w_bind_def by (auto simp: w_ok_def split: option.splits prod.splits result.splits) blast+

lemma grows_snd [grows_intros]: "grows (\<lambda>rb. rb) m \<Longrightarrow> grows snd (l_snd m)"
  unfolding grows_def l_snd_def w_bind_def by (auto simp: w_ok_def split: option.splits prod.splits result.splits) blast+

lemma grows_other [grows_intros]:
  "proper m \<Longrightarrow> grows snd (l_fst m)" "proper n \<Longrightarrow> grows fst (l_snd n)"
  unfolding grows_def proper_def l_fst_def l_snd_def w_bind_def
  by (auto simp: w_ok_def split: option.splits prod.splits result.splits) (metis append_Nil2 empty_iff list.set(1))+

lemma grows_get [grows_intros]: "(\<And>x. grows get (f x)) \<Longrightarrow> grows get (l_get f)"
  unfolding grows_def l_get_def by blast

lemma grows_local [grows_intros]: "grows snd m \<Longrightarrow> grows (\<lambda>rb. rb) (l_local x m)"
  unfolding grows_def l_local_def w_bind_def
  by (auto simp: w_ok_def split: option.splits prod.splits result.splits) blast+

lemma grows_cases [grows_intros]:
  "grows get a \<Longrightarrow> grows get b \<Longrightarrow> grows get (if c then a else b)"
  "grows get d \<Longrightarrow> (\<And>x. grows get (g x)) \<Longrightarrow> grows get (case z of None \<Rightarrow> d | Some x \<Rightarrow> g x)"
  "(\<And>x. grows get (h x)) \<Longrightarrow> (\<And>e. grows get (q e)) \<Longrightarrow> grows get (case y of Ok x \<Rightarrow> h x | Err e \<Rightarrow> q e)"
  "(\<And>x y. grows get (l x y)) \<Longrightarrow> grows get (case v of (x, y) \<Rightarrow> l x y)"
  by (simp, cases z, auto, cases y, auto, cases v, auto)

lemma proper_cases [grows_intros]:
  "proper a \<Longrightarrow> proper b \<Longrightarrow> proper (if c then a else b)"
  "proper d \<Longrightarrow> (\<And>x. proper (g x)) \<Longrightarrow> proper (case z of None \<Rightarrow> d | Some x \<Rightarrow> g x)"
  "(\<And>x. proper (h x)) \<Longrightarrow> (\<And>e. proper (q e)) \<Longrightarrow> proper (case y of Ok x \<Rightarrow> h x | Err e \<Rightarrow> q e)"
  by (simp, cases z, auto, cases y, auto)

lemma proper_nl [grows_intros]: "proper (nl_do m)"
proof -
  have "proper (nl_exchange m d)" for m d
    by (auto simp: proper_def nl_exchange_def w_call_def w_ok_def split: prod.splits)
  then show ?thesis unfolding nl_do_def by (intro grows_intros)
qed

lemma grows_setup_host [grows_intros]: "grows (\<lambda>rb. rb) (setup_host root me cfg pid)"
  unfolding setup_host_def setup_veth_def setup_rules_def ensure_bridge_def remove_stale_def Let_def case_prod_beta
  by (intro grows_intros ordinary_intros)

end
