(* ===== verification/Clone_Laws.thy ===== *)
theory Clone_Laws
  imports Launch_Laws
begin

text \<open>Where new processes come from, and what becomes of them when the launch fails.\<close>

section \<open>Ordinary steps around the clone\<close>

lemma ordinary_fds [ordinary_intros]:
  "makes ordinary (close_fd fd)" "makes ordinary (open_path p fl)" "makes ordinary (cg_open_fd cg)"
  "makes ordinary (move_fd_high fd)" "makes ordinary (exec_plan_new fd as es)" "makes ordinary (read_proc_stat pid)"
proof -
  show o: "makes ordinary (open_path p fl)" for p fl unfolding open_path_def by (intro forward_intros ordinary_intros)
  show "makes ordinary (cg_open_fd cg)" unfolding cg_open_fd_def by (rule o)
  show "makes ordinary (read_proc_stat pid)" unfolding read_proc_stat_def by (intro forward_intros ordinary_intros)
qed (unfold close_fd_def move_fd_high_def exec_plan_new_def, (intro forward_intros ordinary_intros)+)

lemma ordinary_memfd_write [ordinary_intros]: "makes ordinary (memfd_write fd data)"
proof -
  have "later w (snd y) \<and> (\<forall>e \<in> set (since w (snd y)). ordinary (fst e))" if "memfd_write fd data w = Some y" for w y
  proof (rule memfd_write.raw_induct [OF _ that], goal_cases)
    case (1 f fd data w y)
    obtain r u where u: "k_call (KFd (FWrite fd data)) w = (r, u)" by (cases "k_call (KFd (FWrite fd data)) w")
    note c = call_since [OF u]
    have "later u (snd y) \<and> (\<forall>e \<in> set (since u (snd y)). ordinary (fst e))" if "data \<noteq> []"
      using 1 that u by (auto split: result.splits if_splits)
    moreover have "\<forall>e \<in> set (since w u). ordinary (fst e)" using c by (auto intro: ordinary_intros)
    ultimately show ?case using 1(2) c makes_steps [of w u ordinary "snd y"] by (cases "data = []") auto
  qed
  then show ?thesis by (fastforce simp: makes_def)
qed

lemma ordinary_sealed [ordinary_intros]: "makes ordinary sealed_self_exe"
  unfolding sealed_self_exe_def by (intro forward_intros ordinary_intros)

section \<open>Tracing a result together with the calls\<close>

definition traced :: "(string \<Rightarrow> string option) \<Rightarrow> ('a res \<Rightarrow> kcall \<Rightarrow> reply \<Rightarrow> bool) \<Rightarrow> 'a act \<Rightarrow> bool" where
  "traced env Q m \<longleftrightarrow> (\<forall>w r w'. w_env w = env \<longrightarrow> m w = Some (r, w') \<longrightarrow>
     later w w' \<and> (\<forall>e \<in> set (since w w'). ordinary (fst e) \<or> Q r (fst e) (snd e)))"

lemma traced_ordinary: "makes ordinary m \<Longrightarrow> traced env Q m"
  unfolding traced_def makes_def by blast

lemma later_env: "later w w' \<Longrightarrow> w_env w' = w_env w"
  by (simp add: later_def)

lemma traced_before:
  assumes "makes ordinary m" "\<And>x. traced env Q (f x)"
  shows "traced env Q (w_bind m f)"
  unfolding traced_def
proof (intro allI impI)
  fix w r w' assume env: "w_env w = env" and run: "w_bind m f w = Some (r, w')"
  obtain x u where u: "m w = Some (x, u)" using run by (auto simp: w_bind_def split: option.splits)
  have a: "later w u" "\<forall>e \<in> set (since w u). ordinary (fst e)" using assms(1) u unfolding makes_def by blast+
  show "later w w' \<and> (\<forall>e \<in> set (since w w'). ordinary (fst e) \<or> Q r (fst e) (snd e))"
  proof (cases x)
    case (Ok y)
    then have "f y u = Some (r, w')" using run u by (simp add: w_bind_def)
    with assms(2) [of y] a(1) env have b: "later u w'" "\<forall>e \<in> set (since u w'). ordinary (fst e) \<or> Q r (fst e) (snd e)"
      unfolding traced_def using later_env by blast+
    then show ?thesis using a later_trans since_trans [of w u w'] by (auto dest: later_trans)
  next
    case (Err e)
    then show ?thesis using run u a by (auto simp: w_bind_def)
  qed
qed

lemma traced_after:
  assumes "traced env Q m" "\<And>x. makes ordinary (f x)"
    and "\<And>x w r w'. f x w = Some (r, w') \<Longrightarrow> w_env w = env \<Longrightarrow> \<forall>c y. Q (Ok x) c y \<longrightarrow> Q' r c y"
    and "\<And>e c y. Q (Err e) c y \<Longrightarrow> Q' (Err e) c y"
  shows "traced env Q' (w_bind m f)"
  unfolding traced_def
proof (intro allI impI)
  fix w r w' assume env: "w_env w = env" and run: "w_bind m f w = Some (r, w')"
  obtain x u where u: "m w = Some (x, u)" using run by (auto simp: w_bind_def split: option.splits)
  have a: "later w u" "\<forall>e \<in> set (since w u). ordinary (fst e) \<or> Q x (fst e) (snd e)"
    using assms(1) u env unfolding traced_def by blast+
  show "later w w' \<and> (\<forall>e \<in> set (since w w'). ordinary (fst e) \<or> Q' r (fst e) (snd e))"
  proof (cases x)
    case (Ok y)
    then have f: "f y u = Some (r, w')" using run u by (simp add: w_bind_def)
    with assms(2) [of y] have b: "later u w'" "\<forall>e \<in> set (since u w'). ordinary (fst e)" unfolding makes_def by blast+
    have "\<forall>c z. Q (Ok y) c z \<longrightarrow> Q' r c z" using assms(3) [OF f] later_env [OF a(1)] env by simp
    then show ?thesis using a b Ok later_trans since_trans [of w u w'] by (auto dest: later_trans)
  next
    case (Err e)
    then show ?thesis using run u a assms(4) by (auto simp: w_bind_def)
  qed
qed

lemma traced_call:
  assumes "\<And>x. traced env Q (f x)" and "\<And>x w r w'. f x w = Some (r, w') \<Longrightarrow> Q r c x"
  shows "traced env Q (w_call c f)"
  unfolding traced_def
proof (intro allI impI)
  fix w r w' assume env: "w_env w = env" and run: "w_call c f w = Some (r, w')"
  obtain x u where u: "k_call c w = (x, u)" by (cases "k_call c w")
  note a = call_since [OF u]
  have f: "f x u = Some (r, w')" using run u by (simp add: w_call_def)
  then have "later u w'" "\<forall>e \<in> set (since u w'). ordinary (fst e) \<or> Q r (fst e) (snd e)"
    using assms(1) [of x] a env later_env unfolding traced_def by blast+
  then show "later w w' \<and> (\<forall>e \<in> set (since w w'). ordinary (fst e) \<or> Q r (fst e) (snd e))"
    using a assms(2) [OF f] since_trans [of w u w'] by (auto dest: later_trans)
qed

lemma traced_mono: "traced env Q m \<Longrightarrow> (\<And>r c x. Q r c x \<Longrightarrow> Q' r c x) \<Longrightarrow> traced env Q' m"
  unfolding traced_def by blast

lemma traced_guard: "traced env Q m \<Longrightarrow> traced env Q (guard_fd fd m)"
proof -
  assume m: "traced env Q m"
  show ?thesis unfolding traced_def
  proof (intro allI impI)
    fix w r w' assume env: "w_env w = env" and run: "guard_fd fd m w = Some (r, w')"
    obtain x u where u: "m w = Some (x, u)" using run by (auto simp: guard_fd_def w_simps)
    have a: "later w u" "\<forall>e \<in> set (since w u). ordinary (fst e) \<or> Q x (fst e) (snd e)"
      using m u env unfolding traced_def by blast+
    let ?k = "case x of Ok x \<Rightarrow> w_ok x | Err e \<Rightarrow> w_bind (close_fd fd) (\<lambda>_. w_err e)"
    have "?k u = Some (r, w')" using run u by (simp add: guard_fd_def w_try_def)
    moreover have "makes ordinary ?k" by (intro forward_intros ordinary_intros)
    ultimately have b: "later u w'" "\<forall>e \<in> set (since u w'). ordinary (fst e)" unfolding makes_def by blast+
    have "x = r" using \<open>?k u = Some (r, w')\<close>
      by (cases x) (auto simp: w_simps close_fd_def w_bind_def w_ok_def w_err_def w_call_def split: if_splits prod.splits)
    then show "later w w' \<and> (\<forall>e \<in> set (since w w'). ordinary (fst e) \<or> Q r (fst e) (snd e))"
      using a b since_trans [of w u w'] by (auto dest: later_trans)
  qed
qed

section \<open>The clone\<close>

definition is_clone :: "kcall \<Rightarrow> bool" where
  "is_clone c \<longleftrightarrow> (case c of KProc (PClone3 _ _ _ _) \<Rightarrow> True | KProc (PClone _ _) \<Rightarrow> True | _ \<Rightarrow> False)"

text \<open>A clone call that made a process yields that process.\<close>

definition clone_result :: "child res \<Rightarrow> kcall \<Rightarrow> reply \<Rightarrow> bool" where
  "clone_result r c x \<longleftrightarrow> is_clone c \<and>
     (\<forall>pid fd. x = RFds pid fd \<longrightarrow> r = Ok \<lparr>ch_pid = word_of_int pid, ch_pidfd = fd\<rparr>)"

lemma close_fd_run: "\<exists>w'. close_fd fd w = Some (Ok (), w')"
  by (auto simp: close_fd_def w_ok_def w_call_def split: prod.splits)

lemma close_errno_run: "\<exists>e' w'. close_errno fd e w = Some (Ok e', w')"
  by (auto simp: close_errno_def w_ok_def w_call_def split: prod.splits)

lemma after_close:
  "w_bind (close_errno a e) (\<lambda>e. w_bind (close_errno b e) m) w = Some (r, w') \<Longrightarrow> \<exists>e u. m e u = Some (r, w')"
proof -
  obtain e1 u where u: "close_errno a e w = Some (Ok e1, u)" using close_errno_run by blast
  obtain e2 v where v: "close_errno b e1 u = Some (Ok e2, v)" using close_errno_run by blast
  show "w_bind (close_errno a e) (\<lambda>e. w_bind (close_errno b e) m) w = Some (r, w') \<Longrightarrow> \<exists>e u. m e u = Some (r, w')"
    using u v by (auto simp: w_bind_def)
qed

lemma ordinary_close_errno [ordinary_intros]: "makes ordinary (close_errno fd e)"
  unfolding close_errno_def by (intro forward_intros ordinary_intros)

lemma traced_legacy: "traced env clone_result (clone_child_legacy req)"
  unfolding clone_child_legacy_def
proof (intro traced_before traced_call ordinary_intros)
  fix sh eh x e
  show "traced env clone_result (case reply_fds x of
         Ok (pid, fd) \<Rightarrow> w_ok \<lparr>ch_pid = word_of_int pid, ch_pidfd = fd\<rparr>
       | Err _ \<Rightarrow> w_err (Syscall ''clone'' e (''flags '' @ flags_text (legacy_flags req))))"
    by (intro traced_ordinary forward_intros)
next
  fix sh eh x w r w'
  assume "w_bind (close_errno sh (clone_errno x)) (\<lambda>e. w_bind (close_errno eh e) (\<lambda>e. case reply_fds x of
         Ok (pid, fd) \<Rightarrow> w_ok \<lparr>ch_pid = word_of_int pid, ch_pidfd = fd\<rparr>
       | Err _ \<Rightarrow> w_err (Syscall ''clone'' e (''flags '' @ flags_text (legacy_flags req))))) w = Some (r, w')"
  then show "clone_result r (KProc (PClone (legacy_flags req) (child_start_of req sh eh))) x"
    by (auto simp: clone_result_def is_clone_def w_ok_def dest!: after_close)
qed

lemma traced_clone: "traced env clone_result (clone_child req)"
  unfolding clone_child_def
proof (intro traced_before traced_call ordinary_intros)
  fix sh eh x e
  show "traced env clone_result (case reply_fds x of
         Ok (pid, fd) \<Rightarrow> w_ok \<lparr>ch_pid = word_of_int pid, ch_pidfd = fd\<rparr>
       | Err _ \<Rightarrow> if e = ENOSYS \<or> e = EINVAL then clone_child_legacy req
           else w_err (Syscall ''clone3'' e (''flags '' @ flags_text (clone3_flags req))))"
    by (cases "reply_fds x") (auto intro!: traced_legacy traced_ordinary forward_intros)
next
  fix sh eh x w r w'
  assume "w_bind (close_errno sh (clone_errno x)) (\<lambda>e. w_bind (close_errno eh e) (\<lambda>e. case reply_fds x of
         Ok (pid, fd) \<Rightarrow> w_ok \<lparr>ch_pid = word_of_int pid, ch_pidfd = fd\<rparr>
       | Err _ \<Rightarrow> if e = ENOSYS \<or> e = EINVAL then clone_child_legacy req
           else w_err (Syscall ''clone3'' e (''flags '' @ flags_text (clone3_flags req))))) w = Some (r, w')"
  then show "clone_result r (KProc (PClone3 (clone3_flags req) (cr_exit_signal req) (cr_cgroup_fd req) (child_start_of req sh eh))) x"
    by (auto simp: clone_result_def is_clone_def w_ok_def dest!: after_close)
qed

lemma traced_get: "(\<And>w. traced env Q (f w)) \<Longrightarrow> traced env Q (w_get f)"
  by (simp add: traced_def w_get_def)

lemma traced_prod: "(\<And>x y. traced env Q (f x y)) \<Longrightarrow> traced env Q (case z of (x, y) \<Rightarrow> f x y)"
  by (cases z) simp

lemma traced_guard_opt: "traced env Q m \<Longrightarrow> traced env Q (guard_opt fd m)"
  by (cases fd) (simp_all add: guard_opt_def traced_guard)

text \<open>A fault injected right after the clone is the only way to lose the new process.\<close>

definition after_clone_fault :: "(string \<Rightarrow> string option) \<Rightarrow> bool" where
  "after_clone_fault env \<longleftrightarrow> fault_check (env ''MYRUN_FAULT'') ''after_clone'' \<noteq> Ok ()"

definition child_known :: "(string \<Rightarrow> string option) \<Rightarrow> child res \<Rightarrow> kcall \<Rightarrow> reply \<Rightarrow> bool" where
  "child_known env r c x \<longleftrightarrow> is_clone c \<and> (\<forall>pid fd. x = RFds pid fd \<longrightarrow>
     (case r of Ok ch \<Rightarrow> ch_pid ch = word_of_int pid | Err _ \<Rightarrow> after_clone_fault env))"

lemma traced_cloning:
  "traced env (child_known env) (w_bind (w_fault ''before_clone'') (\<lambda>_. w_bind (clone_child req) (\<lambda>ch.
     w_bind (w_fault ''after_clone'') (\<lambda>_. w_ok ch))))"
proof (rule traced_before)
  fix u
  show "traced env (child_known env) (w_bind (clone_child req) (\<lambda>ch. w_bind (w_fault ''after_clone'') (\<lambda>_. w_ok ch)))"
  proof (rule traced_after [OF traced_clone])
    fix x :: child and w r w'
    assume "w_bind (w_fault ''after_clone'') (\<lambda>_. w_ok x) w = Some (r, w')" "w_env w = env"
    then show "\<forall>c y. clone_result (Ok x) c y \<longrightarrow> child_known env r c y"
      by (cases "fault_check (w_env w ''MYRUN_FAULT'') ''after_clone''")
         (auto simp: w_fault_def w_bind_def w_get_def w_lift_def w_ok_def clone_result_def child_known_def after_clone_fault_def)
  qed (auto simp: clone_result_def child_known_def intro!: forward_intros)
qed (intro forward_intros)

lemma traced_closing:
  assumes "traced env (child_known env) m"
  shows "traced env (\<lambda>r. child_known env (r_map fst r)) (w_bind (guard_opt cgroup_fd m)
       (\<lambda>child. w_bind (close_fd cfd) (\<lambda>_. w_bind (case cgroup_fd of Some f \<Rightarrow> close_fd f | None \<Rightarrow> w_ok ()) (\<lambda>_.
         w_bind (close_fd exe_fd) (\<lambda>_. w_ok (child, cgroup_fd \<noteq> None))))))"
proof (rule traced_after [OF traced_guard_opt [OF assms]])
  fix x :: child and w r w'
  assume "w_bind (close_fd cfd) (\<lambda>_. w_bind (case cgroup_fd of Some f \<Rightarrow> close_fd f | None \<Rightarrow> w_ok ()) (\<lambda>_.
       w_bind (close_fd exe_fd) (\<lambda>_. w_ok (x, cgroup_fd \<noteq> None)))) w = Some (r, w')"
  then have "r = Ok (x, cgroup_fd \<noteq> None)"
    by (cases cgroup_fd) (auto simp: w_bind_def w_ok_def close_fd_def w_call_def split: if_splits prod.splits)
  then show "\<forall>c y. child_known env (Ok x) c y \<longrightarrow> child_known env (r_map fst r) c y" by simp
qed (auto intro!: forward_intros ordinary_intros)

lemma traced_launch_clone:
  "traced env (\<lambda>r. child_known env (r_map fst r)) (launch_clone root cfg i cg)"
proof -
  have plan: "makes ordinary (case cg of
      Some g \<Rightarrow> w_try (cg_open_fd g) (\<lambda>r. w_ok (case r of Ok f \<Rightarrow> Some f | Err _ \<Rightarrow> None)) | None \<Rightarrow> w_ok None)"
    by (intro forward_intros ordinary_intros)
  show ?thesis
    unfolding launch_clone_def
    by (rule traced_before [OF ordinary_sealed] traced_prod traced_guard traced_before [OF makes_sys] traced_get
        traced_before [OF ordinary_fds(5)] traced_before [OF plan] traced_closing [OF traced_cloning] ordinary_calls)+
qed

end
