(* ===== verification/Launch_Undo.thy ===== *)
theory Launch_Undo
  imports Clone_Laws
begin

text \<open>
  A failed launch: the undo actions run, last step first, and no process is left.
\<close>

section \<open>Runs of sequences\<close>

lemma l_bind_run:
  "l_bind m f s w = Some (Ok (r, s'), w') \<longleftrightarrow>
     (\<exists>e. r = Err e \<and> m s w = Some (Ok (Err e, s'), w')) \<or>
     (\<exists>x s1 u. m s w = Some (Ok (Ok x, s1), u) \<and> f x s1 u = Some (Ok (r, s'), w'))"
  by (auto simp: l_bind_def w_bind_def w_ok_def split: option.splits prod.splits result.splits)

lemma l_do_run: "l_do m s w = Some (Ok (r, s'), w') \<longleftrightarrow> s' = s \<and> m w = Some (r, w')"
  by (auto simp: l_do_def w_try_def w_ok_def split: option.splits)

lemma growsD:
  assumes "grows get m" "m s w = Some (Ok (r, s'), w')" "get s = stack_of xs"
  obtains ys where "get s' = stack_of (xs @ ys)" "\<forall>y \<in> set ys. makes ordinary (snd y)"
  using assms unfolding grows_def by (metis Pair_inject result.inject(1))

text \<open>The same for operations that commit when they succeed.\<close>

definition grows_err :: "('s \<Rightarrow> undo_stack) \<Rightarrow> ('s, 'a) lact \<Rightarrow> bool" where
  "grows_err get m \<longleftrightarrow> (\<forall>xs s w e s' w'. get s = stack_of xs \<longrightarrow> m s w = Some (Ok (Err e, s'), w') \<longrightarrow>
     (\<exists>ys. get s' = stack_of (xs @ ys) \<and> (\<forall>y \<in> set ys. makes ordinary (snd y))))"

lemma grows_errD:
  "grows_err get m \<Longrightarrow> m s w = Some (Ok (Err e, s'), w') \<Longrightarrow> get s = stack_of xs \<Longrightarrow>
     \<exists>ys. get s' = stack_of (xs @ ys) \<and> (\<forall>y \<in> set ys. makes ordinary (snd y))"
  unfolding grows_err_def by blast

lemma grows_err_grows: "grows get m \<Longrightarrow> grows_err get m"
  unfolding grows_err_def by (metis growsD)

lemma grows_err_bind:
  assumes "grows get m" "\<And>x. grows_err get (f x)"
  shows "grows_err get (l_bind m f)"
  unfolding grows_err_def
proof (intro allI impI)
  fix xs s w e s' w' assume s: "get s = stack_of xs" and run: "l_bind m f s w = Some (Ok (Err e, s'), w')"
  from run consider "m s w = Some (Ok (Err e, s'), w')"
    | x s1 u where "m s w = Some (Ok (Ok x, s1), u)" "f x s1 u = Some (Ok (Err e, s'), w')"
    by (auto simp: l_bind_run)
  then show "\<exists>ys. get s' = stack_of (xs @ ys) \<and> (\<forall>y \<in> set ys. makes ordinary (snd y))"
  proof cases
    case 1
    then show ?thesis using growsD [OF assms(1) 1 s] by blast
  next
    case 2
    obtain ys where ys: "get s1 = stack_of (xs @ ys)" "\<forall>y \<in> set ys. makes ordinary (snd y)"
      using growsD [OF assms(1) 2(1) s] by blast
    then obtain zs where "get s' = stack_of ((xs @ ys) @ zs)" "\<forall>y \<in> set zs. makes ordinary (snd y)"
      using assms(2) [of x] 2(2) unfolding grows_err_def by blast
    then show ?thesis using ys(2) by (intro exI [of _ "ys @ zs"]) auto
  qed
qed

lemma grows_err_last: "grows_err get m \<Longrightarrow> grows_err get (l_bind m (\<lambda>x. l_ok (f x)))"
  unfolding grows_err_def by (auto simp: l_bind_run l_ok_def w_ok_def)

lemma grows_err_mod: "grows_err get (l_fst (l_mod g))"
  by (auto simp: grows_err_def l_fst_def l_mod_def w_bind_def w_ok_def)

lemma proper_transition [grows_intros]: "proper (l_transition nxt)"
  by (auto simp: proper_def l_transition_def w_try_def w_ok_def split: option.splits result.splits)

lemma grows_launch_parts [grows_intros]:
  "grows fst (launch_cgroup i res)" "grows fst (launch_network root me cfg pid)"
  unfolding launch_cgroup_def launch_network_def by (intro grows_intros ordinary_intros)+

lemma grows_launch_go: "grows_err fst (launch_go root me)"
proof -
  let ?tail = "\<lambda>st. l_bind (l_do (on_fs (store_save root me st))) (\<lambda>_. l_bind (l_do (w_fault ''after_start'')) (\<lambda>_.
      l_fst (l_mod rb_commit)))"
  have e: "grows_err fst (?tail st)" for st by (intro grows_err_bind grows_err_mod grows_intros)
  have "grows_err fst (l_get (\<lambda>(x, st). ?tail st))"
    unfolding grows_err_def l_get_def
  proof (intro allI impI)
    fix xs s w err s' w'
    assume "fst s = stack_of xs" "(case s of (x, st) \<Rightarrow> ?tail st) s w = Some (Ok (Err err, s'), w')"
    then show "\<exists>ys. fst s' = stack_of (xs @ ys) \<and> (\<forall>y \<in> set ys. makes ordinary (snd y))"
      by (intro grows_errD [OF e [of "snd s"]]) (auto simp: case_prod_beta)
  qed
  then show ?thesis unfolding launch_go_def by (intro grows_err_bind grows_intros) auto
qed

section \<open>The calls after the clone\<close>

abbreviation no_clone :: "kcall \<Rightarrow> bool" where
  "no_clone c \<equiv> \<not> is_clone c"

lemma ordinary_no_clone: "ordinary c \<Longrightarrow> no_clone c"
  by (cases c) (auto simp: ordinary_def is_clone_def)

lemma no_clone_ordinary: "makes ordinary m \<Longrightarrow> makes no_clone m"
  using makes_mono [of ordinary m no_clone] ordinary_no_clone by blast

lemma no_clone_channel: "no_clone (KSend t)" "no_clone (KRecv t)"
  by (simp_all add: is_clone_def)

text \<open>Everything that follows the clone, on the stack of undo actions and the state.\<close>

definition after_clone :: "string \<Rightarrow> nat \<Rightarrow> container_config \<Rightarrow> cgroup option \<Rightarrow> child \<Rightarrow> bool \<Rightarrow> (launch_state, running) lact" where
  "after_clone root me cfg cg child placed =
     l_bind (launch_adopt cg child placed) (\<lambda>_.
     l_bind (l_do (w_expect TAG_READY)) (\<lambda>_.
     l_bind (launch_network root me cfg (ch_pid child)) (\<lambda>_.
     l_bind (launch_go root me) (\<lambda>_.
       l_ok \<lparr>ru_child = child, ru_cgroup = cg\<rparr>))))"

lemma launch_steps_eq:
  "launch_steps root me i cfg = l_bind (launch_cgroup i (c_resources cfg)) (\<lambda>cg.
     l_bind (l_do (launch_clone root cfg i cg)) (\<lambda>(child, placed). after_clone root me cfg cg child placed))"
  by (simp add: launch_steps_def after_clone_def)

lemma ordinary_launch [ordinary_intros]:
  "makes ordinary (launch_cgroup i res s)" "makes ordinary (launch_adopt cg ch b s)" "makes ordinary (launch_network root me cfg pid s)"
  "makes ordinary (l_transition nxt st)"
  unfolding launch_cgroup_def launch_adopt_def launch_network_def write_netstate_def l_transition_def Let_def
  by (intro forward_intros ordinary_intros)+

lemma no_clone_after: "makes no_clone (after_clone root me cfg cg ch b s)"
  unfolding after_clone_def launch_go_def
  by (intro forward_intros no_clone_channel no_clone_ordinary ordinary_intros)

lemma after_clone_pushes:
  assumes "after_clone root me cfg cg ch b (stack_of xs, st) w = Some (Ok (Err e, (rb, st')), w')"
  obtains ys where "rb = stack_of (xs @ (''container process'', undo_process (ch_pid ch)) # ys)" "\<forall>y \<in> set ys. makes ordinary (snd y)"
proof -
  let ?rest = "\<lambda>x. l_bind (case cg of Some g \<Rightarrow> if b then l_ok () else l_do (cg_add_pid g (ch_pid ch)) | None \<Rightarrow> l_ok ()) (\<lambda>_.
      l_bind (l_do (w_try (read_proc_stat (ch_pid ch)) (\<lambda>r. w_ok (case r of Ok s \<Rightarrow> ps_start_time s | Err _ \<Rightarrow> 0)))) (\<lambda>t.
        l_snd (l_mod (\<lambda>st. st\<lparr>cs_init_pid := ch_pid ch, cs_init_start_time := t\<rparr>))))"
  have grow: "grows fst (?rest ())" by (intro grows_intros)
  have "grows_err fst (l_bind (?rest ()) (\<lambda>_. l_bind (l_do (w_expect TAG_READY)) (\<lambda>_.
     l_bind (launch_network root me cfg (ch_pid ch)) (\<lambda>_. l_bind (launch_go root me) (\<lambda>_.
       l_ok \<lparr>ru_child = ch, ru_cgroup = cg\<rparr>)))))" (is "grows_err fst ?m")
    by (intro grows_err_bind grows_err_last grows_launch_go grow grows_intros)
  moreover have "?m (stack_of (xs @ [(''container process'', undo_process (ch_pid ch))]), st) w = Some (Ok (Err e, (rb, st')), w')"
    using assms
    by (simp add: after_clone_def launch_adopt_def Let_def l_bind_def l_fst_def l_push_def l_mod_def w_bind_def w_ok_def stack_push)
  ultimately obtain ys where "rb = stack_of ((xs @ [(''container process'', undo_process (ch_pid ch))]) @ ys)"
    "\<forall>y \<in> set ys. makes ordinary (snd y)" unfolding grows_err_def by (metis fst_conv)
  then show thesis using that by simp
qed

section \<open>The undo phase\<close>

lemma ignore_bind: "m w = Some (r, u) \<Longrightarrow> w_bind (w_ignore m) f w = f () u"
  by (simp add: w_bind_def w_ignore_def w_try_def w_ok_def)

lemma makes_undo: "\<forall>z \<in> set zs. makes P (snd z) \<Longrightarrow> makes P (w_each (\<lambda>x. w_ignore (snd x)) zs)"
  by (induction zs) (auto intro!: makes_ok makes_bind makes_ignore)

lemma undo_runs_each:
  assumes "w_each (\<lambda>x. w_ignore (snd x)) xs u = Some (r, w')" "\<forall>x \<in> set xs. forward (snd x)" "x \<in> set xs"
  shows "\<exists>v v' r'. snd x v = Some (r', v') \<and> later u v \<and> later v' w'"
  using assms
proof (induction xs arbitrary: u)
  case (Cons y xs)
  obtain r1 u1 where y: "snd y u = Some (r1, u1)"
    using Cons.prems(1) by (auto simp: w_bind_def w_ignore_def w_try_def split: option.splits)
  have rest: "w_each (\<lambda>x. w_ignore (snd x)) xs u1 = Some (r, w')"
    using Cons.prems(1) by (simp add: ignore_bind [of "snd y", OF y])
  have l: "later u u1" using y Cons.prems(2) by (intro laterI [of "snd y"]) auto
  show ?case
  proof (cases "x = y")
    case True
    have "later u1 w'" using rest makes_undo [of xs] Cons.prems(2) by (intro laterI [of "w_each (\<lambda>x. w_ignore (snd x)) xs"]) auto
    then show ?thesis using y True later_refl by blast
  next
    case False
    then obtain v v' r' where "snd x v = Some (r', v')" "later u1 v" "later v' w'"
      using Cons.IH [OF rest] Cons.prems(2,3) by auto
    then show ?thesis using l later_trans by blast
  qed
qed simp

lemma undo_process_kills:
  assumes "undo_process pid v = Some (r, v')"
  shows "\<exists>x. (KKill pid SIGKILL, x) \<in> set (since v v')"
proof -
  obtain x u where u: "k_call (KKill pid SIGKILL) v = (x, u)" by (cases "k_call (KKill pid SIGKILL) v")
  obtain r1 where k: "kill_pid pid SIGKILL v = Some (r1, u)"
    using u by (auto simp: kill_pid_def w_sys_def w_call_def w_get_def w_lift_def)
  have "w_bind (w_ignore (w_wait_pid pid 0)) (\<lambda>_. w_ok ()) u = Some (r, v')"
    using assms by (simp add: undo_process_def ignore_bind [of "kill_pid pid SIGKILL", OF k])
  then have "later u v'" by (rule laterI) (intro forward_intros makes_forward [OF ordinary_undo(6)])
  then show ?thesis using call_since [OF u] since_trans [of v u v'] by auto
qed

text \<open>
  The end of a failed launch: the undo actions \<open>xs\<close> are on the stack, among them one for each process
  that was made on the way.
\<close>

definition undoable :: "undo_stack \<Rightarrow> world \<Rightarrow> world \<Rightarrow> bool" where
  "undoable rb w u \<longleftrightarrow> (\<exists>xs. rb = stack_of xs \<and> (\<forall>x \<in> set xs. makes ordinary (snd x)) \<and> later w u \<and>
    (\<forall>c pid fd. is_clone c \<longrightarrow> (c, RFds pid fd) \<in> set (since w u) \<longrightarrow>
       after_clone_fault (w_env w) \<or> (''container process'', undo_process (word_of_int pid)) \<in> set xs))"

lemma launch_cgroup_run:
  assumes "launch_cgroup i res (rb_new, st) w = Some (Ok (x, (rb, st')), u)"
  obtains xs where "rb = stack_of xs" "\<forall>x \<in> set xs. makes ordinary (snd x)" "later w u" "\<forall>e \<in> set (since w u). ordinary (fst e)"
proof -
  obtain xs where "rb = stack_of ([] @ xs)" "\<forall>x \<in> set xs. makes ordinary (snd x)"
    using growsD [OF grows_launch_parts(1) assms] by (metis fst_conv stack_new)
  moreover have "later w u" "\<forall>e \<in> set (since w u). ordinary (fst e)"
    using ordinary_launch(1) assms unfolding makes_def by blast+
  ultimately show thesis using that by simp
qed

lemma clone_fail_undoable:
  assumes "launch_cgroup i res (rb_new, st) w = Some (Ok (x, (rb, st')), v)" "launch_clone root cfg i cg v = Some (Err e, u)"
  shows "undoable rb w u"
proof -
  obtain xs where xs: "rb = stack_of xs" "\<forall>x \<in> set xs. makes ordinary (snd x)" "later w v" "\<forall>e \<in> set (since w v). ordinary (fst e)"
    by (rule launch_cgroup_run [OF assms(1)])
  have b: "later v u" "\<forall>e \<in> set (since v u). ordinary (fst e) \<or> child_known (w_env w) (Err e') (fst e) (snd e)" for e'
    using traced_launch_clone [of "w_env w" root cfg i cg] assms(2) later_env [OF xs(3)]
    unfolding traced_def child_known_def by fastforce+
  have s: "later w u" "since w u = since w v @ since v u" using xs(3) b(1) later_trans since_trans by blast+
  have "after_clone_fault (w_env w)" if "is_clone c" "(c, RFds pid fd) \<in> set (since w u)" for c pid fd
    using that xs(4) b(2) ordinary_no_clone s(2) by (fastforce simp: child_known_def)
  then show ?thesis using xs s(1) unfolding undoable_def by auto
qed

lemma adopt_fail_undoable:
  assumes "launch_cgroup i res (rb_new, st) w = Some (Ok (x, (rb1, st1)), v)" "launch_clone root cfg i cg v = Some (Ok (ch, b), v')"
    and "after_clone root me cfg cg ch b (rb1, st1) v' = Some (Ok (Err e, (rb, st')), u)"
  shows "undoable rb w u"
proof -
  obtain xs where xs: "rb1 = stack_of xs" "\<forall>x \<in> set xs. makes ordinary (snd x)" "later w v" "\<forall>e \<in> set (since w v). ordinary (fst e)"
    by (rule launch_cgroup_run [OF assms(1)])
  obtain ys where ys: "rb = stack_of (xs @ (''container process'', undo_process (ch_pid ch)) # ys)" "\<forall>y \<in> set ys. makes ordinary (snd y)"
    using after_clone_pushes [of root me cfg cg ch b xs st1 v' e rb st' u] assms(3) xs(1) by auto
  have b: "later v v'" "\<forall>x \<in> set (since v v'). ordinary (fst x) \<or> child_known (w_env w) (Ok ch) (fst x) (snd x)"
    using traced_launch_clone [of "w_env w" root cfg i cg] assms(2) later_env [OF xs(3)] unfolding traced_def by fastforce+
  have c: "later v' u" "\<forall>e \<in> set (since v' u). no_clone (fst e)" using no_clone_after assms(3) unfolding makes_def by blast+
  have s: "later w u" "since w u = since w v @ since v v' @ since v' u"
    using xs(3) b(1) c(1) later_trans since_trans by (metis, metis later_trans since_trans)
  have "ch_pid ch = word_of_int pid" if "is_clone c" "(c, RFds pid fd) \<in> set (since w u)" for c pid fd
    using that xs(4) b(2) c(2) ordinary_no_clone s(2) by (fastforce simp: child_known_def)
  then show ?thesis using s(1) ys xs(2) ordinary_undo(7) unfolding undoable_def
    by (intro exI [of _ "xs @ (''container process'', undo_process (ch_pid ch)) # ys"]) auto
qed

lemma launch_steps_undoable:
  assumes "launch_steps root me i cfg (rb_new, st) w = Some (Ok (Err e, (rb, st')), u)"
  shows "undoable rb w u"
proof -
  let ?cg = "launch_cgroup i (c_resources cfg)"
  from assms consider "?cg (rb_new, st) w = Some (Ok (Err e, (rb, st')), u)"
    | cg s1 w1 where "?cg (rb_new, st) w = Some (Ok (Ok cg, s1), w1)" "launch_clone root cfg i cg w1 = Some (Err e, u)" "s1 = (rb, st')"
    | cg s1 w1 ch b w2 where "?cg (rb_new, st) w = Some (Ok (Ok cg, s1), w1)" "launch_clone root cfg i cg w1 = Some (Ok (ch, b), w2)"
        "after_clone root me cfg cg ch b s1 w2 = Some (Ok (Err e, (rb, st')), u)"
    unfolding launch_steps_eq by (auto simp: l_bind_run l_do_run)
  then show ?thesis
  proof cases
    case 1
    show ?thesis unfolding undoable_def by (rule launch_cgroup_run [OF 1]) (use ordinary_no_clone in fastforce)
  next
    case 2
    then show ?thesis using clone_fail_undoable by blast
  next
    case 3
    then show ?thesis using adopt_fail_undoable by (cases s1) blast
  qed
qed

lemmas launch_steps_fail = launch_steps_undoable [unfolded undoable_def]

lemma launch_fail:
  assumes "launch root me st w = Some (Ok (Err e, st'), w')"
  shows "\<exists>u xs. later w u \<and> later u w' \<and> w_each (\<lambda>x. w_ignore (snd x)) (rev xs) u = Some (Ok (), w') \<and>
    (\<forall>x \<in> set xs. makes ordinary (snd x)) \<and>
    (\<forall>c pid fd. is_clone c \<longrightarrow> (c, RFds pid fd) \<in> set (since w u) \<longrightarrow>
       after_clone_fault (w_env w) \<or> (''container process'', undo_process (word_of_int pid)) \<in> set xs)"
proof (cases "cs_status st = Created")
  case False
  then have "w' = w" using assms by (simp add: launch_def l_err_def w_ok_def)
  then show ?thesis by (intro exI [of _ w] exI [of _ "[]"]) (simp add: w_ok_def)
next
  case True
  then obtain rb st1 u where steps: "launch_steps root me (cs_id st) (cs_config st) (rb_new, st) w = Some (Ok (Err e, (rb, st1)), u)"
    and drop: "w_drop rb u = Some (Ok (), w')"
    using assms by (auto simp: launch_def l_rollback_def w_simps w_drop_def split: option.splits)
  from launch_steps_fail [OF steps] obtain xs where xs: "rb = stack_of xs" "\<forall>x \<in> set xs. makes ordinary (snd x)" "later w u"
    "\<forall>c pid fd. is_clone c \<longrightarrow> (c, RFds pid fd) \<in> set (since w u) \<longrightarrow>
       after_clone_fault (w_env w) \<or> (''container process'', undo_process (word_of_int pid)) \<in> set xs" by blast
  have each: "w_each (\<lambda>x. w_ignore (snd x)) (rev xs) u = Some (Ok (), w')" using drop by (simp add: xs(1) w_drop_stack)
  have "makes ordinary (w_each (\<lambda>x. w_ignore (snd x)) (rev xs))" using xs(2) by (intro makes_undo) simp
  from makes_later [OF this each] have "later u w'" .
  then show ?thesis using each xs by blast
qed

text \<open>
  C2: A launch that fails leaves no process behind: whenever one of its clone calls made a process,
  the same launch sent that process the kill signal, whatever failed afterwards and whatever the
  kernel answered, unless the fault point right behind the clone is armed.
\<close>

theorem failed_launch_kills_child:
  assumes "launch root me st w = Some (Ok (Err e, st'), w')"
    and "is_clone c" "(c, RFds pid fd) \<in> set (since w w')"
    and "fault_check (w_env w ''MYRUN_FAULT'') ''after_clone'' = Ok ()"
  shows "\<exists>r. (KKill (word_of_int pid) SIGKILL, r) \<in> set (since w w')"
proof -
  obtain u xs where u: "later w u" "later u w'" "w_each (\<lambda>x. w_ignore (snd x)) (rev xs) u = Some (Ok (), w')"
    "\<forall>x \<in> set xs. makes ordinary (snd x)"
    and all: "\<forall>c pid fd. is_clone c \<longrightarrow> (c, RFds pid fd) \<in> set (since w u) \<longrightarrow>
       after_clone_fault (w_env w) \<or> (''container process'', undo_process (word_of_int pid)) \<in> set xs"
    using launch_fail [OF assms(1)] by blast
  have known: "(c, RFds pid fd) \<in> set (since w u) \<Longrightarrow> (''container process'', undo_process (word_of_int pid)) \<in> set xs"
    using all assms(2,4) by (auto simp: after_clone_fault_def)
  have split: "since w w' = since w u @ since u w'" by (rule since_trans [OF u(1,2)])
  have "\<forall>x \<in> set (since u w'). ordinary (fst x)"
    using makes_undo [of "rev xs" ordinary] u(3,4) unfolding makes_def by auto
  then have "(c, RFds pid fd) \<in> set (since w u)" using assms(2,3) split ordinary_no_clone by fastforce
  moreover have "\<forall>x \<in> set (rev xs). forward (snd x)" using u(4) makes_forward by auto
  ultimately obtain v v' r where v: "undo_process (word_of_int pid) v = Some (r, v')" "later u v" "later v' w'"
    using undo_runs_each [OF u(3), of "(''container process'', undo_process (word_of_int pid))"] known by auto
  have vv: "later v v'" using v(1) by (rule laterI) (rule makes_forward [OF ordinary_undo(7)])
  have "since w w' = since w u @ since u v @ since v v' @ since v' w'"
    using split since_trans [OF v(2) later_trans [OF vv v(3)]] since_trans [OF vv v(3)] by simp
  then show ?thesis using undo_process_kills [OF v(1)] by auto
qed

section \<open>A launch that fails\<close>

text \<open>A host without control groups whose container dies before it is ready.\<close>

definition lost_host :: "kcall \<Rightarrow> reply" where
  "lost_host c = (case c of
      KRead p \<Rightarrow> if p = ''/proc/self/exe'' then RData ''E'' else RFail 2
    | KFd f \<Rightarrow> (case f of FMemfd \<Rightarrow> RNum 5 | FWrite _ _ \<Rightarrow> RNum 1 | FSocketpair \<Rightarrow> RFds 6 7 | FDupFd _ \<Rightarrow> RNum 10 | _ \<Rightarrow> RDone)
    | KProc p \<Rightarrow> (case p of PClone3 _ _ _ _ \<Rightarrow> RFds 42 8 | _ \<Rightarrow> RDone)
    | KWait _ _ \<Rightarrow> RWait [Inr (42, 9)]
    | _ \<Rightarrow> RDone)"

definition dead_pipe :: pipe where
  "dead_pipe = empty_pipe\<lparr>p_closed := True\<rparr>"

definition ready_state :: container_state where
  "ready_state = \<lparr>cs_id = ''c1'', cs_name = None, cs_status = Created, cs_init_pid = 0, cs_init_start_time = 0,
     cs_shim_pid = 0, cs_created_at = 0, cs_started_at = 0, cs_finished_at = 0, cs_exit_code = None, cs_exit_signal = None,
     cs_oom_killed = False, cs_error = None, cs_cgroup_path = None, cs_network = network_state_default, cs_config = config_default\<rparr>"

lemma dead_expect: "\<exists>e. ipc_expect TAG_READY dead_pipe = Some (Err e, dead_pipe)"
proof -
  have "(case ipc_expect TAG_READY dead_pipe of Some (Err e, q) \<Rightarrow> True | _ \<Rightarrow> False)" "map_option snd (ipc_expect TAG_READY dead_pipe) = Some dead_pipe"
    by code_simp+
  then show ?thesis by (auto split: option.splits prod.splits result.splits)
qed

text \<open>The host after the calls \<open>l\<close>.\<close>

definition lost :: "klog \<Rightarrow> world" where
  "lost l = (calm_world empty_fs dead_pipe lost_host (\<lambda>_. None))\<lparr>w_log := l\<rparr>"

lemma lost_simps [simp]:
  "k_call c (lost l) = (lost_host c, lost (l @ [(c, lost_host c)]))" "w_env (lost l) = (\<lambda>_. None)" "w_chan (lost l) = dead_pipe"
  "w_log (lost l) = l" "(lost l)\<lparr>w_chan := dead_pipe, w_log := l'\<rparr> = lost l'" "since (lost []) (lost l) = l"
  "w_fs (lost l) = empty_fs" "lost l = lost l' \<longleftrightarrow> l = l'"
  by (simp_all add: lost_def calm_world_def k_call_def since_def Let_def)

lemmas world_run = w_bind_def w_ok_def w_err_def w_try_def w_lift_def w_get_def w_call_def w_sys_def
  w_map_err_def w_ignore_def Let_def chk_def k_read_to_string_def read_trimmed_def k_write_file_def k_exists_def
  k_is_dir_def w_interfere_def

lemma lost_cg: "\<exists>e. cg_create ''c1'' resources_default (lost []) = Some (Err (Unsupported e), lost [(KRead ''/proc/self/mountinfo'', RFail 2)])"
  by (simp add: world_run lost_host_def cg_create_def cg_prepare_def mount_point_def find_cgroup2_mount_def mountinfo_for_def)

lemma each_cstr: "list_all (\<lambda>s. cstr s = Ok ()) xs \<Longrightarrow> w_each (\<lambda>s. w_lift (cstr s)) xs w = Some (Ok (), w)"
  by (induction xs) (auto simp: w_ok_def w_bind_def w_lift_def)

lemma plan_run:
  "list_all (\<lambda>s. cstr s = Ok ()) (as @ es) \<Longrightarrow>
     exec_plan_new fd as es w = Some (Ok \<lparr>ep_argv = as, ep_envp = es, ep_exe_fd = fd\<rparr>, w)"
  by (simp add: exec_plan_new_def w_bind_def each_cstr w_ok_def)

lemma demo_args: "list_all (\<lambda>s. cstr s = Ok ()) ([''myrun-init'', ''__init'', store_dir ''/r'' ''c1''] @ init_environment (\<lambda>_. None))"
  by code_simp

lemmas clone_run = world_run launch_clone_def sealed_self_exe_def guard_fd_def guard_opt_def clone_child_def close_errno_def clone_errno_def child_start_of_def
  move_fd_high_def close_fd_def w_fault_def memfd_write.simps

lemma lost_clone:
  "\<exists>l' f sg im. launch_clone ''/r'' config_default ''c1'' None (lost l) = Some (Ok (\<lparr>ch_pid = 42, ch_pidfd = 8\<rparr>, False), lost (l @ l')) \<and>
     (KProc (PClone3 f sg None im), RFds 42 8) \<in> set l'"
  by (simp add: clone_run lost_host_def plan_run [OF demo_args])

lemma demo_stat: "stat_path 42 = ''/proc/42/stat''"
  by code_simp

lemmas launch_run = world_run l_defs launch_def l_rollback_def launch_steps_def launch_cgroup_def launch_adopt_def
  l_push_def stack_push stack_new read_proc_stat_def w_chan_op_def w_expect_def

lemma lost_launch:
  "\<exists>e st' l f sg im. launch ''/r'' 7 ready_state (lost []) = Some (Ok (Err e, st'), lost l) \<and>
     (KProc (PClone3 f sg None im), RFds 42 8) \<in> set l"
proof -
  obtain e where e: "ipc_expect TAG_READY dead_pipe = Some (Err e, dead_pipe)" using dead_expect by blast
  obtain e' where cg: "cg_create ''c1'' resources_default (lost []) = Some (Err (Unsupported e'), lost [(KRead ''/proc/self/mountinfo'', RFail 2)])"
    using lost_cg by blast
  obtain l' f sg im where c: "launch_clone ''/r'' config_default ''c1'' None (lost [(KRead ''/proc/self/mountinfo'', RFail 2)]) =
      Some (Ok (\<lparr>ch_pid = 42, ch_pidfd = 8\<rparr>, False), lost ([(KRead ''/proc/self/mountinfo'', RFail 2)] @ l'))"
    "(KProc (PClone3 f sg None im), RFds 42 8) \<in> set l'" using lost_clone by blast
  have i: "c_resources config_default = resources_default" "resources_is_empty resources_default" "cs_id ready_state = ''c1''"
    "cs_status ready_state = Created" "cs_config ready_state = config_default"
    by (simp_all add: config_default_def ready_state_def resources_default_def resources_is_empty_def)
  have u: "\<exists>l'. undo_process 42 (lost l) = Some (Ok (), lost (l @ l'))" for l
    by (simp add: undo_process_def kill_pid_def w_wait_pid_def w_panic_def world_run lost_host_def from_raw_def wifstopped_def)
  have d: "w_drop (stack_of [(''container process'', undo_process 42)]) (lost l) = Some (Ok (), lost (l @ l'))"
    if "undo_process 42 (lost l) = Some (Ok (), lost (l @ l'))" for l l'
    using that by (simp add: w_drop_stack w_bind_def w_ignore_def w_try_def w_ok_def)
  obtain st' l2 where s: "launch_steps ''/r'' 7 ''c1'' config_default (rb_new, ready_state) (lost []) =
      Some (Ok (Err e, (stack_of [(''container process'', undo_process 42)], st')), lost ((KRead ''/proc/self/mountinfo'', RFail 2) # l' @ l2))"
    using c(1) by (simp add: launch_run cg i e lost_host_def stat_text_def demo_stat)
  obtain l3 where "undo_process 42 (lost ((KRead ''/proc/self/mountinfo'', RFail 2) # l' @ l2)) = Some (Ok (), lost (((KRead ''/proc/self/mountinfo'', RFail 2) # l' @ l2) @ l3))"
    using u by blast
  from d [OF this] s show ?thesis using c(2) by (auto simp: launch_def l_rollback_def i w_bind_def w_ok_def)
qed

theorem failed_launch_kills_child_witness:
  "\<exists>e st' l r. launch ''/r'' 7 ready_state (lost []) = Some (Ok (Err e, st'), lost l) \<and> (KKill 42 SIGKILL, r) \<in> set l"
proof -
  obtain e st' l f sg im where l: "launch ''/r'' 7 ready_state (lost []) = Some (Ok (Err e, st'), lost l)"
    "(KProc (PClone3 f sg None im), RFds 42 8) \<in> set l" using lost_launch by blast
  have "is_clone (KProc (PClone3 f sg None im))" by (simp add: is_clone_def)
  moreover have "fault_check (w_env (lost []) ''MYRUN_FAULT'') ''after_clone'' = Ok ()" by simp
  ultimately show ?thesis
    using failed_launch_kills_child [OF l(1), of "KProc (PClone3 f sg None im)" 42 8] l by simp
qed

end
