(* ===== verification/Launch_Order.thy ===== *)
theory Launch_Order
  imports Launch_Undo
begin

text \<open>
  A launch that succeeds: the steps happened in the order that confines the container before any
  of its own code runs, and the state on disk describes the running container.
\<close>

section \<open>What the log shows of a result\<close>

definition evidence :: "'a act \<Rightarrow> ('a \<Rightarrow> kcall \<Rightarrow> reply \<Rightarrow> bool) \<Rightarrow> bool" where
  "evidence m Q \<longleftrightarrow> (\<forall>w y w'. m w = Some (Ok y, w') \<longrightarrow> (\<exists>e \<in> set (since w w'). Q y (fst e) (snd e)))"

lemma evidence_later:
  "forward m \<Longrightarrow> (\<And>x. evidence (f x) Q) \<Longrightarrow> (\<And>x. forward (f x)) \<Longrightarrow> evidence (w_bind m f) Q"
  unfolding evidence_def by (metis bind_since Un_iff set_append)

lemma evidence_first:
  assumes "evidence m Q" "forward m" "\<And>x. forward (f x)" "\<And>x w y w' c r. f x w = Some (Ok y, w') \<Longrightarrow> Q x c r \<Longrightarrow> Q' y c r"
  shows "evidence (w_bind m f) Q'"
  unfolding evidence_def
proof (intro allI impI)
  fix w y w' assume "w_bind m f w = Some (Ok y, w')"
  then obtain x u where "m w = Some (Ok x, u)" "f x u = Some (Ok y, w')" "since w w' = since w u @ since u w'"
    using bind_since [of m f w y w'] assms(2,3) by metis
  then show "\<exists>e \<in> set (since w w'). Q' y (fst e) (snd e)" using assms(1,4) unfolding evidence_def by fastforce
qed

lemma evidence_call:
  assumes "\<And>r. forward (f r)" "\<And>r. evidence (f r) Q \<or> (\<forall>w y w'. f r w = Some (Ok y, w') \<longrightarrow> Q y c r)"
  shows "evidence (w_call c f) Q"
  unfolding evidence_def
proof (intro allI impI)
  fix w y w' assume run: "w_call c f w = Some (Ok y, w')"
  obtain r u where u: "k_call c w = (r, u)" by (cases "k_call c w")
  have f: "f r u = Some (Ok y, w')" using run u by (simp add: w_call_def)
  have "later u w'" using f assms(1) by (rule laterI)
  then have "since w w' = (c, r) # since u w'" using call_since [OF u] since_trans [of w u w'] by simp
  then show "\<exists>e \<in> set (since w w'). Q y (fst e) (snd e)" using assms(2) [of r] f unfolding evidence_def by force
qed

lemma guard_fd_Ok: "guard_fd fd m w = Some (Ok y, w') \<longleftrightarrow> m w = Some (Ok y, w')"
proof -
  have "w_bind (close_fd fd) (\<lambda>_. w_err e) u \<noteq> Some (Ok y, w')" for e u
    by (auto simp: w_simps)
  moreover have "(case r of Ok x \<Rightarrow> w_ok x | Err e \<Rightarrow> w_bind (close_fd fd) (\<lambda>_. w_err e)) u = Some (Ok y, w') \<longleftrightarrow> r = Ok y \<and> u = w'" for r u
    using calculation by (cases r) (auto simp: w_simps)
  ultimately show ?thesis by (auto simp: guard_fd_def w_simps)
qed

lemma evidence_guard: "evidence m Q \<Longrightarrow> evidence (guard_fd fd m) Q" "evidence m Q \<Longrightarrow> evidence (guard_opt z m) Q"
  by (auto simp: evidence_def guard_fd_Ok guard_opt_def split: option.splits)

lemma evidence_cases:
  "(\<And>x y. evidence (f x y) Q) \<Longrightarrow> evidence (case z of (x, y) \<Rightarrow> f x y) Q" "(\<And>w. evidence (g w) Q) \<Longrightarrow> evidence (w_get g) Q"
  by (cases z) (auto simp: evidence_def w_get_def)

section \<open>The clone call behind a child\<close>

definition clones :: "child \<Rightarrow> kcall \<Rightarrow> reply \<Rightarrow> bool" where
  "clones ch c r \<longleftrightarrow> is_clone c \<and> (\<exists>pid. r = RFds pid (ch_pidfd ch) \<and> ch_pid ch = word_of_int pid)"

lemma forward_clone [forward_intros]:
  "forward (close_fd fd)" "forward (close_errno fd e)" "forward (move_fd_high fd)" "forward (clone_child_legacy req)" "forward (clone_child req)"
  "forward (exec_plan_new fd as es)" "forward sealed_self_exe" "forward (cg_open_fd cg)"
proof -
  show c: "forward (close_fd fd)" for fd by (rule makes_forward [OF ordinary_fds(1)])
  show ce: "forward (close_errno fd e)" for fd e by (rule makes_forward [OF ordinary_close_errno])
  show m: "forward (move_fd_high fd)" for fd by (rule makes_forward [OF ordinary_fds(4)])
  show l: "forward (clone_child_legacy req)" unfolding clone_child_legacy_def by (intro forward_intros ce m)
  show "forward (clone_child req)" unfolding clone_child_def by (intro forward_intros ce m l)
qed (rule makes_forward, rule ordinary_intros)+

lemma makes_guard [forward_intros]: "forward m \<Longrightarrow> forward (guard_fd fd m)" "forward m \<Longrightarrow> forward (guard_opt z m)"
  unfolding guard_opt_def guard_fd_def by (intro forward_intros; assumption)+

lemma evidence_clone: "evidence (clone_child req) clones"
proof -
  have closing: "evidence (w_bind (close_errno a e) (\<lambda>e. w_bind (close_errno b e) m)) clones \<or>
      (\<forall>w y w'. w_bind (close_errno a e) (\<lambda>e. w_bind (close_errno b e) m) w = Some (Ok y, w') \<longrightarrow> clones y c r)"
    if "\<And>e. forward (m e)" "(\<forall>e. evidence (m e) clones) \<or> (\<forall>e w y w'. m e w = Some (Ok y, w') \<longrightarrow> clones y c r)" for a b e m c r
    using that(2)
  proof
    assume "\<forall>e. evidence (m e) clones"
    then have "evidence (w_bind (close_errno a e) (\<lambda>e. w_bind (close_errno b e) m)) clones"
      using that(1) by (intro evidence_later forward_intros) blast+
    then show ?thesis by simp
  next
    assume "\<forall>e w y w'. m e w = Some (Ok y, w') \<longrightarrow> clones y c r"
    then show ?thesis by (auto dest!: after_close)
  qed
  have ok: "\<forall>e w y w'. (case reply_fds r of Err _ \<Rightarrow> w_err (g e) | Ok (pid, fd) \<Rightarrow> w_ok \<lparr>ch_pid = word_of_int pid, ch_pidfd = fd\<rparr>) w =
      Some (Ok y, w') \<longrightarrow> clones y c r" if "is_clone c" for g r c
    using that by (cases r) (auto simp: clones_def w_simps)
  have legacy: "evidence (clone_child_legacy req) clones"
    unfolding clone_child_legacy_def
    by (intro evidence_later evidence_call closing forward_intros disjI2 ok) (simp add: is_clone_def)
  have "(\<forall>e. evidence (case reply_fds r of Err _ \<Rightarrow> if e = ENOSYS \<or> e = EINVAL then clone_child_legacy req else w_err (g e)
      | Ok (pid, fd) \<Rightarrow> w_ok \<lparr>ch_pid = word_of_int pid, ch_pidfd = fd\<rparr>) clones) \<or>
    (\<forall>e w y w'. (case reply_fds r of Err _ \<Rightarrow> if e = ENOSYS \<or> e = EINVAL then clone_child_legacy req else w_err (g e)
      | Ok (pid, fd) \<Rightarrow> w_ok \<lparr>ch_pid = word_of_int pid, ch_pidfd = fd\<rparr>) w = Some (Ok y, w') \<longrightarrow> clones y c r)"
    if "is_clone c" for r c g
  proof (cases "reply_fds r")
    case (Ok p)
    then show ?thesis using that by (cases r) (auto simp: clones_def w_simps)
  next
    case (Err e)
    moreover have "evidence (w_err (g x)) clones" for x by (auto simp: evidence_def w_err_def)
    ultimately show ?thesis using legacy by simp
  qed
  note step = this
  show ?thesis
    unfolding clone_child_def
    by (intro evidence_later evidence_call closing forward_intros step) (simp add: is_clone_def)
qed

lemma evidence_launch_clone: "evidence (launch_clone root cfg i cg) (\<lambda>x. clones (fst x))"
proof -
  have c: "evidence (w_bind (w_fault ''before_clone'') (\<lambda>_. w_bind (clone_child req) (\<lambda>ch.
      w_bind (w_fault ''after_clone'') (\<lambda>_. w_ok ch)))) clones" for req
    by (intro evidence_later evidence_first [OF evidence_clone] forward_intros) (auto simp: w_simps)
  have last: "evidence (w_bind (guard_opt z (w_bind (w_fault ''before_clone'') (\<lambda>_. w_bind (clone_child req) (\<lambda>ch.
      w_bind (w_fault ''after_clone'') (\<lambda>_. w_ok ch))))) (\<lambda>child. w_bind (close_fd a) (\<lambda>_.
      w_bind (case z of Some f \<Rightarrow> close_fd f | None \<Rightarrow> w_ok ()) (\<lambda>_. w_bind (close_fd b) (\<lambda>_. w_ok (child, z \<noteq> None))))))
      (\<lambda>x. clones (fst x))" for z req a b
    by (intro evidence_first [OF evidence_guard(2) [OF c]] forward_intros) (auto simp: w_simps)
  show ?thesis
    unfolding launch_clone_def
    by (intro last evidence_later evidence_cases evidence_guard forward_intros)
qed

section \<open>The steps of a successful launch\<close>

lemma w_drop_committed: "w_drop (rb_commit rb) w = Some (Ok (), w)"
  by (simp add: w_drop_commit w_ok_def)

lemma l_part_run:
  "l_fst m s w = Some (Ok (r, s'), w') \<longleftrightarrow> (\<exists>a. m (fst s) w = Some (Ok (r, a), w') \<and> s' = (a, snd s))"
  "l_snd n t w = Some (Ok (q, t'), w') \<longleftrightarrow> (\<exists>b. n (snd t) w = Some (Ok (q, b), w') \<and> t' = (fst t, b))"
  by (auto simp: l_fst_def l_snd_def w_bind_def w_ok_def split: option.splits prod.splits result.splits)

lemma l_simple_run:
  "l_ok x s w = Some (Ok (r, s'), w') \<longleftrightarrow> r = Ok x \<and> s' = s \<and> w' = w" "l_mod g s w = Some (Ok (q, s'), w') \<longleftrightarrow> q = Ok () \<and> s' = g s \<and> w' = w"
  "l_get h s w = h s s w" "l_lift z s w = Some (Ok (p, s'), w') \<longleftrightarrow> p = z \<and> s' = s \<and> w' = w"
  by (auto simp: l_defs w_ok_def)

lemma on_fs_run: "on_fs m w = Some (r, w') \<longleftrightarrow> (\<exists>s. m (w_fs w) = (r, s) \<and> w' = w\<lparr>w_fs := s\<rparr>)"
  by (auto simp: on_fs_def split: prod.splits)

lemmas l_run = on_fs_run l_bind_run l_do_run l_part_run l_simple_run

lemma launch_go_Ok:
  assumes "launch_go root me (rb, st) w = Some (Ok (Ok x, (rb', st')), w')"
  obtains u1 y u2 st1 u3 s where "w_send TAG_GO w = Some (Ok (), u1)" "w_expect TAG_STARTED u1 = Some (Ok y, u2)"
    "l_transition Running st u2 = Some (Ok (Ok (), st1), u3)" "st' = st1\<lparr>cs_error := None\<rparr>"
    "store_save root me st' (w_fs u3) = (Ok (), s)" "w' = u3\<lparr>w_fs := s\<rparr>" "rb' = rb_commit rb"
  using assms
  by (auto simp: launch_go_def l_run w_fault_def w_simps intro: that)

lemma launch_cgroup_Ok:
  assumes "launch_cgroup i res (rb, st) w = Some (Ok (Ok cg, (rb', st')), w')"
  shows "(\<exists>g. cg = Some g \<and> cg_create i res w = Some (Ok g, w') \<and> st' = st\<lparr>cs_cgroup_path := Some (cg_path g)\<rparr>) \<or>
    cg = None \<and> resources_is_empty res \<and> st' = st"
proof -
  obtain r u where u: "cg_create i res w = Some (r, u)"
    using assms by (auto simp: launch_cgroup_def l_try_def l_do_def w_simps)
  show ?thesis
    using assms by (cases r) (auto simp: launch_cgroup_def l_try_def l_do_def u w_bind_def w_try_def w_ok_def l_run l_push_def l_err_def split: if_splits)
qed

lemma launch_adopt_Ok:
  assumes "launch_adopt cg ch placed (rb, st) w = Some (Ok (Ok (), (rb', st')), w')"
  shows "\<exists>t. st' = st\<lparr>cs_init_pid := ch_pid ch, cs_init_start_time := t\<rparr>"
  using assms by (auto simp: launch_adopt_def Let_def l_run l_push_def l_err_def split: option.splits if_splits)

lemma launch_network_Ok:
  assumes "launch_network root me cfg pid (rb, st) w = Some (Ok (Ok (), (rb', st')), w')"
  shows "\<exists>ns. st' = st\<lparr>cs_network := ns\<rparr>"
  using assms by (auto simp: launch_network_def l_run l_push_def)

lemma transition_Running:
  assumes "l_transition Running st w = Some (Ok (Ok (), st'), w')"
  shows "cs_status st' = Running" "cs_init_pid st' = cs_init_pid st" "cs_id st' = cs_id st" "cs_cgroup_path st' = cs_cgroup_path st"
    "cs_network st' = cs_network st" "cs_config st' = cs_config st"
proof -
  obtain r s where r: "transition Running st (w_fs w) = (r, s)" by fastforce
  then have "r = Ok st'" using assms by (cases r) (auto simp: l_transition_def w_try_def w_ok_def on_fs_def)
  then show "cs_status st' = Running" "cs_init_pid st' = cs_init_pid st" "cs_id st' = cs_id st" "cs_cgroup_path st' = cs_cgroup_path st"
    "cs_network st' = cs_network st" "cs_config st' = cs_config st"
    using r by (auto simp: transition_def stamp_started_def Let_def split: if_splits prod.splits)
qed

lemma launch_Ok:
  assumes "launch root me st w = Some (Ok (Ok ru, st'), w')"
  obtains w1 placed w2 w3 y w4 w5 rb1 rb2 rb3 st1 st2 st3 rb' where "cs_status st = Created"
    "launch_cgroup (cs_id st) (c_resources (cs_config st)) (rb_new, st) w = Some (Ok (Ok (ru_cgroup ru), (rb1, st1)), w1)"
    "launch_clone root (cs_config st) (cs_id st) (ru_cgroup ru) w1 = Some (Ok (ru_child ru, placed), w2)"
    "launch_adopt (ru_cgroup ru) (ru_child ru) placed (rb1, st1) w2 = Some (Ok (Ok (), (rb2, st2)), w3)"
    "w_expect TAG_READY w3 = Some (Ok y, w4)"
    "launch_network root me (cs_config st) (ch_pid (ru_child ru)) (rb2, st2) w4 = Some (Ok (Ok (), (rb3, st3)), w5)"
    "launch_go root me (rb3, st3) w5 = Some (Ok (Ok (), (rb', st')), w')"
proof -
  from assms have c: "cs_status st = Created" by (auto simp: launch_def l_err_def w_ok_def split: if_splits)
  then obtain rb u where s: "launch_steps root me (cs_id st) (cs_config st) (rb_new, st) w = Some (Ok (Ok ru, (rb, st')), u)"
    "w_drop rb u = Some (Ok (), w')"
    using assms by (auto simp: launch_def l_rollback_def w_simps w_drop_def split: option.splits)
  then obtain cg a w1 ch placed w2 b w3 y w4 d w5 where l:
    "launch_cgroup (cs_id st) (c_resources (cs_config st)) (rb_new, st) w = Some (Ok (Ok cg, a), w1)"
    "launch_clone root (cs_config st) (cs_id st) cg w1 = Some (Ok (ch, placed), w2)"
    "launch_adopt cg ch placed a w2 = Some (Ok (Ok (), b), w3)" "w_expect TAG_READY w3 = Some (Ok y, w4)"
    "launch_network root me (cs_config st) (ch_pid ch) b w4 = Some (Ok (Ok (), d), w5)"
    "launch_go root me d w5 = Some (Ok (Ok (), (rb, st')), u)" "ru = \<lparr>ru_child = ch, ru_cgroup = cg\<rparr>"
    by (auto simp: launch_steps_def l_run)
  obtain rb0 where "rb = rb_commit rb0" using launch_go_Ok l(6) by (metis prod.collapse)
  then have "w' = u" using s(2) by (simp add: w_drop_committed)
  then show thesis using that [OF c] l by (metis prod.collapse running.select_convs)
qed

section \<open>The order of a successful launch\<close>

text \<open>The limits a group must have before its first process exists.\<close>

definition confined :: "container_config \<Rightarrow> cgroup option \<Rightarrow> world \<Rightarrow> klog \<Rightarrow> bool" where
  "confined cfg cg w t \<longleftrightarrow> (case cg of
      None \<Rightarrow> resources_is_empty (c_resources cfg)
    | Some g \<Rightarrow> allow_missing_controllers w \<or>
        list_all (\<lambda>(f, v). succeeded (KWrite (path_join (cg_path g) f) v) t) (limit_plan (c_resources cfg)))"

lemma confined_append: "confined cfg cg w s \<Longrightarrow> confined cfg cg w (s @ t)"
  by (auto simp: confined_def list_all_iff split: option.splits)

lemma launch_cgroup_confines:
  assumes "launch_cgroup i (c_resources cfg) (rb, st) w = Some (Ok (Ok cg, (rb', st')), w')"
  shows "later w w' \<and> confined cfg cg w (since w w')"
proof
  show later: "later w w'" using ordinary_launch(1) assms unfolding makes_def by blast
  show "confined cfg cg w (since w w')"
  proof (cases cg)
    case None
    then show ?thesis using launch_cgroup_Ok [OF assms] by (simp add: confined_def)
  next
    case (Some g)
    then have g: "cg_create i (c_resources cfg) w = Some (Ok g, w')" using launch_cgroup_Ok [OF assms] by simp
    have "succeeded (KWrite (path_join (cg_path g) f) v) (since w w')"
      if "\<not> allow_missing_controllers w" "(f, v) \<in> set (limit_plan (c_resources cfg))" for f v
      using limits_after_mkdir [OF g that] later_since [OF later] by (auto simp: succeeded_def)
    then show ?thesis using Some by (auto simp: confined_def list_all_iff)
  qed
qed

lemma chan_since:
  "w_chan_op c f w = Some (Ok x, w') \<Longrightarrow> later w w' \<and> since w w' = [(c, RDone)]"
  by (auto simp: w_chan_op_def later_def since_def split: option.splits)

lemma channel_since:
  "w_send t w = Some (Ok x, w') \<Longrightarrow> later w w' \<and> since w w' = [(KSend t, RDone)]"
  "w_expect t w = Some (Ok y, w') \<Longrightarrow> later w w' \<and> since w w' = [(KRecv t, RDone)]"
  unfolding w_send_def w_expect_def by (drule chan_since, simp)+

lemma launch_clone_since:
  assumes "launch_clone root cfg i cg w = Some (Ok (ch, placed), w')"
  obtains pre c r post where "later w w'" "since w w' = pre @ (c, r) # post" "clones ch c r"
proof -
  have "later w w'" using traced_launch_clone [of "w_env w" root cfg i cg] assms unfolding traced_def by blast
  moreover obtain e where e: "e \<in> set (since w w')" "clones ch (fst e) (snd e)"
    using evidence_launch_clone [of root cfg i cg] assms unfolding evidence_def by fastforce
  moreover obtain pre post where "since w w' = pre @ e # post" using e(1) by (meson split_list)
  ultimately show thesis using that [of pre "fst e" "snd e" post] by simp
qed

lemma launch_go_since:
  assumes "launch_go root me (rb, st) w = Some (Ok (Ok (), (rb', st')), w')"
  shows "later w w' \<and> since w w' = [(KSend TAG_GO, RDone), (KRecv TAG_STARTED, RDone)]"
    "cs_status st' = Running" "cs_init_pid st' = cs_init_pid st" "cs_id st' = cs_id st" "cs_cgroup_path st' = cs_cgroup_path st"
    "file_of (w_fs w') (state_path root (cs_id st')) = Some (json_to_string_pretty (state_to_json st'))"
proof -
  obtain u1 y u2 st1 u3 s where g: "w_send TAG_GO w = Some (Ok (), u1)" "w_expect TAG_STARTED u1 = Some (Ok y, u2)"
    "l_transition Running st u2 = Some (Ok (Ok (), st1), u3)" "st' = st1\<lparr>cs_error := None\<rparr>"
    "store_save root me st' (w_fs u3) = (Ok (), s)" "w' = u3\<lparr>w_fs := s\<rparr>" using launch_go_Ok [OF assms] by metis
  have same: "later u2 w'" "since u2 w' = []"
    using g(3,6) by (auto simp: l_transition_def on_fs_def later_def since_def w_try_def w_ok_def split: prod.splits result.splits)
  show "later w w' \<and> since w w' = [(KSend TAG_GO, RDone), (KRecv TAG_STARTED, RDone)]"
    using channel_since(1) [OF g(1)] channel_since(2) [OF g(2)] same since_trans later_trans
    by (metis append.right_neutral append_Cons append_Nil)
  show "cs_status st' = Running" "cs_init_pid st' = cs_init_pid st" "cs_id st' = cs_id st" "cs_cgroup_path st' = cs_cgroup_path st"
    using transition_Running [OF g(3)] g(4) by simp_all
  show "file_of (w_fs w') (state_path root (cs_id st')) = Some (json_to_string_pretty (state_to_json st'))"
    using store_save_cases [OF g(5)] g(6) by simp
qed

text \<open>
  The container counts as running, in memory and on disk, from the moment on: in the world \<open>u\<close>
  its state was still created and the last call that was made heard that the command has
  started; no call to the kernel was made between \<open>u\<close> and the end, in which the transition to
  running and the save took place.
\<close>

definition saved_after_started :: "string \<Rightarrow> nat \<Rightarrow> container_state \<Rightarrow> world \<Rightarrow> world \<Rightarrow> bool" where
  "saved_after_started root me st' w w' \<longleftrightarrow> (\<exists>u st1 st2 s. later w u \<and> since u w' = [] \<and>
     since w u \<noteq> [] \<and> last (since w u) = (KRecv TAG_STARTED, RDone) \<and> cs_status st1 = Created \<and>
     transition Running st1 (w_fs u) = (Ok st2, s) \<and> st' = st2\<lparr>cs_error := None\<rparr> \<and>
     store_save root me st' s = (Ok (), w_fs w'))"

lemma launch_go_saves:
  assumes "launch_go root me (rb, st) w = Some (Ok (Ok x, (rb', st')), w')" "cs_status st = Created"
  shows "saved_after_started root me st' w w'"
proof -
  obtain u1 y u2 st1 u3 s where g: "w_send TAG_GO w = Some (Ok (), u1)" "w_expect TAG_STARTED u1 = Some (Ok y, u2)"
    "l_transition Running st u2 = Some (Ok (Ok (), st1), u3)" "st' = st1\<lparr>cs_error := None\<rparr>"
    "store_save root me st' (w_fs u3) = (Ok (), s)" "w' = u3\<lparr>w_fs := s\<rparr>" using launch_go_Ok [OF assms(1)] by metis
  have tr: "transition Running st (w_fs u2) = (Ok st1, w_fs u3)" "since u2 w' = []"
    using g(3,6) by (auto simp: l_transition_def on_fs_def since_def w_try_def w_ok_def split: prod.splits result.splits)
  have "later w u2 \<and> since w u2 = [(KSend TAG_GO, RDone), (KRecv TAG_STARTED, RDone)]"
    using channel_since(1) [OF g(1)] channel_since(2) [OF g(2)] later_trans [of w u1 u2] since_trans [of w u1 u2] by simp
  then show ?thesis unfolding saved_after_started_def using tr g(4-6) assms(2)
    by (intro exI [of _ u2] exI [of _ st] exI [of _ st1] exI [of _ "w_fs u3"]) simp
qed

lemma saved_after_started_from:
  assumes "saved_after_started root me st' v w'" "later w v"
  shows "saved_after_started root me st' w w'"
proof -
  obtain u st1 st2 s where u: "later v u" "since u w' = []" "since v u \<noteq> []" "last (since v u) = (KRecv TAG_STARTED, RDone)"
    and rest: "cs_status st1 = Created" "transition Running st1 (w_fs u) = (Ok st2, s)" "st' = st2\<lparr>cs_error := None\<rparr>"
    "store_save root me st' s = (Ok (), w_fs w')" using assms(1) unfolding saved_after_started_def by blast
  have "later w u" "since w u \<noteq> []" "last (since w u) = (KRecv TAG_STARTED, RDone)"
    using later_trans [OF assms(2) u(1)] u(3,4) by (simp_all add: since_trans [OF assms(2) u(1)])
  then show ?thesis unfolding saved_after_started_def using u(2) rest by blast
qed

text \<open>
  C4: A launch that succeeds has done its steps in order.  First, before any process was made, the
  kernel accepted every configured limit in the control group of the container (unless the
  operator allowed missing controllers, or no group could be made and no limit is configured);
  then the process was made; then init reported that it is ready, and only then was it told to
  go; and the container turned from created to running, in memory and on disk, after the last
  call of all had heard that the command has started.  The state returned names the process and
  the group, and is exactly the one on disk.  (That the process is in the group is not claimed:
  see \<open>clone_child\<close> for kernels without \<open>clone3\<close>.)
\<close>

theorem launched_in_order:
  assumes "launch root me st w = Some (Ok (Ok ru, st'), w')"
  shows "(\<exists>before c r prep. since w w' = before @ (c, r) # prep @ [(KSend TAG_GO, RDone), (KRecv TAG_STARTED, RDone)] \<and>
      confined (cs_config st) (ru_cgroup ru) w before \<and> clones (ru_child ru) c r \<and> succeeded (KRecv TAG_READY) prep) \<and>
    saved_after_started root me st' w w' \<and>
    cs_status st' = Running \<and> cs_init_pid st' = ch_pid (ru_child ru) \<and> cs_id st' = cs_id st \<and>
    (\<forall>g. ru_cgroup ru = Some g \<longrightarrow> cs_cgroup_path st' = Some (cg_path g)) \<and>
    file_of (w_fs w') (state_path root (cs_id st)) = Some (json_to_string_pretty (state_to_json st'))"
proof -
  obtain w1 placed w2 w3 y w4 w5 rb1 rb2 rb3 st1 st2 st3 rb' where
    created: "cs_status st = Created" and
    l: "launch_cgroup (cs_id st) (c_resources (cs_config st)) (rb_new, st) w = Some (Ok (Ok (ru_cgroup ru), (rb1, st1)), w1)"
    "launch_clone root (cs_config st) (cs_id st) (ru_cgroup ru) w1 = Some (Ok (ru_child ru, placed), w2)"
    "launch_adopt (ru_cgroup ru) (ru_child ru) placed (rb1, st1) w2 = Some (Ok (Ok (), (rb2, st2)), w3)"
    "w_expect TAG_READY w3 = Some (Ok y, w4)"
    "launch_network root me (cs_config st) (ch_pid (ru_child ru)) (rb2, st2) w4 = Some (Ok (Ok (), (rb3, st3)), w5)"
    "launch_go root me (rb3, st3) w5 = Some (Ok (Ok (), (rb', st')), w')"
    by (rule launch_Ok [OF assms])
  note go = launch_go_since [OF l(6)]
  obtain pre c r post where cl: "later w1 w2" "since w1 w2 = pre @ (c, r) # post" "clones (ru_child ru) c r"
    by (rule launch_clone_since [OF l(2)])
  have cg: "later w w1" "confined (cs_config st) (ru_cgroup ru) w (since w w1)" using launch_cgroup_confines [OF l(1)] by auto
  have ad: "later w2 w3" "later w4 w5" using ordinary_launch(2,3) l(3,5) unfolding makes_def by blast+
  have rd: "later w3 w4" "since w3 w4 = [(KRecv TAG_READY, RDone)]" using channel_since(2) [OF l(4)] by auto
  have "since w w' = since w w1 @ since w1 w2 @ since w2 w3 @ since w3 w4 @ since w4 w5 @ since w5 w'"
    using cg(1) cl(1) ad rd(1) go(1) by (metis later_trans since_trans)
  then have "since w w' = (since w w1 @ pre) @ (c, r) # (post @ since w2 w3 @ since w3 w4 @ since w4 w5) @
      [(KSend TAG_GO, RDone), (KRecv TAG_STARTED, RDone)]" using cl(2) go(1) by simp
  moreover have "succeeded (KRecv TAG_READY) (post @ since w2 w3 @ since w3 w4 @ since w4 w5)"
    using rd(2) by (force simp: succeeded_def)
  ultimately have "\<exists>before c r prep. since w w' = before @ (c, r) # prep @ [(KSend TAG_GO, RDone), (KRecv TAG_STARTED, RDone)] \<and>
      confined (cs_config st) (ru_cgroup ru) w before \<and> clones (ru_child ru) c r \<and> succeeded (KRecv TAG_READY) prep"
    using cl(3) confined_append [OF cg(2), of pre] by blast
  moreover have "cs_init_pid st3 = ch_pid (ru_child ru)" "cs_id st3 = cs_id st" "cs_cgroup_path st3 = cs_cgroup_path st1"
    "\<forall>g. ru_cgroup ru = Some g \<longrightarrow> cs_cgroup_path st1 = Some (cg_path g)"
    using launch_cgroup_Ok [OF l(1)] launch_adopt_Ok [OF l(3)] launch_network_Ok [OF l(5)] by auto
  moreover have "cs_status st3 = Created"
    using created launch_cgroup_Ok [OF l(1)] launch_adopt_Ok [OF l(3)] launch_network_Ok [OF l(5)] by auto
  then have "saved_after_started root me st' w w'"
    using saved_after_started_from [OF launch_go_saves [OF l(6)]] cg(1) cl(1) ad rd(1) later_trans by metis
  ultimately show ?thesis using go by simp
qed

end
