(* ===== verification/Init_Laws.thy ===== *)
theory Init_Laws
  imports Init Launch_Order
begin

text \<open>
  What init promises: the workload is forked only after the go message was heard, the root was
  exchanged and the process was confined.
\<close>

section \<open>The calls of init\<close>

lemma ordinary_mount [ordinary_intros]:
  "makes ordinary (m_mount a b c d e)" "makes ordinary (m_umount p f)" "makes ordinary (make_rprivate p)" "makes ordinary (m_bind p q r)"
  "makes ordinary (remount_ro p x)" "makes ordinary (m_pivot_root p q)" "makes ordinary (m_chdir p)" "makes ordinary (m_mkdir p n)"
  "makes ordinary (m_mkdir_p p n)" "makes ordinary (m_symlink p q)" "makes ordinary (mknod_char p n i j)" "makes ordinary (m_touch p)"
  unfolding m_mkdir_p_def make_rprivate_def m_bind_def remount_ro_def
  unfolding m_mount_def m_umount_def m_pivot_root_def m_chdir_def m_mkdir_def m_symlink_def mknod_char_def m_touch_def w_sys_exist_def
  by (intro forward_intros ordinary_intros)+

lemma ordinary_rootfs [ordinary_intros]: "makes ordinary (fs_setup cfg)" "makes ordinary (enter_cwd p)"
  unfolding fs_setup_def mount_standard_def mount_sys_def make_devices_def make_device_def make_link_def mount_volumes_def mount_volume_def
    mask_paths_def mask_path_def readonly_paths_def readonly_path_def enter_cwd_def Let_def case_prod_beta
  by (intro forward_intros ordinary_intros)+

lemma ordinary_inside [ordinary_intros]: "makes ordinary (configure_inside ns)" "makes ordinary (write_resolver_files cfg ns)"
  unfolding configure_inside_def write_resolver_files_def Let_def by (intro forward_intros ordinary_intros)+

text \<open>A stretch of the run that made ordinary calls only.\<close>

definition plain :: "world \<Rightarrow> world \<Rightarrow> bool" where
  "plain w u \<longleftrightarrow> later w u \<and> (\<forall>e \<in> set (since w u). ordinary (fst e))"

lemma plain_trans: "plain u v \<Longrightarrow> plain v w \<Longrightarrow> plain u w"
  unfolding plain_def using makes_steps by blast

lemma plain_makes: "(\<And>w r u. m w = Some (r, u) \<Longrightarrow> plain w u) \<Longrightarrow> makes ordinary m"
  unfolding makes_def plain_def by blast

lemma makes_plain: "makes ordinary m \<Longrightarrow> m w = Some (r, u) \<Longrightarrow> plain w u"
  unfolding makes_def plain_def by blast

lemma world_caps_plain:
  "sys_ambient_clear world_caps w = (e, u) \<Longrightarrow> plain w u" "sys_capbset_drop world_caps c w = (e, u) \<Longrightarrow> plain w u"
  "sys_capset world_caps lo hi w = (e, u) \<Longrightarrow> plain w u"
  using call_since by (auto simp: world_caps_def plain_def ordinary_def split: prod.splits)

lemma drop_bounding_plain: "drop_bounding world_caps keep cs w = (x, u) \<Longrightarrow> plain w u"
proof (induction cs arbitrary: w)
  case (Cons c cs)
  obtain r v where v: "sys_capbset_drop world_caps c w = (r, v)" by fastforce
  then show ?case using Cons world_caps_plain(2) [OF v] by (auto split: if_splits option.splits intro: plain_trans)
qed (simp add: plain_def)

lemma caps_apply_plain:
  assumes "caps_apply world_caps lc keep w = (x, u)"
  shows "plain w u"
proof -
  obtain r t where t: "sys_ambient_clear world_caps w = (r, t)" by fastforce
  obtain y v where v: "drop_bounding world_caps keep (map of_nat [0..<Suc (unat lc)]) t = (y, v)" by fastforce
  have "plain w v" using world_caps_plain(1) [OF t] drop_bounding_plain [OF v] by (rule plain_trans)
  moreover have "set_caps world_caps keep keep 0 v = (x, u) \<Longrightarrow> plain v u"
    using world_caps_plain(3) by (auto simp: set_caps_def split: prod.splits option.splits)
  ultimately show ?thesis
    using assms t v world_caps_plain(1) [OF t] by (auto simp: caps_apply_def intro: plain_trans split: if_splits result.splits)
qed

lemma ordinary_caps [ordinary_intros]: "makes ordinary (w_caps_apply keep)"
proof -
  have "makes ordinary (\<lambda>w. Some (caps_apply world_caps lc keep w))" for lc
    by (rule plain_makes) (auto dest: caps_apply_plain simp: eq_commute [of _ "caps_apply _ _ _ _"])
  then show ?thesis unfolding w_caps_apply_def by (intro makes_call ordinary_intros)
qed

lemma ordinary_security [ordinary_intros]: "makes ordinary (sec_apply a sec)" "makes ordinary (sethostname_str n)"
  unfolding sec_apply_def set_no_new_privs_def w_seccomp_install_def sethostname_str_def
  by (intro forward_intros ordinary_intros)+

lemma ordinary_setup [ordinary_intros]: "makes ordinary (init_setup a cfg ns)"
  unfolding init_setup_def by (intro forward_intros ordinary_intros)

section \<open>Supervising makes no process\<close>

lemma approximation: "(\<And>w y. f w = Some y \<Longrightarrow> plain w (snd y)) \<Longrightarrow> makes ordinary f"
  by (rule plain_makes) fastforce

lemma run_plain: "makes ordinary m \<Longrightarrow> m w = Some y \<Longrightarrow> plain w (snd y)"
  by (cases y) (auto dest: makes_plain)

lemma ordinary_reap [ordinary_intros]: "makes ordinary (w_reap_all out)"
proof (rule approximation)
  fix w y assume "w_reap_all out w = Some y"
  then show "plain w (snd y)"
  proof (rule w_reap_all.raw_induct [rotated], goal_cases)
    case (1 f out w y)
    have f: "makes ordinary (f out)" for out using 1(1) by (intro approximation) blast
    let ?body = "w_try (w_wait_pid (- 1) WNOHANG) (\<lambda>r. case r of Ok x \<Rightarrow> (case x of Some z \<Rightarrow> f (out @ [z]) | None \<Rightarrow> w_ok out) | Err _ \<Rightarrow> w_ok out)"
    have "makes ordinary ?body" by (intro forward_intros ordinary_intros f)
    moreover have "?body w = Some y" using 1(2) by (auto simp: w_try_def w_ok_def split: option.splits result.splits)
    ultimately show ?case by (rule run_plain)
  qed
qed

lemma ordinary_poll [ordinary_intros]: "makes ordinary (poll_fd fd t)"
proof (rule approximation)
  fix w y assume "poll_fd fd t w = Some y"
  then show "plain w (snd y)"
  proof (rule poll_fd.raw_induct [rotated], goal_cases)
    case (1 f fd t w y)
    have f: "makes ordinary (f fd t)" for fd t using 1(1) by (intro approximation) blast
    let ?body = "w_call (KSec (SPoll fd t)) (\<lambda>r. case reply_num r of Ok n \<Rightarrow> w_ok n
        | Err e \<Rightarrow> if e = EINTR then f fd t else w_err (Syscall ''poll'' e ''1 fds''))"
    have "makes ordinary ?body" by (intro forward_intros ordinary_intros f)
    moreover have "?body w = Some y" using 1(2) by (auto simp: w_call_def w_ok_def w_err_def split: prod.splits result.splits if_splits)
    ultimately show ?case by (rule run_plain)
  qed
qed

lemma ordinary_next_signal [ordinary_intros]: "makes ordinary (next_signal fd)"
  unfolding next_signal_def by (intro forward_intros ordinary_intros)

lemma ordinary_forward_signals [ordinary_intros]: "makes ordinary (forward_signals pid fd)"
proof (rule approximation)
  fix w y assume "forward_signals pid fd w = Some y"
  then show "plain w (snd y)"
  proof (rule forward_signals.raw_induct [rotated], goal_cases)
    case (1 f pid fd w y)
    have f: "makes ordinary (f pid fd)" for pid fd using 1(1) by (intro approximation) blast
    have "makes ordinary (w_try (next_signal fd) (\<lambda>r. case r of
         Ok (Some signo) \<Rightarrow>
           if signo = SIGCHLD then f pid fd
           else w_bind (w_ignore (kill_pid pid signo)) (\<lambda>_. f pid fd)
       | _ \<Rightarrow> w_ok ()))" by (intro forward_intros ordinary_intros f)
    then show ?case using 1(2) by (rule run_plain)
  qed
qed

lemma ordinary_supervise [ordinary_intros]: "makes ordinary (supervise pid fd)"
proof (rule approximation)
  fix w y assume "supervise pid fd w = Some y"
  then show "plain w (snd y)"
  proof (rule supervise.raw_induct [rotated], goal_cases)
    case (1 f pid fd w y)
    have f: "makes ordinary (f pid fd)" for pid fd using 1(1) by (intro approximation) blast
    have "makes ordinary (w_bind (w_reap_all []) (\<lambda>reaped. case workload_status pid reaped of
         Some status \<Rightarrow> w_ok status
       | None \<Rightarrow>
           w_try (poll_fd fd 200) (\<lambda>r. case r of
               Ok n \<Rightarrow> if n = 0 then f pid fd else w_bind (forward_signals pid fd) (\<lambda>_. f pid fd)
             | Err _ \<Rightarrow> w_bind (k_sleep 50) (\<lambda>_. f pid fd))))" by (intro forward_intros ordinary_intros f)
    then show ?case using 1(2) by (rule run_plain)
  qed
qed

lemma ordinary_shutdown [ordinary_intros]: "makes ordinary shutdown_remaining"
proof -
  have o: "makes ordinary other_pids" unfolding other_pids_def list_pids_in_proc_def by (intro forward_intros ordinary_intros)
  have "makes ordinary (grace n)" for n by (induction n) (auto intro!: forward_intros ordinary_intros o)
  then show ?thesis unfolding shutdown_remaining_def by (intro forward_intros ordinary_intros o)
qed

section \<open>What happened before the fork\<close>

abbreviation unforked :: "kcall \<Rightarrow> bool" where
  "unforked c \<equiv> c \<noteq> KProc PFork"

lemma unforked_ordinary: "makes ordinary m \<Longrightarrow> makes unforked m"
  by (erule makes_mono) auto

text \<open>A step that does not fork is complete when the fork happens, and all its calls come before it.\<close>

lemma before_fork:
  assumes "w_bind m f w = Some (r, w')" "since w w' = before @ (KProc PFork, x) # after" "makes unforked m" "\<And>y. forward (f y)"
  obtains y u rest where "m w = Some (Ok y, u)" "later w u" "f y u = Some (r, w')" "before = since w u @ rest"
    "since u w' = rest @ (KProc PFork, x) # after"
proof -
  obtain res u where u: "m w = Some (res, u)" using assms(1) by (auto simp: w_bind_def split: option.splits)
  have l: "later w u" "\<forall>e \<in> set (since w u). unforked (fst e)" using assms(3) u unfolding makes_def by blast+
  show thesis
  proof (cases res)
    case (Ok y)
    then have f: "f y u = Some (r, w')" using assms(1) u by (simp add: w_bind_def)
    have "later u w'" using f assms(4) by (rule laterI)
    then have s: "since w u @ since u w' = before @ (KProc PFork, x) # after" using l(1) since_trans assms(2) by metis
    moreover have "(KProc PFork, x) \<notin> set (since w u)" using l(2) by auto
    ultimately obtain rest where "before = since w u @ rest" "since u w' = rest @ (KProc PFork, x) # after"
      by (auto simp: append_eq_append_conv2 append_eq_Cons_conv)
    then show thesis using that u Ok l(1) f by blast
  next
    case (Err e)
    then have "w' = u" using assms(1) u by (simp add: w_bind_def)
    then show thesis using l(2) assms(2) by auto
  qed
qed

text \<open>
  What reducing the capabilities to \<open>keep\<close> asks of the kernel, call by call: the number of the
  last capability is read, the ambient set is cleared, every capability up to the last that is
  not kept is dropped from the bounding set, and the process's own sets are set.  The last call
  succeeded; the others may only have been answered with \<open>EINVAL\<close> (unknown to the kernel).
\<close>

definition granted :: "reply \<Rightarrow> bool" where
  "granted r \<longleftrightarrow> reply_errno r = None \<or> reply_errno r = Some EINVAL"

definition last_known :: "reply \<Rightarrow> u8" where
  "last_known r = last_cap (case r of RData d \<Rightarrow> if utf8_valid d then Some d else None | _ \<Rightarrow> None)"

definition caps_reduced :: "u64 \<Rightarrow> klog \<Rightarrow> bool" where
  "caps_reduced keep t \<longleftrightarrow> (\<exists>z amb drops r.
     t = (KRead LAST_CAP_FILE, z) # (KSec SAmbientClear, amb) # drops @
         [(KSec (SCapset (cap_lo keep, cap_lo keep, cap_lo 0) (cap_hi keep, cap_hi keep, cap_hi 0)), r)] \<and>
     granted amb \<and> (\<forall>e \<in> set drops. granted (snd e)) \<and> \<not> failed r \<and>
     map fst drops = map (\<lambda>c. KSec (SBoundDrop c))
       (filter (\<lambda>c. keep AND shl1 c = 0) (map of_nat [0..<Suc (unat (last_known z))])))"

lemma world_caps_call:
  "sys_ambient_clear world_caps w = (case k_call (KSec SAmbientClear) w of (r, u) \<Rightarrow> (reply_errno r, u))"
  "sys_capbset_drop world_caps c w = (case k_call (KSec (SBoundDrop c)) w of (r, u) \<Rightarrow> (reply_errno r, u))"
  "sys_capset world_caps lo hi w = (case k_call (KSec (SCapset lo hi)) w of (r, u) \<Rightarrow> (reply_errno r, u))"
  by (simp_all add: world_caps_def)

lemma reply_errno_None: "reply_errno r = None \<longleftrightarrow> \<not> failed r"
  by (cases r) simp_all

lemma drop_bounding_calls:
  assumes "drop_bounding world_caps keep cs w = (Ok x, u)"
  shows "map fst (since w u) = map (\<lambda>c. KSec (SBoundDrop c)) (filter (\<lambda>c. keep AND shl1 c = 0) cs) \<and>
    (\<forall>e \<in> set (since w u). granted (snd e))"
  using assms
proof (induction cs arbitrary: w)
  case Nil
  then show ?case by (simp add: since_def)
next
  case (Cons c cs)
  show ?case
  proof (cases "keep AND shl1 c = 0")
    case True
    obtain r v where v: "k_call (KSec (SBoundDrop c)) w = (r, v)" by fastforce
    then have g: "granted r" and rest: "drop_bounding world_caps keep cs v = (Ok x, u)"
      using Cons.prems True by (auto simp: world_caps_call granted_def split: option.splits if_splits)
    have "since w u = (KSec (SBoundDrop c), r) # since v u"
      using call_since [OF v] drop_bounding_plain [OF rest] since_trans [of w v u] by (simp add: plain_def)
    then show ?thesis using Cons.IH [OF rest] g True by simp
  next
    case False
    then show ?thesis using Cons by simp
  qed
qed

lemma caps_apply_calls:
  assumes "caps_apply world_caps lc keep w = (Ok x, u)"
  obtains amb drops r where "since w u = (KSec SAmbientClear, amb) # drops @
         [(KSec (SCapset (cap_lo keep, cap_lo keep, cap_lo 0) (cap_hi keep, cap_hi keep, cap_hi 0)), r)]"
    "granted amb" "\<forall>e \<in> set drops. granted (snd e)" "\<not> failed r"
    "map fst drops = map (\<lambda>c. KSec (SBoundDrop c)) (filter (\<lambda>c. keep AND shl1 c = 0) (map of_nat [0..<Suc (unat lc)]))"
proof -
  let ?c = "KSec (SCapset (cap_lo keep, cap_lo keep, cap_lo 0) (cap_hi keep, cap_hi keep, cap_hi 0))"
  obtain amb t where t: "k_call (KSec SAmbientClear) w = (amb, t)" by fastforce
  then have g: "granted amb" and rest: "(case drop_bounding world_caps keep (map of_nat [0..<Suc (unat lc)]) t of
      (Ok _, u) \<Rightarrow> set_caps world_caps keep keep 0 u | (Err e, u) \<Rightarrow> (Err e, u)) = (Ok x, u)"
    using assms by (auto simp: caps_apply_def world_caps_call granted_def simp del: upt_Suc split: if_splits)
  obtain y v where v: "drop_bounding world_caps keep (map of_nat [0..<Suc (unat lc)]) t = (Ok y, v)"
    "set_caps world_caps keep keep 0 v = (Ok x, u)"
    using rest by (auto simp del: upt_Suc split: prod.splits result.splits)
  obtain r u' where r: "k_call ?c v = (r, u')" by fastforce
  have u: "u' = u" "\<not> failed r"
    using v(2) r by (auto simp: set_caps_def world_caps_call reply_errno_None [symmetric] split: option.splits)
  have "since w u = since w t @ since t v @ since v u" "later w t"
    using call_since [OF t] drop_bounding_plain [OF v(1)] call_since [OF r] u(1)
      since_trans [of w t u] since_trans [of t v u] later_trans [of t v u] by (auto simp: plain_def)
  then have "since w u = (KSec SAmbientClear, amb) # since t v @ [(?c, r)]"
    using call_since [OF t] call_since [OF r] u(1) by simp
  then show thesis using that g drop_bounding_calls [OF v(1)] u(2) by blast
qed

text \<open>What \<open>apply\<close> has done when it succeeds, in its order.\<close>

definition hardened :: "arch \<Rightarrow> security_config \<Rightarrow> klog \<Rightarrow> bool" where
  "hardened a sec t \<longleftrightarrow> (\<exists>keep pre caps nnp filter. t = pre @ caps @ nnp @ filter \<and> cap_mask sec = Ok keep \<and>
     caps_reduced keep caps \<and>
     (s_no_new_privs sec \<longrightarrow> succeeded (KSec SNoNewPrivs) nnp) \<and>
     (s_seccomp sec \<noteq> Unconfined \<longrightarrow> (\<exists>prog. build_filter a (s_seccomp sec) = Ok prog \<and> succeeded (KSec (SSeccomp prog)) filter)))"

lemma hardened_more: "hardened a sec t \<Longrightarrow> hardened a sec (s @ t @ u)"
proof -
  assume "hardened a sec t"
  then obtain keep pre caps nnp filter where k: "t = pre @ caps @ nnp @ filter" "cap_mask sec = Ok keep" "caps_reduced keep caps"
      "s_no_new_privs sec \<longrightarrow> succeeded (KSec SNoNewPrivs) nnp"
      "s_seccomp sec \<noteq> Unconfined \<longrightarrow> (\<exists>prog. build_filter a (s_seccomp sec) = Ok prog \<and> succeeded (KSec (SSeccomp prog)) filter)"
    unfolding hardened_def by blast
  then show ?thesis unfolding hardened_def
    by (intro exI [of _ keep] exI [of _ "s @ pre"] exI [of _ caps] exI [of _ nnp] exI [of _ "filter @ u"]) auto
qed

lemma sec_apply_hardens:
  assumes "sec_apply a sec w = Some (Ok x, w')" "\<not> s_privileged sec"
  shows "hardened a sec (since w w')"
proof -
  obtain keep u1 u2 n where s: "cap_mask sec = Ok keep" "w_caps_apply keep w = Some (Ok (), u1)"
    "(if s_no_new_privs sec then set_no_new_privs else w_ok ()) u1 = Some (Ok (), u2)"
    "w_seccomp_install a (s_seccomp sec) u2 = Some (Ok n, w')"
    using assms by (auto simp: sec_apply_def w_simps)
  obtain z t where t: "k_call (KRead LAST_CAP_FILE) w = (z, t)" "caps_apply world_caps (last_known z) keep t = (Ok (), u1)"
    using s(2) by (auto simp: w_caps_apply_def w_call_def last_known_def split: prod.splits)
  have l: "later w t" "since w t = [(KRead LAST_CAP_FILE, z)]" "later t u1"
    using call_since [OF t(1)] caps_apply_plain [OF t(2)] by (simp_all add: plain_def)
  have "caps_reduced keep (since w u1)"
    by (rule caps_apply_calls [OF t(2)], unfold caps_reduced_def since_trans [OF l(1,3)] l(2)) (simp only: append_Cons append_Nil, blast)
  moreover have "s_no_new_privs sec \<Longrightarrow> succeeded (KSec SNoNewPrivs) (since u1 u2)"
    using s(3) w_sys_succeeded [of "KSec SNoNewPrivs" reply_unit] by (auto simp: set_no_new_privs_def)
  moreover have "\<exists>prog. build_filter a (s_seccomp sec) = Ok prog \<and> succeeded (KSec (SSeccomp prog)) (since u2 w')" if "s_seccomp sec \<noteq> Unconfined"
    using s(4) that w_sys_succeeded [of "KSec (SSeccomp _)" reply_unit] by (auto simp: w_seccomp_install_def w_simps)
  moreover have "since w w' = [] @ since w u1 @ since u1 u2 @ since u2 w'"
  proof -
    have "makes ordinary (if s_no_new_privs sec then set_no_new_privs else w_ok ())" "makes ordinary (w_seccomp_install a (s_seccomp sec))"
      unfolding set_no_new_privs_def w_seccomp_install_def by (intro forward_intros ordinary_intros)+
    then have "later u1 u2" "later u2 w'" using s(3,4) unfolding makes_def by blast+
    then show ?thesis using l later_trans since_trans by (metis append_Nil)
  qed
  ultimately show ?thesis unfolding hardened_def using s(1) by blast
qed

text \<open>
  A path was masked: it was looked up and, where it exists, a mount over it was asked for, an
  empty \<open>tmpfs\<close> over a directory and \<open>/dev/null\<close> over anything else.  A path was made
  read-only: where it exists it was bound to itself and, if that worked, a read-only remount
  was asked for.  The code goes on when these mounts fail, and a path with a NUL byte cannot
  be passed to the kernel.
\<close>

fun mask_mount :: "bool \<Rightarrow> string \<Rightarrow> kcall" where
  "mask_mount True p = KMnt (MMount (Some ''tmpfs'') p (Some ''tmpfs'') (MS_RDONLY OR MS_NOSUID OR MS_NODEV OR MS_NOEXEC) (Some ''size=0k''))"
| "mask_mount False p = KMnt (MMount (Some ''/dev/null'') p None MS_BIND None)"

definition masked :: "string \<Rightarrow> klog \<Rightarrow> bool" where
  "masked p t \<longleftrightarrow> (\<exists>before r after. t = before @ (KLstat p, r) # after \<and>
     (\<forall>d x. r = RStat d x \<longrightarrow> CHR 0x00 \<notin> set p \<longrightarrow> (\<exists>z. (mask_mount d p, z) \<in> set after)))"

definition sealed :: "string \<Rightarrow> klog \<Rightarrow> bool" where
  "sealed p t \<longleftrightarrow> (\<exists>before r after. t = before @ (KStat p, r) # after \<and>
     (\<forall>d x. r = RStat d x \<longrightarrow> CHR 0x00 \<notin> set p \<longrightarrow> (\<exists>z rest.
        after = (KMnt (MMount (Some p) p None (MS_BIND OR MS_REC) None), z) # rest \<and>
        (failed z \<or> (\<exists>y. (KMnt (MMount None p None (MS_REMOUNT OR MS_BIND OR MS_RDONLY OR MS_REC) None), y) \<in> set rest)))))"

text \<open>The old root is left, then detached, then the configured paths are hidden or protected.\<close>

definition moved_in :: "security_config \<Rightarrow> klog \<Rightarrow> bool" where
  "moved_in sec t \<longleftrightarrow> (\<exists>pivot detach paths. t = pivot @ detach @ paths \<and>
     succeeded (KMnt (MPivot ''.'' ''.'')) pivot \<and> succeeded (KMnt (MUmount ''.'' MNT_DETACH)) detach \<and>
     (s_privileged sec \<or> (\<forall>p \<in> set (s_masked_paths sec). masked p paths) \<and> (\<forall>p \<in> set (s_readonly_paths sec). sealed p paths)))"

lemma masked_more: "masked p t \<Longrightarrow> masked p (s @ t @ u)"
proof -
  assume "masked p t"
  then obtain before r after where "t = before @ (KLstat p, r) # after"
    "\<forall>d x. r = RStat d x \<longrightarrow> CHR 0x00 \<notin> set p \<longrightarrow> (\<exists>z. (mask_mount d p, z) \<in> set after)" unfolding masked_def by blast
  then show ?thesis unfolding masked_def by (intro exI [of _ "s @ before"] exI [of _ r] exI [of _ "after @ u"]) auto
qed

lemma sealed_more: "sealed p t \<Longrightarrow> sealed p (s @ t @ u)"
proof -
  assume "sealed p t"
  then obtain before r after where *: "t = before @ (KStat p, r) # after"
    "\<forall>d x. r = RStat d x \<longrightarrow> CHR 0x00 \<notin> set p \<longrightarrow> (\<exists>z rest.
        after = (KMnt (MMount (Some p) p None (MS_BIND OR MS_REC) None), z) # rest \<and>
        (failed z \<or> (\<exists>y. (KMnt (MMount None p None (MS_REMOUNT OR MS_BIND OR MS_RDONLY OR MS_REC) None), y) \<in> set rest)))"
    unfolding sealed_def by blast
  show ?thesis unfolding sealed_def
  proof (rule exI [of _ "s @ before"], rule exI [of _ r], rule exI [of _ "after @ u"], intro conjI allI impI)
    fix d x assume "r = RStat d x" "CHR 0x00 \<notin> set p"
    then show "\<exists>z rest. after @ u = (KMnt (MMount (Some p) p None (MS_BIND OR MS_REC) None), z) # rest \<and>
        (failed z \<or> (\<exists>y. (KMnt (MMount None p None (MS_REMOUNT OR MS_BIND OR MS_RDONLY OR MS_REC) None), y) \<in> set rest))"
      using *(2) by fastforce
  qed (simp add: *(1))
qed

lemma moved_in_more: "moved_in sec t \<Longrightarrow> moved_in sec (s @ t @ u)"
proof -
  assume "moved_in sec t"
  then obtain pivot detach paths where "t = pivot @ detach @ paths"
     "succeeded (KMnt (MPivot ''.'' ''.'')) pivot" "succeeded (KMnt (MUmount ''.'' MNT_DETACH)) detach"
     "s_privileged sec \<or> (\<forall>p \<in> set (s_masked_paths sec). masked p paths) \<and> (\<forall>p \<in> set (s_readonly_paths sec). sealed p paths)"
    unfolding moved_in_def by blast
  then show ?thesis using masked_more [of _ paths "[]" u] sealed_more [of _ paths "[]" u] unfolding moved_in_def
    by (intro exI [of _ "s @ pivot"] exI [of _ detach] exI [of _ "paths @ u"]) auto
qed

text \<open>Where every element leaves a trace in the log that further calls keep, the loop leaves all of them.\<close>

lemma each_leaves:
  assumes "\<And>x w w'. f x w = Some (Ok (), w') \<Longrightarrow> Q x (since w w')" "\<And>x. forward (f x)"
    and more: "\<And>x s t u. Q x t \<Longrightarrow> Q x (s @ t @ u)"
    and run: "w_each f xs w = Some (Ok y, w')" "x \<in> set xs"
  shows "Q x (since w w')"
  using run
proof (induction xs arbitrary: w)
  case (Cons z zs)
  have "w_bind (f z) (\<lambda>_. w_each f zs) w = Some (Ok y, w')" using Cons.prems(1) by simp
  then obtain v u where u: "f z w = Some (Ok v, u)" "w_each f zs u = Some (Ok y, w')" "since w w' = since w u @ since u w'"
    by (rule bind_since) (blast intro: forward_intros assms(2))+
  then show ?case using assms(1) [of z w u] more [of x "since w u" "[]" "since u w'"] more [of x "since u w'" "since w u" "[]"] Cons.IH [OF u(2)] Cons.prems(2)
    by auto
qed simp

lemma m_mount_calls:
  assumes "m_mount src p ty flags data w = Some (r, w')"
    "CHR 0x00 \<notin> set p" "opt_cstr src = Ok ()" "opt_cstr ty = Ok ()" "opt_cstr data = Ok ()"
  obtains z where "since w w' = [(KMnt (MMount src p ty flags data), z)]" "r \<noteq> Ok () \<Longrightarrow> failed z" "later w w'"
proof -
  have w: "w_sys (KMnt (MMount src p ty flags data)) reply_unit (chk ''mount'' (mount_text src p ty flags data)) w = Some (r, w')"
    using assms by (simp add: m_mount_def w_bind_def w_lift_def cstr_def)
  obtain z u where z: "k_call (KMnt (MMount src p ty flags data)) w = (z, u)" by fastforce
  with w have "w' = u" "r \<noteq> Ok () \<longrightarrow> failed z"
    by (cases z; auto simp: w_sys_def w_call_def w_get_def w_lift_def)+
  then show thesis using that call_since [OF z] by blast
qed

lemma plain_step:
  assumes "w_bind m f w = Some (Ok y, w')" "makes ordinary m"
  obtains x u where "m w = Some (Ok x, u)" "plain w u" "f x u = Some (Ok y, w')"
  using assms by (metis makes_plain w_bind_Ok)

lemma plain_since: "plain u v \<Longrightarrow> plain v w \<Longrightarrow> since u w = since u v @ since v w"
  by (simp add: plain_def since_trans)

lemma mount_call_Ok:
  "m_pivot_root p q w = Some (Ok x, w') \<Longrightarrow> succeeded (KMnt (MPivot p q)) (since w w')"
  "m_umount r f w = Some (Ok x, w') \<Longrightarrow> succeeded (KMnt (MUmount r f)) (since w w')"
  by (auto simp: m_pivot_root_def m_umount_def w_simps intro: w_sys_succeeded)

lemma mask_path_masks:
  assumes "mask_path p w = Some (Ok (), w')"
  shows "masked p (since w w')"
proof -
  obtain r u where r: "k_call (KLstat p) w = (r, u)" by fastforce
  note c = call_since [OF r]
  define rest where "rest = (case r of RStat d _ \<Rightarrow> w_ignore (if d
         then m_mount (Some ''tmpfs'') p (Some ''tmpfs'') (MS_RDONLY OR MS_NOSUID OR MS_NODEV OR MS_NOEXEC) (Some ''size=0k'')
         else m_bind ''/dev/null'' p False) | _ \<Rightarrow> w_ok ())"
  have run: "rest u = Some (Ok (), w')" using assms r by (simp add: mask_path_def w_call_def rest_def)
  have "makes ordinary rest" unfolding rest_def by (intro forward_intros ordinary_intros)
  then have "since w w' = [] @ (KLstat p, r) # since u w'"
    using makes_plain run c since_trans [of w u w'] by (fastforce simp: plain_def)
  moreover have "\<exists>z. (mask_mount d p, z) \<in> set (since u w')" if "r = RStat d x" "CHR 0x00 \<notin> set p" for d x
  proof -
    from run that(1) obtain y where "(if d
         then m_mount (Some ''tmpfs'') p (Some ''tmpfs'') (MS_RDONLY OR MS_NOSUID OR MS_NODEV OR MS_NOEXEC) (Some ''size=0k'')
         else m_bind ''/dev/null'' p False) u = Some (y, w')"
      by (auto simp: rest_def w_ignore_def w_try_def w_ok_def split: option.splits)
    then show ?thesis using that(2)
      by (cases d) (auto simp: m_bind_def opt_cstr_def cstr_def elim!: m_mount_calls)
  qed
  ultimately show ?thesis unfolding masked_def by blast
qed

lemma readonly_path_seals:
  assumes "readonly_path p w = Some (Ok (), w')"
  shows "sealed p (since w w')"
proof -
  obtain r u where r: "k_call (KStat p) w = (r, u)" by fastforce
  note c = call_since [OF r]
  let ?there = "case r of RStat _ _ \<Rightarrow> True | _ \<Rightarrow> False"
  define rest where "rest = (if \<not> ?there then w_ok ()
     else w_try (m_bind p p True) (\<lambda>r. case r of Err _ \<Rightarrow> w_ok () | Ok _ \<Rightarrow> w_ignore (remount_ro p MS_REC)))"
  have run: "rest u = Some (Ok (), w')"
    using assms r by (simp add: readonly_path_def k_exists_def w_bind_def w_call_def w_ok_def rest_def)
  have "makes ordinary rest" unfolding rest_def by (intro forward_intros ordinary_intros)
  then have log: "since w w' = [] @ (KStat p, r) # since u w'"
    using makes_plain run c since_trans [of w u w'] by (fastforce simp: plain_def)
  have "\<exists>z rest. since u w' = (KMnt (MMount (Some p) p None (MS_BIND OR MS_REC) None), z) # rest \<and>
        (failed z \<or> (\<exists>y. (KMnt (MMount None p None (MS_REMOUNT OR MS_BIND OR MS_RDONLY OR MS_REC) None), y) \<in> set rest))"
    if R: "r = RStat d x" "CHR 0x00 \<notin> set p" for d x
  proof -
    obtain b v where b: "m_bind p p True u = Some (b, v)"
      "(case b of Err _ \<Rightarrow> w_ok () | Ok _ \<Rightarrow> w_ignore (remount_ro p MS_REC)) v = Some (Ok (), w')"
      using run by (auto simp: rest_def R(1) w_try_def split: option.splits)
    obtain z where z: "since u v = [(KMnt (MMount (Some p) p None (MS_BIND OR MS_REC) None), z)]" "b \<noteq> Ok () \<Longrightarrow> failed z" "later u v"
      using b(1) R(2) by (auto simp: m_bind_def opt_cstr_def cstr_def elim!: m_mount_calls)
    show ?thesis
    proof (cases b)
      case (Ok y)
      then obtain e where e: "remount_ro p MS_REC v = Some (e, w')"
        using b(2) by (auto simp: w_ignore_def w_try_def w_ok_def split: option.splits)
      obtain z' where "since v w' = [(KMnt (MMount None p None (MS_REMOUNT OR MS_BIND OR MS_RDONLY OR MS_REC) None), z')]" "later v w'"
        using e R(2) unfolding remount_ro_def by (rule m_mount_calls) (simp_all add: opt_cstr_def)
      then show ?thesis using since_trans [of u v w'] z by auto
    next
      case (Err e)
      then show ?thesis using b(2) z by (auto simp: w_ok_def)
    qed
  qed
  then show ?thesis unfolding sealed_def using log by blast
qed

lemma paths_protected:
  assumes "w_bind (mask_paths ms) (\<lambda>_. readonly_paths rs) w = Some (Ok x, w')"
  shows "(\<forall>p \<in> set ms. masked p (since w w')) \<and> (\<forall>p \<in> set rs. sealed p (since w w'))"
proof -
  have fw: "forward (mask_path p)" "forward (readonly_path p)" for p
    unfolding mask_path_def readonly_path_def by (intro forward_intros makes_forward [OF ordinary_mount(1)] makes_forward [OF ordinary_mount(4)] makes_forward [OF ordinary_mount(5)])+
  have "forward (mask_paths ms)" "forward (readonly_paths rs)" unfolding mask_paths_def readonly_paths_def by (intro forward_intros fw)+
  then obtain y u where u: "mask_paths ms w = Some (Ok y, u)" "readonly_paths rs u = Some (Ok x, w')" "since w w' = since w u @ since u w'"
    using bind_since [OF assms] by metis
  have "masked p (since w u)" if "p \<in> set ms" for p
    by (rule each_leaves [where f = mask_path and Q = masked, OF mask_path_masks fw(1) masked_more u(1) [unfolded mask_paths_def] that])
  moreover have "sealed p (since u w')" if "p \<in> set rs" for p
    by (rule each_leaves [where f = readonly_path and Q = sealed, OF readonly_path_seals fw(2) sealed_more u(2) [unfolded readonly_paths_def] that])
  ultimately show ?thesis
    using masked_more [of _ "since w u" "[]" "since u w'"] sealed_more [of _ "since u w'" "since w u" "[]"] u(3) by simp
qed

lemma fs_setup_moves:
  assumes "fs_setup cfg w = Some (Ok x, w')"
  shows "moved_in (c_security cfg) (since w w')"
proof -
  let ?sec = "c_security cfg"
  let ?tail = "\<lambda>_ :: unit. w_bind (m_chdir ''/'') (\<lambda>_. w_bind (w_fault ''after_pivot_root'') (\<lambda>_.
      if s_privileged ?sec then w_ok ()
      else w_bind (mask_paths (s_masked_paths ?sec)) (\<lambda>_. readonly_paths (s_readonly_paths ?sec))))"
  let ?head = "w_bind (make_rprivate ''/'') (\<lambda>_. w_bind (m_bind (c_rootfs cfg) (c_rootfs cfg) True) (\<lambda>_.
      w_bind (mount_standard (c_rootfs cfg) cfg) (\<lambda>_. w_bind (if c_read_only cfg then remount_ro (c_rootfs cfg) 0 else w_ok ()) (\<lambda>_.
      w_bind (w_fault ''before_pivot_root'') (\<lambda>_. m_chdir (c_rootfs cfg))))))"
  have o: "makes ordinary ?head" "makes ordinary (?tail ())"
    unfolding mount_standard_def mount_sys_def make_devices_def make_device_def make_link_def mount_volumes_def mount_volume_def
      mask_paths_def mask_path_def readonly_paths_def readonly_path_def Let_def case_prod_beta
    by (intro forward_intros ordinary_intros)+
  have assoc: "w_bind (w_bind m f) g = w_bind m (\<lambda>x. w_bind (f x) g)" for m :: "unit act" and f :: "unit \<Rightarrow> unit act" and g :: "unit \<Rightarrow> unit act"
    by (rule ext) (auto simp: w_bind_def split: option.splits result.splits)
  have "fs_setup cfg = w_bind ?head (\<lambda>_. w_bind (m_pivot_root ''.'' ''.'') (\<lambda>_. w_bind (m_umount ''.'' MNT_DETACH) ?tail))"
    by (simp add: fs_setup_def Let_def assoc)
  with assms have "w_bind ?head (\<lambda>_. w_bind (m_pivot_root ''.'' ''.'') (\<lambda>_. w_bind (m_umount ''.'' MNT_DETACH) ?tail)) w = Some (Ok x, w')"
    by simp
  then obtain y1 u1 where 1: "plain w u1" "w_bind (m_pivot_root ''.'' ''.'') (\<lambda>_. w_bind (m_umount ''.'' MNT_DETACH) ?tail) u1 = Some (Ok x, w')"
    by (rule plain_step [OF _ o(1)])
  from 1(2) obtain y2 u2 where 2: "m_pivot_root ''.'' ''.'' u1 = Some (Ok y2, u2)" "plain u1 u2" "w_bind (m_umount ''.'' MNT_DETACH) ?tail u2 = Some (Ok x, w')"
    by (rule plain_step [OF _ ordinary_mount(6)])
  from 2(3) obtain y3 u3 where 3: "m_umount ''.'' MNT_DETACH u2 = Some (Ok y3, u3)" "plain u2 u3" "?tail y3 u3 = Some (Ok x, w')"
    by (rule plain_step [OF _ ordinary_mount(2)])
  have 4: "plain u3 w'" using makes_plain [OF o(2)] 3(3) by simp
  have tail: "s_privileged ?sec \<or> (\<forall>p \<in> set (s_masked_paths ?sec). masked p (since u3 w')) \<and> (\<forall>p \<in> set (s_readonly_paths ?sec). sealed p (since u3 w'))"
  proof (cases "s_privileged ?sec")
    case False
    let ?after = "w_bind (m_chdir ''/'') (\<lambda>_. w_fault ''after_pivot_root'')"
    have oa: "makes ordinary ?after" by (intro forward_intros ordinary_intros)
    have "w_bind ?after (\<lambda>_. w_bind (mask_paths (s_masked_paths ?sec)) (\<lambda>_. readonly_paths (s_readonly_paths ?sec))) u3 = Some (Ok x, w')"
      using 3(3) False by (simp add: assoc)
    then obtain y v where v: "plain u3 v" "w_bind (mask_paths (s_masked_paths ?sec)) (\<lambda>_. readonly_paths (s_readonly_paths ?sec)) v = Some (Ok x, w')"
      by (rule plain_step [OF _ oa])
    have "makes ordinary (w_bind (mask_paths (s_masked_paths ?sec)) (\<lambda>_. readonly_paths (s_readonly_paths ?sec)))"
      unfolding mask_paths_def mask_path_def readonly_paths_def readonly_path_def by (intro forward_intros ordinary_intros)
    then have "plain v w'" using v(2) by (rule makes_plain)
    then have "since u3 w' = since u3 v @ since v w' @ []" using plain_since [OF v(1)] by simp
    then show ?thesis using paths_protected [OF v(2)] masked_more sealed_more by metis
  qed simp
  have "since w w' = (since w u1 @ since u1 u2) @ since u2 u3 @ since u3 w'"
    using plain_since [OF 1(1) plain_trans [OF 2(2) plain_trans [OF 3(2) 4]]] plain_since [OF 2(2) plain_trans [OF 3(2) 4]] plain_since [OF 3(2) 4] by simp
  moreover have "succeeded (KMnt (MPivot ''.'' ''.'')) (since w u1 @ since u1 u2)" using mount_call_Ok(1) [OF 2(1)] by simp
  ultimately show ?thesis unfolding moved_in_def using mount_call_Ok(2) [OF 3(1)] tail by blast
qed

lemma init_setup_Ok:
  assumes "init_setup a cfg ns w = Some (Ok x, w')"
  obtains root sec where "since w w' = root @ sec" "moved_in (c_security cfg) root" "s_privileged (c_security cfg) \<or> hardened a (c_security cfg) sec"
proof -
  let ?h = "if ns_uts (c_namespaces cfg) then sethostname_str (c_hostname cfg) else w_ok ()"
  let ?n = "if ns_net (c_namespaces cfg) then w_map_err (\<lambda>e. Container (''configuring container network: '' @ display_error e)) (configure_inside ns)
      else w_ok ()"
  have o: "makes ordinary ?h" "makes ordinary ?n" by (intro forward_intros ordinary_intros)+
  obtain x1 u1 where 1: "plain w u1" "w_bind (fs_setup cfg) (\<lambda>_. w_bind ?n (\<lambda>_. w_bind (write_resolver_files cfg ns) (\<lambda>_.
      w_bind (enter_cwd (c_cwd cfg)) (\<lambda>_. sec_apply a (c_security cfg))))) u1 = Some (Ok x, w')"
    by (rule plain_step [OF assms [unfolded init_setup_def] o(1)])
  obtain x2 u2 where 2: "fs_setup cfg u1 = Some (Ok x2, u2)" "plain u1 u2" "w_bind ?n (\<lambda>_. w_bind (write_resolver_files cfg ns) (\<lambda>_.
      w_bind (enter_cwd (c_cwd cfg)) (\<lambda>_. sec_apply a (c_security cfg)))) u2 = Some (Ok x, w')"
    by (rule plain_step [OF 1(2) ordinary_rootfs(1)])
  obtain x3 u3 where 3: "plain u2 u3" "w_bind (write_resolver_files cfg ns) (\<lambda>_.
      w_bind (enter_cwd (c_cwd cfg)) (\<lambda>_. sec_apply a (c_security cfg))) u3 = Some (Ok x, w')"
    by (rule plain_step [OF 2(3) o(2)])
  obtain x4 u4 where 4: "plain u3 u4" "w_bind (enter_cwd (c_cwd cfg)) (\<lambda>_. sec_apply a (c_security cfg)) u4 = Some (Ok x, w')"
    by (rule plain_step [OF 3(2) ordinary_inside(2)])
  obtain x5 u5 where 5: "plain u4 u5" "sec_apply a (c_security cfg) u5 = Some (Ok x, w')"
    by (rule plain_step [OF 4(2) ordinary_rootfs(2)])
  have p: "plain u2 u5" "plain u5 w'" using 3(1) 4(1) 5 plain_trans makes_plain [OF ordinary_security(1)] by blast+
  then have "since w w' = (since w u1 @ since u1 u2 @ since u2 u5) @ since u5 w'"
    using plain_since [OF 1(1) plain_trans [OF 2(2) plain_trans [OF p]]] plain_since [OF 2(2) plain_trans [OF p]] plain_since [OF p] by simp
  moreover have "moved_in (c_security cfg) (since w u1 @ since u1 u2 @ since u2 u5)" using moved_in_more [OF fs_setup_moves [OF 2(1)]] .
  ultimately show thesis using that sec_apply_hardens [OF 5(2)] by blast
qed

section \<open>The workload starts confined\<close>

lemma forward_init [forward_intros]:
  "forward (init_setup a cfg ns)" "forward (supervise pid fd)" "forward shutdown_remaining" "forward (read_network_state d)"
  "forward (sig_block xs)" "forward (signal_fd_new xs)"
  unfolding read_network_state_def sig_block_def signal_fd_new_def
  by (intro forward_intros makes_forward [OF ordinary_setup] makes_forward [OF ordinary_supervise] makes_forward [OF ordinary_shutdown])+

lemma is_executable_ordinary [ordinary_intros]: "makes ordinary (is_executable p)"
  unfolding is_executable_def by (intro forward_intros ordinary_intros)

lemma ordinary_resolve [ordinary_intros]: "makes ordinary (resolve_exe c p)" "makes ordinary (no_nul what t)"
proof -
  have "makes ordinary (search_path c ds)" for ds
    by (induction ds) (auto simp: Let_def intro!: forward_intros ordinary_intros)
  then show "makes ordinary (resolve_exe c p)" unfolding resolve_exe_def Let_def by (intro forward_intros ordinary_intros)
  show "makes ordinary (no_nul what t)" unfolding no_nul_def by (intro forward_intros)
qed

lemma spawn_workload_calls: "makes (\<lambda>c. ordinary c \<or> c = KProc PFork) (spawn_workload cfg)"
proof (cases "c_command cfg")
  case (Cons cmd args)
  have o: "makes ordinary m \<Longrightarrow> makes (\<lambda>c. ordinary c \<or> c = KProc PFork) m" for m :: "unit act"
    by (erule makes_mono) simp
  have "makes (\<lambda>c. ordinary c \<or> c = KProc PFork) (resolve_exe cmd p)" for p
    by (rule makes_mono [OF ordinary_resolve(1)]) simp
  then show ?thesis unfolding spawn_workload_def fork_process_def Cons list.case
    by (intro forward_intros o [OF ordinary_resolve(2)]) simp_all
qed (simp add: spawn_workload_def makes_panic)

text \<open>The steps of init up to the fork, and those after it.\<close>

definition init_rest :: "container_config \<Rightarrow> int \<Rightarrow> exit_status act" where
  "init_rest cfg sfd =
     w_bind (spawn_workload cfg) (\<lambda>child. w_bind (w_send TAG_STARTED) (\<lambda>_.
       w_bind (supervise child sfd) (\<lambda>status. w_bind shutdown_remaining (\<lambda>_. w_ok status))))"

lemma forward_rest [forward_intros]: "forward (init_rest cfg sfd)"
  unfolding init_rest_def by (intro forward_intros makes_forward [OF spawn_workload_calls])

lemma no_started_before_fork:
  assumes "init_rest cfg sfd w = Some (r, w')" "since w w' = before @ (KProc PFork, x) # after"
  shows "(KSend TAG_STARTED, z) \<notin> set before"
proof -
  let ?rest = "\<lambda>child. w_bind (w_send TAG_STARTED) (\<lambda>_. w_bind (supervise child sfd) (\<lambda>status. w_bind shutdown_remaining (\<lambda>_. w_ok status)))"
  obtain res u where u: "spawn_workload cfg w = Some (res, u)" using assms(1) by (auto simp: init_rest_def w_bind_def split: option.splits)
  have l: "later w u" "\<forall>e \<in> set (since w u). ordinary (fst e) \<or> fst e = KProc PFork"
    using spawn_workload_calls u unfolding makes_def by blast+
  have "later u w' \<and> (\<forall>e \<in> set (since u w'). unforked (fst e))"
  proof (cases res)
    case (Ok child)
    have "makes unforked (?rest child)"
      by (intro forward_intros unforked_ordinary [OF ordinary_supervise] unforked_ordinary [OF ordinary_shutdown]) simp
    moreover have "?rest child u = Some (r, w')" using assms(1) u Ok by (simp add: init_rest_def w_bind_def)
    ultimately show ?thesis unfolding makes_def by blast
  qed (use assms(1) u in \<open>simp add: init_rest_def w_bind_def\<close>)
  then have "since w u @ since u w' = before @ (KProc PFork, x) # after" "(KProc PFork, x) \<notin> set (since u w')"
    using since_trans [of w u w'] l(1) assms(2) by auto
  then obtain us where "since w u = before @ us" by (auto simp: append_eq_append_conv2 append_eq_Cons_conv)
  then show ?thesis using bspec [OF l(2), of "(KSend TAG_STARTED, z)"] by auto
qed

definition init_listen :: "string \<Rightarrow> network_state act" where
  "init_listen state_dir =
     w_bind (w_send TAG_READY) (\<lambda>_. w_bind (w_fault ''before_go_signal'') (\<lambda>_. w_bind (w_expect TAG_GO) (\<lambda>_.
       w_bind (w_fault ''after_go_signal'') (\<lambda>_. read_network_state state_dir))))"

definition init_signals :: "int act" where
  "init_signals = w_bind (sig_block FORWARDED) (\<lambda>_. w_bind (signal_fd_new FORWARDED) (\<lambda>sfd. w_bind (w_fault ''before_exec'') (\<lambda>_. w_ok sfd)))"

lemma w_bind_assoc: "w_bind (w_bind m f) g = w_bind m (\<lambda>x. w_bind (f x) g)"
  by (rule ext) (auto simp: w_bind_def split: option.splits result.splits)

lemma w_bind_ok: "w_bind (w_ok x) f = f x"
  by (rule ext) (simp add: w_bind_def w_ok_def)

lemma init_run_phases:
  "init_run a d = w_bind (init_read_config d) (\<lambda>cfg. w_bind (init_listen d) (\<lambda>ns. w_bind (init_setup a cfg ns) (\<lambda>_.
     w_bind init_signals (init_rest cfg))))"
  by (simp add: init_run_def init_listen_def init_signals_def init_rest_def w_bind_assoc w_bind_ok)

lemma phases_unforked:
  "makes unforked (init_read_config d)" "makes unforked (init_listen d)" "makes unforked (init_setup a cfg ns)" "makes unforked init_signals"
  unfolding init_read_config_def init_listen_def read_network_state_def init_signals_def sig_block_def signal_fd_new_def
  by (intro forward_intros unforked_ordinary [OF ordinary_setup]; simp)+

text \<open>
  C3: Init makes the workload process only when what confines it is in place.  Before the fork,
  and in this order, init heard the supervisor say go; the root was exchanged and the old one
  detached, each with success; and, unless the container is privileged, for every masked and
  every read-only path of the configuration the mounts that hide or protect it were asked for
  where the path exists (init goes on when such a mount fails); then, unless the container is
  privileged, the ambient set was cleared, every capability up to the last known one that the
  configuration does not keep was dropped from the bounding set (a capability the kernel does
  not know may answer \<open>EINVAL\<close>), the process's own sets were reduced to the configured ones
  with success, the \<open>no_new_privs\<close> flag was set with success when configured, and the filter
  of the configured mode was installed with success unless that mode is \<open>unconfined\<close>.  The
  supervisor hears that the workload has started only after the fork.  This holds whatever the
  kernel answers and however init ends.
\<close>

theorem workload_starts_confined:
  assumes "init_run a state_dir w = Some (r, w')" "since w w' = before @ (KProc PFork, x) # after"
  shows "\<exists>cfg u go root sec. init_read_config state_dir w = Some (Ok cfg, u) \<and> before = go @ root @ sec \<and>
    succeeded (KRecv TAG_GO) go \<and> moved_in (c_security cfg) root \<and>
    (s_privileged (c_security cfg) \<or> hardened a (c_security cfg) sec) \<and> (\<forall>z. (KSend TAG_STARTED, z) \<notin> set before)"
proof -
  have not: "makes (\<lambda>c. c \<noteq> KSend TAG_STARTED) (init_listen state_dir)" "makes (\<lambda>c. c \<noteq> KSend TAG_STARTED) init_signals"
    "makes (\<lambda>c. c \<noteq> KSend TAG_STARTED) (init_read_config state_dir)"
    unfolding init_listen_def read_network_state_def init_signals_def sig_block_def signal_fd_new_def init_read_config_def
    by (intro forward_intros; simp add: TAG_READY_def TAG_STARTED_def)+
  have not4: "makes (\<lambda>c. c \<noteq> KSend TAG_STARTED) (init_setup a cfg ns)" for cfg ns
    by (rule makes_mono [OF ordinary_setup]) auto
  note run = assms(1) [unfolded init_run_phases]
  have fw: "forward (init_listen state_dir)" "forward init_signals" using phases_unforked by (auto intro: makes_forward)
  obtain cfg u1 b1 where 1: "init_read_config state_dir w = Some (Ok cfg, u1)" "later w u1"
     "w_bind (init_listen state_dir) (\<lambda>ns. w_bind (init_setup a cfg ns) (\<lambda>_. w_bind init_signals (init_rest cfg))) u1 = Some (r, w')"
     "before = since w u1 @ b1" "since u1 w' = b1 @ (KProc PFork, x) # after"
    by (rule before_fork [OF run assms(2) phases_unforked(1)]) (intro forward_intros fw, blast)
  obtain ns u2 b2 where 2: "init_listen state_dir u1 = Some (Ok ns, u2)" "later u1 u2"
     "w_bind (init_setup a cfg ns) (\<lambda>_. w_bind init_signals (init_rest cfg)) u2 = Some (r, w')"
     "b1 = since u1 u2 @ b2" "since u2 w' = b2 @ (KProc PFork, x) # after"
    by (rule before_fork [OF 1(3,5) phases_unforked(2)]) (intro forward_intros fw, blast)
  obtain y u3 b3 where 3: "init_setup a cfg ns u2 = Some (Ok y, u3)" "w_bind init_signals (init_rest cfg) u3 = Some (r, w')"
     "b2 = since u2 u3 @ b3" "since u3 w' = b3 @ (KProc PFork, x) # after"
    by (rule before_fork [OF 2(3,5) phases_unforked(3)]) (intro forward_intros fw, blast)
  obtain sfd u4 b4 where 4: "init_signals u3 = Some (Ok sfd, u4)" "init_rest cfg sfd u4 = Some (r, w')"
     "b3 = since u3 u4 @ b4" "since u4 w' = b4 @ (KProc PFork, x) # after"
    by (rule before_fork [OF 3(2,4) phases_unforked(4)]) (intro forward_intros fw, blast)
  obtain root sec where s: "since u2 u3 = root @ sec" "moved_in (c_security cfg) root" "s_privileged (c_security cfg) \<or> hardened a (c_security cfg) sec" by (rule init_setup_Ok [OF 3(1)])
  have "ensures (w_expect TAG_GO) (KRecv TAG_GO)" using channel_since(2) by (fastforce simp: ensures_def succeeded_def)
  then have "ensures (init_listen state_dir) (KRecv TAG_GO)"
    unfolding init_listen_def by (intro ensures_bind2 [OF ensures_bind2, OF ensures_bind1] forward_intros)
  then have go: "succeeded (KRecv TAG_GO) (since w u1 @ since u1 u2)" using 2(1) by (simp add: ensures_def)
  have "before = (since w u1 @ since u1 u2) @ root @ (sec @ since u3 u4 @ b4)" using 1(4) 2(4) 3(3) 4(3) s(1) by simp
  moreover have "s_privileged (c_security cfg) \<or> hardened a (c_security cfg) (sec @ since u3 u4 @ b4)" using s(3) hardened_more [of a _ sec "[]"] by auto
  moreover have "(KSend TAG_STARTED, z) \<notin> set before" for z
    using makesD [OF not(3) 1(1), of "KSend TAG_STARTED" z] makesD [OF not(1) 2(1), of "KSend TAG_STARTED" z]
      makesD [OF not4 3(1), of "KSend TAG_STARTED" z] makesD [OF not(2) 4(1), of "KSend TAG_STARTED" z] no_started_before_fork [OF 4(2,4)]
      1(4) 2(4) 3(3) 4(3) by auto
  ultimately show ?thesis using 1(1) go s(2) by blast
qed

end
