(* ===== verification/Init_Run.thy ===== *)
theory Init_Run
  imports Init_Laws
begin

text \<open>Init on a host that grants every call but the last one, the fork.\<close>

definition init_config :: container_config where
  "init_config = config_default\<lparr>c_rootfs := ''/b'', c_command := [''/s''], c_namespaces := namespaces_default\<lparr>ns_net := False\<rparr>\<rparr>"

definition full_host :: "kcall \<Rightarrow> reply" where
  "full_host c = (case c of
      KRead p \<Rightarrow> if p = LAST_CAP_FILE then RData ''0'' else RFail 2
    | KStat p \<Rightarrow> if p = ''/s'' then RStat False True else RFail 2
    | KSec s \<Rightarrow> (case s of SSignalFd _ \<Rightarrow> RNum 9 | _ \<Rightarrow> RDone)
    | KProc p \<Rightarrow> RFail 11
    | _ \<Rightarrow> RDone)"

definition init_pipe :: pipe where
  "init_pipe = empty_pipe\<lparr>p_in := frame TAG_GO []\<rparr>"

definition init_files :: fs where
  "init_files = empty_fs\<lparr>fs_files := [(''/c/config.json'', json_to_string_pretty (config_to_json init_config))], fs_dirs := [''/c'']\<rparr>"

definition full :: "fs \<Rightarrow> pipe \<Rightarrow> klog \<Rightarrow> world" where
  "full s p l = (calm_world s p full_host (\<lambda>_. None))\<lparr>w_log := l\<rparr>"

lemma full_simps [simp]:
  "k_call c (full s p l) = (full_host c, full s p (l @ [(c, full_host c)]))" "w_env (full s p l) = (\<lambda>_. None)" "w_chan (full s p l) = p"
  "w_log (full s p l) = l" "(full s p l)\<lparr>w_chan := p', w_log := l'\<rparr> = full s p' l'" "(full s p l)\<lparr>w_fs := s'\<rparr> = full s' p l"
  "since (full s p []) (full s' p' l) = l" "w_fs (full s p l) = s" "full s p l = full s' p' l' \<longleftrightarrow> s = s' \<and> p = p' \<and> l = l'"
  by (simp_all add: full_def calm_world_def k_call_def since_def Let_def)

text \<open>Operations that this host carries out.\<close>

definition smooth :: "'a act \<Rightarrow> bool" where
  "smooth m \<longleftrightarrow> (\<forall>s p l. \<exists>x l'. m (full s p l) = Some (Ok x, full s p (l @ l')))"

lemma smooth_basic: "smooth (w_ok x)" "smooth (w_lift (Ok x))" "smooth (w_fault f)"
  by (auto simp: smooth_def w_ok_def w_lift_def w_fault_def w_get_def)

lemma smooth_try:
  assumes "smooth m" "\<And>x. smooth (f (Ok x))"
  shows "smooth (w_try m f)"
  unfolding smooth_def
proof (intro allI)
  fix s p l
  obtain x l1 where 1: "m (full s p l) = Some (Ok x, full s p (l @ l1))" using assms(1) unfolding smooth_def by blast
  obtain y l2 where 2: "f (Ok x) (full s p (l @ l1)) = Some (Ok y, full s p ((l @ l1) @ l2))" using assms(2) unfolding smooth_def by blast
  show "\<exists>x l'. w_try m f (full s p l) = Some (Ok x, full s p (l @ l'))" using 1 2 by (simp add: w_try_def)
qed

lemma smooth_bind: "smooth m \<Longrightarrow> (\<And>x. smooth (f x)) \<Longrightarrow> smooth (w_bind m f)"
  unfolding w_bind_try by (rule smooth_try) simp_all

lemma smooth_call: "smooth (f (full_host c)) \<Longrightarrow> smooth (w_call c f)"
proof -
  assume f: "smooth (f (full_host c))"
  have "\<exists>x l'. f (full_host c) (full s p (l @ [(c, full_host c)])) = Some (Ok x, full s p (l @ l'))" for s p l
    using f unfolding smooth_def by (metis append.assoc)
  then show ?thesis by (simp add: smooth_def w_call_def)
qed

lemma smooth_sys: "dec (full_host c) = Ok x \<Longrightarrow> smooth (w_sys c dec conv)"
  unfolding w_sys_def by (rule smooth_call) (auto simp: smooth_def w_get_def w_lift_def)

lemma smooth_derived: "smooth m \<Longrightarrow> smooth (w_ignore m)" "smooth m \<Longrightarrow> smooth (w_map_err g m)"
  unfolding w_ignore_def w_map_err_def by (auto intro!: smooth_try smooth_basic)

lemma smooth_each: "list_all (\<lambda>x. smooth (f x)) xs \<Longrightarrow> smooth (w_each f xs)"
  by (induction xs) (auto intro: smooth_basic smooth_bind)

lemma smooth_if: "(c \<Longrightarrow> smooth a) \<Longrightarrow> (\<not> c \<Longrightarrow> smooth b) \<Longrightarrow> smooth (if c then a else b)"
  by simp

lemma smooth_exists: "smooth (k_exists p)"
  unfolding k_exists_def by (intro smooth_call smooth_basic)

lemmas smooth_intros = smooth_basic smooth_bind smooth_call smooth_sys smooth_derived smooth_each smooth_exists

abbreviation clean :: "string \<Rightarrow> bool" where
  "clean p \<equiv> CHR 0x00 \<notin> set p"

lemma smooth_cstr: "clean p \<Longrightarrow> smooth (w_lift (cstr p))"
  by (simp add: cstr_def smooth_basic)

lemma smooth_opt_cstr: "(case q of None \<Rightarrow> True | Some p \<Rightarrow> clean p) \<Longrightarrow> smooth (w_lift (opt_cstr q))"
  by (cases q) (simp_all add: opt_cstr_def smooth_cstr smooth_basic)

lemma smooth_mount:
  "clean b \<Longrightarrow> list_all clean (List.map_filter (\<lambda>x. x) [a, c, e]) \<Longrightarrow> smooth (m_mount a b c d e)"
  unfolding m_mount_def
  by (intro smooth_bind smooth_sys smooth_opt_cstr smooth_cstr) (auto simp: full_host_def map_filter_simps split: option.splits)

lemma smooth_exist: "\<not> failed (full_host c) \<Longrightarrow> smooth (w_sys_exist c n t)"
  unfolding w_sys_exist_def by (rule smooth_call) (cases "full_host c"; simp add: smooth_basic)

lemma smooth_paths:
  "clean p \<Longrightarrow> smooth (m_mkdir p n)" "clean p \<Longrightarrow> smooth (m_touch p)" "clean p \<Longrightarrow> smooth (mknod_char p n i j)"
  "clean p \<Longrightarrow> clean q \<Longrightarrow> smooth (m_symlink p q)" "clean p \<Longrightarrow> smooth (m_chdir p)" "clean p \<Longrightarrow> clean q \<Longrightarrow> smooth (m_pivot_root p q)"
  "clean p \<Longrightarrow> smooth (m_umount p f)" "list_all clean (component_paths p) \<Longrightarrow> smooth (m_mkdir_p p n)"
proof -
  show d: "clean p \<Longrightarrow> smooth (m_mkdir p n)" for p n unfolding m_mkdir_def by (intro smooth_bind smooth_cstr smooth_exist) (simp_all add: full_host_def)
  show "list_all clean (component_paths p) \<Longrightarrow> smooth (m_mkdir_p p n)"
    unfolding m_mkdir_p_def using d by (intro smooth_each) (simp add: list_all_iff)
qed (unfold m_touch_def mknod_char_def m_symlink_def m_chdir_def m_pivot_root_def m_umount_def,
  (intro smooth_bind smooth_cstr smooth_exist smooth_sys; simp add: full_host_def)+)

lemma smooth_binds: "clean p \<Longrightarrow> clean q \<Longrightarrow> smooth (m_bind p q r)" "clean p \<Longrightarrow> smooth (make_rprivate p)" "clean p \<Longrightarrow> smooth (remount_ro p x)"
  unfolding m_bind_def make_rprivate_def remount_ro_def by (intro smooth_mount; simp add: map_filter_simps)+

lemma init_paths:
  "root_join ''/b'' ''proc'' = ''/b/proc''" "root_join ''/b'' ''sys'' = ''/b/sys''" "root_join ''/b'' ''dev'' = ''/b/dev''" "root_join ''/b'' ''tmp'' = ''/b/tmp''"
  "path_join ''/b/dev'' ''pts'' = ''/b/dev/pts''" "path_join ''/b/dev'' ''shm'' = ''/b/dev/shm''" "path_join ''/b/dev'' ''mqueue'' = ''/b/dev/mqueue''"
  "path_join ''/b/dev'' ''ptmx'' = ''/b/dev/ptmx''"
  by code_simp+

lemma init_components:
  "list_all (\<lambda>p. list_all clean (component_paths p)) [''/b/proc'', ''/b/sys'', ''/b/dev'', ''/b/dev/pts'', ''/b/dev/shm'', ''/b/dev/mqueue'', ''/b/tmp'']"
  "list_all (\<lambda>(n, _). clean (path_join ''/b/dev'' n)) DEVICES" "list_all (\<lambda>(t, n). clean t \<and> clean (path_join ''/b/dev'' n)) DEV_SYMLINKS"
  by code_simp+

lemma smooth_devices: "smooth (make_devices ''/b/dev'')"
proof -
  have "smooth (make_device ''/b/dev'' d)" if "d \<in> set DEVICES" for d
    using that init_components(2) unfolding make_device_def Let_def case_prod_beta
    by (intro smooth_try smooth_paths) (auto simp: list_all_iff smooth_basic)
  moreover have "smooth (make_link ''/b/dev'' d)" if "d \<in> set DEV_SYMLINKS" for d
    using that init_components(3) unfolding make_link_def Let_def case_prod_beta
    by (intro smooth_intros smooth_if smooth_paths) (auto simp: list_all_iff)
  ultimately show ?thesis unfolding make_devices_def Let_def init_paths
    by (intro smooth_intros smooth_paths) (auto simp: list_all_iff)
qed

lemma smooth_standard: "smooth (mount_standard ''/b'' init_config)"
proof -
  have d: "smooth (m_mkdir_p p n)" if "p \<in> {''/b/proc'', ''/b/sys'', ''/b/dev'', ''/b/dev/pts'', ''/b/dev/shm'', ''/b/dev/mqueue'', ''/b/tmp''}" for p n
    using that init_components(1) by (intro smooth_paths) (auto simp: list_all_iff)
  have m: "c_mounts init_config = []" by (simp add: init_config_def config_default_def)
  have y: "smooth (mount_sys ''/b/sys'')"
    unfolding mount_sys_def by (intro smooth_try smooth_mount) (auto simp: map_filter_simps smooth_basic)
  show ?thesis
    unfolding mount_standard_def Let_def init_paths mount_volumes_def m w_each.simps
    by (intro smooth_bind smooth_basic smooth_derived y smooth_devices smooth_mount d) (simp_all add: map_filter_simps)
qed

lemma smooth_masks: "smooth (mask_paths ps)" "list_all clean qs \<Longrightarrow> smooth (readonly_paths qs)"
proof -
  have "smooth (mask_path p)" for p
    unfolding mask_path_def by (rule smooth_call) (simp add: full_host_def smooth_basic)
  then show "smooth (mask_paths ps)" unfolding mask_paths_def by (intro smooth_each) (simp add: list_all_iff)
  have "smooth (readonly_path p)" if "clean p" for p
    unfolding readonly_path_def using that
    by (intro smooth_bind smooth_exists smooth_if smooth_basic smooth_try smooth_binds) (auto intro: smooth_derived smooth_binds)
  then show "list_all clean qs \<Longrightarrow> smooth (readonly_paths qs)" unfolding readonly_paths_def by (intro smooth_each) (simp add: list_all_iff)
qed

lemma smooth_fs_setup: "smooth (fs_setup init_config)"
proof -
  have c: "c_rootfs init_config = ''/b''" "c_read_only init_config = False" "s_privileged (c_security init_config) = False"
    by (simp_all add: init_config_def config_default_def security_default_def)
  have r: "list_all clean (s_readonly_paths (c_security init_config))" by code_simp
  show ?thesis unfolding fs_setup_def Let_def c if_False
    by (intro smooth_bind smooth_basic smooth_standard smooth_masks smooth_binds smooth_paths) (simp_all add: r)
qed

lemma smooth_caps: "smooth (w_caps_apply keep)"
proof -
  have e: "reply_errno (full_host (KSec x)) = None" if "\<forall>y. x \<noteq> SSignalFd y" for x using that by (cases x) (simp_all add: full_host_def)
  have b: "drop_bounding world_caps keep [0] (full s p l) = (Ok (), full s p (l @ (if keep AND shl1 0 \<noteq> 0 then [] else [(KSec (SBoundDrop 0), full_host (KSec (SBoundDrop 0)))])))" for s p l
    by (simp add: world_caps_def e)
  have a: "sys_ambient_clear world_caps (full s p l) = (None, full s p (l @ [(KSec SAmbientClear, full_host (KSec SAmbientClear))]))" for s p l
    by (simp add: world_caps_def e)
  have c: "\<exists>l'. set_caps world_caps keep keep 0 (full s p (l @ l1)) = (Ok (), full s p (l @ l'))" for s p l l1
    by (simp add: set_caps_def world_caps_def e)
  have lc: "last_cap (case full_host (KRead LAST_CAP_FILE) of RData d \<Rightarrow> if utf8_valid d then Some d else None | _ \<Rightarrow> None) = 0"
    by (simp add: full_host_def) code_simp
  have cs: "map of_nat [0..<Suc (unat (0 :: u8))] = [0 :: u8]" by simp
  have "smooth (\<lambda>w. Some (caps_apply world_caps 0 keep w))"
    unfolding smooth_def caps_apply_def cs
    by (simp add: b a c del: drop_bounding.simps)
  then show ?thesis unfolding w_caps_apply_def by (intro smooth_call) (simp add: lc)
qed

lemma smooth_sec: "smooth (sec_apply X86_64 security_default)"
proof -
  have p: "is_ok (cap_mask security_default)" by code_simp
  obtain keep where k: "cap_mask security_default = Ok keep" using p by (cases "cap_mask security_default") auto
  obtain prog where f: "build_filter X86_64 Default = Ok prog" using build_filter_nth [of X86_64 Default] by blast
  have "sec_precheck security_default = Ok ()" by (simp add: sec_precheck_def k) (simp add: security_default_def)
  then have "smooth (w_lift (sec_precheck security_default))" by (simp add: smooth_basic)
  then show ?thesis unfolding sec_apply_def k set_no_new_privs_def w_seccomp_install_def
    by (intro smooth_bind smooth_if smooth_caps smooth_basic smooth_sys) (auto simp: full_host_def security_default_def f intro: smooth_basic)
qed

lemma smooth_init_setup: "smooth (init_setup X86_64 init_config ns)"
proof -
  have c: "c_security init_config = security_default" "ns_net (c_namespaces init_config) = False" "ns_uts (c_namespaces init_config) = True" "c_cwd init_config = ''/''"
    "c_hostname init_config = []"
    by (simp_all add: init_config_def config_default_def namespaces_default_def)
  have "smooth (write_resolver_files init_config ns)"
    unfolding write_resolver_files_def k_write_file_def
    by (intro smooth_try smooth_sys) (auto simp: full_host_def intro!: smooth_bind smooth_derived smooth_if smooth_basic smooth_sys)
  then show ?thesis unfolding init_setup_def c if_True if_False enter_cwd_def sethostname_str_def
    by (intro smooth_bind smooth_derived smooth_fs_setup smooth_sec smooth_basic smooth_paths smooth_cstr smooth_sys) (simp_all add: full_host_def)
qed

section \<open>The run\<close>

definition after_ready :: pipe where
  "after_ready = init_pipe\<lparr>p_out := frame TAG_READY []\<rparr>"

definition after_go :: pipe where
  "after_go = after_ready\<lparr>p_in := []\<rparr>"

lemma init_pipes: "send_tag TAG_READY init_pipe = (Ok (), after_ready)" "ipc_expect TAG_GO after_ready = Some (Ok [], after_go)"
  by code_simp+

lemma init_config_file: "read_to_string ''/c/config.json'' init_files = (Ok (json_to_string_pretty (config_to_json init_config)), init_files\<lparr>fs_tick := Suc 0\<rparr>)"
  and init_config_parsed: "json_parse (json_to_string_pretty (config_to_json init_config)) = Ok (config_to_json init_config)"
    "config_from_json (config_to_json init_config) = Ok init_config"
proof -
  have j: "plain_json (config_to_json init_config)" by (rule ascii_json_plain) code_simp
  then show "json_parse (json_to_string_pretty (config_to_json init_config)) = Ok (config_to_json init_config)"
    unfolding json_to_string_pretty_def by (rule json_parse_write)
  have "limits_fit (c_resources init_config)" "c_labels init_config = []" "c_detach init_config = False" "c_env init_config = c_env config_default"
    by (simp_all add: init_config_def config_default_def resources_default_def limits_fit_def fits_def)
  then show "config_from_json (config_to_json init_config) = Ok init_config"
    using config_roundtrip [of init_config] config_default_env_ok by simp
  have v: "utf8_valid (json_to_string_pretty (config_to_json init_config))" unfolding json_to_string_pretty_def by (rule json_write_valid [OF j])
  show "read_to_string ''/c/config.json'' init_files = (Ok (json_to_string_pretty (config_to_json init_config)), init_files\<lparr>fs_tick := Suc 0\<rparr>)"
    using v by (simp add: read_to_string_def io_bind_def io_from_def os_read_def sys_call_def init_files_def empty_fs_def file_of_def io_ok_def)
qed

lemma init_run_until_fork:
  obtains r s before where "init_run X86_64 ''/c'' (full init_files init_pipe []) = Some (r, full s after_go (before @ [(KProc PFork, RFail 11)]))"
proof -
  have cf: "init_read_config ''/c'' (full init_files init_pipe []) = Some (Ok init_config, full (init_files\<lparr>fs_tick := Suc 0\<rparr>) init_pipe [])"
    by (simp add: init_read_config_def path_join_def ends_with_def w_bind_def on_fs_def init_config_file w_lift_def init_config_parsed)
  obtain s ns l1 where li: "init_listen ''/c'' (full (init_files\<lparr>fs_tick := Suc 0\<rparr>) init_pipe []) = Some (Ok ns, full s after_go l1)"
    by (cases "read_to_string (path_join ''/c'' ''netstate.json'') (init_files\<lparr>fs_tick := Suc 0\<rparr>)")
       (auto simp: init_listen_def read_network_state_def w_send_def w_expect_def w_chan_op_def init_pipes w_bind_def w_try_def w_ok_def
         w_fault_def w_get_def w_lift_def on_fs_def)
  obtain l2 x2 where se: "init_setup X86_64 init_config ns (full s after_go l1) = Some (Ok x2, full s after_go (l1 @ l2))"
    using smooth_init_setup unfolding smooth_def by blast
  have "smooth init_signals" unfolding init_signals_def sig_block_def signal_fd_new_def
    by (intro smooth_bind smooth_basic smooth_sys) (simp_all add: full_host_def)
  then obtain l3 x3 where si: "init_signals (full s after_go (l1 @ l2)) = Some (Ok x3, full s after_go ((l1 @ l2) @ l3))"
    unfolding smooth_def by blast
  let ?l = "((l1 @ l2) @ l3) @ [(KStat ''/s'', RStat False True)]"
  have ex: "resolve_exe ''/s'' p (full s after_go ((l1 @ l2) @ l3)) = Some (Ok ''/s'', full s after_go ?l)" for p
    by (simp add: resolve_exe_def is_executable_def w_bind_def w_call_def w_ok_def full_host_def)
  have nn: "w_each (no_nul t) xs w = Some (Ok (), w)" if "list_all clean xs" for t xs w
    using that by (induction xs) (auto simp: w_ok_def w_bind_def no_nul_def)
  have cl: "list_all clean (c_command init_config)" "list_all clean (c_env init_config)" by code_simp+
  have cm: "c_command init_config = [''/s'']" by (simp add: init_config_def)
  have "init_rest init_config x3 (full s after_go ((l1 @ l2) @ l3)) =
      Some (Err (Syscall ''fork'' 11 []), full s after_go (?l @ [(KProc PFork, RFail 11)]))"
    using nn [OF cl(1)] nn [OF cl(2)]
    by (simp add: init_rest_def spawn_workload_def cm w_bind_def ex [simplified] no_nul_def w_ok_def fork_process_def w_sys_def w_call_def full_host_def
      w_get_def w_lift_def chk_def)
  then have "init_run X86_64 ''/c'' (full init_files init_pipe []) =
      Some (Err (Syscall ''fork'' 11 []), full s after_go (?l @ [(KProc PFork, RFail 11)]))"
    using si by (simp add: init_run_phases w_bind_def cf li se)
  then show thesis by (rule that)
qed

theorem workload_starts_confined_witness:
  "\<exists>r w' before x. init_run X86_64 ''/c'' (full init_files init_pipe []) = Some (r, w') \<and> w_log w' = before @ [(KProc PFork, x)] \<and>
     succeeded (KRecv TAG_GO) before \<and> succeeded (KMnt (MPivot ''.'' ''.'')) before \<and> masked ''/proc/kcore'' before \<and>
     succeeded (KSec SNoNewPrivs) before \<and> (\<exists>prog. succeeded (KSec (SSeccomp prog)) before)"
proof -
  obtain r s before where run: "init_run X86_64 ''/c'' (full init_files init_pipe []) = Some (r, full s after_go (before @ [(KProc PFork, RFail 11)]))"
    by (rule init_run_until_fork)
  have cf: "init_read_config ''/c'' (full init_files init_pipe []) = Some (Ok init_config, full (init_files\<lparr>fs_tick := Suc 0\<rparr>) init_pipe [])"
    by (simp add: init_read_config_def path_join_def ends_with_def w_bind_def on_fs_def init_config_file w_lift_def init_config_parsed)
  have sec: "s_no_new_privs (c_security init_config)" "\<not> s_privileged (c_security init_config)" "s_seccomp (c_security init_config) = Default"
      "''/proc/kcore'' \<in> set (s_masked_paths (c_security init_config))"
    by (simp_all add: init_config_def config_default_def security_default_def DEFAULT_MASKED_PATHS_def)
  obtain go root sec where w: "before = go @ root @ sec" "succeeded (KRecv TAG_GO) go" "moved_in (c_security init_config) root"
      "hardened X86_64 (c_security init_config) sec"
    using workload_starts_confined [OF run, of before "RFail 11" "[]"] cf sec(2) by auto
  have "succeeded (KSec SNoNewPrivs) sec" "\<exists>prog. succeeded (KSec (SSeccomp prog)) sec" using w(4) sec unfolding hardened_def by auto
  moreover have "masked ''/proc/kcore'' root" "succeeded (KMnt (MPivot ''.'' ''.'')) root"
    using w(3) sec(2,4) masked_more [of "''/proc/kcore''" _ _ "[]"] unfolding moved_in_def by (metis append_Nil2 append_assoc, auto)
  ultimately show ?thesis using run w(1,2) masked_more [of "''/proc/kcore''" root go sec]
    by (intro exI [of _ r] exI [of _ "full s after_go (before @ [(KProc PFork, RFail 11)])"] exI [of _ before]) auto
qed

end
