(* ===== verification/Launch_Run.thy ===== *)
theory Launch_Run
  imports Launch_Order
begin

text \<open>
  A launch that succeeds, on a host with control groups whose kernel does not know \<open>clone3\<close>: the
  fallback to \<open>clone\<close> makes the process.
\<close>

definition old_host :: "kcall \<Rightarrow> reply" where
  "old_host c = (case c of
      KRead p \<Rightarrow> if p = ''/proc/self/exe'' then RData ''E''
        else if p = ''/proc/self/mountinfo'' then RData ''1 1 0 / /c r a - cgroup2 x'' else RFail 2
    | KStat _ \<Rightarrow> RFail 2
    | KFd f \<Rightarrow> (case f of FMemfd \<Rightarrow> RNum 5 | FWrite _ _ \<Rightarrow> RNum 1 | FSocketpair \<Rightarrow> RFds 6 7 | FDupFd _ \<Rightarrow> RNum 10
        | FOpen _ _ \<Rightarrow> RNum 9 | _ \<Rightarrow> RDone)
    | KProc p \<Rightarrow> (case p of PClone3 _ _ _ _ \<Rightarrow> RFail 38 | PClone _ _ \<Rightarrow> RFds 42 8 | _ \<Rightarrow> RDone)
    | _ \<Rightarrow> RDone)"

definition pipe0 :: pipe where
  "pipe0 = empty_pipe\<lparr>p_in := frame TAG_READY [] @ frame TAG_STARTED []\<rparr>"

definition pipe1 :: pipe where
  "pipe1 = empty_pipe\<lparr>p_in := frame TAG_STARTED []\<rparr>"

definition pipe2 :: pipe where
  "pipe2 = pipe1\<lparr>p_out := frame TAG_GO []\<rparr>"

definition pipe3 :: pipe where
  "pipe3 = pipe2\<lparr>p_in := []\<rparr>"

lemma pipes:
  "ipc_expect TAG_READY pipe0 = Some (Ok [], pipe1)" "send_tag TAG_GO pipe1 = (Ok (), pipe2)"
  "ipc_expect TAG_STARTED pipe2 = Some (Ok [], pipe3)"
  by code_simp+

definition run_fs :: fs where
  "run_fs = empty_fs\<lparr>fs_dirs := [''/r/containers/c1'', ''/r/containers'', ''/r'']\<rparr>"

definition limited_state :: container_state where
  "limited_state = ready_state\<lparr>cs_config := config_default\<lparr>c_resources := demo_resources,
     c_network := network_default\<lparr>n_mode := NetNone\<rparr>\<rparr>\<rparr>"

definition old :: "fs \<Rightarrow> pipe \<Rightarrow> klog \<Rightarrow> world" where
  "old s p l = (calm_world s p old_host (\<lambda>_. None))\<lparr>w_log := l\<rparr>"

lemma old_simps [simp]:
  "k_call c (old s p l) = (old_host c, old s p (l @ [(c, old_host c)]))" "w_env (old s p l) = (\<lambda>_. None)" "w_chan (old s p l) = p"
  "w_log (old s p l) = l" "(old s p l)\<lparr>w_chan := p', w_log := l'\<rparr> = old s p' l'" "(old s p l)\<lparr>w_fs := s'\<rparr> = old s' p l"
  "since (old s p []) (old s' p' l) = l" "w_fs (old s p l) = s" "old s p l = old s' p' l' \<longleftrightarrow> s = s' \<and> p = p' \<and> l = l'"
  by (simp_all add: old_def calm_world_def k_call_def since_def Let_def)

definition old_group :: cgroup where
  "old_group = \<lparr>cg_path = ''/c/myrun/c1'', cg_enabled = WANTED\<rparr>"

text \<open>No call writes the member list of the group, and no \<open>clone3\<close> succeeds.\<close>

definition never_moved :: "kcall \<times> reply \<Rightarrow> bool" where
  "never_moved e \<longleftrightarrow> (case fst e of KWrite p _ \<Rightarrow> p \<noteq> ''/c/myrun/c1/cgroup.procs'' | KProc (PClone3 _ _ _ _) \<Rightarrow> failed (snd e) | _ \<Rightarrow> True)"

lemma old_cg:
  "\<exists>l'. cg_create ''c1'' demo_resources (old s p l) = Some (Ok old_group, old s p (l @ l')) \<and> list_all never_moved l'"
  by (simp add: world_run old_host_def demo_mountinfo demo_text cg_create_def cg_prepare_def mount_point_def
    find_cgroup2_mount_def mountinfo_for_def enable_subtree_def read_list_def WANTED_def path_join_def BASE_NAME_def
    required_for_def cg_make_leaf_def cg_finish_def cg_apply_def w_when_def ends_with_def demo_resources_def
    resources_default_def old_group_def w_fault_def cpu_max_value_def cg_write_if_def cg_has_def cg_write_def never_moved_def)

lemma run_args: "list_all (\<lambda>s. cstr s = Ok ()) ([''myrun-init'', ''__init'', store_dir ''/r'' ''c1''] @ init_environment (\<lambda>_. None))"
  "cstr ''/c/myrun/c1'' = Ok ()"
  by code_simp+

lemma old_clone:
  "\<exists>l'. launch_clone ''/r'' cfg ''c1'' (Some old_group) (old s p l) = Some (Ok (\<lparr>ch_pid = 42, ch_pidfd = 8\<rparr>, True), old s p (l @ l')) \<and>
     list_all never_moved l'"
  by (simp add: clone_run clone_child_legacy_def old_host_def plan_run [OF run_args(1)] cg_open_fd_def open_path_def old_group_def run_args(2)
    ENOSYS_def never_moved_def)

lemma old_adopt:
  "\<exists>l'. launch_adopt (Some old_group) \<lparr>ch_pid = 42, ch_pidfd = 8\<rparr> True (stack_of xs, st) (old s p l) =
     Some (Ok (Ok (), (stack_of (xs @ [(''container process'', undo_process 42)]), st\<lparr>cs_init_pid := 42, cs_init_start_time := 0\<rparr>)),
       old s p (l @ l')) \<and> list_all never_moved l'"
  by (simp add: launch_run old_host_def stat_text_def demo_stat never_moved_def)

text \<open>The files: the description of the network and the state are written without a failure.\<close>

lemma run_netstate:
  obtains t where "write_atomic 7 (path_join (store_dir ''/r'' ''c1'') ''netstate.json'') d run_fs = (Ok (), t)" "calm t"
    "store_ready ''/r'' 7 ''c1'' t"
proof -
  let ?p = "path_join (store_dir ''/r'' ''c1'') ''netstate.json''"
  have c: "calm run_fs" by (simp add: calm_def run_fs_def empty_fs_def)
  have d: "tmp_path 7 ?p \<notin> set (fs_dirs run_fs)" "?p \<notin> set (fs_dirs run_fs)" "dir_exists (path_parent (tmp_path 7 ?p)) run_fs"
    "dir_exists (path_parent ?p) run_fs" by code_simp+
  from write_atomic_calm [OF c d] obtain t where t: "write_atomic 7 ?p d run_fs = (Ok (), t)" "calm t" by blast
  note w = write_atomic_cases [OF t(1)]
  have n: "list_all (\<lambda>a. a \<noteq> ?p \<and> a \<noteq> tmp_path 7 ?p \<and> file_of run_fs a = None) (path_ancestors (store_dir ''/r'' ''c1''))"
    by code_simp
  then have "list_all (\<lambda>a. file_of t a = None) (path_ancestors (store_dir ''/r'' ''c1''))"
    using w by (simp add: list_all_iff)
  moreover have "list_all (\<lambda>p. p \<notin> set (fs_dirs run_fs) \<and> p \<notin> set (path_ancestors (store_dir ''/r'' ''c1'')))
      [state_path ''/r'' ''c1'', tmp_path 7 (state_path ''/r'' ''c1''), config_path ''/r'' ''c1'', tmp_path 7 (config_path ''/r'' ''c1'')]"
    by code_simp
  ultimately have "store_ready ''/r'' 7 ''c1'' t" using w unfolding store_ready_def by simp
  then show thesis using that t by blast
qed

lemma run_network:
  assumes "n_mode (c_network cfg) = NetNone" "cs_id st = ''c1''"
  obtains t xs' ns where "launch_network ''/r'' 7 cfg 42 (stack_of xs, st) (old run_fs p l) =
      Some (Ok (Ok (), (stack_of xs', st\<lparr>cs_network := ns\<rparr>)), old t p l)" "calm t" "store_ready ''/r'' 7 ''c1'' t"
proof -
  let ?ns = "network_state_default\<lparr>ns_mode := ''none''\<rparr>"
  obtain t where t: "write_atomic 7 (path_join (store_dir ''/r'' ''c1'') ''netstate.json'')
      (json_to_string_pretty (netstate_json ?ns)) run_fs = (Ok (), t)" "calm t" "store_ready ''/r'' 7 ''c1'' t"
    by (rule run_netstate)
  have "launch_network ''/r'' 7 cfg 42 (stack_of xs, st) (old run_fs p l) =
      Some (Ok (Ok (), (stack_of (xs @ [(''container network'', net_teardown ''/r'' 7 ''c1'' ?ns)]), st\<lparr>cs_network := ?ns\<rparr>)), old t p l)"
    using assms t(1) by (simp add: launch_network_def setup_host_def l_run l_push_def stack_push write_netstate_def)
  then show thesis using that t(2,3) by blast
qed

lemma run_go:
  assumes "cs_status st = Created" "cs_id st = ''c1''" "cs_started_at st = 0" "calm t" "store_ready ''/r'' 7 ''c1'' t"
  obtains st' t' rb' where "launch_go ''/r'' 7 (rb, st) (old t pipe1 l) =
      Some (Ok (Ok (), (rb_commit rb, st')), old t' pipe3 (l @ [(KSend TAG_GO, RDone), (KRecv TAG_STARTED, RDone)]))"
proof -
  let ?t = "t\<lparr>fs_tick := Suc (fs_tick t)\<rparr>"
  let ?st = "st\<lparr>cs_status := Running, cs_started_at := fs_clock t (fs_tick t)\<rparr>"
  have tr: "l_transition Running st (old t p l) = Some (Ok (Ok (), ?st), old ?t p l)" for p l
    using assms by (simp add: l_transition_def w_try_def on_fs_def w_ok_def transition_def can_transition_to_def Let_def stamp_started_def now_ms_def)
  have "calm ?t" "store_ready ''/r'' 7 ''c1'' ?t" using assms by (simp_all add: calm_tick store_ready_def file_of_def)
  moreover have "validate_id ''c1'' = Ok ()" by code_simp
  ultimately obtain t' where t': "store_save ''/r'' 7 (?st\<lparr>cs_error := None\<rparr>) ?t = (Ok (), t')"
    using store_save_calm [of ?t "?st\<lparr>cs_error := None\<rparr>" "''/r''" 7] assms(2) by (simp, blast)
  have "launch_go ''/r'' 7 (rb, st) (old t pipe1 l) =
      Some (Ok (Ok (), (rb_commit rb, ?st\<lparr>cs_error := None\<rparr>)), old t' pipe3 (l @ [(KSend TAG_GO, RDone), (KRecv TAG_STARTED, RDone)]))"
    using t' by (simp add: launch_go_def l_run tr w_send_def w_expect_def w_chan_op_def pipes w_fault_def w_simps)
  then show thesis by (rule that)
qed

lemma l_bind_Ok: "m s w = Some (Ok (Ok x, s'), w') \<Longrightarrow> l_bind m f s w = f x s' w'"
  by (simp add: l_bind_def w_bind_def)

lemma l_do_Ok: "m w = Some (Ok x, w') \<Longrightarrow> l_bind (l_do m) f s w = f x s w'"
  by (simp add: l_bind_def l_do_def w_bind_def w_try_def w_ok_def)

lemma old_launch:
  "\<exists>st' t l. launch ''/r'' 7 limited_state (old run_fs pipe0 []) =
     Some (Ok (Ok \<lparr>ru_child = \<lparr>ch_pid = 42, ch_pidfd = 8\<rparr>, ru_cgroup = Some old_group\<rparr>, st'), old t pipe3 l) \<and> list_all never_moved l"
proof -
  let ?cfg = "cs_config limited_state"
  obtain l1 where l1: "cg_create ''c1'' demo_resources (old run_fs pipe0 []) = Some (Ok old_group, old run_fs pipe0 l1)" "list_all never_moved l1"
    using old_cg by fastforce
  obtain l2 where l2: "launch_clone ''/r'' ?cfg ''c1'' (Some old_group) (old run_fs pipe0 l1) =
      Some (Ok (\<lparr>ch_pid = 42, ch_pidfd = 8\<rparr>, True), old run_fs pipe0 (l1 @ l2))" "list_all never_moved l2" using old_clone by blast
  let ?st1 = "limited_state\<lparr>cs_cgroup_path := Some (cg_path old_group)\<rparr>"
  let ?st2 = "?st1\<lparr>cs_init_pid := 42, cs_init_start_time := 0\<rparr>"
  let ?xs = "[(''cgroup'', undo_cgroup (cg_path old_group))]"
  have i: "n_mode (c_network ?cfg) = NetNone" "cs_id ?st2 = ''c1''" "cs_status ?st2 = Created" "cs_started_at ?st2 = 0"
    "cs_status limited_state = Created" "cs_id limited_state = ''c1''" "c_resources ?cfg = demo_resources"
    by (simp_all add: limited_state_def ready_state_def)
  obtain l3 where l3: "launch_adopt (Some old_group) \<lparr>ch_pid = 42, ch_pidfd = 8\<rparr> True (stack_of ?xs, ?st1) (old run_fs pipe0 (l1 @ l2)) =
      Some (Ok (Ok (), (stack_of (?xs @ [(''container process'', undo_process 42)]), ?st2)), old run_fs pipe0 ((l1 @ l2) @ l3))"
    "list_all never_moved l3" using old_adopt by blast
  let ?l4 = "((l1 @ l2) @ l3) @ [(KRecv TAG_READY, RDone)]"
  obtain t xs' ns where n: "launch_network ''/r'' 7 ?cfg 42 (stack_of (?xs @ [(''container process'', undo_process 42)]), ?st2)
      (old run_fs pipe1 ?l4) = Some (Ok (Ok (), (stack_of xs', ?st2\<lparr>cs_network := ns\<rparr>)), old t pipe1 ?l4)" "calm t" "store_ready ''/r'' 7 ''c1'' t"
    by (rule run_network [OF i(1,2)])
  obtain st' t' where g: "launch_go ''/r'' 7 (stack_of xs', ?st2\<lparr>cs_network := ns\<rparr>) (old t pipe1 ?l4) =
      Some (Ok (Ok (), (rb_commit (stack_of xs'), st')), old t' pipe3 (?l4 @ [(KSend TAG_GO, RDone), (KRecv TAG_STARTED, RDone)]))"
    using run_go [of "?st2\<lparr>cs_network := ns\<rparr>" t "stack_of xs'" ?l4] i n(2,3) by auto
  have cg: "launch_cgroup ''c1'' demo_resources (rb_new, limited_state) (old run_fs pipe0 []) = Some (Ok (Ok (Some old_group), (stack_of ?xs, ?st1)), old run_fs pipe0 l1)"
    by (simp add: launch_cgroup_def l_try_def l_do_def l1(1) w_bind_def w_try_def w_ok_def l_run l_push_def stack_push stack_new)
  have e: "w_expect TAG_READY (old run_fs pipe0 ((l1 @ l2) @ l3)) = Some (Ok [], old run_fs pipe1 ?l4)"
    by (simp add: w_expect_def w_chan_op_def pipes)
  have "launch_steps ''/r'' 7 ''c1'' ?cfg (rb_new, limited_state) (old run_fs pipe0 []) =
      Some (Ok (Ok \<lparr>ru_child = \<lparr>ch_pid = 42, ch_pidfd = 8\<rparr>, ru_cgroup = Some old_group\<rparr>, (rb_commit (stack_of xs'), st')),
        old t' pipe3 (?l4 @ [(KSend TAG_GO, RDone), (KRecv TAG_STARTED, RDone)]))"
    unfolding launch_steps_def i l_bind_Ok [of "launch_cgroup ''c1'' demo_resources", OF cg]
      l_do_Ok [of "launch_clone ''/r'' ?cfg ''c1'' (Some old_group)", OF l2(1)] prod.case
      l_bind_Ok [of "launch_adopt (Some old_group) \<lparr>ch_pid = 42, ch_pidfd = 8\<rparr> True", OF l3(1)]
      l_do_Ok [of "w_expect TAG_READY", OF e] child.select_convs l_bind_Ok [of "launch_network ''/r'' 7 ?cfg 42", OF n(1)]
      l_bind_Ok [of "launch_go ''/r'' 7", OF g]
    by (simp add: l_ok_def w_ok_def)
  then have "launch ''/r'' 7 limited_state (old run_fs pipe0 []) =
      Some (Ok (Ok \<lparr>ru_child = \<lparr>ch_pid = 42, ch_pidfd = 8\<rparr>, ru_cgroup = Some old_group\<rparr>, st'),
        old t' pipe3 (?l4 @ [(KSend TAG_GO, RDone), (KRecv TAG_STARTED, RDone)]))"
    by (simp add: launch_def i l_rollback_def w_bind_def w_drop_committed w_ok_def)
  moreover have "list_all never_moved (?l4 @ [(KSend TAG_GO, RDone), (KRecv TAG_STARTED, RDone)])"
    using l1 l2 l3 by (simp add: never_moved_def)
  ultimately show ?thesis by blast
qed

theorem launched_in_order_witness:
  "\<exists>ru st' w'. launch ''/r'' 7 limited_state (old run_fs pipe0 []) = Some (Ok (Ok ru, st'), w') \<and> cs_status st' = Running \<and>
     saved_after_started ''/r'' 7 st' (old run_fs pipe0 []) w' \<and> (\<exists>before e after. w_log w' = before @ e # after \<and> succeeded (KWrite ''/c/myrun/c1/pids.max'' ''100'') before \<and>
       clones (ru_child ru) (fst e) (snd e))"
proof -
  obtain st' t l where l: "launch ''/r'' 7 limited_state (old run_fs pipe0 []) =
      Some (Ok (Ok \<lparr>ru_child = \<lparr>ch_pid = 42, ch_pidfd = 8\<rparr>, ru_cgroup = Some old_group\<rparr>, st'), old t pipe3 l)"
    using old_launch by blast
  from launched_in_order [OF l] obtain before c r prep where o: "l = before @ (c, r) # prep @ [(KSend TAG_GO, RDone), (KRecv TAG_STARTED, RDone)]"
    "confined (cs_config limited_state) (Some old_group) (old run_fs pipe0 []) before" "clones \<lparr>ch_pid = 42, ch_pidfd = 8\<rparr> c r" "cs_status st' = Running"
    "saved_after_started ''/r'' 7 st' (old run_fs pipe0 []) (old t pipe3 l)"
    by auto
  have "show_u64 100 = ''100''" by code_simp
  then have "(''pids.max'', ''100'') \<in> set (limit_plan (c_resources (cs_config limited_state)))"
    by (simp add: limited_state_def limit_plan_def demo_resources_def resources_default_def cpu_max_value_def)
  then have "succeeded (KWrite (path_join (cg_path old_group) ''pids.max'') ''100'') before"
    using o(2) by (auto simp: confined_def allow_missing_controllers_def list_all_iff)
  then have "succeeded (KWrite ''/c/myrun/c1/pids.max'' ''100'') before" by (simp add: old_group_def path_join_def ends_with_def)
  then show ?thesis using l o by (intro exI conjI) auto
qed

text \<open>
  The fallback loses the group: on a kernel without \<open>clone3\<close> a container with limits is
  launched successfully although its process is in no group, since only whether the group's
  descriptor could be opened decides if the process is moved afterwards, not whether the clone
  call placed it there.  No \<open>clone3\<close> call succeeded and no process id was ever written to the group.
\<close>

theorem fallback_clone_escapes_group:
  "\<exists>g ru st' w'. launch ''/r'' 7 limited_state (old run_fs pipe0 []) = Some (Ok (Ok ru, st'), w') \<and>
     ru_cgroup ru = Some g \<and> r_pids (c_resources (cs_config limited_state)) = Some 100 \<and>
     list_all (\<lambda>e. case fst e of KWrite p _ \<Rightarrow> p \<noteq> path_join (cg_path g) ''cgroup.procs''
        | KProc (PClone3 _ _ _ _) \<Rightarrow> failed (snd e) | _ \<Rightarrow> True) (w_log w')"
proof -
  obtain st' t l where l: "launch ''/r'' 7 limited_state (old run_fs pipe0 []) =
      Some (Ok (Ok \<lparr>ru_child = \<lparr>ch_pid = 42, ch_pidfd = 8\<rparr>, ru_cgroup = Some old_group\<rparr>, st'), old t pipe3 l)"
    "list_all never_moved l" using old_launch by blast
  have p: "path_join (cg_path old_group) ''cgroup.procs'' = ''/c/myrun/c1/cgroup.procs''"
    by (simp add: old_group_def path_join_def ends_with_def)
  have "r_pids (c_resources (cs_config limited_state)) = Some 100" by (simp add: limited_state_def demo_resources_def)
  moreover have "list_all (\<lambda>e. case fst e of KWrite p _ \<Rightarrow> p \<noteq> path_join (cg_path old_group) ''cgroup.procs''
        | KProc (PClone3 _ _ _ _) \<Rightarrow> failed (snd e) | _ \<Rightarrow> True) l" unfolding p using l(2) by (simp add: never_moved_def [abs_def])
  ultimately show ?thesis
    by (intro exI [of _ old_group] exI [of _ "\<lparr>ru_child = \<lparr>ch_pid = 42, ch_pidfd = 8\<rparr>, ru_cgroup = Some old_group\<rparr>"]
        exI [of _ st'] exI [of _ "old t pipe3 l"]) (simp add: l(1))
qed

end
