(* ===== verification/Netstate_Laws.thy ===== *)
theory Netstate_Laws
  imports Init Launch_Run
begin

text \<open>The description of the network that the supervisor hands to init through a file.\<close>

lemma netstate_json_roundtrip:
  "netstate_of_json (netstate_json ns) =
     network_state_default\<lparr>ns_mode := ns_mode ns, ns_container_veth := ns_container_veth ns, ns_ip := ns_ip ns,
       ns_gateway := ns_gateway ns, ns_prefix := ns_prefix ns\<rparr>"
proof -
  let ?j = "netstate_json ns"
  have g: "json_get ?j ''mode'' = Some (Str (ns_mode ns))" "json_get ?j ''ip'' = Some (opt_str (ns_ip ns))"
    "json_get ?j ''gateway'' = Some (opt_str (ns_gateway ns))" "json_get ?j ''container_veth'' = Some (opt_str (ns_container_veth ns))"
    "json_get ?j ''prefix'' = Some (JInt (ucast (ns_prefix ns)))"
    by (simp_all add: netstate_json_def json_simps del: json_get.simps)
  show ?thesis
    by (simp add: netstate_of_json_def g get_str_def get_u64_def json_simps comp_def)
qed

text \<open>
  C24: Init configures the network the supervisor set up: when the supervisor has written the
  description of the network, init, reading it without an I/O error, gets the mode, the
  interface, the address with its prefix and the gateway as they were, so that configuring the
  interface from what was read is the same as configuring it from the supervisor's own state.
\<close>

theorem init_configures_what_was_set_up:
  assumes "write_netstate root me st w = Some (Ok (), u)" "calm (w_fs u)" "plain_json (netstate_json (cs_network st))"
  shows "\<exists>ns u'. read_network_state (store_dir root (cs_id st)) u = Some (Ok ns, u') \<and>
    ns_mode ns = ns_mode (cs_network st) \<and> ns_ip ns = ns_ip (cs_network st) \<and> ns_prefix ns = ns_prefix (cs_network st) \<and>
    ns_gateway ns = ns_gateway (cs_network st) \<and> ns_container_veth ns = ns_container_veth (cs_network st) \<and>
    configure_inside ns = configure_inside (cs_network st)"
proof -
  let ?p = "path_join (store_dir root (cs_id st)) ''netstate.json''" and ?j = "netstate_json (cs_network st)"
  obtain s where s: "write_atomic me ?p (json_to_string_pretty ?j) (w_fs w) = (Ok (), s)" "w_fs u = s"
    using assms(1) by (auto simp: write_netstate_def on_fs_run)
  have f: "file_of s ?p = Some (json_to_string_pretty ?j)" using write_atomic_cases [OF s(1)] by simp
  have j: "json_parse (json_to_string_pretty ?j) = Ok ?j" "utf8_valid (json_to_string_pretty ?j)"
    unfolding json_to_string_pretty_def using json_parse_write [OF assms(3)] json_write_valid [OF assms(3)] by blast+
  have "read_to_string ?p s = (Ok (json_to_string_pretty ?j), s\<lparr>fs_tick := Suc (fs_tick s)\<rparr>)"
    using os_read_calm [OF assms(2) [unfolded s(2)] f] j(2) by (simp add: read_to_string_def io_bind_def io_from_def io_ok_def)
  then have "read_network_state (store_dir root (cs_id st)) u = Some (Ok (netstate_of_json ?j), u\<lparr>w_fs := s\<lparr>fs_tick := Suc (fs_tick s)\<rparr>\<rparr>)"
    by (simp add: read_network_state_def w_try_def on_fs_def s(2) w_ok_def j(1))
  then show ?thesis
    by (intro exI [of _ "netstate_of_json ?j"] exI [of _ "u\<lparr>w_fs := s\<lparr>fs_tick := Suc (fs_tick s)\<rparr>\<rparr>"])
       (simp add: netstate_json_roundtrip configure_inside_def)
qed

definition bridged :: container_state where
  "bridged = ready_state\<lparr>cs_network := network_state_default\<lparr>ns_mode := ''bridge'', ns_ip := Some ''10.0.0.2'', ns_prefix := 16,
     ns_gateway := Some ''10.0.0.1'', ns_container_veth := Some CONTAINER_IFNAME\<rparr>\<rparr>"

theorem init_configures_what_was_set_up_witness:
  "\<exists>u ns u'. write_netstate ''/r'' 7 bridged (old run_fs pipe0 []) = Some (Ok (), u) \<and>
     read_network_state (store_dir ''/r'' ''c1'') u = Some (Ok ns, u') \<and> ns_ip ns = Some ''10.0.0.2'' \<and> ns_prefix ns = 16"
proof -
  let ?d = "json_to_string_pretty (netstate_json (cs_network bridged))"
  obtain t where t: "write_atomic 7 (path_join (store_dir ''/r'' ''c1'') ''netstate.json'') ?d run_fs = (Ok (), t)" "calm t" by (rule run_netstate)
  have i: "cs_id bridged = ''c1''" by (simp add: bridged_def ready_state_def)
  have w: "write_netstate ''/r'' 7 bridged (old run_fs pipe0 []) = Some (Ok (), old t pipe0 [])"
    using t(1) i by (simp add: write_netstate_def on_fs_def)
  have "plain_json (netstate_json (cs_network bridged))" by (rule ascii_json_plain) code_simp
  then have "\<exists>ns u'. read_network_state (store_dir ''/r'' ''c1'') (old t pipe0 []) = Some (Ok ns, u') \<and>
      ns_ip ns = ns_ip (cs_network bridged) \<and> ns_prefix ns = ns_prefix (cs_network bridged)"
    using init_configures_what_was_set_up [OF w] t(2) i by auto
  moreover have "ns_ip (cs_network bridged) = Some ''10.0.0.2''" "ns_prefix (cs_network bridged) = 16" by (simp_all add: bridged_def)
  ultimately show ?thesis using w by auto
qed

end
