(* ===== verification/Shim.thy ===== *)
theory Shim
  imports Supervisor
begin

text \<open>
  \<open>src/runtime/shim.rs\<close>: the process that owns a detached container.
\<close>

section \<open>The notify pipe\<close>

definition NOTIFY_OK :: char where "NOTIFY_OK = CHR ''+''"
definition NOTIFY_ERR :: char where "NOTIFY_ERR = CHR ''-''"

text \<open>The write loop gives up at an error or when nothing is written.\<close>

fun notify_fuel :: "nat \<Rightarrow> int \<Rightarrow> string \<Rightarrow> unit act" where
  "notify_fuel 0 fd data = w_ok ()"
| "notify_fuel (Suc n) fd data =
     (if data = [] then w_ok ()
      else w_call (KFd (FWrite fd data)) (\<lambda>r. case reply_num r of
          Ok m \<Rightarrow> if m \<le> 0 then w_ok () else notify_fuel n fd (drop (nat m) data)
        | Err _ \<Rightarrow> w_ok ()))"

definition notify :: "int \<Rightarrow> char \<Rightarrow> string \<Rightarrow> unit act" where
  "notify fd status msg =
     (if fd < 0 then w_ok ()
      else w_bind (notify_fuel (length msg + 1) fd (status # msg)) (\<lambda>_. close_fd fd))"

definition w_dup2 :: "int \<Rightarrow> int \<Rightarrow> unit act" where
  "w_dup2 a b = w_call (KFd (FDup2 a b)) (\<lambda>_. w_ok ())"

definition redirect_output :: "string \<Rightarrow> unit act" where
  "redirect_output log_file =
     w_bind (open_path log_file (O_WRONLY OR O_CREAT OR O_APPEND OR O_CLOEXEC)) (\<lambda>fd.
     w_bind (w_dup2 fd 1) (\<lambda>_.
     w_bind (w_dup2 fd 2) (\<lambda>_.
     w_bind (close_fd fd) (\<lambda>_.
     w_try (open_path ''/dev/null'' 0) (\<lambda>r. case r of
         Ok null \<Rightarrow> w_bind (w_dup2 null 0) (\<lambda>_. close_fd null)
       | Err _ \<Rightarrow> w_ok ())))))"

section \<open>The life of the shim\<close>

text \<open>The process writes with its own pid, \<open>me\<close>.\<close>

definition shim_run :: "string \<Rightarrow> nat \<Rightarrow> string \<Rightarrow> int \<Rightarrow> i32 act" where
  "shim_run root me state_dir notify_fd =
     w_bind (w_ignore w_setsid) (\<lambda>_.
     (let i = path_file_name state_dir in
      if i = [] then w_err (Usage ''shim needs a container state directory'')
      else
        w_bind (on_fs (store_open root)) (\<lambda>_.
        w_bind (on_fs (store_load root i)) (\<lambda>st.
        w_bind (redirect_output (log_path root i)) (\<lambda>_.
        w_bind (launch root me st) (\<lambda>(r, st1). case r of
          Err e \<Rightarrow>
            w_bind (on_fs (stopped_by_error st1 e)) (\<lambda>st2.
            w_bind (w_ignore (on_fs (store_save root me st2))) (\<lambda>_.
              w_err e))
        | Ok ru \<Rightarrow>
            (let st2 = st1\<lparr>cs_shim_pid := of_nat me\<rparr> in
             w_bind (on_fs (store_save root me st2)) (\<lambda>_.
             w_bind (notify notify_fd NOTIFY_OK (cs_id st2 @ '' '' @ show_int (sint (ch_pid (ru_child ru))))) (\<lambda>_.
             w_bind (wait_for_exit root me ru st2) (\<lambda>(x, st3).
             w_bind (w_lift x) (\<lambda>status.
             w_bind (sup_teardown root me st3) (\<lambda>st4.
             w_bind (if c_auto_remove (cs_config st4) then w_ignore (on_fs (store_remove root (cs_id st4))) else w_ok ()) (\<lambda>_.
               w_ok (status_exit_code status))))))))))))))"

definition shim_main :: "string \<Rightarrow> nat \<Rightarrow> string \<Rightarrow> int \<Rightarrow> unit act" where
  "shim_main root me state_dir notify_fd =
     w_call (KProc (PName ''myrun-shim'')) (\<lambda>_.
     w_try (shim_run root me state_dir notify_fd) (\<lambda>r. case r of
         Ok c \<Rightarrow> w_call (KProc (PExit c)) (\<lambda>_. w_ok ())
       | Err e \<Rightarrow> w_bind (notify notify_fd NOTIFY_ERR (display_error e)) (\<lambda>_.
           w_call (KProc (PExit (word_of_int (exit_code e)))) (\<lambda>_. w_ok ()))))"

section \<open>Asking for a shim\<close>

record spawned =
  sp_shim_pid :: i32
  sp_container_pid :: i32

definition FD_CLOEXEC :: i32 where "FD_CLOEXEC = 1"

definition set_cloexec :: "int \<Rightarrow> bool \<Rightarrow> unit act" where
  "set_cloexec fd on =
     w_bind (w_sys (KFd (FGetfd fd)) reply_num (chk ''fcntl'' ''F_GETFD'')) (\<lambda>cur.
     (let new = (if on then word_of_int cur OR FD_CLOEXEC else word_of_int cur AND NOT FD_CLOEXEC) in
      w_sys (KFd (FSetfd fd new)) reply_unit (chk ''fcntl'' ''F_SETFD'')))"

text \<open>\<open>spawn\<close> in the new process, whose pid is \<open>me\<close>, and below in its parent.\<close>

definition shim_child :: "string \<Rightarrow> nat \<Rightarrow> string \<Rightarrow> int \<Rightarrow> int \<Rightarrow> unit act" where
  "shim_child root me i read_fd write_fd =
     w_bind (close_fd read_fd) (\<lambda>_.
     w_bind (w_ignore (set_cloexec write_fd False)) (\<lambda>_.
       shim_main root me (store_dir root i) write_fd))"

text \<open>Reading the verdict into a buffer of 4096 bytes, until the end of the pipe.\<close>

partial_function (option) read_verdict :: "int \<Rightarrow> string \<Rightarrow> string act" where
  "read_verdict fd got w =
     (if length got = 4096 then Some (Ok got, w)
      else w_call (KFd (FRead fd (4096 - length got))) (\<lambda>r. case reply_data r of
          Ok d \<Rightarrow> if d = [] then w_ok got else read_verdict fd (got @ take (4096 - length got) d)
        | Err e \<Rightarrow> if e = EINTR then read_verdict fd got
            else w_bind (close_fd fd) (\<lambda>_. w_get (\<lambda>u. w_err (Io (''reading shim status: '' @ io_text u e))))) w)"

definition SHIM_SILENT :: string where
  "SHIM_SILENT = ''the container shim exited without reporting a status; check the container log for details''"

definition verdict_pid :: "string \<Rightarrow> i32" where
  "verdict_pid msg = (case split_whitespace msg of
      _ # p # _ \<Rightarrow> unwrap_or 0 (parse_i32 p) | _ \<Rightarrow> 0)"

definition shim_spawn :: "spawned act" where
  "shim_spawn =
     w_bind (w_sys (KFd FPipe) reply_fds (chk ''pipe2'' ''shim notify pipe'')) (\<lambda>(read_fd, write_fd).
     w_bind fork_process (\<lambda>pid.
     w_bind (close_fd write_fd) (\<lambda>_.
     w_bind (read_verdict read_fd []) (\<lambda>buf.
     w_bind (close_fd read_fd) (\<lambda>_.
       case buf of
         [] \<Rightarrow> w_bind (w_ignore (w_wait_pid pid WNOHANG)) (\<lambda>_. w_err (Container SHIM_SILENT))
       | b # rest \<Rightarrow>
           (let msg = lossy rest in
            if b = NOTIFY_ERR then w_bind (w_ignore (w_wait_pid pid WNOHANG)) (\<lambda>_. w_err (Container msg))
            else w_ok \<lparr>sp_shim_pid = pid, sp_container_pid = verdict_pid msg\<rparr>))))))"

end
