(* ===== verification/Lifecycle.thy ===== *)
theory Lifecycle
  imports Shim
begin

text \<open>
  \<open>src/runtime/lifecycle.rs\<close>: the verbs of the command line.  The lock of a container is taken
  with \<open>store_lock\<close> and given back when the operation returns; giving it back cannot fail.
\<close>

definition DEFAULT_STOP_TIMEOUT :: nat where "DEFAULT_STOP_TIMEOUT = 10"

definition cgroup_of :: "container_state \<Rightarrow> cgroup option act" where
  "cgroup_of st = (case cs_cgroup_path st of
      None \<Rightarrow> w_ok None
    | Some p \<Rightarrow> w_try (cg_attach p) (\<lambda>r. w_ok (case r of Ok cg \<Rightarrow> Some cg | Err _ \<Rightarrow> None)))"

definition the_container :: "string \<Rightarrow> status \<Rightarrow> string" where
  "the_container i s = ''container '' @ short_id i @ '' is '' @ status_as_str s"

definition w_lock :: "string \<Rightarrow> string \<Rightarrow> unit act" where
  "w_lock root i = with_lock (path_join (store_dir root i) ''lock'') (store_lock root i) (store_lock root i)"

section \<open>Start and signals\<close>

definition life_start :: "string \<Rightarrow> nat \<Rightarrow> string \<Rightarrow> container_state act" where
  "life_start root me i =
     w_bind (w_lock root i) (\<lambda>_.
     w_bind (load_reconciled root me i) (\<lambda>st.
     w_bind (case cs_status st of
         Created \<Rightarrow> w_ok ()
       | Running \<Rightarrow> w_err (InvalidState (''container '' @ short_id i @ '' is already running''))
       | Paused \<Rightarrow> w_err (InvalidState (''container '' @ short_id i @ '' is already running''))
       | s \<Rightarrow> w_err (InvalidState (the_container i s @ '' and cannot be started again; create a new one''))) (\<lambda>_.
     w_bind shim_spawn (\<lambda>sp.
     w_bind (on_fs (store_load root i)) (\<lambda>st1.
     (let st2 = st1\<lparr>cs_shim_pid := sp_shim_pid sp\<rparr> in
      w_bind (on_fs (store_save root me st2)) (\<lambda>_.
        w_ok st2)))))))"

text \<open>A paused container is thawed first.\<close>

definition thaw_if_paused :: "container_state \<Rightarrow> container_state act" where
  "thaw_if_paused st =
     (if cs_status st = Paused
      then w_bind (cgroup_of st) (\<lambda>cg.
           w_bind (case cg of Some g \<Rightarrow> w_ignore (cg_thaw g) | None \<Rightarrow> w_ok ()) (\<lambda>_.
             on_fs (transition Running st)))
      else w_ok st)"

definition life_kill :: "string \<Rightarrow> nat \<Rightarrow> string \<Rightarrow> i32 \<Rightarrow> bool \<Rightarrow> unit act" where
  "life_kill root me i signal all =
     w_bind (w_lock root i) (\<lambda>_.
     w_bind (load_reconciled root me i) (\<lambda>st.
     if \<not> is_live (cs_status st) then w_err (InvalidState (the_container i (cs_status st)))
     else
       w_bind (thaw_if_paused st) (\<lambda>st1.
       w_bind (if all \<and> signal = SIGKILL then cgroup_of st1 else w_ok None) (\<lambda>cg. case cg of
         Some g \<Rightarrow> w_bind (cg_kill_all g) (\<lambda>_. on_fs (store_save root me st1))
       | None \<Rightarrow>
           w_bind (w_map_err (\<lambda>e. Container (''signalling container '' @ short_id i @ '': '' @ display_error e))
             (kill_pid (cs_init_pid st1) signal)) (\<lambda>_.
             on_fs (store_save root me st1))))))"

section \<open>Stop\<close>

definition status_of_state :: "container_state \<Rightarrow> exit_status" where
  "status_of_state st = \<lparr>es_code = cs_exit_code st, es_signal = cs_exit_signal st\<rparr>"

text \<open>The wait for the shim to record the exit: at most a hundred looks.\<close>

fun await_shim :: "string \<Rightarrow> string \<Rightarrow> nat \<Rightarrow> exit_status option act" where
  "await_shim root i 0 = w_ok None"
| "await_shim root i (Suc n) =
     w_bind (on_fs (store_load root i)) (\<lambda>cur.
       if cs_status cur = Stopped \<and> cs_exit_code cur \<noteq> None then w_ok (Some (status_of_state cur))
       else w_bind (k_sleep 20) (\<lambda>_. await_shim root i n))"

definition finalize_stopped :: "string \<Rightarrow> nat \<Rightarrow> string \<Rightarrow> exit_status act" where
  "finalize_stopped root me i =
     w_bind (w_lock root i) (\<lambda>_.
     w_bind (on_fs (store_load root i)) (\<lambda>st.
     w_bind (w_init_is_alive st) (\<lambda>alive.
     if alive then w_err (Container (''container '' @ short_id i @ '' is still alive after being killed''))
     else
       w_bind (if sint (cs_shim_pid st) > 0 then w_process_alive (cs_shim_pid st) None else w_ok False) (\<lambda>shim.
       if shim
       then w_bind (await_shim root i 100) (\<lambda>r. case r of
            Some s \<Rightarrow> w_ok s
          | None \<Rightarrow> w_bind (on_fs (store_load root i)) (\<lambda>cur.
              w_bind (sup_teardown root me cur) (\<lambda>cur'. w_ok (status_of_state cur'))))
       else w_bind (sup_teardown root me st) (\<lambda>st'. w_ok (status_of_state st'))))))"

text \<open>
  The clock in milliseconds.  Adding a number of seconds to an \<open>Instant\<close> panics when the seconds do
  not fit in 63 bits.
\<close>

definition w_now :: "int act" where
  "w_now = w_call KNow (\<lambda>r. w_ok (case r of RNum n \<Rightarrow> n | _ \<Rightarrow> 0))"

definition deadline_after :: "nat \<Rightarrow> int act" where
  "deadline_after secs = w_bind w_now (\<lambda>t.
     w_panic (if t div 1000 + int secs < 2 ^ 63 then Some (t + int secs * 1000) else None))"

partial_function (option) stop_wait :: "string \<Rightarrow> string \<Rightarrow> int \<Rightarrow> bool act" where
  "stop_wait root i deadline w =
     w_bind w_now (\<lambda>t.
       if t < deadline
       then w_bind (on_fs (store_load root i)) (\<lambda>st.
            w_bind (w_init_is_alive st) (\<lambda>alive.
              if \<not> alive then w_ok True
              else w_bind (k_sleep 50) (\<lambda>_. stop_wait root i deadline)))
       else w_ok False) w"

fun await_dead :: "string \<Rightarrow> string \<Rightarrow> nat \<Rightarrow> unit act" where
  "await_dead root i 0 = w_ok ()"
| "await_dead root i (Suc n) =
     w_bind (on_fs (store_load root i)) (\<lambda>st.
     w_bind (w_init_is_alive st) (\<lambda>alive.
       if \<not> alive then w_ok () else w_bind (k_sleep 20) (\<lambda>_. await_dead root i n)))"

text \<open>The part under the first lock: \<open>Some\<close> is the early return.\<close>

definition stop_begin :: "string \<Rightarrow> nat \<Rightarrow> string \<Rightarrow> exit_status option act" where
  "stop_begin root me i =
     w_bind (w_lock root i) (\<lambda>_.
     w_bind (load_reconciled root me i) (\<lambda>st.
     if \<not> is_live (cs_status st) then w_ok (Some (status_of_state st))
     else
       w_bind (thaw_if_paused st) (\<lambda>st1.
       w_bind (on_fs (transition Stopping st1)) (\<lambda>st2.
       w_bind (on_fs (store_save root me st2)) (\<lambda>_.
       w_bind (w_ignore (kill_pid (cs_init_pid st2) SIGTERM)) (\<lambda>_.
         w_ok None))))))"

definition stop_kill :: "string \<Rightarrow> string \<Rightarrow> unit act" where
  "stop_kill root i =
     w_bind (w_lock root i) (\<lambda>_.
     w_bind (on_fs (store_load root i)) (\<lambda>st.
     w_bind (cgroup_of st) (\<lambda>cg. case cg of
       Some g \<Rightarrow> cg_kill_all g
     | None \<Rightarrow> w_ignore (kill_pid (cs_init_pid st) SIGKILL))))"

definition life_stop :: "string \<Rightarrow> nat \<Rightarrow> string \<Rightarrow> nat \<Rightarrow> exit_status act" where
  "life_stop root me i timeout_secs =
     w_bind (stop_begin root me i) (\<lambda>early. case early of
       Some s \<Rightarrow> w_ok s
     | None \<Rightarrow>
         w_bind (deadline_after timeout_secs) (\<lambda>deadline.
         w_bind (stop_wait root i deadline) (\<lambda>gone.
         if gone then finalize_stopped root me i
         else
           w_bind (stop_kill root i) (\<lambda>_.
           w_bind (await_dead root i 100) (\<lambda>_.
             finalize_stopped root me i)))))"

section \<open>Pause, delete, wait and logs\<close>

definition life_pause :: "string \<Rightarrow> nat \<Rightarrow> string \<Rightarrow> unit act" where
  "life_pause root me i =
     w_bind (w_lock root i) (\<lambda>_.
     w_bind (load_reconciled root me i) (\<lambda>st.
     if cs_status st \<noteq> Running then w_err (InvalidState (the_container i (cs_status st) @ '', not running''))
     else
       w_bind (cgroup_of st) (\<lambda>cg. case cg of
         None \<Rightarrow> w_err (Unsupported ''pausing needs a cgroup; this container was started without one'')
       | Some g \<Rightarrow>
           w_bind (cg_freeze g) (\<lambda>_.
           w_bind (on_fs (transition Paused st)) (\<lambda>st1.
             on_fs (store_save root me st1))))))"

definition life_unpause :: "string \<Rightarrow> nat \<Rightarrow> string \<Rightarrow> unit act" where
  "life_unpause root me i =
     w_bind (w_lock root i) (\<lambda>_.
     w_bind (load_reconciled root me i) (\<lambda>st.
     if cs_status st \<noteq> Paused then w_err (InvalidState (the_container i (cs_status st) @ '', not paused''))
     else
       w_bind (cgroup_of st) (\<lambda>cg. case cg of
         None \<Rightarrow> w_err (Unsupported ''this container has no cgroup to unfreeze'')
       | Some g \<Rightarrow>
           w_bind (cg_thaw g) (\<lambda>_.
           w_bind (on_fs (transition Running st)) (\<lambda>st1.
             on_fs (store_save root me st1))))))"

definition life_delete :: "string \<Rightarrow> nat \<Rightarrow> string \<Rightarrow> bool \<Rightarrow> unit act" where
  "life_delete root me i force =
     w_bind (w_lock root i) (\<lambda>_.
     w_bind (load_reconciled root me i) (\<lambda>st.
     w_bind (if \<not> is_live (cs_status st) then w_ok st
         else if \<not> force then w_err (InvalidState (the_container i (cs_status st) @ ''; stop it first or use --force''))
         else w_bind (life_stop root me i 5) (\<lambda>_. on_fs (store_load root i))) (\<lambda>st1.
     w_bind (w_lock root i) (\<lambda>_.
     w_bind (sup_teardown root me st1) (\<lambda>_.
       on_fs (store_remove root i))))))"

partial_function (option) wait_loop :: "string \<Rightarrow> nat \<Rightarrow> string \<Rightarrow> int option \<Rightarrow> exit_status act" where
  "wait_loop root me i deadline w =
     w_bind (on_fs (store_load root i)) (\<lambda>st.
     w_bind (w_reconcile root me st) (\<lambda>(_, st1).
       if \<not> is_live (cs_status st1) then w_ok (status_of_state st1)
       else w_bind (case deadline of None \<Rightarrow> w_ok False | Some d \<Rightarrow> w_bind w_now (\<lambda>t. w_ok (d \<le> t))) (\<lambda>late.
         if late then w_err (Container (''timed out waiting for container '' @ short_id i))
         else w_bind (k_sleep 100) (\<lambda>_. wait_loop root me i deadline)))) w"

definition life_wait :: "string \<Rightarrow> nat \<Rightarrow> string \<Rightarrow> nat option \<Rightarrow> exit_status act" where
  "life_wait root me i timeout =
     w_bind (case timeout of None \<Rightarrow> w_ok None | Some t \<Rightarrow> w_bind (deadline_after t) (\<lambda>d. w_ok (Some d)))
       (wait_loop root me i)"

definition tail_lines :: "nat \<Rightarrow> string \<Rightarrow> string" where
  "tail_lines n t = (let ls = str_lines t in str_join [CHR 0x0A] (drop (length ls - n) ls))"

definition life_logs :: "string \<Rightarrow> string \<Rightarrow> nat option \<Rightarrow> string act" where
  "life_logs root i tail =
     (let p = log_path root i in
      w_bind (on_fs (\<lambda>s. case os_exists p s of (b, s') \<Rightarrow> (Ok b, s'))) (\<lambda>there.
      if \<not> there then w_ok []
      else w_bind (on_fs (read_to_string p)) (\<lambda>t. w_ok (case tail of Some n \<Rightarrow> tail_lines n t | None \<Rightarrow> t))))"

end
