(* ===== verification/Exit_Laws.thy ===== *)
theory Exit_Laws
  imports Init_Laws
begin

text \<open>
  The end of a container: once init is gone the supervisor finishes, and it records the status
  that init reported.
\<close>

section \<open>A closed channel\<close>

lemma kernel_read_closed:
  assumes "kernel_read n p = (x, q)" "p_closed p"
  shows "p_closed q \<and> x \<noteq> KBlock \<and> (case x of KBytes b \<Rightarrow> length (p_in q) + length b = length (p_in p) | _ \<Rightarrow> p_in q = p_in p)"
  using assms by (auto simp: kernel_read_def Let_def split: sum.splits if_splits)

lemma read_loop_closed:
  assumes "p_closed p"
  shows "\<exists>r q. read_loop n out p = Some (r, q) \<and> p_closed q \<and>
    (\<forall>b. r = Ok (Some b) \<longrightarrow> length (p_in q) + length b = length (p_in p) + length out \<and> n \<le> length b)"
  using assms
proof (induction n out p rule: read_loop.induct)
  case (1 n out p)
  show ?case
  proof (cases "n \<le> length out")
    case True
    then show ?thesis using 1(3) by (subst read_loop.simps) simp
  next
    case False
    obtain x q where q: "kernel_read (n - length out) p = (x, q)" by fastforce
    note c = kernel_read_closed [OF q 1(3)]
    show ?thesis
    proof (cases x)
      case KBlock
      then show ?thesis using c by simp
    next
      case (KErr e)
      then show ?thesis using 1(1) [OF False q [symmetric], of e] False q c by (subst read_loop.simps) auto
    next
      case (KBytes b)
      show ?thesis
      proof (cases "b = []")
        case True
        then show ?thesis using False q c KBytes by (subst read_loop.simps) auto
      next
        case ne: False
        from 1(2) [OF False q [symmetric] KBytes ne] c show ?thesis
          using False q KBytes ne by (subst read_loop.simps) auto
      qed
    qed
  qed
qed

lemma recv_closed:
  assumes "p_closed p"
  shows "\<exists>r q. ipc_recv p = Some (r, q) \<and> p_closed q \<and> (\<forall>m. r = Ok (Some m) \<longrightarrow> length (p_in q) < length (p_in p))"
proof -
  obtain r q where q: "read_exact 5 p = Some (r, q)" "p_closed q"
    "\<forall>b. r = Ok (Some b) \<longrightarrow> length (p_in q) + length b = length (p_in p) \<and> 5 \<le> length b"
    using read_loop_closed [OF assms, of 5 "[]"] by (auto simp: read_exact_def)
  have more: "\<exists>r2 q2. read_exact n q = Some (r2, q2) \<and> p_closed q2 \<and> (\<forall>b. r2 = Ok (Some b) \<longrightarrow> length (p_in q2) \<le> length (p_in q))" for n
    using read_loop_closed [OF q(2), of n "[]"] by (fastforce simp: read_exact_def)
  show ?thesis
  proof (cases "\<exists>h. r = Ok (Some h)")
    case True
    then obtain h where h: "r = Ok (Some h)" by blast
    let ?len = "from_le32 (h ! 1) (h ! 2) (h ! 3) (h ! 4)"
    obtain r2 q2 where q2: "read_exact (unat ?len) q = Some (r2, q2)" "p_closed q2" "\<forall>b. r2 = Ok (Some b) \<longrightarrow> length (p_in q2) \<le> length (p_in q)"
      using more by blast
    have l: "length (p_in q) < length (p_in p)" using q(3) h by auto
    consider "?len > MAX_PAYLOAD" | "\<not> ?len > MAX_PAYLOAD" "?len = 0" | "\<not> ?len > MAX_PAYLOAD" "?len \<noteq> 0" by blast
    then show ?thesis
    proof cases
      case 3
      show ?thesis
      proof (cases r2)
        case (Ok o2)
        then show ?thesis using 3 q h l q2 by (cases o2) (auto simp: ipc_recv_def Let_def)
      qed (use 3 q h q2 in \<open>simp add: ipc_recv_def Let_def\<close>)
    qed (use q h l in \<open>simp_all add: ipc_recv_def Let_def\<close>)
  next
    case False
    show ?thesis
    proof (cases r)
      case (Ok o1)
      then show ?thesis using False q by (cases o1) (auto simp: ipc_recv_def)
    qed (use q in \<open>simp add: ipc_recv_def\<close>)
  qed
qed

lemma exit_loop_ends:
  assumes "p_closed (w_chan w)"
  shows "\<exists>r w'. exit_loop acc st w = Some (Ok r, w') \<and> w_fs w' = w_fs w \<and> later w w'"
  using assms
proof (induction "length (p_in (w_chan w))" arbitrary: acc st w rule: less_induct)
  case less
  obtain r q where q: "ipc_recv (w_chan w) = Some (r, q)" "p_closed q" "\<forall>m. r = Ok (Some m) \<longrightarrow> length (p_in q) < length (p_in (w_chan w))"
    using recv_closed [OF less(2)] by blast
  let ?u = "w\<lparr>w_chan := q, w_log := w_log w @ [(KRecv 0, case r of Ok _ \<Rightarrow> RDone | Err _ \<Rightarrow> RFail EIO)]\<rparr>"
  have rv: "w_recv w = Some (r, ?u)" using q(1) by (simp add: w_recv_def w_chan_op_def)
  have u: "later w ?u" "w_fs ?u = w_fs w" "p_closed (w_chan ?u)" using q(2) by (auto simp: later_def)
  show ?case
  proof (cases "\<exists>m. r = Ok (Some m)")
    case True
    then obtain tag payload where m: "r = Ok (Some (tag, payload))" by (metis surj_pair)
    then have lt: "length (p_in (w_chan ?u)) < length (p_in (w_chan w))" using q(3) by simp
    note ih = less(1) [OF lt u(3)]
    have step: "\<exists>acc' st'. exit_loop acc st w = exit_loop acc' st' ?u"
      by (subst exit_loop.simps) (auto simp: rv m)
    then obtain acc' st' where "exit_loop acc st w = exit_loop acc' st' ?u" by blast
    moreover obtain r' w' where "exit_loop acc' st' ?u = Some (Ok r', w')" "w_fs w' = w_fs ?u" "later ?u w'" using ih by blast
    ultimately show ?thesis using u later_trans by (intro exI [of _ r'] exI [of _ w']) auto
  next
    case False
    then have "exit_loop acc st w = Some (Ok (acc, st), ?u)"
      by (subst exit_loop.simps) (auto simp: rv split: result.splits option.splits)
    then show ?thesis using u by auto
  qed
qed

section \<open>Operations that always succeed and leave the files alone\<close>

definition looks :: "'a act \<Rightarrow> bool" where
  "looks m \<longleftrightarrow> (\<forall>w. \<exists>x w'. m w = Some (Ok x, w') \<and> w_fs w' = w_fs w \<and> later w w')"

lemma looks_ok: "looks (w_ok x)"
  by (simp add: looks_def w_ok_def)

lemma looks_bind:
  assumes "looks m" "\<And>x. looks (f x)"
  shows "looks (w_bind m f)"
  unfolding looks_def
proof
  fix w
  obtain x u where u: "m w = Some (Ok x, u)" "w_fs u = w_fs w" "later w u" using assms(1) unfolding looks_def by blast
  obtain y v where "f x u = Some (Ok y, v)" "w_fs v = w_fs u" "later u v" using assms(2) unfolding looks_def by blast
  then show "\<exists>x w'. w_bind m f w = Some (Ok x, w') \<and> w_fs w' = w_fs w \<and> later w w'"
    using u later_trans by (auto simp: w_bind_def)
qed

lemma looks_read: "looks (cg_read cg f)"
proof -
  have "\<exists>r w'. read_trimmed p w = Some (r, w') \<and> w_fs w' = w_fs w \<and> later w w'" for p w
  proof -
    obtain x u where u: "k_call (KRead p) w = (x, u)" by fastforce
    have "w_fs u = w_fs w" using u by (auto simp: k_call_def Let_def)
    then show ?thesis using u call_since [OF u]
      by (cases "reply_data x") (auto simp: read_trimmed_def k_read_to_string_def w_sys_def w_call_def w_get_def w_lift_def w_bind_def w_ok_def w_err_def)
  qed
  note rd = this
  have "looks (w_try (read_trimmed p) (\<lambda>r. w_ok (g r)))" for p and g :: "string res \<Rightarrow> string option"
    unfolding looks_def
  proof
    fix w
    obtain r w' where "read_trimmed p w = Some (r, w')" "w_fs w' = w_fs w" "later w w'" using rd by blast
    then show "\<exists>x w'. w_try (read_trimmed p) (\<lambda>r. w_ok (g r)) w = Some (Ok x, w') \<and> w_fs w' = w_fs w \<and> later w w'"
      by (simp add: w_try_def w_ok_def)
  qed
  then show ?thesis unfolding cg_read_def by blast
qed

lemma looks_oom: "looks (cg_was_oom_killed cg)"
  unfolding cg_was_oom_killed_def cg_stats_def cg_read_u64_def cg_keyed_value_def cg_read_keyed_def
  by (intro looks_bind looks_ok looks_read)

section \<open>Recording the end\<close>

text \<open>The outcomes of \<open>waitpid\<close> in an answer.\<close>

definition wait_results :: "reply \<Rightarrow> (int + i32 \<times> i32) list" where
  "wait_results r = (case r of RWait os \<Rightarrow> os | RFail e \<Rightarrow> [Inl e] | _ \<Rightarrow> [Inl EIO])"

lemma w_wait_pid_run:
  assumes "wait_pid (sint pid) (wait_results (w_answer w (w_log w) (KWait pid opt))) = Some r"
  shows "\<exists>w'. w_wait_pid pid opt w = Some (r, w') \<and> w_fs w' = w_fs w \<and> later w w'"
proof -
  let ?a = "w_answer w (w_log w) (KWait pid opt)"
  obtain u where u: "k_call (KWait pid opt) w = (?a, u)" "w_fs u = w_fs w" by (simp add: k_call_def Let_def)
  then show ?thesis using call_since [OF u(1)] assms
    by (auto simp: w_wait_pid_def w_call_def w_bind_def w_panic_def w_lift_def wait_results_def)
qed

definition final_status :: "exit_status option \<Rightarrow> (i32 \<times> exit_status) option \<Rightarrow> exit_status" where
  "final_status from_init waited = (case from_init of Some s \<Rightarrow> s
     | None \<Rightarrow> (case waited of Some (_, s) \<Rightarrow> s | None \<Rightarrow> \<lparr>es_code = Some (- 1), es_signal = None\<rparr>))"

lemma wait_for_exit_records:
  assumes "exit_loop None st w = Some (Ok (from_init, st1), w1)" "w_wait_pid (ch_pid (ru_child ru)) 0 w1 = Some (Ok waited, w2)"
  defines "status \<equiv> final_status from_init waited"
  obtains r st' w' where "wait_for_exit root me ru st w = Some (Ok (r, st'), w')"
    "cs_exit_code st' = es_code status" "cs_exit_signal st' = es_signal status" "cs_id st' = cs_id st1"
    "can_transition_to (cs_status st1) Stopped \<Longrightarrow> cs_status st' = Stopped"
    "(r = Ok status \<and> file_of (w_fs w') (state_path root (cs_id st')) = Some (json_to_string_pretty (state_to_json st'))) \<or> (\<exists>e. r = Err e)"
proof -
  let ?oom = "case ru_cgroup ru of Some cg \<Rightarrow> cg_was_oom_killed cg | None \<Rightarrow> w_ok False"
  have "looks ?oom" by (cases "ru_cgroup ru") (simp_all add: looks_ok looks_oom)
  then obtain oom w3 where o: "?oom w2 = Some (Ok oom, w3)" unfolding looks_def by blast
  let ?st2 = "if oom then st1\<lparr>cs_oom_killed := True\<rparr> else st1"
  obtain st3 s3 where rec: "record_exit status ?st2 (w_fs w3) = (st3, s3)" by fastforce
  obtain q s4 where tr: "transition Stopped st3 s3 = (q, s4)" by fastforce
  define st4 where "st4 = (case q of Ok x \<Rightarrow> x | Err _ \<Rightarrow> st3)"
  obtain r5 s5 where sv: "store_save root me st4 s4 = (r5, s5)" by fastforce
  have "wait_for_exit root me ru st w = Some (Ok (r_map (\<lambda>_. status) r5, st4), w3\<lparr>w_fs := s5\<rparr>)"
    using sv
    by (cases q; cases r5; simp add: wait_for_exit_def final_status_def [symmetric] status_def [symmetric] l_get_def l_bind_def l_do_def l_mod_def l_try_def l_ok_def w_bind_def w_try_def w_ok_def
      assms(1,2) o on_fs_def rec l_transition_def tr st4_def Let_def)
  moreover have "cs_exit_code st3 = es_code status" "cs_exit_signal st3 = es_signal status" "cs_id st3 = cs_id st1" "cs_status st3 = cs_status st1"
    using rec by (auto simp: record_exit_def stamp_finished_def split: if_splits prod.splits)
  moreover from this have "cs_exit_code st4 = es_code status" "cs_exit_signal st4 = es_signal status" "cs_id st4 = cs_id st1"
    "can_transition_to (cs_status st1) Stopped \<Longrightarrow> cs_status st4 = Stopped"
    using tr unfolding st4_def by (auto simp: transition_def stamp_finished_def Let_def split: if_splits prod.splits)
  moreover have "r5 = Ok () \<Longrightarrow> file_of s5 (state_path root (cs_id st4)) = Some (json_to_string_pretty (state_to_json st4))"
    using store_save_cases [OF sv] by simp
  ultimately show thesis by (intro that [of "r_map (\<lambda>_. status) r5" st4 "w3\<lparr>w_fs := s5\<rparr>"]) (cases r5; simp)+
qed

text \<open>
  C22: Once init is gone the supervisor does not hang: when the other end of the channel is closed and
  the wait call returns, \<open>wait_for_exit\<close> returns, whatever is left in the channel and however the
  reads are cut or fail.  A result without an error is a status that is in the state returned and
  in the state file.
\<close>

theorem wait_for_exit_returns:
  assumes "p_closed (w_chan w)"
    and "\<forall>l. wait_pid (sint (ch_pid (ru_child ru))) (wait_results (w_answer w l (KWait (ch_pid (ru_child ru)) 0))) \<noteq> None"
  shows "\<exists>r st' w'. wait_for_exit root me ru st w = Some (Ok (r, st'), w') \<and>
    (\<forall>status. r = Ok status \<longrightarrow> cs_exit_code st' = es_code status \<and> cs_exit_signal st' = es_signal status \<and>
       file_of (w_fs w') (state_path root (cs_id st')) = Some (json_to_string_pretty (state_to_json st')))"
proof -
  obtain from_init st1 w1 where e: "exit_loop None st w = Some (Ok (from_init, st1), w1)" "later w w1"
    using exit_loop_ends [OF assms(1), of None st] by (metis surj_pair)
  have "w_answer w1 = w_answer w" using e(2) by (simp add: later_def)
  then obtain x where x: "wait_pid (sint (ch_pid (ru_child ru))) (wait_results (w_answer w1 (w_log w1) (KWait (ch_pid (ru_child ru)) 0))) = Some x"
    using assms(2) by (metis option.exhaust)
  obtain w2 where w2: "w_wait_pid (ch_pid (ru_child ru)) 0 w1 = Some (x, w2)" using w_wait_pid_run [OF x] by blast
  show ?thesis
  proof (cases x)
    case (Ok waited)
    show ?thesis
    proof (rule wait_for_exit_records [OF e(1) w2 [unfolded Ok], of root me], goal_cases)
      case (1 r st' w')
      then show ?case by (intro exI [of _ r] exI [of _ st'] exI [of _ w']) auto
    qed
  next
    case (Err err)
    then have "wait_for_exit root me ru st w = Some (Ok (Err err, st1), w2)"
      using w2 e(1) by (simp add: wait_for_exit_def l_get_def l_bind_def l_do_def l_mod_def w_bind_def w_try_def w_ok_def)
    then show ?thesis by auto
  qed
qed

section \<open>From init to the state file\<close>

text \<open>What a sequence of messages reports, the last exit message winning.\<close>

fun reported :: "exit_status option \<Rightarrow> (u8 \<times> u8 list) list \<Rightarrow> exit_status option" where
  "reported acc [] = acc"
| "reported acc ((t, b) # ms) = reported (if t = TAG_EXIT then (case exit_of_payload b of Some s \<Rightarrow> Some s | None \<Rightarrow> acc) else acc) ms"

lemma exit_loop_frames:
  assumes "benign (p_sched (w_chan w))" "p_closed (w_chan w)" "p_in (w_chan w) = concat (map (\<lambda>(t, b). frame t b) ms)"
    and "list_all (\<lambda>(t, b). length b \<le> 65536) ms"
  shows "\<exists>st' w'. exit_loop acc st w = Some (Ok (reported acc ms, st'), w') \<and> later w w' \<and> cs_status st' = cs_status st \<and> cs_id st' = cs_id st"
  using assms
proof (induction ms arbitrary: acc st w)
  case Nil
  then obtain q where "ipc_recv (w_chan w) = Some (Ok None, q)" using recv_eof by auto
  then show ?case by (subst exit_loop.simps) (simp add: w_recv_def w_chan_op_def later_def)
next
  case (Cons m ms)
  obtain t b where m: "m = (t, b)" by (cases m)
  obtain q where q: "ipc_recv (w_chan w) = Some (Ok (Some (t, b)), q)" "p_in q = concat (map (\<lambda>(t, b). frame t b) ms)"
      "p_closed q = p_closed (w_chan w)" "benign (p_sched q)"
    using recv_frame [OF Cons.prems(1), of t b "concat (map (\<lambda>(t, b). frame t b) ms)"] Cons.prems(3,4) m by auto
  let ?u = "w\<lparr>w_chan := q, w_log := w_log w @ [(KRecv 0, RDone)]\<rparr>"
  let ?acc = "if t = TAG_EXIT then (case exit_of_payload b of Some s \<Rightarrow> Some s | None \<Rightarrow> acc) else acc"
  let ?st = "if t \<noteq> TAG_EXIT \<and> t = TAG_ERROR then st\<lparr>cs_error := Some (from_utf8_lossy b)\<rparr> else st"
  have "exit_loop acc st w = exit_loop ?acc ?st ?u"
    by (subst exit_loop.simps) (simp add: w_recv_def w_chan_op_def q(1))
  moreover obtain st' w' where "exit_loop ?acc ?st ?u = Some (Ok (reported ?acc ms, st'), w')" "later ?u w'" "cs_status st' = cs_status ?st" "cs_id st' = cs_id ?st"
    using Cons.IH [of ?u ?acc ?st] q Cons.prems(2,4) by auto
  moreover have "later w ?u" by (simp add: later_def)
  ultimately show ?case using later_trans [of w ?u] m by auto
qed

lemma exit_frame_decodes:
  assumes "case es_code s of Some c \<Rightarrow> 0 \<le> sint c | None \<Rightarrow> True" "case es_signal s of Some g \<Rightarrow> 0 < sint g | None \<Rightarrow> True"
  shows "exit_of_payload (le32 (unwrap_or (- 1) (es_code s)) @ le32 (unwrap_or 0 (es_signal s))) = Some s"
proof -
  have "parse_exit (le32 c @ le32 g) = Some (c, g)" for c g by (simp add: parse_exit_def le32_def)
  then show ?thesis using assms
    by (cases "es_code s"; cases "es_signal s") (auto simp: exit_of_payload_def intro!: exit_status.equality)
qed

text \<open>
  C21: The status of the workload arrives unchanged: when init's exit message was written, the channel is
  closed and carries it to the supervisor in pieces of any size, and the wait call returns, the
  supervisor records exactly that status, moves the running container to stopped and, unless
  the save fails, writes that state to disk.
\<close>

theorem exit_status_reaches_state:
  assumes "w_send_exit (unwrap_or (- 1) (es_code s)) (unwrap_or 0 (es_signal s)) v = Some (Ok (), v')" "p_out (w_chan v) = []"
    and "case es_code s of Some c \<Rightarrow> 0 \<le> sint c | None \<Rightarrow> True" "case es_signal s of Some g \<Rightarrow> 0 < sint g | None \<Rightarrow> True"
    and "p_in (w_chan w) = p_out (w_chan v')" "p_closed (w_chan w)" "benign (p_sched (w_chan w))"
    and "\<forall>l. \<exists>x. wait_pid (sint (ch_pid (ru_child ru))) (wait_results (w_answer w l (KWait (ch_pid (ru_child ru)) 0))) = Some (Ok x)"
    and "cs_status st = Running"
  shows "\<exists>r st' w'. wait_for_exit root me ru st w = Some (Ok (r, st'), w') \<and> cs_status st' = Stopped \<and>
    cs_exit_code st' = es_code s \<and> cs_exit_signal st' = es_signal s \<and>
    (r = Ok s \<and> file_of (w_fs w') (state_path root (cs_id st)) = Some (json_to_string_pretty (state_to_json st')) \<or> (\<exists>e. r = Err e))"
proof -
  let ?b = "le32 (unwrap_or (- 1) (es_code s)) @ le32 (unwrap_or 0 (es_signal s))"
  have l: "length ?b = 8" by simp
  obtain q where q: "ipc_write_all (frame TAG_EXIT ?b) (w_chan v) = (Ok (), q)" "w_chan v' = q"
    using assms(1) l by (auto simp: w_send_exit_def w_chan_op_def send_exit_def ipc_send_def MAX_PAYLOAD_def split: prod.splits if_splits)
  then have "p_out (w_chan v') = frame TAG_EXIT ?b" using write_all_out [OF q(1)] assms(2) by auto
  then have frames: "p_in (w_chan w) = concat (map (\<lambda>(t, b). frame t b) [(TAG_EXIT, ?b)])" using assms(5) by simp
  obtain st1 w1 where e: "exit_loop None st w = Some (Ok (reported None [(TAG_EXIT, ?b)], st1), w1)" "later w w1"
      "cs_status st1 = cs_status st" "cs_id st1 = cs_id st"
    using exit_loop_frames [OF assms(7,6) frames, of None st] l by auto
  have rep: "reported None [(TAG_EXIT, ?b)] = Some s" using exit_frame_decodes [OF assms(3,4)] by simp
  have "w_answer w1 = w_answer w" using e(2) by (simp add: later_def)
  then obtain x where x: "wait_pid (sint (ch_pid (ru_child ru))) (wait_results (w_answer w1 (w_log w1) (KWait (ch_pid (ru_child ru)) 0))) = Some (Ok x)"
    using assms(8) by metis
  obtain w2 where w2: "w_wait_pid (ch_pid (ru_child ru)) 0 w1 = Some (Ok x, w2)" using w_wait_pid_run [OF x] by blast
  have stop: "can_transition_to (cs_status st1) Stopped" using e(3) assms(9) by (simp add: can_transition_to_def)
  show ?thesis
  proof (rule wait_for_exit_records [OF e(1) [unfolded rep] w2, of root me], goal_cases)
    case (1 r st' w')
    then show ?case using stop e(4) by (intro exI [of _ r] exI [of _ st'] exI [of _ w']) (auto simp: final_status_def)
  qed
qed

section \<open>A container that ends\<close>

definition ended_host :: "kcall \<Rightarrow> reply" where
  "ended_host c = (case c of KWait _ _ \<Rightarrow> RWait [Inl 4, Inr (42, 0)] | _ \<Rightarrow> RFail 2)"

definition seven :: exit_status where
  "seven = \<lparr>es_code = Some 7, es_signal = None\<rparr>"

definition ended :: world where
  "ended = calm_world empty_fs (empty_pipe\<lparr>p_in := frame TAG_EXIT (le32 7 @ le32 0), p_closed := True, p_sched := [Intr, Chunk 1, Chunk 2]\<rparr>)
     ended_host (\<lambda>_. None)"

definition ended_init :: world where
  "ended_init = calm_world empty_fs empty_pipe ended_host (\<lambda>_. None)"

definition ended_ru :: running where
  "ended_ru = \<lparr>ru_child = \<lparr>ch_pid = 42, ch_pidfd = 8\<rparr>, ru_cgroup = None\<rparr>"

lemma ended_wait: "wait_pid (sint (ch_pid (ru_child ended_ru))) (wait_results (w_answer ended l (KWait (ch_pid (ru_child ended_ru)) 0))) =
    Some (Ok (Some (42, from_raw 0)))"
  by (simp add: ended_def calm_world_def ended_host_def wait_results_def ended_ru_def wifstopped_def)

theorem wait_for_exit_returns_witness:
  "\<exists>r st' w'. wait_for_exit ''/r'' 7 ended_ru (ready_state\<lparr>cs_status := Running\<rparr>) ended = Some (Ok (r, st'), w')"
proof -
  have "p_closed (w_chan ended)" by (simp add: ended_def calm_world_def)
  then show ?thesis using wait_for_exit_returns [of ended ended_ru "''/r''" 7 "ready_state\<lparr>cs_status := Running\<rparr>"] ended_wait by auto
qed

theorem exit_status_reaches_state_witness:
  "\<exists>r st' w'. wait_for_exit ''/r'' 7 ended_ru (ready_state\<lparr>cs_status := Running\<rparr>) ended = Some (Ok (r, st'), w') \<and>
     cs_status st' = Stopped \<and> cs_exit_code st' = Some 7 \<and> cs_exit_signal st' = None"
proof -
  let ?v' = "ended_init\<lparr>w_chan := empty_pipe\<lparr>p_out := frame TAG_EXIT (le32 7 @ le32 0)\<rparr>, w_log := [(KSend TAG_EXIT, RDone)]\<rparr>"
  have "send_exit 7 0 empty_pipe = (Ok (), empty_pipe\<lparr>p_out := frame TAG_EXIT (le32 7 @ le32 0)\<rparr>)" by code_simp
  then have "w_send_exit 7 0 ended_init = Some (Ok (), ?v')"
    by (simp add: w_send_exit_def w_chan_op_def ended_init_def calm_world_def)
  then show ?thesis
    using exit_status_reaches_state [of seven ended_init ?v' ended ended_ru "ready_state\<lparr>cs_status := Running\<rparr>" "''/r''" 7] ended_wait
    by (fastforce simp: seven_def ended_init_def ended_def calm_world_def benign_def empty_pipe_def)
qed

end
