(* ===== verification/Stop_Laws.thy ===== *)
theory Stop_Laws
  imports Lifecycle Exit_Laws
begin

text \<open>Stopping a container comes to an end.\<close>

section \<open>What is needed of the kernel\<close>

definition clock :: "world \<Rightarrow> klog \<Rightarrow> int" where
  "clock w l = (case w_answer w l KNow of RNum n \<Rightarrow> n | _ \<Rightarrow> 0)"

text \<open>
  The monotonic clock advances while the process sleeps, a wait call that was told not to
  block returns, and no other process keeps a lock for ever.
\<close>

definition patient :: "world \<Rightarrow> bool" where
  "patient w \<longleftrightarrow> (\<forall>l t n r. 0 < n \<longrightarrow> (KSleep n, r) \<in> set t \<longrightarrow> clock w l < clock w (l @ t)) \<and>
     (\<forall>l pid. wait_pid (sint pid) (wait_results (w_answer w l (KWait pid WNOHANG))) \<noteq> None) \<and>
     (\<forall>l p. \<not> w_held w l p)"

lemma patient_later: "later w u \<Longrightarrow> patient w \<Longrightarrow> patient u"
  by (simp add: patient_def later_def clock_def)

text \<open>\<open>ends m\<close>: on such a kernel the operation returns.\<close>

definition ends :: "'a act \<Rightarrow> bool" where
  "ends m \<longleftrightarrow> forward m \<and> (\<forall>w. patient w \<longrightarrow> m w \<noteq> None)"

named_theorems ends_intros "operations that end"

lemma ends_basic [ends_intros]:
  "ends (w_ok x)" "ends (w_err e)" "ends (w_lift r)" "ends (on_fs f)" "ends w_interfere" "ends (w_fault p)"
  unfolding ends_def by (intro conjI forward_intros; simp add: w_ok_def w_err_def w_lift_def on_fs_def w_interfere_def w_fault_def w_get_def split: prod.splits)+

lemma ends_lock [ends_intros]: "ends (with_lock p g f)"
  unfolding ends_def by (auto simp: with_lock_def patient_def on_fs_def split: prod.splits result.splits intro: forward_intros)

lemma ends_try [ends_intros]:
  assumes "ends m" "\<And>r. ends (f r)"
  shows "ends (w_try m f)"
  unfolding ends_def
proof (intro conjI allI impI)
  show "forward (w_try m f)" using assms by (intro forward_intros) (auto simp: ends_def)
  fix w assume p: "patient w"
  then obtain r u where u: "m w = Some (r, u)" using assms(1) unfolding ends_def by fastforce
  then have "later w u" using assms(1) unfolding ends_def by (auto intro: laterI)
  then have "f r u \<noteq> None" using assms(2) p patient_later unfolding ends_def by blast
  then show "w_try m f w \<noteq> None" using u by (simp add: w_try_def)
qed

lemma ends_bind [ends_intros]: "ends m \<Longrightarrow> (\<And>x. ends (f x)) \<Longrightarrow> ends (w_bind m f)"
  unfolding w_bind_try by (rule ends_try) (auto intro: ends_intros split: result.splits)

lemma ends_get [ends_intros]: "(\<And>w. ends (f w)) \<Longrightarrow> ends (w_get f)"
  unfolding ends_def w_get_def makes_def by blast

lemma ends_call [ends_intros]:
  assumes "\<And>r. ends (f r)"
  shows "ends (w_call c f)"
  unfolding ends_def
proof (intro conjI allI impI)
  show "forward (w_call c f)" using assms by (intro forward_intros) (auto simp: ends_def)
  fix w assume p: "patient w"
  obtain r u where u: "k_call c w = (r, u)" by fastforce
  then have "f r u \<noteq> None" using assms [of r] p patient_later call_since [OF u] unfolding ends_def by blast
  then show "w_call c f w \<noteq> None" using u by (simp add: w_call_def)
qed

lemma ends_derived [ends_intros]:
  "ends m \<Longrightarrow> ends (w_map_err g m)" "ends m \<Longrightarrow> ends (w_ignore m)" "ends (w_sys c d e)"
  unfolding w_map_err_def w_ignore_def w_sys_def by (intro ends_intros; assumption)+

lemma ends_each [ends_intros]: "(\<And>x. ends (f x)) \<Longrightarrow> ends (w_each f xs)"
  by (induction xs) (auto intro!: ends_intros)

lemma ends_fold [ends_intros]: "(\<And>x b. ends (f x b)) \<Longrightarrow> ends (w_fold f xs b)"
  by (induction xs arbitrary: b) (auto intro!: ends_intros)

lemma ends_cases [ends_intros]:
  "ends a \<Longrightarrow> ends b \<Longrightarrow> ends (if c then a else b)"
  "ends d \<Longrightarrow> (\<And>x. ends (g x)) \<Longrightarrow> ends (case z of None \<Rightarrow> d | Some x \<Rightarrow> g x)"
  "(\<And>x. ends (h x)) \<Longrightarrow> (\<And>e. ends (q e)) \<Longrightarrow> ends (case y of Ok x \<Rightarrow> h x | Err e \<Rightarrow> q e)"
  "(\<And>x y. ends (l x y)) \<Longrightarrow> ends (case v of (x, y) \<Rightarrow> l x y)"
  by (simp, cases z, auto, cases y, auto, cases v, auto)

lemma ends_wrappers [ends_intros]:
  "ends (k_read_to_string f)" "ends (read_trimmed f)" "ends (k_write_file f d)" "ends (k_exists f)" "ends (k_is_dir f)" "ends (k_sleep n)" "ends (kill_pid i s)"
  unfolding k_read_to_string_def read_trimmed_def k_write_file_def k_exists_def k_is_dir_def k_sleep_def kill_pid_def
  by (intro ends_intros)+

lemma ends_wait [ends_intros]: "ends (w_wait_pid pid WNOHANG)"
proof -
  have "w_wait_pid pid WNOHANG w \<noteq> None" if "patient w" for w
  proof -
    let ?a = "w_answer w (w_log w) (KWait pid WNOHANG)"
    obtain u where u: "k_call (KWait pid WNOHANG) w = (?a, u)" by (simp add: k_call_def Let_def)
    have "wait_pid (sint pid) (wait_results ?a) \<noteq> None" using that by (simp add: patient_def)
    then show ?thesis using u by (auto simp: w_wait_pid_def w_call_def w_bind_def w_panic_def w_lift_def wait_results_def)
  qed
  moreover have "forward (w_wait_pid pid WNOHANG)" unfolding w_wait_pid_def by (intro forward_intros)
  ultimately show ?thesis by (simp add: ends_def)
qed

section \<open>The parts\<close>

lemma ends_cgroup [ends_intros]:
  "ends (cg_write cg f v)" "ends (cg_read cg f)" "ends (cg_pids cg)" "ends (cg_kill_all cg)" "ends (cg_attach p)" "ends (cg_thaw cg)"
  "ends (cg_was_oom_killed cg)"
  unfolding cg_was_oom_killed_def cg_stats_def cg_keyed_value_def cg_read_keyed_def cg_read_u64_def cg_kill_all_def cg_pids_def cg_thaw_def
  unfolding cg_write_def cg_read_def cg_attach_def available_controllers_def read_list_def
  by (intro ends_intros)+

lemma ends_remove [ends_intros]: "ends (cg_remove cg)"
proof -
  have "ends (cg_remove_loop cg first n)" for first n by (induction n arbitrary: first) (auto intro!: ends_intros)
  then show ?thesis unfolding cg_remove_def by (intro ends_intros)
qed

lemma ends_prod_app [ends_intros]: "(\<And>x y. ends (l x y s)) \<Longrightarrow> ends ((case v of (x, y) \<Rightarrow> l x y) s)"
  by (cases v) auto

lemma ends_reply [ends_intros]:
  "(\<And>e. ends (a e)) \<Longrightarrow> ends b \<Longrightarrow> (\<And>d. ends (c d)) \<Longrightarrow> (\<And>ns. ends (d' ns)) \<Longrightarrow> (\<And>x y. ends (f x y)) \<Longrightarrow>
   (\<And>n. ends (g n)) \<Longrightarrow> (\<And>x y. ends (h x y)) \<Longrightarrow> (\<And>x y z. ends (i x y z)) \<Longrightarrow> (\<And>x y z. ends (j x y z)) \<Longrightarrow>
   (\<And>os. ends (l os)) \<Longrightarrow> (\<And>q. ends (m q)) \<Longrightarrow>
   ends (case r of RFail e \<Rightarrow> a e | RDone \<Rightarrow> b | RData d \<Rightarrow> c d | RNames ns \<Rightarrow> d' ns | RStat x y \<Rightarrow> f x y | RNum n \<Rightarrow> g n
     | RFds x y \<Rightarrow> h x y | RCaps x y z \<Rightarrow> i x y z | RExit x y z \<Rightarrow> j x y z | RWait os \<Rightarrow> l os | RPackets q \<Rightarrow> m q)"
  by (cases r) auto

lemma ends_network [ends_intros]: "ends (net_teardown root me i ns)"
proof -
  have l: "ends (nl_do msg s)" for msg s
    unfolding nl_do_def nl_exchange_def l_bind_def l_ok_def by (intro ends_intros)
  show ?thesis
    unfolding net_teardown_def nat_cleanup_def tagged_rules_def ipt_ok_def ipt_def iptables_run_def nl_open_def link_index_def l_only_def
    by (intro ends_intros l)
qed

lemma ends_alive [ends_intros]: "ends (w_init_is_alive st)" "ends (w_process_alive pid t)" "ends (w_reconcile root me st)" "ends (cgroup_of st)"
  unfolding w_init_is_alive_def w_process_alive_def w_reconcile_def cgroup_of_def by (intro ends_intros)+

lemma ends_teardown [ends_intros]: "ends (sup_teardown root me st)"
  unfolding sup_teardown_def teardown_cgroup_def Let_def by (intro ends_intros)

lemma ends_finalize [ends_intros]: "ends (finalize_stopped root me i)"
proof -
  have "ends (await_shim root i n)" for n by (induction n) (auto intro!: ends_intros)
  then show ?thesis unfolding finalize_stopped_def w_lock_def by (intro ends_intros)
qed

lemma ends_begin [ends_intros]: "ends (stop_begin root me i)" "ends (stop_kill root i)" "ends (await_dead root i n)"
proof -
  show "ends (stop_begin root me i)" unfolding stop_begin_def w_lock_def load_reconciled_def thaw_if_paused_def by (intro ends_intros)
  show "ends (stop_kill root i)" unfolding stop_kill_def w_lock_def by (intro ends_intros)
  show "ends (await_dead root i n)" by (induction n) (auto intro!: ends_intros)
qed

section \<open>The grace period\<close>

lemma w_now_run: "\<exists>u r. w_now w = Some (Ok (clock w (w_log w)), u) \<and> later w u \<and> w_log u = w_log w @ [(KNow, r)]"
proof -
  obtain x u where u: "k_call KNow w = (x, u)" by fastforce
  then have "x = w_answer w (w_log w) KNow" by (simp add: k_call_def Let_def)
  then show ?thesis using u call_since [OF u] later_since [of w u] by (auto simp: w_now_def w_call_def w_ok_def clock_def)
qed

lemma ends_now [ends_intros]: "ends w_now"
  unfolding w_now_def by (intro ends_intros)

lemma later_clock: "later w u \<Longrightarrow> clock u = clock w"
  by (rule ext) (simp add: clock_def later_def)

lemma k_sleep_run: "\<exists>u r. k_sleep n w = Some (Ok (), u) \<and> later w u \<and> w_log u = w_log w @ [(KSleep n, r)]"
proof -
  obtain x u where u: "k_call (KSleep n) w = (x, u)" by fastforce
  show ?thesis using u call_since [OF u] later_since [of w u]
    by (auto simp: k_sleep_def w_call_def w_interfere_def later_def)
qed

lemma stop_wait_ends:
  assumes "patient w"
  shows "\<exists>r w'. stop_wait root i d w = Some (r, w') \<and> later w w'"
  using assms
proof (induction "nat (d - clock w (w_log w))" arbitrary: w rule: less_induct)
  case less
  obtain u0 r0 where n: "w_now w = Some (Ok (clock w (w_log w)), u0)" "later w u0" "w_log u0 = w_log w @ [(KNow, r0)]" using w_now_run by blast
  note p0 = patient_later [OF n(2) less(2)]
  let ?look = "w_bind (on_fs (store_load root i)) w_init_is_alive"
  have look: "ends ?look" by (intro ends_intros)
  then obtain x u1 where x: "?look u0 = Some (x, u1)" using p0 unfolding ends_def by fastforce
  have l1: "later u0 u1" using x look unfolding ends_def by (auto intro: laterI)
  let ?after = "\<lambda>alive. if \<not> alive then w_ok True else w_bind (k_sleep 50) (\<lambda>_. stop_wait root i d)"
  have eq: "stop_wait root i d w = (if clock w (w_log w) < d then w_bind ?look ?after u0 else Some (Ok False, u0))"
    by (subst stop_wait.simps) (simp add: w_bind_def n(1) w_ok_def split: option.splits result.splits)
  show ?case
  proof (cases "clock w (w_log w) < d \<and> x = Ok True")
    case False
    then show ?thesis using x n(2) l1 later_trans [OF n(2) l1] unfolding eq
      by (cases x) (auto simp: w_bind_def w_ok_def)
  next
    case True
    obtain u2 r2 where s: "k_sleep 50 u1 = Some (Ok (), u2)" "later u1 u2" "w_log u2 = w_log u1 @ [(KSleep 50, r2)]" using k_sleep_run by blast
    have l2: "later w u2" using n(2) l1 s(2) later_trans by blast
    have c2: "clock u2 = clock w" by (rule later_clock [OF l2])
    have "w_log u2 = w_log w @ since w u2" "since w u2 = since w u1 @ [(KSleep 50, r2)]"
      using later_since [OF l2] s(3) later_since [OF later_trans [OF n(2) l1]] by auto
    moreover from this have "(KSleep 50, r2) \<in> set (since w u2)" by simp
    ultimately have "clock w (w_log w) < clock w (w_log u2)" using less(2) unfolding patient_def by (metis zero_less_numeral)
    then have "nat (d - clock u2 (w_log u2)) < nat (d - clock w (w_log w))" using True unfolding c2 by auto
    from less(1) [OF this patient_later [OF l2 less(2)]] obtain r w' where "stop_wait root i d u2 = Some (r, w')" "later u2 w'" by blast
    then show ?thesis using True x s(1) l2 later_trans unfolding eq by (auto simp: w_bind_def)
  qed
qed

lemma ends_stop_wait [ends_intros]: "ends (stop_wait root i d)"
proof -
  have "stop_wait root i d w \<noteq> None" if "patient w" for w using stop_wait_ends [OF that, of root i d] by auto
  moreover have "forward (stop_wait root i d)"
  proof -
    have "later w (snd y)" if "stop_wait root i d w = Some y" for w y
      using that
    proof (rule stop_wait.raw_induct [rotated], goal_cases)
      case (1 f root i d w y)
      have f: "forward (f root i d)" using 1(1) by (fastforce simp: makes_def)
      have "forward (w_bind w_now (\<lambda>t. if t < d
          then w_bind (on_fs (store_load root i)) (\<lambda>st. w_bind (w_init_is_alive st) (\<lambda>alive.
                if \<not> alive then w_ok True else w_bind (k_sleep 50) (\<lambda>_. f root i d)))
          else w_ok False))"
        using ends_now ends_alive(1) unfolding ends_def by (intro forward_intros f) auto
      then show ?case using 1(2) by (cases y) (auto dest: makes_later)
    qed
    then show ?thesis by (fastforce simp: makes_def)
  qed
  ultimately show ?thesis by (simp add: ends_def)
qed

text \<open>
  C23: Stopping a container comes to an end: on a kernel whose clock advances while the process
  sleeps and that answers a wait call that must not block, and when no other process keeps a
  lock of the runtime for ever, \<open>stop\<close> returns a status or an error, provided the deadline
  fits the clock.  The process may ignore every signal, the state file may
  change or disappear while \<open>stop\<close> sleeps, and any call may fail.
\<close>

theorem stop_returns:
  assumes "patient w"
    and "\<forall>r u. stop_begin root me i w = Some (r, u) \<longrightarrow> clock w (w_log u) div 1000 + int secs < 2 ^ 63"
  shows "\<exists>r w'. life_stop root me i secs w = Some (r, w')"
proof -
  obtain r u where u: "stop_begin root me i w = Some (r, u)" using ends_begin(1) [of root me i] assms(1) unfolding ends_def by fastforce
  have l: "later w u" using u ends_begin(1) [of root me i] unfolding ends_def by (auto intro: laterI)
  let ?rest = "\<lambda>deadline. w_bind (stop_wait root i deadline) (\<lambda>gone. if gone then finalize_stopped root me i
      else w_bind (stop_kill root i) (\<lambda>_. w_bind (await_dead root i 100) (\<lambda>_. finalize_stopped root me i)))"
  show ?thesis
  proof (cases "r = Ok None")
    case False
    then show ?thesis using u by (cases r) (auto simp: life_stop_def w_bind_def w_ok_def split: option.splits)
  next
    case True
    obtain v where v: "w_now u = Some (Ok (clock u (w_log u)), v)" "later u v" using w_now_run by blast
    have "clock u (w_log u) div 1000 + int secs < 2 ^ 63" using assms(2) u later_clock [OF l] by simp
    then have d: "deadline_after secs u = Some (Ok (clock u (w_log u) + int secs * 1000), v)"
      using v(1) by (simp add: deadline_after_def w_bind_def w_panic_def)
    have "ends (?rest (clock u (w_log u) + int secs * 1000))" by (intro ends_intros)
    then obtain y where "?rest (clock u (w_log u) + int secs * 1000) v = Some y"
      using patient_later [OF later_trans [OF l v(2)] assms(1)] unfolding ends_def by blast
    then have "life_stop root me i secs w = Some y" using u True d by (simp add: life_stop_def w_bind_def)
    then show ?thesis by (cases y) auto
  qed
qed

section \<open>A container that ignores every signal\<close>

text \<open>The host's clock counts its sleeps; the init process is always there.\<close>

definition stubborn_host :: "klog \<Rightarrow> kcall \<Rightarrow> reply" where
  "stubborn_host l c = (case c of
      KNow \<Rightarrow> RNum (int (length (filter (\<lambda>e. case fst e of KSleep n \<Rightarrow> 0 < n | _ \<Rightarrow> False) l)))
    | KWait _ _ \<Rightarrow> RWait [Inr (0, 0)]
    | KRead p \<Rightarrow> RData ''42 (init) S 1 1 1 0 -1 0 0 0 0 0 0 0 0 0 20 0 1 0 7 0 0''
    | _ \<Rightarrow> RDone)"

definition stubborn :: "fs \<Rightarrow> world" where
  "stubborn s = \<lparr>w_fs = s, w_chan = empty_pipe, w_env = (\<lambda>_. None), w_log = [], w_answer = stubborn_host, w_others = (\<lambda>_ s. s), w_held = (\<lambda>_ _. False)\<rparr>"

lemma stubborn_patient: "patient (stubborn s)"
proof -
  have "clock (stubborn s) l < clock (stubborn s) (l @ t)" if "0 < n" "(KSleep n, r) \<in> set t" for l t n r
  proof -
    have "filter (\<lambda>e. case fst e of KSleep n \<Rightarrow> 0 < n | _ \<Rightarrow> False) t \<noteq> []" using that by (force simp: filter_empty_conv)
    then show ?thesis by (simp add: clock_def stubborn_def stubborn_host_def)
  qed
  moreover have "wait_pid (sint pid) (wait_results (w_answer (stubborn s) l (KWait pid WNOHANG))) \<noteq> None" for l pid
    by (simp add: stubborn_def stubborn_host_def wait_results_def)
  moreover have "\<not> w_held (stubborn s) l p" for l p by (simp add: stubborn_def)
  ultimately show ?thesis unfolding patient_def by blast
qed

definition running_files :: fs where
  "running_files = empty_fs\<lparr>fs_files := [(state_path ''/r'' ''c1'',
       json_to_string_pretty (state_to_json (ready_state\<lparr>cs_status := Running, cs_init_pid := 42, cs_init_start_time := 7\<rparr>)))],
     fs_dirs := [''/r/containers/c1'', ''/r/containers'', ''/r'']\<rparr>"

lemma stop_begin_awake: "makes (\<lambda>c. \<forall>n. c \<noteq> KSleep n) (stop_begin root me i)"
  unfolding stop_begin_def w_lock_def load_reconciled_def thaw_if_paused_def w_reconcile_def cgroup_of_def cg_attach_def cg_thaw_def
    available_controllers_def read_list_def
  by (intro forward_intros; simp)

theorem stop_returns_witness:
  "\<exists>r w'. life_stop ''/r'' 7 ''c1'' 3 (stubborn running_files) = Some (r, w')"
proof -
  let ?w = "stubborn running_files"
  have "clock ?w (w_log u) = 0" if "stop_begin ''/r'' 7 ''c1'' ?w = Some (r, u)" for r u
  proof -
    have "later ?w u" "\<forall>e \<in> set (since ?w u). \<forall>n. fst e \<noteq> KSleep n" using stop_begin_awake that unfolding makes_def by blast+
    then have "\<forall>e \<in> set (w_log u). \<forall>n. fst e \<noteq> KSleep n" using later_since [of ?w u] by (simp add: stubborn_def)
    then have "filter (\<lambda>e. case fst e of KSleep n \<Rightarrow> 0 < n | _ \<Rightarrow> False) (w_log u) = []"
      unfolding filter_empty_conv by (auto split: kcall.splits)
    then show ?thesis by (simp add: clock_def stubborn_def stubborn_host_def)
  qed
  then show ?thesis using stop_returns [OF stubborn_patient, of "''/r''" 7 "''c1''" running_files 3] by auto
qed

end
