(* ===== verification/Cli.thy ===== *)
theory Cli
  imports Lifecycle Toml
begin

text \<open>
  The command line (\<open>cli.rs\<close>).  The cursor \<open>Args\<close> is the list of the words not read yet; an option
  reports how many further words it has read, which is how far the code advances \<open>pos\<close>.
\<close>

section \<open>Commands\<close>

record run_args =
  ra_config :: container_config
  ra_detach :: bool

datatype command =
    CmdRun run_args
  | CmdCreate run_args
  | CmdStart string bool
  | CmdStop "string list" u64
  | CmdKill "string list" i32
  | CmdDelete "string list" bool
  | CmdList bool bool bool
  | CmdInspect "string list"
  | CmdStats "string list" bool bool u64
  | CmdPause "string list"
  | CmdUnpause "string list"
  | CmdLogs string bool "u64 option"
  | CmdWait "string list" "u64 option"
  | CmdGc
  | CmdInfo
  | CmdHelp "string option"
  | CmdVersion
  | CmdInit string
  | CmdShim string i32

section \<open>Reading words\<close>

text \<open>\<open>Args::next\<close> on the words left.\<close>

definition args_next :: "string list \<Rightarrow> string option" where
  "args_next args = (case args of [] \<Rightarrow> None | a # _ \<Rightarrow> Some a)"

text \<open>\<open>Args::value\<close>: the value, and how many words it took.\<close>

definition arg_value :: "string \<Rightarrow> string option \<Rightarrow> string list \<Rightarrow> (string \<times> nat) res" where
  "arg_value flag inl rest = (case inl of
      Some v \<Rightarrow> Ok (v, 0)
    | None \<Rightarrow> ok_or (Usage (flag @ '' requires a value'')) (map_option (\<lambda>v. (v, 1)) (args_next rest)))"

definition split_flag :: "string \<Rightarrow> string \<times> string option" where
  "split_flag arg = (case split_once arg (CHR ''='') of
      Some (f, v) \<Rightarrow> if starts_with f ''-'' then (f, Some v) else (arg, None)
    | None \<Rightarrow> (arg, None))"

definition parse_bool :: "string \<Rightarrow> string \<Rightarrow> bool res" where
  "parse_bool flag v =
     (let t = to_ascii_lowercase (str_trim v) in
      if t \<in> set [''1'', ''true'', ''yes'', ''on''] then Ok True
      else if t \<in> set [''0'', ''false'', ''no'', ''off''] then Ok False
      else Err (Usage (flag @ '' expects true or false, got '' @ debug_str t)))"

text \<open>The loop \<open>while let Some(raw) = args.next()\<close>.\<close>

fun args_loop :: "(string \<Rightarrow> string list \<Rightarrow> 's \<Rightarrow> ('s \<times> nat) res) \<Rightarrow> string list \<Rightarrow> 's \<Rightarrow> 's res" where
  "args_loop step [] s = Ok s"
| "args_loop step (raw # rest) s = (case step raw rest s of
      Ok (s', used) \<Rightarrow> args_loop step (drop used rest) s'
    | Err e \<Rightarrow> Err e)"

text \<open>An option with a value that \<open>f\<close> takes over.\<close>

definition with_value :: "string \<Rightarrow> string option \<Rightarrow> string list \<Rightarrow> (string \<Rightarrow> 's res) \<Rightarrow> ('s \<times> nat) res" where
  "with_value flag inl rest f =
     r_bind (arg_value flag inl rest) (\<lambda>(v, used). r_map (\<lambda>s. (s, used)) (f v))"

section \<open>Help\<close>

definition text_of :: "string list \<Rightarrow> string" where
  "text_of ls = concat (map (\<lambda>l. l @ [CHR 0x0A]) ls)"

definition MAIN_HELP :: string where
  "MAIN_HELP = text_of [
    ''myrun - a container runtime'',
    [],
    ''USAGE:'',
    ''    myrun [global options] <command> [options]'',
    [],
    ''COMMANDS:'',
    ''    run <rootfs> <cmd>...   Create and start a container'',
    ''    create <rootfs> <cmd>.. Create a container without starting it'',
    ''    start <container>       Start a created container'',
    ''    stop <container>...     SIGTERM, then SIGKILL after a grace period'',
    ''    kill <container>...     Send a signal (default TERM)'',
    ''    pause / unpause <c>...  Freeze / thaw via the cgroup freezer'',
    ''    rm <container>...       Delete a container and its resources'',
    ''    ls                      List containers'',
    ''    inspect <container>...  Full JSON state'',
    ''    stats [container]...    Live resource usage'',
    ''    logs <container>        Show captured output'',
    ''    wait <container>...     Block until a container exits'',
    ''    gc                      Reconcile state and clean up orphans'',
    ''    info                    Runtime and host capability report'',
    [],
    ''GLOBAL OPTIONS:'',
    ''    --root <dir>            State directory (default /run/myrun)'',
    ''    --log <level>           error|warn|info|debug|trace'',
    ''    --debug                 Shorthand for --log debug'',
    ''    -h, --help [topic]      Help; topics: run, network, security'',
    ''    -V, --version'',
    [],
    ''EXAMPLES:'',
    ''    myrun run ./rootfs /bin/sh'',
    ''    myrun run -d --name web -m 256m --cpus 1.5 -p 8080:80 ./rootfs /srv/httpd'',
    ''    myrun ls -a'',
    ''    myrun stats --follow'']"

definition RUN_HELP :: string where
  "RUN_HELP = text_of [
    ''myrun run [options] <rootfs> <command> [args...]'',
    [],
    ''CONTAINER:'',
    ''    --name <name>           Human-readable name (must be unique)'',
    ''    --rootfs <dir>          Root filesystem (alternative to the positional)'',
    ''    -e, --env KEY=VALUE     Set an environment variable (repeatable)'',
    ''    -w, --workdir <dir>     Working directory inside the container'',
    ''    --hostname <name>       UTS hostname (default: the short container id)'',
    ''    -v, --volume SRC:DST[:ro]   Bind mount, or tmpfs:DST for a tmpfs'',
    ''    --read-only             Mount the rootfs read-only'',
    ''    --label key=value       Attach metadata (repeatable)'',
    ''    -d, --detach            Run in the background and print the id'',
    ''    --rm                    Delete the container once it exits'',
    ''    -c, --config <file>     Load defaults from a TOML or JSON file'',
    [],
    ''RESOURCES:'',
    ''    -m, --memory <size>     Memory limit, e.g. 512m, 2g'',
    ''    --memory-swap <size>    Memory + swap limit'',
    ''    --cpus <n>              Fractional CPU limit, e.g. 1.5'',
    ''    --cpu-weight <n>        Relative weight, 1-10000 (default 100)'',
    ''    --pids <n>              Maximum number of processes'',
    [],
    ''NETWORK:            (see `myrun --help network`)'',
    ''    --network none|bridge|host'',
    ''    -p, --publish H:C[/tcp|udp]'',
    [],
    ''SECURITY:           (see `myrun --help security`)'',
    ''    --cap-add / --cap-drop <CAP>'',
    ''    --seccomp unconfined|default|strict'',
    ''    -u, --user <uid[:gid]>'',
    ''    --privileged'']"

definition NETWORK_HELP :: string where
  "NETWORK_HELP = text_of [
    ''myrun networking'',
    [],
    ''MODES:'',
    ''    --network none      Isolated network namespace with only a loopback'',
    ''                        interface. The default.'',
    ''    --network bridge    A veth pair into a host bridge, an address from the'',
    ''                        runtime's IPAM, NAT to the outside world.'',
    ''    --network host      Share the host's network namespace. No isolation.'',
    [],
    ''OPTIONS:'',
    ''    --bridge <name>     Bridge to attach to (default myrun0, created on demand)'',
    ''    --subnet <cidr>     Address pool (default 10.87.0.0/24)'',
    ''    --ip <addr>         Request a specific address from the pool'',
    ''    --gateway <addr>    Bridge address (default: first host address)'',
    ''    --mtu <n>           MTU for both ends of the veth pair'',
    ''    -p, --publish H:C   Publish a container port on the host (DNAT)'',
    ''    --no-nat            Skip the MASQUERADE rule'',
    ''    --dns a,b           Nameservers written to /etc/resolv.conf'',
    [],
    ''NOTES:'',
    ''    Published ports require --network bridge.'',
    ''    Packet filtering is done by shelling out to iptables; every rule is'',
    ''    tagged with the container id so teardown removes exactly its own rules.'']"

definition SECURITY_HELP :: string where
  "SECURITY_HELP = text_of [
    ''myrun security'',
    [],
    ''By default a container gets:'',
    ''  * a Docker-like capability set, minus CAP_NET_RAW'',
    ''  * PR_SET_NO_NEW_PRIVS'',
    ''  * a seccomp filter denying ~39 syscalls (mount, pivot_root, kexec, bpf, ...)'',
    ''  * /proc/kcore and friends masked, /proc/sys and friends read-only'',
    ''  * a read-only /sys'',
    [],
    ''OPTIONS:'',
    ''    --cap-add <CAP>       Add a capability (name with or without CAP_)'',
    ''    --cap-drop <CAP>      Drop one; --cap-drop all clears the set first'',
    ''    --seccomp <mode>      unconfined | default | strict'',
    ''    --no-new-privs=false  Disable no_new_privs (incompatible with seccomp)'',
    ''    -u, --user uid[:gid]  Run the workload as an unprivileged user'',
    ''    --privileged          Disable all of the above. Use only for debugging.'',
    [],
    ''ORDER OF OPERATIONS (inside the container, after pivot_root):'',
    ''    capabilities -> no_new_privs -> seccomp -> setgid/setuid -> execve'']"

definition help_text :: "string option \<Rightarrow> string" where
  "help_text topic = (case topic of
      Some t \<Rightarrow>
        if t = ''run'' \<or> t = ''create'' then RUN_HELP
        else if t = ''network'' then NETWORK_HELP
        else if t = ''security'' then SECURITY_HELP
        else ''no help topic '' @ debug_str t @ [CHR 0x0A, CHR 0x0A] @ MAIN_HELP
    | None \<Rightarrow> MAIN_HELP)"

section \<open>The options of run and create\<close>

text \<open>
  Each group gives \<open>None\<close> for an option that is not its own, and otherwise the new configuration
  and how many words the value took.
\<close>

type_synonym flag_group = "string \<Rightarrow> string option \<Rightarrow> string list \<Rightarrow> container_config \<Rightarrow> (container_config \<times> nat) res option"

definition container_flag :: flag_group where
  "container_flag flag inl rest cfg =
     (let val = with_value flag inl rest in
      if flag = ''--name'' then Some (val (\<lambda>v. Ok (cfg\<lparr>c_name := Some v\<rparr>)))
      else if flag = ''--rootfs'' then Some (val (\<lambda>v. Ok (cfg\<lparr>c_rootfs := v\<rparr>)))
      else if flag = ''-e'' \<or> flag = ''--env'' then Some (val (\<lambda>v. Ok (cfg\<lparr>c_env := set_env v (c_env cfg)\<rparr>)))
      else if flag = ''-w'' \<or> flag = ''--workdir'' \<or> flag = ''--cwd'' then Some (val (\<lambda>v. Ok (cfg\<lparr>c_cwd := v\<rparr>)))
      else if flag = ''--hostname'' then Some (val (\<lambda>v. Ok (cfg\<lparr>c_hostname := v\<rparr>)))
      else if flag = ''--rm'' then Some (Ok (cfg\<lparr>c_auto_remove := True\<rparr>, 0))
      else if flag = ''--read-only'' then Some (Ok (cfg\<lparr>c_read_only := True\<rparr>, 0))
      else if flag = ''-v'' \<or> flag = ''--volume'' \<or> flag = ''--mount'' then
        Some (val (\<lambda>v. r_map (\<lambda>m. cfg\<lparr>c_mounts := c_mounts cfg @ [m]\<rparr>) (mount_spec_parse v)))
      else if flag = ''--label'' then
        Some (val (\<lambda>kv. case split_once kv (CHR ''='') of
            Some (key, v) \<Rightarrow> Ok (cfg\<lparr>c_labels := c_labels cfg @ [(key, v)]\<rparr>)
          | None \<Rightarrow> Err (Usage ''--label expects key=value'')))
      else None)"

definition upd_resources :: "(resources \<Rightarrow> resources) \<Rightarrow> container_config \<Rightarrow> container_config" where
  "upd_resources f cfg = cfg\<lparr>c_resources := f (c_resources cfg)\<rparr>"

definition upd_network :: "(network_config \<Rightarrow> network_config) \<Rightarrow> container_config \<Rightarrow> container_config" where
  "upd_network f cfg = cfg\<lparr>c_network := f (c_network cfg)\<rparr>"

definition upd_security :: "(security_config \<Rightarrow> security_config) \<Rightarrow> container_config \<Rightarrow> container_config" where
  "upd_security f cfg = cfg\<lparr>c_security := f (c_security cfg)\<rparr>"

definition upd_namespaces :: "(namespaces \<Rightarrow> namespaces) \<Rightarrow> container_config \<Rightarrow> container_config" where
  "upd_namespaces f cfg = cfg\<lparr>c_namespaces := f (c_namespaces cfg)\<rparr>"

definition resource_flag :: flag_group where
  "resource_flag flag inl rest cfg =
     (let val = with_value flag inl rest in
      if flag = ''-m'' \<or> flag = ''--memory'' then
        Some (val (\<lambda>v. r_map (\<lambda>m. upd_resources (\<lambda>r. r\<lparr>r_memory := m\<rparr>) cfg) (parse_size v)))
      else if flag = ''--memory-swap'' then
        Some (val (\<lambda>v. r_map (\<lambda>m. upd_resources (\<lambda>r. r\<lparr>r_memory_swap := m\<rparr>) cfg) (parse_size v)))
      else if flag = ''--cpus'' then
        Some (val (\<lambda>v. r_map (\<lambda>f. upd_resources (\<lambda>r. r\<lparr>r_cpus := Some f\<rparr>) cfg)
          (ok_or (Usage ''--cpus expects a number, e.g. 1.5'') (parse_f64 v))))
      else if flag = ''--cpu-weight'' \<or> flag = ''--cpu-shares'' then
        Some (val (\<lambda>v. r_map (\<lambda>n. upd_resources (\<lambda>r. r\<lparr>r_cpu_weight := Some n\<rparr>) cfg)
          (ok_or (Usage ''--cpu-weight expects an integer'') (parse_u64 v))))
      else if flag = ''--pids'' \<or> flag = ''--pids-limit'' then
        Some (val (\<lambda>v. r_map (\<lambda>n. upd_resources (\<lambda>r. r\<lparr>r_pids := Some n\<rparr>) cfg)
          (ok_or (Usage ''--pids expects an integer'') (parse_u64 v))))
      else None)"

definition network_flag :: flag_group where
  "network_flag flag inl rest cfg =
     (let val = with_value flag inl rest in
      if flag = ''--network'' \<or> flag = ''--net'' then
        Some (val (\<lambda>v. r_map (\<lambda>m. upd_network (\<lambda>n. n\<lparr>n_mode := m\<rparr>) cfg) (network_mode_parse v)))
      else if flag = ''--bridge'' then Some (val (\<lambda>v. Ok (upd_network (\<lambda>n. n\<lparr>n_bridge := v\<rparr>) cfg)))
      else if flag = ''--subnet'' then Some (val (\<lambda>v. Ok (upd_network (\<lambda>n. n\<lparr>n_subnet := v\<rparr>) cfg)))
      else if flag = ''--ip'' then Some (val (\<lambda>v. Ok (upd_network (\<lambda>n. n\<lparr>n_ip := Some v\<rparr>) cfg)))
      else if flag = ''--gateway'' then Some (val (\<lambda>v. Ok (upd_network (\<lambda>n. n\<lparr>n_gateway := Some v\<rparr>) cfg)))
      else if flag = ''--mtu'' then
        Some (val (\<lambda>v. r_map (\<lambda>m. upd_network (\<lambda>n. n\<lparr>n_mtu := m\<rparr>) cfg)
          (ok_or (Usage ''--mtu expects an integer'') (parse_u32 v))))
      else if flag = ''-p'' \<or> flag = ''--publish'' then
        Some (val (\<lambda>v. r_map (\<lambda>p. upd_network (\<lambda>n. n\<lparr>n_publish := n_publish n @ [p]\<rparr>) cfg) (port_mapping_parse v)))
      else if flag = ''--no-nat'' then Some (Ok (upd_network (\<lambda>n. n\<lparr>n_nat := False\<rparr>) cfg, 0))
      else if flag = ''--dns'' then
        Some (val (\<lambda>v. Ok (upd_network (\<lambda>n. n\<lparr>n_dns := map str_trim (str_split v (CHR '',''))\<rparr>) cfg)))
      else None)"

definition security_flag :: flag_group where
  "security_flag flag inl rest cfg =
     (let val = with_value flag inl rest in
      if flag = ''--cap-add'' then Some (val (\<lambda>v. Ok (upd_security (\<lambda>s. s\<lparr>s_cap_add := s_cap_add s @ [v]\<rparr>) cfg)))
      else if flag = ''--cap-drop'' then Some (val (\<lambda>v. Ok (upd_security (\<lambda>s. s\<lparr>s_cap_drop := s_cap_drop s @ [v]\<rparr>) cfg)))
      else if flag = ''--seccomp'' then
        Some (val (\<lambda>v. r_map (\<lambda>m. upd_security (\<lambda>s. s\<lparr>s_seccomp := m\<rparr>) cfg) (seccomp_parse v)))
      else if flag = ''--privileged'' then Some (Ok (upd_security (\<lambda>s. s\<lparr>s_privileged := True\<rparr>) cfg, 0))
      else if flag = ''--no-new-privs'' then
        Some (r_map (\<lambda>b. (upd_security (\<lambda>s. s\<lparr>s_no_new_privs := b\<rparr>) cfg, 0))
          (case inl of Some v \<Rightarrow> parse_bool flag v | None \<Rightarrow> Ok True))
      else if flag = ''--user'' \<or> flag = ''-u'' then
        Some (val (\<lambda>v. r_map (\<lambda>u. upd_security (\<lambda>s. s\<lparr>s_user := Some u\<rparr>) cfg) (parse_user v)))
      else None)"

definition namespace_flag :: flag_group where
  "namespace_flag flag inl rest cfg =
     (if flag = ''--no-pid-ns'' then Some (Ok (upd_namespaces (\<lambda>n. n\<lparr>ns_pid := False\<rparr>) cfg, 0))
      else if flag = ''--no-ipc-ns'' then Some (Ok (upd_namespaces (\<lambda>n. n\<lparr>ns_ipc := False\<rparr>) cfg, 0))
      else if flag = ''--no-uts-ns'' then Some (Ok (upd_namespaces (\<lambda>n. n\<lparr>ns_uts := False\<rparr>) cfg, 0))
      else if flag = ''--no-cgroup-ns'' then Some (Ok (upd_namespaces (\<lambda>n. n\<lparr>ns_cgroup := False\<rparr>) cfg, 0))
      else None)"

definition config_flag :: flag_group where
  "config_flag flag inl rest cfg =
     or_else (container_flag flag inl rest cfg) (or_else (resource_flag flag inl rest cfg)
       (or_else (network_flag flag inl rest cfg) (or_else (security_flag flag inl rest cfg) (namespace_flag flag inl rest cfg))))"

record run_pass =
  rp_cfg :: container_config
  rp_config_path :: "string option"
  rp_detach :: bool
  rp_positional :: "string list"
  rp_end :: bool

definition sub_name :: "bool \<Rightarrow> string" where
  "sub_name run = (if run then ''run'' else ''create'')"

definition run_option :: "bool \<Rightarrow> string \<Rightarrow> string option \<Rightarrow> string list \<Rightarrow> run_pass \<Rightarrow> (run_pass \<times> nat) res" where
  "run_option run flag inl rest s =
     (if flag = ''--'' then Ok (s\<lparr>rp_end := True\<rparr>, 0)
      else if flag = ''-h'' \<or> flag = ''--help'' then Err (Usage (help_text (Some (sub_name run))))
      else if flag = ''--config'' \<or> flag = ''-c'' then with_value flag inl rest (\<lambda>v. Ok (s\<lparr>rp_config_path := Some v\<rparr>))
      else if flag = ''-d'' \<or> flag = ''--detach'' then Ok (s\<lparr>rp_detach := True\<rparr>, 0)
      else (case config_flag flag inl rest (rp_cfg s) of
          Some r \<Rightarrow> r_map (\<lambda>(c, used). (s\<lparr>rp_cfg := c\<rparr>, used)) r
        | None \<Rightarrow> Err (Usage (''unknown option '' @ debug_str flag @ '' for `myrun '' @ sub_name run @ ''`''))))"

definition run_step :: "bool \<Rightarrow> string \<Rightarrow> string list \<Rightarrow> run_pass \<Rightarrow> (run_pass \<times> nat) res" where
  "run_step run raw rest s =
     (if rp_end s \<or> \<not> starts_with raw ''-'' \<or> raw = ''-'' then
        (let pos = rp_positional s @ [raw] in
         if 2 \<le> length pos then Ok (s\<lparr>rp_positional := pos @ rest\<rparr>, length rest)
         else Ok (s\<lparr>rp_positional := pos\<rparr>, 0))
      else (case split_flag raw of (flag, inl) \<Rightarrow> run_option run flag inl rest s))"

text \<open>The positional form: the root, unless it is known, and the command.\<close>

definition apply_positional :: "string list \<Rightarrow> container_config \<Rightarrow> container_config" where
  "apply_positional pos cfg = (case pos of
      [] \<Rightarrow> cfg
    | p # ps \<Rightarrow>
        (let (cfg, pos) = (if c_rootfs cfg = [] then (cfg\<lparr>c_rootfs := p\<rparr>, ps) else (cfg, pos))
         in if pos \<noteq> [] then cfg\<lparr>c_command := pos\<rparr> else cfg))"

definition parse_run_pass :: "string list \<Rightarrow> bool \<Rightarrow> container_config \<Rightarrow> (run_args \<times> string option) res" where
  "parse_run_pass args run base =
     r_map (\<lambda>s.
        (\<lparr>ra_config = (apply_positional (rp_positional s) (rp_cfg s))\<lparr>c_detach := rp_detach s\<rparr>, ra_detach = rp_detach s\<rparr>,
         rp_config_path s))
       (args_loop (run_step run) args
         \<lparr>rp_cfg = base, rp_config_path = None, rp_detach = False, rp_positional = [], rp_end = False\<rparr>)"

text \<open>
  \<open>Path::extension\<close>: of the last component, which is not \<open>..\<close>, the part after the last dot,
  unless the dot comes first.
\<close>

definition path_extension :: "string \<Rightarrow> string option" where
  "path_extension p = (case rev (filter (\<lambda>c. c \<noteq> [] \<and> c \<noteq> ''.'') (str_split p (CHR ''/''))) of
      [] \<Rightarrow> None
    | n # _ \<Rightarrow> if n = ''..'' then None else (case rsplit_once n (CHR ''.'') of
          Some (b, e) \<Rightarrow> if b = [] then None else Some e
        | None \<Rightarrow> None))"

definition from_file :: "string \<Rightarrow> container_config act" where
  "from_file p = w_bind (on_fs (read_to_string p)) (\<lambda>text.
     w_bind (if path_extension p = Some ''json'' \<or> starts_with (trim_start text) ''{''
         then w_lift (json_parse text)
         else w_bind (w_panic (toml_parse text)) w_lift) (\<lambda>doc.
       w_lift (config_from_json doc)))"

definition parse_run :: "string list \<Rightarrow> bool \<Rightarrow> run_args act" where
  "parse_run args run =
     w_bind (w_lift (parse_run_pass args run config_default)) (\<lambda>(_, config_path).
     w_bind (case config_path of Some p \<Rightarrow> from_file p | None \<Rightarrow> w_ok config_default) (\<lambda>base.
     w_bind (w_lift (parse_run_pass args run base)) (\<lambda>(parsed, _).
       w_ok parsed)))"

section \<open>The other commands\<close>

definition require_ids :: "string list \<Rightarrow> string \<Rightarrow> string list res" where
  "require_ids args cmd =
     (let ids = filter (\<lambda>a. \<not> starts_with a ''-'') args in
      if ids = [] then Err (Usage (cmd @ '' needs at least one container'')) else Ok ids)"

text \<open>
  The last two arms of the option loops: a word that starts with a dash is an error, any other
  one is kept.
\<close>

definition other_word :: "string \<Rightarrow> string \<Rightarrow> string \<Rightarrow> (string \<Rightarrow> 's) \<Rightarrow> ('s \<times> nat) res" where
  "other_word cmd flag raw f =
     (if starts_with flag ''-'' then Err (Usage (''unknown option '' @ debug_str flag @ '' for '' @ cmd))
      else Ok (f raw, 0))"

definition start_step :: "string \<Rightarrow> string list \<Rightarrow> bool \<times> string option \<Rightarrow> ((bool \<times> string option) \<times> nat) res" where
  "start_step raw rest = (\<lambda>(attach, i). case split_flag raw of (flag, _) \<Rightarrow>
     if flag = ''-a'' \<or> flag = ''--attach'' then Ok ((True, i), 0)
     else other_word ''start'' flag raw (\<lambda>w. (attach, Some w)))"

definition parse_start :: "string list \<Rightarrow> command res" where
  "parse_start args = r_bind (args_loop start_step args (False, None)) (\<lambda>(attach, i).
     r_map (\<lambda>i. CmdStart i attach) (ok_or (Usage ''start needs a container'') i))"

definition some_ids :: "string \<Rightarrow> string list \<Rightarrow> command \<Rightarrow> command res" where
  "some_ids cmd ids c = (if ids = [] then Err (Usage (cmd @ '' needs at least one container'')) else Ok c)"

definition stop_step :: "string \<Rightarrow> string list \<Rightarrow> u64 \<times> string list \<Rightarrow> ((u64 \<times> string list) \<times> nat) res" where
  "stop_step raw rest = (\<lambda>(timeout, ids). case split_flag raw of (flag, inl) \<Rightarrow>
     if flag = ''-t'' \<or> flag = ''--timeout'' \<or> flag = ''--time'' then
       with_value flag inl rest (\<lambda>v. r_map (\<lambda>t. (t, ids)) (ok_or (Usage ''--timeout expects seconds'') (parse_u64 v)))
     else other_word ''stop'' flag raw (\<lambda>w. (timeout, ids @ [w])))"

definition parse_stop :: "string list \<Rightarrow> command res" where
  "parse_stop args = r_bind (args_loop stop_step args (of_nat DEFAULT_STOP_TIMEOUT, [])) (\<lambda>(timeout, ids).
     some_ids ''stop'' ids (CmdStop ids timeout))"

definition kill_step :: "string \<Rightarrow> string list \<Rightarrow> i32 \<times> string list \<Rightarrow> ((i32 \<times> string list) \<times> nat) res" where
  "kill_step raw rest = (\<lambda>(sg, ids). case split_flag raw of (flag, inl) \<Rightarrow>
     if flag = ''-s'' \<or> flag = ''--signal'' then with_value flag inl rest (\<lambda>v. r_map (\<lambda>n. (n, ids)) (parse_signal v))
     else other_word ''kill'' flag raw (\<lambda>w. (sg, ids @ [w])))"

definition parse_kill :: "string list \<Rightarrow> command res" where
  "parse_kill args = r_bind (args_loop kill_step args (SIGTERM, [])) (\<lambda>(sg, ids). some_ids ''kill'' ids (CmdKill ids sg))"

definition delete_step :: "string \<Rightarrow> string list \<Rightarrow> bool \<times> string list \<Rightarrow> ((bool \<times> string list) \<times> nat) res" where
  "delete_step raw rest = (\<lambda>(force, ids). case split_flag raw of (flag, _) \<Rightarrow>
     if flag = ''-f'' \<or> flag = ''--force'' then Ok ((True, ids), 0)
     else other_word ''rm'' flag raw (\<lambda>w. (force, ids @ [w])))"

definition parse_delete :: "string list \<Rightarrow> command res" where
  "parse_delete args = r_bind (args_loop delete_step args (False, [])) (\<lambda>(force, ids). some_ids ''rm'' ids (CmdDelete ids force))"

definition list_step :: "string \<Rightarrow> string list \<Rightarrow> bool \<times> bool \<times> bool \<Rightarrow> ((bool \<times> bool \<times> bool) \<times> nat) res" where
  "list_step raw rest = (\<lambda>(all, json, quiet). case split_flag raw of (flag, _) \<Rightarrow>
     if flag = ''-a'' \<or> flag = ''--all'' then Ok ((True, json, quiet), 0)
     else if flag = ''--json'' then Ok ((all, True, quiet), 0)
     else if flag = ''-q'' \<or> flag = ''--quiet'' then Ok ((all, json, True), 0)
     else Err (Usage (''unknown option '' @ debug_str flag @ '' for list'')))"

definition parse_list :: "string list \<Rightarrow> command res" where
  "parse_list args = r_map (\<lambda>(all, json, quiet). CmdList all json quiet) (args_loop list_step args (False, False, False))"

definition interval_of :: "string \<Rightarrow> u64 res" where
  "interval_of v = r_bind (ok_or (Usage ''--interval expects seconds'') (parse_f64 v)) (\<lambda>secs.
     if f64_le secs (f64_of_nat 0) then Err (Usage ''--interval must be positive'')
     else Ok (f64_as_u64 (f64_mul secs (f64_of_nat 1000))))"

definition stats_step :: "string \<Rightarrow> string list \<Rightarrow> bool \<times> bool \<times> u64 \<times> string list \<Rightarrow> ((bool \<times> bool \<times> u64 \<times> string list) \<times> nat) res" where
  "stats_step raw rest = (\<lambda>(json, follow, interval, ids). case split_flag raw of (flag, inl) \<Rightarrow>
     if flag = ''--json'' then Ok ((True, follow, interval, ids), 0)
     else if flag = ''-f'' \<or> flag = ''--follow'' then Ok ((json, True, interval, ids), 0)
     else if flag = ''-i'' \<or> flag = ''--interval'' then with_value flag inl rest (\<lambda>v. r_map (\<lambda>n. (json, follow, n, ids)) (interval_of v))
     else other_word ''stats'' flag raw (\<lambda>w. (json, follow, interval, ids @ [w])))"

definition parse_stats :: "string list \<Rightarrow> command res" where
  "parse_stats args = r_map (\<lambda>(json, follow, interval, ids). CmdStats ids json follow interval)
     (args_loop stats_step args (False, False, 1000, []))"

definition logs_step ::
  "string \<Rightarrow> string list \<Rightarrow> bool \<times> u64 option \<times> string option \<Rightarrow> ((bool \<times> u64 option \<times> string option) \<times> nat) res" where
  "logs_step raw rest = (\<lambda>(follow, tail, i). case split_flag raw of (flag, inl) \<Rightarrow>
     if flag = ''-f'' \<or> flag = ''--follow'' then Ok ((True, tail, i), 0)
     else if flag = ''-n'' \<or> flag = ''--tail'' then with_value flag inl rest (\<lambda>v.
       if v \<noteq> ''all'' then r_map (\<lambda>n. (follow, Some n, i))
         (ok_or (Usage (''--tail expects a number or '' @ [CHR 0x27] @ ''all'' @ [CHR 0x27])) (parse_u64 v))
       else Ok (follow, tail, i))
     else other_word ''logs'' flag raw (\<lambda>w. (follow, tail, Some w)))"

definition parse_logs :: "string list \<Rightarrow> command res" where
  "parse_logs args = r_bind (args_loop logs_step args (False, None, None)) (\<lambda>(follow, tail, i).
     r_map (\<lambda>i. CmdLogs i follow tail) (ok_or (Usage ''logs needs a container'') i))"

definition wait_step :: "string \<Rightarrow> string list \<Rightarrow> u64 option \<times> string list \<Rightarrow> ((u64 option \<times> string list) \<times> nat) res" where
  "wait_step raw rest = (\<lambda>(timeout, ids). case split_flag raw of (flag, inl) \<Rightarrow>
     if flag = ''-t'' \<or> flag = ''--timeout'' then
       with_value flag inl rest (\<lambda>v. r_map (\<lambda>t. (Some t, ids)) (ok_or (Usage ''--timeout expects seconds'') (parse_u64 v)))
     else other_word ''wait'' flag raw (\<lambda>w. (timeout, ids @ [w])))"

definition parse_wait :: "string list \<Rightarrow> command res" where
  "parse_wait args = r_bind (args_loop wait_step args (None, [])) (\<lambda>(timeout, ids). some_ids ''wait'' ids (CmdWait ids timeout))"

definition parse_shim :: "string list \<Rightarrow> command res" where
  "parse_shim args = r_bind (ok_or (Usage ''__shim needs a state directory'') (args_next args)) (\<lambda>d.
     r_bind (ok_or (Usage ''__shim needs a notify fd'') (args_next (tl args))) (\<lambda>f.
     r_map (CmdShim d) (ok_or (Usage ''__shim notify fd must be a number'') (parse_i32 f))))"

section \<open>The whole line\<close>

definition set_var :: "string \<Rightarrow> string \<Rightarrow> unit act" where
  "set_var name v w = Some (Ok (), w\<lparr>w_env := (w_env w)(name \<mapsto> v)\<rparr>)"

text \<open>
  The options before the command: either the line is a request for help or for the version, or
  the command and the words after it.
\<close>

function parse_globals :: "string list \<Rightarrow> (command + (string \<times> string list) option) act" where
  "parse_globals [] = w_ok (Inr None)"
| "parse_globals (a # rest) = (case split_flag a of (flag, inl) \<Rightarrow>
     if flag = ''-h'' \<or> flag = ''--help'' then w_ok (Inl (CmdHelp (args_next rest)))
     else if flag = ''-V'' \<or> flag = ''--version'' then w_ok (Inl CmdVersion)
     else if flag = ''--log'' then (case arg_value ''--log'' inl rest of
         Ok (v, used) \<Rightarrow> w_bind (set_var ''MYRUN_LOG'' v) (\<lambda>_. parse_globals (drop used rest))
       | Err e \<Rightarrow> w_err e)
     else if flag = ''--root'' then (case arg_value ''--root'' inl rest of
         Ok (v, used) \<Rightarrow> w_bind (set_var ''MYRUN_ROOT'' v) (\<lambda>_. parse_globals (drop used rest))
       | Err e \<Rightarrow> w_err e)
     else if flag = ''--debug'' then w_bind (set_var ''MYRUN_LOG'' ''debug'') (\<lambda>_. parse_globals rest)
     else if starts_with flag ''-'' then
       w_err (Usage (''unknown global option '' @ debug_str flag @ ''; run `myrun --help`''))
     else w_ok (Inr (Some (a, rest))))"
  by pat_completeness auto
termination by (relation "measure length") auto

definition parse_command :: "string \<Rightarrow> string list \<Rightarrow> command act" where
  "parse_command sub args =
     (if sub = ''run'' then w_bind (parse_run args True) (\<lambda>r. w_ok (CmdRun r))
      else if sub = ''create'' then w_bind (parse_run args False) (\<lambda>r. w_ok (CmdCreate r))
      else w_lift (
        if sub = ''start'' then parse_start args
        else if sub = ''stop'' then parse_stop args
        else if sub = ''kill'' then parse_kill args
        else if sub = ''rm'' \<or> sub = ''delete'' \<or> sub = ''remove'' then parse_delete args
        else if sub = ''ls'' \<or> sub = ''list'' \<or> sub = ''ps'' then parse_list args
        else if sub = ''inspect'' then r_map CmdInspect (require_ids args ''inspect'')
        else if sub = ''stats'' then parse_stats args
        else if sub = ''pause'' then r_map CmdPause (require_ids args ''pause'')
        else if sub = ''unpause'' \<or> sub = ''resume'' then r_map CmdUnpause (require_ids args ''unpause'')
        else if sub = ''logs'' then parse_logs args
        else if sub = ''wait'' then parse_wait args
        else if sub = ''gc'' \<or> sub = ''prune'' then Ok CmdGc
        else if sub = ''info'' then Ok CmdInfo
        else if sub = ''help'' then Ok (CmdHelp (args_next args))
        else if sub = ''version'' then Ok CmdVersion
        else if sub = ''__init'' then r_map CmdInit (ok_or (Usage ''__init needs a state directory'') (args_next args))
        else if sub = ''__shim'' then parse_shim args
        else Err (Usage (''unknown command '' @ debug_str sub @ ''; run `myrun --help` for the list''))))"

definition cli_parse :: "string list \<Rightarrow> command act" where
  "cli_parse argv = w_bind (parse_globals argv) (\<lambda>g. case g of
      Inl c \<Rightarrow> w_ok c
    | Inr None \<Rightarrow> w_ok (CmdHelp None)
    | Inr (Some (sub, args)) \<Rightarrow> parse_command sub args)"

end
