(* ===== verification/Stats.thy ===== *)
theory Stats
  imports Supervisor
begin

text \<open>
  Statistics (\<open>runtime/stats.rs\<close>): what is read from the kernel about one container, its rates, its
  JSON form and its row of the table.
\<close>

section \<open>The record\<close>

record stats =
  st_id :: string
  st_name :: "string option"
  st_status :: string
  st_pid :: i32
  st_uptime_ms :: u64
  st_cgroup :: cgroup_stats
  st_net_rx_bytes :: u64
  st_net_tx_bytes :: u64
  st_net_rx_packets :: u64
  st_net_tx_packets :: u64
  st_net_available :: bool
  st_process_count :: "u64 option"

definition cgroup_stats_default :: cgroup_stats where
  "cgroup_stats_default = \<lparr>c_memory_current = None, c_memory_peak = None, c_memory_max = None, c_oom_kills = 0,
     c_cpu_usage_usec = None, c_cpu_user_usec = None, c_cpu_system_usec = None, c_nr_throttled = 0, c_throttled_usec = 0,
     c_pids_current = None, c_pids_max = None\<rparr>"

section \<open>Rates\<close>

text \<open>\<open>usec as f64 / 1000.0 / ms as f64 * 100.0\<close>.\<close>

definition cpu_percent :: "u64 \<Rightarrow> u64 \<Rightarrow> f64" where
  "cpu_percent usec ms = f64_mul (f64_div (f64_div (f64_of_nat (unat usec)) (f64_of_nat 1000)) (f64_of_nat (unat ms))) (f64_of_nat 100)"

definition cpu_percent_lifetime :: "stats \<Rightarrow> f64 option" where
  "cpu_percent_lifetime s = Option.bind (c_cpu_usage_usec (st_cgroup s)) (\<lambda>usec.
     if st_uptime_ms s = 0 then None else Some (cpu_percent usec (st_uptime_ms s)))"

definition memory_percent :: "stats \<Rightarrow> f64 option" where
  "memory_percent s = Option.bind (c_memory_current (st_cgroup s)) (\<lambda>cur.
     Option.bind (c_memory_max (st_cgroup s)) (\<lambda>mx.
       if mx = 0 then None
       else Some (f64_mul (f64_div (f64_of_nat (unat cur)) (f64_of_nat (unat mx))) (f64_of_nat 100))))"

definition cpu_delta_percent :: "stats \<Rightarrow> stats \<Rightarrow> u64 \<Rightarrow> f64 option" where
  "cpu_delta_percent prev cur interval_ms = Option.bind (c_cpu_usage_usec (st_cgroup prev)) (\<lambda>a.
     Option.bind (c_cpu_usage_usec (st_cgroup cur)) (\<lambda>b.
       if interval_ms = 0 \<or> b < a then None else Some (cpu_percent (b - a) interval_ms)))"

section \<open>Output\<close>

definition stats_to_json :: "stats \<Rightarrow> json" where
  "stats_to_json s =
     (let cg = st_cgroup s in
      json_build [
        (''id'', Str (st_id s)),
        (''name'', opt_str (st_name s)),
        (''status'', Str (st_status s)),
        (''pid'', JInt (scast (st_pid s))),
        (''uptime_ms'', JInt (st_uptime_ms s)),
        (''memory'', json_build [(''current'', opt_u64 (c_memory_current cg)), (''peak'', opt_u64 (c_memory_peak cg)),
           (''limit'', opt_u64 (c_memory_max cg)), (''oom_kills'', JInt (c_oom_kills cg))]),
        (''cpu'', json_build [(''usage_usec'', opt_u64 (c_cpu_usage_usec cg)), (''user_usec'', opt_u64 (c_cpu_user_usec cg)),
           (''system_usec'', opt_u64 (c_cpu_system_usec cg)), (''nr_throttled'', JInt (c_nr_throttled cg)),
           (''throttled_usec'', JInt (c_throttled_usec cg))]),
        (''pids'', json_build [(''current'', opt_u64 (or_else (c_pids_current cg) (st_process_count s))),
           (''limit'', opt_u64 (c_pids_max cg))]),
        (''network'', json_build [(''available'', Bool (st_net_available s)), (''rx_bytes'', JInt (st_net_rx_bytes s)),
           (''tx_bytes'', JInt (st_net_tx_bytes s)), (''rx_packets'', JInt (st_net_rx_packets s)),
           (''tx_packets'', JInt (st_net_tx_packets s))])])"

definition dash_or :: "string option \<Rightarrow> string" where
  "dash_or = unwrap_or ''-''"

definition table_row :: "stats \<Rightarrow> string list" where
  "table_row s =
     [short_id (st_id s), dash_or (st_name s), st_status s,
      dash_or (map_option (\<lambda>p. show_f64_fixed 2 p @ ''%'') (cpu_percent_lifetime s)),
      (case (c_memory_current (st_cgroup s), c_memory_max (st_cgroup s)) of
         (Some c, Some m) \<Rightarrow> format_bytes c @ '' / '' @ format_bytes m
       | (Some c, None) \<Rightarrow> format_bytes c @ '' / -''
       | _ \<Rightarrow> ''-''),
      dash_or (map_option (\<lambda>p. show_nat (unat p)) (or_else (c_pids_current (st_cgroup s)) (st_process_count s))),
      (if st_net_available s then format_bytes (st_net_rx_bytes s) @ '' / '' @ format_bytes (st_net_tx_bytes s) else ''-'')]"

definition HEADERS :: "string list" where
  "HEADERS = [''CONTAINER'', ''NAME'', ''STATUS'', ''CPU'', ''MEM / LIMIT'', ''PIDS'', ''NET RX / TX'']"

section \<open>Collecting\<close>

definition process_count_via_proc :: "i32 \<Rightarrow> u64 option act" where
  "process_count_via_proc pid =
     (if sint pid \<le> 0 then w_ok None
      else w_call (KReadDir (''/proc/'' @ show_int (sint pid) @ ''/task'')) (\<lambda>r.
        w_ok (map_option (\<lambda>names. of_nat (length names)) (r_ok (reply_names r)))))"

definition nl_stats :: "string \<Rightarrow> (u32, link_stats) lact" where
  "nl_stats name = l_bind (nl_exchange get_links_msg True) (\<lambda>rs. l_lift (link_stats_of name rs))"

definition w_uptime :: "container_state \<Rightarrow> u64 act" where
  "w_uptime st = on_fs (\<lambda>s. case uptime_ms st s of (t, s') \<Rightarrow> (Ok t, s'))"

definition collect_cgroup :: "container_state \<Rightarrow> cgroup_stats act" where
  "collect_cgroup st = (case cs_cgroup_path st of
      None \<Rightarrow> w_ok cgroup_stats_default
    | Some path \<Rightarrow> w_try (cg_attach path) (\<lambda>r. case r of
        Ok cg \<Rightarrow> cg_stats cg | Err _ \<Rightarrow> w_ok cgroup_stats_default))"

text \<open>The counters of the host's end of the pair, when there is one and it answers.\<close>

definition collect_link :: "container_state \<Rightarrow> link_stats option act" where
  "collect_link st = (case ns_host_veth (cs_network st) of
      None \<Rightarrow> w_ok None
    | Some veth \<Rightarrow> w_try nl_open (\<lambda>r. case r of
        Ok _ \<Rightarrow> w_try (l_only 1 (nl_stats veth)) (\<lambda>r. w_ok (r_ok r))
      | Err _ \<Rightarrow> w_ok None))"

definition with_link :: "link_stats option \<Rightarrow> stats \<Rightarrow> stats" where
  "with_link l s = (case l of
      None \<Rightarrow> s
    | Some ls \<Rightarrow> s\<lparr>st_net_rx_bytes := tx_bytes ls, st_net_tx_bytes := rx_bytes ls, st_net_rx_packets := tx_packets ls,
        st_net_tx_packets := rx_packets ls, st_net_available := True\<rparr>)"

definition stats_collect :: "container_state \<Rightarrow> stats act" where
  "stats_collect st =
     w_bind (w_uptime st) (\<lambda>up.
     w_bind (process_count_via_proc (cs_init_pid st)) (\<lambda>pc.
     w_bind (collect_cgroup st) (\<lambda>cg.
     w_bind (collect_link st) (\<lambda>l.
       w_ok (with_link l \<lparr>st_id = cs_id st, st_name = cs_name st, st_status = status_as_str (cs_status st),
         st_pid = cs_init_pid st, st_uptime_ms = up, st_cgroup = cg, st_net_rx_bytes = 0, st_net_tx_bytes = 0,
         st_net_rx_packets = 0, st_net_tx_packets = 0, st_net_available = False, st_process_count = pc\<rparr>)))))"

definition container_view :: "link_stats \<Rightarrow> u64 \<times> u64" where
  "container_view ls = (tx_bytes ls, rx_bytes ls)"

end
