(* ===== verification/Main_Program.thy ===== *)
theory Main_Program
  imports Cli Stats Init
begin

text \<open>
  The program itself (\<open>main.rs\<close>): one operation per command, the dispatch, and the exit status.  What
  is printed is a write to descriptor 1 or 2, one per \<open>println!\<close>; a failing write panics, except that
  a closed descriptor swallows the text.  \<open>caller\<close> is what a process knows of itself.
\<close>

section \<open>Helpers\<close>

record caller =
  ca_me :: nat
  ca_arch :: arch
  ca_euid :: nat
  ca_run_is_dir :: bool
  ca_host :: host

definition VERSION :: string where "VERSION = ''0.1.0''"
definition EBADF :: int where "EBADF = 9"

definition w_print :: "int \<Rightarrow> string \<Rightarrow> unit act" where
  "w_print fd text = (if text = [] then w_ok () else w_call (KFd (FWrite fd text)) (\<lambda>r.
     w_panic (case reply_unit r of Ok _ \<Rightarrow> Some () | Err e \<Rightarrow> if e = EBADF then Some () else None)))"

definition println :: "string \<Rightarrow> unit act" where
  "println text = w_print 1 (text @ [CHR 0x0A])"

definition eprintln :: "string \<Rightarrow> unit act" where
  "eprintln text = w_print 2 (text @ [CHR 0x0A])"

definition caller_root :: "caller \<Rightarrow> world \<Rightarrow> string" where
  "caller_root ca w = runtime_root \<lparr>myrun_root = w_env w ''MYRUN_ROOT'', xdg_runtime_dir = w_env w ''XDG_RUNTIME_DIR'',
     euid = ca_euid ca, run_is_dir = ca_run_is_dir ca\<rparr>"

definition open_store :: "caller \<Rightarrow> string act" where
  "open_store ca = w_get (\<lambda>w. on_fs (store_open (caller_root ca w)))"

definition resolve_id :: "string \<Rightarrow> string \<Rightarrow> string act" where
  "resolve_id root needle = on_fs (store_resolve root needle)"

definition ROOT_TEXT :: string where
  "ROOT_TEXT = '' needs root: creating namespaces, cgroups and veth pairs are all privileged operations. Re-run with sudo. '' @
     ''(Rootless containers would need user namespaces and a setuid helper for networking; see docs/security.md.)''"

definition require_root :: "caller \<Rightarrow> string \<Rightarrow> unit act" where
  "require_root ca action = (if ca_euid ca = 0 then w_ok () else w_err (Unsupported (action @ ROOT_TEXT)))"

text \<open>
  \<open>let _ = store.reconcile(&mut st)\<close>: the state is marked whether or not it could be saved.
\<close>

definition mark_gone :: "container_state \<Rightarrow> container_state io" where
  "mark_gone st s = (case stamp_finished (st\<lparr>cs_status := Stopped\<rparr>) s of (st1, s') \<Rightarrow>
     (Ok (if cs_error st1 = None then st1\<lparr>cs_error := Some reconcile_error\<rparr> else st1), s'))"

definition reconciled :: "string \<Rightarrow> nat \<Rightarrow> container_state \<Rightarrow> container_state act" where
  "reconciled root me st =
     (if \<not> is_live (cs_status st) then w_ok st
      else w_bind (w_init_is_alive st) (\<lambda>alive.
        if alive then w_ok st
        else w_bind (on_fs (mark_gone st)) (\<lambda>st'. w_bind (w_ignore (on_fs (store_save root me st'))) (\<lambda>_. w_ok st'))))"

section \<open>Tables\<close>

text \<open>\<open>{:width$}\<close> counts characters, \<open>len\<close> counts bytes.\<close>

definition char_count :: "string \<Rightarrow> nat" where
  "char_count s = length (filter (\<lambda>c. \<not> utf8_cont (byte c)) s)"

definition pad_right :: "nat \<Rightarrow> string \<Rightarrow> string" where
  "pad_right n s = s @ replicate (n - char_count s) (CHR '' '')"

fun widen :: "nat list \<Rightarrow> string list \<Rightarrow> nat list" where
  "widen (w # ws) (c # cs) = max w (length c) # widen ws cs"
| "widen ws _ = ws"

text \<open>A row with more cells than there are headers would be read out of bounds.\<close>

fun table_cells :: "nat list \<Rightarrow> string list \<Rightarrow> string option" where
  "table_cells ws [] = Some []"
| "table_cells ws [c] = Some c"
| "table_cells (w # ws) (c # d # cs) = map_option (\<lambda>t. pad_right w c @ ''   '' @ t) (table_cells ws (d # cs))"
| "table_cells [] (c # d # cs) = None"

definition print_table :: "string list \<Rightarrow> string list list \<Rightarrow> unit act" where
  "print_table headers rows =
     (let widths = fold (\<lambda>r ws. widen ws r) rows (map length headers) in
      w_each (\<lambda>cells. w_bind (w_panic (table_cells widths cells)) (\<lambda>l. println (trim_end l))) (headers # rows))"

section \<open>Running a container\<close>

definition build_state :: "host \<Rightarrow> container_config \<Rightarrow> bool \<Rightarrow> container_state act" where
  "build_state h cfg detach =
     w_bind (w_lift (finalize_and_validate h True cfg)) (\<lambda>cfg.
     w_bind (w_lift (sec_precheck (c_security cfg))) (\<lambda>_.
       on_fs (state_new (cfg\<lparr>c_detach := detach\<rparr>))))"

definition cmd_create :: "caller \<Rightarrow> run_args \<Rightarrow> i32 act" where
  "cmd_create ca args =
     w_bind (require_root ca ''creating a container'') (\<lambda>_.
     w_bind (open_store ca) (\<lambda>root.
     w_bind (build_state (ca_host ca) (ra_config args) (ra_detach args)) (\<lambda>st.
     w_bind (sup_create root (ca_me ca) st) (\<lambda>st.
     w_bind (println (cs_id st)) (\<lambda>_. w_ok 0)))))"

definition ATTACHED_SIGNALS :: "i32 list" where
  "ATTACHED_SIGNALS = [2, 15, 3, 1]"

partial_function (option) relay_signals :: "i32 \<Rightarrow> int \<Rightarrow> unit act" where
  "relay_signals pid sfd w =
     w_try (next_signal sfd) (\<lambda>r. case r of
         Ok (Some signo) \<Rightarrow> w_bind (w_ignore (kill_pid pid signo)) (\<lambda>_. relay_signals pid sfd)
       | _ \<Rightarrow> w_ok ()) w"

fun reply_events :: "reply \<Rightarrow> (int \<times> int, int) result" where
  "reply_events (RFds a b) = Ok (a, b)"
| "reply_events (RFail e) = Err e"
| "reply_events _ = Err EIO"

partial_function (option) poll_chan :: "int \<Rightarrow> int \<Rightarrow> (int \<times> int) act" where
  "poll_chan sfd timeout w = (case k_call (KSec (SPollChan sfd timeout)) w of (r, w') \<Rightarrow>
     (case reply_events r of
        Ok ev \<Rightarrow> Some (Ok ev, w')
      | Err e \<Rightarrow> if e = EINTR then poll_chan sfd timeout w' else Some (Err (Syscall ''poll'' e ''2 fds''), w')))"

text \<open>Waiting in the foreground, until init is gone or has something to say.\<close>

partial_function (option) attached_loop :: "container_state \<Rightarrow> int \<Rightarrow> unit act" where
  "attached_loop st sfd w =
     w_try (poll_chan sfd 500) (\<lambda>r. case r of
         Err _ \<Rightarrow> attached_loop st sfd
       | Ok (ev_sig, ev_chan) \<Rightarrow>
           if ev_sig = 0 \<and> ev_chan = 0
           then w_bind (w_init_is_alive st) (\<lambda>alive. if \<not> alive then w_ok () else attached_loop st sfd)
           else w_bind (if ev_sig \<noteq> 0 then relay_signals (cs_init_pid st) sfd else w_ok ()) (\<lambda>_.
                if ev_chan \<noteq> 0 then w_ok () else attached_loop st sfd)) w"

definition report_exit :: "container_state \<Rightarrow> unit act" where
  "report_exit st =
     (if cs_oom_killed st
      then eprintln (''myrun: container '' @ short_id (cs_id st) @ '' was killed by the kernel OOM killer'')
      else w_ok ())"

definition run_attached :: "string \<Rightarrow> nat \<Rightarrow> container_state \<Rightarrow> i32 act" where
  "run_attached root me st =
     w_bind (launch root me st) (\<lambda>(r, st1). case r of
       Err e \<Rightarrow> w_bind (w_ignore (on_fs (store_remove root (cs_id st1)))) (\<lambda>_. w_err e)
     | Ok ru \<Rightarrow>
         w_bind (sig_block ATTACHED_SIGNALS) (\<lambda>_.
         w_bind (signal_fd_new ATTACHED_SIGNALS) (\<lambda>sfd.
         w_bind (attached_loop st1 sfd) (\<lambda>_.
         w_bind (wait_for_exit root me ru st1) (\<lambda>(x, st2).
         w_bind (w_lift x) (\<lambda>status.
         w_bind (sup_teardown root me st2) (\<lambda>st3.
         w_bind (if c_auto_remove (cs_config st3) then w_ignore (on_fs (store_remove root (cs_id st3))) else w_ok ()) (\<lambda>_.
         w_bind (report_exit st3) (\<lambda>_.
           w_ok (status_exit_code status))))))))))"

definition cmd_run :: "caller \<Rightarrow> run_args \<Rightarrow> i32 act" where
  "cmd_run ca args =
     w_bind (require_root ca ''running a container'') (\<lambda>_.
     w_bind (open_store ca) (\<lambda>root.
     w_bind (build_state (ca_host ca) (ra_config args) (ra_detach args)) (\<lambda>st.
     w_bind (sup_create root (ca_me ca) st) (\<lambda>st.
       if ra_detach args
       then w_try shim_spawn (\<lambda>r. case r of
           Ok _ \<Rightarrow> w_bind (println (cs_id st)) (\<lambda>_. w_ok 0)
         | Err e \<Rightarrow> w_bind (w_ignore (on_fs (store_remove root (cs_id st)))) (\<lambda>_. w_err e))
       else run_attached root (ca_me ca) st))))"

definition cmd_start :: "caller \<Rightarrow> string \<Rightarrow> bool \<Rightarrow> i32 act" where
  "cmd_start ca needle attach =
     w_bind (require_root ca ''starting a container'') (\<lambda>_.
     w_bind (open_store ca) (\<lambda>root.
     w_bind (resolve_id root needle) (\<lambda>i.
       if attach
       then w_bind (on_fs (store_load root i)) (\<lambda>st.
         if cs_status st \<noteq> Created
         then w_err (InvalidState (''container '' @ short_id i @ '' is '' @ status_as_str (cs_status st) @ '', not created''))
         else run_attached root (ca_me ca) (st\<lparr>cs_config := (cs_config st)\<lparr>c_detach := False\<rparr>\<rparr>))
       else w_bind (life_start root (ca_me ca) i) (\<lambda>st. w_bind (println (cs_id st)) (\<lambda>_. w_ok 0)))))"

section \<open>Commands on several containers\<close>

text \<open>Every container is tried; the failures are counted.\<close>

definition each_container :: "(string \<Rightarrow> string \<Rightarrow> string act) \<Rightarrow> string \<Rightarrow> string \<Rightarrow> nat \<Rightarrow> nat act" where
  "each_container f root needle failures =
     w_try (w_bind (resolve_id root needle) (f root)) (\<lambda>r. case r of
         Ok out \<Rightarrow> w_bind (println out) (\<lambda>_. w_ok failures)
       | Err e \<Rightarrow> w_bind (eprintln (''myrun: '' @ needle @ '': '' @ display_error e)) (\<lambda>_. w_ok (failures + 1)))"

definition for_each :: "caller \<Rightarrow> string list \<Rightarrow> (string \<Rightarrow> string \<Rightarrow> string act) \<Rightarrow> i32 act" where
  "for_each ca ids f =
     w_bind (open_store ca) (\<lambda>root.
     w_bind (w_fold (each_container f root) ids 0) (\<lambda>failures.
       w_ok (if failures > 0 then word_of_int GENERIC else 0)))"

definition then_id :: "'a act \<Rightarrow> string \<Rightarrow> string act" where
  "then_id m i = w_bind m (\<lambda>_. w_ok i)"

definition cmd_stop :: "caller \<Rightarrow> string list \<Rightarrow> u64 \<Rightarrow> i32 act" where
  "cmd_stop ca ids timeout = for_each ca ids (\<lambda>root i. then_id (life_stop root (ca_me ca) i (unat timeout)) i)"

definition cmd_kill :: "caller \<Rightarrow> string list \<Rightarrow> i32 \<Rightarrow> i32 act" where
  "cmd_kill ca ids sg = for_each ca ids (\<lambda>root i. then_id (life_kill root (ca_me ca) i sg (sg = SIGKILL)) i)"

definition cmd_delete :: "caller \<Rightarrow> string list \<Rightarrow> bool \<Rightarrow> i32 act" where
  "cmd_delete ca ids force = for_each ca ids (\<lambda>root i. then_id (life_delete root (ca_me ca) i force) i)"

definition cmd_simple :: "caller \<Rightarrow> string list \<Rightarrow> (string \<Rightarrow> nat \<Rightarrow> string \<Rightarrow> unit act) \<Rightarrow> i32 act" where
  "cmd_simple ca ids op = for_each ca ids (\<lambda>root i. then_id (op root (ca_me ca) i) i)"

section \<open>Looking at containers\<close>

definition all_reconciled :: "string \<Rightarrow> nat \<Rightarrow> container_state list act" where
  "all_reconciled root me = w_bind (on_fs (store_list root)) (w_mapM (reconciled root me))"

definition listed :: "bool \<Rightarrow> container_state \<Rightarrow> bool" where
  "listed all st \<longleftrightarrow> all \<or> is_live (cs_status st) \<or> cs_status st = Created"

definition exit_cell :: "container_state \<Rightarrow> string" where
  "exit_cell st = (case (cs_status st, cs_exit_code st, cs_exit_signal st) of
      (Stopped, Some c, _) \<Rightarrow> ''exited('' @ show_int (sint c) @ '')''
    | (Stopped, None, Some sg) \<Rightarrow> ''signal('' @ signal_name sg @ '')''
    | _ \<Rightarrow> ''-'')"

definition list_row :: "container_state \<Rightarrow> string list act" where
  "list_row st =
     w_bind (if cs_started_at st > 0 then w_bind (w_uptime st) (\<lambda>t. w_ok (format_duration_ms t)) else w_ok ''-'') (\<lambda>up.
       w_ok [short_id (cs_id st), dash_or (cs_name st), status_as_str (cs_status st),
         (if sint (cs_init_pid st) > 0 \<and> is_live (cs_status st) then show_int (sint (cs_init_pid st)) else ''-''),
         chars_take 30 (str_join '' '' (c_command (cs_config st))), dash_or (ns_ip (cs_network st)), up, exit_cell st])"

definition LIST_HEADERS :: "string list" where
  "LIST_HEADERS = [''CONTAINER'', ''NAME'', ''STATUS'', ''PID'', ''COMMAND'', ''IP'', ''UPTIME'', ''EXIT'']"

definition cmd_list :: "caller \<Rightarrow> bool \<Rightarrow> bool \<Rightarrow> bool \<Rightarrow> i32 act" where
  "cmd_list ca all as_json only_ids =
     w_bind (open_store ca) (\<lambda>root.
     w_bind (all_reconciled root (ca_me ca)) (\<lambda>sts.
     (let shown = filter (listed all) sts in
      if as_json then w_bind (println (json_to_string_pretty (Arr (map state_to_json shown)))) (\<lambda>_. w_ok 0)
      else if only_ids then w_bind (w_each (\<lambda>st. println (cs_id st)) shown) (\<lambda>_. w_ok 0)
      else w_bind (w_mapM list_row shown) (\<lambda>rows. w_bind (print_table LIST_HEADERS rows) (\<lambda>_. w_ok 0)))))"

definition inspect_one :: "string \<Rightarrow> nat \<Rightarrow> string \<Rightarrow> json act" where
  "inspect_one root me needle =
     w_bind (resolve_id root needle) (\<lambda>i.
     w_bind (on_fs (store_load root i)) (\<lambda>st.
     w_bind (reconciled root me st) (\<lambda>st.
     w_bind (w_uptime st) (\<lambda>up.
     (let j = json_set ''created'' (Str (format_time (cs_created_at st)))
        (json_set ''uptime_ms'' (JInt up)
        (json_set ''security_summary'' (Str (sec_summary (c_security (cs_config st)))) (state_to_json st)))
      in w_ok (if cs_finished_at st > 0 then json_set ''finished'' (Str (format_time (cs_finished_at st))) j else j))))))"

definition cmd_inspect :: "caller \<Rightarrow> string list \<Rightarrow> i32 act" where
  "cmd_inspect ca ids =
     w_bind (open_store ca) (\<lambda>root.
     w_bind (w_mapM (inspect_one root (ca_me ca)) ids) (\<lambda>out.
     w_bind (println (json_to_string_pretty (Arr out))) (\<lambda>_. w_ok 0)))"

definition collect_all :: "string \<Rightarrow> nat \<Rightarrow> string list \<Rightarrow> stats list act" where
  "collect_all root me ids =
     w_bind (if ids = []
         then w_bind (on_fs (store_list root)) (\<lambda>sts. w_ok (map cs_id (filter (\<lambda>st. is_live (cs_status st)) sts)))
         else w_mapM (resolve_id root) ids) (\<lambda>targets.
       w_mapM (\<lambda>i. w_bind (on_fs (store_load root i)) (\<lambda>st. w_bind (reconciled root me st) stats_collect)) targets)"

definition follow_row :: "stats list \<Rightarrow> u64 \<Rightarrow> stats \<Rightarrow> string list" where
  "follow_row previous interval_ms s =
     (case List.find (\<lambda>p. st_id p = st_id s) previous of
        Some p \<Rightarrow> (case cpu_delta_percent p s interval_ms of
            Some pct \<Rightarrow> (table_row s)[3 := show_f64_fixed 2 pct @ ''%'']
          | None \<Rightarrow> table_row s)
      | None \<Rightarrow> table_row s)"

definition CLEAR_SCREEN :: string where
  "CLEAR_SCREEN = CHR 0x1B # ''[2J'' @ CHR 0x1B # ''[H''"

partial_function (option) follow_stats :: "string \<Rightarrow> nat \<Rightarrow> string list \<Rightarrow> bool \<Rightarrow> u64 \<Rightarrow> stats list \<Rightarrow> i32 act" where
  "follow_stats root me ids as_json interval_ms previous w =
     w_bind (collect_all root me ids) (\<lambda>current.
       if current = [] then w_bind (println ''no running containers'') (\<lambda>_. w_ok 0)
       else w_bind (if as_json then println (json_to_string (Arr (map stats_to_json current)))
           else w_bind (w_print 1 CLEAR_SCREEN) (\<lambda>_. print_table HEADERS (map (follow_row previous interval_ms) current))) (\<lambda>_.
         w_bind (k_sleep (unat interval_ms)) (\<lambda>_. follow_stats root me ids as_json interval_ms current))) w"

definition cmd_stats :: "caller \<Rightarrow> string list \<Rightarrow> bool \<Rightarrow> bool \<Rightarrow> u64 \<Rightarrow> i32 act" where
  "cmd_stats ca ids as_json follow interval_ms =
     w_bind (open_store ca) (\<lambda>root.
       if \<not> follow then
         w_bind (collect_all root (ca_me ca) ids) (\<lambda>all.
         w_bind (if as_json then println (json_to_string_pretty (Arr (map stats_to_json all)))
             else if all = [] then println ''no running containers''
             else print_table HEADERS (map table_row all)) (\<lambda>_. w_ok 0))
       else follow_stats root (ca_me ca) ids as_json interval_ms [])"

text \<open>
  \<open>follow_logs\<close> copies the log as it grows.  The log is read through its descriptor, so that it may be
  removed meanwhile; the position is always where the last read stopped.
\<close>

partial_function (option) copy_available :: "int \<Rightarrow> unit act" where
  "copy_available fd w =
     w_bind (w_sys (KFd (FRead fd 8192)) reply_data (\<lambda>u e. Io (io_text u e))) (\<lambda>d.
       if d = [] then w_ok ()
       else w_bind (w_call (KFd (FWrite 1 d)) (\<lambda>r. case reply_unit r of
             Ok _ \<Rightarrow> w_ok ()
           | Err e \<Rightarrow> if e = EBADF then w_ok () else w_get (\<lambda>u. w_err (Io (io_text u e))))) (\<lambda>_. copy_available fd)) w"

partial_function (option) follow_loop :: "string \<Rightarrow> string \<Rightarrow> int \<Rightarrow> unit act" where
  "follow_loop root i fd w =
     w_bind (copy_available fd) (\<lambda>_.
     w_bind (on_fs (store_load root i)) (\<lambda>st.
       if \<not> is_live (cs_status st) then w_ok ()
       else w_bind (k_sleep 150) (\<lambda>_. follow_loop root i fd))) w"

definition follow_logs :: "string \<Rightarrow> string \<Rightarrow> unit act" where
  "follow_logs root i =
     w_bind (w_sys (KFd (FOpen (log_path root i) O_CLOEXEC)) reply_num
         (\<lambda>w e. Io (''opening '' @ log_path root i @ '': '' @ io_text w e))) (\<lambda>fd.
       follow_loop root i fd)"

definition cmd_logs :: "caller \<Rightarrow> string \<Rightarrow> bool \<Rightarrow> u64 option \<Rightarrow> i32 act" where
  "cmd_logs ca needle follow tail =
     w_bind (open_store ca) (\<lambda>root.
     w_bind (resolve_id root needle) (\<lambda>i.
       if follow then w_bind (follow_logs root i) (\<lambda>_. w_ok 0)
       else w_bind (life_logs root i (map_option unat tail)) (\<lambda>text.
         w_bind (w_print 1 text) (\<lambda>_.
         w_bind (if text \<noteq> [] \<and> \<not> ends_with text [CHR 0x0A] then println [] else w_ok ()) (\<lambda>_. w_ok 0)))))"

definition wait_one :: "string \<Rightarrow> nat \<Rightarrow> u64 option \<Rightarrow> string \<Rightarrow> unit act" where
  "wait_one root me timeout needle =
     w_bind (resolve_id root needle) (\<lambda>i.
     w_bind (life_wait root me i (map_option unat timeout)) (\<lambda>status.
       println (show_int (sint (status_exit_code status)))))"

definition cmd_wait :: "caller \<Rightarrow> string list \<Rightarrow> u64 option \<Rightarrow> i32 act" where
  "cmd_wait ca ids timeout =
     w_bind (open_store ca) (\<lambda>root. w_bind (w_each (wait_one root (ca_me ca) timeout) ids) (\<lambda>_. w_ok 0))"

definition cmd_gc :: "caller \<Rightarrow> i32 act" where
  "cmd_gc ca =
     w_bind (require_root ca ''garbage collection'') (\<lambda>_.
     w_bind (open_store ca) (\<lambda>root.
     w_bind (sup_gc root (ca_me ca)) (\<lambda>report.
     w_bind (if report = [] then println ''nothing to clean up'' else w_each println report) (\<lambda>_. w_ok 0))))"

section \<open>The report on the host\<close>

definition SC_NPROCESSORS_ONLN :: int where "SC_NPROCESSORS_ONLN = 84"

definition num_cpus :: "u64 act" where
  "num_cpus = w_call (KProc (PSysconf SC_NPROCESSORS_ONLN)) (\<lambda>r. w_ok (case reply_num r of
     Ok v \<Rightarrow> if v \<le> 0 then 1 else word_of_int v | Err _ \<Rightarrow> 1))"

definition read_or :: "string \<Rightarrow> string \<Rightarrow> string act" where
  "read_or p d = w_try (read_trimmed p) (\<lambda>r. w_ok (case r of Ok t \<Rightarrow> t | Err _ \<Rightarrow> d))"

definition info_line :: "string \<Rightarrow> string \<Rightarrow> string" where
  "info_line label text = pad_right 19 label @ text @ [CHR 0x0A]"

definition cgroup_report :: "string act" where
  "cgroup_report = w_try mount_point (\<lambda>r. case r of
      Ok m \<Rightarrow> w_bind (available_controllers m) (\<lambda>avail. w_ok (
        info_line ''cgroup v2:'' m @
        info_line ''  controllers:'' (if avail = [] then ''(none delegated)'' else str_join '' '' avail) @
        concat (map (\<lambda>c. ''  '' @ pad_right 14 (c @ '':'') @ '' '' @ (if c \<in> set avail then ''available'' else ''MISSING'') @ [CHR 0x0A]) WANTED)))
    | Err e \<Rightarrow> w_ok (info_line ''cgroup v2:'' (''unavailable ('' @ display_error e @ '')'')))"

definition cmd_info :: "caller \<Rightarrow> i32 act" where
  "cmd_info ca =
     w_bind (read_or ''/proc/sys/kernel/osrelease'' ''unknown'') (\<lambda>kernel.
     w_get (\<lambda>w.
     w_bind num_cpus (\<lambda>cpus.
     w_bind cgroup_report (\<lambda>cgroups.
     w_bind nat_available (\<lambda>nat.
     w_bind (k_exists ''/proc/sys/kernel/seccomp/actions_avail'') (\<lambda>seccomp.
     w_bind (read_or ''/proc/sys/net/ipv4/ip_forward'' ''?'') (\<lambda>fwd.
     w_bind (w_print 1 (
         ''myrun '' @ VERSION @ [CHR 0x0A] @
         info_line ''kernel:'' kernel @
         info_line ''running as uid:'' (show_nat (ca_euid ca)) @
         info_line ''state root:'' (caller_root ca w) @
         info_line ''cpus:'' (show_nat (unat cpus)) @
         cgroups @
         info_line ''iptables:'' (if nat then ''available'' else ''unavailable (bridge networking will not work)'') @
         info_line ''seccomp:'' (if seccomp then ''supported'' else ''unknown'') @
         info_line ''ip_forward:'' fwd @
         CHR 0x0A # ''fault injection points (MYRUN_FAULT=<point>):'' @ [CHR 0x0A] @
         concat (map (\<lambda>p. ''  '' @ p @ [CHR 0x0A]) POINTS))) (\<lambda>_.
       w_ok 0))))))))"

section \<open>Dispatch\<close>

definition env_fault :: "unit act" where
  "env_fault = w_get (\<lambda>w. w_lift (validate_env (w_env w ''MYRUN_FAULT'')))"

definition dispatch :: "caller \<Rightarrow> command \<Rightarrow> i32 act" where
  "dispatch ca cmd = (case cmd of
      CmdHelp topic \<Rightarrow> w_bind (println (help_text topic)) (\<lambda>_. w_ok 0)
    | CmdVersion \<Rightarrow> w_bind (println (''myrun '' @ VERSION)) (\<lambda>_. w_ok 0)
    | CmdInfo \<Rightarrow> cmd_info ca
    | CmdRun args \<Rightarrow> cmd_run ca args
    | CmdCreate args \<Rightarrow> cmd_create ca args
    | CmdStart i attach \<Rightarrow> cmd_start ca i attach
    | CmdStop ids timeout \<Rightarrow> cmd_stop ca ids timeout
    | CmdKill ids sg \<Rightarrow> cmd_kill ca ids sg
    | CmdDelete ids force \<Rightarrow> cmd_delete ca ids force
    | CmdList all as_json only_ids \<Rightarrow> cmd_list ca all as_json only_ids
    | CmdInspect ids \<Rightarrow> cmd_inspect ca ids
    | CmdStats ids as_json follow interval_ms \<Rightarrow> cmd_stats ca ids as_json follow interval_ms
    | CmdPause ids \<Rightarrow> cmd_simple ca ids life_pause
    | CmdUnpause ids \<Rightarrow> cmd_simple ca ids life_unpause
    | CmdLogs i follow tail \<Rightarrow> cmd_logs ca i follow tail
    | CmdWait ids timeout \<Rightarrow> cmd_wait ca ids timeout
    | CmdGc \<Rightarrow> cmd_gc ca
    | _ \<Rightarrow> w_err (Usage ''internal subcommands are not invoked directly''))"

text \<open>The result is \<open>None\<close> when one of the internal commands has ended the process.\<close>

definition real_main :: "caller \<Rightarrow> string list \<Rightarrow> i32 option act" where
  "real_main ca argv =
     w_bind (cli_parse argv) (\<lambda>cmd. case cmd of
         CmdInit d \<Rightarrow> w_bind (init_main (ca_arch ca) d) (\<lambda>_. w_ok None)
       | CmdShim d fd \<Rightarrow> w_get (\<lambda>w. w_bind (shim_main (caller_root ca w) (ca_me ca) d (sint fd)) (\<lambda>_. w_ok None))
       | _ \<Rightarrow> w_bind env_fault (\<lambda>_. w_bind (dispatch ca cmd) (\<lambda>n. w_ok (Some n))))"

definition main_program :: "caller \<Rightarrow> string list \<Rightarrow> unit act" where
  "main_program ca argv =
     w_try (real_main ca argv) (\<lambda>r. case r of
         Ok None \<Rightarrow> w_ok ()
       | Ok (Some n) \<Rightarrow> w_call (KProc (PExit n)) (\<lambda>_. w_ok ())
       | Err e \<Rightarrow> w_bind (eprintln (''myrun: '' @ display_error e)) (\<lambda>_.
           w_call (KProc (PExit (word_of_int (exit_code e)))) (\<lambda>_. w_ok ())))"

end
