(* ===== verification/Cli_Laws.thy ===== *)
theory Cli_Laws
  imports Cli Toml_Laws
begin

text \<open>
  What the command line parser guarantees: a command printed in its documented form is read back,
  an option that is not known is refused, and the options of a line override the configuration
  file wherever \<open>--config\<close> stands among them.
\<close>

section \<open>Option loops\<close>

text \<open>A word that is no option is kept by \<open>add\<close>; an unknown option is refused.\<close>

abbreviation plain_word :: "string \<Rightarrow> bool" where
  "plain_word w \<equiv> \<not> starts_with w ''-''"

locale option_loop =
  fixes step :: "string \<Rightarrow> string list \<Rightarrow> 's \<Rightarrow> ('s \<times> nat) res"
    and add :: "string \<Rightarrow> 's \<Rightarrow> 's"
    and known :: "string list"
  assumes keeps: "plain_word w \<Longrightarrow> step w rest s = Ok (add w s, 0)"
    and refuses: "starts_with w ''-'' \<Longrightarrow> split_flag w = (f, v) \<Longrightarrow> f \<notin> set known \<Longrightarrow> \<exists>m. step w rest s = Err (Usage m)"
begin

lemma loop_words: "list_all plain_word ws \<Longrightarrow> args_loop step (ws @ rest) s = args_loop step rest (fold add ws s)"
  by (induction ws arbitrary: s) (auto simp: keeps)

lemma loop_unknown:
  assumes "list_all plain_word ws" "starts_with w ''-''" "split_flag w = (f, v)" "f \<notin> set known"
  shows "\<exists>m. args_loop step (ws @ w # rest) s = Err (Usage m)"
proof -
  obtain m where "step w rest (fold add ws s) = Err (Usage m)" using refuses [OF assms(2-4)] by blast
  then show ?thesis by (simp add: loop_words [OF assms(1)])
qed

end

lemma split_flag_plain: "plain_word w \<Longrightarrow> split_flag w = (w, None)"
proof -
  have "split_once w (CHR ''='') = Some (f, v) \<Longrightarrow> starts_with f ''-'' \<Longrightarrow> starts_with w ''-''" for f v
    by (induction w) (auto split: if_splits option.splits)
  moreover assume "plain_word w"
  ultimately show ?thesis by (auto simp: split_flag_def split: option.splits)
qed

lemma split_flag_dash: "starts_with (fst (split_flag w)) ''-'' = starts_with w ''-''"
proof -
  have "split_once w (CHR ''='') = Some (f, v) \<Longrightarrow> starts_with f ''-'' \<Longrightarrow> starts_with w ''-''" for f v
    by (induction w) (auto split: if_splits option.splits)
  then show ?thesis by (auto simp: split_flag_def split: option.splits)
qed

lemma other_word_plain: "plain_word w \<Longrightarrow> other_word cmd w raw f = Ok (f raw, 0)"
  by (simp add: other_word_def)

lemma other_word_dash: "starts_with w ''-'' \<Longrightarrow> split_flag w = (f, v) \<Longrightarrow> \<exists>m. other_word cmd f raw g = Err (Usage m)"
  using split_flag_dash [of w] by (simp add: other_word_def)

lemma plain_neq: "plain_word w \<Longrightarrow> starts_with f ''-'' \<Longrightarrow> w \<noteq> f"
  by auto

lemmas step_simps = split_flag_plain other_word_plain plain_neq other_word_dash

interpretation start: option_loop start_step "\<lambda>w (attach, i). (attach, Some w)" "[''-a'', ''--attach'']"
  by unfold_locales (simp_all add: start_step_def step_simps split: prod.split)

interpretation stop: option_loop stop_step "\<lambda>w (t, ids). (t, ids @ [w])" "[''-t'', ''--timeout'', ''--time'']"
  by unfold_locales (simp_all add: stop_step_def step_simps split: prod.split)

interpretation kill: option_loop kill_step "\<lambda>w (sg, ids). (sg, ids @ [w])" "[''-s'', ''--signal'']"
  by unfold_locales (simp_all add: kill_step_def step_simps split: prod.split)

interpretation delete: option_loop delete_step "\<lambda>w (force, ids). (force, ids @ [w])" "[''-f'', ''--force'']"
  by unfold_locales (simp_all add: delete_step_def step_simps split: prod.split)

interpretation stats: option_loop stats_step "\<lambda>w (json, follow, interval, ids). (json, follow, interval, ids @ [w])"
  "[''--json'', ''-f'', ''--follow'', ''-i'', ''--interval'']"
  by unfold_locales (simp_all add: stats_step_def step_simps split: prod.split)

interpretation logs: option_loop logs_step "\<lambda>w (follow, tail, i). (follow, tail, Some w)"
  "[''-f'', ''--follow'', ''-n'', ''--tail'']"
  by unfold_locales (simp_all add: logs_step_def step_simps split: prod.split)

interpretation wait: option_loop wait_step "\<lambda>w (timeout, ids). (timeout, ids @ [w])" "[''-t'', ''--timeout'']"
  by unfold_locales (simp_all add: wait_step_def step_simps split: prod.split)

section \<open>Printing a command and reading it back\<close>

text \<open>
  The documented form of the commands that take no configuration: the specification that the
  parser is compared with.  The interval of \<open>stats\<close> is given in seconds and kept in milliseconds.
\<close>

definition switch :: "bool \<Rightarrow> string \<Rightarrow> string list" where
  "switch b w = (if b then [w] else [])"

fun show_command :: "command \<Rightarrow> string list" where
  "show_command (CmdStart i attach) = ''start'' # switch attach ''--attach'' @ [i]"
| "show_command (CmdStop ids t) = ''stop'' # ''--timeout'' # show_nat (unat t) # ids"
| "show_command (CmdKill ids sg) = ''kill'' # (''--signal='' @ show_int (sint sg)) # ids"
| "show_command (CmdDelete ids force) = ''rm'' # ids @ switch force ''--force''"
| "show_command (CmdList all json q) = ''ls'' # switch all ''-a'' @ switch json ''--json'' @ switch q ''-q''"
| "show_command (CmdInspect ids) = ''inspect'' # ids"
| "show_command (CmdStats ids json follow ms) =
     ''stats'' # switch json ''--json'' @ ids @ switch follow ''--follow'' @ [''--interval'', show_nat (unat ms div 1000)]"
| "show_command (CmdPause ids) = ''pause'' # ids"
| "show_command (CmdUnpause ids) = ''unpause'' # ids"
| "show_command (CmdLogs i follow tail) =
     ''logs'' # switch follow ''-f'' @ (case tail of Some n \<Rightarrow> [''--tail'', show_nat (unat n)] | None \<Rightarrow> [''--tail'', ''all'']) @ [i]"
| "show_command (CmdWait ids timeout) =
     ''wait'' # ids @ (case timeout of Some t \<Rightarrow> [''-t'', show_nat (unat t)] | None \<Rightarrow> [])"
| "show_command CmdGc = [''gc'']"
| "show_command CmdInfo = [''info'']"
| "show_command (CmdHelp t) = ''help'' # (case t of Some x \<Rightarrow> [x] | None \<Rightarrow> [])"
| "show_command CmdVersion = [''version'']"
| "show_command (CmdInit d) = [''__init'', d]"
| "show_command (CmdShim d f) = [''__shim'', d, show_int (sint f)]"
| "show_command _ = []"

text \<open>
  What can be written in that form: ids do not begin with a dash and, but for \<open>stats\<close>, there is at
  least one; signals are numbers from 1 to 64; the interval of \<open>stats\<close> is a positive number of whole
  seconds, below \<open>2 ^ 53\<close> milliseconds.
\<close>

definition words_ok :: "string list \<Rightarrow> bool" where
  "words_ok ids \<longleftrightarrow> ids \<noteq> [] \<and> list_all plain_word ids"

fun showable :: "command \<Rightarrow> bool" where
  "showable (CmdStart i _) = plain_word i"
| "showable (CmdLogs i _ _) = plain_word i"
| "showable (CmdStop ids _) = words_ok ids"
| "showable (CmdKill ids sg) = (words_ok ids \<and> 1 \<le> sint sg \<and> sint sg \<le> 64)"
| "showable (CmdDelete ids _) = words_ok ids"
| "showable (CmdInspect ids) = words_ok ids"
| "showable (CmdPause ids) = words_ok ids"
| "showable (CmdUnpause ids) = words_ok ids"
| "showable (CmdWait ids _) = words_ok ids"
| "showable (CmdStats ids _ _ ms) = (list_all plain_word ids \<and> 0 < ms \<and> unat ms mod 1000 = 0 \<and> unat ms < 2 ^ 53)"
| "showable (CmdRun _) = False"
| "showable (CmdCreate _) = False"
| "showable _ = True"

lemma fold_pair: "fold (\<lambda>w (a, xs). (a, xs @ [w])) ws (a, xs) = (a, xs @ ws)"
  by (induction ws arbitrary: xs) auto

lemma fold_stats: "fold (\<lambda>w (a, b, c, xs). (a, b, c, xs @ [w])) ws (a, b, c, xs) = (a, b, c, xs @ ws)"
  by (induction ws arbitrary: xs) auto

lemma parse_u64_show: "parse_u64 (show_nat (unat (x :: u64))) = Some x"
  using unsigned_less [of x, where ?'a = nat] by (simp add: parse_u64_def parse_unsigned_show)

lemma parse_i32_show: "parse_i32 (show_int (sint (x :: i32))) = Some x"
  using sint_greater_eq [of x] sint_less [of x] by (simp add: parse_i32_def parse_signed_show)

lemma show_int_upper: "to_ascii_uppercase (show_int i) = show_int i"
proof -
  have "upper_char c = c" if "c \<in> set (show_int i)" for c
    using show_int_chars [OF that] by (auto simp: upper_char_def is_ascii_lower_def is_ascii_digit_def byte_def)
  then show ?thesis by (simp add: to_ascii_uppercase_def map_idI)
qed

lemma parse_signal_show: "1 \<le> sint sg \<Longrightarrow> sint sg \<le> 64 \<Longrightarrow> parse_signal (show_int (sint sg)) = Ok sg"
  by (simp add: parse_signal_def str_trim_graphic [OF show_int_graphic] show_int_upper parse_i32_show)

lemmas eval_words = split_flag_def arg_value_def with_value_def args_next_def

lemma parse_start_show: "plain_word i \<Longrightarrow> parse_start (switch a ''--attach'' @ [i]) = Ok (CmdStart i a)"
proof -
  have "start_step ''--attach'' r (b, j) = Ok ((True, j), 0)" for r b j by (simp add: start_step_def eval_words)
  then show "plain_word i \<Longrightarrow> ?thesis" by (simp add: parse_start_def switch_def start.keeps)
qed

lemma parse_stop_show: "words_ok ids \<Longrightarrow> parse_stop (''--timeout'' # show_nat (unat t) # ids) = Ok (CmdStop ids t)"
  using stop.loop_words [of ids "[]"]
  by (simp add: parse_stop_def stop_step_def eval_words parse_u64_show fold_pair some_ids_def words_ok_def)

lemma parse_kill_show:
  "words_ok ids \<Longrightarrow> 1 \<le> sint sg \<Longrightarrow> sint sg \<le> 64 \<Longrightarrow> parse_kill ((''--signal='' @ show_int (sint sg)) # ids) = Ok (CmdKill ids sg)"
  using kill.loop_words [of ids "[]"]
  by (simp add: parse_kill_def kill_step_def eval_words parse_signal_show fold_pair some_ids_def words_ok_def)

lemma parse_delete_show: "words_ok ids \<Longrightarrow> parse_delete (ids @ switch f ''--force'') = Ok (CmdDelete ids f)"
  by (auto simp: parse_delete_def delete.loop_words switch_def delete_step_def eval_words fold_pair some_ids_def words_ok_def)

lemma parse_list_show: "parse_list (switch a ''-a'' @ switch j ''--json'' @ switch q ''-q'') = Ok (CmdList a j q)"
  by (simp add: parse_list_def switch_def list_step_def eval_words)

lemma interval_of_show:
  assumes "0 < ms" "unat ms mod 1000 = 0" "unat ms < 2 ^ 53"
  shows "interval_of (show_nat (unat ms div 1000)) = Ok ms"
proof -
  let ?k = "unat ms div 1000"
  have k: "?k * 1000 = unat ms" using assms(2) by auto
  have "0 < unat ms" using assms(1) by (simp add: word_less_nat_alt)
  then have p: "0 < ?k" "?k < 2 ^ 53" using k assms(3) by auto
  have "f64_mul (f64_of_nat ?k) (f64_of_nat 1000) = f64_of_nat (unat ms)"
    using f64_mul_exact [of ?k 1000] p(1) assms(3) unfolding k by simp
  then show ?thesis using f64_as_u64_exact [OF assms(3)] f64_positive [OF p] by (simp add: interval_of_def parse_f64_show_nat)
qed

lemma parse_stats_show:
  assumes "list_all plain_word ids" "0 < ms" "unat ms mod 1000 = 0" "unat ms < 2 ^ 53"
  shows "parse_stats (switch j ''--json'' @ ids @ switch f ''--follow'' @ [''--interval'', show_nat (unat ms div 1000)]) = Ok (CmdStats ids j f ms)"
proof -
  have "stats_step ''--json'' r (a, b, c, d) = Ok ((True, b, c, d), 0)" "stats_step ''--follow'' r (a, b, c, d) = Ok ((a, True, c, d), 0)"
    "stats_step ''--interval'' [show_nat (unat ms div 1000)] (a, b, c, d) = Ok ((a, b, ms, d), 1)" for r a b c d
    using interval_of_show [OF assms(2-)] by (simp_all add: stats_step_def eval_words)
  then show ?thesis using assms(1) by (simp add: parse_stats_def stats.loop_words switch_def fold_stats)
qed

lemma parse_logs_show:
  "plain_word i \<Longrightarrow> parse_logs (switch f ''-f'' @ (case tail of Some n \<Rightarrow> [''--tail'', show_nat (unat n)] | None \<Rightarrow> [''--tail'', ''all'']) @ [i])
     = Ok (CmdLogs i f tail)"
proof -
  have "logs_step ''-f'' r (b, t, j) = Ok ((True, t, j), 0)"
    "logs_step ''--tail'' (''all'' # r) (b, t, j) = Ok ((b, t, j), 1)" for r b t j
    by (simp_all add: logs_step_def eval_words)
  moreover have "show_nat n \<noteq> ''all''" for n using show_nat_digits [of n] by (auto simp: is_ascii_digit_def byte_def)
  then have "logs_step ''--tail'' (show_nat (unat n) # r) (b, t, j) = Ok ((b, Some n, j), 1)" for n r b t j
    by (simp add: logs_step_def eval_words parse_u64_show)
  ultimately show "plain_word i \<Longrightarrow> ?thesis"
    by (simp add: parse_logs_def switch_def logs.keeps split: option.split)
qed

lemma parse_wait_show:
  "words_ok ids \<Longrightarrow> parse_wait (ids @ (case t of Some n \<Rightarrow> [''-t'', show_nat (unat n)] | None \<Rightarrow> [])) = Ok (CmdWait ids t)"
  by (auto simp: parse_wait_def wait.loop_words wait_step_def eval_words fold_pair parse_u64_show some_ids_def words_ok_def split: option.split)

lemma require_ids_show: "words_ok ids \<Longrightarrow> require_ids ids cmd = Ok ids"
  by (simp add: require_ids_def words_ok_def list_all_iff)

lemma parse_shim_show: "parse_shim [d, show_int (sint f)] = Ok (CmdShim d f)"
  by (simp add: parse_shim_def args_next_def parse_i32_show)

lemma parse_globals_command: "plain_word c \<Longrightarrow> parse_globals (c # rest) = w_ok (Inr (Some (c, rest)))"
  using plain_neq [of c] by (simp add: split_flag_plain)

lemma cli_parse_command: "plain_word c \<Longrightarrow> cli_parse (c # rest) = parse_command c rest"
  by (rule ext) (simp add: cli_parse_def parse_globals_command w_bind_def w_ok_def del: parse_globals.simps)

lemmas show_back = parse_start_show parse_stop_show parse_kill_show parse_delete_show parse_list_show parse_stats_show
  parse_logs_show parse_wait_show require_ids_show parse_shim_show

text \<open>
  C31: Every command but \<open>run\<close> and \<open>create\<close>, with ids that do not begin with a dash, a signal from
  1 to 64 and an interval of whole seconds, written in the form the help text gives, is read as
  exactly that command, its numbers included, and reading it changes nothing else.
\<close>

theorem command_roundtrip:
  assumes "showable c"
  shows "cli_parse (show_command c) w = Some (Ok c, w)"
proof (cases c)
  case (CmdHelp t)
  then show ?thesis by (simp add: cli_parse_command parse_command_def w_lift_def args_next_def split: option.split)
qed (use assms in \<open>simp_all add: cli_parse_command parse_command_def w_lift_def args_next_def show_back del: append.simps\<close>)

theorem command_roundtrip_witness:
  "\<forall>w. cli_parse [''kill'', ''--signal=9'', ''web'', ''db''] w = Some (Ok (CmdKill [''web'', ''db''] 9), w)"
proof -
  have "char_of (57 :: nat) = CHR ''9''" by code_simp
  then show ?thesis using command_roundtrip [of "CmdKill [''web'', ''db''] 9"]
    by (simp add: words_ok_def show_int_def show_nat_def show_radix.simps digit_char_def)
qed

section \<open>Options that are not known\<close>

text \<open>The options of the commands that take no configuration.\<close>

definition COMMAND_OPTIONS :: "(string \<times> string list) list" where
  "COMMAND_OPTIONS = [(''start'', [''-a'', ''--attach'']), (''stop'', [''-t'', ''--timeout'', ''--time'']),
     (''kill'', [''-s'', ''--signal'']), (''rm'', [''-f'', ''--force'']),
     (''stats'', [''--json'', ''-f'', ''--follow'', ''-i'', ''--interval'']),
     (''logs'', [''-f'', ''--follow'', ''-n'', ''--tail'']), (''wait'', [''-t'', ''--timeout''])]"

lemma r_bind_unknown: "\<exists>m. x = Err (Usage m) \<Longrightarrow> \<exists>m. r_bind x f = Err (Usage m)"
  "\<exists>m. x = Err (Usage m) \<Longrightarrow> \<exists>m. r_map g x = Err (Usage m)"
  by auto



text \<open>\<open>inspect\<close>, \<open>pause\<close> and \<open>unpause\<close> drop such words and go on with the others.\<close>

lemma bare_commands_drop_options:
  assumes "starts_with w ''-''" "sub \<in> set [''inspect'', ''pause'', ''unpause'']"
  shows "cli_parse (sub # ws @ w # after) u = cli_parse (sub # ws @ after) u"
proof -
  have "require_ids (ws @ w # after) c = require_ids (ws @ after) c" for c using assms(1) by (simp add: require_ids_def)
  then show ?thesis using assms(2) by (auto simp: cli_parse_command parse_command_def)
qed

section \<open>The options of run and create\<close>

text \<open>An option set on the command line, in one of the forms the parser accepts.\<close>

datatype setting = Switch string | Spaced string string | Joined string string

fun setting_words :: "setting \<Rightarrow> string list" where
  "setting_words (Switch f) = [f]"
| "setting_words (Spaced f v) = [f, v]"
| "setting_words (Joined f v) = [f @ ''='' @ v]"

definition VALUED :: "string list" where
  "VALUED = [''--name'', ''--rootfs'', ''-e'', ''--env'', ''-w'', ''--workdir'', ''--cwd'', ''--hostname'', ''-v'', ''--volume'',
     ''--mount'', ''--label'', ''-m'', ''--memory'', ''--memory-swap'', ''--cpus'', ''--cpu-weight'', ''--cpu-shares'', ''--pids'',
     ''--pids-limit'', ''--network'', ''--net'', ''--bridge'', ''--subnet'', ''--ip'', ''--gateway'', ''--mtu'', ''-p'', ''--publish'',
     ''--dns'', ''--cap-add'', ''--cap-drop'', ''--seccomp'', ''--user'', ''-u'']"

definition SWITCHES :: "string list" where
  "SWITCHES = [''-d'', ''--detach'', ''--rm'', ''--read-only'', ''--no-nat'', ''--privileged'', ''--no-new-privs'', ''--no-pid-ns'',
     ''--no-ipc-ns'', ''--no-uts-ns'', ''--no-cgroup-ns'']"

fun setting_ok :: "setting \<Rightarrow> bool" where
  "setting_ok (Switch f) = (f \<in> set SWITCHES)"
| "setting_ok (Spaced f v) = (f \<in> set VALUED)"
| "setting_ok (Joined f v) = (f \<in> set VALUED)"

text \<open>What a setting does, whatever comes after it.\<close>

fun run_set :: "bool \<Rightarrow> setting \<Rightarrow> run_pass \<Rightarrow> run_pass res" where
  "run_set run (Switch f) s = r_map fst (run_option run f None [] s)"
| "run_set run (Spaced f v) s = r_map fst (run_option run f (Some v) [] s)"
| "run_set run (Joined f v) s = r_map fst (run_option run f (Some v) [] s)"

lemmas flag_defs = config_flag_def container_flag_def resource_flag_def network_flag_def security_flag_def namespace_flag_def or_else_def

lemma valued_flag: "f \<in> set VALUED \<Longrightarrow> \<exists>g. \<forall>inl rest. config_flag f inl rest cfg = Some (with_value f inl rest g)"
  unfolding VALUED_def by (simp only: list.set insert_iff empty_iff simp_thms) (elim disjE; simp add: flag_defs; blast)

lemma switch_flag: "f \<in> set SWITCHES \<Longrightarrow> f \<noteq> ''-d'' \<Longrightarrow> f \<noteq> ''--detach'' \<Longrightarrow> \<exists>c. \<forall>rest. config_flag f None rest cfg = Some (Ok (c, 0))"
  unfolding SWITCHES_def by (simp only: list.set insert_iff empty_iff simp_thms) (elim disjE; simp add: flag_defs)

lemma option_words:
  assumes "f \<in> set VALUED \<union> set SWITCHES"
  shows "starts_with f ''-''" "f \<noteq> ''-''" "CHR ''='' \<notin> set f" "f \<notin> {''--'', ''-h'', ''--help'', ''--config'', ''-c''}"
proof -
  have "list_all (\<lambda>f. starts_with f ''-'' \<and> f \<noteq> ''-'' \<and> CHR ''='' \<notin> set f \<and> f \<notin> {''--'', ''-h'', ''--help'', ''--config'', ''-c''}) (VALUED @ SWITCHES)"
    by (simp add: VALUED_def SWITCHES_def)
  then show "starts_with f ''-''" "f \<noteq> ''-''" "CHR ''='' \<notin> set f" "f \<notin> {''--'', ''-h'', ''--help'', ''--config'', ''-c''}"
    using assms unfolding list_all_iff by auto
qed

lemma split_once_absent: "c \<notin> set f \<Longrightarrow> split_once (f @ c # v) c = Some (f, v)" "c \<notin> set f \<Longrightarrow> split_once f c = None"
  by (induction f) auto

lemma split_flag_option:
  assumes "f \<in> set VALUED \<union> set SWITCHES"
  shows "split_flag f = (f, None)" "split_flag (f @ ''='' @ v) = (f, Some v)"
  using option_words [OF assms] by (simp_all add: split_flag_def split_once_absent)

lemma starts_with_app: "starts_with f p \<Longrightarrow> starts_with (f @ v) p"
  by (induction f p rule: starts_with.induct) auto

lemma r_map_map: "r_map f (r_map g m) = r_map (\<lambda>x. f (g x)) m"
  by (cases m) auto

lemma r_bind_map: "r_bind (r_map g m) f = r_bind m (\<lambda>x. f (g x))"
  by (cases m) auto

lemma valued_option:
  assumes "f \<in> set VALUED"
  shows "run_option run f inl rest s = r_map (\<lambda>(c, n). (s\<lparr>rp_cfg := c\<rparr>, n)) (the (config_flag f inl rest (rp_cfg s)))"
proof -
  have "f \<noteq> ''-d''" "f \<noteq> ''--detach''" using assms by (auto simp: VALUED_def)
  then show ?thesis using valued_flag [OF assms, of "rp_cfg s"] option_words(4) [of f] assms
    by (auto simp: run_option_def)
qed

text \<open>A setting changes the configuration and the request to detach, and looks at nothing else.\<close>

lemma run_set_cfg:
  assumes "setting_ok x"
  obtains g where "\<And>s. run_set run x s = r_map (\<lambda>(c, d). s\<lparr>rp_cfg := c, rp_detach := d\<rparr>) (g (rp_cfg s) (rp_detach s))"
proof -
  have "\<exists>g. \<forall>s. run_set run x s = r_map (\<lambda>(c, d). s\<lparr>rp_cfg := c, rp_detach := d\<rparr>) (g (rp_cfg s) (rp_detach s))"
  proof (cases "\<exists>f v. x = Spaced f v \<or> x = Joined f v")
    case True
    then obtain f v where x: "x = Spaced f v \<or> x = Joined f v" by blast
    then have "f \<in> set VALUED" using assms by auto
    then have "run_set run x s = r_map (\<lambda>(c, d). s\<lparr>rp_cfg := c, rp_detach := d\<rparr>)
        (r_map (\<lambda>(c, n). (c, rp_detach s)) (the (config_flag f (Some v) [] (rp_cfg s))))" for s
      using x by (auto simp: valued_option r_map_map case_prod_beta)
    then show ?thesis by (intro exI [of _ "\<lambda>c d. r_map (\<lambda>(c, n). (c, d)) (the (config_flag f (Some v) [] c))"]) blast
  next
    case False
    then obtain f where x: "x = Switch f" "f \<in> set SWITCHES" using assms by (cases x) auto
    show ?thesis
    proof (cases "f = ''-d'' \<or> f = ''--detach''")
      case True
      then have "run_set run x s = r_map (\<lambda>(c, d). s\<lparr>rp_cfg := c, rp_detach := d\<rparr>) (Ok (rp_cfg s, True))" for s
        using x by (auto simp: run_option_def)
      then show ?thesis by (intro exI [of _ "\<lambda>c d. Ok (c, True)"]) blast
    next
      case False
      have "run_set run x s = r_map (\<lambda>(c, d). s\<lparr>rp_cfg := c, rp_detach := d\<rparr>)
          (r_map (\<lambda>(c, n). (c, rp_detach s)) (the (config_flag f None [] (rp_cfg s))))" for s
        using False x switch_flag [OF x(2), of "rp_cfg s"] option_words(4) [of f] by (auto simp: run_option_def)
      then show ?thesis by (intro exI [of _ "\<lambda>c d. r_map (\<lambda>(c, n). (c, d)) (the (config_flag f None [] c))"]) blast
    qed
  qed
  then show ?thesis using that by blast
qed

lemma run_set_end: "setting_ok x \<Longrightarrow> run_set run x s = Ok t \<Longrightarrow> rp_end t = rp_end s"
  by (rule run_set_cfg [of x run]) auto

lemma run_step_option:
  "starts_with raw ''-'' \<Longrightarrow> raw \<noteq> ''-'' \<Longrightarrow> \<not> rp_end s \<Longrightarrow> split_flag raw = (f, inl) \<Longrightarrow> run_step run raw rest s = run_option run f inl rest s"
  by (simp add: run_step_def)

lemma loop_setting:
  assumes "setting_ok x" "\<not> rp_end s"
  shows "args_loop (run_step run) (setting_words x @ rest) s = r_bind (run_set run x s) (args_loop (run_step run) rest)"
proof -
  have spaced: "run_option run f None (v # rest) s = r_map (\<lambda>(t, _). (t, 1)) (run_option run f (Some v) [] s)"
    "run_option run f (Some v) rest s = r_map (\<lambda>(t, _). (t, 0)) (run_option run f (Some v) [] s)" if "f \<in> set VALUED" for f v rest
    using valued_flag [OF that, of "rp_cfg s"]
    by (auto simp: valued_option [OF that] with_value_def arg_value_def args_next_def r_map_map)
  have f: "split_flag f = (f, None)" "split_flag (f @ ''='' @ v) = (f, Some v)" "starts_with f ''-''" "f \<noteq> ''-''"
    "starts_with (f @ ''='' @ v) ''-''" "f @ ''='' @ v \<noteq> ''-''" if "f \<in> set VALUED \<union> set SWITCHES" for f v
    using option_words [OF that] split_flag_option [OF that] starts_with_app by (auto simp: append_eq_Cons_conv)
  show ?thesis
  proof (cases x)
    case (Switch g)
    moreover have "\<exists>t. \<forall>rest. run_option run g None rest s = Ok (t, 0)"
      using Switch assms(1) switch_flag [of g "rp_cfg s"] option_words(4) [of g]
      by (cases "g = ''-d'' \<or> g = ''--detach''") (auto simp: run_option_def)
    ultimately show ?thesis using f(1,3,4) [of g] assms by (auto simp: run_step_option)
  next
    case (Spaced g v)
    then show ?thesis using f(1,3,4) [of g] assms spaced(1) [of g v rest]
      by (cases "run_option run g (Some v) [] s") (auto simp: run_step_option)
  next
    case (Joined g v)
    then show ?thesis using f(2,5,6) [of g v] assms spaced(2) [of g v rest]
      by (cases "run_option run g (Some v) [] s") (auto simp: run_step_option)
  qed
qed

definition line_words :: "setting list \<Rightarrow> string list" where
  "line_words xs = concat (map setting_words xs)"

lemma loop_settings:
  "list_all setting_ok xs \<Longrightarrow> \<not> rp_end s \<Longrightarrow>
     args_loop (run_step run) (line_words xs @ rest) s = r_bind (r_fold (run_set run) xs s) (args_loop (run_step run) rest)"
proof (induction xs arbitrary: s)
  case (Cons x xs)
  then show ?case using loop_setting [of x s run "line_words xs @ rest"] run_set_end [of x run s]
    by (cases "run_set run x s") (auto simp: line_words_def)
qed (simp add: line_words_def)

lemma settings_end: "list_all setting_ok xs \<Longrightarrow> r_fold (run_set run) xs s = Ok t \<Longrightarrow> rp_end t = rp_end s"
proof (induction xs arbitrary: s)
  case (Cons x xs)
  then show ?case using run_set_end [of x run s] by (auto simp: result_simps)
qed simp

lemma loop_config:
  "\<not> rp_end s \<Longrightarrow> args_loop (run_step run) (''--config'' # p # rest) s = args_loop (run_step run) rest (s\<lparr>rp_config_path := Some p\<rparr>)"
  by (simp add: run_step_def run_option_def eval_words)

text \<open>What a setting does to a configuration: only \<open>--detach\<close> leaves it alone.\<close>

definition detaches :: "setting \<Rightarrow> bool" where
  "detaches x \<longleftrightarrow> x = Switch ''-d'' \<or> x = Switch ''--detach''"

fun setting_option :: "setting \<Rightarrow> string \<times> string option" where
  "setting_option (Switch f) = (f, None)"
| "setting_option (Spaced f v) = (f, Some v)"
| "setting_option (Joined f v) = (f, Some v)"

definition set_config :: "setting \<Rightarrow> container_config \<Rightarrow> container_config res" where
  "set_config x cfg = (if detaches x then Ok cfg else case setting_option x of (f, v) \<Rightarrow>
     (case config_flag f v [] cfg of Some r \<Rightarrow> r_map fst r | None \<Rightarrow> Ok cfg))"

lemma run_set_config:
  assumes "setting_ok x"
  shows "run_set run x s = r_map (\<lambda>c. s\<lparr>rp_cfg := c, rp_detach := rp_detach s \<or> detaches x\<rparr>) (set_config x (rp_cfg s))"
proof (cases "\<exists>f. x = Switch f")
  case True
  then obtain f where x: "x = Switch f" "f \<in> set SWITCHES" using assms by auto
  show ?thesis
  proof (cases "f = ''-d'' \<or> f = ''--detach''")
    case False
    then obtain c where "\<forall>rest. config_flag f None rest (rp_cfg s) = Some (Ok (c, 0))" using switch_flag [OF x(2)] by blast
    then show ?thesis using False x option_words(4) [of f] by (auto simp: run_option_def set_config_def detaches_def)
  qed (use x in \<open>auto simp: run_option_def set_config_def detaches_def\<close>)
next
  case False
  then obtain f v where x: "x = Spaced f v \<or> x = Joined f v" by (cases x) auto
  then have f: "f \<in> set VALUED" using assms by auto
  then obtain g where "\<forall>inl rest. config_flag f inl rest (rp_cfg s) = Some (with_value f inl rest g)" using valued_flag by blast
  then show ?thesis using x by (auto simp: valued_option [OF f] set_config_def detaches_def r_map_map case_prod_beta)
qed

lemma settings_config:
  "list_all setting_ok xs \<Longrightarrow> r_fold (run_set run) xs s =
     r_map (\<lambda>c. s\<lparr>rp_cfg := c, rp_detach := rp_detach s \<or> list_ex detaches xs\<rparr>) (r_fold set_config xs (rp_cfg s))"
proof (induction xs arbitrary: s)
  case (Cons x xs)
  then show ?case by (cases "set_config x (rp_cfg s)") (simp_all add: run_set_config disj_assoc)
qed simp

text \<open>The words after the options: the root and the command.\<close>

definition positional :: "string list \<Rightarrow> bool" where
  "positional ws \<longleftrightarrow> list_all plain_word (take 2 ws)"

lemma loop_positional:
  assumes "positional ws" "\<not> rp_end s" "rp_positional s = []"
  shows "args_loop (run_step run) ws s = Ok (s\<lparr>rp_positional := ws\<rparr>)"
proof (cases ws)
  case Nil
  then show ?thesis using assms(3) by simp
next
  case (Cons root rest)
  then show ?thesis using assms by (cases rest) (simp_all add: positional_def run_step_def Let_def)
qed

lemma run_line:
  assumes "list_all setting_ok before" "list_all setting_ok after" "positional ws"
  shows "parse_run_pass (line_words before @ ''--config'' # p # line_words after @ ws) run base =
     r_map (\<lambda>c. (\<lparr>ra_config = (apply_positional ws c)\<lparr>c_detach := list_ex detaches (before @ after)\<rparr>,
        ra_detach = list_ex detaches (before @ after)\<rparr>, Some p)) (r_fold set_config (before @ after) base)"
proof -
  note run = parse_run_pass_def loop_settings settings_config loop_config loop_positional r_fold_append r_bind_map r_map_map
  show ?thesis
  proof (cases "r_fold set_config before base")
    case (Ok c)
    then show ?thesis using assms by (cases "r_fold set_config after c") (simp_all add: run del: args_loop.simps)
  qed (use assms in \<open>simp add: run del: args_loop.simps\<close>)
qed

text \<open>
  C30: The options of the command line override the configuration file, wherever \<open>--config\<close> stands
  among them: on a line of known options with \<open>--config\<close> somewhere, followed by the root and the
  command, the options are tried on the default configuration first (an option with a bad value
  is an error before the file is read); then the file is read, and the result is the
  configuration of the file with every option of the line applied to it in order, then the
  positional words, and \<open>--detach\<close> as given on the line.
\<close>

theorem options_override_file:
  assumes "list_all setting_ok before" "list_all setting_ok after" "positional ws"
  shows "parse_run (line_words before @ ''--config'' # p # line_words after @ ws) run =
     w_bind (w_lift (r_fold set_config (before @ after) config_default)) (\<lambda>_.
     w_bind (from_file p) (\<lambda>base.
     w_bind (w_lift (r_fold set_config (before @ after) base)) (\<lambda>cfg.
       w_ok \<lparr>ra_config = (apply_positional ws cfg)\<lparr>c_detach := list_ex detaches (before @ after)\<rparr>,
             ra_detach = list_ex detaches (before @ after)\<rparr>)))"
proof
  fix w
  show "parse_run (line_words before @ ''--config'' # p # line_words after @ ws) run w =
     w_bind (w_lift (r_fold set_config (before @ after) config_default)) (\<lambda>_.
     w_bind (from_file p) (\<lambda>base.
     w_bind (w_lift (r_fold set_config (before @ after) base)) (\<lambda>cfg.
       w_ok \<lparr>ra_config = (apply_positional ws cfg)\<lparr>c_detach := list_ex detaches (before @ after)\<rparr>,
             ra_detach = list_ex detaches (before @ after)\<rparr>))) w"
    unfolding parse_run_def run_line [OF assms]
    by (cases "r_fold set_config (before @ after) config_default")
      (auto simp: w_bind_def w_lift_def w_ok_def split: option.splits result.splits)
qed

definition named_file :: world where
  "named_file = calm_world (empty_fs\<lparr>fs_files := [(''f.json'', ''{\"hostname\":\"file\",\"name\":\"web\"}'')]\<rparr>) empty_pipe
     (\<lambda>_. RDone) (\<lambda>_. None)"

lemma named_file_read:
  obtains base w where "from_file ''f.json'' named_file = Some (Ok base, w)" "c_name base = Some ''web''" "c_rootfs base = []"
    "c_hostname base = ''file''"
proof -
  let ?t = "''{\"hostname\":\"file\",\"name\":\"web\"}''"
  let ?j = "Obj [(''hostname'', Str ''file''), (''name'', Str ''web'')]"
  have t: "utf8_valid ?t" "path_extension ''f.json'' = Some ''json''" "json_parse ?t = Ok ?j" by code_simp+
  have "config_from_json ?j = Ok (config_default\<lparr>c_hostname := ''file'', c_name := Some ''web''\<rparr>)" by code_simp
  then have "from_file ''f.json'' named_file = Some (Ok (config_default\<lparr>c_hostname := ''file'', c_name := Some ''web''\<rparr>),
      named_file\<lparr>w_fs := (w_fs named_file)\<lparr>fs_tick := Suc 0\<rparr>\<rparr>)"
    using t by (simp add: from_file_def named_file_def calm_world_def empty_fs_def read_to_string_def io_bind_def io_from_def os_read_def
        sys_call_def file_of_def io_ok_def w_bind_def on_fs_def w_lift_def)
  then show thesis using that by (simp add: config_default_def)
qed

theorem options_override_file_witness:
  "\<exists>ra w. parse_run [''--hostname'', ''line'', ''--config'', ''f.json'', ''./rootfs'', ''/bin/sh''] True named_file = Some (Ok ra, w) \<and>
     c_hostname (ra_config ra) = ''line'' \<and> c_name (ra_config ra) = Some ''web'' \<and> c_command (ra_config ra) = [''/bin/sh'']"
proof -
  obtain base w where b: "from_file ''f.json'' named_file = Some (Ok base, w)" "c_name base = Some ''web''" "c_rootfs base = []"
    "c_hostname base = ''file''" by (rule named_file_read)
  let ?x = "Spaced ''--hostname'' ''line''"
  have h: "set_config ?x c = Ok (c\<lparr>c_hostname := ''line''\<rparr>)" for c
    by (simp add: set_config_def detaches_def flag_defs with_value_def arg_value_def)
  show ?thesis
    using options_override_file [of "[?x]" "[]" "[''./rootfs'', ''/bin/sh'']" "''f.json''" True] b
    by (simp add: line_words_def VALUED_def positional_def h w_bind_def w_lift_def w_ok_def detaches_def apply_positional_def)
qed

lemma unknown_flag: "f \<notin> set VALUED \<union> set SWITCHES \<Longrightarrow> config_flag f inl rest cfg = None"
  unfolding VALUED_def SWITCHES_def
  by (simp only: list.set Un_iff insert_iff empty_iff simp_thms de_Morgan_disj) (elim conjE; simp add: flag_defs)

text \<open>
  A misspelled option never passes: after any correct settings, a word that looks like an
  option but is none of the options of \<open>run\<close> and \<open>create\<close> makes the whole line an error, with or
  without a value and whatever follows it, and no file is read.
\<close>

lemma unknown_option_refused:
  assumes "list_all setting_ok before" "starts_with w ''-''" "w \<noteq> ''-''" "split_flag w = (f, v)"
    and "f \<notin> set VALUED \<union> set SWITCHES \<union> {''--config'', ''-c'', ''--''}"
  shows "\<exists>e. parse_run (line_words before @ w # after) run u = Some (Err e, u)"
proof -
  have "\<exists>e. args_loop (run_step run) (line_words before @ w # after) s = Err e" if s: "\<not> rp_end s" for s
  proof (cases "r_fold (run_set run) before s")
    case (Ok t)
    then have "\<not> rp_end t" using settings_end [OF assms(1) Ok] s by simp
    moreover have "f \<noteq> ''-d''" "f \<noteq> ''--detach''" using assms(5) by (auto simp: SWITCHES_def)
    ultimately have "\<exists>e. run_step run w after t = Err e"
      using assms unknown_flag [of f] by (auto simp: run_step_option run_option_def)
    then show ?thesis using loop_settings [OF assms(1) s] Ok by auto
  qed (use loop_settings [OF assms(1) s] in auto)
  from this [of "\<lparr>rp_cfg = config_default, rp_config_path = None, rp_detach = False, rp_positional = [], rp_end = False\<rparr>"]
  show ?thesis by (auto simp: parse_run_def parse_run_pass_def w_bind_def w_lift_def)
qed

text \<open>
  C36: In a line of \<open>run\<close> or \<open>create\<close>, after any known options, a value attached to a switch is
  ignored, except for \<open>--no-new-privs\<close>: the line with
  \<open>--privileged=false\<close> or \<open>--rm=no\<close> means the same as the line with the bare switch.
\<close>

theorem switch_value_ignored:
  assumes "list_all setting_ok before" "f \<in> set SWITCHES" "f \<noteq> ''--no-new-privs''"
  shows "parse_run (line_words before @ (f @ ''='' @ v) # after) run = parse_run (line_words before @ f # after) run"
proof -
  have f: "f \<in> set VALUED \<union> set SWITCHES" using assms(2) by simp
  have "config_flag f (Some v) rest cfg = config_flag f None rest cfg" for rest cfg
    using assms(2,3) unfolding SWITCHES_def by (simp only: list.set insert_iff empty_iff simp_thms) (elim disjE; simp add: flag_defs)
  then have "run_step run (f @ ''='' @ v) rest t = run_step run f rest t" if "\<not> rp_end t" for rest t
    using that f split_flag_option [OF f] option_words [OF f] starts_with_app [of f "''-''" "''='' @ v"]
    by (auto simp: run_step_def run_option_def append_eq_Cons_conv)
  then have "args_loop (run_step run) (line_words before @ (f @ ''='' @ v) # after) s = args_loop (run_step run) (line_words before @ f # after) s"
    if "\<not> rp_end s" for s
    using that settings_end [OF assms(1), of run s] loop_settings [OF assms(1) that]
    by (cases "r_fold (run_set run) before s") auto
  then show ?thesis by (simp add: parse_run_def parse_run_pass_def)
qed

theorem switch_value_ignored_witness:
  "\<forall>w. parse_run [''--privileged=false'', ''/r'', ''/bin/sh''] True w = Some (Ok
     \<lparr>ra_config = config_default\<lparr>c_rootfs := ''/r'', c_command := [''/bin/sh''], c_security := security_default\<lparr>s_privileged := True\<rparr>\<rparr>,
      ra_detach = False\<rparr>, w)"
  using switch_value_ignored [of "[]" "''--privileged''" "''false''" "[''/r'', ''/bin/sh'']" True]
  by (simp add: SWITCHES_def line_words_def parse_run_def parse_run_pass_def run_step_def run_option_def eval_words flag_defs
    upd_security_def apply_positional_def config_default_def w_bind_def w_lift_def w_ok_def)

end
