(* ===== verification/Stats_Laws.thy ===== *)
theory Stats_Laws
  imports Stats Exit_Laws
begin

text \<open>
  Collecting statistics only looks: it always gives a result, asks the kernel questions and
  changes nothing.
\<close>

section \<open>Operations that change no file\<close>

abbreviation same_files :: "world \<Rightarrow> world \<Rightarrow> bool" where
  "same_files w w' \<equiv> fs_files (w_fs w') = fs_files (w_fs w) \<and> fs_dirs (w_fs w') = fs_dirs (w_fs w)"

definition files_kept :: "'a act \<Rightarrow> bool" where
  "files_kept m \<longleftrightarrow> (\<forall>w r w'. m w = Some (r, w') \<longrightarrow> same_files w w')"

named_theorems kept_intros "operations that change no file"

lemma files_keptD: "files_kept m \<Longrightarrow> m w = Some (r, w') \<Longrightarrow> same_files w w'"
  by (simp add: files_kept_def)

lemma kept_basic [kept_intros]: "files_kept (w_ok x)" "files_kept (w_err e)" "files_kept (w_lift r)"
  by (simp_all add: files_kept_def w_ok_def w_err_def w_lift_def)

lemma kept_try [kept_intros]:
  assumes "files_kept m" "\<And>r. files_kept (f r)"
  shows "files_kept (w_try m f)"
  unfolding files_kept_def
proof (intro allI impI)
  fix w r w' assume "w_try m f w = Some (r, w')"
  then obtain x u where "m w = Some (x, u)" "f x u = Some (r, w')" by (auto simp: w_try_def split: option.splits)
  then show "same_files w w'" using files_keptD [OF assms(1)] files_keptD [OF assms(2)] by metis
qed

lemma kept_bind [kept_intros]: "files_kept m \<Longrightarrow> (\<And>x. files_kept (f x)) \<Longrightarrow> files_kept (w_bind m f)"
  unfolding w_bind_try by (intro kept_try) (auto intro: kept_intros split: result.splits)

lemma kept_get [kept_intros]: "(\<And>w. files_kept (f w)) \<Longrightarrow> files_kept (w_get f)"
  by (simp add: files_kept_def w_get_def)

lemma kept_call [kept_intros]: "(\<And>r. files_kept (f r)) \<Longrightarrow> files_kept (w_call c f)"
  by (fastforce simp: files_kept_def w_call_def k_call_def Let_def)

lemma kept_sys [kept_intros]: "files_kept (w_sys c d e)"
  unfolding w_sys_def by (intro kept_intros)

lemma kept_cases [kept_intros]:
  "files_kept a \<Longrightarrow> files_kept b \<Longrightarrow> files_kept (if c then a else b)"
  "files_kept a \<Longrightarrow> (\<And>x. files_kept (g x)) \<Longrightarrow> files_kept (case z of None \<Rightarrow> a | Some x \<Rightarrow> g x)"
  "(\<And>x. files_kept (g x)) \<Longrightarrow> (\<And>e. files_kept (h e)) \<Longrightarrow> files_kept (case y of Ok x \<Rightarrow> g x | Err e \<Rightarrow> h e)"
  "(\<And>a b. files_kept (k2 a b)) \<Longrightarrow> files_kept (case p of (a, b) \<Rightarrow> k2 a b)"
  by (simp_all split: option.split result.split prod.split)

lemma kept_uptime [kept_intros]: "files_kept (w_uptime st)"
  by (auto simp: files_kept_def w_uptime_def on_fs_def uptime_ms_def now_ms_def Let_def)

section \<open>Questions to the kernel\<close>

fun question :: "kcall \<Rightarrow> bool" where
  "question (KRead _) = True"
| "question (KStat _) = True"
| "question (KReadDir _) = True"
| "question KNlOpen = True"
| "question KNlBind = True"
| "question (KNetlink m) = (\<exists>seq. m = mb_finish seq get_links_msg)"
| "question _ = False"

lemmas collect_defs = stats_collect_def process_count_via_proc_def collect_cgroup_def collect_link_def nl_stats_def
  nl_open_def nl_exchange_def cg_attach_def cg_stats_def cg_read_u64_def cg_keyed_value_def cg_read_keyed_def cg_read_def
  available_controllers_def read_list_def read_trimmed_def k_read_to_string_def k_is_dir_def l_bind_def l_lift_def l_only_def

lemma collect_asks: "makes question (stats_collect st)"
  unfolding collect_defs by (intro forward_intros; (auto simp: w_uptime_def intro: forward_intros)?)

lemma collect_keeps: "files_kept (stats_collect st)"
  unfolding collect_defs by (intro kept_intros)

lemma collect_returns: "returns (stats_collect st)"
  unfolding collect_defs by (intro returns_intros; (auto simp: w_uptime_def intro: returns_intros)?)

section \<open>Success\<close>

definition succeeds :: "'a act \<Rightarrow> bool" where
  "succeeds m \<longleftrightarrow> (\<forall>w. \<exists>x w'. m w = Some (Ok x, w'))"

lemma succeeds_bind: "succeeds m \<Longrightarrow> (\<And>x. succeeds (f x)) \<Longrightarrow> succeeds (w_bind m f)"
  unfolding succeeds_def by (metis w_bind_Ok)

lemma succeeds_try: "returns m \<Longrightarrow> (\<And>r. succeeds (f r)) \<Longrightarrow> succeeds (w_try m f)"
  unfolding succeeds_def returns_def w_try_def by (fastforce split: option.splits)

lemma succeeds_basic: "succeeds (w_ok x)" "(\<And>r. succeeds (f r)) \<Longrightarrow> succeeds (w_call c f)" "succeeds (w_uptime st)"
  by (auto simp: succeeds_def w_ok_def w_call_def w_uptime_def on_fs_def split: prod.splits)

lemma succeeds_cg_stats: "succeeds (cg_stats cg)"
proof -
  have "looks (cg_stats cg)"
    unfolding cg_stats_def cg_read_u64_def cg_keyed_value_def cg_read_keyed_def by (intro looks_bind looks_ok looks_read)
  then show ?thesis unfolding looks_def succeeds_def by metis
qed

lemma succeeds_collect:
  "succeeds (process_count_via_proc pid)" "succeeds (collect_cgroup st)" "succeeds (collect_link st)"
proof -
  have "returns (cg_attach p)" "returns nl_open" "returns (l_only 1 (nl_stats n))" for p n
    unfolding collect_defs by (intro returns_intros; (auto intro: returns_intros)?)+
  then show "succeeds (process_count_via_proc pid)" "succeeds (collect_cgroup st)" "succeeds (collect_link st)"
    unfolding process_count_via_proc_def collect_cgroup_def collect_link_def
    by (auto intro!: succeeds_basic succeeds_try succeeds_cg_stats split: option.split result.split)
qed

text \<open>
  Statistics are only looked at: collecting them gives a result for every container whatever the
  kernel answers, asks the kernel for files, directories and the list of links, and leaves every
  file of the runtime as it was.  The counters are shown as available only for a container with a
  host interface, and are zero otherwise.
\<close>

theorem statistics_only_look:
  "\<exists>s w'. stats_collect st w = Some (Ok s, w') \<and> fs_files (w_fs w') = fs_files (w_fs w) \<and> fs_dirs (w_fs w') = fs_dirs (w_fs w) \<and>
     list_all (\<lambda>(c, _). question c) (since w w') \<and> st_id s = cs_id st \<and> st_pid s = cs_init_pid st \<and>
     (if st_net_available s then ns_host_veth (cs_network st) \<noteq> None
      else (st_net_rx_bytes s, st_net_tx_bytes s, st_net_rx_packets s, st_net_tx_packets s) = (0, 0, 0, 0))"
proof -
  obtain up u1 where 1: "w_uptime st w = Some (Ok up, u1)" using succeeds_basic(3) [of st] unfolding succeeds_def by blast
  obtain pc u2 where 2: "process_count_via_proc (cs_init_pid st) u1 = Some (Ok pc, u2)"
    using succeeds_collect(1) unfolding succeeds_def by blast
  obtain cg u3 where 3: "collect_cgroup st u2 = Some (Ok cg, u3)" using succeeds_collect(2) unfolding succeeds_def by blast
  obtain l u4 where 4: "collect_link st u3 = Some (Ok l, u4)" using succeeds_collect(3) unfolding succeeds_def by blast
  have veth: "ns_host_veth (cs_network st) = None \<Longrightarrow> l = None" using 4 by (simp add: collect_link_def w_ok_def)
  obtain s where s: "stats_collect st w = Some (Ok s, u4)" "st_id s = cs_id st" "st_pid s = cs_init_pid st"
      "if st_net_available s then l \<noteq> None
       else (st_net_rx_bytes s, st_net_tx_bytes s, st_net_rx_packets s, st_net_tx_packets s) = (0, 0, 0, 0)"
    unfolding stats_collect_def using 1 2 3 4 by (simp add: w_bind_def w_ok_def with_link_def split: option.splits)
  have "list_all (\<lambda>(c, _). question c) (since w u4)" using makesD [OF collect_asks s(1)] by (auto simp: list_all_iff)
  then show ?thesis using s veth files_keptD [OF collect_keeps s(1)] by (auto split: if_splits)
qed

section \<open>Percentages\<close>

text \<open>
  A rate is given only for samples that can have one: the interval is not empty and the counter
  did not run backwards, and then the difference that is divided is the true one.
\<close>

lemma cpu_delta_monotonic:
  "cpu_delta_percent prev cur ms = Some p \<longleftrightarrow> (\<exists>a b. c_cpu_usage_usec (st_cgroup prev) = Some a \<and>
     c_cpu_usage_usec (st_cgroup cur) = Some b \<and> ms \<noteq> 0 \<and> unat a \<le> unat b \<and>
     p = f64_mul (f64_div (f64_div (f64_of_nat (unat b - unat a)) (f64_of_nat 1000)) (f64_of_nat (unat ms))) (f64_of_nat 100))"
  by (cases "c_cpu_usage_usec (st_cgroup prev)"; cases "c_cpu_usage_usec (st_cgroup cur)")
     (auto simp: cpu_delta_percent_def cpu_percent_def word_less_nat_alt word_le_nat_alt unat_sub split: if_splits)

end
