(* ===== verification/Main_Laws.thy ===== *)
theory Main_Laws
  imports Main_Program Cli_Laws Launch_Run Stats_Laws Stop_Laws
begin

text \<open>
  Properties of the whole program: which commands touch what, what the exit status tells, and how the
  process that is cloned becomes init.
\<close>

section \<open>Exit status\<close>

lemma eprintln_run:
  assumes "eprintln t w = Some (r, w')"
  shows "r = Ok () \<and> w_fs w' = w_fs w \<and> (\<exists>x. since w w' = [(KFd (FWrite 2 (t @ [CHR 0x0A])), x)]) \<and> later w w'"
  using assms by (auto simp: eprintln_def w_print_def w_call_def k_call_def Let_def w_panic_def since_def later_def split: option.splits)

lemma exit_run: "w_call (KProc (PExit n)) (\<lambda>_. w_ok ()) w = Some (Ok (), w') \<Longrightarrow>
    w_fs w' = w_fs w \<and> (\<exists>x. since w w' = [(KProc (PExit n), x)]) \<and> later w w'"
  by (auto simp: w_call_def k_call_def Let_def w_ok_def since_def later_def)

text \<open>A line that is refused: the message is written and the process exits, and nothing else happens.\<close>

lemma refused_line:
  assumes "cli_parse argv u = Some (Err e, u)" "main_program ca argv u = Some (r, u')"
  shows "w_fs u' = w_fs u \<and> (\<exists>x y. since u u' = [(KFd (FWrite 2 (''myrun: '' @ display_error e @ [CHR 0x0A])), x),
     (KProc (PExit (word_of_int (exit_code e))), y)])"
proof -
  have "real_main ca argv u = Some (Err e, u)" using assms(1) by (simp add: real_main_def w_bind_def)
  then have "w_bind (eprintln (''myrun: '' @ display_error e)) (\<lambda>_. w_call (KProc (PExit (word_of_int (exit_code e)))) (\<lambda>_. w_ok ())) u = Some (r, u')"
    using assms(2) by (simp add: main_program_def w_try_def)
  then obtain z v where z: "eprintln (''myrun: '' @ display_error e) u = Some (z, v)"
      "z = Ok () \<Longrightarrow> w_call (KProc (PExit (word_of_int (exit_code e)))) (\<lambda>_. w_ok ()) v = Some (r, u')"
    by (cases "eprintln (''myrun: '' @ display_error e) u") (auto simp: w_bind_def split: result.splits)
  then have v: "eprintln (''myrun: '' @ display_error e) u = Some (Ok (), v)"
      "w_call (KProc (PExit (word_of_int (exit_code e)))) (\<lambda>_. w_ok ()) v = Some (r, u')"
    using eprintln_run [OF z(1)] by simp_all
  moreover from this have "r = Ok ()" by (simp add: w_call_def w_ok_def split: prod.splits)
  ultimately show ?thesis using eprintln_run [OF v(1)] exit_run since_trans [of u v u'] by fastforce
qed

text \<open>
  C6: A misspelled option of \<open>run\<close> or \<open>create\<close> ends the program before anything is done: no
  container is recorded, no file is touched, no process is made; the only calls are the
  message on standard error and the exit with a status that is not zero.
\<close>

theorem misspelled_option_does_nothing:
  assumes "list_all setting_ok before" "starts_with w ''-''" "w \<noteq> ''-''" "split_flag w = (f, v)"
    and "f \<notin> set VALUED \<union> set SWITCHES \<union> {''--config'', ''-c'', ''--''}"
    and "main_program ca (sub # line_words before @ w # after) u = Some (r, u')" "sub = ''run'' \<or> sub = ''create''"
  shows "w_fs u' = w_fs u \<and> (\<exists>m x n y. since u u' = [(KFd (FWrite 2 m), x), (KProc (PExit n), y)] \<and> n \<noteq> 0)"
proof -
  obtain e where "parse_run (line_words before @ w # after) (sub = ''run'') u = Some (Err e, u)"
    using unknown_option_refused [OF assms(1-5)] by blast
  then have "cli_parse (sub # line_words before @ w # after) u = Some (Err e, u)"
    using assms(7) by (auto simp: cli_parse_command parse_command_def w_bind_def)
  moreover have "(word_of_int (exit_code e) :: i32) \<noteq> 0"
    by (cases e) (simp_all add: USAGE_def CONFIG_def NOT_FOUND_def STATE_def SYSCALL_def UNSUPPORTED_def FAULT_def GENERIC_def)
  ultimately show ?thesis using refused_line [OF _ assms(6)] by blast
qed

theorem misspelled_option_does_nothing_witness:
  "\<forall>ca. \<exists>r u'. main_program ca [''run'', ''--name'', ''a'', ''--memroy'', ''256m'', ''./rootfs'', ''/bin/sh'']
      (calm_world empty_fs empty_pipe (\<lambda>_. RDone) (\<lambda>_. None)) = Some (r, u') \<and> w_fs u' = empty_fs \<and> length (w_log u') = 2"
proof
  fix ca
  let ?u = "calm_world empty_fs empty_pipe (\<lambda>_. RDone) (\<lambda>_. None)" and ?a = "[''--name'', ''a'', ''--memroy'', ''256m'', ''./rootfs'', ''/bin/sh'']"
  have ok: "list_all setting_ok [Spaced ''--name'' ''a'']" "split_flag ''--memroy'' = (''--memroy'', None)"
    "''--memroy'' \<notin> set VALUED \<union> set SWITCHES \<union> {''--config'', ''-c'', ''--''}" "line_words [Spaced ''--name'' ''a''] @ ''--memroy'' # [''256m'', ''./rootfs'', ''/bin/sh''] = ?a"
    by (simp_all add: VALUED_def SWITCHES_def split_flag_def line_words_def)
  obtain e where "parse_run ?a True ?u = Some (Err e, ?u)"
    using unknown_option_refused [OF ok(1) _ _ ok(2,3), of "[''256m'', ''./rootfs'', ''/bin/sh'']" True ?u] ok(4) by auto
  then have "cli_parse (''run'' # ?a) ?u = Some (Err e, ?u)" by (simp add: cli_parse_command parse_command_def w_bind_def)
  then obtain r u' where m: "main_program ca (''run'' # ?a) ?u = Some (r, u')"
    by (simp add: main_program_def real_main_def w_bind_def w_try_def eprintln_def w_print_def w_call_def k_call_def Let_def
      w_panic_def w_ok_def calm_world_def)
  have "w_fs u' = w_fs ?u \<and> (\<exists>m x n y. since ?u u' = [(KFd (FWrite 2 m), x), (KProc (PExit n), y)] \<and> n \<noteq> 0)"
    using misspelled_option_does_nothing [OF ok(1) _ _ ok(2,3), of ca "''run''" "[''256m'', ''./rootfs'', ''/bin/sh'']" ?u r u'] m ok(4) by auto
  then have "w_fs u' = empty_fs \<and> length (w_log u') = 2" by (auto simp: since_def calm_world_def)
  then show "\<exists>r u'. main_program ca (''run'' # ?a) ?u = Some (r, u') \<and> w_fs u' = empty_fs \<and> length (w_log u') = 2" using m by blast
qed

section \<open>Commands on several containers\<close>

text \<open>
  The attempts of a command, container by container: each is looked up and operated on, whatever
  became of the ones before it, and its outcome is printed.
\<close>

inductive attempts :: "(string \<Rightarrow> string act) \<Rightarrow> string \<Rightarrow> world \<Rightarrow> string list \<Rightarrow> string res list \<Rightarrow> world \<Rightarrow> bool"
  for f root where
  none_left: "attempts f root w [] [] w"
| next_one: "w_bind (resolve_id root needle) f w = Some (r, u) \<Longrightarrow>
    (case r of Ok out \<Rightarrow> println out | Err e \<Rightarrow> eprintln (''myrun: '' @ needle @ '': '' @ display_error e)) u = Some (Ok (), v) \<Longrightarrow>
    attempts f root v ids rs w' \<Longrightarrow> attempts f root w (needle # ids) (r # rs) w'"

inductive_cases attempts_consE: "attempts f root w (needle # ids) rs w'"

lemma print_Ok: "w_print fd t w = Some (r, w') \<Longrightarrow> r = Ok ()"
  by (auto simp: w_print_def w_ok_def w_call_def w_panic_def split: if_splits prod.splits option.splits)

lemma fold_attempts:
  assumes "w_fold (each_container f root) ids n w = Some (r, w')"
  shows "\<exists>rs. attempts (f root) root w ids rs w' \<and> r = Ok (n + length (filter (\<lambda>r. \<not> is_ok r) rs))"
  using assms
proof (induction ids arbitrary: n w)
  case Nil
  then show ?case by (auto simp: w_ok_def intro: attempts.intros)
next
  case (Cons needle ids)
  obtain x u where x: "w_bind (resolve_id root needle) (f root) w = Some (x, u)"
    using Cons.prems by (auto simp: each_container_def w_bind_def w_try_def split: option.splits result.splits)
  let ?say = "case x of Ok out \<Rightarrow> println out | Err e \<Rightarrow> eprintln (''myrun: '' @ needle @ '': '' @ display_error e)"
  let ?n = "if is_ok x then n else n + 1"
  have each: "each_container f root needle n w = w_bind ?say (\<lambda>_. w_ok ?n) u"
    using x by (cases x) (simp_all add: each_container_def w_try_def)
  obtain z v where z: "?say u = Some (z, v)" using Cons.prems each by (cases "?say u") (auto simp: w_bind_def)
  have "z = Ok ()" using z print_Ok by (cases x) (auto simp: println_def eprintln_def)
  then have "w_fold (each_container f root) ids ?n v = Some (r, w')" using Cons.prems each z by (simp add: w_bind_def w_ok_def)
  then obtain rs where "attempts (f root) root v ids rs w'" "r = Ok (?n + length (filter (\<lambda>r. \<not> is_ok r) rs))"
    using Cons.IH by blast
  then show ?case using next_one [OF x, of v ids rs w'] z \<open>z = Ok ()\<close> by (intro exI [of _ "x # rs"]) auto
qed

lemma attempts_length: "attempts f root w ids rs w' \<Longrightarrow> length rs = length ids"
  by (induction rule: attempts.induct) auto

lemma for_each_attempts:
  assumes "for_each ca ids f w = Some (r, w')" "open_store ca w = Some (Ok root, u)"
  shows "\<exists>rs. attempts (f root) root u ids rs w' \<and> length rs = length ids \<and> r = Ok (if list_all is_ok rs then 0 else 1)"
proof -
  obtain n where n: "w_fold (each_container f root) ids 0 u = Some (n, w')" "r = r_map (\<lambda>n. if n > 0 then 1 else 0) n"
    using assms by (auto simp: for_each_def w_bind_def w_ok_def GENERIC_def split: option.splits result.splits)
  obtain rs where rs: "attempts (f root) root u ids rs w'" "n = Ok (length (filter (\<lambda>r. \<not> is_ok r) rs))"
    using fold_attempts [OF n(1)] by auto
  have "(length (filter (\<lambda>r. \<not> is_ok r) rs) > 0) = (\<not> list_all is_ok rs)" by (auto simp: list_all_iff filter_empty_conv)
  then show ?thesis using rs n attempts_length [OF rs(1)] by auto
qed

text \<open>What \<open>stop\<close>, \<open>kill\<close>, \<open>rm\<close>, \<open>pause\<close> and \<open>unpause\<close> do to one container.\<close>

fun on_each :: "nat \<Rightarrow> command \<Rightarrow> (string list \<times> (string \<Rightarrow> string \<Rightarrow> string act)) option" where
  "on_each me (CmdStop ids t) = Some (ids, \<lambda>root i. then_id (life_stop root me i (unat t)) i)"
| "on_each me (CmdKill ids sg) = Some (ids, \<lambda>root i. then_id (life_kill root me i sg (sg = SIGKILL)) i)"
| "on_each me (CmdDelete ids force) = Some (ids, \<lambda>root i. then_id (life_delete root me i force) i)"
| "on_each me (CmdPause ids) = Some (ids, \<lambda>root i. then_id (life_pause root me i) i)"
| "on_each me (CmdUnpause ids) = Some (ids, \<lambda>root i. then_id (life_unpause root me i) i)"
| "on_each me _ = None"


definition root_caller :: "host \<Rightarrow> caller" where
  "root_caller h = \<lparr>ca_me = 1, ca_arch = X86_64, ca_euid = 0, ca_run_is_dir = True, ca_host = h\<rparr>"

lemma open_store_stubborn:
  "\<exists>u. open_store (root_caller h) (stubborn empty_fs) = Some (Ok ''/run/myrun'', u) \<and> w_answer u = stubborn_host \<and> patient u"
proof -
  obtain u where u: "open_store (root_caller h) (stubborn empty_fs) = Some (Ok ''/run/myrun'', u)"
    by (simp add: open_store_def w_get_def on_fs_def store_open_def mkdir_p_def io_from_def os_mkdir_all_def sys_call_def Let_def
      stubborn_def empty_fs_def io_bind_def io_ok_def caller_root_def root_caller_def runtime_root_def file_of_def list_ex_iff)
  have "forward (open_store (root_caller h))" unfolding open_store_def by (intro forward_intros)
  then have "later (stubborn empty_fs) u" using u by (rule makes_later)
  then show ?thesis using u patient_later [OF _ stubborn_patient] by (auto simp: later_def stubborn_def)
qed

lemma each_container_returns:
  assumes "w_answer v = stubborn_host" "patient v" "\<And>i. ends (f root i)"
  shows "\<exists>m v'. each_container f root needle n v = Some (Ok m, v') \<and> w_answer v' = stubborn_host \<and> patient v'"
proof -
  have e: "ends (w_bind (resolve_id root needle) (f root))" unfolding resolve_id_def by (intro ends_intros assms(3))
  then obtain r u where u: "w_bind (resolve_id root needle) (f root) v = Some (r, u)" "later v u"
    using assms(2) makes_later unfolding ends_def by (metis not_None_eq prod.collapse)
  have a: "w_answer u = stubborn_host" "patient u" using u(2) assms(1) patient_later [OF u(2) assms(2)] by (simp_all add: later_def)
  have p: "\<exists>v'. w_print fd t u = Some (Ok (), v') \<and> w_answer v' = stubborn_host \<and> patient v'" for fd t
    using a by (auto simp: w_print_def w_call_def k_call_def Let_def w_panic_def w_ok_def stubborn_host_def patient_def clock_def)
  show ?thesis
  proof (cases r)
    case (Ok out)
    then show ?thesis using u(1) p [of 1 "out @ [CHR 0x0A]"] by (auto simp: each_container_def w_try_def w_bind_def w_ok_def println_def)
  next
    case (Err x)
    then show ?thesis using u(1) p [of 2 "''myrun: '' @ needle @ '': '' @ display_error x @ [CHR 0x0A]"]
      by (auto simp: each_container_def w_try_def w_bind_def w_ok_def eprintln_def)
  qed
qed


section \<open>The cloned process\<close>

text \<open>What the process that a call makes starts with.\<close>

definition started :: "kcall \<Rightarrow> child_start option" where
  "started c = (case c of KProc (PClone3 _ _ _ im) \<Rightarrow> Some im | KProc (PClone _ im) \<Rightarrow> Some im | _ \<Rightarrow> None)"

definition init_argv :: "string \<Rightarrow> string \<Rightarrow> string list" where
  "init_argv root i = [''myrun-init'', ''__init'', store_dir root i]"

definition starts_init :: "string \<Rightarrow> string \<Rightarrow> kcall \<Rightarrow> bool" where
  "starts_init root i c \<longleftrightarrow> (\<forall>im. started c = Some im \<longrightarrow> im_argv im = init_argv root i)"

lemma starts_init_ordinary: "makes ordinary m \<Longrightarrow> makes (starts_init root i) m"
  by (erule makes_mono) (auto simp: starts_init_def started_def ordinary_def split: kcall.splits)

lemma makes_bind_value:
  assumes "makes P m" "\<And>w x u. m w = Some (Ok x, u) \<Longrightarrow> R x" "\<And>x. R x \<Longrightarrow> makes P (f x)"
  shows "makes P (w_bind m f)"
proof -
  have "later w w' \<and> (\<forall>e \<in> set (since w w'). P (fst e))" if run: "w_bind m f w = Some (r, w')" for w r w'
  proof (cases "m w")
    case (Some y)
    obtain res u where y: "m w = Some (res, u)" using Some by (cases y) auto
    have l: "later w u" "\<forall>e \<in> set (since w u). P (fst e)" using assms(1) y unfolding makes_def by blast+
    show ?thesis
    proof (cases res)
      case (Ok x)
      then have f: "f x u = Some (r, w')" and "R x" using run y assms(2) by (auto simp: w_bind_def)
      then have l': "later u w'" "\<forall>e \<in> set (since u w'). P (fst e)" using assms(3) unfolding makes_def by blast+
      then show ?thesis using l later_trans [OF l(1) l'(1)] since_trans [OF l(1) l'(1)] by auto
    qed (use run y l in \<open>auto simp: w_bind_def\<close>)
  qed (use run in \<open>simp add: w_bind_def\<close>)
  then show ?thesis unfolding makes_def by blast
qed

lemma exec_plan_argv: "exec_plan_new fd argv envp w = Some (Ok plan, w') \<Longrightarrow> ep_argv plan = argv"
  by (auto simp: exec_plan_new_def w_bind_def w_ok_def split: option.splits result.splits)

lemma clone_child_starts: "ep_argv (cr_plan req) = init_argv root i \<Longrightarrow> makes (starts_init root i) (clone_child req)"
proof -
  assume a: "ep_argv (cr_plan req) = init_argv root i"
  have c: "starts_init root i (KProc (PClone3 fl sg cg (child_start_of req x y)))" "starts_init root i (KProc (PClone fl (child_start_of req x y)))" for fl sg cg x y
    using a by (simp_all add: starts_init_def started_def child_start_of_def)
  note o = starts_init_ordinary [OF ordinary_close_errno] starts_init_ordinary [OF ordinary_fds(4)]
  have "makes (starts_init root i) (clone_child_legacy req)" unfolding clone_child_legacy_def by (intro forward_intros o c)
  then show ?thesis unfolding clone_child_def by (intro forward_intros o c)
qed

lemma launch_clone_starts: "makes (starts_init root i) (launch_clone root cfg i cg)"
proof -
  have o: "makes (starts_init root i) (close_fd fd)" "makes (starts_init root i) sealed_self_exe" "makes (starts_init root i) (cg_open_fd g)"
    "makes (starts_init root i) (exec_plan_new fd as es)" for fd g as es
    by (rule starts_init_ordinary, rule ordinary_intros)+
  have f: "starts_init root i (KFd x)" for x by (simp add: starts_init_def started_def)
  have g: "makes (starts_init root i) (guard_fd fd m)" "makes (starts_init root i) (guard_opt z m)" if "makes (starts_init root i) m" for fd z and m :: "'a act"
    unfolding guard_opt_def guard_fd_def by (intro forward_intros o that)+
  show ?thesis
    unfolding launch_clone_def
    by (intro g forward_intros o f makes_bind_value [where R = "\<lambda>plan. ep_argv plan = init_argv root i", OF o(4)] clone_child_starts)
      (auto simp: init_argv_def dest: exec_plan_argv)
qed

text \<open>
  What the new process does with its command line: it executes the sealed copy of the runtime, which
  reads its arguments as the internal command for init with the state directory of the container,
  or it exits.
\<close>

definition becomes_init :: "string \<Rightarrow> string \<Rightarrow> kcall \<Rightarrow> bool" where
  "becomes_init root i c \<longleftrightarrow> (case c of
      KProc (PExecFd fd argv env) \<Rightarrow> fd = CHILD_EXE_FD \<and>
        (\<forall>ca. real_main ca (tl argv) = w_bind (init_main (ca_arch ca) (store_dir root i)) (\<lambda>_. w_ok None))
    | KProc (PExit n) \<Rightarrow> n = 126 \<or> n = 127
    | _ \<Rightarrow> False)"

lemma init_argv_runs_init: "real_main ca (tl (init_argv root i)) = w_bind (init_main (ca_arch ca) (store_dir root i)) (\<lambda>_. w_ok None)"
  by (rule ext) (simp add: init_argv_def real_main_def cli_parse_command parse_command_def args_next_def w_bind_def w_lift_def)

lemma child_side_ends:
  assumes "child_side im u = Some (q, u')" "im_argv im = init_argv root i"
  shows "\<exists>t c x. since u u' = t @ [(c, x)] \<and> becomes_init root i c"
proof -
  obtain v where v: "(case im_pdeathsig im of Some sig \<Rightarrow> w_call (KProc (PDeathsig sig)) (\<lambda>_. w_ok ()) | None \<Rightarrow> w_ok ()) u = Some (Ok (), v)" "later u v"
    by (cases "im_pdeathsig im") (auto simp: w_call_def k_call_def Let_def w_ok_def later_def)
  have "\<exists>t c x. since v u' = t @ [(c, x)] \<and> becomes_init root i c \<and> later v u'"
    using assms(1) v(1) by (simp add: child_side_def w_bind_def w_call_def k_call_def Let_def w_ok_def since_def later_def becomes_init_def
      assms(2) init_argv_runs_init split: if_splits) (auto simp: becomes_init_def init_argv_runs_init)
  then show ?thesis using since_trans [OF v(2)] by (metis append.assoc)
qed



section \<open>Reconciling without an error\<close>

text \<open>
  Listing and inspecting see the state the store would have written: where reconciling a container
  succeeds, the state that \<open>ls\<close>, \<open>inspect\<close> and \<open>stats\<close> go on with is the reconciled one, and
  the world is the same; where it fails they still show the container as stopped.
\<close>

theorem shown_state_is_reconciled:
  assumes "w_reconcile root me st w = Some (r, w')"
  shows "\<exists>st'. reconciled root me st w = Some (Ok st', w') \<and>
    (case r of Ok (_, st2) \<Rightarrow> st' = st2 | Err _ \<Rightarrow> cs_status st' = Stopped)"
proof (cases "is_live (cs_status st)")
  case True
  define procs where "procs = (if sint (cs_init_pid st) \<le> 0 then (\<lambda>_. None) else procs_of (w_answer w (w_log w) (KRead (stat_path (cs_init_pid st)))))"
  define v where "v = (if sint (cs_init_pid st) \<le> 0 then w else snd (k_call (KRead (stat_path (cs_init_pid st))) w))"
  have dead: "sint (cs_init_pid st) \<le> 0 \<Longrightarrow> \<not> init_is_alive (\<lambda>_. None) st" by (simp add: init_is_alive_def)
  have alive: "w_init_is_alive st w = Some (Ok (init_is_alive procs st), v)"
    using dead by (auto simp: w_init_is_alive_def w_call_def w_ok_def procs_def v_def k_call_def Let_def)
  have rec: "on_fs (store_reconcile root me procs st) v = Some (r, w')"
    using assms True by (auto simp: w_reconcile_def w_call_def procs_def v_def k_call_def Let_def split: if_splits)
  show ?thesis
  proof (cases "init_is_alive procs st")
    case True
    then show ?thesis using rec alive \<open>is_live _\<close>
      by (auto simp: reconciled_def w_bind_def w_ok_def on_fs_def store_reconcile_def io_ok_def)
  next
    case False
    then show ?thesis using rec alive \<open>is_live _\<close>
      by (cases "store_save root me (the (r_ok (fst (mark_gone st (w_fs v))))) (snd (mark_gone st (w_fs v)))")
         (auto simp: reconciled_def w_bind_def w_ok_def on_fs_def store_reconcile_def io_ok_def mark_gone_def io_bind_def w_ignore_def w_try_def
            stamp_finished_def Let_def split: prod.splits result.splits if_splits)
  qed
qed (use assms in \<open>auto simp: w_reconcile_def reconciled_def w_ok_def\<close>)

theorem shown_state_is_reconciled_witness:
  "\<exists>r st' w'. w_reconcile ''/r'' 1 (ready_state\<lparr>cs_status := Running, cs_init_pid := 5\<rparr>)
       (calm_world empty_fs empty_pipe (\<lambda>_. RFail 2) (\<lambda>_. None)) = Some (r, w') \<and>
     reconciled ''/r'' 1 (ready_state\<lparr>cs_status := Running, cs_init_pid := 5\<rparr>)
       (calm_world empty_fs empty_pipe (\<lambda>_. RFail 2) (\<lambda>_. None)) = Some (Ok st', w') \<and>
     (case r of Ok (_, st2) \<Rightarrow> st' = st2 | Err _ \<Rightarrow> cs_status st' = Stopped)"
proof -
  let ?w = "calm_world empty_fs empty_pipe (\<lambda>_. RFail 2) (\<lambda>_. None)" and ?st = "ready_state\<lparr>cs_status := Running, cs_init_pid := 5\<rparr>"
  obtain r w' where r: "w_reconcile ''/r'' 1 ?st ?w = Some (r, w')"
    using returnsD [of "w_reconcile ''/r'' 1 ?st"] unfolding w_reconcile_def by (blast intro: returns_intros)
  then show ?thesis using shown_state_is_reconciled [OF r] by blast
qed

end
