(* ===== verification/Sys.thy ===== *)
theory Sys
  imports Security Spawn
begin

text \<open>
  The remaining wrappers of the system library: signal sets and device numbers (\<open>sys/ffi.rs\<close>), the
  process and namespace calls of \<open>sys/mod.rs\<close>, and the log (\<open>logging.rs\<close>).
\<close>

section \<open>Signal sets\<close>

text \<open>The 16 words of \<open>SigSet\<close>; a signal beyond 1024 is out of bounds and panics.\<close>

type_synonym sigset = "u64 list"

definition sigset_empty :: sigset where
  "sigset_empty = replicate 16 0"

definition sigset_full :: sigset where
  "sigset_full = replicate 16 (NOT 0)"

definition sigset_add :: "i32 \<Rightarrow> sigset \<Rightarrow> sigset option" where
  "sigset_add sig bits =
     (if sint sig \<le> 0 then Some bits
      else
        (let n = nat (sint sig) - 1 in
         if n div 64 < length bits then Some (bits[n div 64 := bits ! (n div 64) OR push_bit (n mod 64) 1]) else None))"

definition sigset_contains :: "sigset \<Rightarrow> i32 \<Rightarrow> bool option" where
  "sigset_contains bits sig =
     (if sint sig \<le> 0 then Some False
      else
        (let n = nat (sint sig) - 1 in
         if n div 64 < length bits then Some (bits ! (n div 64) AND push_bit (n mod 64) 1 \<noteq> 0) else None))"

text \<open>The loop that fills a set, as in \<open>block\<close> and \<open>SignalFd::new\<close>.\<close>

definition sigset_of :: "i32 list \<Rightarrow> sigset option" where
  "sigset_of sigs = fold (\<lambda>sig b. Option.bind b (sigset_add sig)) sigs (Some sigset_empty)"

section \<open>Status and device numbers\<close>

definition wcoredump :: "i32 \<Rightarrow> bool" where
  "wcoredump status \<longleftrightarrow> status AND 0x80 \<noteq> 0"

definition makedev :: "u64 \<Rightarrow> u64 \<Rightarrow> u64" where
  "makedev maj mn = (mn AND 0xff) OR push_bit 8 (maj AND 0xfff) OR push_bit 12 (mn AND NOT 0xff) OR push_bit 32 (maj AND NOT 0xfff)"

section \<open>Identity and limits\<close>

definition SC_CLK_TCK :: int where "SC_CLK_TCK = 2"
definition SC_PAGESIZE :: int where "SC_PAGESIZE = 30"
definition O_RDONLY :: u32 where "O_RDONLY = 0"

definition sysconf_or :: "int \<Rightarrow> u64 \<Rightarrow> u64 act" where
  "sysconf_or name d = w_call (KProc (PSysconf name)) (\<lambda>r. w_ok (case reply_num r of
     Ok v \<Rightarrow> if v \<le> 0 then d else word_of_int v | Err _ \<Rightarrow> d))"

definition clock_ticks_per_sec :: "u64 act" where
  "clock_ticks_per_sec = sysconf_or SC_CLK_TCK 100"

definition page_size :: "u64 act" where
  "page_size = sysconf_or SC_PAGESIZE 4096"

definition set_process_name :: "string \<Rightarrow> unit act" where
  "set_process_name name = (case cstr (chars_take 15 name) of
      Ok _ \<Rightarrow> w_call (KProc (PName (chars_take 15 name))) (\<lambda>_. w_ok ())
    | Err _ \<Rightarrow> w_ok ())"

definition set_pdeathsig :: "i32 \<Rightarrow> unit act" where
  "set_pdeathsig sig = w_sys (KProc (PDeathsig sig)) reply_unit (chk ''prctl'' ''PR_SET_PDEATHSIG'')"

definition set_rlimit :: "int \<Rightarrow> u64 \<Rightarrow> u64 \<Rightarrow> unit act" where
  "set_rlimit res soft hard = w_sys (KSec (SRlimit res soft hard)) reply_unit (chk ''setrlimit'' (''resource '' @ show_int res))"

definition RLIMIT_NOFILE :: int where "RLIMIT_NOFILE = 7"

definition nofile_limit :: "(u64 \<times> u64) option act" where
  "nofile_limit = w_call (KSec (SGetRlimit RLIMIT_NOFILE)) (\<lambda>r. w_ok (case reply_fds r of
     Ok (soft, hard) \<Rightarrow> Some (word_of_int soft, word_of_int hard) | Err _ \<Rightarrow> None))"

definition in_bounding_set :: "u8 \<Rightarrow> bool act" where
  "in_bounding_set cap = w_call (KSec (SBoundRead cap)) (\<lambda>r. w_ok (reply_num r = Ok 1))"

definition readlink_str :: "string \<Rightarrow> string act" where
  "readlink_str p = w_bind (w_lift (cstr p)) (\<lambda>_.
     w_bind (w_sys (KReadlink p) reply_data (chk ''readlink'' p)) (\<lambda>d. w_ok (lossy (take 4096 d))))"

section \<open>Namespaces\<close>

definition w_setns :: "int \<Rightarrow> int \<Rightarrow> unit act" where
  "w_setns fd nstype = w_sys (KProc (PSetns fd nstype)) reply_unit (chk ''setns'' (''fd '' @ show_int fd))"

definition unshare_flags :: "u64 \<Rightarrow> unit act" where
  "unshare_flags flags = w_sys (KProc (PUnshare flags)) reply_unit (chk ''unshare'' (''flags '' @ flags_text flags))"

text \<open>\<open>str::find\<close> of a character.\<close>

definition str_find :: "string \<Rightarrow> char \<Rightarrow> nat option" where
  "str_find s c = (let n = length (takeWhile (\<lambda>x. x \<noteq> c) s) in if n < length s then Some n else None)"

text \<open>The text of a failed \<open>parse::<u64>\<close>: digits are read one by one.\<close>

fun u64_scan_error :: "nat \<Rightarrow> string \<Rightarrow> string" where
  "u64_scan_error acc [] = ''invalid digit found in string''"
| "u64_scan_error acc (c # s) = (case to_digit 10 c of
      None \<Rightarrow> ''invalid digit found in string''
    | Some d \<Rightarrow> if acc * 10 + d \<ge> 2 ^ 64 then ''number too large to fit in target type'' else u64_scan_error (acc * 10 + d) s)"

definition u64_error :: "string \<Rightarrow> string" where
  "u64_error s = (case s of
      [] \<Rightarrow> ''cannot parse integer from empty string''
    | c # t \<Rightarrow> u64_scan_error 0 (if c = CHR ''+'' then t else s))"

text \<open>The inode in \<open>pid:[4026532281]\<close>; a bracket that closes before one opens makes the slice panic.\<close>

definition ns_inode_of :: "string \<Rightarrow> u64 res option" where
  "ns_inode_of s =
     (let bad = Err (Parse (''unexpected ns link '' @ debug_str s)) in
      case str_find s (CHR ''['') of
        None \<Rightarrow> Some bad
      | Some op \<Rightarrow> (case str_find s (CHR '']'') of
            None \<Rightarrow> Some bad
          | Some cl \<Rightarrow>
              if cl < op + 1 then None
              else (let t = take (cl - (op + 1)) (drop (op + 1) s) in
                Some (ok_or (Parse (''ns inode '' @ debug_str s @ '': '' @ u64_error t)) (parse_u64 t)))))"

definition ns_inode :: "i32 \<Rightarrow> string \<Rightarrow> u64 act" where
  "ns_inode pid kind =
     (let p = ''/proc/'' @ show_int (sint pid) @ ''/ns/'' @ kind in
      w_bind (w_sys (KReadlink p) reply_data (\<lambda>w e. Io (p @ '': '' @ io_text w e))) (\<lambda>link.
      w_bind (w_panic (ns_inode_of (lossy link))) w_lift))"

text \<open>The end of a visit, the way in, and the whole.\<close>

definition visit_inside :: "int \<Rightarrow> int \<Rightarrow> 'a act \<Rightarrow> 'a act" where
  "visit_inside saved nstype f =
     w_try f (\<lambda>out.
     w_try (w_setns saved nstype) (\<lambda>restored.
     w_bind (close_fd saved) (\<lambda>_. case restored of Err e \<Rightarrow> w_err e | Ok _ \<Rightarrow> w_lift out)))"

definition visit_enter :: "int \<Rightarrow> int \<Rightarrow> int \<Rightarrow> 'a act \<Rightarrow> 'a act" where
  "visit_enter saved tfd nstype f =
     w_try (w_setns tfd nstype) (\<lambda>entered.
     w_bind (close_fd tfd) (\<lambda>_. case entered of
       Err e \<Rightarrow> w_bind (close_fd saved) (\<lambda>_. w_err e)
     | Ok _ \<Rightarrow> visit_inside saved nstype f))"

definition with_namespace_of :: "i32 \<Rightarrow> string \<Rightarrow> int \<Rightarrow> 'a act \<Rightarrow> 'a act" where
  "with_namespace_of pid kind nstype f =
     w_bind (open_path (path_join ''/proc/self/ns'' kind) (O_RDONLY OR O_CLOEXEC)) (\<lambda>saved.
     w_try (open_path (path_join (path_join (path_join ''/proc'' (show_int (sint pid))) ''ns'') kind) (O_RDONLY OR O_CLOEXEC)) (\<lambda>t. case t of
       Err e \<Rightarrow> w_bind (close_fd saved) (\<lambda>_. w_err e)
     | Ok tfd \<Rightarrow> visit_enter saved tfd nstype f))"

section \<open>The log\<close>

record logger =
  lg_level :: u8
  lg_role :: u8

definition ROLES :: "string list" where
  "ROLES = [''cli'', ''shim'', ''init'', ''test'']"

definition logger_start :: logger where
  "logger_start = \<lparr>lg_level = 2, lg_role = 0\<rparr>"

definition level_of_text :: "string \<Rightarrow> u8" where
  "level_of_text v =
     (let t = to_ascii_lowercase (str_trim v) in
      if t = ''error'' then 1 else if t = ''warn'' \<or> t = ''warning'' then 2 else if t = ''info'' then 3
      else if t = ''debug'' then 4 else if t = ''trace'' then 5 else 2)"

definition init_from_env :: "(string \<Rightarrow> string option) \<Rightarrow> logger \<Rightarrow> logger" where
  "init_from_env env lg = lg\<lparr>lg_level := level_of_text (unwrap_or [] (env ''MYRUN_LOG''))\<rparr>"

definition set_level :: "u8 \<Rightarrow> logger \<Rightarrow> logger" where
  "set_level l lg = lg\<lparr>lg_level := l\<rparr>"

definition set_role :: "u8 \<Rightarrow> logger \<Rightarrow> logger" where
  "set_role idx lg = lg\<lparr>lg_role := min idx 3\<rparr>"

definition log_enabled :: "u8 \<Rightarrow> logger \<Rightarrow> bool" where
  "log_enabled l lg \<longleftrightarrow> l \<le> lg_level lg"

definition log_tag :: "u8 \<Rightarrow> string" where
  "log_tag l = (if l = 1 then ''ERROR'' else if l = 2 then ''WARN '' else if l = 3 then ''INFO '' else if l = 4 then ''DEBUG'' else ''TRACE'')"

text \<open>One line on standard error; a failing write is ignored, a role beyond the table would panic.\<close>

definition log_write :: "logger \<Rightarrow> nat \<Rightarrow> u8 \<Rightarrow> string \<Rightarrow> unit act" where
  "log_write lg me l text =
     (if \<not> log_enabled l lg then w_ok ()
      else if unat (lg_role lg) < length ROLES
      then w_call (KFd (FWrite 2 (''[myrun '' @ log_tag l @ '' '' @ ROLES ! unat (lg_role lg) @ '' '' @ show_nat me @ ''] '' @ text @ [CHR 0x0A]))) (\<lambda>_. w_ok ())
      else w_panic None)"

end
