(* ===== verification/Sys_Laws.thy ===== *)
theory Sys_Laws
  imports Sys Clone_Laws "HOL-Library.Sublist"
begin

text \<open>
  Signal sets are sets, device numbers can be decoded, a visit to another namespace comes back, and
  the log cannot panic.
\<close>

section \<open>Signal sets\<close>

definition is_signal :: "i32 \<Rightarrow> bool" where
  "is_signal sig \<longleftrightarrow> 1 \<le> sint sig \<and> sint sig \<le> 1024"

lemma signal_index: "is_signal sig \<Longrightarrow> (nat (sint sig) - 1) div 64 < 16"
proof -
  assume "is_signal sig"
  then have "nat (sint sig) - 1 < 16 * 64" by (auto simp: is_signal_def)
  then show ?thesis by (rule less_mult_imp_div_less)
qed

lemma bit_and_push: "(x AND (2 :: u64) ^ n \<noteq> 0) = bit x n"
  by (simp add: and_exp_eq_0_iff_not_bit)

lemma pred_nat_inject: "1 \<le> a \<Longrightarrow> 1 \<le> b \<Longrightarrow> nat a - 1 = nat b - 1 \<Longrightarrow> a = (b :: int)"
  by arith

lemma bit_push_one: "j < 64 \<Longrightarrow> bit (2 ^ i :: u64) j \<longleftrightarrow> j = i"
  by (auto simp: bit_exp_iff)

lemma update_bit:
  assumes "length bits = 16" "m div 64 < 16"
  shows "bit ((bits[m div 64 := bits ! (m div 64) OR push_bit (m mod 64) (1 :: u64)]) ! (n div 64)) (n mod 64) =
    (n = m \<or> bit (bits ! (n div 64)) (n mod 64))"
proof (cases "n div 64 = m div 64")
  case True
  then have "n = m \<longleftrightarrow> n mod 64 = m mod 64" by (metis div_mult_mod_eq)
  then show ?thesis using True assms by (auto simp: bit_or_iff bit_push_one)
qed auto

lemma sigset_add_contains:
  assumes "length bits = 16" "is_signal sig" "is_signal t"
  shows "\<exists>b. sigset_add sig bits = Some b \<and> length b = 16 \<and>
    sigset_contains b t = Some (t = sig \<or> sigset_contains bits t = Some True)"
proof -
  let ?m = "nat (sint sig) - 1" and ?n = "nat (sint t) - 1"
  let ?b = "bits[?m div 64 := bits ! (?m div 64) OR push_bit (?m mod 64) 1]"
  have i: "?m div 64 < 16" "?n div 64 < 16" using assms signal_index by auto
  have "?n = ?m \<Longrightarrow> sint t = sint sig" using assms unfolding is_signal_def by (intro pred_nat_inject) blast+
  then have eq: "(t = sig) = (?n = ?m)" using signed_word_eqI [of t sig] by blast
  have c: "sigset_contains x t = Some (bit (x ! (?n div 64)) (?n mod 64))" if "length x = 16" for x
    using that assms(3) i(2) by (simp add: sigset_contains_def Let_def is_signal_def bit_and_push)
  have "sigset_add sig bits = Some ?b" using assms i(1) by (simp add: sigset_add_def Let_def is_signal_def)
  moreover have "length ?b = 16" using assms(1) by simp
  moreover have "sigset_contains ?b t = Some (t = sig \<or> sigset_contains bits t = Some True)"
    unfolding c [OF \<open>length ?b = 16\<close>] c [OF assms(1)] update_bit [OF assms(1) i(1)] eq by simp
  ultimately show ?thesis by blast
qed

text \<open>
  A set of signals built by the code is the set of those signals: it is built without a panic, and
  a signal is in it exactly when it was added, for all signals up to 1024.
\<close>

theorem sigset_is_a_set:
  assumes "list_all is_signal sigs" "is_signal t"
  shows "\<exists>b. sigset_of sigs = Some b \<and> sigset_contains b t = Some (t \<in> set sigs)"
proof -
  have "\<exists>b. fold (\<lambda>sig b. Option.bind b (sigset_add sig)) sigs (Some bits) = Some b \<and>
      sigset_contains b t = Some (t \<in> set sigs \<or> sigset_contains bits t = Some True)" if "length bits = 16" for bits
    using assms that
  proof (induction sigs arbitrary: bits)
    case Nil
    then show ?case using signal_index by (auto simp: sigset_contains_def Let_def is_signal_def)
  next
    case (Cons s sigs)
    obtain b where b: "sigset_add s bits = Some b" "length b = 16"
        "sigset_contains b t = Some (t = s \<or> sigset_contains bits t = Some True)"
      using sigset_add_contains [of bits s t] Cons.prems by auto
    then show ?case using Cons.IH [of b] Cons.prems by auto
  qed
  from this [of sigset_empty] show ?thesis
    using assms(2) signal_index [OF assms(2)] by (auto simp: sigset_of_def sigset_empty_def sigset_contains_def Let_def is_signal_def)
qed

theorem sigset_is_a_set_witness:
  "\<exists>b. sigset_of FORWARDED = Some b \<and> sigset_contains b 15 = Some True \<and> sigset_contains b 9 = Some False"
proof -
  have "list_all is_signal FORWARDED" by (simp add: FORWARDED_def is_signal_def)
  then show ?thesis using sigset_is_a_set [of FORWARDED 15] sigset_is_a_set [of FORWARDED 9]
    by (auto simp: is_signal_def FORWARDED_def)
qed

section \<open>Device numbers\<close>

text \<open>\<open>gnu_dev_major\<close> and \<open>gnu_dev_minor\<close>, as documented for the encoding.\<close>

definition dev_major :: "u64 \<Rightarrow> u64" where
  "dev_major d = (drop_bit 8 d AND 0xfff) OR (drop_bit 32 d AND 0xfffff000)"

definition dev_minor :: "u64 \<Rightarrow> u64" where
  "dev_minor d = (d AND 0xff) OR (drop_bit 12 d AND 0xffffff00)"

lemma mask_bits: "(0xff :: u64) = mask 8" "(0xfff :: u64) = mask 12"
    "(0xfffff000 :: u64) = mask 32 AND NOT (mask 12)" "(0xffffff00 :: u64) = mask 32 AND NOT (mask 8)"
  by (simp_all add: mask_eq_exp_minus_1)

lemma bit_makedev:
  "bit (makedev maj mn) i \<longleftrightarrow> i < 64 \<and> (i < 8 \<and> bit mn i \<or> 8 \<le> i \<and> i < 20 \<and> bit maj (i - 8) \<or>
     20 \<le> i \<and> bit mn (i - 12) \<or> 44 \<le> i \<and> bit maj (i - 32))"
  unfolding makedev_def mask_bits by (auto simp: bit_simps)

lemma bit_small: "x < 2 ^ 32 \<Longrightarrow> bit (x :: u64) i \<Longrightarrow> i < 32"
  using less_mask_eq [of x 32] bit_and_iff [of x "mask 32" i] by (auto simp: bit_mask_iff)

lemma makedev_roundtrip:
  assumes "maj < 2 ^ 32" "mn < 2 ^ 32"
  shows "dev_major (makedev maj mn) = maj \<and> dev_minor (makedev maj mn) = mn"
proof
  note small = bit_small [OF assms(1)] bit_small [OF assms(2)]
  have "bit (dev_major (makedev maj mn)) i = bit maj i" if "i < 64" for i
    using that small [of i] bit_small [OF assms(2), of "20 + i"] unfolding dev_major_def mask_bits
    by (cases "i < 12") (auto simp: bit_simps bit_makedev)
  then show "dev_major (makedev maj mn) = maj" by (auto intro: bit_word_eqI)
  have "bit (dev_minor (makedev maj mn)) i = bit mn i" if "i < 64" for i
    using that small [of i] bit_small [OF assms(1), of "i - 20"] unfolding dev_minor_def mask_bits
    by (cases "i < 8") (auto simp: bit_simps bit_makedev)
  then show "dev_minor (makedev maj mn) = mn" by (auto intro: bit_word_eqI)
qed

section \<open>Visiting a namespace\<close>

text \<open>Whether a call moves the process to another namespace.\<close>

definition moves_to :: "int \<Rightarrow> int \<Rightarrow> kcall" where
  "moves_to fd nstype = KProc (PSetns fd nstype)"

fun moves :: "kcall \<Rightarrow> bool" where
  "moves (KProc (PSetns _ _)) = True"
| "moves _ = False"

lemma stays_open: "makes (\<lambda>c. \<not> moves c) (open_path p flags)" "makes (\<lambda>c. \<not> moves c) (close_fd fd)"
  unfolding open_path_def close_fd_def by (intro forward_intros; simp)+

lemma setns_run: "w_setns fd nstype w = Some (r, w') \<Longrightarrow>
    \<exists>x. since w w' = [(moves_to fd nstype, x)] \<and> later w w' \<and> (is_ok r \<longleftrightarrow> \<not> failed x)"
proof -
  assume a: "w_setns fd nstype w = Some (r, w')"
  let ?x = "w_answer w (w_log w) (moves_to fd nstype)"
  have "forward (w_setns fd nstype)" unfolding w_setns_def by (intro forward_intros)
  moreover have "is_ok (r_map_err g (reply_unit z)) \<longleftrightarrow> \<not> failed z" for g and z :: reply by (cases z) auto
  ultimately show ?thesis using w_sys_since [OF a [unfolded w_setns_def]] laterI [of "w_setns fd nstype" w r w', OF a] by (auto simp: moves_to_def)
qed

lemma open_path_run: "open_path p flags w = Some (Ok fd, w') \<Longrightarrow> (KFd (FOpen p flags), RNum fd) \<in> set (since w w')"
proof -
  assume a: "open_path p flags w = Some (Ok fd, w')"
  then have s: "w_sys (KFd (FOpen p flags)) reply_num (chk ''open'' p) w = Some (Ok fd, w')"
    by (auto simp: open_path_def w_bind_def w_lift_def split: result.splits)
  have "reply_num z = Ok fd \<Longrightarrow> z = RNum fd" for z by (cases z) auto
  then show ?thesis using w_sys_since [OF s] by (auto simp: eq_commute [of "Ok fd"])
qed

abbreviation stays :: "klog \<Rightarrow> bool" where
  "stays t \<equiv> list_all (\<lambda>(c, _). \<not> moves c) t"

abbreviation never_moved :: "klog \<Rightarrow> bool" where
  "never_moved t \<equiv> list_all (\<lambda>(c, x). moves c \<longrightarrow> failed x) t"

lemma stays_since: "makes (\<lambda>c. \<not> moves c) m \<Longrightarrow> m w = Some (r, w') \<Longrightarrow> later w w' \<and> stays (since w w')"
  using makesD [of "\<lambda>c. \<not> moves c" m w r w'] makes_later [of "\<lambda>c. \<not> moves c" m] by (auto simp: list_all_iff)

lemma stays_never_moved: "stays t \<Longrightarrow> never_moved t"
  by (auto simp: list_all_iff)

lemma moved: "(c, x) \<in> set t \<Longrightarrow> moves c \<Longrightarrow> \<not> failed x \<Longrightarrow> \<not> never_moved t"
  by (auto simp: list_all_iff)

lemma close_fd_bind:
  assumes "w_bind (close_fd fd) m w = Some (r, w')"
  obtains u where "m () u = Some (r, w')" "later w u" "stays (since w u)"
proof -
  obtain u where u: "close_fd fd w = Some (Ok (), u)" using close_fd_run by blast
  then have "m () u = Some (r, w')" using assms by (simp add: w_bind_def)
  then show thesis using that stays_since [OF stays_open(2) u] by blast
qed

lemma refused_visit: "w_bind (close_fd fd) (\<lambda>_. w_err e) w = Some (r, w') \<Longrightarrow> later w w' \<and> stays (since w w')"
  by (erule close_fd_bind) (simp add: w_err_def)

text \<open>The last move of a trace leads to \<open>saved\<close>; it succeeded unless the result is an error.\<close>

definition came_back :: "int \<Rightarrow> int \<Rightarrow> 'a res \<Rightarrow> klog \<Rightarrow> bool" where
  "came_back saved nstype r t \<longleftrightarrow>
     (\<exists>before x after. t = before @ (moves_to saved nstype, x) # after \<and> stays after \<and> (is_ok r \<longrightarrow> \<not> failed x))"

lemma came_back_after: "came_back saved nstype r t \<Longrightarrow> came_back saved nstype r (s @ t)"
  unfolding came_back_def by (metis append.assoc)

lemma w_try_run: "w_try m f w = Some (r, w') \<longleftrightarrow> (\<exists>x u. m w = Some (x, u) \<and> f x u = Some (r, w'))"
  by (auto simp: w_try_def split: option.splits)

lemma visit_inside_returns:
  assumes "visit_inside saved nstype f w = Some (r, w')" "forward f"
  shows "later w w' \<and> came_back saved nstype r (since w w')"
proof -
  obtain out u d v where u: "f w = Some (out, u)" "w_setns saved nstype u = Some (d, v)"
      "w_bind (close_fd saved) (\<lambda>_. case d of Err e \<Rightarrow> w_err e | Ok _ \<Rightarrow> w_lift out) v = Some (r, w')"
    using assms(1) unfolding visit_inside_def w_try_run by blast
  obtain z where z: "since u v = [(moves_to saved nstype, z)]" "later u v" "is_ok d \<longleftrightarrow> \<not> failed z" using setns_run [OF u(2)] by blast
  obtain v' where v': "(case d of Err e \<Rightarrow> w_err e | Ok _ \<Rightarrow> w_lift out) v' = Some (r, w')" "later v v'" "stays (since v v')"
    by (rule close_fd_bind [OF u(3)])
  have "v' = w' \<and> (is_ok r \<longrightarrow> is_ok d)" using v'(1) by (cases d) (auto simp: w_err_def w_lift_def)
  then have d: "v' = w'" "is_ok r \<longrightarrow> is_ok d" by blast+
  have w: "later w u" using laterI [of f w out u, OF u(1) assms(2)] .
  have "since w w' = since w u @ (moves_to saved nstype, z) # since v v'"
    unfolding d(1) [symmetric] since_trans [OF w later_trans [OF z(2) v'(2)]] since_trans [OF z(2) v'(2)] z(1) by simp
  then show ?thesis using d z(3) v'(3) later_trans [OF w later_trans [OF z(2) v'(2)]] unfolding came_back_def by blast
qed

lemma visit_enter_returns:
  assumes "visit_enter saved tfd nstype f w = Some (r, w')" "forward f"
  shows "later w w' \<and> (never_moved (since w w') \<or> came_back saved nstype r (since w w'))"
proof -
  obtain c u where u: "w_setns tfd nstype w = Some (c, u)"
      "w_bind (close_fd tfd) (\<lambda>_. case c of Err e \<Rightarrow> w_bind (close_fd saved) (\<lambda>_. w_err e) | Ok _ \<Rightarrow> visit_inside saved nstype f) u = Some (r, w')"
    using assms(1) unfolding visit_enter_def w_try_run by blast
  obtain x where x: "since w u = [(moves_to tfd nstype, x)]" "later w u" "is_ok c \<longleftrightarrow> \<not> failed x" using setns_run [OF u(1)] by blast
  obtain v where v: "(case c of Err e \<Rightarrow> w_bind (close_fd saved) (\<lambda>_. w_err e) | Ok _ \<Rightarrow> visit_inside saved nstype f) v = Some (r, w')"
      "later u v" "stays (since u v)" by (rule close_fd_bind [OF u(2)])
  have rest: "later v w' \<and> (if is_ok c then came_back saved nstype r (since v w') else stays (since v w'))"
  proof (cases c)
    case (Ok y)
    then have "visit_inside saved nstype f v = Some (r, w')" using v(1) by simp
    from visit_inside_returns [OF this assms(2)] show ?thesis using Ok by simp
  next
    case (Err e)
    then have "w_bind (close_fd saved) (\<lambda>_. w_err e) v = Some (r, w')" using v(1) by simp
    from refused_visit [OF this] show ?thesis using Err by simp
  qed
  then have rest': "later v w'" by blast
  have "since w w' = (since w u @ since u v) @ since v w'"
    using since_trans [OF x(2), of w'] since_trans [OF v(2) rest'] later_trans [OF v(2) rest'] by simp
  moreover have "never_moved (since w u @ since u v)" if "\<not> is_ok c"
    using that x stays_never_moved [OF v(3)] by (simp del: split_paired_All)
  moreover have "later w w'" using later_trans [OF x(2) later_trans [OF v(2) rest']] .
  ultimately show ?thesis
    using rest stays_never_moved [of "since v w'"] came_back_after [of saved nstype r "since v w'" "since w u @ since u v"]
    by (cases "is_ok c") (simp_all only: list_all_append if_True if_False simp_thms)
qed

lemma visit_target_returns:
  assumes "(case b of Err e \<Rightarrow> w_bind (close_fd saved) (\<lambda>_. w_err e) | Ok tfd \<Rightarrow> visit_enter saved tfd nstype f) w = Some (r, w')" "forward f"
  shows "later w w' \<and> (never_moved (since w w') \<or> came_back saved nstype r (since w w'))"
proof (cases b)
  case (Ok tfd)
  then have "visit_enter saved tfd nstype f w = Some (r, w')" using assms(1) by simp
  from visit_enter_returns [OF this assms(2)] show ?thesis .
next
  case (Err e)
  then have "w_bind (close_fd saved) (\<lambda>_. w_err e) w = Some (r, w')" using assms(1) by simp
  from refused_visit [OF this] show ?thesis using stays_never_moved by blast
qed

text \<open>
  C34: A visit to the namespace of another process comes back: unless the process could not enter at
  all, the last move is the one to the descriptor of its own namespace that was opened before,
  whatever the visitor did and whether or not it failed; and when the visit reports
  success the process is back.
\<close>

theorem namespace_visit_returns:
  assumes "with_namespace_of pid kind nstype f w = Some (r, w')" "forward f"
  shows "never_moved (since w w') \<or> (\<exists>saved before. came_back saved nstype r (since w w') \<and> prefix before (since w w') \<and> stays before \<and>
     (KFd (FOpen (path_join ''/proc/self/ns'' kind) (O_RDONLY OR O_CLOEXEC)), RNum saved) \<in> set before)"
proof -
  let ?p = "path_join ''/proc/self/ns'' kind" and ?q = "path_join (path_join (path_join ''/proc'' (show_int (sint pid))) ''ns'') kind"
  obtain a u where A: "open_path ?p (O_RDONLY OR O_CLOEXEC) w = Some (a, u)"
    using assms(1) by (cases "open_path ?p (O_RDONLY OR O_CLOEXEC) w") (auto simp: with_namespace_of_def w_bind_def)
  note sA = stays_since [OF stays_open(1) A]
  show ?thesis
  proof (cases a)
    case (Err e)
    then have "w' = u" using A assms(1) by (simp add: with_namespace_of_def w_bind_def)
    then show ?thesis using sA stays_never_moved by blast
  next
    case (Ok saved)
    obtain b v where B: "open_path ?q (O_RDONLY OR O_CLOEXEC) u = Some (b, v)"
        "(case b of Err e \<Rightarrow> w_bind (close_fd saved) (\<lambda>_. w_err e) | Ok tfd \<Rightarrow> visit_enter saved tfd nstype f) v = Some (r, w')"
      using A Ok assms(1) unfolding with_namespace_of_def by (auto simp: w_bind_def w_try_run)
    note sB = stays_since [OF stays_open(1) B(1)]
    note rest = visit_target_returns [OF B(2) assms(2)]
    have s: "since w w' = since w u @ since u v @ since v w'"
      using since_trans [of w u w'] since_trans [of u v w'] sA sB rest later_trans [of u v w'] by simp
    show ?thesis
    proof (cases "never_moved (since v w')")
      case True
      then show ?thesis using s sA sB stays_never_moved by auto
    next
      case False
      then have "came_back saved nstype r (since w w')" using rest s came_back_after [of saved nstype r "since v w'" "since w u @ since u v"] by simp
      then show ?thesis using s sA open_path_run [OF A [unfolded Ok]] by (intro disjI2 exI [of _ saved] exI [of _ "since w u"]) simp
    qed
  qed
qed

definition open_host :: world where
  "open_host = calm_world empty_fs empty_pipe
     (\<lambda>c. case c of KFd (FOpen p _) \<Rightarrow> RNum (if p = ''/proc/self/ns/net'' then 5 else 6) | _ \<Rightarrow> RDone) (\<lambda>_. None)"

lemma visit_paths:
  "path_join ''/proc/self/ns'' ''net'' = ''/proc/self/ns/net''"
  "path_join (path_join (path_join ''/proc'' (show_int (sint (7 :: i32)))) ''ns'') ''net'' = ''/proc/7/ns/net''"
  by code_simp+

lemma visit_texts: "cstr ''/proc/self/ns/net'' = Ok ()" "cstr ''/proc/7/ns/net'' = Ok ()"
  by code_simp+

text \<open>A visitor that fails inside the network namespace of process 7.\<close>

theorem namespace_visit_returns_witness:
  "\<exists>r w'. with_namespace_of 7 ''net'' 0x40000000 (w_err (Io ''no link'') :: unit act) open_host = Some (r, w') \<and>
     (\<exists>saved before. came_back saved 0x40000000 r (since open_host w') \<and> stays before \<and>
       (KFd (FOpen ''/proc/self/ns/net'' (O_RDONLY OR O_CLOEXEC)), RNum saved) \<in> set before)"
proof -
  obtain r w' where run: "with_namespace_of 7 ''net'' 0x40000000 (w_err (Io ''no link'') :: unit act) open_host = Some (r, w')"
      "(moves_to 6 0x40000000, RDone) \<in> set (since open_host w')"
    unfolding with_namespace_of_def visit_paths
    by (simp add: visit_enter_def visit_inside_def open_path_def close_fd_def w_setns_def open_host_def run_simps visit_texts
        moves_to_def since_def)
  have "forward (w_err (Io ''no link'') :: unit act)" by (intro forward_intros)
  note visit = namespace_visit_returns [OF run(1) this]
  have "\<not> never_moved (since open_host w')" using moved [OF run(2)] by (simp add: moves_to_def)
  with visit obtain saved before where "came_back saved 0x40000000 r (since open_host w')" "stays before"
      "(KFd (FOpen (path_join ''/proc/self/ns'' ''net'') (O_RDONLY OR O_CLOEXEC)), RNum saved) \<in> set before" by blast
  then show ?thesis using run(1) unfolding visit_paths by blast
qed

section \<open>The log\<close>

text \<open>The role stays inside the table whatever is set, so a message never panics.\<close>

inductive logging :: "logger \<Rightarrow> bool" where
  start: "logging logger_start"
| from_env: "logging lg \<Longrightarrow> logging (init_from_env env lg)"
| level: "logging lg \<Longrightarrow> logging (set_level l lg)"
| role: "logging lg \<Longrightarrow> logging (set_role idx lg)"

lemma logging_role: "logging lg \<Longrightarrow> lg_role lg \<le> 3"
  by (induction rule: logging.induct) (auto simp: logger_start_def init_from_env_def set_level_def set_role_def)

lemma log_write_returns:
  assumes "logging lg"
  shows "\<exists>w'. log_write lg me l t w = Some (Ok (), w')"
proof -
  have "unat (lg_role lg) < length ROLES" using logging_role [OF assms] by (simp add: ROLES_def word_le_nat_alt)
  then show ?thesis by (simp add: log_write_def w_ok_def w_call_def k_call_def Let_def)
qed

end
