(* ===== verification/Spec2Isabelle.thy ===== *)
theory Spec2Isabelle
  imports Ipam_Pool Toml_Laws Init_Run Netstate_Laws Stop_Laws Main_Laws Sys_Laws
begin

text \<open>
  \<^bold>\<open>A verification library for myrun\<close>, a container runtime written in Rust.

  \<^bold>\<open>The program.\<close>  \<open>myrun\<close> reads a command line and runs one command.  To start a container it
  validates the configuration, records the container in a store on disk, clones an init process
  into new namespaces, gives it a control group and a network interface while init waits on a
  socket pair, lets init mount its root file system, drop capabilities and install a system
  call filter, and then supervises it, in the foreground or from a shim process of its own.
  Whatever was done before a failing step is undone in reverse order.  Several invocations may
  run at the same time; files are replaced atomically and read-modify-write cycles are
  serialised by file locks.

  \<^bold>\<open>Conventions.\<close>  Machine integers are words of their width.  Rust strings are lists of
  bytes (\<open>char\<close>), with UTF-8 validity stated where the code relies on it.  \<open>Result\<close> is the type
  \<open>result\<close> with \<open>r_bind\<close> for the question mark operator; a panic or a call that does not
  return is \<open>None\<close> around the result.  Code that only computes is functions; code that only
  uses files runs on the record \<open>fs\<close> of \<open>Fs\<close>, in which every call may fail and a failing write
  may have written part of the data; everything else runs on the record \<open>world\<close> of \<open>Kernel\<close>.  A
  world has an unknown function that answers each call of the kernel from all calls made so far,
  so statements about all worlds hold for every behaviour of the kernel and of the \<open>iptables\<close>
  program; the calls made, with their answers, are a log, and statements about the order of
  effects are statements about that log (\<open>since w w'\<close> is what was logged between two worlds).
  Operations that also have local state or an undo stack are the \<open>lact\<close> of \<open>Undo\<close>.  Where a
  proof depends on what the kernel does, that is a locale or a hypothesis: \<open>bpf_machine\<close>,
  \<open>cap_kernel\<close>, \<open>packet_filter\<close>, a clock that advances.  A clone call carries the image of the
  child (\<open>child_start\<close>), so that what the new process does is a function of the log.  A file lock
  is waited for (\<open>with_lock\<close>): a world says which locks another process holds for ever (\<open>w_held\<close>),
  and an operation on such a lock does not return.

  \<^bold>\<open>The ground.\<close>
  \<^item> \<open>Prelude\<close>, \<open>Rust_Str\<close>, \<open>F64\<close>: results, lists, words; strings of the Rust library (trimming,
    splitting, parsing and printing numbers, UTF-8); binary floating point.
  \<^item> \<open>Errors\<close> (\<open>error.rs\<close>, \<open>fault.rs\<close>): the error type, exit codes, fault injection.
  \<^item> \<open>Rollback\<close> (\<open>rollback.rs\<close>): the stack of undo actions; dropping it runs all of them in
    reverse order, committing it none.
  \<^item> \<open>Util\<close> (\<open>util/mod.rs\<close>, \<open>runtime/mod.rs\<close>): sizes, times, ids, interface names.
  \<^item> \<open>Fs\<close> (\<open>util/mod.rs\<close>, \<open>sys/mod.rs\<close>): files, locks and atomic replacement, all or nothing
    whatever fails.
  \<^item> \<open>Json\<close>, \<open>Json_Laws\<close> (\<open>util/json.rs\<close>): value type, writers and parser; what is written
    is read back.
  \<^item> \<open>Toml\<close>, \<open>Toml_Laws\<close> (\<open>util/toml.rs\<close>): the parser of configuration files; a printed document
    is read as the tree it describes, and ASCII text never makes the parser panic.
  \<^item> \<open>Kernel\<close>, \<open>Undo\<close>: worlds, operations on them, and the rules by which the laws follow the
    structure of an operation (\<open>forward\<close>, \<open>makes\<close>, \<open>returns\<close>, \<open>yields\<close>).
  \<^item> \<open>Sys\<close>, \<open>Sys_Laws\<close> (\<open>sys/ffi.rs\<close>, \<open>sys/mod.rs\<close>, \<open>logging.rs\<close>): signal sets are sets, device
    numbers decode, a visit to another namespace comes back, the log cannot panic.

  \<^bold>\<open>Confinement.\<close>
  \<^item> \<open>Seccomp\<close> (\<open>sys/seccomp.rs\<close>): the filter program; run by any machine that satisfies the
    locale \<open>bpf_machine\<close> it decides every system call as the deny list of the source says; the calls on which
    \<open>docs/security.md\<close> has another list are left out of that statement.
  \<^item> \<open>Caps\<close> (\<open>sys/caps.rs\<close>): keep sets and their application to a kernel described by the
    locale \<open>cap_kernel\<close>.
  \<^item> \<open>Mountinfo\<close>, \<open>Rootfs\<close> (\<open>sys/mount.rs\<close>, \<open>runtime/filesystem.rs\<close>): the mount table, and the
    construction of the root.
  \<^item> \<open>Security\<close> (\<open>runtime/security.rs\<close>, \<open>sys/signal.rs\<close>): the order in which a process is confined;
    signal masks and descriptors.
  \<^item> \<open>Cgroup\<close>, \<open>Cgroup_Laws\<close> (\<open>runtime/cgroup.rs\<close>): control groups; limits are accepted when creation
    succeeds, a failed creation ends with the removal of its directory, removal ends.

  \<^bold>\<open>State and network.\<close>
  \<^item> \<open>Config_Model\<close>, \<open>Config_Laws\<close> (\<open>config.rs\<close>): the configuration, its JSON form and its
    validation; what validation guarantees, that it is idempotent, and the round trip.
  \<^item> \<open>State\<close>, \<open>State_Laws\<close>, \<open>Store_Laws\<close> (\<open>runtime/state.rs\<close>): the state machine with its
    reachable states (transitions, recorded exits, reconciliation and the direct assignments of
    \<open>Stopped\<close>), the state file, and the store's operations.
  \<^item> \<open>Address_Pool\<close>, \<open>Ipam\<close>, \<open>Ipam_Laws\<close>, \<open>Ipam_Pool\<close> (\<open>runtime/ipam.rs\<close>): the contract of an
    address pool as a locale, the lease file, its invariant under any failures and its
    refinement of the contract.
  \<^item> \<open>Netlink\<close> (\<open>sys/netlink.rs\<close>): messages, attributes, the receive loop, IPv4 addresses.
  \<^item> \<open>Iptables\<close>, \<open>Iptables_Laws\<close> (\<open>runtime/nat.rs\<close>): firewall rules; for every packet filter in the
    sense of the locale \<open>packet_filter\<close> (which lists and deletes rules of any form, and quotes comments
    as \<open>iptables -S\<close> does) the clean-up removes exactly the rules with the tag, provided no foreign
    line contains the text that the code looks for.
  \<^item> \<open>Network\<close>, \<open>Netstate_Laws\<close> (\<open>runtime/network.rs\<close>): the bridge, the interface pair and their
    undo actions; init configures the network that the supervisor set up.

  \<^bold>\<open>Processes.\<close>
  \<^item> \<open>Process\<close>, \<open>Spawn\<close> (\<open>sys/process.rs\<close>): exit statuses, signals, waiting, process identity;
    cloning, with both sides of the clone.
  \<^item> \<open>Ipc\<close> (\<open>runtime/ipc.rs\<close>): the framed channel between supervisor and init under any
    fragmentation of reads and writes.
  \<^item> \<open>Supervisor\<close> (\<open>runtime/supervisor.rs\<close>) with \<open>Calls\<close>, \<open>Launch_Laws\<close>, \<open>Clone_Laws\<close>,
    \<open>Launch_Undo\<close>, \<open>Launch_Order\<close>, \<open>Launch_Run\<close>: a launch that fails kills the process it made, and
    one that succeeds took its steps in order and saved the running state last.
  \<^item> \<open>Init\<close>, \<open>Init_Laws\<close>, \<open>Init_Run\<close> (\<open>runtime/init.rs\<close>): the workload starts only when its root
    is exchanged, its paths masked and its capabilities, flags and filter in place.
  \<^item> \<open>Exit_Laws\<close>: the supervisor ends after init, with the status that init reported.
  \<^item> \<open>Shim\<close>, \<open>Lifecycle\<close>, \<open>Stop_Laws\<close> (\<open>runtime/shim.rs\<close>, \<open>runtime/lifecycle.rs\<close>): detached
    containers and the operations on containers; stopping returns unless a lock is held for ever.

  \<^bold>\<open>The program as a whole.\<close>
  \<^item> \<open>Cli\<close>, \<open>Cli_Laws\<close> (\<open>cli.rs\<close>): the parser; commands are read back, unknown options of the commands
    with options refused, options override the configuration file wherever they stand.  The option loops of the commands share
    the locale \<open>option_loop\<close>.
  \<^item> \<open>Stats\<close>, \<open>Stats_Laws\<close> (\<open>runtime/stats.rs\<close>): collecting statistics changes nothing.
  \<^item> \<open>Main_Program\<close>, \<open>Main_Laws\<close> (\<open>main.rs\<close>): every command up to its exit status; a misspelled option
    does nothing, \<open>stop\<close>, \<open>kill\<close>, \<open>rm\<close>, \<open>pause\<close> and \<open>unpause\<close> try all their containers, and the process
    a launch clones becomes init through this very entry point.

  \<^bold>\<open>Termination and fuel.\<close>  Loops over lists are structural; the netlink walk, the search for
  a free address, the reads of the channel and the options of the command line have measures.
  Fuel is used by the JSON parser (\<open>p_value_enough\<close>: the length of the text plus one is enough), by
  trimming, UTF-8 validation, path ancestors and the notify pipe, always with the length of the
  input, of which each step consumes at least one byte.  The attempts to remove a control group
  and the grace period of init are counted in the code itself.  Loops that wait for the kernel or
  for other processes are \<open>partial_function\<close>s, whose value is \<open>None\<close> when they never end:
  \<open>memfd_write\<close>, \<open>w_reap_all\<close>, \<open>poll_fd\<close>, \<open>poll_chan\<close>, \<open>forward_signals\<close>, \<open>relay_signals\<close>,
  \<open>supervise\<close>, \<open>exit_loop\<close>, \<open>read_verdict\<close>, \<open>stop_wait\<close>, \<open>wait_loop\<close>, \<open>attached_loop\<close>,
  \<open>copy_available\<close>, \<open>follow_loop\<close> and \<open>follow_stats\<close>.  That \<open>exit_loop\<close> ends once init is gone and
  \<open>stop_wait\<close> when the clock advances are theorems.  The others end only if the outside
  makes them end: statements about operations that use them are about runs that return.

  \<^bold>\<open>Not modelled.\<close>  The test support, the declarations of the C library (\<open>sys/ffi.rs\<close>) and the memory
  layout of its structures; messages to the log, except for the logger itself; closing of
  descriptors that go out of scope, except where the code closes them; and
  \<open>signal::wait_readable\<close>, which only tests use.  Other processes change the files of
  the runtime only while an operation sleeps (\<open>w_others\<close>); a locked section is not interrupted.
\<close>

end
